(* ===== verification/Prelude.thy ===== *)
theory Prelude
  imports Complex_Main "HOL-Library.AList"
begin

text \<open>
  Shared vocabulary of the development.

  \<^item> Python's insertion-ordered \<^verbatim>\<open>dict\<close> is an association list with distinct keys:
    \<open>AList.update\<close> overwrites in place and appends a new key at the end, as
    \<^verbatim>\<open>d[k] = v\<close> does; \<open>AList.delete\<close> is \<^verbatim>\<open>d.pop(k, None)\<close>;
    iterating over \<^verbatim>\<open>d.values()\<close> is \<open>map snd d\<close>.
  \<^item> Strings are byte strings in UTF-8, so a literal of the source is its own bytes.
    \<open>py_len\<close> counts code points (every byte that is not a continuation byte), as
    \<^verbatim>\<open>len\<close> does; \<open>py_strip\<close> and \<open>py_lower\<close> treat the ASCII white space and
    letters.
  \<^item> An operation that can raise returns \<open>error + value\<close> together with the state it
    leaves behind; the locales at the end are the contracts such operations share.
\<close>

named_theorems result_defs \<open>combinators of results that proofs unfold\<close>
named_theorems record_frames \<open>what an operation leaves unchanged\<close>

type_synonym time = int
type_synonym ('k, 'v) dict = "('k \<times> 'v) list"

section \<open>Results\<close>

definition is_ok :: "'e + 'a \<Rightarrow> bool" where
  "is_ok r = (case r of Inl _ \<Rightarrow> False | Inr _ \<Rightarrow> True)"

definition bind_result :: "'e + 'a \<Rightarrow> ('a \<Rightarrow> 'e + 'b) \<Rightarrow> 'e + 'b" where
  "bind_result r f = (case r of Inl e \<Rightarrow> Inl e | Inr a \<Rightarrow> f a)"

lemma is_ok_simps [simp]: "is_ok (Inr a)" "\<not> is_ok (Inl e)"
  by (simp_all add: is_ok_def)

lemma bind_result_simps [simp]:
  "bind_result (Inl e) f = Inl e" "bind_result (Inr a) f = f a"
  by (simp_all add: bind_result_def)

lemma bind_result_Inr_iff [result_defs]:
  "bind_result r f = Inr b \<longleftrightarrow> (\<exists>a. r = Inr a \<and> f a = Inr b)"
  by (cases r) auto

text \<open>Sequencing of operations that can raise and change a state: \<^verbatim>\<open>a; b\<close>.\<close>

definition seq_st :: "('e + 'a) \<times> 's \<Rightarrow> ('a \<Rightarrow> 's \<Rightarrow> ('e + 'b) \<times> 's) \<Rightarrow> ('e + 'b) \<times> 's" where
  "seq_st p k = (case p of (Inl e, s) \<Rightarrow> (Inl e, s) | (Inr a, s) \<Rightarrow> k a s)"

definition map_err :: "('e \<Rightarrow> 'f) \<Rightarrow> ('e + 'a) \<times> 's \<Rightarrow> ('f + 'a) \<times> 's" where
  "map_err f p = (case p of (Inl e, s) \<Rightarrow> (Inl (f e), s) | (Inr a, s) \<Rightarrow> (Inr a, s))"

definition lift_result :: "('a \<Rightarrow> 'b) \<Rightarrow> ('e + 'a) \<times> 's \<Rightarrow> ('e + 'b) \<times> 's" where
  "lift_result f p = (case p of (Inl e, s) \<Rightarrow> (Inl e, s) | (Inr a, s) \<Rightarrow> (Inr (f a), s))"

lemma seq_st_simps [simp]:
  "seq_st (Inl e, s) k = (Inl e, s)" "seq_st (Inr a, s) k = k a s"
  by (simp_all add: seq_st_def)

lemma snd_map_err [simp]: "snd (map_err f p) = snd p"
  by (simp add: map_err_def split: prod.splits sum.splits)

lemma snd_lift_result [simp]: "snd (lift_result f p) = snd p"
  by (simp add: lift_result_def split: prod.splits sum.splits)

lemma map_err_Inr_iff [simp]: "map_err f p = (Inr a, s) \<longleftrightarrow> p = (Inr a, s)"
  by (auto simp: map_err_def split: prod.splits sum.splits)

lemma lift_result_Inr_iff: "lift_result f p = (Inr b, s) \<longleftrightarrow> (\<exists>a. p = (Inr a, s) \<and> f a = b)"
  by (auto simp: lift_result_def split: prod.splits sum.splits)

lemma seq_st_cases:
  assumes "\<And>e t. p = (Inl e, t) \<Longrightarrow> P t" and "\<And>a t. p = (Inr a, t) \<Longrightarrow> P (snd (k a t))"
  shows "P (snd (seq_st p k))"
  using assms by (cases p; cases "fst p") auto

text \<open>A loop over a list that stops at the first exception, as a Python \<^verbatim>\<open>for\<close> does.\<close>

fun fold_result :: "('s \<Rightarrow> 'x \<Rightarrow> 'e + 's) \<Rightarrow> 's \<Rightarrow> 'x list \<Rightarrow> 'e + 's" where
  "fold_result f s [] = Inr s"
| "fold_result f s (x # xs) = bind_result (f s x) (\<lambda>t. fold_result f t xs)"

lemma fold_result_append:
  "fold_result f s (xs @ ys) = bind_result (fold_result f s xs) (\<lambda>t. fold_result f t ys)"
  by (induction xs arbitrary: s) (auto simp: bind_result_def split: sum.splits)

lemma fold_result_inv:
  assumes "\<And>s x t. x \<in> set xs \<Longrightarrow> P s \<Longrightarrow> f s x = Inr t \<Longrightarrow> P t"
    and "P s" and "fold_result f s xs = Inr t"
  shows "P t"
  using assms
proof (induction xs arbitrary: s)
  case Nil
  then show ?case by simp
next
  case (Cons x xs)
  then obtain u where u: "f s x = Inr u" "fold_result f u xs = Inr t"
    by (auto simp: bind_result_Inr_iff)
  from Cons.prems(1,2) u(1) have "P u" by (meson list.set_intros(1))
  then show ?case using Cons.IH Cons.prems(1) u(2) by (meson list.set_intros(2))
qed

section \<open>Dictionaries in insertion order\<close>

definition dict_keys :: "('k, 'v) dict \<Rightarrow> 'k list" where
  "dict_keys d = map fst d"

definition dict_vals :: "('k, 'v) dict \<Rightarrow> 'v list" where
  "dict_vals d = map snd d"

lemma map_of_update [simp]: "map_of (AList.update k v d) = (map_of d)(k \<mapsto> v)"
  by (rule update_conv')

lemma map_of_delete [simp]: "map_of (AList.delete k d) = (map_of d)(k := None)"
  by (rule delete_conv')

declare AList.distinct_update [simp] AList.distinct_delete [simp]

lemma set_update_cases:
  "(x, y) \<in> set (AList.update k v d) \<Longrightarrow> (x = k \<and> y = v) \<or> (x, y) \<in> set d"
  by (induction d) (auto split: if_splits)

lemma set_update_other:
  "(x, y) \<in> set d \<Longrightarrow> x \<noteq> k \<Longrightarrow> (x, y) \<in> set (AList.update k v d)"
  by (induction d) auto

lemma update_existing_length:
  "k \<in> set (map fst d) \<Longrightarrow> length (AList.update k v d) = length d"
  by (induction d) auto

lemma update_existing_keys:
  "map_of d k \<noteq> None \<Longrightarrow> map fst (AList.update k v d) = map fst d"
  by (induction d) (auto split: if_splits)

lemma update_fresh:
  "map_of d k = None \<Longrightarrow> AList.update k v d = d @ [(k, v)]"
  by (induction d) (auto split: if_splits)

lemma map_of_val_in_vals: "map_of d k = Some v \<Longrightarrow> v \<in> set (map snd d)"
  by (force dest: map_of_SomeD)

lemma val_has_key:
  "distinct (map fst d) \<Longrightarrow> v \<in> set (map snd d) \<Longrightarrow> \<exists>k. map_of d k = Some v"
  by (force intro: map_of_is_SomeI)

text \<open>The first value of a dictionary with a property (\<^verbatim>\<open>next(... for ... if ..., None)\<close>).\<close>

lemma find_Some_in: "List.find P xs = Some x \<Longrightarrow> x \<in> set xs \<and> P x"
  by (induction xs) (auto split: if_splits)

lemma find_None_all: "List.find P xs = None \<longleftrightarrow> (\<forall>x \<in> set xs. \<not> P x)"
  by (induction xs) auto

text \<open>An element of the first \<open>n\<close> of a sorted list has fewer than \<open>n\<close> elements before it.\<close>

lemma sorted_take_least:
  assumes "sorted (map k xs)" and "m \<in> set (take n xs)"
  shows "length (filter (\<lambda>x. k x < k m) xs) < n"
proof -
  obtain i where i: "i < n" "i < length xs" "xs ! i = m" using assms(2) by (auto simp: in_set_conv_nth)
  have "k m \<le> k x" if x: "x \<in> set (drop i xs)" for x
  proof -
    obtain j where "j < length (drop i xs)" "x = drop i xs ! j" using x by (metis in_set_conv_nth)
    then have "i + j < length xs" "x = xs ! (i + j)" by simp_all
    then show ?thesis using sorted_nth_mono [OF assms(1), of i "i + j"] i by simp
  qed
  then have late: "filter (\<lambda>x. k x < k m) (drop i xs) = []" by (auto simp: filter_empty_conv dest: leD)
  have "filter (\<lambda>x. k x < k m) xs = filter (\<lambda>x. k x < k m) (take i xs) @ filter (\<lambda>x. k x < k m) (drop i xs)"
    by (metis append_take_drop_id filter_append)
  then have "length (filter (\<lambda>x. k x < k m) xs) \<le> length (take i xs)"
    unfolding late by (simp add: length_filter_le del: length_take)
  then show ?thesis using i by simp
qed

section \<open>Strings\<close>

definition is_continuation :: "char \<Rightarrow> bool" where
  "is_continuation c = (let n = (of_char c :: int) in 128 \<le> n \<and> n < 192)"

definition py_len :: "string \<Rightarrow> nat" where
  "py_len s = length (filter (\<lambda>c. \<not> is_continuation c) s)"

definition is_space :: "char \<Rightarrow> bool" where
  "is_space c = (let n = (of_char c :: int) in (9 \<le> n \<and> n \<le> 13) \<or> (28 \<le> n \<and> n \<le> 32))"

definition py_strip :: "string \<Rightarrow> string" where
  "py_strip s = rev (dropWhile is_space (rev (dropWhile is_space s)))"

definition lower_char :: "char \<Rightarrow> char" where
  "lower_char c = (let n = (of_char c :: int) in if 65 \<le> n \<and> n \<le> 90 then char_of (n + 32) else c)"

definition py_lower :: "string \<Rightarrow> string" where
  "py_lower s = map lower_char s"

text \<open>\<^verbatim>\<open>s[:n]\<close>: the longest prefix of at most \<open>n\<close> code points.\<close>

fun py_take :: "nat \<Rightarrow> string \<Rightarrow> string" where
  "py_take n [] = []"
| "py_take n (c # s) =
     (if is_continuation c then c # py_take n s
      else case n of 0 \<Rightarrow> [] | Suc m \<Rightarrow> c # py_take m s)"

definition starts_with :: "string \<Rightarrow> string \<Rightarrow> bool" where
  "starts_with p s = (take (length p) s = p)"

lemma starts_with_append [simp]: "starts_with p (p @ s)"
  by (simp add: starts_with_def)

lemma py_len_take: "py_len (py_take n s) \<le> n"
proof (induction n s rule: py_take.induct)
  case (1 n)
  then show ?case by (simp add: py_len_def)
next
  case (2 n c s)
  then show ?case by (cases n) (auto simp: py_len_def)
qed

lemma py_strip_Nil [simp]: "py_strip [] = []"
  by (simp add: py_strip_def)

lemma dropWhile_fixed: "(xs \<noteq> [] \<Longrightarrow> \<not> P (hd xs)) \<Longrightarrow> dropWhile P xs = xs"
  by (cases xs) auto

lemma py_strip_hd: "py_strip s \<noteq> [] \<Longrightarrow> \<not> is_space (hd (py_strip s))"
proof -
  let ?l = "dropWhile is_space s"
  let ?r = "dropWhile is_space (rev ?l)"
  assume "py_strip s \<noteq> []"
  then have r: "rev ?r \<noteq> []" by (simp add: py_strip_def)
  have "rev ?l = takeWhile is_space (rev ?l) @ ?r"
    by (rule takeWhile_dropWhile_id [symmetric])
  then have l: "?l = rev ?r @ rev (takeWhile is_space (rev ?l))"
    by (metis rev_append rev_rev_ident)
  have ne: "?l \<noteq> []" using r by (metis dropWhile.simps(1) rev.simps(1))
  have "hd ?l = hd (rev ?r)" using l r by (metis hd_append2)
  with hd_dropWhile [OF ne] show ?thesis by (simp add: py_strip_def)
qed

lemma py_strip_idem [simp]: "py_strip (py_strip s) = py_strip s"
proof -
  let ?r = "dropWhile is_space (rev (dropWhile is_space s))"
  have "dropWhile is_space (py_strip s) = py_strip s"
    by (rule dropWhile_fixed) (rule py_strip_hd)
  moreover have "dropWhile is_space ?r = ?r" by simp
  ultimately show ?thesis by (simp add: py_strip_def)
qed

section \<open>Contracts shared by the operations of a component\<close>

text \<open>
  A component is a state and a command interpreter \<open>exec\<close>: running a command gives a
  result (an exception or a value) and the state it leaves. \<open>machine\<close> asks that every
  command keeps the invariant; what a whole session keeps follows once, here.
\<close>

fun run_all :: "('s \<Rightarrow> 'c \<Rightarrow> 'r \<times> 's) \<Rightarrow> 's \<Rightarrow> 'c list \<Rightarrow> 's" where
  "run_all exec s [] = s"
| "run_all exec s (c # cs) = run_all exec (snd (exec s c)) cs"

lemma run_all_append: "run_all exec s (cs @ ds) = run_all exec (run_all exec s cs) ds"
  by (induction cs arbitrary: s) auto

locale machine =
  fixes exec :: "'s \<Rightarrow> 'c \<Rightarrow> ('e + 'a) \<times> 's"
    and inv :: "'s \<Rightarrow> bool"
  assumes exec_inv: "inv s \<Longrightarrow> inv (snd (exec s c))"
begin

lemma session_inv: "inv s \<Longrightarrow> inv (run_all exec s cs)"
  by (induction cs arbitrary: s) (auto intro: exec_inv)

end

text \<open>
  \<open>atomic_machine\<close>: a command that raises leaves the state as it was, as a transaction
  that is rolled back does.
\<close>

locale atomic_machine = machine exec inv
  for exec :: "'s \<Rightarrow> 'c \<Rightarrow> ('e + 'a) \<times> 's" and inv :: "'s \<Rightarrow> bool" +
  assumes exec_atomic: "fst (exec s c) = Inl e \<Longrightarrow> snd (exec s c) = s"
begin

lemma changed_means_ok: "snd (exec s c) \<noteq> s \<Longrightarrow> is_ok (fst (exec s c))"
  using exec_atomic by (cases "fst (exec s c)") auto

lemma session_rejected:
  "(\<And>c. c \<in> set cs \<Longrightarrow> \<not> is_ok (fst (exec s c))) \<Longrightarrow> run_all exec s cs = s"
proof (induction cs)
  case (Cons c cs)
  then have "snd (exec s c) = s" using changed_means_ok by fastforce
  with Cons show ?case by simp
qed simp

end

text \<open>
  \<open>monotone_machine\<close>: every command moves the state up in a preorder (rows are only
  added, a closed status stays closed, a revision never falls), and so does a session.
\<close>

locale monotone_machine = machine exec inv
  for exec :: "'s \<Rightarrow> 'c \<Rightarrow> ('e + 'a) \<times> 's" and inv :: "'s \<Rightarrow> bool" +
  fixes le :: "'s \<Rightarrow> 's \<Rightarrow> bool"
  assumes le_refl: "le s s"
    and le_trans: "le s t \<Longrightarrow> le t u \<Longrightarrow> le s u"
    and exec_le: "inv s \<Longrightarrow> le s (snd (exec s c))"
begin

lemma session_le: "inv s \<Longrightarrow> le s (run_all exec s cs)"
proof (induction cs arbitrary: s)
  case Nil
  show ?case by (simp add: le_refl)
next
  case (Cons c cs)
  have "le s (snd (exec s c))" by (rule exec_le [OF Cons.prems])
  moreover have "le (snd (exec s c)) (run_all exec (snd (exec s c)) cs)"
    by (rule Cons.IH) (rule exec_inv [OF Cons.prems])
  ultimately show ?case by (auto intro: le_trans)
qed

lemma session_le_extend: "inv s \<Longrightarrow> le (run_all exec s cs) (run_all exec s (cs @ ds))"
  by (simp add: run_all_append session_le session_inv)

end

end
