(* ===== verification/Json.thy ===== *)
theory Json
  imports Prelude "HOL-Library.Char_ord" "HOL-Library.List_Lexorder"
begin

text \<open>
  JSON values as Python holds them after \<^verbatim>\<open>json.loads\<close>: an object is a dictionary in
  insertion order. \<open>jget\<close> is \<^verbatim>\<open>d.get(k)\<close> (None for a missing key), \<open>truthy\<close>
  the truth value of \<^verbatim>\<open>x or y\<close>, \<open>show_nat\<close> the decimal text of a non-negative
  int. Floats are rationals: the non-finite ones are not modelled.
\<close>

datatype json =
    JNull
  | JBool bool
  | JInt int
  | JFloat rat
  | JStr string
  | JList "json list"
  | JObj "(string \<times> json) list"

fun jget :: "string \<Rightarrow> json \<Rightarrow> json" where
  "jget k (JObj d) = (case map_of d k of None \<Rightarrow> JNull | Some v \<Rightarrow> v)"
| "jget k _ = JNull"

fun jput :: "string \<Rightarrow> json \<Rightarrow> json \<Rightarrow> json" where
  "jput k v (JObj d) = JObj (AList.update k v d)"
| "jput k v j = j"

fun jdel :: "string \<Rightarrow> json \<Rightarrow> json" where
  "jdel k (JObj d) = JObj (AList.delete k d)"
| "jdel k j = j"

fun is_obj :: "json \<Rightarrow> bool" where
  "is_obj (JObj d) = True"
| "is_obj _ = False"

fun is_jlist :: "json \<Rightarrow> bool" where
  "is_jlist (JList xs) = True"
| "is_jlist _ = False"

fun items_of :: "json \<Rightarrow> json list" where
  "items_of (JList xs) = xs"
| "items_of _ = []"

fun truthy :: "json \<Rightarrow> bool" where
  "truthy JNull = False"
| "truthy (JBool b) = b"
| "truthy (JInt n) = (n \<noteq> 0)"
| "truthy (JFloat q) = (q \<noteq> 0)"
| "truthy (JStr s) = (s \<noteq> [])"
| "truthy (JList xs) = (xs \<noteq> [])"
| "truthy (JObj d) = (d \<noteq> [])"

text \<open>\<^verbatim>\<open>_text(value)\<close> of several modules: a stripped string, or the empty one.\<close>

fun text_of :: "json \<Rightarrow> string" where
  "text_of (JStr s) = py_strip s"
| "text_of _ = []"

section \<open>Contracts\<close>

text \<open>
  \<^verbatim>\<open>ContractModel\<close> is a Pydantic model with \<^verbatim>\<open>str_strip_whitespace\<close>: a text field
  loses its white space at both ends (Rust's \<^verbatim>\<open>trim\<close>, which unlike \<open>py_strip\<close> keeps the
  separators 28 to 31), and a field of JSON type loses it in every string and every key, however deep. When two
  keys of a dictionary become equal the later value wins, at the place of the first.
\<close>

definition is_white :: "char \<Rightarrow> bool" where
  "is_white c = (let n = (of_char c :: int) in (9 \<le> n \<and> n \<le> 13) \<or> n = 32)"

definition contract_strip :: "string \<Rightarrow> string" where
  "contract_strip s = rev (dropWhile is_white (rev (dropWhile is_white s)))"

fun contract_json :: "json \<Rightarrow> json" where
  "contract_json (JStr s) = JStr (contract_strip s)"
| "contract_json (JList xs) = JList (map contract_json xs)"
| "contract_json (JObj d) =
     JObj (fold (\<lambda>(k, v) m. AList.update (contract_strip k) v m) (map (\<lambda>(k, v). (k, contract_json v)) d) [])"
| "contract_json j = j"

lemma contract_strip_Nil [simp]: "contract_strip [] = []"
  by (simp add: contract_strip_def)

lemma white_is_space: "is_white c \<Longrightarrow> is_space c"
  by (auto simp: is_white_def is_space_def Let_def)

lemma trim_fixed:
  assumes "xs \<noteq> [] \<Longrightarrow> \<not> P (hd xs) \<and> \<not> P (last xs)"
  shows "rev (dropWhile P (rev (dropWhile P xs))) = xs"
proof -
  have "dropWhile P xs = xs" "dropWhile P (rev xs) = rev xs"
    using assms by (auto intro!: dropWhile_fixed simp: hd_rev)
  then show ?thesis by simp
qed

lemma contract_strip_plain: "list_all (\<lambda>c. \<not> is_white c) s \<Longrightarrow> contract_strip s = s"
  unfolding contract_strip_def by (rule trim_fixed) (auto simp: list_all_iff)

lemma trim_idem: "rev (dropWhile P (rev (dropWhile P (rev (dropWhile P (rev (dropWhile P s))))))) = rev (dropWhile P (rev (dropWhile P s)))"
proof (rule trim_fixed)
  let ?l = "dropWhile P s"
  assume "rev (dropWhile P (rev ?l)) \<noteq> []"
  then have r: "dropWhile P (rev ?l) \<noteq> []" by simp
  then have ne: "?l \<noteq> []" by (metis dropWhile.simps(1) rev.simps(1))
  obtain zs where "?l = rev (dropWhile P (rev ?l)) @ zs"
    by (metis rev_append rev_rev_ident takeWhile_dropWhile_id)
  then have "hd ?l = hd (rev (dropWhile P (rev ?l)))" using r by (metis Nil_is_rev_conv hd_append2)
  then show "\<not> P (hd (rev (dropWhile P (rev ?l)))) \<and> \<not> P (last (rev (dropWhile P (rev ?l))))"
    using hd_dropWhile [OF ne] hd_dropWhile [OF r] r by (simp add: last_rev)
qed

lemma contract_strip_idem [simp]: "contract_strip (contract_strip s) = contract_strip s"
  unfolding contract_strip_def by (rule trim_idem)

lemma contract_strip_nonblank: "\<exists>c \<in> set s. \<not> is_white c \<Longrightarrow> contract_strip s \<noteq> []"
proof
  assume c: "\<exists>c \<in> set s. \<not> is_white c" and e: "contract_strip s = []"
  from c have "dropWhile is_white s \<noteq> []" by (simp add: dropWhile_eq_Nil_conv)
  with hd_dropWhile [OF this] e show False
    by (metis contract_strip_def dropWhile_eq_Nil_conv hd_in_set rev_is_Nil_conv set_rev)
qed

lemma length_contract_strip: "length (contract_strip s) \<le> length s"
  unfolding contract_strip_def by (metis length_dropWhile_le length_rev order_trans)

lemma py_strip_contract:
  assumes "py_strip s \<noteq> []"
  shows "contract_strip s \<noteq> []"
proof (rule contract_strip_nonblank)
  have "\<exists>c \<in> set s. \<not> is_space c"
    using assms by (auto simp: py_strip_def dropWhile_eq_Nil_conv dest: set_dropWhileD)
  then show "\<exists>c \<in> set s. \<not> is_white c" using white_is_space by blast
qed

lemma stripped_contract:
  assumes s: "py_strip s = s"
  shows "contract_strip s = s"
  unfolding contract_strip_def
proof (rule trim_fixed)
  assume ne: "s \<noteq> []"
  have "\<not> is_space (last s)"
    using s ne hd_dropWhile [of is_space "rev (dropWhile is_space s)"] by (metis py_strip_def last_rev Nil_is_rev_conv rev_rev_ident)
  then show "\<not> is_white (hd s) \<and> \<not> is_white (last s)"
    using py_strip_hd [of s] s ne white_is_space by auto
qed

lemma fold_update_fresh:
  "distinct (map fst m @ map fst d) \<Longrightarrow> fold (\<lambda>(k, v) m. AList.update k v m) d m = m @ d"
proof (induction d arbitrary: m)
  case (Cons p d)
  obtain k v where p: "p = (k, v)" by (cases p)
  have "AList.update k v m = m @ [(k, v)]"
    using Cons.prems p by (induction m) auto
  then show ?case using Cons p by simp
qed simp

lemma fold_update_clean:
  "distinct (map fst m) \<Longrightarrow> (\<And>k. k \<in> fst ` set m \<Longrightarrow> contract_strip k = k) \<Longrightarrow>
   distinct (map fst (fold (\<lambda>(k, v) m. AList.update (contract_strip k) v m) d m)) \<and>
   (\<forall>k \<in> fst ` set (fold (\<lambda>(k, v) m. AList.update (contract_strip k) v m) d m). contract_strip k = k)"
proof (induction d arbitrary: m)
  case (Cons p d)
  obtain k v where p: "p = (k, v)" by (cases p)
  have "distinct (map fst (AList.update (contract_strip k) v m))"
    using Cons.prems(1) by (simp add: distinct_update)
  moreover have "contract_strip x = x" if "x \<in> fst ` set (AList.update (contract_strip k) v m)" for x
  proof -
    from that obtain q where q: "q \<in> set (AList.update (contract_strip k) v m)" "x = fst q" by blast
    then show ?thesis using Cons.prems(2) set_update_cases [of "fst q" "snd q" "contract_strip k" v m] by force
  qed
  ultimately have "distinct (map fst (fold (\<lambda>(k, v) m. AList.update (contract_strip k) v m) d (AList.update (contract_strip k) v m))) \<and>
     (\<forall>x \<in> fst ` set (fold (\<lambda>(k, v) m. AList.update (contract_strip k) v m) d (AList.update (contract_strip k) v m)). contract_strip x = x)"
    by (rule Cons.IH)
  then show ?case unfolding p fold_Cons o_apply prod.case .
next
  case Nil
  then show ?case unfolding fold_Nil id_apply by blast
qed

definition clean_keys :: "json \<Rightarrow> bool" where
  "clean_keys j = (case j of JObj d \<Rightarrow> distinct (map fst d) \<and> list_all (\<lambda>(k, v). contract_strip k = k) d | _ \<Rightarrow> True)"

lemma clean_keys_contract: "clean_keys (contract_json j)"
proof (cases j)
  case (JObj d)
  then show ?thesis
    using fold_update_clean [of "[]" "map (\<lambda>(k, v). (k, contract_json v)) d"]
    by (auto simp: clean_keys_def list_all_iff)
qed (simp_all add: clean_keys_def)

lemma contract_clean_obj:
  assumes "clean_keys (JObj d)"
  shows "contract_json (JObj d) = JObj (map (\<lambda>(k, v). (k, contract_json v)) d)"
proof -
  let ?e = "map (\<lambda>(k, v). (k, contract_json v)) d"
  have "fold (\<lambda>(k, v) m. AList.update (contract_strip k) v m) ?e [] = fold (\<lambda>(k, v) m. AList.update k v m) ?e []"
    using assms by (intro fold_cong) (auto simp: clean_keys_def list_all_iff)
  also have "\<dots> = ?e"
    using fold_update_fresh [of "[]" ?e] assms by (simp add: clean_keys_def o_def case_prod_unfold)
  finally show ?thesis by simp
qed

lemma contract_fixed_obj:
  assumes "contract_json (JObj d) = JObj d"
  shows "clean_keys (JObj d)" and "\<And>k v. (k, v) \<in> set d \<Longrightarrow> contract_json v = v"
proof -
  show c: "clean_keys (JObj d)" using clean_keys_contract [of "JObj d"] assms by simp
  have "map (\<lambda>(k, v). (k, contract_json v)) d = d" using contract_clean_obj [OF c] assms by simp
  then show "(k, v) \<in> set d \<Longrightarrow> contract_json v = v" for k v
    by (induction d) auto
qed

lemma contract_json_idem [simp]: "contract_json (contract_json j) = contract_json j"
proof (induction j rule: contract_json.induct)
  case (3 d)
  obtain e where e: "contract_json (JObj d) = JObj e" by simp
  have c: "clean_keys (JObj e)" using clean_keys_contract [of "JObj d"] e by simp
  have val: "contract_json v = v" if "(k, v) \<in> set m'" "\<forall>(k, v) \<in> set m. contract_json v = v"
    "m' = fold (\<lambda>(k, v) m. AList.update (contract_strip k) v m) xs m" "\<forall>(k, v) \<in> set xs. contract_json v = v" for k v xs m m'
    using that
  proof (induction xs arbitrary: m)
    case (Cons p xs)
    obtain a b where p: "p = (a, b)" by (cases p)
    have "\<forall>(k, v) \<in> set (AList.update (contract_strip a) b m). contract_json v = v"
      using Cons.prems(2,4) p set_update_cases [of _ _ "contract_strip a" b m] by fastforce
    with Cons.IH [of "AList.update (contract_strip a) b m"] Cons.prems p show ?case by simp
  qed auto
  have "contract_json v = v" if "(k, v) \<in> set e" for k v
    using val [OF that, of "[]" "map (\<lambda>(k, v). (k, contract_json v)) d"] e 3 by fastforce
  then have "map (\<lambda>(k, v). (k, contract_json v)) e = e" by (intro map_idI) auto
  then show ?case unfolding e contract_clean_obj [OF c] by simp
qed simp_all

lemma jget_contract:
  assumes "clean_keys j"
  shows "jget k (contract_json j) = contract_json (jget k j)"
proof (cases j)
  case (JObj d)
  have "map_of (map (\<lambda>(k, v). (k, contract_json v)) d) k = map_option contract_json (map_of d k)"
    by (simp add: map_of_map)
  then show ?thesis using assms contract_clean_obj [of d] unfolding JObj by (simp del: contract_json.simps(3) split: option.split)
qed simp_all

lemma jget_fixed:
  assumes "contract_json j = j"
  shows "contract_json (jget k j) = jget k j"
proof (cases j)
  case (JObj d)
  then show ?thesis using contract_fixed_obj(2) [of d k] assms by (auto split: option.split dest: map_of_SomeD)
qed simp_all

lemma is_obj_contract [simp]: "is_obj (contract_json j) = is_obj j"
  by (cases j) auto

lemma fold_update_nonempty: "m \<noteq> [] \<or> d \<noteq> [] \<Longrightarrow> fold (\<lambda>(k, v) m. AList.update (f k) v m) d m \<noteq> []"
proof (induction d arbitrary: m)
  case (Cons p d)
  obtain k v where p: "p = (k, v)" by (cases p)
  have "AList.update (f k) v m \<noteq> []" by (cases m) auto
  with Cons.IH [of "AList.update (f k) v m"] show ?case by (simp add: p)
qed simp

lemma truthy_contract [simp]: "is_obj j \<Longrightarrow> truthy (contract_json j) = truthy j"
proof (cases j)
  case (JObj d)
  then show ?thesis
    using fold_update_nonempty [of "[]" "map (\<lambda>(k, v). (k, contract_json v)) d" contract_strip]
    by (cases "d = []") simp_all
qed simp_all

lemma jget_jput: "is_obj j \<Longrightarrow> jget k (jput k' v j) = (if k = k' then v else jget k j)"
  by (cases j) auto

lemma jget_jdel: "is_obj j \<Longrightarrow> jget k (jdel k' j) = (if k = k' then JNull else jget k j)"
  by (cases j) auto

lemma is_obj_jput [simp]: "is_obj (jput k v j) = is_obj j"
  by (cases j) auto

lemma is_obj_jdel [simp]: "is_obj (jdel k j) = is_obj j"
  by (cases j) auto

section \<open>Decimal text\<close>

fun show_nat :: "nat \<Rightarrow> string" where
  "show_nat n = (if n < 10 then [char_of (48 + n)] else show_nat (n div 10) @ [char_of (48 + n mod 10)])"

declare show_nat.simps [simp del]

definition show_int :: "int \<Rightarrow> string" where
  "show_int i = (if i < 0 then ''-'' @ show_nat (nat (- i)) else show_nat (nat i))"

definition is_digit :: "char \<Rightarrow> bool" where
  "is_digit c = (let n = (of_char c :: nat) in 48 \<le> n \<and> n \<le> 57)"

fun read_digits :: "nat \<Rightarrow> string \<Rightarrow> nat" where
  "read_digits acc [] = acc"
| "read_digits acc (c # s) = read_digits (10 * acc + (of_char c - 48)) s"

lemma read_digits_append: "read_digits acc (s @ t) = read_digits (read_digits acc s) t"
  by (induction s arbitrary: acc) auto

lemma of_char_digit: "n < 10 \<Longrightarrow> (of_char (char_of (48 + n) :: char) :: nat) = 48 + n"
  by simp

lemma show_nat_digits: "c \<in> set (show_nat n) \<Longrightarrow> is_digit c"
proof (induction n rule: show_nat.induct)
  case (1 n)
  then show ?case
    by (subst (asm) show_nat.simps)
       (auto simp: is_digit_def Let_def of_char_digit split: if_splits)
qed

lemma show_nat_nonempty: "show_nat n \<noteq> []"
  by (subst show_nat.simps) simp

lemma read_show_nat: "read_digits 0 (show_nat n) = n"
proof (induction n rule: show_nat.induct)
  case (1 n)
  show ?case
  proof (cases "n < 10")
    case True
    then show ?thesis by (subst show_nat.simps) (simp add: of_char_digit)
  next
    case False
    then have "read_digits 0 (show_nat (n div 10)) = n div 10" by (rule "1.IH")
    moreover have "(of_char (char_of (48 + n mod 10) :: char) :: nat) = 48 + n mod 10"
      by (rule of_char_digit) simp
    ultimately show ?thesis using False
      by (subst show_nat.simps) (simp add: read_digits_append)
  qed
qed

lemma show_nat_inject [simp]: "show_nat m = show_nat n \<longleftrightarrow> m = n"
  by (metis read_show_nat)

text \<open>A numbered identity \<^verbatim>\<open>f"{prefix}:{n}"\<close> determines both parts.\<close>

lemma takeWhile_digits_colon:
  "takeWhile is_digit (rev (show_nat n) @ CHR '':'' # xs) = rev (show_nat n)"
proof -
  have "\<not> is_digit (CHR '':'')" by (simp add: is_digit_def)
  then show ?thesis by (simp add: takeWhile_append show_nat_digits)
qed

lemma numbered_inject:
  "p @ '':'' @ show_nat m = q @ '':'' @ show_nat n \<longleftrightarrow> p = q \<and> m = n"
proof
  assume "p @ '':'' @ show_nat m = q @ '':'' @ show_nat n"
  then have "rev (p @ '':'' @ show_nat m) = rev (q @ '':'' @ show_nat n)" by (rule arg_cong)
  then have r: "rev (show_nat m) @ CHR '':'' # rev p = rev (show_nat n) @ CHR '':'' # rev q"
    by simp
  then have "rev (show_nat m) = rev (show_nat n)"
    using takeWhile_digits_colon [of m "rev p"] takeWhile_digits_colon [of n "rev q"] by simp
  then have "m = n" by simp
  with r show "p = q \<and> m = n" by simp
qed simp

end
