(* ===== verification/Skills.thy ===== *)
theory Skills
  imports Json Sha256
begin

text \<open>
  \<^verbatim>\<open>skill_snapshot.py\<close>: the frozen skill catalogue a run is accepted with. The
  directory is a list of \<open>skill_dir\<close> entries (what \<^verbatim>\<open>iterdir\<close> and the
  file reads return); \<open>snapshot_skill_root\<close> reads it into a catalogue or raises.
  The results a caller relies on: the catalogue is sorted by name, every entry passed the
  checks, and the catalogue digest is the digest of exactly these entries.
\<close>

record skill_entry =
  sk_name :: string
  sk_description :: string
  sk_sha :: string
  sk_body :: string

record skill_catalog =
  sc_digest :: string
  sc_entries :: "(string, skill_entry) dict"

record skill_dir =
  sd_name :: string
  sd_symlink :: bool
  sd_is_dir :: bool
  sd_file_symlink :: bool
  sd_file :: "string option"
  sd_utf8 :: bool

datatype skill_error =
    SkillBudgetInvalid | SkillRootInvalid | SkillNotDirectory | SkillNameInvalid
  | SkillFileMissing | SkillTooLarge | SkillNotUtf8 | SkillFrontmatterMissing
  | SkillFrontmatterOpen | SkillNameMismatch | SkillDescriptionMissing
  | SkillDescriptionTooLong | SkillUnknown

text \<open>\<^verbatim>\<open>^[a-z0-9]+(?:-[a-z0-9]+)*$\<close> as a \<^verbatim>\<open>fullmatch\<close>:
  the flag says whether the character before was a letter or a digit.\<close>

definition is_kebab_char :: "char \<Rightarrow> bool" where
  "is_kebab_char c = (let n = (of_char c :: int) in (48 \<le> n \<and> n \<le> 57) \<or> (97 \<le> n \<and> n \<le> 122))"

fun kebab_from :: "bool \<Rightarrow> string \<Rightarrow> bool" where
  "kebab_from prev [] = prev"
| "kebab_from prev (c # s) =
     (if is_kebab_char c then kebab_from True s
      else if c = CHR ''-'' \<and> prev then kebab_from False s
      else False)"

definition skill_name_ok :: "string \<Rightarrow> bool" where
  "skill_name_ok s = kebab_from False s"

text \<open>\<^verbatim>\<open>str.splitlines\<close> on the line ends a skill file has (LF, CR, CR LF); the
  accumulator is the current line, reversed. A final line end opens no further line.\<close>

fun split_lines :: "string \<Rightarrow> string \<Rightarrow> string list" where
  "split_lines cur [] = (if cur = [] then [] else [rev cur])"
| "split_lines cur (c # s) =
     (if c = CHR 0x0A then rev cur # split_lines [] s
      else if c = CHR 0x0D then
        (case s of d # t \<Rightarrow> if d = CHR 0x0A then rev cur # split_lines [] t else rev cur # split_lines [] s
                 | [] \<Rightarrow> [rev cur])
      else split_lines (c # cur) s)"

definition remove_prefix :: "string \<Rightarrow> string \<Rightarrow> string" where
  "remove_prefix p s = (if starts_with p s then drop (length p) s else s)"

definition strip_quotes :: "string \<Rightarrow> string" where
  "strip_quotes s = (let q = (\<lambda>c. c = CHR 0x22) in rev (dropWhile q (rev (dropWhile q s))))"

definition front_value :: "string \<Rightarrow> string \<Rightarrow> string" where
  "front_value p line = strip_quotes (py_strip (remove_prefix p line))"

text \<open>The loop over the lines after the first: \<open>(name, description, closed)\<close>.\<close>

fun front_loop ::
  "string list \<Rightarrow> string option \<Rightarrow> string option \<Rightarrow> string option \<times> string option \<times> bool" where
  "front_loop [] n d = (n, d, False)"
| "front_loop (l # ls) n d =
     (if l = ''---'' then (n, d, True)
      else front_loop ls
        (if starts_with ''name:'' l then Some (front_value ''name:'' l) else n)
        (if starts_with ''description:'' l then Some (front_value ''description:'' l) else d))"

definition extract_description :: "string \<Rightarrow> string \<Rightarrow> skill_error + string" where
  "extract_description body expected =
     (let ls = split_lines [] body in
      if length ls < 3 \<or> hd ls \<noteq> ''---'' then Inl SkillFrontmatterMissing
      else case front_loop (tl ls) None None of (n, d, shut) \<Rightarrow>
        if \<not> shut then Inl SkillFrontmatterOpen
        else if n \<noteq> None \<and> n \<noteq> Some expected then Inl SkillNameMismatch
        else case d of
               None \<Rightarrow> Inl SkillDescriptionMissing
             | Some t \<Rightarrow> if t = [] then Inl SkillDescriptionMissing
                        else if 512 < py_len t then Inl SkillDescriptionTooLong
                        else Inr t)"

definition read_skill ::
  "(string \<Rightarrow> string) \<Rightarrow> nat \<Rightarrow> skill_dir \<Rightarrow> skill_error + skill_entry" where
  "read_skill H max_body d =
     (if sd_symlink d \<or> \<not> sd_is_dir d then Inl SkillNotDirectory
      else if \<not> skill_name_ok (sd_name d) then Inl SkillNameInvalid
      else case sd_file d of
        None \<Rightarrow> Inl SkillFileMissing
      | Some raw \<Rightarrow>
          if sd_file_symlink d then Inl SkillFileMissing
          else if max_body < length raw then Inl SkillTooLarge
          else if \<not> sd_utf8 d then Inl SkillNotUtf8
          else bind_result (extract_description raw (sd_name d)) (\<lambda>descr.
            Inr \<lparr>sk_name = sd_name d, sk_description = descr,
                 sk_sha = ''sha256:'' @ H raw, sk_body = raw\<rparr>))"

definition add_skill ::
  "(string \<Rightarrow> string) \<Rightarrow> nat \<Rightarrow> (string, skill_entry) dict \<Rightarrow> skill_dir
     \<Rightarrow> skill_error + (string, skill_entry) dict" where
  "add_skill H max_body es d =
     bind_result (read_skill H max_body d) (\<lambda>e. Inr (AList.update (sd_name d) e es))"

fun join_lines :: "string list \<Rightarrow> string" where
  "join_lines [] = []"
| "join_lines [l] = l"
| "join_lines (l # ls) = l @ CHR 0x0A # join_lines ls"

definition catalog_digest :: "(string \<Rightarrow> string) \<Rightarrow> skill_entry list \<Rightarrow> string" where
  "catalog_digest H es =
     ''sha256:'' @ H (join_lines (map (\<lambda>e. sk_name e @ '':'' @ sk_sha e) es))"

definition snapshot_skill_root ::
  "(string \<Rightarrow> string) \<Rightarrow> nat \<Rightarrow> bool \<Rightarrow> skill_dir list \<Rightarrow> skill_error + skill_catalog" where
  "snapshot_skill_root H max_body root_ok dirs =
     (if max_body = 0 then Inl SkillBudgetInvalid
      else if \<not> root_ok then Inl SkillRootInvalid
      else bind_result (fold_result (add_skill H max_body) [] (sort_key sd_name dirs)) (\<lambda>es.
        Inr \<lparr>sc_digest = catalog_digest H (dict_vals es), sc_entries = es\<rparr>))"

text \<open>\<^verbatim>\<open>SkillCatalogSnapshot.load\<close>.\<close>

definition load_skill :: "skill_catalog \<Rightarrow> string \<Rightarrow> skill_error + skill_entry" where
  "load_skill c n = (case map_of (sc_entries c) n of None \<Rightarrow> Inl SkillUnknown | Some e \<Rightarrow> Inr e)"

section \<open>Well-formed catalogues\<close>

definition entries_ok :: "(string, skill_entry) dict \<Rightarrow> bool" where
  "entries_ok es \<longleftrightarrow>
     sorted (map fst es) \<and> distinct (map fst es) \<and> (\<forall>(n, e) \<in> set es. sk_name e = n)"

definition catalog_ok :: "(string \<Rightarrow> string) \<Rightarrow> skill_catalog \<Rightarrow> bool" where
  "catalog_ok H c \<longleftrightarrow>
     entries_ok (sc_entries c) \<and> sc_digest c = catalog_digest H (dict_vals (sc_entries c))"

lemma read_skill_name: "read_skill H m d = Inr e \<Longrightarrow> sk_name e = sd_name d"
  by (auto simp: read_skill_def bind_result_Inr_iff split: if_splits option.splits)

lemma extract_description_bounds:
  "extract_description b n = Inr t \<Longrightarrow> t \<noteq> [] \<and> py_len t \<le> 512"
  by (auto simp: extract_description_def Let_def split: if_splits option.splits prod.splits)

lemma read_skill_checked:
  "read_skill H m d = Inr e \<Longrightarrow>
     skill_name_ok (sk_name e) \<and> length (sk_body e) \<le> m \<and>
     sk_description e \<noteq> [] \<and> py_len (sk_description e) \<le> 512 \<and>
     sk_sha e = ''sha256:'' @ H (sk_body e)"
  by (auto simp: read_skill_def bind_result_Inr_iff split: if_splits option.splits
           dest: extract_description_bounds)

lemma add_skill_Inr_iff:
  "add_skill H m es d = Inr es' \<longleftrightarrow>
     (\<exists>e. read_skill H m d = Inr e \<and> es' = AList.update (sd_name d) e es)"
  by (auto simp: add_skill_def bind_result_Inr_iff)

lemma fold_add_skill:
  assumes "fold_result (add_skill H m) es ds = Inr es'"
    and "entries_ok es" and "sorted (map sd_name ds)" and "distinct (map sd_name ds)"
    and "\<forall>n \<in> set (map fst es). \<forall>d \<in> set ds. n < sd_name d"
  shows "entries_ok es'"
  using assms
proof (induction ds arbitrary: es)
  case Nil
  then show ?case by simp
next
  case (Cons d ds)
  then obtain e where e: "read_skill H m d = Inr e"
    and rest: "fold_result (add_skill H m) (AList.update (sd_name d) e es) ds = Inr es'"
    by (auto simp: bind_result_Inr_iff add_skill_Inr_iff)
  have below: "\<forall>n \<in> set (map fst es). n < sd_name d" using Cons.prems by auto
  then have "map_of es (sd_name d) = None" by (force simp: map_of_eq_None_iff)
  then have upd: "AList.update (sd_name d) e es = es @ [(sd_name d, e)]" by (rule update_fresh)
  have "entries_ok (es @ [(sd_name d, e)])"
    using Cons.prems(2) below read_skill_name [OF e]
    by (auto simp: entries_ok_def sorted_append order.strict_implies_order)
  moreover have "\<forall>n \<in> set (map fst (es @ [(sd_name d, e)])). \<forall>d' \<in> set ds. n < sd_name d'"
    using Cons.prems(3,4,5) by (auto simp: less_le)
  ultimately show ?case using Cons.IH [OF rest] Cons.prems(3,4) upd by simp
qed

lemma snapshot_catalog_ok:
  assumes "snapshot_skill_root H m r ds = Inr c" and "distinct (map sd_name ds)"
  shows "catalog_ok H c"
proof -
  obtain es where es: "fold_result (add_skill H m) [] (sort_key sd_name ds) = Inr es"
    and c: "c = \<lparr>sc_digest = catalog_digest H (dict_vals es), sc_entries = es\<rparr>"
    using assms(1) by (auto simp: snapshot_skill_root_def bind_result_Inr_iff split: if_splits)
  have "entries_ok es"
    by (rule fold_add_skill [OF es]) (use assms(2) in \<open>auto simp: entries_ok_def distinct_map\<close>)
  then show ?thesis by (simp add: catalog_ok_def c)
qed

lemma catalog_entries_checked:
  assumes "snapshot_skill_root H m r ds = Inr c" and "(n, e) \<in> set (sc_entries c)"
  shows "skill_name_ok (sk_name e) \<and> length (sk_body e) \<le> m \<and> sk_description e \<noteq> [] \<and>
         sk_sha e = ''sha256:'' @ H (sk_body e)"
proof -
  let ?P = "\<lambda>es. \<forall>(n, e) \<in> set es. skill_name_ok (sk_name e) \<and> length (sk_body e) \<le> m \<and>
              sk_description e \<noteq> [] \<and> sk_sha e = ''sha256:'' @ H (sk_body e)"
  obtain es where es: "fold_result (add_skill H m) [] (sort_key sd_name ds) = Inr es"
    and c: "sc_entries c = es"
    using assms(1) by (auto simp: snapshot_skill_root_def bind_result_Inr_iff split: if_splits)
  have "?P es"
  proof (rule fold_result_inv [OF _ _ es, of ?P])
    fix s x t
    assume "?P s" and "add_skill H m s x = Inr t"
    then show "?P t"
      by (auto simp: add_skill_Inr_iff dest!: set_update_cases read_skill_checked)
  qed simp
  with assms(2) c show ?thesis by auto
qed

end
