(* ===== verification/Sidecar_Store.thy ===== *)
theory Sidecar_Store
  imports Skills "HOL-Library.Sublist"
begin

text \<open>
  \<^verbatim>\<open>event_store.py\<close> and \<^verbatim>\<open>contracts.py\<close> of the sidecar: the
  SQLite tables of runs, run events and frozen skills, one definition per repository method.
  A table is its rows in insertion order. The connection is never rolled back, so a statement
  that ran before an exception stays in the open transaction and the next commit keeps it:
  \<open>append_locked\<close> inserts its row before the DTO it returns is validated. \<open>H\<close> is
  \<^verbatim>\<open>sha256(...).hexdigest()\<close>, \<open>now\<close> the text of \<^verbatim>\<open>_utc_now()\<close>.
\<close>

section \<open>Contracts\<close>

datatype run_status =
    Accepted | Running | Suspended_Operation | Suspended_Confirmation
  | Suspended_Authorization | Completed | Failed | Cancelled

datatype termination_reason =
    Reason_Completed | Max_Output_Tokens | Max_Model_Steps | Max_Business_Tools
  | Deadline_Exceeded | Engine_Error | Reason_Cancelled
  | Reason_Suspended_Operation | Reason_Suspended_Confirmation | Reason_Suspended_Authorization

fun status_text :: "run_status \<Rightarrow> string" where
  "status_text Accepted = ''accepted''"
| "status_text Running = ''running''"
| "status_text Suspended_Operation = ''suspended_operation''"
| "status_text Suspended_Confirmation = ''suspended_confirmation''"
| "status_text Suspended_Authorization = ''suspended_authorization''"
| "status_text Completed = ''completed''"
| "status_text Failed = ''failed''"
| "status_text Cancelled = ''cancelled''"

record run_request =
  rq_key :: string
  rq_digest :: string

record run_row =
  rr_id :: string
  rr_key :: string
  rr_digest :: string
  rr_status :: run_status
  rr_reason :: "termination_reason option"
  rr_engine_id :: string
  rr_engine_version :: string
  rr_catalog :: string
  rr_accepted_at :: string
  rr_completed_at :: "string option"

record event_row =
  ev_run :: string
  ev_seq :: nat
  ev_id :: string
  ev_type :: string
  ev_at :: string
  ev_payload :: json

record skill_row =
  sr_run :: string
  sr_name :: string
  sr_entry :: skill_entry

record store =
  st_runs :: "run_row list"
  st_events :: "event_row list"
  st_skills :: "skill_row list"

definition empty_store :: store where
  "empty_store = \<lparr>st_runs = [], st_events = [], st_skills = []\<rparr>"

datatype store_error =
  RunRequestConflict | RunNotFound | IntegrityError | EventInvalid | SkillSnapshotDrift

text \<open>\<^verbatim>\<open>^(run|tool|response|public_summary)\.[a-z_]+$\<close>, at most 120 characters.\<close>

definition is_event_char :: "char \<Rightarrow> bool" where
  "is_event_char c = (let n = (of_char c :: int) in (97 \<le> n \<and> n \<le> 122) \<or> c = CHR ''_'')"

definition event_type_ok :: "string \<Rightarrow> bool" where
  "event_type_ok t = (py_len t \<le> 120 \<and>
     list_ex (\<lambda>p. starts_with p t \<and> drop (length p) t \<noteq> [] \<and>
                  list_all is_event_char (drop (length p) t))
       [''run.'', ''tool.'', ''response.'', ''public_summary.''])"

text \<open>
  The contract \<^verbatim>\<open>HarnessRunEvent\<close> as the store can break it: the identity of an event
  (\<^verbatim>\<open>hevt_\<close> and 32 characters), its sequence (positive), its time (the clock's) and its
  payload (a dictionary) are the store's own, so the run and the type decide.
\<close>

definition event_dto_ok :: "string \<Rightarrow> string \<Rightarrow> bool" where
  "event_dto_ok rid t = (starts_with ''hrun_'' rid \<and> py_len rid \<le> 200 \<and> event_type_ok t)"

section \<open>The repository methods\<close>

definition run_by_key :: "store \<Rightarrow> string \<Rightarrow> run_row option" where
  "run_by_key s k = List.find (\<lambda>r. rr_key r = k) (st_runs s)"

definition run_by_id :: "store \<Rightarrow> string \<Rightarrow> run_row option" where
  "run_by_id s rid = List.find (\<lambda>r. rr_id r = rid) (st_runs s)"

definition update_run :: "string \<Rightarrow> (run_row \<Rightarrow> run_row) \<Rightarrow> store \<Rightarrow> store" where
  "update_run rid f s = s\<lparr>st_runs := map (\<lambda>r. if rr_id r = rid then f r else r) (st_runs s)\<rparr>"

definition events_of :: "string \<Rightarrow> store \<Rightarrow> event_row list" where
  "events_of rid s = filter (\<lambda>e. ev_run e = rid) (st_events s)"

definition max_sequence :: "string \<Rightarrow> store \<Rightarrow> nat" where
  "max_sequence rid s = fold max (map ev_seq (events_of rid s)) 0"

definition event_id_for :: "(string \<Rightarrow> string) \<Rightarrow> string \<Rightarrow> nat \<Rightarrow> string" where
  "event_id_for H rid n = derived_id H ''hevt_'' (rid @ '':'' @ show_nat n)"

definition new_event ::
  "(string \<Rightarrow> string) \<Rightarrow> string \<Rightarrow> string \<Rightarrow> string \<Rightarrow> json \<Rightarrow> store \<Rightarrow> event_row" where
  "new_event H now rid ty payload s =
     (let n = Suc (max_sequence rid s) in
      \<lparr>ev_run = rid, ev_seq = n, ev_id = event_id_for H rid n, ev_type = ty, ev_at = now,
       ev_payload = payload\<rparr>)"

text \<open>\<^verbatim>\<open>event_id UNIQUE\<close> and \<^verbatim>\<open>PRIMARY KEY (run_id, sequence)\<close>.\<close>

definition event_conflict :: "event_row \<Rightarrow> store \<Rightarrow> bool" where
  "event_conflict e s =
     list_ex (\<lambda>x. ev_id x = ev_id e \<or> (ev_run x = ev_run e \<and> ev_seq x = ev_seq e)) (st_events s)"

definition append_locked ::
  "(string \<Rightarrow> string) \<Rightarrow> string \<Rightarrow> string \<Rightarrow> string \<Rightarrow> json \<Rightarrow> store
     \<Rightarrow> (store_error + event_row) \<times> store" where
  "append_locked H now rid ty payload s =
     (let e = new_event H now rid ty payload s in
      if event_conflict e s then (Inl IntegrityError, s)
      else (if event_dto_ok rid ty then Inr e else Inl EventInvalid,
            s\<lparr>st_events := st_events s @ [e]\<rparr>))"

definition run_id_for :: "(string \<Rightarrow> string) \<Rightarrow> string \<Rightarrow> string" where
  "run_id_for H key = derived_id H ''hrun_'' key"

definition status_payload :: "run_status \<Rightarrow> json" where
  "status_payload st = JObj [(''status'', JStr (status_text st))]"

definition get_by_request :: "run_request \<Rightarrow> store \<Rightarrow> store_error + run_row option" where
  "get_by_request rq s =
     (case run_by_key s (rq_key rq) of
        None \<Rightarrow> Inr None
      | Some r \<Rightarrow> if rr_digest r \<noteq> rq_digest rq then Inl RunRequestConflict else Inr (Some r))"

definition new_run ::
  "(string \<Rightarrow> string) \<Rightarrow> string \<Rightarrow> run_request \<Rightarrow> string \<Rightarrow> string \<Rightarrow> skill_catalog \<Rightarrow> run_row" where
  "new_run H now rq eid ever c =
     \<lparr>rr_id = run_id_for H (rq_key rq), rr_key = rq_key rq, rr_digest = rq_digest rq,
      rr_status = Accepted, rr_reason = None, rr_engine_id = eid, rr_engine_version = ever,
      rr_catalog = sc_digest c, rr_accepted_at = now, rr_completed_at = None\<rparr>"

definition skill_rows :: "string \<Rightarrow> skill_catalog \<Rightarrow> skill_row list" where
  "skill_rows rid c = map (\<lambda>e. \<lparr>sr_run = rid, sr_name = sk_name e, sr_entry = e\<rparr>) (dict_vals (sc_entries c))"

text \<open>\<^verbatim>\<open>executemany\<close>: the rows go in one by one, and a duplicate
  \<^verbatim>\<open>(run_id, name)\<close> stops it with the rows before it inserted.\<close>

fun insert_skills :: "skill_row list \<Rightarrow> store \<Rightarrow> (store_error + unit) \<times> store" where
  "insert_skills [] s = (Inr (), s)"
| "insert_skills (x # xs) s =
     (if list_ex (\<lambda>y. sr_run y = sr_run x \<and> sr_name y = sr_name x) (st_skills s)
      then (Inl IntegrityError, s)
      else insert_skills xs (s\<lparr>st_skills := st_skills s @ [x]\<rparr>))"

definition create_or_get ::
  "(string \<Rightarrow> string) \<Rightarrow> string \<Rightarrow> run_request \<Rightarrow> string \<Rightarrow> string \<Rightarrow> skill_catalog \<Rightarrow> store
     \<Rightarrow> (store_error + run_row \<times> bool) \<times> store" where
  "create_or_get H now rq eid ever c s =
     (case run_by_key s (rq_key rq) of
        Some r \<Rightarrow> (if rr_digest r \<noteq> rq_digest rq then Inl RunRequestConflict else Inr (r, False), s)
      | None \<Rightarrow>
          let r = new_run H now rq eid ever c; rid = rr_id r in
          if list_ex (\<lambda>x. rr_id x = rid) (st_runs s) then (Inl IntegrityError, s)
          else case insert_skills (skill_rows rid c) (s\<lparr>st_runs := st_runs s @ [r]\<rparr>) of
            (Inl e, s1) \<Rightarrow> (Inl e, s1)
          | (Inr _, s1) \<Rightarrow>
              (case append_locked H now rid ''run.accepted'' (status_payload Accepted) s1 of
                 (Inl e, s2) \<Rightarrow> (Inl e, s2)
               | (Inr _, s2) \<Rightarrow> (Inr (r, True), s2)))"

definition skills_of :: "string \<Rightarrow> store \<Rightarrow> skill_row list" where
  "skills_of rid s = filter (\<lambda>x. sr_run x = rid) (st_skills s)"

definition get_skill_snapshot :: "(string \<Rightarrow> string) \<Rightarrow> string \<Rightarrow> store \<Rightarrow> store_error + skill_catalog" where
  "get_skill_snapshot H rid s =
     (case run_by_id s rid of
        None \<Rightarrow> Inl RunNotFound
      | Some r \<Rightarrow>
          let rows = sort_key sr_name (skills_of rid s);
              c = \<lparr>sc_digest = rr_catalog r, sc_entries = map (\<lambda>x. (sr_name x, sr_entry x)) rows\<rparr>
          in if catalog_digest H (dict_vals (sc_entries c)) \<noteq> sc_digest c
             then Inl SkillSnapshotDrift else Inr c)"

definition get_run :: "string \<Rightarrow> store \<Rightarrow> run_row option" where
  "get_run rid s = run_by_id s rid"

text \<open>The \<^verbatim>\<open>SET\<close> clauses of the four \<^verbatim>\<open>UPDATE\<close> statements.\<close>

definition to_status :: "string \<Rightarrow> run_status \<Rightarrow> termination_reason option \<Rightarrow> run_row \<Rightarrow> run_row" where
  "to_status now st reason r =
     r\<lparr>rr_status := st, rr_reason := reason,
       rr_completed_at := (if st \<notin> {Accepted, Running} then Some now else rr_completed_at r)\<rparr>"

definition to_running :: "run_row \<Rightarrow> run_row" where
  "to_running r = (if rr_status r = Accepted then r\<lparr>rr_status := Running\<rparr> else r)"

definition to_cancelled :: "string \<Rightarrow> run_row \<Rightarrow> run_row" where
  "to_cancelled now r =
     r\<lparr>rr_status := Cancelled, rr_reason := Some Reason_Cancelled, rr_completed_at := Some now\<rparr>"

definition to_failed :: "string \<Rightarrow> run_row \<Rightarrow> run_row" where
  "to_failed now r =
     r\<lparr>rr_status := Failed, rr_reason := Some Engine_Error, rr_completed_at := Some now\<rparr>"

definition transition ::
  "string \<Rightarrow> string \<Rightarrow> run_status \<Rightarrow> termination_reason option \<Rightarrow> store
     \<Rightarrow> (store_error + run_row) \<times> store" where
  "transition now rid st reason s =
     (let s' = update_run rid (to_status now st reason) s in
      case run_by_id s' rid of
        None \<Rightarrow> (Inl RunNotFound, s)
      | Some r \<Rightarrow> (Inr r, s'))"

definition start_if_accepted ::
  "(string \<Rightarrow> string) \<Rightarrow> string \<Rightarrow> string \<Rightarrow> store \<Rightarrow> (store_error + run_row option) \<times> store" where
  "start_if_accepted H now rid s =
     (case run_by_id s rid of
        None \<Rightarrow> (Inr None, s)
      | Some r \<Rightarrow>
          if rr_status r \<noteq> Accepted then (Inr (Some r), s)
          else
            let s1 = update_run rid to_running s in
            case append_locked H now rid ''run.started'' (status_payload Running) s1 of
              (Inl e, s2) \<Rightarrow> (Inl e, s2)
            | (Inr _, s2) \<Rightarrow> (Inr (run_by_id s2 rid), s2))"

definition terminal :: "run_status \<Rightarrow> bool" where
  "terminal st \<longleftrightarrow> st \<in> {Completed, Failed, Cancelled}"

definition cancel ::
  "(string \<Rightarrow> string) \<Rightarrow> string \<Rightarrow> string \<Rightarrow> store \<Rightarrow> (store_error + run_row option) \<times> store" where
  "cancel H now rid s =
     (case run_by_id s rid of
        None \<Rightarrow> (Inr None, s)
      | Some r \<Rightarrow>
          if terminal (rr_status r) then (Inr (Some r), s)
          else
            let s1 = update_run rid (to_cancelled now) s in
            case append_locked H now rid ''run.cancelled'' (status_payload Cancelled) s1 of
              (Inl e, s2) \<Rightarrow> (Inl e, s2)
            | (Inr _, s2) \<Rightarrow> (Inr (run_by_id s2 rid), s2))"

definition append_event ::
  "(string \<Rightarrow> string) \<Rightarrow> string \<Rightarrow> string \<Rightarrow> string \<Rightarrow> json \<Rightarrow> store
     \<Rightarrow> (store_error + event_row) \<times> store" where
  "append_event H now rid ty payload s = append_locked H now rid ty payload s"

text \<open>The rows are read first, then each is built as a contract: one that breaks it raises.\<close>

definition events_after :: "string \<Rightarrow> nat \<Rightarrow> store \<Rightarrow> store_error + event_row list" where
  "events_after rid n s =
     (let rows = sort_key ev_seq (filter (\<lambda>e. n < ev_seq e) (events_of rid s))
      in if list_all (\<lambda>e. event_dto_ok rid (ev_type e)) rows then Inr rows else Inl EventInvalid)"

definition has_cursor :: "string \<Rightarrow> nat \<Rightarrow> store \<Rightarrow> bool" where
  "has_cursor rid n s = (n \<le> max_sequence rid s)"

definition unfinished :: "run_status \<Rightarrow> bool" where
  "unfinished st \<longleftrightarrow> st \<in> {Accepted, Running, Suspended_Operation,
                             Suspended_Confirmation, Suspended_Authorization}"

definition recovery_payload :: json where
  "recovery_payload = JObj [(''code'', JStr ''harness_run_recovery_required'')]"

fun fail_each ::
  "(string \<Rightarrow> string) \<Rightarrow> string \<Rightarrow> string list \<Rightarrow> store \<Rightarrow> (store_error + unit) \<times> store" where
  "fail_each H now [] s = (Inr (), s)"
| "fail_each H now (rid # rids) s =
     (let s1 = update_run rid (to_failed now) s in
      case append_locked H now rid ''run.failed'' recovery_payload s1 of
        (Inl e, s2) \<Rightarrow> (Inl e, s2)
      | (Inr _, s2) \<Rightarrow> fail_each H now rids s2)"

definition unfinished_ids :: "store \<Rightarrow> string list" where
  "unfinished_ids s = map rr_id (sort_key rr_accepted_at (filter (\<lambda>r. unfinished (rr_status r)) (st_runs s)))"

definition fail_unfinished_after_restart ::
  "(string \<Rightarrow> string) \<Rightarrow> string \<Rightarrow> store \<Rightarrow> (store_error + string list) \<times> store" where
  "fail_unfinished_after_restart H now s =
     (let rids = unfinished_ids s in
      if rids = [] then (Inr [], s)
      else case fail_each H now rids s of
             (Inl e, s') \<Rightarrow> (Inl e, s')
           | (Inr _, s') \<Rightarrow> (Inr rids, s'))"

section \<open>Commands and the invariant of the tables\<close>

datatype store_cmd =
    Create string run_request string string skill_catalog
  | Transition string string run_status "termination_reason option"
  | Start string string
  | Cancel string string
  | Append string string string json
  | Recover string

datatype store_val =
  Ran run_row bool | Maybe_Run "run_row option" | Appended event_row | Recovered "string list"

fun store_exec :: "(string \<Rightarrow> string) \<Rightarrow> store \<Rightarrow> store_cmd \<Rightarrow> (store_error + store_val) \<times> store" where
  "store_exec H s (Create now rq eid ever c) =
     lift_result (\<lambda>(r, b). Ran r b) (create_or_get H now rq eid ever c s)"
| "store_exec H s (Transition now rid st reason) =
     lift_result (\<lambda>r. Maybe_Run (Some r)) (transition now rid st reason s)"
| "store_exec H s (Start now rid) = lift_result Maybe_Run (start_if_accepted H now rid s)"
| "store_exec H s (Cancel now rid) = lift_result Maybe_Run (cancel H now rid s)"
| "store_exec H s (Append now rid ty p) = lift_result Appended (append_event H now rid ty p s)"
| "store_exec H s (Recover now) = lift_result Recovered (fail_unfinished_after_restart H now s)"

definition events_ok :: "(string \<Rightarrow> string) \<Rightarrow> store \<Rightarrow> bool" where
  "events_ok H s \<longleftrightarrow>
     (\<forall>rid. map ev_seq (events_of rid s) = [1..<Suc (length (events_of rid s))]) \<and>
     distinct (map ev_id (st_events s)) \<and>
     (\<forall>e \<in> set (st_events s). ev_id e = event_id_for H (ev_run e) (ev_seq e))"

definition row_ok :: "(string \<Rightarrow> string) \<Rightarrow> run_row \<Rightarrow> bool" where
  "row_ok H r \<longleftrightarrow> rr_id r = run_id_for H (rr_key r) \<and>
     (rr_status r \<notin> {Accepted, Running} \<longrightarrow> rr_completed_at r \<noteq> None)"

definition runs_ok :: "(string \<Rightarrow> string) \<Rightarrow> store \<Rightarrow> bool" where
  "runs_ok H s \<longleftrightarrow> distinct (map rr_id (st_runs s)) \<and> distinct (map rr_key (st_runs s)) \<and>
     (\<forall>r \<in> set (st_runs s). row_ok H r)"

definition skills_ok :: "store \<Rightarrow> bool" where
  "skills_ok s \<longleftrightarrow> sr_run ` set (st_skills s) \<subseteq> rr_id ` set (st_runs s)"

definition store_inv :: "(string \<Rightarrow> string) \<Rightarrow> store \<Rightarrow> bool" where
  "store_inv H s \<longleftrightarrow> events_ok H s \<and> runs_ok H s \<and> skills_ok s"


text \<open>What of a run never changes, and the order of stores: rows are only added.\<close>

definition run_identity :: "run_row \<Rightarrow> string \<times> string \<times> string \<times> string \<times> string" where
  "run_identity r = (rr_id r, rr_key r, rr_digest r, rr_catalog r, rr_accepted_at r)"

definition store_le :: "store \<Rightarrow> store \<Rightarrow> bool" where
  "store_le s t \<longleftrightarrow> prefix (st_events s) (st_events t) \<and>
     prefix (map run_identity (st_runs s)) (map run_identity (st_runs t)) \<and>
     (\<forall>rid \<in> rr_id ` set (st_runs s). skills_of rid t = skills_of rid s)"

section \<open>Frames\<close>

lemma update_run_frames [simp]:
  "st_events (update_run rid f s) = st_events s"
  "st_skills (update_run rid f s) = st_skills s"
  "events_of r (update_run rid f s) = events_of r s"
  "skills_of r (update_run rid f s) = skills_of r s"
  "max_sequence r (update_run rid f s) = max_sequence r s"
  by (simp_all add: update_run_def events_of_def max_sequence_def skills_of_def)

lemma append_locked_frames [simp]:
  "st_runs (snd (append_locked H now rid ty p s)) = st_runs s"
  "st_skills (snd (append_locked H now rid ty p s)) = st_skills s"
  "run_by_id (snd (append_locked H now rid ty p s)) r = run_by_id s r"
  by (simp_all add: append_locked_def run_by_id_def Let_def)

lemma map_update_run:
  "(\<And>r. g (f r) = g r) \<Longrightarrow> map g (st_runs (update_run rid f s)) = map g (st_runs s)"
  by (simp add: update_run_def)

lemma ids_update_run:
  "(\<And>r. rr_id (f r) = rr_id r) \<Longrightarrow> rr_id ` set (st_runs (update_run rid f s)) = rr_id ` set (st_runs s)"
  by (metis list.set_map map_update_run)

lemma runs_ok_update:
  assumes "runs_ok H s" and "\<And>r. rr_id (f r) = rr_id r" and "\<And>r. rr_key (f r) = rr_key r"
    and "\<And>r. rr_id r = rid \<Longrightarrow> row_ok H r \<Longrightarrow> row_ok H (f r)"
  shows "runs_ok H (update_run rid f s)"
proof -
  have "\<forall>r \<in> set (st_runs (update_run rid f s)). row_ok H r"
    using assms(1,4) by (auto simp: runs_ok_def update_run_def)
  then show ?thesis using assms by (simp add: runs_ok_def map_update_run)
qed

lemma runs_ok_cong: "st_runs s = st_runs t \<Longrightarrow> runs_ok H s = runs_ok H t"
  by (simp add: runs_ok_def)

lemma events_ok_cong: "st_events s = st_events t \<Longrightarrow> events_ok H s = events_ok H t"
  by (simp add: events_ok_def events_of_def)

lemma skills_ok_cong: "st_skills s = st_skills t \<Longrightarrow> st_runs s = st_runs t \<Longrightarrow> skills_ok s = skills_ok t"
  by (simp add: skills_ok_def)

lemma fold_max_upt: "fold max [1..<Suc n] 0 = (n::nat)"
  by (induction n) auto

lemma max_sequence_length: "events_ok H s \<Longrightarrow> max_sequence rid s = length (events_of rid s)"
proof -
  assume "events_ok H s"
  then have "max_sequence rid s = fold max [1..<Suc (length (events_of rid s))] 0"
    unfolding events_ok_def max_sequence_def by metis
  then show ?thesis by (simp only: fold_max_upt)
qed

lemma new_event_fields [simp]:
  "ev_run (new_event H now rid ty p s) = rid"
  "ev_seq (new_event H now rid ty p s) = Suc (max_sequence rid s)"
  "ev_type (new_event H now rid ty p s) = ty"
  "ev_payload (new_event H now rid ty p s) = p"
  "ev_id (new_event H now rid ty p s) = event_id_for H rid (Suc (max_sequence rid s))"
  by (simp_all add: new_event_def Let_def)

lemma append_locked_snd:
  "snd (append_locked H now rid ty p s) =
     (if event_conflict (new_event H now rid ty p s) s then s
      else s\<lparr>st_events := st_events s @ [new_event H now rid ty p s]\<rparr>)"
  by (simp add: append_locked_def Let_def)

lemma append_locked_ok_snd:
  "append_locked H now rid ty p s = (Inr e, t) \<Longrightarrow>
     e = new_event H now rid ty p s \<and> t = s\<lparr>st_events := st_events s @ [e]\<rparr>"
  by (auto simp: append_locked_def Let_def split: if_splits)

lemma append_locked_events_ok:
  assumes "events_ok H s"
  shows "events_ok H (snd (append_locked H now rid ty p s))"
  using assms max_sequence_length [OF assms]
  by (auto simp: append_locked_snd events_ok_def events_of_def event_conflict_def list_ex_iff)

lemma append_locked_le: "store_le s (snd (append_locked H now rid ty p s))"
  by (simp add: append_locked_snd store_le_def skills_of_def)

lemma store_le_refl: "store_le s s"
  by (simp add: store_le_def)

lemma store_le_trans:
  assumes "store_le s t" and "store_le t u"
  shows "store_le s u"
proof -
  have ids: "rr_id ` set (st_runs x) = fst ` set (map run_identity (st_runs x))" for x
    by (simp add: image_image run_identity_def)
  have sub: "rr_id ` set (st_runs s) \<subseteq> rr_id ` set (st_runs t)"
    unfolding ids using assms(1) by (intro image_mono set_mono_prefix) (simp add: store_le_def)
  have "skills_of rid u = skills_of rid s" if "rid \<in> rr_id ` set (st_runs s)" for rid
  proof -
    have "skills_of rid u = skills_of rid t"
      using assms(2) sub that unfolding store_le_def by blast
    also have "\<dots> = skills_of rid s" using assms(1) that unfolding store_le_def by blast
    finally show ?thesis .
  qed
  then show ?thesis
    using assms by (auto simp: store_le_def intro: prefix_order.trans)
qed

lemma store_le_update:
  "(\<And>r. run_identity (f r) = run_identity r) \<Longrightarrow> store_le s (update_run rid f s)"
  by (simp add: store_le_def map_update_run)

lemma store_inv_update:
  assumes "store_inv H s" and "\<And>r. run_identity (f r) = run_identity r"
    and "\<And>r. rr_id r = rid \<Longrightarrow> row_ok H r \<Longrightarrow> row_ok H (f r)"
  shows "store_inv H (update_run rid f s)"
proof -
  have ids: "rr_id (f r) = rr_id r" "rr_key (f r) = rr_key r" for r
    using assms(2) [of r] by (auto simp: run_identity_def)
  have "events_ok H (update_run rid f s)"
    using assms(1) events_ok_cong [of "update_run rid f s" s] by (simp add: store_inv_def)
  moreover have "skills_ok (update_run rid f s)"
    using assms(1) ids by (simp add: store_inv_def skills_ok_def ids_update_run)
  ultimately show ?thesis
    using assms(1,3) ids by (simp add: store_inv_def runs_ok_update)
qed

lemma store_inv_append: "store_inv H s \<Longrightarrow> store_inv H (snd (append_locked H now rid ty p s))"
  using runs_ok_cong [of "snd (append_locked H now rid ty p s)" s]
    skills_ok_cong [of "snd (append_locked H now rid ty p s)" s]
  by (simp add: store_inv_def append_locked_events_ok)

section \<open>Every method keeps the invariant and only adds rows\<close>

definition store_step :: "(string \<Rightarrow> string) \<Rightarrow> store \<Rightarrow> store \<Rightarrow> bool" where
  "store_step H s t \<longleftrightarrow> (store_inv H s \<longrightarrow> store_inv H t \<and> store_le s t)"

lemma store_step_refl: "store_step H s s"
  by (simp add: store_step_def store_le_refl)

lemma store_step_trans: "store_step H s t \<Longrightarrow> store_step H t u \<Longrightarrow> store_step H s u"
  by (auto simp: store_step_def intro: store_le_trans)

lemma append_locked_step: "store_step H s (snd (append_locked H now rid ty p s))"
  by (simp add: store_step_def store_inv_append append_locked_le)

lemma update_run_step:
  "(\<And>r. run_identity (f r) = run_identity r) \<Longrightarrow>
   (\<And>r. rr_id r = rid \<Longrightarrow> row_ok H r \<Longrightarrow> row_ok H (f r)) \<Longrightarrow> store_step H s (update_run rid f s)"
  by (simp add: store_step_def store_inv_update store_le_update)

lemmas set_clause_defs = to_status_def to_running_def to_cancelled_def to_failed_def

lemma set_clauses_identity [simp]:
  "run_identity (to_status now st reason r) = run_identity r"
  "run_identity (to_running r) = run_identity r"
  "run_identity (to_cancelled now r) = run_identity r"
  "run_identity (to_failed now r) = run_identity r"
  by (simp_all add: set_clause_defs run_identity_def)

lemma set_clauses_row_ok:
  "row_ok H r \<Longrightarrow> row_ok H (to_status now st reason r)"
  "row_ok H r \<Longrightarrow> row_ok H (to_running r)"
  "row_ok H r \<Longrightarrow> row_ok H (to_cancelled now r)"
  "row_ok H r \<Longrightarrow> row_ok H (to_failed now r)"
  by (simp_all add: set_clause_defs row_ok_def)

lemma set_clauses_step:
  "store_step H s (update_run rid (to_status now st reason) s)"
  "store_step H s (update_run rid to_running s)"
  "store_step H s (update_run rid (to_cancelled now) s)"
  "store_step H s (update_run rid (to_failed now) s)"
  by (rule update_run_step; simp add: set_clauses_row_ok)+

lemma transition_step: "store_step H s (snd (transition now rid st reason s))"
  by (simp add: transition_def Let_def store_step_refl set_clauses_step split: option.splits)

lemma start_step: "store_step H s (snd (start_if_accepted H now rid s))"
proof -
  let ?u = "update_run rid to_running s"
  have u: "store_step H s ?u" by (rule set_clauses_step)
  have "store_step H s (snd (append_locked H now rid ''run.started'' (status_payload Running) ?u))"
    by (rule store_step_trans [OF u append_locked_step])
  then show ?thesis
    by (auto simp: start_if_accepted_def Let_def store_step_refl
             split: option.splits prod.splits sum.splits)
qed

lemma cancel_step: "store_step H s (snd (cancel H now rid s))"
proof -
  let ?u = "update_run rid (to_cancelled now) s"
  have u: "store_step H s ?u" by (rule set_clauses_step)
  have "store_step H s (snd (append_locked H now rid ''run.cancelled'' (status_payload Cancelled) ?u))"
    by (rule store_step_trans [OF u append_locked_step])
  then show ?thesis
    by (auto simp: cancel_def Let_def store_step_refl split: option.splits prod.splits sum.splits)
qed

lemma fail_each_step: "store_step H s (snd (fail_each H now rids s))"
proof (induction H now rids s rule: fail_each.induct)
  case (1 H now s)
  show ?case by (simp add: store_step_refl)
next
  case (2 H now rid rids s)
  let ?u = "update_run rid (to_failed now) s"
  have u: "store_step H s ?u" by (rule set_clauses_step)
  have a: "store_step H s (snd (append_locked H now rid ''run.failed'' recovery_payload ?u))"
    by (rule store_step_trans [OF u append_locked_step])
  show ?case
  proof (cases "fst (append_locked H now rid ''run.failed'' recovery_payload ?u)")
    case (Inl e)
    with a show ?thesis by (auto simp: Let_def split: prod.splits)
  next
    case (Inr x)
    then obtain t where t: "append_locked H now rid ''run.failed'' recovery_payload ?u = (Inr x, t)"
      by (metis prod.collapse)
    from a t "2.IH" [OF refl t [symmetric] refl] show ?thesis
      by (auto simp: Let_def intro: store_step_trans)
  qed
qed

lemma recover_step: "store_step H s (snd (fail_unfinished_after_restart H now s))"
  using fail_each_step [of H s now "unfinished_ids s"]
  by (auto simp: fail_unfinished_after_restart_def Let_def store_step_refl
           split: prod.splits sum.splits)

text \<open>
  A new run: its row, then its skill rows. No other run owns a row with the new identity,
  because every skill row belongs to a stored run.
\<close>

lemma insert_run_step:
  assumes "run_by_key s (rq_key rq) = None" and "\<not> list_ex (\<lambda>x. rr_id x = run_id_for H (rq_key rq)) (st_runs s)"
  shows "store_step H s (s\<lparr>st_runs := st_runs s @ [new_run H now rq eid ever c]\<rparr>)"
  using assms
  by (auto simp: store_step_def store_inv_def store_le_def runs_ok_def row_ok_def new_run_def
        run_by_key_def find_None_all list_ex_iff events_ok_def events_of_def skills_ok_def skills_of_def)

lemma insert_skills_result:
  "(\<forall>x \<in> set xs. sr_run x = rid) \<Longrightarrow> snd (insert_skills xs s) = t \<Longrightarrow>
   st_runs t = st_runs s \<and> st_events t = st_events s \<and>
   sr_run ` set (st_skills t) \<subseteq> insert rid (sr_run ` set (st_skills s)) \<and>
   (\<forall>r. r \<noteq> rid \<longrightarrow> skills_of r t = skills_of r s)"
proof (induction xs s arbitrary: t rule: insert_skills.induct)
  case (2 x xs s)
  show ?case
  proof (cases "list_ex (\<lambda>y. sr_run y = sr_run x \<and> sr_name y = sr_name x) (st_skills s)")
    case True
    with "2.prems" show ?thesis by auto
  next
    case False
    with "2.prems" have "snd (insert_skills xs (s\<lparr>st_skills := st_skills s @ [x]\<rparr>)) = t" by simp
    from "2.IH" [OF False _ this] "2.prems"(1) show ?thesis by (auto simp: skills_of_def)
  qed
qed auto

lemma insert_skills_fresh:
  "distinct (map sr_name xs) \<Longrightarrow> \<forall>x \<in> set xs. sr_run x = rid \<Longrightarrow>
   (\<forall>y \<in> set (st_skills s). sr_run y = rid \<longrightarrow> sr_name y \<notin> sr_name ` set xs) \<Longrightarrow>
   insert_skills xs s = (Inr (), s\<lparr>st_skills := st_skills s @ xs\<rparr>)"
proof (induction xs s rule: insert_skills.induct)
  case (2 x xs s)
  then have "\<not> list_ex (\<lambda>y. sr_run y = sr_run x \<and> sr_name y = sr_name x) (st_skills s)"
    by (auto simp: list_ex_iff)
  with 2 show ?case by auto
qed simp

lemma skill_rows_run: "x \<in> set (skill_rows rid c) \<Longrightarrow> sr_run x = rid"
  by (auto simp: skill_rows_def)

text \<open>The state after the two inserts of a new run.\<close>

lemma insert_new_run_step:
  assumes "run_by_key s (rq_key rq) = None" and "\<not> list_ex (\<lambda>x. rr_id x = run_id_for H (rq_key rq)) (st_runs s)"
    and "insert_skills (skill_rows (run_id_for H (rq_key rq)) c)
           (s\<lparr>st_runs := st_runs s @ [new_run H now rq eid ever c]\<rparr>) = (res, t)"
  shows "store_step H s t"
proof -
  let ?rid = "run_id_for H (rq_key rq)" and ?s1 = "s\<lparr>st_runs := st_runs s @ [new_run H now rq eid ever c]\<rparr>"
  have rows: "st_runs t = st_runs ?s1 \<and> st_events t = st_events ?s1 \<and>
      sr_run ` set (st_skills t) \<subseteq> insert ?rid (sr_run ` set (st_skills ?s1)) \<and>
      (\<forall>r. r \<noteq> ?rid \<longrightarrow> skills_of r t = skills_of r ?s1)"
    by (rule insert_skills_result [where xs = "skill_rows ?rid c"])
       (use assms(3) in \<open>auto dest: skill_rows_run\<close>)
  have old: "r \<noteq> ?rid" if "r \<in> rr_id ` set (st_runs s)" for r
    using that assms(2) by (auto simp: list_ex_iff)
  have s1: "store_step H s ?s1" by (rule insert_run_step [OF assms(1,2)])
  have "store_inv H t" if "store_inv H s"
  proof -
    have i: "store_inv H ?s1" using that s1 by (simp add: store_step_def)
    have "runs_ok H t = runs_ok H ?s1" by (rule runs_ok_cong) (use rows in simp)
    moreover have "events_ok H t = events_ok H ?s1" by (rule events_ok_cong) (use rows in simp)
    moreover have "skills_ok t"
    proof -
      have "sr_run ` set (st_skills ?s1) \<subseteq> rr_id ` set (st_runs ?s1)"
        using i unfolding store_inv_def skills_ok_def by (elim conjE)
      moreover have "?rid \<in> rr_id ` set (st_runs ?s1)" by (simp add: new_run_def)
      ultimately have b: "insert ?rid (sr_run ` set (st_skills ?s1)) \<subseteq> rr_id ` set (st_runs ?s1)"
        by (simp only: insert_subset simp_thms)
      have a: "sr_run ` set (st_skills t) \<subseteq> insert ?rid (sr_run ` set (st_skills ?s1))"
        using rows by (elim conjE)
      have "st_runs t = st_runs ?s1" using rows by (elim conjE)
      then show ?thesis unfolding skills_ok_def by (simp only: subset_trans [OF a b])
    qed
    ultimately show ?thesis using i by (simp add: store_inv_def)
  qed
  moreover have "store_le s t"
    using rows old by (auto simp: store_le_def skills_of_def)
  ultimately show ?thesis by (simp add: store_step_def)
qed

lemma create_step: "store_step H s (snd (create_or_get H now rq eid ever c s))"
proof (cases "run_by_key s (rq_key rq)")
  case (Some r)
  then show ?thesis by (simp add: create_or_get_def store_step_refl)
next
  case None
  let ?r = "new_run H now rq eid ever c"
  have id: "rr_id ?r = run_id_for H (rq_key rq)" by (simp add: new_run_def)
  show ?thesis
  proof (cases "list_ex (\<lambda>x. rr_id x = rr_id ?r) (st_runs s)")
    case True
    with None show ?thesis by (simp add: create_or_get_def Let_def store_step_refl)
  next
    case False
    obtain res s2 where i: "insert_skills (skill_rows (rr_id ?r) c) (s\<lparr>st_runs := st_runs s @ [?r]\<rparr>) = (res, s2)"
      by fastforce
    have s2: "store_step H s s2"
      by (rule insert_new_run_step [OF None]) (use False i id in simp_all)
    then have "store_step H s (snd (append_locked H now (rr_id ?r) ''run.accepted'' (status_payload Accepted) s2))"
      by (rule store_step_trans [OF _ append_locked_step])
    with None False s2 show ?thesis
      by (auto simp: create_or_get_def Let_def i split: prod.splits sum.splits)
  qed
qed

lemma store_exec_step: "store_step H s (snd (store_exec H s c))"
  by (cases c) (auto simp: create_step transition_step start_step cancel_step recover_step
                 append_event_def append_locked_step)

lemma empty_store_inv: "store_inv H empty_store"
  by (simp add: store_inv_def events_ok_def runs_ok_def skills_ok_def empty_store_def events_of_def)

interpretation sidecar: monotone_machine "store_exec H" "store_inv H" store_le for H
proof
  show "store_inv H s \<Longrightarrow> store_inv H (snd (store_exec H s c))" for s c
    using store_exec_step [of H s c] by (simp add: store_step_def)
  show "store_le s s" for s by (rule store_le_refl)
  show "store_le s t \<Longrightarrow> store_le t u \<Longrightarrow> store_le s u" for s t u by (rule store_le_trans)
  show "store_inv H s \<Longrightarrow> store_le s (snd (store_exec H s c))" for s c
    using store_exec_step [of H s c] by (simp add: store_step_def)
qed

end
