(* ===== verification/Sidecar_Replay.thy ===== *)
theory Sidecar_Replay
  imports Sidecar_Store
begin

text \<open>
  What the clients of the sidecar's store rely on: the event log of a run is gapless and can be
  resumed from a cursor without loss or repetition, a retried creation finds the run it made,
  the frozen skills of a run are read back as they were accepted, the identities have the form
  the Gateway's contracts ask for, and the restart closes every unfinished run.
\<close>

section \<open>Numbered logs\<close>

lemma filter_numbered:
  "map f xs = [1..<Suc (length xs)] \<Longrightarrow> filter (\<lambda>x. n < f x) xs = drop n xs"
proof (induction xs rule: rev_induct)
  case (snoc x xs)
  then have "map f xs = [1..<Suc (length xs)]" and fx: "f x = Suc (length xs)" by auto
  with snoc.IH have "filter (\<lambda>x. n < f x) xs = drop n xs" by blast
  with fx show ?case by (cases "n \<le> length xs") auto
qed simp

lemma sorted_numbered: "map f xs = [1..<Suc (length xs)] \<Longrightarrow> sorted (map f (drop n xs))"
  by (metis drop_map sorted_upt sorted_wrt_drop)

definition readable :: "string \<Rightarrow> event_row list \<Rightarrow> bool" where
  "readable rid es = list_all (\<lambda>e. event_dto_ok rid (ev_type e)) es"

lemma readable_append [simp]: "readable rid (es @ fs) = (readable rid es \<and> readable rid fs)"
  by (simp add: readable_def)

lemma events_after_drop:
  "events_ok H s \<Longrightarrow> events_after rid n s =
     (if readable rid (drop n (events_of rid s)) then Inr (drop n (events_of rid s)) else Inl EventInvalid)"
proof -
  assume "events_ok H s"
  then have n: "map ev_seq (events_of rid s) = [1..<Suc (length (events_of rid s))]"
    by (simp add: events_ok_def del: upt_Suc)
  show ?thesis
    unfolding events_after_def filter_numbered [OF n] sort_key_id_if_sorted [OF sorted_numbered [OF n]]
    by (simp add: readable_def Let_def)
qed

lemma events_of_prefix: "store_le s t \<Longrightarrow> prefix (events_of rid s) (events_of rid t)"
  by (auto simp: store_le_def events_of_def prefix_def)

section \<open>Finding a stored run again\<close>

lemma find_unique:
  "distinct (map f xs) \<Longrightarrow> x \<in> set xs \<Longrightarrow> List.find (\<lambda>y. f y = f x) xs = Some x"
  by (induction xs) (auto simp: image_iff)

lemma stored_run_found:
  assumes "store_inv H t" and "store_le s t" and "r \<in> set (st_runs s)"
  shows "\<exists>r'. r' \<in> set (st_runs t) \<and> run_by_id t (rr_id r) = Some r' \<and> run_by_key t (rr_key r) = Some r' \<and>
              run_identity r' = run_identity r"
proof -
  have "run_identity r \<in> set (map run_identity (st_runs t))"
    using assms(2,3) set_mono_prefix [of "map run_identity (st_runs s)" "map run_identity (st_runs t)"]
    by (auto simp: store_le_def)
  then obtain r' where r': "r' \<in> set (st_runs t)" "run_identity r' = run_identity r" by auto
  have eq: "rr_id r' = rr_id r" "rr_key r' = rr_key r" using r'(2) by (auto simp: run_identity_def)
  have "run_by_id t (rr_id r') = Some r'" and "run_by_key t (rr_key r') = Some r'"
    unfolding run_by_id_def run_by_key_def
    using assms(1) r'(1) by (auto simp: store_inv_def runs_ok_def intro!: find_unique)
  with r' show ?thesis unfolding eq by blast
qed

lemma new_run_fields [simp]:
  "rr_id (new_run H now rq eid ever c) = run_id_for H (rq_key rq)"
  "rr_key (new_run H now rq eid ever c) = rq_key rq"
  "rr_digest (new_run H now rq eid ever c) = rq_digest rq"
  "rr_catalog (new_run H now rq eid ever c) = sc_digest c"
  by (simp_all add: new_run_def)

lemma append_locked_keeps:
  "append_locked H now rid ty p s = (res, t) \<Longrightarrow> st_runs t = st_runs s \<and> st_skills t = st_skills s"
  using append_locked_frames(1,2) [of H now rid ty p s] by simp

lemma create_new_cases:
  assumes "create_or_get H now rq eid ever c s = (Inr (r, b), s')" and "run_by_key s (rq_key rq) = None"
  obtains s1 where "b" and "r = new_run H now rq eid ever c"
    and "\<not> list_ex (\<lambda>x. rr_id x = run_id_for H (rq_key rq)) (st_runs s)"
    and "insert_skills (skill_rows (run_id_for H (rq_key rq)) c)
           (s\<lparr>st_runs := st_runs s @ [new_run H now rq eid ever c]\<rparr>) = (Inr (), s1)"
    and "st_runs s' = st_runs s1" and "st_skills s' = st_skills s1"
  using assms
  by (auto simp: create_or_get_def Let_def split: if_splits sum.splits prod.splits
           dest: append_locked_keeps)

lemma create_returns_stored:
  assumes "create_or_get H now rq eid ever c s = (Inr (r, b), s')"
  shows "r \<in> set (st_runs s') \<and> rr_key r = rq_key rq \<and> rr_digest r = rq_digest rq \<and>
         (b \<longrightarrow> r = new_run H now rq eid ever c \<and> run_by_key s (rq_key rq) = None) \<and> (\<not> b \<longrightarrow> s' = s)"
proof (cases "run_by_key s (rq_key rq)")
  case (Some r')
  then have "r' \<in> set (st_runs s) \<and> rr_key r' = rq_key rq"
    unfolding run_by_key_def by (rule find_Some_in)
  with assms Some show ?thesis by (auto simp: create_or_get_def split: if_splits)
next
  case None
  let ?s0 = "s\<lparr>st_runs := st_runs s @ [new_run H now rq eid ever c]\<rparr>"
  obtain s1 where b: "b" "r = new_run H now rq eid ever c"
    and i: "insert_skills (skill_rows (run_id_for H (rq_key rq)) c) ?s0 = (Inr (), s1)"
    and s': "st_runs s' = st_runs s1"
    using create_new_cases [OF assms None] by blast
  have "st_runs s1 = st_runs ?s0"
    using insert_skills_result [of "skill_rows (run_id_for H (rq_key rq)) c" "run_id_for H (rq_key rq)" ?s0 s1] i
    by (auto dest: skill_rows_run)
  with b s' None show ?thesis by simp
qed

lemma create_inv_le:
  assumes "store_inv H s" and "create_or_get H now rq eid ever c s = (res, s')"
  shows "store_inv H s'" and "store_le s s'"
  using create_step [of H s now rq eid ever c] assms by (auto simp: store_step_def)

section \<open>Frozen skills\<close>

lemma created_skill_rows:
  assumes inv: "store_inv H s" and cat: "entries_ok (sc_entries c)"
    and cr: "create_or_get H now rq eid ever c s = (Inr (r, True), s')"
  shows "skills_of (rr_id r) s' = skill_rows (rr_id r) c"
proof -
  let ?rid = "run_id_for H (rq_key rq)" and ?s0 = "s\<lparr>st_runs := st_runs s @ [new_run H now rq eid ever c]\<rparr>"
  have none: "run_by_key s (rq_key rq) = None" using create_returns_stored [OF cr] by auto
  obtain s1 where r: "r = new_run H now rq eid ever c"
    and fresh: "\<not> list_ex (\<lambda>x. rr_id x = ?rid) (st_runs s)"
    and i: "insert_skills (skill_rows ?rid c) ?s0 = (Inr (), s1)" and s': "st_skills s' = st_skills s1"
    using create_new_cases [OF cr none] by blast
  have no_rows: "\<forall>y \<in> set (st_skills s). sr_run y \<noteq> ?rid"
    using inv fresh by (force simp: store_inv_def skills_ok_def list_ex_iff)
  have names: "map sr_name (skill_rows ?rid c) = map fst (sc_entries c)"
    using cat by (auto simp: skill_rows_def dict_vals_def entries_ok_def)
  have "insert_skills (skill_rows ?rid c) ?s0 = (Inr (), ?s0\<lparr>st_skills := st_skills ?s0 @ skill_rows ?rid c\<rparr>)"
  proof (rule insert_skills_fresh)
    show "distinct (map sr_name (skill_rows ?rid c))" using cat names by (simp add: entries_ok_def)
    show "\<forall>x \<in> set (skill_rows ?rid c). sr_run x = ?rid" by (auto dest: skill_rows_run)
    show "\<forall>y \<in> set (st_skills ?s0). sr_run y = ?rid \<longrightarrow> sr_name y \<notin> sr_name ` set (skill_rows ?rid c)"
      using no_rows by auto
  qed
  with i s' have "st_skills s' = st_skills s @ skill_rows ?rid c" by auto
  then show ?thesis
    using no_rows by (auto simp: skills_of_def r filter_empty_conv dest: skill_rows_run intro!: filter_True)
qed

lemma skill_rows_entries:
  "entries_ok (sc_entries c) \<Longrightarrow>
   map (\<lambda>x. (sr_name x, sr_entry x)) (skill_rows rid c) = sc_entries c"
  by (auto simp: skill_rows_def dict_vals_def entries_ok_def intro!: map_idI)

lemma skill_rows_sorted: "entries_ok (sc_entries c) \<Longrightarrow> sort_key sr_name (skill_rows rid c) = skill_rows rid c"
proof (rule sort_key_id_if_sorted)
  assume e: "entries_ok (sc_entries c)"
  then have "map sr_name (skill_rows rid c) = map fst (sc_entries c)"
    by (auto simp: skill_rows_def dict_vals_def entries_ok_def)
  with e show "sorted (map sr_name (skill_rows rid c))" by (simp add: entries_ok_def)
qed

lemma skill_snapshot_read_back:
  assumes inv: "store_inv H s" and cat: "catalog_ok H c"
    and cr: "create_or_get H now rq eid ever c s = (Inr (r, True), s')"
    and t: "store_inv H t" "store_le s' t"
  shows "get_skill_snapshot H (rr_id r) t = Inr c"
proof -
  have e: "entries_ok (sc_entries c)" and d: "sc_digest c = catalog_digest H (dict_vals (sc_entries c))"
    using cat by (auto simp: catalog_ok_def)
  have st: "r \<in> set (st_runs s')" and r: "r = new_run H now rq eid ever c"
    using create_returns_stored [OF cr] by auto
  obtain r' where r': "run_by_id t (rr_id r) = Some r'" "run_identity r' = run_identity r"
    using stored_run_found [OF t st] by auto
  have "rr_catalog r' = sc_digest c" using r'(2) by (simp add: run_identity_def r new_run_def)
  moreover have "skills_of (rr_id r) t = skill_rows (rr_id r) c"
    using t(2) st created_skill_rows [OF inv e cr] by (auto simp: store_le_def)
  ultimately show ?thesis
    using r' d skill_rows_sorted [OF e] skill_rows_entries [OF e]
    by (simp add: get_skill_snapshot_def Let_def)
qed

section \<open>Restart\<close>

lemma unfinished_not_terminal: "unfinished st \<longleftrightarrow> \<not> terminal st"
  by (cases st) (auto simp: unfinished_def terminal_def)

lemma fail_each_result:
  "fail_each H now rids s = (Inr (), t) \<Longrightarrow> distinct rids \<Longrightarrow>
   st_runs t = map (\<lambda>r. if rr_id r \<in> set rids then to_failed now r else r) (st_runs s) \<and>
   (\<forall>rid. (rid \<notin> set rids \<longrightarrow> events_of rid t = events_of rid s) \<and>
          (rid \<in> set rids \<longrightarrow> (\<exists>e. events_of rid t = events_of rid s @ [e] \<and> ev_type e = ''run.failed'' \<and>
                                   ev_payload e = recovery_payload)))"
proof (induction H now rids s rule: fail_each.induct)
  case (1 H now s)
  then show ?case by simp
next
  case (2 H now rid rids s)
  let ?u = "update_run rid (to_failed now) s"
  from "2.prems"(1) obtain e u where a: "append_locked H now rid ''run.failed'' recovery_payload ?u = (Inr e, u)"
    and rest: "fail_each H now rids u = (Inr (), t)"
    by (auto simp: Let_def split: prod.splits sum.splits)
  have e: "ev_run e = rid" "ev_type e = ''run.failed''" "ev_payload e = recovery_payload"
    and u: "u = ?u\<lparr>st_events := st_events ?u @ [e]\<rparr>"
    using append_locked_ok_snd [OF a] by auto
  have runs: "st_runs u = map (\<lambda>r. if rr_id r = rid then to_failed now r else r) (st_runs s)"
    using u by (simp add: update_run_def)
  have evs: "events_of x u = events_of x s @ (if x = rid then [e] else [])" for x
    using u e by (simp add: events_of_def)
  have id: "rr_id (to_failed now r) = rr_id r" for r by (simp add: to_failed_def)
  from "2.IH" [OF refl a [symmetric] refl rest] "2.prems"(2)
  have IH: "st_runs t = map (\<lambda>r. if rr_id r \<in> set rids then to_failed now r else r) (st_runs u)"
    and IHe: "\<And>x. x \<notin> set rids \<Longrightarrow> events_of x t = events_of x u"
      "\<And>x. x \<in> set rids \<Longrightarrow> \<exists>e. events_of x t = events_of x u @ [e] \<and> ev_type e = ''run.failed'' \<and>
                                   ev_payload e = recovery_payload"
    by auto
  have "st_runs t = map (\<lambda>r. if rr_id r \<in> set (rid # rids) then to_failed now r else r) (st_runs s)"
    unfolding IH runs using "2.prems"(2) by (auto simp: id)
  moreover have "\<exists>e. events_of rid t = events_of rid s @ [e] \<and> ev_type e = ''run.failed'' \<and> ev_payload e = recovery_payload"
    using IHe(1) [of rid] "2.prems"(2) evs e by auto
  moreover have "events_of x t = events_of x s" if "x \<notin> set (rid # rids)" for x
    using IHe(1) [of x] that evs by auto
  moreover have "\<exists>e. events_of x t = events_of x s @ [e] \<and> ev_type e = ''run.failed'' \<and> ev_payload e = recovery_payload"
    if "x \<in> set rids" for x
    using IHe(2) [OF that] evs that "2.prems"(2) by auto
  ultimately show ?case by auto
qed

lemma set_unfinished_ids:
  "set (unfinished_ids s) = {rr_id r |r. r \<in> set (st_runs s) \<and> \<not> terminal (rr_status r)}"
  by (auto simp: unfinished_ids_def unfinished_not_terminal)

lemma distinct_unfinished_ids: "runs_ok H s \<Longrightarrow> distinct (unfinished_ids s)"
proof -
  assume "runs_ok H s"
  then have "inj_on rr_id (set (st_runs s))" and "distinct (st_runs s)"
    by (auto simp: runs_ok_def distinct_map)
  then show ?thesis
    by (auto simp: unfinished_ids_def distinct_map intro: inj_on_subset)
qed

lemma recover_result:
  assumes "store_inv H s" and "fail_unfinished_after_restart H now s = (Inr rids, t)"
  shows "rids = unfinished_ids s \<and>
         st_runs t = map (\<lambda>r. if terminal (rr_status r) then r else to_failed now r) (st_runs s) \<and>
         (\<forall>rid. (rid \<notin> set rids \<longrightarrow> events_of rid t = events_of rid s) \<and>
          (rid \<in> set rids \<longrightarrow> (\<exists>e. events_of rid t = events_of rid s @ [e] \<and> ev_type e = ''run.failed'' \<and>
                                   ev_payload e = recovery_payload)))"
proof -
  have d: "distinct (unfinished_ids s)" and inj: "inj_on rr_id (set (st_runs s))"
    using assms(1) distinct_unfinished_ids by (auto simp: store_inv_def runs_ok_def distinct_map)
  have mem: "rr_id r \<in> set (unfinished_ids s) \<longleftrightarrow> \<not> terminal (rr_status r)" if "r \<in> set (st_runs s)" for r
    using that inj by (auto simp: set_unfinished_ids inj_on_def)
  show ?thesis
  proof (cases "unfinished_ids s = []")
    case True
    then have "\<forall>r \<in> set (st_runs s). terminal (rr_status r)" using mem by fastforce
    with True assms(2) show ?thesis
      by (auto simp: fail_unfinished_after_restart_def Let_def intro!: map_idI [symmetric])
  next
    case False
    with assms(2) have f: "fail_each H now (unfinished_ids s) s = (Inr (), t)" and r: "rids = unfinished_ids s"
      by (auto simp: fail_unfinished_after_restart_def Let_def split: prod.splits sum.splits)
    from fail_each_result [OF f d] mem show ?thesis by (auto simp: r)
  qed
qed

end
