(* ===== verification/Sidecar_Runs.thy ===== *)
theory Sidecar_Runs
  imports Sidecar_Replay
begin

text \<open>
  \<^verbatim>\<open>run_service.py\<close>: the run life cycle of the sidecar. \<open>service\<close> is the
  state of the process (the store, the \<^verbatim>\<open>_tasks\<close> and \<^verbatim>\<open>_pending_requests\<close>
  dictionaries, and the SDK worker threads that still run); \<open>svc_step\<close> is one uninterrupted
  piece of work of the event loop. A piece ends where a coroutine really suspends: the store's
  methods never do while they hold their lock, so a task suspends only inside
  \<^verbatim>\<open>engine.execute\<close>, and \<^verbatim>\<open>_execute\<close> is the two pieces
  \<open>task_start\<close> and \<open>finish_run\<close> around it. The engine is an environment that may
  publish events, return a result or raise. One clock reading is taken per piece.
\<close>

section \<open>The engine's results\<close>

record diagnostic =
  dg_exception_type :: string
  dg_phase :: string
  dg_reason :: "string option"
  dg_timeout :: "string option"
  dg_code :: "string option"
  dg_type :: "string option"
  dg_category :: "string option"

record engine_result =
  er_response :: string
  er_finish :: "string option"
  er_tools :: "string list"
  er_tool_results :: bool
  er_suspension :: "string option"
  er_interrupt :: "string option"
  er_deltas :: "string list"
  er_summaries :: "string list"
  er_emitted :: bool

datatype run_error =
    Store_Fault store_error
  | Unknown_Suspension
  | Interrupt_Missing
  | Engine_Fault diagnostic
  | Other_Fault string

definition opt_text :: "string option \<Rightarrow> json" where
  "opt_text o' = (case o' of None \<Rightarrow> JNull | Some t \<Rightarrow> JStr t)"

section \<open>The second half of \<^verbatim>\<open>_execute\<close>\<close>

fun append_each ::
  "(string \<Rightarrow> string) \<Rightarrow> string \<Rightarrow> string \<Rightarrow> string \<Rightarrow> json list \<Rightarrow> store \<Rightarrow> (run_error + unit) \<times> store" where
  "append_each H now rid ty [] s = (Inr (), s)"
| "append_each H now rid ty (p # ps) s =
     seq_st (map_err Store_Fault (append_event H now rid ty p s)) (\<lambda>_. append_each H now rid ty ps)"

definition finish_failure :: "string option \<Rightarrow> termination_reason \<times> string" where
  "finish_failure f =
     (if f = Some ''deadline_exceeded'' then (Deadline_Exceeded, ''deadline_exceeded'')
      else if f = Some ''max_model_steps'' then (Max_Model_Steps, ''max_model_steps'')
      else if f = Some ''max_business_tools'' then (Max_Business_Tools, ''max_business_tools'')
      else if f = Some ''max_output_tokens'' then (Max_Output_Tokens, ''max_output_tokens'')
      else (Engine_Error, ''engine_finish_reason_unexpected''))"

definition suspension_of :: "string \<Rightarrow> (run_status \<times> termination_reason) option" where
  "suspension_of kind =
     (if kind = ''pending_operation'' then Some (Suspended_Operation, Reason_Suspended_Operation)
      else if kind = ''awaiting_confirmation'' then Some (Suspended_Confirmation, Reason_Suspended_Confirmation)
      else if kind = ''authorization_required'' then Some (Suspended_Authorization, Reason_Suspended_Authorization)
      else None)"

definition suspend ::
  "(string \<Rightarrow> string) \<Rightarrow> string \<Rightarrow> string \<Rightarrow> string \<Rightarrow> string option \<Rightarrow> store \<Rightarrow> (run_error + unit) \<times> store" where
  "suspend H now rid kind interrupt s =
     (case suspension_of kind of
        None \<Rightarrow> (Inl Unknown_Suspension, s)
      | Some (st, reason) \<Rightarrow>
          seq_st (map_err Store_Fault (transition now rid st (Some reason) s)) (\<lambda>_ s1.
            if kind \<in> {''awaiting_confirmation'', ''authorization_required''} then
              (case interrupt of
                 None \<Rightarrow> (Inl Interrupt_Missing, s1)
               | Some i \<Rightarrow> append_each H now rid ''run.suspended''
                   [JObj [(''status'', JStr (status_text st)), (''interrupt_id'', JStr i)]] s1)
            else append_each H now rid ''run.suspended'' [status_payload st] s1))"

definition delta_payload :: "string \<Rightarrow> json" where
  "delta_payload d = JObj [(''delta'', JStr d)]"

definition publish_result ::
  "(string \<Rightarrow> string) \<Rightarrow> string \<Rightarrow> string \<Rightarrow> engine_result \<Rightarrow> store \<Rightarrow> (run_error + unit) \<times> store" where
  "publish_result H now rid res s =
     seq_st (append_each H now rid ''public_summary.delta''
               (if er_emitted res then [] else map delta_payload (er_summaries res)) s) (\<lambda>_ s.
     seq_st (append_each H now rid ''public_summary.completed''
               (if er_summaries res = [] then []
                else [JObj [(''summary'', JStr (join_lines (er_summaries res)))]]) s) (\<lambda>_ s.
     seq_st (append_each H now rid ''response.delta''
               (if er_emitted res then [] else map delta_payload (er_deltas res)) s) (\<lambda>_ s.
     append_each H now rid ''response.completed'' [JObj [(''response'', JStr (er_response res))]] s)))"

definition close_run ::
  "(string \<Rightarrow> string) \<Rightarrow> string \<Rightarrow> string \<Rightarrow> run_status \<Rightarrow> termination_reason \<Rightarrow> string \<Rightarrow> json \<Rightarrow> store
     \<Rightarrow> (run_error + unit) \<times> store" where
  "close_run H now rid st reason ty p s =
     seq_st (map_err Store_Fault (transition now rid st (Some reason) s)) (\<lambda>_.
       append_each H now rid ty [p])"

definition finish_run ::
  "(string \<Rightarrow> string) \<Rightarrow> string \<Rightarrow> string \<Rightarrow> engine_result \<Rightarrow> store \<Rightarrow> (run_error + unit) \<times> store" where
  "finish_run H now rid res s =
     (case get_run rid s of
        None \<Rightarrow> (Inr (), s)
      | Some r \<Rightarrow>
          if rr_status r \<noteq> Running then (Inr (), s)
          else case er_suspension res of
            Some kind \<Rightarrow> suspend H now rid kind (er_interrupt res) s
          | None \<Rightarrow>
              seq_st (append_each H now rid ''tool.completed''
                 (if er_tool_results res then map (\<lambda>t. JObj [(''tool_name'', JStr t)]) (er_tools res) else []) s)
              (\<lambda>_ s.
               if er_finish res \<noteq> Some ''completed'' then
                 (case finish_failure (er_finish res) of (reason, code) \<Rightarrow>
                    close_run H now rid Failed reason ''run.failed'' (JObj [(''code'', JStr code)]) s)
               else
                 seq_st (publish_result H now rid res s) (\<lambda>_.
                   close_run H now rid Completed Reason_Completed ''run.completed''
                     (JObj [(''status'', JStr ''completed'')]))))"

section \<open>The exception handler of \<^verbatim>\<open>_execute\<close>\<close>

definition diagnostic_of :: "run_error \<Rightarrow> diagnostic option" where
  "diagnostic_of err = (case err of Engine_Fault d \<Rightarrow> Some d | _ \<Rightarrow> None)"

fun error_type_name :: "run_error \<Rightarrow> string" where
  "error_type_name (Store_Fault RunNotFound) = ''LookupError''"
| "error_type_name (Store_Fault IntegrityError) = ''IntegrityError''"
| "error_type_name (Store_Fault EventInvalid) = ''ValidationError''"
| "error_type_name (Store_Fault RunRequestConflict) = ''RunRequestConflictError''"
| "error_type_name (Store_Fault SkillSnapshotDrift) = ''RuntimeError''"
| "error_type_name Unknown_Suspension = ''RuntimeError''"
| "error_type_name Interrupt_Missing = ''RuntimeError''"
| "error_type_name (Engine_Fault d) = ''HarnessExecutionError''"
| "error_type_name (Other_Fault n) = n"

definition recovery_required :: "run_error \<Rightarrow> bool" where
  "recovery_required err =
     (case diagnostic_of err of
        None \<Rightarrow> False
      | Some d \<Rightarrow> dg_phase d = ''result_projection'' \<and>
                  dg_reason d = Some ''max_output_tokens_without_public_response'')"

definition failure_payload :: "run_error \<Rightarrow> json" where
  "failure_payload err =
     (case diagnostic_of err of
        None \<Rightarrow> JObj [(''code'', JStr ''engine_execution_failed''),
                      (''exception_type'', JStr (error_type_name err)),
                      (''failure_phase'', JStr ''sidecar_execution''),
                      (''failure_reason'', JNull), (''timeout_phase'', JNull)]
      | Some d \<Rightarrow> JObj ([(''code'', JStr ''engine_execution_failed''),
                         (''exception_type'', JStr (dg_exception_type d)),
                         (''failure_phase'', JStr (dg_phase d)),
                         (''failure_reason'', opt_text (dg_reason d)),
                         (''timeout_phase'', opt_text (dg_timeout d))] @
           concat (map (\<lambda>(k, v). case v of None \<Rightarrow> [] | Some t \<Rightarrow> [(k, JStr t)])
             [(''failure_code'', dg_code d), (''failure_type'', dg_type d),
              (''failure_category'', dg_category d)])))"

definition handle_error ::
  "(string \<Rightarrow> string) \<Rightarrow> string \<Rightarrow> string \<Rightarrow> run_error \<Rightarrow> store \<Rightarrow> store" where
  "handle_error H now rid err s =
     (case get_run rid s of
        None \<Rightarrow> s
      | Some r \<Rightarrow>
          if terminal (rr_status r) then s
          else if recovery_required err
          then snd (close_run H now rid Failed Max_Output_Tokens ''run.failed'' recovery_payload s)
          else snd (close_run H now rid Failed Engine_Error ''run.failed'' (failure_payload err) s))"

definition run_piece ::
  "(string \<Rightarrow> string) \<Rightarrow> string \<Rightarrow> string \<Rightarrow> (run_error + 'a) \<times> store \<Rightarrow> store" where
  "run_piece H now rid p = (case p of (Inr _, s) \<Rightarrow> s | (Inl e, s) \<Rightarrow> handle_error H now rid e s)"

section \<open>The process\<close>

datatype task_state = Scheduled | In_Engine | Ended

record task =
  tk_state :: task_state
  tk_cancel :: bool

record service =
  sv_store :: store
  sv_tasks :: "(string, task) dict"
  sv_pending :: "(string, run_request \<times> skill_catalog) dict"
  sv_threads :: "string list"

datatype svc_error = Request_Invalid | Skill_Fault skill_error | Svc_Store store_error | Activation_Missing

definition create_run ::
  "(string \<Rightarrow> string) \<Rightarrow> string \<Rightarrow> bool \<Rightarrow> skill_error + skill_catalog \<Rightarrow> string \<Rightarrow> string
     \<Rightarrow> run_request \<Rightarrow> service \<Rightarrow> (svc_error + run_row) \<times> service" where
  "create_run H now valid snap eid ever rq sv =
     (if \<not> valid then (Inl Request_Invalid, sv)
      else case get_by_request rq (sv_store sv) of
        Inl e \<Rightarrow> (Inl (Svc_Store e), sv)
      | Inr (Some r) \<Rightarrow> (Inr r, sv)
      | Inr None \<Rightarrow>
          (case snap of
             Inl e \<Rightarrow> (Inl (Skill_Fault e), sv)
           | Inr c \<Rightarrow>
               (case create_or_get H now rq eid ever c (sv_store sv) of
                  (Inl e, st) \<Rightarrow> (Inl (Svc_Store e), sv\<lparr>sv_store := st\<rparr>)
                | (Inr (r, created), st) \<Rightarrow>
                    (Inr r, sv\<lparr>sv_store := st,
                       sv_pending := (if created then AList.update (rr_id r) (rq, c) (sv_pending sv)
                                      else sv_pending sv)\<rparr>))))"

definition activate_run :: "string \<Rightarrow> service \<Rightarrow> (svc_error + run_row option) \<times> service" where
  "activate_run rid sv =
     (case get_run rid (sv_store sv) of
        None \<Rightarrow> (Inr None, sv)
      | Some r \<Rightarrow>
          if rr_status r \<noteq> Accepted \<or> map_of (sv_tasks sv) rid \<noteq> None then (Inr (Some r), sv)
          else if map_of (sv_pending sv) rid = None then (Inl Activation_Missing, sv)
          else (Inr (Some r),
                sv\<lparr>sv_tasks := AList.update rid \<lparr>tk_state = Scheduled, tk_cancel = False\<rparr> (sv_tasks sv)\<rparr>))"

definition cancel_run ::
  "(string \<Rightarrow> string) \<Rightarrow> string \<Rightarrow> string \<Rightarrow> service \<Rightarrow> (svc_error + run_row option) \<times> service" where
  "cancel_run H now rid sv =
     (case cancel H now rid (sv_store sv) of
        (Inl e, st) \<Rightarrow> (Inl (Svc_Store e), sv\<lparr>sv_store := st\<rparr>)
      | (Inr None, st) \<Rightarrow> (Inr None, sv\<lparr>sv_store := st\<rparr>)
      | (Inr (Some r), st) \<Rightarrow>
          (Inr (Some r),
           sv\<lparr>sv_store := st, sv_pending := AList.delete rid (sv_pending sv),
              sv_tasks := (case map_of (sv_tasks sv) rid of
                 None \<Rightarrow> sv_tasks sv
               | Some t \<Rightarrow> if tk_state t = Ended then sv_tasks sv
                           else AList.update rid (t\<lparr>tk_cancel := True\<rparr>) (sv_tasks sv))\<rparr>))"

text \<open>The \<^verbatim>\<open>finally\<close> block: both dictionaries forget the run.\<close>

definition forget :: "string \<Rightarrow> service \<Rightarrow> service" where
  "forget rid sv = sv\<lparr>sv_tasks := AList.delete rid (sv_tasks sv), sv_pending := AList.delete rid (sv_pending sv)\<rparr>"

text \<open>
  The first half of \<^verbatim>\<open>_execute\<close>. The text of the first summary is the fixed
  progress line of the source, in its UTF-8 bytes ("analysing your request and checking the
  workspace").
\<close>

definition first_summary :: json where
  "first_summary = delta_payload
    [CHR 0xE6, CHR 0xAD, CHR 0xA3, CHR 0xE5, CHR 0x9C, CHR 0xA8, CHR 0xE5, CHR 0x88, CHR 0x86,
     CHR 0xE6, CHR 0x9E, CHR 0x90, CHR 0xE4, CHR 0xBD, CHR 0xA0, CHR 0xE7, CHR 0x9A, CHR 0x84,
     CHR 0xE8, CHR 0xAF, CHR 0xB7, CHR 0xE6, CHR 0xB1, CHR 0x82, CHR 0xE5, CHR 0xB9, CHR 0xB6,
     CHR 0xE6, CHR 0xA0, CHR 0xB8, CHR 0xE5, CHR 0xAF, CHR 0xB9, CHR 0xE5, CHR 0xB7, CHR 0xA5,
     CHR 0xE4, CHR 0xBD, CHR 0x9C, CHR 0xE5, CHR 0x8C, CHR 0xBA, CHR 0xE3, CHR 0x80, CHR 0x82]"

definition start_piece ::
  "(string \<Rightarrow> string) \<Rightarrow> string \<Rightarrow> string \<Rightarrow> store \<Rightarrow> (run_error + bool) \<times> store" where
  "start_piece H now rid s =
     seq_st (map_err Store_Fault (start_if_accepted H now rid s)) (\<lambda>started s1.
       case started of
         None \<Rightarrow> (Inr False, s1)
       | Some r \<Rightarrow>
           if rr_status r \<noteq> Running then (Inr False, s1)
           else lift_result (\<lambda>_. True)
                  (map_err Store_Fault (append_event H now rid ''public_summary.delta'' first_summary s1)))"

definition task_start :: "(string \<Rightarrow> string) \<Rightarrow> string \<Rightarrow> string \<Rightarrow> service \<Rightarrow> service" where
  "task_start H now rid sv =
     (case start_piece H now rid (sv_store sv) of
        (Inr True, s) \<Rightarrow> sv\<lparr>sv_store := s,
            sv_tasks := AList.update rid \<lparr>tk_state = In_Engine, tk_cancel = False\<rparr> (sv_tasks sv),
            sv_threads := rid # sv_threads sv\<rparr>
      | p \<Rightarrow> forget rid (sv\<lparr>sv_store := run_piece H now rid p\<rparr>))"

definition public_event_type :: "string \<Rightarrow> bool" where
  "public_event_type ty \<longleftrightarrow> ty \<in> {''response.delta'', ''public_summary.delta''}"

inductive svc_step :: "(string \<Rightarrow> string) \<Rightarrow> service \<Rightarrow> service \<Rightarrow> bool" for H where
  create: "svc_step H sv (snd (create_run H now valid snap eid ever rq sv))"
| activate: "svc_step H sv (snd (activate_run rid sv))"
| cancel_req: "svc_step H sv (snd (cancel_run H now rid sv))"
| task_begin: "map_of (sv_tasks sv) rid = Some \<lparr>tk_state = Scheduled, tk_cancel = False\<rparr> \<Longrightarrow>
    svc_step H sv (task_start H now rid sv)"
| task_drop: "map_of (sv_tasks sv) rid = Some \<lparr>tk_state = Scheduled, tk_cancel = True\<rparr> \<Longrightarrow>
    svc_step H sv (sv\<lparr>sv_tasks := AList.update rid \<lparr>tk_state = Ended, tk_cancel = True\<rparr> (sv_tasks sv)\<rparr>)"
| publish: "rid \<in> set (sv_threads sv) \<Longrightarrow> public_event_type ty \<Longrightarrow>
    svc_step H sv (sv\<lparr>sv_store := snd (append_event H now rid ty p (sv_store sv))\<rparr>)"
| engine_return: "map_of (sv_tasks sv) rid = Some \<lparr>tk_state = In_Engine, tk_cancel = False\<rparr> \<Longrightarrow>
    svc_step H sv (forget rid (sv\<lparr>sv_store := run_piece H now rid (finish_run H now rid res (sv_store sv)),
                                  sv_threads := removeAll rid (sv_threads sv)\<rparr>))"
| engine_raise: "map_of (sv_tasks sv) rid = Some \<lparr>tk_state = In_Engine, tk_cancel = False\<rparr> \<Longrightarrow>
    svc_step H sv (forget rid (sv\<lparr>sv_store := handle_error H now rid err (sv_store sv),
                                  sv_threads := removeAll rid (sv_threads sv)\<rparr>))"
| cancel_delivered: "map_of (sv_tasks sv) rid = Some \<lparr>tk_state = In_Engine, tk_cancel = True\<rparr> \<Longrightarrow>
    svc_step H sv (forget rid (sv\<lparr>sv_store := snd (cancel H now rid (sv_store sv))\<rparr>))"
| thread_exit: "svc_step H sv (sv\<lparr>sv_threads := removeAll rid (sv_threads sv)\<rparr>)"
| restart: "svc_step H sv (sv\<lparr>sv_store := snd (fail_unfinished_after_restart H now (sv_store sv)),
                              sv_tasks := [], sv_pending := [], sv_threads := []\<rparr>)"

definition init_service :: service where
  "init_service = \<lparr>sv_store = empty_store, sv_tasks = [], sv_pending = [], sv_threads = []\<rparr>"

inductive svc_reachable :: "(string \<Rightarrow> string) \<Rightarrow> service \<Rightarrow> bool" for H where
  start: "svc_reachable H init_service"
| step: "svc_reachable H sv \<Longrightarrow> svc_step H sv sv' \<Longrightarrow> svc_reachable H sv'"

section \<open>The log of a run: started once, closed once\<close>

definition closing :: "string \<Rightarrow> bool" where
  "closing ty \<longleftrightarrow> ty \<in> {''run.completed'', ''run.failed'', ''run.cancelled''}"

definition log_count :: "(string \<Rightarrow> bool) \<Rightarrow> string \<Rightarrow> store \<Rightarrow> nat" where
  "log_count P rid s = length (filter (\<lambda>e. P (ev_type e)) (events_of rid s))"

definition run_log_ok :: "store \<Rightarrow> bool" where
  "run_log_ok s \<longleftrightarrow> (\<forall>rid.
     log_count closing rid s \<le> 1 \<and> log_count (\<lambda>t. t = ''run.started'') rid s \<le> 1 \<and>
     (log_count closing rid s > 0 \<longrightarrow> (\<exists>r. run_by_id s rid = Some r \<and> terminal (rr_status r))) \<and>
     (log_count (\<lambda>t. t = ''run.started'') rid s > 0 \<longrightarrow>
        (\<exists>r. run_by_id s rid = Some r \<and> rr_status r \<noteq> Accepted)))"

text \<open>A good step keeps the tables and the logs in order and never touches a closed run.\<close>

definition runs_final :: "store \<Rightarrow> store \<Rightarrow> bool" where
  "runs_final s t \<longleftrightarrow> (\<forall>rid r. run_by_id s rid = Some r \<and> terminal (rr_status r) \<longrightarrow> run_by_id t rid = Some r)"

definition run_inv :: "(string \<Rightarrow> string) \<Rightarrow> store \<Rightarrow> bool" where
  "run_inv H s \<longleftrightarrow> store_inv H s \<and> run_log_ok s"

definition good_step :: "(string \<Rightarrow> string) \<Rightarrow> store \<Rightarrow> store \<Rightarrow> bool" where
  "good_step H s t \<longleftrightarrow> (run_inv H s \<longrightarrow> run_inv H t \<and> store_le s t \<and> runs_final s t)"

lemma good_step_refl [intro, simp]: "good_step H s s"
  by (simp add: good_step_def store_le_refl runs_final_def)

lemma good_step_trans: "good_step H s t \<Longrightarrow> good_step H t u \<Longrightarrow> good_step H s u"
  unfolding good_step_def runs_final_def by (blast intro: store_le_trans)

lemma good_stepI:
  assumes "store_step H s t" and "run_inv H s \<Longrightarrow> run_log_ok t" and "runs_final s t"
  shows "good_step H s t"
  using assms by (auto simp: good_step_def run_inv_def store_step_def)

lemma good_seq:
  assumes "good_step H s (snd p)" and "\<And>a t. p = (Inr a, t) \<Longrightarrow> good_step H t (snd (k a t))"
  shows "good_step H s (snd (seq_st p k))"
proof (cases p)
  case (Pair q t)
  show ?thesis
  proof (cases q)
    case (Inl e)
    then show ?thesis using assms(1) by (simp add: Pair)
  next
    case (Inr a)
    have "good_step H t (snd (k a t))" by (rule assms(2)) (simp add: Pair Inr)
    moreover have "good_step H s t" using assms(1) by (simp add: Pair)
    ultimately have "good_step H s (snd (k a t))" by (rule good_step_trans [rotated])
    then show ?thesis by (simp add: Pair Inr)
  qed
qed

subsection \<open>Rows and logs after the elementary writes\<close>

lemma find_map_update:
  "(\<And>r. rr_id (f r) = rr_id r) \<Longrightarrow>
   List.find (\<lambda>r. rr_id r = x) (map (\<lambda>r. if rr_id r = rid then f r else r) rs) =
   map_option (\<lambda>r. if rr_id r = rid then f r else r) (List.find (\<lambda>r. rr_id r = x) rs)"
  by (induction rs) auto

lemma run_by_id_id: "run_by_id s rid = Some r \<Longrightarrow> rr_id r = rid"
  by (auto simp: run_by_id_def dest: find_Some_in)

lemma run_by_id_update:
  assumes "\<And>r. rr_id (f r) = rr_id r"
  shows "run_by_id (update_run rid f s) x = (if x = rid then map_option f (run_by_id s x) else run_by_id s x)"
proof -
  have u: "run_by_id (update_run rid f s) x =
      map_option (\<lambda>r. if rr_id r = rid then f r else r) (run_by_id s x)"
    unfolding run_by_id_def update_run_def by (simp add: find_map_update [OF assms])
  show ?thesis
  proof (cases "run_by_id s x")
    case (Some r)
    with run_by_id_id [OF this] show ?thesis unfolding u by auto
  qed (auto simp: u)
qed

lemma set_clause_ids [simp]:
  "rr_id (to_status now st reason r) = rr_id r" "rr_id (to_running r) = rr_id r"
  "rr_id (to_cancelled now r) = rr_id r" "rr_id (to_failed now r) = rr_id r"
  by (simp_all add: set_clause_defs)

lemmas run_by_id_set [simp] = run_by_id_update [OF set_clause_ids(1)] run_by_id_update [OF set_clause_ids(2)]
  run_by_id_update [OF set_clause_ids(3)] run_by_id_update [OF set_clause_ids(4)]

lemma set_clause_status [simp]:
  "rr_status (to_status now st reason r) = st"
  "rr_status (to_cancelled now r) = Cancelled" "rr_status (to_failed now r) = Failed"
  "rr_status r = Accepted \<Longrightarrow> rr_status (to_running r) = Running"
  by (simp_all add: set_clause_defs)

lemma log_count_update [simp]: "log_count P rid (update_run x f s) = log_count P rid s"
  by (simp add: log_count_def)

lemma log_count_append:
  "log_count P r (snd (append_locked H now rid ty p s)) \<le>
     log_count P r s + (if r = rid \<and> P ty then 1 else 0)"
  by (auto simp: append_locked_snd log_count_def events_of_def)

lemma log_count_append_other:
  "\<not> (r = rid \<and> P ty) \<Longrightarrow> log_count P r (snd (append_locked H now rid ty p s)) = log_count P r s"
  by (auto simp: append_locked_snd log_count_def events_of_def)

subsection \<open>Elementary good steps\<close>

lemma run_log_ok_append:
  assumes "run_log_ok s" and "\<not> closing ty" and "ty \<noteq> ''run.started''"
  shows "run_log_ok (snd (append_locked H now rid ty p s))"
  using assms unfolding run_log_ok_def by (simp add: log_count_append_other)

lemma good_append:
  "\<not> closing ty \<Longrightarrow> ty \<noteq> ''run.started'' \<Longrightarrow> good_step H s (snd (append_locked H now rid ty p s))"
  by (rule good_stepI) (simp_all add: append_locked_step run_log_ok_append run_inv_def runs_final_def)

lemma open_run_counts:
  assumes "run_log_ok s" and "run_by_id s rid = Some r" and "\<not> terminal (rr_status r)"
  shows "log_count closing rid s = 0"
proof (rule ccontr)
  assume "log_count closing rid s \<noteq> 0"
  then have "log_count closing rid s > 0" by simp
  with assms(1) obtain r' where "run_by_id s rid = Some r'" "terminal (rr_status r')"
    unfolding run_log_ok_def by blast
  with assms(2,3) show False by simp
qed

lemma accepted_run_counts:
  assumes "run_log_ok s" and "run_by_id s rid = Some r" and "rr_status r = Accepted"
  shows "log_count (\<lambda>t. t = ''run.started'') rid s = 0"
proof (rule ccontr)
  assume "log_count (\<lambda>t. t = ''run.started'') rid s \<noteq> 0"
  then have "log_count (\<lambda>t. t = ''run.started'') rid s > 0" by simp
  with assms(1) obtain r' where "run_by_id s rid = Some r'" "rr_status r' \<noteq> Accepted"
    unfolding run_log_ok_def by blast
  with assms(2,3) show False by simp
qed

text \<open>
  Closing: the row moves to a terminal status and one closing event follows. The event may be
  missing (the insert can fail), never doubled.
\<close>

lemma run_log_ok_close:
  assumes log: "run_log_ok s" and r: "run_by_id s rid = Some r" and op: "\<not> terminal (rr_status r)"
    and f: "\<And>x. rr_id (f x) = rr_id x" "terminal (rr_status (f r))" and ty: "closing ty"
  shows "run_log_ok (snd (append_locked H now rid ty p (update_run rid f s)))"
    (is "run_log_ok ?t")
proof -
  have zero: "log_count closing rid s = 0" by (rule open_run_counts [OF log r op])
  have ns: "ty \<noteq> ''run.started''" using ty by (auto simp: closing_def)
  have st: "log_count (\<lambda>t. t = ''run.started'') x ?t = log_count (\<lambda>t. t = ''run.started'') x s" for x
    using ns by (simp add: log_count_append_other)
  have cl: "log_count closing x ?t \<le> (if x = rid then 1 else log_count closing x s)" for x
    using log_count_append [of closing x H now rid ty p "update_run rid f s"] zero ty by auto
  have row: "run_by_id (update_run rid f s) x = (if x = rid then Some (f r) else run_by_id s x)" for x
    using r by (simp add: run_by_id_update [OF f(1)])
  have na: "rr_status (f r) \<noteq> Accepted" using f(2) by (auto simp: terminal_def)
  have ok: "log_count closing x s \<le> 1" "log_count (\<lambda>t. t = ''run.started'') x s \<le> 1"
    "log_count closing x s > 0 \<Longrightarrow> \<exists>r. run_by_id s x = Some r \<and> terminal (rr_status r)"
    "log_count (\<lambda>t. t = ''run.started'') x s > 0 \<Longrightarrow> \<exists>r. run_by_id s x = Some r \<and> rr_status r \<noteq> Accepted" for x
    using log unfolding run_log_ok_def by blast+
  show ?thesis
    unfolding run_log_ok_def
  proof (intro allI conjI impI)
    fix x
    show "log_count closing x ?t \<le> 1" using cl [of x] ok(1) [of x] by (auto split: if_splits)
    show "log_count (\<lambda>t. t = ''run.started'') x ?t \<le> 1" using st ok(2) by simp
    show "\<exists>r. run_by_id ?t x = Some r \<and> terminal (rr_status r)" if "0 < log_count closing x ?t"
      using that cl [of x] ok(3) [of x] f(2) by (auto simp: row split: if_splits)
    show "\<exists>r. run_by_id ?t x = Some r \<and> rr_status r \<noteq> Accepted" if "0 < log_count (\<lambda>t. t = ''run.started'') x ?t"
      using that st [of x] ok(4) [of x] na by (auto simp: row)
  qed
qed

lemma good_close:
  assumes r: "run_by_id s rid = Some r" "\<not> terminal (rr_status r)"
    and f: "\<And>x. run_identity (f x) = run_identity x" "\<And>x. row_ok H x \<Longrightarrow> row_ok H (f x)" "terminal (rr_status (f r))"
    and ty: "closing ty"
  shows "good_step H s (snd (append_locked H now rid ty p (update_run rid f s)))"
proof (rule good_stepI)
  have id: "rr_id (f x) = rr_id x" for x using f(1) [of x] by (simp add: run_identity_def)
  show "store_step H s (snd (append_locked H now rid ty p (update_run rid f s)))"
    by (rule store_step_trans [OF update_run_step append_locked_step]) (use f in auto)
  show "run_log_ok (snd (append_locked H now rid ty p (update_run rid f s)))" if "run_inv H s"
    by (rule run_log_ok_close [OF _ r id f(3) ty]) (use that in \<open>simp add: run_inv_def\<close>)
  show "runs_final s (snd (append_locked H now rid ty p (update_run rid f s)))"
    using r by (auto simp: runs_final_def run_by_id_update [OF id])
qed

text \<open>A status change that closes nothing.\<close>

lemma good_set:
  assumes r: "run_by_id s rid = Some r" "\<not> terminal (rr_status r)"
    and f: "\<And>x. run_identity (f x) = run_identity x" "\<And>x. row_ok H x \<Longrightarrow> row_ok H (f x)" "rr_status (f r) \<noteq> Accepted"
  shows "good_step H s (update_run rid f s)"
proof (rule good_stepI)
  have id: "rr_id (f x) = rr_id x" for x using f(1) [of x] by (simp add: run_identity_def)
  show "store_step H s (update_run rid f s)" by (rule update_run_step) (use f in auto)
  show "runs_final s (update_run rid f s)"
    using r by (auto simp: runs_final_def run_by_id_update [OF id])
  assume "run_inv H s"
  then have log: "run_log_ok s" by (simp add: run_inv_def)
  have zero: "log_count closing rid s = 0" by (rule open_run_counts [OF log r])
  show "run_log_ok (update_run rid f s)"
    unfolding run_log_ok_def
  proof (intro allI)
    fix x
    from log have "log_count closing x s \<le> 1 \<and> log_count (\<lambda>t. t = ''run.started'') x s \<le> 1 \<and>
     (log_count closing x s > 0 \<longrightarrow> (\<exists>r. run_by_id s x = Some r \<and> terminal (rr_status r))) \<and>
     (log_count (\<lambda>t. t = ''run.started'') x s > 0 \<longrightarrow>
        (\<exists>r. run_by_id s x = Some r \<and> rr_status r \<noteq> Accepted))"
      unfolding run_log_ok_def by blast
    then show "log_count closing x (update_run rid f s) \<le> 1 \<and> log_count (\<lambda>t. t = ''run.started'') x (update_run rid f s) \<le> 1 \<and>
     (log_count closing x (update_run rid f s) > 0 \<longrightarrow> (\<exists>r. run_by_id (update_run rid f s) x = Some r \<and> terminal (rr_status r))) \<and>
     (log_count (\<lambda>t. t = ''run.started'') x (update_run rid f s) > 0 \<longrightarrow>
        (\<exists>r. run_by_id (update_run rid f s) x = Some r \<and> rr_status r \<noteq> Accepted))"
      using r f(3) zero by (auto simp: run_by_id_update [OF id])
  qed
qed

section \<open>Every piece of the service is a good step\<close>

lemma append_each_good:
  "\<not> closing ty \<Longrightarrow> ty \<noteq> ''run.started'' \<Longrightarrow> good_step H s (snd (append_each H now rid ty ps s))"
proof (induction ps arbitrary: s)
  case (Cons p ps)
  show ?case
    unfolding append_each.simps
  proof (rule good_seq)
    show "good_step H s (snd (map_err Store_Fault (append_event H now rid ty p s)))"
      by (simp add: append_event_def good_append Cons.prems)
    show "good_step H t (snd (append_each H now rid ty ps t))" for t
      by (rule Cons.IH [OF Cons.prems])
  qed
qed simp

lemma append_each_runs: "st_runs (snd (append_each H now rid ty ps s)) = st_runs s"
proof (induction ps arbitrary: s)
  case (Cons p ps)
  show ?case
    unfolding append_each.simps
    by (rule seq_st_cases) (auto simp: append_event_def map_err_def Cons.IH split: prod.splits sum.splits
          dest: append_locked_keeps)
qed simp

lemma run_by_id_cong: "st_runs s = st_runs t \<Longrightarrow> run_by_id s rid = run_by_id t rid"
  by (simp add: run_by_id_def)

lemma append_each_row: "append_each H now rid ty ps s = (q, t) \<Longrightarrow> run_by_id t x = run_by_id s x"
  using append_each_runs [of H now rid ty ps s] by (auto intro: run_by_id_cong)

lemma append_each_one: "snd (append_each H now rid ty [p] s) = snd (append_locked H now rid ty p s)"
  by (auto simp: append_event_def seq_st_def map_err_def split: prod.splits sum.splits)

lemma transition_found:
  "run_by_id s rid = Some r \<Longrightarrow>
   transition now rid st reason s = (Inr (to_status now st reason r), update_run rid (to_status now st reason) s)"
  by (simp add: transition_def Let_def)

lemma close_run_good:
  assumes "run_by_id s rid = Some r" and "\<not> terminal (rr_status r)" and "terminal st" and "closing ty"
  shows "good_step H s (snd (close_run H now rid st reason ty p s))"
proof -
  have "snd (close_run H now rid st reason ty p s) =
      snd (append_locked H now rid ty p (update_run rid (to_status now st (Some reason)) s))"
    by (simp only: close_run_def transition_found [OF assms(1)] map_err_def prod.case sum.case seq_st_simps
          append_each_one)
  then show ?thesis
    using good_close [OF assms(1,2), of "to_status now st (Some reason)" H ty now p] assms(3,4)
    by (simp add: set_clauses_row_ok)
qed

lemmas event_kinds [simp] = closing_def

lemma suspend_good:
  assumes "run_by_id s rid = Some r" and "\<not> terminal (rr_status r)"
  shows "good_step H s (snd (suspend H now rid kind i s))"
proof (cases "suspension_of kind")
  case None
  then show ?thesis by (simp add: suspend_def)
next
  case (Some p)
  obtain st reason where p: "p = (st, reason)" by (cases p)
  have st: "st \<noteq> Accepted" using Some p by (auto simp: suspension_of_def split: if_splits)
  have set: "good_step H s (update_run rid (to_status now st (Some reason)) s)"
    by (rule good_set [OF assms]) (use st in \<open>simp_all add: set_clauses_row_ok\<close>)
  show ?thesis
    unfolding suspend_def Some p option.case prod.case
  proof (rule good_seq, goal_cases)
    case 1
    show ?case by (simp only: snd_map_err transition_found [OF assms(1)] snd_conv set)
  next
    case (2 a t)
    show ?case by (auto simp del: append_each.simps intro: append_each_good split: option.split)
  qed
qed

lemma publish_result_good: "good_step H s (snd (publish_result H now rid res s))"
  unfolding publish_result_def
  by (intro good_seq append_each_good) simp_all

lemma publish_result_row:
  "publish_result H now rid res s = (Inr u, t) \<Longrightarrow> run_by_id t x = run_by_id s x"
  unfolding publish_result_def
  by (auto simp: seq_st_def split: prod.splits sum.splits dest!: append_each_row [where x = x] simp del: append_each.simps)

lemma finish_run_good: "good_step H s (snd (finish_run H now rid res s))"
proof (cases "get_run rid s")
  case None
  then show ?thesis by (simp add: finish_run_def)
next
  case (Some r)
  then have r: "run_by_id s rid = Some r" by (simp add: get_run_def)
  show ?thesis
  proof (cases "rr_status r = Running")
    case False
    then show ?thesis by (simp add: finish_run_def Some)
  next
    case True
    then have op: "\<not> terminal (rr_status r)" by (simp add: terminal_def)
    show ?thesis
    proof (cases "er_suspension res")
      case None
      let ?tools = "if er_tool_results res then map (\<lambda>t. JObj [(''tool_name'', JStr t)]) (er_tools res) else []"
      show ?thesis
        unfolding finish_run_def Some option.case None
      proof (simp only: True simp_thms if_False, rule good_seq, goal_cases)
        case 1
        show ?case by (rule append_each_good) simp_all
      next
        case (2 u t)
        then have rt: "run_by_id t rid = Some r" using r by (simp add: append_each_row del: append_each.simps)
        have failed: "good_step H t (snd (close_run H now rid Failed reason ''run.failed'' p t))" for reason p
          by (rule close_run_good [OF rt op]) (simp_all add: terminal_def)
        have pub: "good_step H t (snd (seq_st (publish_result H now rid res t) (\<lambda>_. close_run H now rid Completed
             Reason_Completed ''run.completed'' (JObj [(''status'', JStr ''completed'')]))))"
        proof (rule good_seq, goal_cases)
          case 1
          show ?case by (rule publish_result_good)
        next
          case (2 v t2)
          then have "run_by_id t2 rid = Some r" using rt by (simp add: publish_result_row)
          from close_run_good [OF this op] show ?case by (simp add: terminal_def)
        qed
        show ?case
          using failed pub by (simp split: prod.splits)
      qed
    next
      case (Some kind)
      then show ?thesis
        using suspend_good [OF r op] by (simp add: finish_run_def \<open>get_run rid s = Some r\<close> True)
    qed
  qed
qed

lemma handle_error_good: "good_step H s (handle_error H now rid err s)"
proof (cases "get_run rid s")
  case None
  then show ?thesis by (simp add: handle_error_def)
next
  case (Some r)
  then have "run_by_id s rid = Some r" by (simp add: get_run_def)
  from close_run_good [OF this] show ?thesis by (simp add: handle_error_def Some terminal_def)
qed

lemma run_piece_good: "good_step H s (snd p) \<Longrightarrow> good_step H s (run_piece H now rid p)"
  using good_step_trans [OF _ handle_error_good]
  by (auto simp: run_piece_def split: prod.split sum.split)

lemma run_log_ok_start:
  assumes log: "run_log_ok s" and r: "run_by_id s rid = Some r" and acc: "rr_status r = Accepted"
  shows "run_log_ok (snd (append_locked H now rid ''run.started'' p (update_run rid to_running s)))"
    (is "run_log_ok ?t")
proof -
  have op: "\<not> terminal (rr_status r)" using acc by (simp add: terminal_def)
  have zero: "log_count (\<lambda>t. t = ''run.started'') rid s = 0" "log_count closing rid s = 0"
    by (rule accepted_run_counts [OF log r acc]) (rule open_run_counts [OF log r op])
  have cl: "log_count closing x ?t = log_count closing x s" for x
    by (simp add: log_count_append_other)
  have st: "log_count (\<lambda>t. t = ''run.started'') x ?t \<le>
      (if x = rid then 1 else log_count (\<lambda>t. t = ''run.started'') x s)" for x
    using log_count_append [of "\<lambda>t. t = ''run.started''" x H now rid "''run.started''" p "update_run rid to_running s"]
      zero by auto
  have ok: "log_count closing x s \<le> 1" "log_count (\<lambda>t. t = ''run.started'') x s \<le> 1"
    "log_count closing x s > 0 \<Longrightarrow> \<exists>r. run_by_id s x = Some r \<and> terminal (rr_status r)"
    "log_count (\<lambda>t. t = ''run.started'') x s > 0 \<Longrightarrow> \<exists>r. run_by_id s x = Some r \<and> rr_status r \<noteq> Accepted" for x
    using log unfolding run_log_ok_def by blast+
  show ?thesis
    unfolding run_log_ok_def
  proof (intro allI conjI impI)
    fix x
    show "log_count closing x ?t \<le> 1" using cl [of x] ok(1) [of x] by simp
    show "log_count (\<lambda>t. t = ''run.started'') x ?t \<le> 1" using st [of x] ok(2) [of x] by (auto split: if_splits)
    show "\<exists>r. run_by_id ?t x = Some r \<and> terminal (rr_status r)" if "0 < log_count closing x ?t"
      using that cl [of x] ok(3) [of x] zero by auto
    show "\<exists>r. run_by_id ?t x = Some r \<and> rr_status r \<noteq> Accepted" if "0 < log_count (\<lambda>t. t = ''run.started'') x ?t"
      using that st [of x] ok(4) [of x] r acc by (auto split: if_splits)
  qed
qed

lemma start_good: "good_step H s (snd (start_if_accepted H now rid s))"
proof (cases "run_by_id s rid")
  case None
  then show ?thesis by (simp add: start_if_accepted_def)
next
  case (Some r)
  show ?thesis
  proof (cases "rr_status r = Accepted")
    case False
    with Some show ?thesis by (simp add: start_if_accepted_def)
  next
    case True
    let ?t = "snd (append_locked H now rid ''run.started'' (status_payload Running) (update_run rid to_running s))"
    have eq: "snd (start_if_accepted H now rid s) = ?t"
      using Some True by (auto simp: start_if_accepted_def Let_def split: prod.splits sum.splits)
    show ?thesis
    proof (rule good_stepI)
      show "run_inv H s \<Longrightarrow> run_log_ok (snd (start_if_accepted H now rid s))"
        unfolding eq by (rule run_log_ok_start [OF _ Some True]) (simp add: run_inv_def)
      show "runs_final s (snd (start_if_accepted H now rid s))"
        unfolding eq using Some True by (auto simp: runs_final_def terminal_def)
    qed (rule start_step)
  qed
qed

lemma start_piece_good: "good_step H s (snd (start_piece H now rid s))"
  unfolding start_piece_def
proof (rule good_seq)
  show "good_step H s (snd (map_err Store_Fault (start_if_accepted H now rid s)))"
    by (simp add: start_good)
qed (auto simp: append_event_def good_append split: option.split)

lemma cancel_good: "good_step H s (snd (cancel H now rid s))"
proof (cases "run_by_id s rid")
  case None
  then show ?thesis by (simp add: cancel_def)
next
  case (Some r)
  show ?thesis
  proof (cases "terminal (rr_status r)")
    case True
    with Some show ?thesis by (simp add: cancel_def)
  next
    case False
    have "snd (cancel H now rid s) =
        snd (append_locked H now rid ''run.cancelled'' (status_payload Cancelled) (update_run rid (to_cancelled now) s))"
      using Some False by (auto simp: cancel_def Let_def split: prod.splits sum.splits)
    then show ?thesis
      using good_close [OF Some False, of "to_cancelled now" H "''run.cancelled''"]
      by (simp add: set_clauses_row_ok terminal_def)
  qed
qed

lemma fail_each_good:
  "(\<And>rid. rid \<in> set rids \<Longrightarrow> \<exists>r. run_by_id s rid = Some r \<and> \<not> terminal (rr_status r)) \<Longrightarrow> distinct rids \<Longrightarrow>
   good_step H s (snd (fail_each H now rids s))"
proof (induction H now rids s rule: fail_each.induct)
  case (2 H now rid rids s)
  let ?u = "update_run rid (to_failed now) s"
  let ?p = "append_locked H now rid ''run.failed'' recovery_payload ?u"
  obtain r where r: "run_by_id s rid = Some r" "\<not> terminal (rr_status r)" using "2.prems"(1) by auto
  have g: "good_step H s (snd ?p)"
    using good_close [OF r, of "to_failed now" H "''run.failed''"] by (simp add: set_clauses_row_ok terminal_def)
  show ?case
  proof (cases "fst ?p")
    case (Inl e)
    with g show ?thesis by (auto simp: Let_def split: prod.splits)
  next
    case (Inr x)
    then obtain t where t: "?p = (Inr x, t)" by (metis prod.collapse)
    have rows: "run_by_id t y = run_by_id ?u y" for y
      using append_locked_frames(3) [of H now rid "''run.failed''" recovery_payload ?u y] t by simp
    have "good_step H t (snd (fail_each H now rids t))"
      by (rule "2.IH" [OF refl t [symmetric] refl]) (use "2.prems" in \<open>auto simp: rows\<close>)
    with g t show ?thesis by (simp add: good_step_trans Let_def)
  qed
qed simp

lemma recover_good: "good_step H s (snd (fail_unfinished_after_restart H now s))"
proof (cases "store_inv H s")
  case True
  then have runs: "runs_ok H s" by (simp add: store_inv_def)
  have "\<exists>r. run_by_id s rid = Some r \<and> \<not> terminal (rr_status r)" if "rid \<in> set (unfinished_ids s)" for rid
    using that runs find_unique [of rr_id "st_runs s"]
    by (auto simp: set_unfinished_ids run_by_id_def runs_ok_def)
  from fail_each_good [OF this distinct_unfinished_ids [OF runs]]
  have "good_step H s (snd (fail_each H now (unfinished_ids s) s))" by blast
  then show ?thesis
    by (auto simp: fail_unfinished_after_restart_def Let_def split: prod.splits sum.splits)
next
  case False
  then show ?thesis by (simp add: good_step_def run_inv_def)
qed

lemma find_append_other:
  "\<not> P r \<Longrightarrow> List.find P (rs @ [r]) = List.find P rs"
  by (induction rs) auto

lemma run_log_ok_new:
  assumes log: "run_log_ok s" and fresh: "run_by_id s rid = None"
    and ev: "\<And>P x. log_count P x t = log_count P x s"
    and row: "\<And>x. x \<noteq> rid \<Longrightarrow> run_by_id t x = run_by_id s x"
  shows "run_log_ok t"
  unfolding run_log_ok_def ev
proof (rule allI)
  fix x
  note at = spec [OF log [unfolded run_log_ok_def], of x]
  show "log_count closing x s \<le> 1 \<and> log_count (\<lambda>t. t = ''run.started'') x s \<le> 1 \<and>
     (log_count closing x s > 0 \<longrightarrow> (\<exists>r. run_by_id t x = Some r \<and> terminal (rr_status r))) \<and>
     (log_count (\<lambda>t. t = ''run.started'') x s > 0 \<longrightarrow> (\<exists>r. run_by_id t x = Some r \<and> rr_status r \<noteq> Accepted))"
  proof (cases "x = rid")
    case True
    with at fresh show ?thesis by auto
  next
    case False
    show ?thesis using at unfolding row [OF False] .
  qed
qed

lemma create_good: "good_step H s (snd (create_or_get H now rq eid ever c s))"
proof (cases "run_by_key s (rq_key rq)")
  case (Some r)
  then show ?thesis by (simp add: create_or_get_def)
next
  case None
  let ?r = "new_run H now rq eid ever c" and ?rid = "run_id_for H (rq_key rq)"
  let ?s0 = "s\<lparr>st_runs := st_runs s @ [?r]\<rparr>"
  show ?thesis
  proof (cases "list_ex (\<lambda>x. rr_id x = ?rid) (st_runs s)")
    case True
    with None show ?thesis by (simp add: create_or_get_def Let_def)
  next
    case False
    obtain res s1 where i: "insert_skills (skill_rows ?rid c) ?s0 = (res, s1)" by fastforce
    have s1: "st_runs s1 = st_runs ?s0" "st_events s1 = st_events s"
      using insert_skills_result [of "skill_rows ?rid c" ?rid ?s0 s1] i by (auto dest: skill_rows_run)
    have fresh: "run_by_id s ?rid = None"
      using False by (auto simp: run_by_id_def find_None_all list_ex_iff)
    have "good_step H s s1"
    proof (rule good_stepI)
      show "store_step H s s1" by (rule insert_new_run_step [OF None False i])
      have row: "run_by_id s1 x = run_by_id s x" if "x \<noteq> ?rid" for x
        using that by (simp add: run_by_id_def s1 find_append_other)
      show "run_inv H s \<Longrightarrow> run_log_ok s1"
        by (rule run_log_ok_new [OF _ fresh _ row]) (auto simp: run_inv_def log_count_def events_of_def s1)
      show "runs_final s s1"
        unfolding runs_final_def using row fresh by (metis option.distinct(1))
    qed
    moreover have "good_step H s1 (snd (append_locked H now ?rid ''run.accepted'' (status_payload Accepted) s1))"
      by (rule good_append) simp_all
    ultimately show ?thesis
      using None False
      by (auto simp: create_or_get_def Let_def i intro: good_step_trans split: prod.splits sum.splits)
  qed
qed

inductive_cases svc_stepE: "svc_step H sv sv'"

lemma forget_store [simp]: "sv_store (forget rid sv) = sv_store sv"
  by (simp add: forget_def)

lemma create_run_store:
  "sv_store (snd (create_run H now valid snap eid ever rq sv)) = sv_store sv \<or>
   (\<exists>c. sv_store (snd (create_run H now valid snap eid ever rq sv)) =
        snd (create_or_get H now rq eid ever c (sv_store sv)))"
  by (auto simp: create_run_def split: if_splits sum.splits option.splits prod.splits)
    (metis snd_conv)+

lemma svc_step_good: "svc_step H sv sv' \<Longrightarrow> good_step H (sv_store sv) (sv_store sv')"
proof (induction rule: svc_step.induct)
  case (create sv now valid snap eid ever rq)
  show ?case
    using create_run_store [of H now valid snap eid ever rq sv]
    by (elim disjE exE) (simp_all add: create_good)
next
  case (activate sv rid)
  then show ?case by (auto simp: activate_run_def split: option.split)
next
  case (cancel_req sv now rid)
  have "sv_store (snd (cancel_run H now rid sv)) = snd (cancel H now rid (sv_store sv))"
    by (simp add: cancel_run_def split: prod.splits sum.splits option.splits)
  then show ?case by (simp add: cancel_good)
next
  case (task_begin sv rid now)
  have "sv_store (task_start H now rid sv) = snd (start_piece H now rid (sv_store sv)) \<or>
        sv_store (task_start H now rid sv) = run_piece H now rid (start_piece H now rid (sv_store sv))"
    by (auto simp: task_start_def split: prod.splits sum.splits bool.splits)
  then show ?case using start_piece_good run_piece_good [OF start_piece_good] by metis
next
  case (publish rid sv ty now p)
  then show ?case by (auto simp: append_event_def public_event_type_def intro: good_append)
next
  case (engine_return sv rid now res)
  show ?case by (simp add: run_piece_good finish_run_good)
qed (simp_all add: handle_error_good cancel_good recover_good)

lemma empty_run_inv: "run_inv H empty_store"
  by (simp add: run_inv_def empty_store_inv) (simp add: run_log_ok_def log_count_def empty_store_def events_of_def)

lemma reachable_run_inv: "svc_reachable H sv \<Longrightarrow> run_inv H (sv_store sv)"
proof (induction rule: svc_reachable.induct)
  case start
  show ?case by (simp add: init_service_def empty_run_inv)
next
  case (step sv sv')
  then show ?case using svc_step_good [of H sv sv'] by (auto simp: good_step_def)
qed

lemma svc_steps_good: "(svc_step H)\<^sup>*\<^sup>* sv sv' \<Longrightarrow> good_step H (sv_store sv) (sv_store sv')"
  by (induction rule: rtranclp_induct) (auto intro: good_step_trans svc_step_good)

lemma reachable_steps: "svc_reachable H sv \<Longrightarrow> (svc_step H)\<^sup>*\<^sup>* sv sv' \<Longrightarrow> svc_reachable H sv'"
  by (rotate_tac, induction rule: rtranclp_induct) (auto intro: svc_reachable.step)

end
