(* ===== verification/Sidecar_Claims.thy ===== *)
theory Sidecar_Claims
  imports Sidecar_Runs
begin

text \<open>
  What the sidecar promises the Gateway, stated over whole sessions of its repository
  (\<open>run_all (store_exec H) empty_store cs\<close>) and over the reachable states of its
  service (\<open>svc_reachable\<close>).
\<close>

section \<open>Sessions of the repository\<close>

definition session :: "(string \<Rightarrow> string) \<Rightarrow> store_cmd list \<Rightarrow> store" where
  "session H cs = run_all (store_exec H) empty_store cs"

definition log_of :: "(string \<Rightarrow> string) \<Rightarrow> store_cmd list \<Rightarrow> string \<Rightarrow> event_row list" where
  "log_of H cs rid = events_of rid (session H cs)"

lemma session_store_inv: "store_inv H (session H cs)"
  unfolding session_def by (rule sidecar.session_inv) (rule empty_store_inv)

lemma session_extends: "store_le (session H cs) (session H (cs @ ds))"
  unfolding session_def by (rule sidecar.session_le_extend) (rule empty_store_inv)

text \<open>
  An SSE client: it polls after each batch of commands with the sequence of the last event it
  has seen as its cursor, and keeps what it received. A poll that raises brings nothing, and the
  client comes back with the same cursor.
\<close>

fun follow ::
  "(string \<Rightarrow> string) \<Rightarrow> string \<Rightarrow> store_cmd list list \<Rightarrow> store \<Rightarrow> event_row list \<Rightarrow> event_row list" where
  "follow H rid [] s got = got"
| "follow H rid (cs # css) s got =
     (let s' = run_all (store_exec H) s cs
      in follow H rid css s'
           (case events_after rid (if got = [] then 0 else ev_seq (last got)) s' of
              Inl _ \<Rightarrow> got
            | Inr es \<Rightarrow> got @ es))"

lemma prefix_seq:
  assumes "events_ok H s" and "prefix got (events_of rid s)"
  shows "(if got = [] then 0 else ev_seq (last got)) = length got"
proof (cases "got = []")
  case False
  from assms(2) obtain zs where zs: "events_of rid s = got @ zs" by (auto simp: prefix_def)
  have "map ev_seq (got @ zs) = [1..<Suc (length (got @ zs))]"
    using assms(1) unfolding zs [symmetric] by (simp add: events_ok_def del: upt_Suc)
  then have "map ev_seq got = take (length got) [1..<Suc (length (got @ zs))]"
    by (metis append_eq_conv_conj length_map map_append)
  then have n: "map ev_seq got = [1..<Suc (length got)]" by (simp add: take_upt del: upt_Suc)
  from False have "ev_seq (last got) = last (map ev_seq got)" by (simp add: last_map)
  with False show ?thesis unfolding n by (auto simp: Suc_le_eq)
qed simp

text \<open>
  What the client has after each poll: readable events, a prefix of the log; all of it when every
  event of the log is readable.
\<close>

definition followed :: "string \<Rightarrow> event_row list \<Rightarrow> store \<Rightarrow> bool" where
  "followed rid got s \<longleftrightarrow> prefix got (events_of rid s) \<and> readable rid got \<and>
     (readable rid (events_of rid s) \<longrightarrow> got = events_of rid s)"

lemma poll_follows:
  assumes "store_inv H s" and "prefix got (events_of rid s)" and "readable rid got"
  shows "followed rid (case events_after rid (if got = [] then 0 else ev_seq (last got)) s of
           Inl _ \<Rightarrow> got | Inr es \<Rightarrow> got @ es) s"
proof -
  have ok: "events_ok H s" using assms(1) by (simp add: store_inv_def)
  from assms(2) obtain zs where zs: "events_of rid s = got @ zs" by (auto simp: prefix_def)
  show ?thesis
    unfolding prefix_seq [OF ok assms(2)] events_after_drop [OF ok]
    using assms(3) by (simp add: zs followed_def)
qed

lemma follow_followed:
  assumes "store_inv H s" and "followed rid got s"
  shows "followed rid (follow H rid css s got) (run_all (store_exec H) s (concat css))"
  using assms
proof (induction css arbitrary: s got)
  case (Cons cs css)
  let ?t = "run_all (store_exec H) s cs"
  have inv: "store_inv H ?t" by (rule sidecar.session_inv [OF Cons.prems(1)])
  have "prefix (events_of rid s) (events_of rid ?t)"
    by (rule events_of_prefix) (rule sidecar.session_le [OF Cons.prems(1)])
  with Cons.prems(2) have "prefix got (events_of rid ?t)" "readable rid got"
    by (auto simp: followed_def intro: prefix_order.trans)
  from Cons.IH [OF inv poll_follows [OF inv this]] show ?case by (simp add: Let_def run_all_append)
qed simp

lemma id_shape:
  assumes "length p = 5"
  shows "length (derived_id sha256_hex p x) = 37 \<and> take 5 (derived_id sha256_hex p x) = p \<and>
         list_all is_hex (drop 5 (derived_id sha256_hex p x))"
  using assms derived_id_hex [of _ p x] by (auto simp: derived_id_length list_all_iff derived_id_def sha256_hex_length)

lemma run_id_shape:
  "length (run_id_for sha256_hex k) = 37" "take 5 (run_id_for sha256_hex k) = ''hrun_''"
  "list_all is_hex (drop 5 (run_id_for sha256_hex k))"
  using id_shape [of "''hrun_''" k] by (simp_all add: run_id_for_def)

lemma event_id_shape:
  "length (event_id_for sha256_hex r n) = 37" "take 5 (event_id_for sha256_hex r n) = ''hevt_''"
  "list_all is_hex (drop 5 (event_id_for sha256_hex r n))"
  using id_shape [of "''hevt_''"] by (simp_all add: event_id_for_def)

section \<open>The restart cannot fail while the new event identities are fresh\<close>

lemma run_id_dto_ok: "event_dto_ok (run_id_for H k) ''run.failed''"
proof -
  have "py_len (run_id_for H k) \<le> length (run_id_for H k)"
    by (simp add: py_len_def)
  also have "\<dots> \<le> 37" by (simp add: run_id_for_def derived_id_def)
  finally have "py_len (run_id_for H k) \<le> 200" by simp
  moreover have "starts_with ''hrun_'' (run_id_for H k)"
    by (simp add: run_id_for_def derived_id_prefix)
  moreover have "event_type_ok ''run.failed''" by code_simp
  ultimately show ?thesis by (simp add: event_dto_ok_def)
qed

definition next_event_id :: "(string \<Rightarrow> string) \<Rightarrow> store \<Rightarrow> string \<Rightarrow> string" where
  "next_event_id H s rid = event_id_for H rid (Suc (length (events_of rid s)))"

lemma fail_each_succeeds:
  "events_ok H s \<Longrightarrow> distinct rids \<Longrightarrow> (\<And>rid. rid \<in> set rids \<Longrightarrow> event_dto_ok rid ''run.failed'') \<Longrightarrow>
   distinct (map (next_event_id H s) rids) \<Longrightarrow>
   (\<And>rid e. rid \<in> set rids \<Longrightarrow> e \<in> set (st_events s) \<Longrightarrow> ev_id e \<noteq> next_event_id H s rid) \<Longrightarrow>
   \<exists>t. fail_each H now rids s = (Inr (), t)"
proof (induction rids arbitrary: s)
  case (Cons rid rids)
  let ?u = "update_run rid (to_failed now) s"
  let ?e = "new_event H now rid ''run.failed'' recovery_payload ?u"
  let ?t = "?u\<lparr>st_events := st_events s @ [?e]\<rparr>"
  have ok: "events_ok H ?u" using Cons.prems(1) events_ok_cong [of ?u s] by simp
  have id: "ev_id ?e = next_event_id H s rid"
    using max_sequence_length [OF Cons.prems(1)] by (simp add: next_event_id_def)
  have seq: "ev_seq e < ev_seq ?e" if "e \<in> set (st_events s)" "ev_run e = rid" for e
  proof -
    have "ev_seq e \<in> set (map ev_seq (events_of rid s))" using that by (simp add: events_of_def)
    also have "\<dots> = {1..<Suc (length (events_of rid s))}"
      using Cons.prems(1) unfolding events_ok_def by (metis set_upt)
    finally show ?thesis using max_sequence_length [OF Cons.prems(1)] by simp
  qed
  have "ev_id e \<noteq> ev_id ?e \<and> (ev_run e = rid \<longrightarrow> ev_seq e \<noteq> ev_seq ?e)" if "e \<in> set (st_events s)" for e
  proof
    show "ev_id e \<noteq> ev_id ?e" unfolding id by (rule Cons.prems(5)) (use that in simp_all)
    show "ev_run e = rid \<longrightarrow> ev_seq e \<noteq> ev_seq ?e" using seq [OF that] by (auto simp del: new_event_fields(2))
  qed
  then have nc: "\<not> event_conflict ?e ?u"
    unfolding event_conflict_def list_ex_iff by (simp del: new_event_fields(2,5))
  have app: "append_locked H now rid ''run.failed'' recovery_payload ?u = (Inr ?e, ?t)"
    using nc Cons.prems(3) by (simp add: append_locked_def Let_def)
  have same: "next_event_id H ?t x = next_event_id H s x" if "x \<noteq> rid" for x
    using that by (simp add: next_event_id_def events_of_def update_run_def)
  have "\<exists>t. fail_each H now rids ?t = (Inr (), t)"
  proof (rule Cons.IH)
    show "events_ok H ?t" using append_locked_events_ok [OF ok, of now rid "''run.failed''" recovery_payload] app by simp
    have m: "map (next_event_id H ?t) rids = map (next_event_id H s) rids"
      by (intro map_cong refl same) (use Cons.prems(2) in auto)
    show "distinct (map (next_event_id H ?t) rids)" unfolding m using Cons.prems(4) by simp
    show "ev_id e \<noteq> next_event_id H ?t x" if "x \<in> set rids" "e \<in> set (st_events ?t)" for x e
    proof -
      have x: "x \<noteq> rid" using that(1) Cons.prems(2) by auto
      have "next_event_id H s x \<noteq> next_event_id H s rid" using that(1) Cons.prems(4) by (metis distinct.simps(2) image_eqI list.set_map list.simps(9))
      then show ?thesis using that Cons.prems(5) [of x e] by (auto simp: same [OF x] id simp del: new_event_fields(5))
    qed
  qed (use Cons.prems in auto)
  then show ?case using app by (simp add: Let_def)
qed simp

section \<open>The properties\<close>

text \<open>
  C1. The public event log of a run is dense and replayable. After any session, whatever
  requests were made and however they failed, the events of every run are numbered 1, 2, 3, ...
  in the order they were appended; \<^verbatim>\<open>has_cursor\<close> accepts exactly the cursors inside the log;
  and \<^verbatim>\<open>events_after\<close> with cursor \<open>k\<close> returns exactly the events that follow the
  \<open>k\<close>-th one, in order, when each of them is a valid \<^verbatim>\<open>HarnessRunEvent\<close>, and raises
  otherwise.
\<close>

theorem event_log_dense:
  "map ev_seq (log_of H cs rid) = [1..<Suc (length (log_of H cs rid))] \<and>
   distinct (map ev_id (st_events (session H cs))) \<and>
   has_cursor rid k (session H cs) = (k \<le> length (log_of H cs rid)) \<and>
   events_after rid k (session H cs) =
     (if list_all (\<lambda>e. event_dto_ok rid (ev_type e)) (drop k (log_of H cs rid)) then Inr (drop k (log_of H cs rid))
      else Inl EventInvalid)"
proof -
  have ok: "events_ok H (session H cs)" using session_store_inv [of H cs] by (simp add: store_inv_def)
  then show ?thesis
    unfolding log_of_def
    by (simp add: events_after_drop readable_def has_cursor_def max_sequence_length del: upt_Suc)
      (simp add: events_ok_def del: upt_Suc)
qed

text \<open>
  C4. A client that reconnects as often as it likes loses nothing and sees nothing twice: polling
  after each batch of commands with the sequence of the last event it received, it ends with exactly
  the log of the run when every event of the log is a valid \<^verbatim>\<open>HarnessRunEvent\<close>. One
  invalid event makes every poll that would reach it raise, and the client then holds a proper prefix
  of the log, made of valid events.
\<close>

theorem resumed_stream_complete:
  "let log = log_of H (concat css) rid; got = follow H rid css empty_store []
   in if list_all (\<lambda>e. event_dto_ok rid (ev_type e)) log then got = log
      else strict_prefix got log \<and> list_all (\<lambda>e. event_dto_ok rid (ev_type e)) got"
proof -
  have "followed rid [] empty_store" by (simp add: followed_def empty_store_def events_of_def readable_def)
  from follow_followed [OF empty_store_inv this, of H css] show ?thesis
    by (auto simp: Let_def followed_def readable_def log_of_def session_def strict_prefix_def)
qed

text \<open>
  C5. Creating a run is idempotent for the life of the store. Once a request has been accepted,
  repeating it after any number of further commands returns the same run and changes nothing, and
  the same idempotency key with another request digest is refused without a change.
\<close>

theorem create_idempotent:
  assumes "create_or_get H now rq eid ever c (session H cs) = (Inr (r, b), s)"
  shows "\<exists>r'. run_identity r' = run_identity r \<and>
           (let t = run_all (store_exec H) s ds in
            create_or_get H now' rq eid' ever' c' t = (Inr (r', False), t) \<and>
            (\<forall>d. d \<noteq> rq_digest rq \<longrightarrow>
               create_or_get H now' (rq\<lparr>rq_digest := d\<rparr>) eid' ever' c' t = (Inl RunRequestConflict, t)))"
proof -
  let ?t = "run_all (store_exec H) s ds"
  have inv: "store_inv H s" by (rule create_inv_le(1) [OF session_store_inv assms])
  have inv': "store_inv H ?t" by (rule sidecar.session_inv [OF inv])
  have le: "store_le s ?t" by (rule sidecar.session_le [OF inv])
  from create_returns_stored [OF assms]
  have r: "r \<in> set (st_runs s)" "rr_key r = rq_key rq" "rr_digest r = rq_digest rq" by auto
  from stored_run_found [OF inv' le r(1)] r
  obtain r' where r': "run_by_key ?t (rq_key rq) = Some r'" "run_identity r' = run_identity r" by auto
  moreover have "rr_digest r' = rq_digest rq" using r'(2) r(3) by (simp add: run_identity_def)
  ultimately show ?thesis by (intro exI [of _ r']) (simp add: create_or_get_def)
qed

definition example_request :: run_request where
  "example_request = \<lparr>rq_key = ''key-1'', rq_digest = ''d1''\<rparr>"

definition example_catalog :: skill_catalog where
  "example_catalog = \<lparr>sc_digest = catalog_digest (\<lambda>s. s) [], sc_entries = []\<rparr>"

text \<open>
  An event whose type the contract refuses is stored all the same, and from then on the log of its
  run cannot be read from before it.
\<close>

lemma invalid_event_blocks_replay:
  "let cs = [Create ''t0'' example_request ''e'' ''1'' example_catalog,
             Append ''t1'' ''hrun_key-1'' ''Run.Started'' (JObj []), Start ''t2'' ''hrun_key-1'']
   in map ev_type (log_of (\<lambda>s. s) cs ''hrun_key-1'') = [''run.accepted'', ''Run.Started'', ''run.started''] \<and>
      events_after ''hrun_key-1'' 1 (session (\<lambda>s. s) cs) = Inl EventInvalid \<and>
      map_sum id (map ev_type) (events_after ''hrun_key-1'' 2 (session (\<lambda>s. s) cs)) = Inr [''run.started'']"
  by code_simp

lemma example_create:
  "create_or_get (\<lambda>s. s) ''t0'' example_request ''e'' ''1'' example_catalog (session (\<lambda>s. s) []) =
     (Inr (new_run (\<lambda>s. s) ''t0'' example_request ''e'' ''1'' example_catalog, True),
      snd (create_or_get (\<lambda>s. s) ''t0'' example_request ''e'' ''1'' example_catalog empty_store))"
  by (simp add: session_def, code_simp)

lemma create_idempotent_witness:
  "\<exists>r'. run_identity r' = run_identity (new_run (\<lambda>s. s) ''t0'' example_request ''e'' ''1'' example_catalog) \<and>
     (let t = run_all (store_exec (\<lambda>s. s)) (snd (create_or_get (\<lambda>s. s) ''t0'' example_request ''e'' ''1''
                example_catalog empty_store)) [Start ''t1'' ''hrun_key-1''] in
      create_or_get (\<lambda>s. s) ''t2'' example_request ''e'' ''1'' example_catalog t = (Inr (r', False), t) \<and>
      (\<forall>d. d \<noteq> rq_digest example_request \<longrightarrow>
         create_or_get (\<lambda>s. s) ''t2'' (example_request\<lparr>rq_digest := d\<rparr>) ''e'' ''1'' example_catalog t =
           (Inl RunRequestConflict, t)))"
  by (rule create_idempotent [OF example_create])

text \<open>
  C6. The skills a run was accepted with are the skills it is answered with, for ever. A snapshot
  taken by \<^verbatim>\<open>snapshot_skill_root\<close> and stored with a new run is read back
  unchanged by \<^verbatim>\<open>get_skill_snapshot\<close>, with its digest verified, after any further
  commands.
\<close>

theorem skill_snapshot_roundtrip:
  assumes "distinct (map sd_name dirs)" and "snapshot_skill_root H max_body root_ok dirs = Inr c"
    and "create_or_get H now rq eid ever c (session H cs) = (Inr (r, True), s)"
  shows "get_skill_snapshot H (rr_id r) (run_all (store_exec H) s ds) = Inr c"
proof (rule skill_snapshot_read_back [OF session_store_inv snapshot_catalog_ok [OF assms(2,1)] assms(3)])
  have inv: "store_inv H s" by (rule create_inv_le(1) [OF session_store_inv assms(3)])
  show "store_inv H (run_all (store_exec H) s ds)" by (rule sidecar.session_inv [OF inv])
  show "store_le s (run_all (store_exec H) s ds)" by (rule sidecar.session_le [OF inv])
qed

text \<open>
  C7. The identities the sidecar hands out have the form the Gateway validates: a run is
  \<^verbatim>\<open>hrun_\<close> and 32 characters of the digest of its request key, an event
  \<^verbatim>\<open>hevt_\<close> and 32 characters of the digest of its run and sequence; both are
  lower-case hexadecimal when the digest is \<open>sha256_hex\<close>.
\<close>

theorem identity_format:
  "list_all (\<lambda>r. length (rr_id r) = 37 \<and> take 5 (rr_id r) = ''hrun_'' \<and> list_all is_hex (drop 5 (rr_id r)))
     (st_runs (session sha256_hex cs)) \<and>
   list_all (\<lambda>e. length (ev_id e) = 37 \<and> take 5 (ev_id e) = ''hevt_'' \<and> list_all is_hex (drop 5 (ev_id e)))
     (st_events (session sha256_hex cs))"
proof -
  have "store_inv sha256_hex (session sha256_hex cs)" by (rule session_store_inv)
  then have "\<forall>r \<in> set (st_runs (session sha256_hex cs)). rr_id r = run_id_for sha256_hex (rr_key r)"
    and "\<forall>e \<in> set (st_events (session sha256_hex cs)). ev_id e = event_id_for sha256_hex (ev_run e) (ev_seq e)"
    by (auto simp: store_inv_def runs_ok_def row_ok_def events_ok_def)
  then show ?thesis by (simp add: list_all_iff [of _ "st_runs _"] list_all_iff [of _ "st_events _"] run_id_shape event_id_shape)
qed

definition example_dir :: skill_dir where
  "example_dir = \<lparr>sd_name = ''brief'', sd_symlink = False, sd_is_dir = True, sd_file_symlink = False,
     sd_file = Some (''---'' @ [CHR 0x0A] @ ''name: brief'' @ [CHR 0x0A] @ ''description: d'' @ [CHR 0x0A] @
                     ''---'' @ [CHR 0x0A] @ ''text''), sd_utf8 = True\<rparr>"

definition example_entry :: skill_entry where
  "example_entry = \<lparr>sk_name = ''brief'', sk_description = ''d'',
     sk_sha = ''sha256:'' @ the (sd_file example_dir), sk_body = the (sd_file example_dir)\<rparr>"

definition example_skills :: skill_catalog where
  "example_skills = \<lparr>sc_digest = catalog_digest (\<lambda>s. s) [example_entry], sc_entries = [(''brief'', example_entry)]\<rparr>"

lemma example_snapshot: "snapshot_skill_root (\<lambda>s. s) 100 True [example_dir] = Inr example_skills"
  by code_simp

lemma example_skill_create:
  "create_or_get (\<lambda>s. s) ''t0'' example_request ''e'' ''1'' example_skills (session (\<lambda>s. s) []) =
     (Inr (new_run (\<lambda>s. s) ''t0'' example_request ''e'' ''1'' example_skills, True),
      snd (create_or_get (\<lambda>s. s) ''t0'' example_request ''e'' ''1'' example_skills empty_store))"
  by (simp add: session_def, code_simp)

lemma skill_snapshot_roundtrip_witness:
  "get_skill_snapshot (\<lambda>s. s) (rr_id (new_run (\<lambda>s. s) ''t0'' example_request ''e'' ''1'' example_skills))
     (run_all (store_exec (\<lambda>s. s)) (snd (create_or_get (\<lambda>s. s) ''t0'' example_request ''e'' ''1''
        example_skills empty_store)) [Cancel ''t1'' ''hrun_key-1'']) = Inr example_skills"
  by (rule skill_snapshot_roundtrip [OF _ example_snapshot example_skill_create]) simp

text \<open>
  C2. A run is executed at most once and closed at most once. In every reachable state of the
  service, whatever the interleaving of requests, task pieces, SDK callbacks and restarts, the log
  of a run holds at most one \<^verbatim>\<open>run.started\<close> and at most one of \<^verbatim>\<open>run.completed\<close>,
  \<^verbatim>\<open>run.failed\<close> and \<^verbatim>\<open>run.cancelled\<close>; a closing event is only there when
  the stored row is terminal, a start event only when the row has left \<^verbatim>\<open>accepted\<close>.
\<close>

theorem run_started_and_closed_once:
  assumes "svc_reachable H sv"
  shows "log_count closing rid (sv_store sv) \<le> 1 \<and>
         log_count (\<lambda>t. t = ''run.started'') rid (sv_store sv) \<le> 1 \<and>
         (log_count closing rid (sv_store sv) > 0 \<longrightarrow>
            (\<exists>r. run_by_id (sv_store sv) rid = Some r \<and> terminal (rr_status r))) \<and>
         (log_count (\<lambda>t. t = ''run.started'') rid (sv_store sv) > 0 \<longrightarrow>
            (\<exists>r. run_by_id (sv_store sv) rid = Some r \<and> rr_status r \<noteq> Accepted))"
  using reachable_run_inv [OF assms] unfolding run_inv_def run_log_ok_def by blast

text \<open>
  C3. A closed run stays exactly as it was closed: no later step of the service, a late result of the
  engine, a second cancellation or a restart included, changes the row of a completed, failed or
  cancelled run, and the log only grows.
\<close>

theorem closed_run_is_final:
  assumes "svc_reachable H sv" and "(svc_step H)\<^sup>*\<^sup>* sv sv'"
    and "run_by_id (sv_store sv) rid = Some r" and "terminal (rr_status r)"
  shows "run_by_id (sv_store sv') rid = Some r \<and> prefix (events_of x (sv_store sv)) (events_of x (sv_store sv'))"
  using svc_steps_good [OF assms(2)] reachable_run_inv [OF assms(1)] assms(3,4)
  by (auto simp: good_step_def runs_final_def intro: events_of_prefix)

text \<open>
  A restart leaves no run open. After \<^verbatim>\<open>fail_unfinished_runs_after_restart\<close> every run
  that was accepted, running or suspended is failed and has exactly one more event,
  \<^verbatim>\<open>run.failed\<close> with the recovery code; closed runs and their logs are untouched. It cannot
  raise while the identities of the new events are fresh.
\<close>

lemma restart_closes_every_run:
  assumes "distinct (map (next_event_id H (session H cs)) (unfinished_ids (session H cs)))"
    and "\<forall>rid \<in> set (unfinished_ids (session H cs)). \<forall>e \<in> set (st_events (session H cs)).
           ev_id e \<noteq> next_event_id H (session H cs) rid"
  shows "\<exists>t. fail_unfinished_after_restart H now (session H cs) = (Inr (unfinished_ids (session H cs)), t) \<and>
     st_runs t = map (\<lambda>r. if terminal (rr_status r) then r else to_failed now r) (st_runs (session H cs)) \<and>
     unfinished_ids t = [] \<and>
     (\<forall>rid. if rid \<in> set (unfinished_ids (session H cs))
            then \<exists>e. events_of rid t = log_of H cs rid @ [e] \<and> ev_type e = ''run.failed'' \<and> ev_payload e = recovery_payload
            else events_of rid t = log_of H cs rid)"
proof -
  let ?s = "session H cs"
  have inv: "store_inv H ?s" by (rule session_store_inv)
  then have ev: "events_ok H ?s" and runs: "runs_ok H ?s" by (simp_all add: store_inv_def)
  have dto: "event_dto_ok rid ''run.failed''" if "rid \<in> set (unfinished_ids ?s)" for rid
    using that runs by (auto simp: set_unfinished_ids runs_ok_def row_ok_def run_id_dto_ok)
  obtain t where "fail_each H now (unfinished_ids ?s) ?s = (Inr (), t)"
    using fail_each_succeeds [OF ev distinct_unfinished_ids [OF runs] dto assms(1)] assms(2) by blast
  then have t: "\<exists>t. fail_unfinished_after_restart H now ?s = (Inr (unfinished_ids ?s), t)"
    by (auto simp: fail_unfinished_after_restart_def Let_def)
  then obtain t where t: "fail_unfinished_after_restart H now ?s = (Inr (unfinished_ids ?s), t)" ..
  note res = recover_result [OF inv t]
  have "unfinished_ids t = []"
  proof -
    have "\<forall>r \<in> set (st_runs t). terminal (rr_status r)" using res by (auto simp: terminal_def)
    then have "set (unfinished_ids t) = {}" unfolding set_unfinished_ids by blast
    then show ?thesis by simp
  qed
  with res t show ?thesis unfolding log_of_def by (intro exI [of _ t]) simp
qed

lemma example_unfinished:
  "unfinished_ids (session (\<lambda>s. s) [Create ''t0'' example_request ''e'' ''1'' example_catalog]) = [''hrun_key-1'']"
  by code_simp

lemma example_events:
  "map ev_id (st_events (session (\<lambda>s. s) [Create ''t0'' example_request ''e'' ''1'' example_catalog])) = [''hevt_hrun_key-1:1'']"
  by code_simp

lemma example_next_id:
  "next_event_id (\<lambda>s. s) (session (\<lambda>s. s) [Create ''t0'' example_request ''e'' ''1'' example_catalog]) ''hrun_key-1'' =
     ''hevt_hrun_key-1:2''"
  by code_simp

lemma restart_closes_every_run_witness:
  "\<exists>t. fail_unfinished_after_restart (\<lambda>s. s) ''t9'' (session (\<lambda>s. s)
          [Create ''t0'' example_request ''e'' ''1'' example_catalog]) = (Inr [''hrun_key-1''], t) \<and>
       unfinished_ids t = []"
proof -
  have "\<forall>e \<in> set (st_events (session (\<lambda>s. s) [Create ''t0'' example_request ''e'' ''1'' example_catalog])).
          ev_id e \<noteq> ''hevt_hrun_key-1:2''"
    using example_events by auto
  then show ?thesis
    using restart_closes_every_run [of "\<lambda>s. s" "[Create ''t0'' example_request ''e'' ''1'' example_catalog]" "''t9''"]
    by (simp add: example_unfinished example_next_id) blast
qed

section \<open>A cancelled run whose SDK thread goes on\<close>

definition example_created :: service where
  "example_created = snd (create_run (\<lambda>s. s) ''t0'' True (Inr example_catalog) ''e'' ''1'' example_request init_service)"

definition example_started :: service where
  "example_started = task_start (\<lambda>s. s) ''t1'' ''hrun_key-1'' (snd (activate_run ''hrun_key-1'' example_created))"

definition example_cancelled :: service where
  "example_cancelled = snd (cancel_run (\<lambda>s. s) ''t2'' ''hrun_key-1'' example_started)"

definition example_late :: service where
  "example_late = example_cancelled\<lparr>sv_store := snd (append_event (\<lambda>s. s) ''t3'' ''hrun_key-1'' ''response.delta''
     (delta_payload ''late'') (sv_store example_cancelled))\<rparr>"

lemma example_task:
  "map_of (sv_tasks (snd (activate_run ''hrun_key-1'' example_created))) ''hrun_key-1'' =
     Some \<lparr>tk_state = Scheduled, tk_cancel = False\<rparr>"
  by code_simp

lemma example_thread: "sv_threads example_cancelled = [''hrun_key-1'']"
  by code_simp

lemma example_reachable: "svc_reachable (\<lambda>s. s) example_cancelled"
proof -
  have "svc_reachable (\<lambda>s. s) example_created"
    unfolding example_created_def by (rule svc_reachable.step [OF svc_reachable.start svc_step.create])
  then have "svc_reachable (\<lambda>s. s) (snd (activate_run ''hrun_key-1'' example_created))"
    by (rule svc_reachable.step) (rule svc_step.activate)
  then have "svc_reachable (\<lambda>s. s) example_started"
    unfolding example_started_def by (rule svc_reachable.step) (rule svc_step.task_begin [OF example_task])
  then show ?thesis
    unfolding example_cancelled_def by (rule svc_reachable.step) (rule svc_step.cancel_req)
qed

lemma example_late_step: "svc_step (\<lambda>s. s) example_cancelled example_late"
  unfolding example_late_def
  by (rule svc_step.publish) (simp_all add: example_thread public_event_type_def)

lemma example_cancelled_row:
  "map_option rr_status (run_by_id (sv_store example_cancelled) ''hrun_key-1'') = Some Cancelled"
  by code_simp

lemma run_started_and_closed_once_witness:
  "log_count closing ''hrun_key-1'' (sv_store example_cancelled) \<le> 1"
  using run_started_and_closed_once [OF example_reachable, of "''hrun_key-1''"] by (rule conjunct1)

lemma closed_run_is_final_witness:
  "run_by_id (sv_store example_late) ''hrun_key-1'' = run_by_id (sv_store example_cancelled) ''hrun_key-1''"
proof -
  obtain r where r: "run_by_id (sv_store example_cancelled) ''hrun_key-1'' = Some r" "rr_status r = Cancelled"
    using example_cancelled_row by auto
  then have "terminal (rr_status r)" by (simp add: terminal_def)
  from closed_run_is_final [OF example_reachable r_into_rtranclp, OF example_late_step r(1) this] r(1)
  show ?thesis by simp
qed

text \<open>
  Cancellation does not stop the public events of a run. There is a reachable state in which a run
  is cancelled, with its \<^verbatim>\<open>run.cancelled\<close> written, and its SDK thread still appends a
  \<^verbatim>\<open>response.delta\<close> after it: \<^verbatim>\<open>append_event\<close> never looks at the status, although the
  handler's comment in \<^verbatim>\<open>run_service.py\<close> says that the stored status keeps later public
  events out.
\<close>

lemma event_after_cancellation:
  "\<exists>sv. svc_reachable (\<lambda>s. s) sv \<and>
     map_option rr_status (run_by_id (sv_store sv) ''hrun_key-1'') = Some Cancelled \<and>
     map ev_type (events_of ''hrun_key-1'' (sv_store sv)) =
       [''run.accepted'', ''run.started'', ''public_summary.delta'', ''run.cancelled'', ''response.delta'']"
proof (intro exI conjI)
  show "svc_reachable (\<lambda>s. s) example_late"
    by (rule svc_reachable.step [OF example_reachable example_late_step])
  show "map_option rr_status (run_by_id (sv_store example_late) ''hrun_key-1'') = Some Cancelled"
    by code_simp
  show "map ev_type (events_of ''hrun_key-1'' (sv_store example_late)) =
       [''run.accepted'', ''run.started'', ''public_summary.delta'', ''run.cancelled'', ''response.delta'']"
    by code_simp
qed

end
