(* ===== verification/Jobs.thy ===== *)
theory Jobs
  imports Json "HOL-Library.Product_Lexorder"
begin

text \<open>
  \<^verbatim>\<open>generation_jobs/contracts.py\<close> and \<^verbatim>\<open>repository.py\<close>: the record of a
  generation job, its status contract, and the two repositories behind the worker, one definition
  per method. The in-memory repository is a dictionary from job ids to records; the SQL table is
  the same dictionary of rows, read through \<open>record_from_row\<close> (which strips and validates, and
  whose failure rolls the transaction back). Times are integers (microseconds, UTC).
\<close>

section \<open>The record and its contract\<close>

datatype job_kind = Image | Video

datatype job_status =
  Queued | Starting | Polling | Succeeded | Job_Failed | Timeout | Expired | Indeterminate

fun job_status_text :: "job_status \<Rightarrow> string" where
  "job_status_text Queued = ''queued''"
| "job_status_text Starting = ''starting''"
| "job_status_text Polling = ''polling''"
| "job_status_text Succeeded = ''succeeded''"
| "job_status_text Job_Failed = ''failed''"
| "job_status_text Timeout = ''timeout''"
| "job_status_text Expired = ''expired''"
| "job_status_text Indeterminate = ''indeterminate''"

record job =
  jb_id :: string
  jb_user :: string
  jb_conv :: string
  jb_ws :: string
  jb_kind :: job_kind
  jb_item :: string
  jb_variant :: int
  jb_status :: job_status
  jb_request :: json
  jb_hash :: string
  jb_key :: string
  jb_provider :: string
  jb_pjob :: "string option"
  jb_result :: "json option"
  jb_reason :: "string option"
  jb_next :: "time option"
  jb_owner :: "string option"
  jb_until :: "time option"
  jb_created :: time
  jb_updated :: time

definition job_closed :: "job_status \<Rightarrow> bool" where
  "job_closed st \<longleftrightarrow> st \<in> {Succeeded, Job_Failed, Timeout, Expired, Indeterminate}"

text \<open>The truth value of an optional string and of an optional JSON value.\<close>

definition text_given :: "string option \<Rightarrow> bool" where
  "text_given t = (case t of None \<Rightarrow> False | Some s \<Rightarrow> s \<noteq> [])"

definition json_given :: "json option \<Rightarrow> bool" where
  "json_given t = (case t of None \<Rightarrow> False | Some j \<Rightarrow> truthy j)"

definition status_contract :: "job \<Rightarrow> bool" where
  "status_contract j =
     (\<not> (jb_status j = Polling \<and> (\<not> text_given (jb_pjob j) \<or> jb_next j = None)) \<and>
      \<not> (jb_status j = Starting \<and> (\<not> text_given (jb_owner j) \<or> jb_until j = None)) \<and>
      \<not> (job_closed (jb_status j) \<and> (jb_owner j \<noteq> None \<or> jb_until j \<noteq> None)) \<and>
      \<not> (jb_status j = Succeeded \<and> \<not> json_given (jb_result j)) \<and>
      \<not> (jb_status j \<in> {Job_Failed, Timeout, Expired, Indeterminate} \<and> \<not> text_given (jb_reason j)))"

definition len_in :: "nat \<Rightarrow> nat \<Rightarrow> string \<Rightarrow> bool" where
  "len_in lo hi s = (lo \<le> py_len s \<and> py_len s \<le> hi)"

definition opt_len :: "nat \<Rightarrow> string option \<Rightarrow> bool" where
  "opt_len hi t = (case t of None \<Rightarrow> True | Some s \<Rightarrow> py_len s \<le> hi)"

definition job_fields_ok :: "job \<Rightarrow> bool" where
  "job_fields_ok j =
     (len_in 1 64 (jb_id j) \<and> len_in 1 64 (jb_user j) \<and> len_in 1 64 (jb_conv j) \<and> len_in 1 64 (jb_ws j) \<and>
      len_in 1 128 (jb_item j) \<and> 1 \<le> jb_variant j \<and> jb_variant j \<le> 3 \<and> is_obj (jb_request j) \<and>
      len_in 1 128 (jb_hash j) \<and> len_in 1 255 (jb_key j) \<and> len_in 1 128 (jb_provider j) \<and>
      opt_len 255 (jb_pjob j) \<and> opt_len 128 (jb_reason j) \<and> opt_len 128 (jb_owner j) \<and>
      (case jb_result j of None \<Rightarrow> True | Some r \<Rightarrow> is_obj r))"

definition strip_job :: "job \<Rightarrow> job" where
  "strip_job j =
     j\<lparr>jb_id := contract_strip (jb_id j), jb_user := contract_strip (jb_user j), jb_conv := contract_strip (jb_conv j),
       jb_ws := contract_strip (jb_ws j), jb_item := contract_strip (jb_item j), jb_request := contract_json (jb_request j),
       jb_hash := contract_strip (jb_hash j), jb_key := contract_strip (jb_key j),
       jb_provider := contract_strip (jb_provider j), jb_pjob := map_option contract_strip (jb_pjob j),
       jb_result := map_option contract_json (jb_result j), jb_reason := map_option contract_strip (jb_reason j),
       jb_owner := map_option contract_strip (jb_owner j)\<rparr>"

text \<open>\<^verbatim>\<open>GenerationJobRecord.model_validate\<close>: strip, then check.\<close>

definition job_valid :: "job \<Rightarrow> bool" where
  "job_valid j = (job_fields_ok (strip_job j) \<and> status_contract (strip_job j))"

lemma strip_job_idem [simp]: "strip_job (strip_job j) = strip_job j"
  by (simp add: strip_job_def option.map_comp o_def)

lemma job_valid_strip [simp]: "job_valid (strip_job j) = job_valid j"
  by (simp add: job_valid_def)

section \<open>Helpers of both repositories\<close>

type_synonym job_table = "(string, job) dict"

datatype job_error = JobConflict | JobMissing | JobInvalid

definition same_identity :: "job \<Rightarrow> job \<Rightarrow> bool" where
  "same_identity l r =
     (jb_user l = jb_user r \<and> jb_conv l = jb_conv r \<and> jb_ws l = jb_ws r \<and> jb_kind l = jb_kind r \<and>
      jb_item l = jb_item r \<and> jb_variant l = jb_variant r \<and> jb_hash l = jb_hash r \<and>
      jb_provider l = jb_provider r)"

definition missing_result_reasons :: "string list" where
  "missing_result_reasons =
     [''provider_result_missing'', ''provider_poll_image_result_url_missing'',
      ''provider_start_image_result_url_missing'', ''provider_poll_video_result_url_missing'',
      ''provider_start_video_result_url_missing'',
      ''provider_poll_provider_status_authorization_unavailable'']"

definition is_missing_mapped_result :: "job \<Rightarrow> bool" where
  "is_missing_mapped_result j =
     (jb_kind j \<in> {Image, Video} \<and> jb_status j = Indeterminate \<and>
      (case jb_reason j of None \<Rightarrow> False | Some r \<Rightarrow> r \<in> set missing_result_reasons) \<and> text_given (jb_pjob j))"

definition lease_owned :: "job \<Rightarrow> string \<Rightarrow> time \<Rightarrow> bool" where
  "lease_owned j w now =
     (jb_owner j = Some w \<and> (case jb_until j of None \<Rightarrow> False | Some t \<Rightarrow> now < t))"

definition claim_inputs_ok :: "string \<Rightarrow> time \<Rightarrow> nat \<Rightarrow> bool" where
  "claim_inputs_ok w d limit = (py_strip w \<noteq> [] \<and> 0 < d \<and> 1 \<le> limit \<and> limit \<le> 6)"

text \<open>The field updates of the methods.\<close>

definition start_claimed :: "string \<Rightarrow> time \<Rightarrow> time \<Rightarrow> job \<Rightarrow> job" where
  "start_claimed w now d j =
     j\<lparr>jb_status := Starting, jb_owner := Some w, jb_until := Some (now + d), jb_updated := now\<rparr>"

definition poll_claimed :: "string \<Rightarrow> time \<Rightarrow> time \<Rightarrow> job \<Rightarrow> job" where
  "poll_claimed w now d j = j\<lparr>jb_owner := Some w, jb_until := Some (now + d), jb_updated := now\<rparr>"

definition bound :: "string \<Rightarrow> time \<Rightarrow> time \<Rightarrow> job \<Rightarrow> job" where
  "bound p now next j =
     j\<lparr>jb_status := Polling, jb_pjob := Some p, jb_next := Some next, jb_owner := None, jb_until := None,
       jb_updated := now\<rparr>"

definition rescheduled :: "time \<Rightarrow> time \<Rightarrow> job \<Rightarrow> job" where
  "rescheduled now next j = j\<lparr>jb_next := Some next, jb_owner := None, jb_until := None, jb_updated := now\<rparr>"

definition completed_with ::
  "job_status \<Rightarrow> json option \<Rightarrow> string option \<Rightarrow> time \<Rightarrow> job \<Rightarrow> job" where
  "completed_with st res reason now j =
     j\<lparr>jb_status := st, jb_result := res, jb_reason := reason, jb_next := None, jb_owner := None,
       jb_until := None, jb_updated := now\<rparr>"

definition reopened :: "time \<Rightarrow> job \<Rightarrow> job" where
  "reopened now j =
     j\<lparr>jb_status := Polling, jb_reason := None, jb_result := None, jb_owner := None, jb_until := None,
       jb_next := Some now, jb_updated := now\<rparr>"

definition can_start :: "time \<Rightarrow> job \<Rightarrow> bool" where
  "can_start now j =
     (jb_status j = Queued \<or>
      (jb_status j = Starting \<and> (case jb_until j of None \<Rightarrow> False | Some t \<Rightarrow> t \<le> now)))"

definition can_poll :: "time \<Rightarrow> job \<Rightarrow> bool" where
  "can_poll now j =
     (jb_status j = Polling \<and> (case jb_next j of None \<Rightarrow> False | Some t \<Rightarrow> t \<le> now) \<and>
      (case jb_until j of None \<Rightarrow> True | Some t \<Rightarrow> t \<le> now))"

text \<open>Writing records back under their ids.\<close>

fun put_jobs :: "job list \<Rightarrow> job_table \<Rightarrow> job_table" where
  "put_jobs [] d = d"
| "put_jobs (j # js) d = put_jobs js (AList.update (jb_id j) j d)"

section \<open>\<^verbatim>\<open>MemoryGenerationJobRepository\<close>\<close>

definition mem_create :: "job \<Rightarrow> job_table \<Rightarrow> (job_error + job) \<times> job_table" where
  "mem_create c d =
     (case List.find (\<lambda>j. jb_key j = jb_key c) (dict_vals d) of
        Some j \<Rightarrow> (if \<not> same_identity j c then Inl JobConflict else Inr j, d)
      | None \<Rightarrow> (Inr c, AList.update (jb_id c) c d))"

definition mem_claim ::
  "(job \<Rightarrow> bool) \<Rightarrow> (job \<Rightarrow> job) \<Rightarrow> nat \<Rightarrow> job_table \<Rightarrow> job list \<times> job_table" where
  "mem_claim ok f limit d =
     (let claimed = map f (take limit (filter ok (dict_vals d))) in (claimed, put_jobs claimed d))"

definition mem_claim_start ::
  "string \<Rightarrow> time \<Rightarrow> time \<Rightarrow> nat \<Rightarrow> job_table \<Rightarrow> (job_error + job list) \<times> job_table" where
  "mem_claim_start w now dur limit d =
     (if \<not> claim_inputs_ok w dur limit then (Inl JobInvalid, d)
      else case mem_claim (can_start now) (start_claimed w now dur) limit d of (js, d') \<Rightarrow> (Inr js, d'))"

definition mem_claim_poll ::
  "string \<Rightarrow> time \<Rightarrow> time \<Rightarrow> nat \<Rightarrow> job_table \<Rightarrow> (job_error + job list) \<times> job_table" where
  "mem_claim_poll w now dur limit d =
     (if \<not> claim_inputs_ok w dur limit then (Inl JobInvalid, d)
      else case mem_claim (can_poll now) (poll_claimed w now dur) limit d of (js, d') \<Rightarrow> (Inr js, d'))"

text \<open>The three methods that need the caller's lease share their shape.\<close>

definition mem_fenced ::
  "string \<Rightarrow> string \<Rightarrow> time \<Rightarrow> (job \<Rightarrow> bool) \<Rightarrow> (job \<Rightarrow> job) \<Rightarrow> job_table \<Rightarrow> (job_error + job) \<times> job_table" where
  "mem_fenced i w now ok f d =
     (case map_of d i of
        None \<Rightarrow> (Inl JobMissing, d)
      | Some j \<Rightarrow> if \<not> lease_owned j w now \<or> \<not> ok j then (Inl JobConflict, d)
                  else (Inr (f j), AList.update i (f j) d))"

definition mem_bind :: "string \<Rightarrow> string \<Rightarrow> string \<Rightarrow> time \<Rightarrow> time \<Rightarrow> job_table \<Rightarrow> (job_error + job) \<times> job_table" where
  "mem_bind i p w now next = mem_fenced i w now (\<lambda>j. jb_status j = Starting) (bound p now next)"

definition mem_reschedule :: "string \<Rightarrow> string \<Rightarrow> time \<Rightarrow> time \<Rightarrow> job_table \<Rightarrow> (job_error + job) \<times> job_table" where
  "mem_reschedule i w now next = mem_fenced i w now (\<lambda>j. jb_status j = Polling) (rescheduled now next)"

definition mem_complete ::
  "string \<Rightarrow> string \<Rightarrow> job_status \<Rightarrow> time \<Rightarrow> json option \<Rightarrow> string option \<Rightarrow> job_table
     \<Rightarrow> (job_error + job) \<times> job_table" where
  "mem_complete i w st now res reason = mem_fenced i w now (\<lambda>_. True) (completed_with st res reason now)"

text \<open>
  \<^verbatim>\<open>reopen_missing_image_results\<close>: of the jobs that ended without a result address, the
  latest of every item that has no success, in the order their items were first met.
\<close>

definition succeeded_items :: "job list \<Rightarrow> (string \<times> string) list" where
  "succeeded_items js = map (\<lambda>j. (jb_ws j, jb_item j)) (filter (\<lambda>j. jb_status j = Succeeded) js)"

fun latest_missing ::
  "(job \<Rightarrow> bool) \<Rightarrow> job list \<Rightarrow> (string \<times> string, job) dict \<Rightarrow> (string \<times> string, job) dict" where
  "latest_missing ok [] l = l"
| "latest_missing ok (j # js) l =
     latest_missing ok js
       (if \<not> ok j then l
        else case map_of l (jb_ws j, jb_item j) of
               None \<Rightarrow> AList.update (jb_ws j, jb_item j) j l
             | Some c \<Rightarrow> if jb_created c < jb_created j then AList.update (jb_ws j, jb_item j) j l else l)"

definition to_reopen :: "(job \<Rightarrow> bool) \<Rightarrow> nat \<Rightarrow> job list \<Rightarrow> job list" where
  "to_reopen ok limit js =
     take limit (dict_vals (latest_missing
       (\<lambda>j. ok j \<and> (jb_ws j, jb_item j) \<notin> set (succeeded_items js)) js []))"

definition mem_reopen :: "time \<Rightarrow> nat \<Rightarrow> job_table \<Rightarrow> nat \<times> job_table" where
  "mem_reopen now limit d =
     (if limit = 0 then (0, d)
      else let js = to_reopen is_missing_mapped_result limit (dict_vals d)
           in (length js, put_jobs (map (reopened now) js) d))"

section \<open>\<^verbatim>\<open>SQLGenerationJobRepository\<close>\<close>

definition record_from_row :: "job \<Rightarrow> job_error + job" where
  "record_from_row r = (if job_valid r then Inr (strip_job r) else Inl JobInvalid)"

fun records_from_rows :: "job list \<Rightarrow> job_error + job list" where
  "records_from_rows [] = Inr []"
| "records_from_rows (r # rs) =
     bind_result (record_from_row r) (\<lambda>j. bind_result (records_from_rows rs) (\<lambda>js. Inr (j # js)))"

text \<open>
  \<^verbatim>\<open>create_or_read\<close>. An id that is already taken raises \<^verbatim>\<open>IntegrityError\<close>; the
  second transaction then finds no row for the key.
\<close>

definition sql_create :: "job \<Rightarrow> job_table \<Rightarrow> (job_error + job) \<times> job_table" where
  "sql_create c d =
     (case List.find (\<lambda>r. jb_key r = jb_key c) (dict_vals d) of
        Some r \<Rightarrow>
          (bind_result (record_from_row r) (\<lambda>j. if \<not> same_identity j c then Inl JobConflict else Inr j), d)
      | None \<Rightarrow>
          if map_of d (jb_id c) \<noteq> None then (Inl JobConflict, d)
          else case bind_result (record_from_row c) (\<lambda>j. if \<not> same_identity j c then Inl JobConflict else Inr j) of
                 Inl e \<Rightarrow> (Inl e, d)
               | Inr j \<Rightarrow> (Inr j, AList.update (jb_id c) c d))"

definition sql_claim ::
  "(job list \<Rightarrow> job list) \<Rightarrow> (job \<Rightarrow> bool) \<Rightarrow> (job \<Rightarrow> job) \<Rightarrow> nat \<Rightarrow> job_table
     \<Rightarrow> (job_error + job list) \<times> job_table" where
  "sql_claim order ok f limit d =
     (let rows = map f (take limit (order (filter ok (dict_vals d))))
      in case records_from_rows rows of Inl e \<Rightarrow> (Inl e, d) | Inr js \<Rightarrow> (Inr js, put_jobs rows d))"

definition sql_claim_start ::
  "string \<Rightarrow> time \<Rightarrow> time \<Rightarrow> nat \<Rightarrow> job_table \<Rightarrow> (job_error + job list) \<times> job_table" where
  "sql_claim_start w now dur limit d =
     (if \<not> claim_inputs_ok w dur limit then (Inl JobInvalid, d)
      else sql_claim (sort_key (\<lambda>j. (jb_created j, jb_id j))) (can_start now) (start_claimed w now dur) limit d)"

definition sql_claim_poll ::
  "string \<Rightarrow> time \<Rightarrow> time \<Rightarrow> nat \<Rightarrow> job_table \<Rightarrow> (job_error + job list) \<times> job_table" where
  "sql_claim_poll w now dur limit d =
     (if \<not> claim_inputs_ok w dur limit then (Inl JobInvalid, d)
      else sql_claim (sort_key (\<lambda>j. (the (jb_next j), jb_created j)))
             (\<lambda>j. jb_pjob j \<noteq> None \<and> can_poll now j) (poll_claimed w now dur) limit d)"

definition sql_fenced ::
  "string \<Rightarrow> string \<Rightarrow> time \<Rightarrow> (job \<Rightarrow> bool) \<Rightarrow> (job \<Rightarrow> job) \<Rightarrow> job_table \<Rightarrow> (job_error + job) \<times> job_table" where
  "sql_fenced i w now ok f d =
     (case map_of d i of
        None \<Rightarrow> (Inl JobConflict, d)
      | Some r \<Rightarrow>
          (case record_from_row r of
             Inl e \<Rightarrow> (Inl e, d)
           | Inr j \<Rightarrow>
               if \<not> lease_owned j w now \<or> \<not> ok j then (Inl JobConflict, d)
               else case record_from_row (f r) of
                      Inl e \<Rightarrow> (Inl e, d)
                    | Inr j' \<Rightarrow> (Inr j', AList.update i (f r) d)))"

definition sql_bind :: "string \<Rightarrow> string \<Rightarrow> string \<Rightarrow> time \<Rightarrow> time \<Rightarrow> job_table \<Rightarrow> (job_error + job) \<times> job_table" where
  "sql_bind i p w now next = sql_fenced i w now (\<lambda>j. jb_status j = Starting) (bound p now next)"

definition sql_reschedule :: "string \<Rightarrow> string \<Rightarrow> time \<Rightarrow> time \<Rightarrow> job_table \<Rightarrow> (job_error + job) \<times> job_table" where
  "sql_reschedule i w now next = sql_fenced i w now (\<lambda>j. jb_status j = Polling) (rescheduled now next)"

definition sql_complete ::
  "string \<Rightarrow> string \<Rightarrow> job_status \<Rightarrow> time \<Rightarrow> json option \<Rightarrow> string option \<Rightarrow> job_table
     \<Rightarrow> (job_error + job) \<times> job_table" where
  "sql_complete i w st now res reason = sql_fenced i w now (\<lambda>_. True) (completed_with st res reason now)"

text \<open>The query asks for \<^verbatim>\<open>provider_job_id IS NOT NULL\<close>; an empty one passes.\<close>

definition sql_missing :: "job \<Rightarrow> bool" where
  "sql_missing j \<longleftrightarrow> jb_kind j \<in> {Image, Video} \<and> jb_status j = Indeterminate \<and>
     (case jb_reason j of None \<Rightarrow> False | Some r \<Rightarrow> r \<in> set missing_result_reasons) \<and> jb_pjob j \<noteq> None"

definition sql_reopen :: "time \<Rightarrow> nat \<Rightarrow> job_table \<Rightarrow> nat \<times> job_table" where
  "sql_reopen now limit d =
     (if limit = 0 then (0, d)
      else let js = to_reopen sql_missing limit (dict_vals d)
           in (length js, put_jobs (map (reopened now) js) d))"

end
