(* ===== verification/Jobs_Port.thy ===== *)
theory Jobs_Port
  imports Jobs "HOL-Library.Multiset"
begin

text \<open>
  \<^verbatim>\<open>GenerationJobRepository\<close>, the Protocol the worker depends on, as a record of
  operations and a locale with the laws its two implementations keep: a fenced method succeeds
  exactly for the holder of an unexpired lease and changes exactly that job; a claim returns each
  free job at most once, at most \<^verbatim>\<open>limit\<close> of them, and every one of them when fewer are free.
\<close>

section \<open>Tables\<close>

definition keyed :: "job_table \<Rightarrow> bool" where
  "keyed d \<longleftrightarrow> distinct (map fst d) \<and> (\<forall>(k, j) \<in> set d. jb_id j = k)"

lemma keyed_empty [simp]: "keyed []"
  by (simp add: keyed_def)

lemma keyed_update: "keyed d \<Longrightarrow> jb_id j = i \<Longrightarrow> keyed (AList.update i j d)"
  by (auto simp: keyed_def dest: set_update_cases)

lemma keyed_lookup: "keyed d \<Longrightarrow> map_of d i = Some j \<Longrightarrow> jb_id j = i"
  by (auto simp: keyed_def dest: map_of_SomeD)

lemma keyed_vals: "keyed d \<Longrightarrow> j \<in> set (dict_vals d) \<longleftrightarrow> map_of d (jb_id j) = Some j"
  by (force simp: keyed_def dict_vals_def dest: map_of_SomeD intro: map_of_is_SomeI)

lemma keyed_vals_distinct: "keyed d \<Longrightarrow> distinct (map jb_id (dict_vals d))"
proof -
  assume k: "keyed d"
  then have "map jb_id (dict_vals d) = map fst d" by (auto simp: keyed_def dict_vals_def)
  with k show ?thesis by (simp add: keyed_def)
qed

lemma put_jobs_lookup:
  "distinct (map jb_id js) \<Longrightarrow>
   map_of (put_jobs js d) i = (case List.find (\<lambda>j. jb_id j = i) js of Some j \<Rightarrow> Some j | None \<Rightarrow> map_of d i)"
proof (induction js arbitrary: d)
  case (Cons j js)
  show ?case
  proof (cases "jb_id j = i")
    case True
    then have "List.find (\<lambda>j. jb_id j = i) js = None"
      using Cons.prems by (auto simp: find_None_all) (metis image_eqI)
    with True Cons show ?thesis by simp
  next
    case False
    with Cons show ?thesis by (simp split: option.split)
  qed
qed simp

lemma put_jobs_keyed: "keyed d \<Longrightarrow> keyed (put_jobs js d)"
  by (induction js arbitrary: d) (auto intro: keyed_update)

lemma find_id:
  "distinct (map jb_id js) \<Longrightarrow> j \<in> set js \<Longrightarrow> List.find (\<lambda>x. jb_id x = jb_id j) js = Some j"
  by (induction js) (auto simp: image_iff)

lemma put_jobs_other:
  "distinct (map jb_id js) \<Longrightarrow> i \<notin> jb_id ` set js \<Longrightarrow> map_of (put_jobs js d) i = map_of d i"
  by (auto simp: put_jobs_lookup find_None_all split: option.splits dest!: find_Some_in)

lemma put_jobs_in:
  "distinct (map jb_id js) \<Longrightarrow> j \<in> set js \<Longrightarrow> map_of (put_jobs js d) (jb_id j) = Some j"
  by (simp add: put_jobs_lookup find_id)

section \<open>The port\<close>

record 's job_port =
  jp_get :: "'s \<Rightarrow> string \<Rightarrow> job option"
  jp_claim_start :: "string \<Rightarrow> time \<Rightarrow> time \<Rightarrow> nat \<Rightarrow> 's \<Rightarrow> (job_error + job list) \<times> 's"
  jp_claim_poll :: "string \<Rightarrow> time \<Rightarrow> time \<Rightarrow> nat \<Rightarrow> 's \<Rightarrow> (job_error + job list) \<times> 's"
  jp_bind :: "string \<Rightarrow> string \<Rightarrow> string \<Rightarrow> time \<Rightarrow> time \<Rightarrow> 's \<Rightarrow> (job_error + job) \<times> 's"
  jp_reschedule :: "string \<Rightarrow> string \<Rightarrow> time \<Rightarrow> time \<Rightarrow> 's \<Rightarrow> (job_error + job) \<times> 's"
  jp_complete :: "string \<Rightarrow> string \<Rightarrow> job_status \<Rightarrow> time \<Rightarrow> json option \<Rightarrow> string option \<Rightarrow> 's \<Rightarrow> (job_error + job) \<times> 's"
  jp_reopen :: "time \<Rightarrow> nat \<Rightarrow> 's \<Rightarrow> nat \<times> 's"

definition mem_port :: "job_table job_port" where
  "mem_port = \<lparr>jp_get = map_of, jp_claim_start = mem_claim_start, jp_claim_poll = mem_claim_poll,
     jp_bind = mem_bind, jp_reschedule = mem_reschedule, jp_complete = mem_complete, jp_reopen = mem_reopen\<rparr>"

text \<open>What a reader of the SQL table sees is the validated, stripped record.\<close>

definition sql_get :: "job_table \<Rightarrow> string \<Rightarrow> job option" where
  "sql_get d i = map_option strip_job (map_of d i)"

definition sql_port :: "job_table job_port" where
  "sql_port = \<lparr>jp_get = sql_get, jp_claim_start = sql_claim_start, jp_claim_poll = sql_claim_poll,
     jp_bind = sql_bind, jp_reschedule = sql_reschedule, jp_complete = sql_complete, jp_reopen = sql_reopen\<rparr>"

text \<open>A stored record: valid, and its provider job id, when there is one, is not blank.\<close>

definition job_sound :: "job \<Rightarrow> bool" where
  "job_sound j \<longleftrightarrow> job_valid j \<and> contract_strip (jb_id j) = jb_id j \<and>
     (case jb_pjob j of None \<Rightarrow> True | Some p \<Rightarrow> contract_strip p \<noteq> [])"

definition jobs_ok :: "job_table \<Rightarrow> bool" where
  "jobs_ok d \<longleftrightarrow> keyed d \<and> (\<forall>j \<in> set (dict_vals d). job_sound j)"

lemma jobs_ok_lookup: "jobs_ok d \<Longrightarrow> map_of d i = Some j \<Longrightarrow> job_sound j \<and> jb_id j = i"
  using keyed_lookup [of d i j] keyed_vals [of d j] by (auto simp: jobs_ok_def)

lemma dict_vals_update: "v \<in> set (dict_vals (AList.update k w d)) \<Longrightarrow> v = w \<or> v \<in> set (dict_vals d)"
  by (force simp: dict_vals_def dest: set_update_cases)

lemma jobs_ok_update: "jobs_ok d \<Longrightarrow> job_sound j \<Longrightarrow> jb_id j = i \<Longrightarrow> jobs_ok (AList.update i j d)"
  by (auto simp: jobs_ok_def keyed_update dest: dict_vals_update)

lemma jobs_ok_put: "jobs_ok d \<Longrightarrow> (\<And>j. j \<in> set js \<Longrightarrow> job_sound j) \<Longrightarrow> jobs_ok (put_jobs js d)"
  by (induction js arbitrary: d) (auto intro: jobs_ok_update)

section \<open>The laws\<close>

definition fenced_law ::
  "('s \<Rightarrow> string \<Rightarrow> job option) \<Rightarrow> ('s \<Rightarrow> bool) \<Rightarrow> (job \<Rightarrow> job) \<Rightarrow> string \<Rightarrow> string \<Rightarrow> time
     \<Rightarrow> (job \<Rightarrow> bool) \<Rightarrow> (job \<Rightarrow> job) \<Rightarrow> ('s \<Rightarrow> (job_error + job) \<times> 's) \<Rightarrow> bool" where
  "fenced_law get okay canon i w now cond f op \<longleftrightarrow>
     (\<forall>s r t. okay s \<longrightarrow> op s = (r, t) \<longrightarrow>
        (case r of
           Inl e \<Rightarrow> t = s \<and> (\<forall>j. get s i = Some j \<and> lease_owned j w now \<and> cond j \<longrightarrow> \<not> job_sound (f j))
         | Inr j' \<Rightarrow> (\<exists>j. get s i = Some j \<and> lease_owned j w now \<and> cond j \<and> j' = canon (f j)) \<and>
                    get t i = Some j' \<and> (\<forall>x. x \<noteq> i \<longrightarrow> get t x = get s x) \<and> (job_sound j' \<longrightarrow> okay t)))"

definition claim_law ::
  "('s \<Rightarrow> string \<Rightarrow> job option) \<Rightarrow> ('s \<Rightarrow> bool) \<Rightarrow> (job \<Rightarrow> job) \<Rightarrow> string \<Rightarrow> time \<Rightarrow> nat
     \<Rightarrow> (job \<Rightarrow> bool) \<Rightarrow> (job \<Rightarrow> job) \<Rightarrow> ('s \<Rightarrow> (job_error + job list) \<times> 's) \<Rightarrow> bool" where
  "claim_law get okay canon w dur limit cond f op \<longleftrightarrow>
     (\<forall>s. \<not> claim_inputs_ok w dur limit \<longrightarrow> op s = (Inl JobInvalid, s)) \<and>
     (\<forall>s. okay s \<and> claim_inputs_ok w dur limit \<and> py_len (contract_strip w) \<le> 128 \<longrightarrow>
        (\<exists>js t. op s = (Inr js, t) \<and> okay t \<and> length js \<le> limit \<and> distinct (map jb_id js) \<and>
           (\<forall>j' \<in> set js. get t (jb_id j') = Some j' \<and>
              (\<exists>j. get s (jb_id j') = Some j \<and> cond j \<and> j' = canon (f j))) \<and>
           (\<forall>i. i \<notin> jb_id ` set js \<longrightarrow> get t i = get s i) \<and>
           (length js < limit \<longrightarrow> (\<forall>i j. get s i = Some j \<and> cond j \<longrightarrow> i \<in> jb_id ` set js))))"

definition reopen_law ::
  "('s \<Rightarrow> string \<Rightarrow> job option) \<Rightarrow> ('s \<Rightarrow> bool) \<Rightarrow> time \<Rightarrow> nat \<Rightarrow> ('s \<Rightarrow> nat \<times> 's) \<Rightarrow> bool" where
  "reopen_law get okay now limit op \<longleftrightarrow>
     (\<forall>s. okay s \<longrightarrow>
        okay (snd (op s)) \<and> fst (op s) \<le> limit \<and>
        (\<forall>i. get (snd (op s)) i = get s i \<or>
             (\<exists>j. get s i = Some j \<and> is_missing_mapped_result j \<and> get (snd (op s)) i = Some (reopened now j))))"

locale job_repository =
  fixes P :: "'s job_port" and okay :: "'s \<Rightarrow> bool" and canon :: "job \<Rightarrow> job"
  assumes canon_which: "canon = (\<lambda>j. j) \<or> canon = strip_job"
    and get_sound: "okay s \<Longrightarrow> jp_get P s i = Some j \<Longrightarrow> job_sound j \<and> jb_id j = i \<and> canon j = j"
    and start_law: "claim_law (jp_get P) okay canon w dur limit (can_start now) (start_claimed w now dur)
                      (jp_claim_start P w now dur limit)"
    and poll_law: "claim_law (jp_get P) okay canon w dur limit (can_poll now) (poll_claimed w now dur)
                      (jp_claim_poll P w now dur limit)"
    and bind_law: "fenced_law (jp_get P) okay canon i w now (\<lambda>j. jb_status j = Starting) (bound p now next)
                      (jp_bind P i p w now next)"
    and reschedule_law: "fenced_law (jp_get P) okay canon i w now (\<lambda>j. jb_status j = Polling) (rescheduled now next)
                      (jp_reschedule P i w now next)"
    and complete_law: "fenced_law (jp_get P) okay canon i w now (\<lambda>_. True) (completed_with st res reason now)
                      (jp_complete P i w st now res reason)"
    and reopen_law: "reopen_law (jp_get P) okay now limit (jp_reopen P now limit)"
begin

lemma canon_cases: "canon j = j \<or> canon j = strip_job j"
  using canon_which by auto

lemma canon_status: "jb_status (canon j) = jb_status j"
  using canon_cases [of j] by (auto simp: strip_job_def)

lemma canon_owner: "jb_owner (canon j) = None \<longleftrightarrow> jb_owner j = None"
  using canon_cases [of j] by (auto simp: strip_job_def)

lemma canon_until: "jb_until (canon j) = jb_until j" "jb_next (canon j) = jb_next j"
  using canon_cases [of j] by (auto simp: strip_job_def)

end

section \<open>Sessions of several workers\<close>

datatype job_cmd =
    Claim_Start string time time nat
  | Claim_Poll string time time nat
  | Bind_Job string string string time time
  | Reschedule string string time time
  | Complete string string job_status time "json option" "string option"
  | Reopen time nat

datatype job_val = Claimed "job list" | Updated job | Reopened_Count nat

fun job_exec :: "'s job_port \<Rightarrow> 's \<Rightarrow> job_cmd \<Rightarrow> (job_error + job_val) \<times> 's" where
  "job_exec P s (Claim_Start w now dur limit) = lift_result Claimed (jp_claim_start P w now dur limit s)"
| "job_exec P s (Claim_Poll w now dur limit) = lift_result Claimed (jp_claim_poll P w now dur limit s)"
| "job_exec P s (Bind_Job i p w now next) = lift_result Updated (jp_bind P i p w now next s)"
| "job_exec P s (Reschedule i w now next) = lift_result Updated (jp_reschedule P i w now next s)"
| "job_exec P s (Complete i w st now res reason) = lift_result Updated (jp_complete P i w st now res reason s)"
| "job_exec P s (Reopen now limit) = (Inr (Reopened_Count (fst (jp_reopen P now limit s))), snd (jp_reopen P now limit s))"

text \<open>Who issues a command, and when; a reopening is nobody's.\<close>

fun cmd_worker :: "job_cmd \<Rightarrow> string option" where
  "cmd_worker (Claim_Start w now dur limit) = Some w"
| "cmd_worker (Claim_Poll w now dur limit) = Some w"
| "cmd_worker (Bind_Job i p w now next) = Some w"
| "cmd_worker (Reschedule i w now next) = Some w"
| "cmd_worker (Complete i w st now res reason) = Some w"
| "cmd_worker (Reopen now limit) = None"

fun cmd_time :: "job_cmd \<Rightarrow> time" where
  "cmd_time (Claim_Start w now dur limit) = now"
| "cmd_time (Claim_Poll w now dur limit) = now"
| "cmd_time (Bind_Job i p w now next) = now"
| "cmd_time (Reschedule i w now next) = now"
| "cmd_time (Complete i w st now res reason) = now"
| "cmd_time (Reopen now limit) = now"

text \<open>The arguments the worker passes: a worker id that fits, a provider id that is not blank, a
  closed status with its result or reason.\<close>

fun cmd_ok :: "job_cmd \<Rightarrow> bool" where
  "cmd_ok (Claim_Start w now dur limit) = (py_len (contract_strip w) \<le> 128)"
| "cmd_ok (Claim_Poll w now dur limit) = (py_len (contract_strip w) \<le> 128)"
| "cmd_ok (Bind_Job i p w now next) = (contract_strip p \<noteq> [] \<and> py_len (contract_strip p) \<le> 255)"
| "cmd_ok (Reschedule i w now next) = True"
| "cmd_ok (Complete i w st now res reason) =
     (job_closed st \<and> opt_len 128 (map_option contract_strip reason) \<and>
      (if st = Succeeded then (case res of None \<Rightarrow> False | Some r \<Rightarrow> is_obj r \<and> truthy r)
       else text_given (map_option contract_strip reason) \<and> (case res of None \<Rightarrow> True | Some r \<Rightarrow> is_obj r)))"
| "cmd_ok (Reopen now limit) = True"

section \<open>What the updates do to a sound record\<close>

lemmas job_update_defs = start_claimed_def poll_claimed_def bound_def rescheduled_def completed_with_def reopened_def

lemma job_update_ids [simp]:
  "jb_id (start_claimed w now d j) = jb_id j" "jb_id (poll_claimed w now d j) = jb_id j"
  "jb_id (bound p now next j) = jb_id j" "jb_id (rescheduled now next j) = jb_id j"
  "jb_id (completed_with st res reason now j) = jb_id j" "jb_id (reopened now j) = jb_id j"
  by (simp_all add: job_update_defs)

lemma strip_updates:
  "strip_job (start_claimed w now d (strip_job j)) = strip_job (start_claimed w now d j)"
  "strip_job (poll_claimed w now d (strip_job j)) = strip_job (poll_claimed w now d j)"
  "strip_job (bound p now next (strip_job j)) = strip_job (bound p now next j)"
  "strip_job (rescheduled now next (strip_job j)) = strip_job (rescheduled now next j)"
  "strip_job (completed_with st res reason now (strip_job j)) = strip_job (completed_with st res reason now j)"
  "strip_job (reopened now (strip_job j)) = strip_job (reopened now j)"
  by (simp_all add: strip_job_def job_update_defs option.map_comp o_def)

lemma strip_conds [simp]: "can_start now (strip_job j) = can_start now j" "can_poll now (strip_job j) = can_poll now j"
  by (simp_all add: can_start_def can_poll_def strip_job_def)

lemma job_sound_strip [simp]: "job_sound j \<Longrightarrow> job_sound (strip_job j)"
  by (auto simp: job_sound_def strip_job_def [of j] split: option.splits)
    (simp_all add: job_valid_def strip_job_def option.map_comp o_def)

lemma py_len_Nil [simp]: "py_len [] = 0"
  by (simp add: py_len_def)

lemma start_claimed_sound:
  "job_sound j \<Longrightarrow> contract_strip w \<noteq> [] \<Longrightarrow> py_len (contract_strip w) \<le> 128 \<Longrightarrow> job_sound (start_claimed w now d j)"
  by (auto simp: job_sound_def job_valid_def job_fields_ok_def status_contract_def strip_job_def
        start_claimed_def text_given_def opt_len_def job_closed_def)

lemma poll_claimed_sound:
  "job_sound j \<Longrightarrow> jb_status j = Polling \<Longrightarrow> py_len (contract_strip w) \<le> 128 \<Longrightarrow> job_sound (poll_claimed w now d j)"
  by (auto simp: job_sound_def job_valid_def job_fields_ok_def status_contract_def strip_job_def
        poll_claimed_def text_given_def opt_len_def job_closed_def)

lemma reopened_sound:
  "job_sound j \<Longrightarrow> jb_pjob j \<noteq> None \<Longrightarrow> job_sound (reopened now j)"
  by (auto simp: job_sound_def job_valid_def job_fields_ok_def status_contract_def strip_job_def
        reopened_def text_given_def opt_len_def job_closed_def split: option.splits)

section \<open>The in-memory repository keeps the laws\<close>

lemma mem_fenced_law:
  assumes "\<And>j. jb_id (f j) = jb_id j"
  shows "fenced_law map_of jobs_ok (\<lambda>j. j) i w now cond f (mem_fenced i w now cond f)"
  unfolding fenced_law_def mem_fenced_def
  using assms by (auto split: option.splits if_splits dest: jobs_ok_lookup intro: jobs_ok_update)

text \<open>A claim over any choice of free jobs.\<close>

definition fair_pick :: "(job \<Rightarrow> bool) \<Rightarrow> nat \<Rightarrow> job_table \<Rightarrow> job list \<Rightarrow> bool" where
  "fair_pick cond limit d js \<longleftrightarrow>
     set js \<subseteq> {j \<in> set (dict_vals d). cond j} \<and> distinct (map jb_id js) \<and> length js \<le> limit \<and>
     (length js < limit \<longrightarrow> set js = {j \<in> set (dict_vals d). cond j})"

lemma fair_pick_take:
  assumes "keyed d" and "\<And>xs. mset (order xs) = mset xs"
  shows "fair_pick cond limit d (take limit (order (filter cond (dict_vals d))))"
proof -
  let ?ys = "order (filter cond (dict_vals d))"
  have m: "mset ?ys = mset (filter cond (dict_vals d))" by (rule assms(2))
  have st: "set ?ys = {j \<in> set (dict_vals d). cond j}" using mset_eq_setD [OF m] by auto
  have "mset (map jb_id ?ys) = mset (map jb_id (filter cond (dict_vals d)))" using m by simp
  moreover have "distinct (map jb_id (filter cond (dict_vals d)))"
    by (rule distinct_map_filter [OF keyed_vals_distinct [OF assms(1)]])
  ultimately have dis: "distinct (map jb_id ?ys)" by (metis mset_eq_imp_distinct_iff)
  have "distinct (map jb_id (take limit ?ys))" using dis by (simp add: take_map [symmetric])
  moreover have "length (take limit ?ys) < limit \<Longrightarrow> take limit ?ys = ?ys" by simp
  ultimately show ?thesis
    using st set_take_subset [of limit ?ys] by (auto simp: fair_pick_def)
qed

lemma claim_core:
  assumes ok: "jobs_ok d" and pick: "fair_pick cond limit d js" and f: "\<And>j. jb_id (f j) = jb_id j"
    and sound: "\<forall>j. job_sound j \<and> cond j \<longrightarrow> job_sound (f j)"
  defines "rows \<equiv> map f js" and "t \<equiv> put_jobs (map f js) d"
  shows "jobs_ok t" and "length rows \<le> limit" and "distinct (map jb_id rows)"
    and "\<And>j'. j' \<in> set rows \<Longrightarrow> map_of t (jb_id j') = Some j' \<and> job_sound j' \<and> (\<exists>j. map_of d (jb_id j') = Some j \<and> cond j \<and> j' = f j)"
    and "\<And>i. i \<notin> jb_id ` set rows \<Longrightarrow> map_of t i = map_of d i"
    and "length rows < limit \<Longrightarrow> map_of d i = Some j \<Longrightarrow> cond j \<Longrightarrow> i \<in> jb_id ` set rows"
proof -
  have k: "keyed d" using ok by (simp add: jobs_ok_def)
  have ids: "map jb_id rows = map jb_id js" by (simp add: rows_def f)
  show dis: "distinct (map jb_id rows)" using pick by (simp add: ids fair_pick_def)
  show "length rows \<le> limit" using pick by (simp add: rows_def fair_pick_def)
  have src: "j \<in> set (dict_vals d) \<and> cond j" if "j \<in> set js" for j using that pick by (auto simp: fair_pick_def)
  show snd: "map_of t (jb_id j') = Some j' \<and> job_sound j' \<and> (\<exists>j. map_of d (jb_id j') = Some j \<and> cond j \<and> j' = f j)"
    if j': "j' \<in> set rows" for j'
  proof -
    obtain j where j: "j \<in> set js" "j' = f j" using j' by (auto simp: rows_def)
    have "map_of d (jb_id j) = Some j" using src [OF j(1)] keyed_vals [OF k] by blast
    moreover have "job_sound j" using src [OF j(1)] ok by (simp add: jobs_ok_def)
    moreover have "map_of t (jb_id j') = Some j'"
      unfolding t_def by (rule put_jobs_in) (use dis j' in \<open>simp_all add: rows_def\<close>)
    ultimately show ?thesis using j src [OF j(1)] sound by (auto simp: f)
  qed
  show "jobs_ok t" unfolding t_def by (rule jobs_ok_put [OF ok]) (use snd in \<open>simp add: rows_def\<close>)
  show "map_of t i = map_of d i" if "i \<notin> jb_id ` set rows" for i
    unfolding t_def by (rule put_jobs_other) (use that dis in \<open>simp_all add: rows_def\<close>)
  show "i \<in> jb_id ` set rows" if l: "length rows < limit" and i: "map_of d i = Some j" "cond j" for i j
  proof -
    have "jb_id j = i" by (rule keyed_lookup [OF k i(1)])
    then have "j \<in> set (dict_vals d)" using keyed_vals [OF k] i(1) by simp
    then have "j \<in> set js" using l i(2) pick by (auto simp: fair_pick_def rows_def)
    then have "f j \<in> set rows" by (simp add: rows_def)
    then show ?thesis using \<open>jb_id j = i\<close> f by (metis imageI)
  qed
qed

lemma mem_claim_law:
  assumes f: "\<And>j. jb_id (f j) = jb_id j"
    and sound: "\<And>j. claim_inputs_ok w dur limit \<Longrightarrow> py_len (contract_strip w) \<le> 128 \<Longrightarrow> job_sound j \<Longrightarrow> cond j \<Longrightarrow> job_sound (f j)"
  shows "claim_law map_of jobs_ok (\<lambda>j. j) w dur limit cond f
     (\<lambda>d. if \<not> claim_inputs_ok w dur limit then (Inl JobInvalid, d)
          else case mem_claim cond f limit d of (js, d') \<Rightarrow> (Inr js, d'))"
  unfolding claim_law_def
proof (rule conjI, simp, intro allI impI, elim conjE)
  fix d assume ok: "jobs_ok d" and w: "claim_inputs_ok w dur limit" "py_len (contract_strip w) \<le> 128"
  let ?js = "take limit (filter cond (dict_vals d))"
  have "keyed d" using ok by (simp add: jobs_ok_def)
  from fair_pick_take [OF this, where order = "\<lambda>xs. xs" and cond = cond and limit = limit] have pick: "fair_pick cond limit d ?js" by simp
  have "\<forall>j. job_sound j \<and> cond j \<longrightarrow> job_sound (f j)" using sound [OF w] by blast
  note core = claim_core [OF ok pick f this]
  show "\<exists>js t. (if \<not> claim_inputs_ok w dur limit then (Inl JobInvalid, d)
          else case mem_claim cond f limit d of (js, d') \<Rightarrow> (Inr js, d')) = (Inr js, t) \<and> jobs_ok t \<and> length js \<le> limit \<and>
          distinct (map jb_id js) \<and>
          (\<forall>j' \<in> set js. map_of t (jb_id j') = Some j' \<and> (\<exists>j. map_of d (jb_id j') = Some j \<and> cond j \<and> j' = f j)) \<and>
          (\<forall>i. i \<notin> jb_id ` set js \<longrightarrow> map_of t i = map_of d i) \<and>
          (length js < limit \<longrightarrow> (\<forall>i j. map_of d i = Some j \<and> cond j \<longrightarrow> i \<in> jb_id ` set js))"
  proof (intro exI conjI)
    show "(if \<not> claim_inputs_ok w dur limit then (Inl JobInvalid, d)
          else case mem_claim cond f limit d of (js, d') \<Rightarrow> (Inr js, d')) = (Inr (map f ?js), put_jobs (map f ?js) d)"
      using w by (simp add: mem_claim_def Let_def)
  qed (use core in blast)+
qed

lemma latest_missing_src:
  "(\<And>k j. map_of l k = Some j \<Longrightarrow> ok j \<and> j \<in> set js0 \<and> k = (jb_ws j, jb_item j)) \<Longrightarrow> set js \<subseteq> set js0 \<Longrightarrow>
   map_of (latest_missing ok js l) k = Some j \<Longrightarrow> ok j \<and> j \<in> set js0 \<and> k = (jb_ws j, jb_item j)"
proof (induction ok js l arbitrary: k j rule: latest_missing.induct)
  case (2 ok j0 js l)
  show ?case
  proof (rule "2.IH" [OF _ _ "2.prems"(3) [unfolded latest_missing.simps]])
    show "set js \<subseteq> set js0" using "2.prems"(2) by simp
    show "ok j' \<and> j' \<in> set js0 \<and> k' = (jb_ws j', jb_item j')"
      if "map_of (if \<not> ok j0 then l
        else case map_of l (jb_ws j0, jb_item j0) of
               None \<Rightarrow> AList.update (jb_ws j0, jb_item j0) j0 l
             | Some c \<Rightarrow> if jb_created c < jb_created j0 then AList.update (jb_ws j0, jb_item j0) j0 l else l) k' = Some j'" for k' j'
      using that "2.prems"(1) [of k' j'] "2.prems"(2)
      by (auto split: if_splits option.splits)
  qed
qed simp

lemma latest_missing_distinct: "distinct (map fst l) \<Longrightarrow> distinct (map fst (latest_missing ok js l))"
  by (induction ok js l rule: latest_missing.induct) (auto split: option.splits)

lemma to_reopen_facts:
  assumes "keyed d"
  shows "set (to_reopen ok limit (dict_vals d)) \<subseteq> {j \<in> set (dict_vals d). ok j}"
    and "distinct (map jb_id (to_reopen ok limit (dict_vals d)))"
    and "length (to_reopen ok limit (dict_vals d)) \<le> limit"
proof -
  let ?ok = "\<lambda>j. ok j \<and> (jb_ws j, jb_item j) \<notin> set (succeeded_items (dict_vals d))"
  let ?l = "latest_missing ?ok (dict_vals d) []"
  have src: "?ok j \<and> j \<in> set (dict_vals d) \<and> k = (jb_ws j, jb_item j)" if "map_of ?l k = Some j" for k j
    by (rule latest_missing_src [OF _ _ that]) simp_all
  have dl: "distinct (map fst ?l)" by (rule latest_missing_distinct) simp
  have val: "?ok j \<and> j \<in> set (dict_vals d) \<and> k = (jb_ws j, jb_item j)" if "(k, j) \<in> set ?l" for k j
    using src map_of_is_SomeI [OF dl that] by blast
  have "inj_on snd (set ?l)"
  proof (rule inj_onI)
    fix x y assume xy: "x \<in> set ?l" "y \<in> set ?l" "snd x = snd y"
    have key: "fst p = (jb_ws (snd p), jb_item (snd p))" if "p \<in> set ?l" for p
      using val [of "fst p" "snd p"] that by simp
    have "fst x = fst y" using key [OF xy(1)] key [OF xy(2)] xy(3) by metis
    with xy(3) show "x = y" by (metis prod.collapse)
  qed
  then have dv: "distinct (dict_vals ?l)" using dl by (simp add: dict_vals_def distinct_map)
  have vs: "?ok j \<and> j \<in> set (dict_vals d)" if "j \<in> set (dict_vals ?l)" for j
  proof -
    from that obtain p where "p \<in> set ?l" "j = snd p" unfolding dict_vals_def set_map by (elim imageE)
    then have "(fst p, j) \<in> set ?l" by simp
    from val [OF this] show ?thesis by blast
  qed
  have "inj_on jb_id (set (dict_vals d))"
    using keyed_vals_distinct [OF assms] by (simp add: distinct_map)
  moreover have "set (dict_vals ?l) \<subseteq> set (dict_vals d)" using vs by (intro subsetI) (elim vs [THEN conjunct2])
  ultimately have "inj_on jb_id (set (dict_vals ?l))" by (rule inj_on_subset)
  with dv have "distinct (map jb_id (dict_vals ?l))" by (simp only: distinct_map simp_thms)
  then have "distinct (take limit (map jb_id (dict_vals ?l)))" by (rule distinct_take)
  then show "distinct (map jb_id (to_reopen ok limit (dict_vals d)))"
    unfolding to_reopen_def take_map .
  show "set (to_reopen ok limit (dict_vals d)) \<subseteq> {j \<in> set (dict_vals d). ok j}"
  proof
    fix j assume "j \<in> set (to_reopen ok limit (dict_vals d))"
    then have "j \<in> set (dict_vals ?l)" unfolding to_reopen_def by (rule in_set_takeD)
    from vs [OF this] show "j \<in> {j \<in> set (dict_vals d). ok j}" by blast
  qed
  show "length (to_reopen ok limit (dict_vals d)) \<le> limit" by (simp add: to_reopen_def)
qed

lemma reopen_core:
  fixes now :: time
  assumes ok: "jobs_ok d" and js: "set js \<subseteq> {j \<in> set (dict_vals d). miss j}" and dis: "distinct (map jb_id js)"
    and miss: "\<forall>j. miss j \<longrightarrow> jb_pjob j \<noteq> None"
  defines "t \<equiv> put_jobs (map (reopened now) js) d"
  shows "jobs_ok t"
    and "map_of t i = map_of d i \<or>
         (\<exists>j. map_of d i = Some j \<and> job_sound j \<and> miss j \<and> map_of t i = Some (reopened now j))"
proof -
  let ?rows = "map (reopened now) js"
  have k: "keyed d" using ok by (simp add: jobs_ok_def)
  have src: "map_of d (jb_id j) = Some j \<and> job_sound j \<and> miss j" if "j \<in> set js" for j
  proof -
    have j: "j \<in> set (dict_vals d)" "miss j" using that js by auto
    with ok k show ?thesis by (simp add: jobs_ok_def keyed_vals)
  qed
  have ids: "map jb_id ?rows = map jb_id js" by simp
  have dis': "distinct (map jb_id ?rows)" using dis by (simp only: ids)
  show "jobs_ok t"
    unfolding t_def by (rule jobs_ok_put [OF ok]) (use src miss in \<open>auto intro!: reopened_sound\<close>)
  show "map_of t i = map_of d i \<or>
         (\<exists>j. map_of d i = Some j \<and> job_sound j \<and> miss j \<and> map_of t i = Some (reopened now j))"
  proof (cases "i \<in> jb_id ` set js")
    case True
    then obtain j where j: "j \<in> set js" "i = jb_id j" by auto
    have "map_of t (jb_id (reopened now j)) = Some (reopened now j)"
      unfolding t_def by (rule put_jobs_in [OF dis']) (use j in simp)
    then show ?thesis using src [OF j(1)] j(2) by auto
  next
    case False
    then have "i \<notin> jb_id ` set ?rows" by (auto simp: image_image)
    then show ?thesis by (simp add: t_def put_jobs_other [OF dis'])
  qed
qed

lemma missing_pjob: "\<forall>j. is_missing_mapped_result j \<longrightarrow> jb_pjob j \<noteq> None"
  by (auto simp: is_missing_mapped_result_def text_given_def split: option.splits)

lemma mem_reopen_law: "reopen_law map_of jobs_ok now limit (mem_reopen now limit)"
  unfolding reopen_law_def
proof (intro allI impI)
  fix d assume ok: "jobs_ok d"
  then have k: "keyed d" by (simp add: jobs_ok_def)
  note facts = to_reopen_facts [OF k, where ok = is_missing_mapped_result and limit = limit]
  note core = reopen_core [OF ok facts(1,2) missing_pjob, of now]
  show "jobs_ok (snd (mem_reopen now limit d)) \<and> fst (mem_reopen now limit d) \<le> limit \<and>
        (\<forall>i. map_of (snd (mem_reopen now limit d)) i = map_of d i \<or>
             (\<exists>j. map_of d i = Some j \<and> is_missing_mapped_result j \<and>
                  map_of (snd (mem_reopen now limit d)) i = Some (reopened now j)))"
  proof (cases "limit = 0")
    case False
    then show ?thesis using core facts(3) by (simp add: mem_reopen_def Let_def) blast
  qed (simp add: mem_reopen_def ok)
qed

interpretation mem_jobs: job_repository mem_port jobs_ok "\<lambda>j. j"
proof
  show "claim_law (jp_get mem_port) jobs_ok (\<lambda>j. j) w dur limit (can_start now) (start_claimed w now dur)
          (jp_claim_start mem_port w now dur limit)" for w dur limit now
  proof -
    have "mem_claim_start w now dur limit = (\<lambda>d. if \<not> claim_inputs_ok w dur limit then (Inl JobInvalid, d)
          else case mem_claim (can_start now) (start_claimed w now dur) limit d of (js, d') \<Rightarrow> (Inr js, d'))"
      by (rule ext) (simp add: mem_claim_start_def)
    moreover have "claim_law map_of jobs_ok (\<lambda>j. j) w dur limit (can_start now) (start_claimed w now dur)
       (\<lambda>d. if \<not> claim_inputs_ok w dur limit then (Inl JobInvalid, d)
          else case mem_claim (can_start now) (start_claimed w now dur) limit d of (js, d') \<Rightarrow> (Inr js, d'))"
      by (rule mem_claim_law) (auto intro: start_claimed_sound simp: claim_inputs_ok_def py_strip_contract)
    ultimately show ?thesis by (simp add: mem_port_def)
  qed
  show "claim_law (jp_get mem_port) jobs_ok (\<lambda>j. j) w dur limit (can_poll now) (poll_claimed w now dur)
          (jp_claim_poll mem_port w now dur limit)" for w dur limit now
  proof -
    have "mem_claim_poll w now dur limit = (\<lambda>d. if \<not> claim_inputs_ok w dur limit then (Inl JobInvalid, d)
          else case mem_claim (can_poll now) (poll_claimed w now dur) limit d of (js, d') \<Rightarrow> (Inr js, d'))"
      by (rule ext) (simp add: mem_claim_poll_def)
    moreover have "claim_law map_of jobs_ok (\<lambda>j. j) w dur limit (can_poll now) (poll_claimed w now dur)
       (\<lambda>d. if \<not> claim_inputs_ok w dur limit then (Inl JobInvalid, d)
          else case mem_claim (can_poll now) (poll_claimed w now dur) limit d of (js, d') \<Rightarrow> (Inr js, d'))"
      by (rule mem_claim_law) (auto intro: poll_claimed_sound simp: can_poll_def)
    ultimately show ?thesis by (simp add: mem_port_def)
  qed
qed (auto simp: mem_port_def mem_bind_def mem_reschedule_def mem_complete_def mem_reopen_law
      intro!: mem_fenced_law dest: jobs_ok_lookup)

section \<open>The SQL repository keeps the laws\<close>

lemma record_from_row_sound: "job_sound r \<Longrightarrow> record_from_row r = Inr (strip_job r)"
  by (simp add: record_from_row_def job_sound_def)

lemma strip_id [simp]: "job_sound r \<Longrightarrow> jb_id (strip_job r) = jb_id r"
  by (simp add: job_sound_def strip_job_def)

lemma sql_get_Some: "jobs_ok d \<Longrightarrow> sql_get d i = Some j \<Longrightarrow> \<exists>r. map_of d i = Some r \<and> job_sound r \<and> jb_id r = i \<and> j = strip_job r"
  by (auto simp: sql_get_def dest: jobs_ok_lookup)

lemma job_sound_unstrip: "job_sound (strip_job r) \<Longrightarrow> contract_strip (jb_id r) = jb_id r \<Longrightarrow> job_sound r"
  by (auto simp: job_sound_def strip_job_def [of r] split: option.splits)
    (simp_all add: job_valid_def strip_job_def option.map_comp o_def)

lemma sql_fenced_law:
  assumes id: "\<And>j. jb_id (f j) = jb_id j" and f: "\<And>r. strip_job (f (strip_job r)) = strip_job (f r)"
  shows "fenced_law sql_get jobs_ok strip_job i w now cond f (sql_fenced i w now cond f)"
  unfolding fenced_law_def
proof (intro allI impI)
  fix d res t assume ok: "jobs_ok d" and op: "sql_fenced i w now cond f d = (res, t)"
  have val: "job_valid (f (strip_job r)) = job_valid (f r)" for r
    using f [of r] job_valid_strip by metis
  show "case res of
           Inl e \<Rightarrow> t = d \<and> (\<forall>j. sql_get d i = Some j \<and> lease_owned j w now \<and> cond j \<longrightarrow> \<not> job_sound (f j))
         | Inr j' \<Rightarrow> (\<exists>j. sql_get d i = Some j \<and> lease_owned j w now \<and> cond j \<and> j' = strip_job (f j)) \<and>
                    sql_get t i = Some j' \<and> (\<forall>x. x \<noteq> i \<longrightarrow> sql_get t x = sql_get d x) \<and> (job_sound j' \<longrightarrow> jobs_ok t)"
  proof (cases "map_of d i")
    case None
    with op show ?thesis by (auto simp: sql_fenced_def sql_get_def)
  next
    case (Some r)
    then have r: "job_sound r" "jb_id r = i" using jobs_ok_lookup [OF ok] by auto
    have get: "sql_get d i = Some (strip_job r)" by (simp add: sql_get_def Some)
    note rr = record_from_row_sound [OF r(1)]
    show ?thesis
    proof (cases "lease_owned (strip_job r) w now \<and> cond (strip_job r) \<and> job_valid (f r)")
      case False
      then have "res = Inl JobConflict \<or> res = Inl JobInvalid" "t = d"
        using op by (auto simp: sql_fenced_def Some rr record_from_row_def [of "f r"] split: if_splits)
      moreover have "\<not> job_sound (f (strip_job r))" if "lease_owned (strip_job r) w now" "cond (strip_job r)"
        using that False val by (auto simp: job_sound_def)
      ultimately show ?thesis by (auto simp: get)
    next
      case True
      then have res: "res = Inr (strip_job (f r))" and t: "t = AList.update i (f r) d"
        using op by (auto simp: sql_fenced_def Some rr record_from_row_def [of "f r"])
      have "jobs_ok t" if "job_sound (strip_job (f r))"
        unfolding t
        by (rule jobs_ok_update [OF ok job_sound_unstrip [OF that]]) (use r in \<open>simp_all add: id job_sound_def\<close>)
      moreover have "\<exists>j. sql_get d i = Some j \<and> lease_owned j w now \<and> cond j \<and> strip_job (f r) = strip_job (f j)"
        using True get f by (intro exI [of _ "strip_job r"]) simp
      ultimately show ?thesis by (simp add: res) (simp add: t sql_get_def)
    qed
  qed
qed

lemma records_from_sound: "(\<And>r. r \<in> set rs \<Longrightarrow> job_sound r) \<Longrightarrow> records_from_rows rs = Inr (map strip_job rs)"
  by (induction rs) (auto simp: record_from_row_sound)

lemma sql_claim_law:
  assumes f: "\<And>j. jb_id (f j) = jb_id j" "\<And>r. strip_job (f (strip_job r)) = strip_job (f r)"
    and sound: "\<And>j. claim_inputs_ok w dur limit \<Longrightarrow> py_len (contract_strip w) \<le> 128 \<Longrightarrow> job_sound j \<Longrightarrow> cond j \<Longrightarrow> job_sound (f j)"
    and cond: "\<And>r. cond (strip_job r) = cond r" "\<And>r. job_sound r \<Longrightarrow> query r = cond r"
    and order: "\<And>xs. mset (order xs) = mset xs"
  shows "claim_law sql_get jobs_ok strip_job w dur limit cond f
     (\<lambda>d. if \<not> claim_inputs_ok w dur limit then (Inl JobInvalid, d) else sql_claim order query f limit d)"
  unfolding claim_law_def
proof (rule conjI, simp, intro allI impI, elim conjE)
  fix d assume ok: "jobs_ok d" and w: "claim_inputs_ok w dur limit" "py_len (contract_strip w) \<le> 128"
  let ?js = "take limit (order (filter cond (dict_vals d)))"
  let ?rows = "map f ?js" and ?t = "put_jobs (map f ?js) d"
  let ?out = "map strip_job ?rows"
  have "keyed d" using ok by (simp add: jobs_ok_def)
  from fair_pick_take [OF this order] have pick: "fair_pick cond limit d ?js" .
  have "\<forall>j. job_sound j \<and> cond j \<longrightarrow> job_sound (f j)" using sound [OF w] by blast
  note core = claim_core [OF ok pick f(1) this]
  have q: "filter query (dict_vals d) = filter cond (dict_vals d)"
    by (rule filter_cong) (use ok cond(2) in \<open>simp_all add: jobs_ok_def\<close>)
  have ids: "map jb_id ?out = map jb_id ?rows" using core(4) by simp
  then have idset: "jb_id ` set ?out = jb_id ` set ?rows" by (metis list.set_map)
  show "\<exists>js t. (if \<not> claim_inputs_ok w dur limit then (Inl JobInvalid, d) else sql_claim order query f limit d) = (Inr js, t) \<and>
          jobs_ok t \<and> length js \<le> limit \<and> distinct (map jb_id js) \<and>
          (\<forall>j' \<in> set js. sql_get t (jb_id j') = Some j' \<and> (\<exists>j. sql_get d (jb_id j') = Some j \<and> cond j \<and> j' = strip_job (f j))) \<and>
          (\<forall>i. i \<notin> jb_id ` set js \<longrightarrow> sql_get t i = sql_get d i) \<and>
          (length js < limit \<longrightarrow> (\<forall>i j. sql_get d i = Some j \<and> cond j \<longrightarrow> i \<in> jb_id ` set js))"
  proof (rule exI [of _ ?out], rule exI [of _ ?t], intro conjI ballI allI impI)
    show "(if \<not> claim_inputs_ok w dur limit then (Inl JobInvalid, d) else sql_claim order query f limit d) = (Inr ?out, ?t)"
      using w records_from_sound [of ?rows] core(4) by (simp add: sql_claim_def Let_def q)
    show "jobs_ok ?t" by (rule core(1))
    show "length ?out \<le> limit" using core(2) by simp
    show "distinct (map jb_id ?out)" unfolding ids by (rule core(3))
    fix j' assume "j' \<in> set ?out"
    then obtain r where r: "r \<in> set ?rows" "j' = strip_job r" unfolding set_map [of strip_job] by (elim imageE)
    from core(4) [OF r(1)] obtain j where j: "map_of ?t (jb_id r) = Some r" "job_sound r"
      "map_of d (jb_id r) = Some j" "cond j" "r = f j" by blast
    have jid: "jb_id j' = jb_id r" using r(2) j(2) by simp
    show "sql_get ?t (jb_id j') = Some j'" unfolding jid sql_get_def j(1) by (simp add: r(2))
    show "\<exists>j. sql_get d (jb_id j') = Some j \<and> cond j \<and> j' = strip_job (f j)"
      unfolding jid sql_get_def j(3) by (simp add: cond(1) j(4) f(2) r(2) j(5))
  next
    fix i assume "i \<notin> jb_id ` set ?out"
    then have "i \<notin> jb_id ` set ?rows" unfolding idset .
    from core(5) [OF this] show "sql_get ?t i = sql_get d i" by (simp only: sql_get_def)
  next
    fix i j assume l: "length ?out < limit" and "sql_get d i = Some j \<and> cond j"
    then obtain r where r: "map_of d i = Some r" "cond r" using cond(1) by (auto simp: sql_get_def)
    have "length ?rows < limit" using l by simp
    from core(6) [OF this r] show "i \<in> jb_id ` set ?out" unfolding idset .
  qed
qed

lemma strip_reopened: "strip_job (reopened now r) = reopened now (strip_job r)"
  by (simp add: strip_job_def reopened_def)

lemma strip_reasons: "\<forall>r \<in> set missing_result_reasons. contract_strip r = r"
  by code_simp

lemma sql_missing_strip: "job_sound r \<Longrightarrow> sql_missing r \<Longrightarrow> is_missing_mapped_result (strip_job r)"
  using strip_reasons
  by (auto simp: sql_missing_def is_missing_mapped_result_def strip_job_def job_sound_def text_given_def
      split: option.splits)

lemma sql_reopen_law: "reopen_law sql_get jobs_ok now limit (sql_reopen now limit)"
  unfolding reopen_law_def
proof (intro allI impI)
  fix d assume ok: "jobs_ok d"
  then have k: "keyed d" by (simp add: jobs_ok_def)
  let ?js = "to_reopen sql_missing limit (dict_vals d)"
  let ?t = "put_jobs (map (reopened now) ?js) d"
  note facts = to_reopen_facts [OF k, where ok = sql_missing and limit = limit]
  have "\<forall>j. sql_missing j \<longrightarrow> jb_pjob j \<noteq> None" by (simp add: sql_missing_def)
  note core = reopen_core [OF ok facts(1,2) this, of now]
  have rows: "sql_get ?t i = sql_get d i \<or>
      (\<exists>j. sql_get d i = Some j \<and> is_missing_mapped_result j \<and> sql_get ?t i = Some (reopened now j))" for i
    using core(2) [of i]
  proof (elim disjE exE conjE)
    fix j assume j: "map_of d i = Some j" "job_sound j" "sql_missing j" "map_of ?t i = Some (reopened now j)"
    then have "is_missing_mapped_result (strip_job j)" using sql_missing_strip by blast
    with j show ?thesis by (intro disjI2 exI [of _ "strip_job j"]) (simp add: sql_get_def strip_reopened)
  qed (simp add: sql_get_def)
  show "jobs_ok (snd (sql_reopen now limit d)) \<and> fst (sql_reopen now limit d) \<le> limit \<and>
        (\<forall>i. sql_get (snd (sql_reopen now limit d)) i = sql_get d i \<or>
             (\<exists>j. sql_get d i = Some j \<and> is_missing_mapped_result j \<and>
                  sql_get (snd (sql_reopen now limit d)) i = Some (reopened now j)))"
  proof (cases "limit = 0")
    case False
    then have "sql_reopen now limit d = (length ?js, ?t)" by (simp add: sql_reopen_def Let_def)
    then show ?thesis using rows core(1) facts(3) by simp
  qed (simp add: sql_reopen_def ok)
qed

lemma polling_pjob: "job_sound r \<Longrightarrow> jb_status r = Polling \<Longrightarrow> jb_pjob r \<noteq> None"
  by (cases "jb_pjob r")
    (auto simp: job_sound_def job_valid_def status_contract_def strip_job_def text_given_def)

interpretation sql_jobs: job_repository sql_port jobs_ok strip_job
proof
  show "jobs_ok s \<Longrightarrow> jp_get sql_port s i = Some j \<Longrightarrow> job_sound j \<and> jb_id j = i \<and> strip_job j = j" for s i j
    by (auto simp: sql_port_def dest: sql_get_Some)
  show "claim_law (jp_get sql_port) jobs_ok strip_job w dur limit (can_start now) (start_claimed w now dur)
          (jp_claim_start sql_port w now dur limit)" for w dur limit now
  proof -
    have "sql_claim_start w now dur limit = (\<lambda>d. if \<not> claim_inputs_ok w dur limit then (Inl JobInvalid, d)
        else sql_claim (sort_key (\<lambda>j. (jb_created j, jb_id j))) (can_start now) (start_claimed w now dur) limit d)"
      by (rule ext) (simp add: sql_claim_start_def)
    moreover have "claim_law sql_get jobs_ok strip_job w dur limit (can_start now) (start_claimed w now dur)
      (\<lambda>d. if \<not> claim_inputs_ok w dur limit then (Inl JobInvalid, d)
        else sql_claim (sort_key (\<lambda>j. (jb_created j, jb_id j))) (can_start now) (start_claimed w now dur) limit d)"
      by (rule sql_claim_law)
        (auto intro: start_claimed_sound simp: claim_inputs_ok_def py_strip_contract strip_updates)
    ultimately show ?thesis by (simp add: sql_port_def)
  qed
  show "claim_law (jp_get sql_port) jobs_ok strip_job w dur limit (can_poll now) (poll_claimed w now dur)
          (jp_claim_poll sql_port w now dur limit)" for w dur limit now
  proof -
    have "sql_claim_poll w now dur limit = (\<lambda>d. if \<not> claim_inputs_ok w dur limit then (Inl JobInvalid, d)
        else sql_claim (sort_key (\<lambda>j. (the (jb_next j), jb_created j)))
               (\<lambda>j. jb_pjob j \<noteq> None \<and> can_poll now j) (poll_claimed w now dur) limit d)"
      by (rule ext) (simp add: sql_claim_poll_def)
    moreover have "claim_law sql_get jobs_ok strip_job w dur limit (can_poll now) (poll_claimed w now dur)
      (\<lambda>d. if \<not> claim_inputs_ok w dur limit then (Inl JobInvalid, d)
        else sql_claim (sort_key (\<lambda>j. (the (jb_next j), jb_created j)))
               (\<lambda>j. jb_pjob j \<noteq> None \<and> can_poll now j) (poll_claimed w now dur) limit d)"
    proof (rule sql_claim_law)
      show "(jb_pjob r \<noteq> None \<and> can_poll now r) = can_poll now r" if "job_sound r" for r
        using polling_pjob [OF that] by (auto simp: can_poll_def)
    qed (auto intro: poll_claimed_sound simp: strip_updates can_poll_def [of now j for j])
    ultimately show ?thesis by (simp add: sql_port_def)
  qed
qed (auto simp: sql_port_def sql_bind_def sql_reschedule_def sql_complete_def sql_reopen_law strip_updates
      intro!: sql_fenced_law)

end
