(* ===== verification/Jobs_Sessions.thy ===== *)
theory Jobs_Sessions
  imports Jobs_Port
begin

text \<open>
  What any session of any number of workers keeps, proved once over the laws of
  \<open>job_repository\<close> and therefore of both repositories: what one command can do to one job
  (\<open>job_change\<close>), that stored records stay valid, that a lease keeps every other worker out until
  it expires, and that a closed job stays closed.
\<close>

fun job_change :: "(job \<Rightarrow> job) \<Rightarrow> job_cmd \<Rightarrow> job \<Rightarrow> job \<Rightarrow> bool" where
  "job_change canon (Claim_Start w now dur limit) j j' = (can_start now j \<and> j' = canon (start_claimed w now dur j))"
| "job_change canon (Claim_Poll w now dur limit) j j' = (can_poll now j \<and> j' = canon (poll_claimed w now dur j))"
| "job_change canon (Bind_Job i p w now next) j j' =
     (jb_id j = i \<and> lease_owned j w now \<and> jb_status j = Starting \<and> j' = canon (bound p now next j))"
| "job_change canon (Reschedule i w now next) j j' =
     (jb_id j = i \<and> lease_owned j w now \<and> jb_status j = Polling \<and> j' = canon (rescheduled now next j))"
| "job_change canon (Complete i w st now res reason) j j' =
     (jb_id j = i \<and> lease_owned j w now \<and> j' = canon (completed_with st res reason now j))"
| "job_change canon (Reopen now limit) j j' = (is_missing_mapped_result j \<and> j' = reopened now j)"

lemma bound_sound:
  "job_sound j \<Longrightarrow> contract_strip p \<noteq> [] \<Longrightarrow> py_len (contract_strip p) \<le> 255 \<Longrightarrow> job_sound (bound p now next j)"
  by (auto simp: job_sound_def job_valid_def job_fields_ok_def status_contract_def strip_job_def
        bound_def text_given_def opt_len_def job_closed_def)

lemma rescheduled_sound:
  "job_sound j \<Longrightarrow> jb_status j = Polling \<Longrightarrow> job_sound (rescheduled now next j)"
  by (auto simp: job_sound_def job_valid_def job_fields_ok_def status_contract_def strip_job_def
        rescheduled_def text_given_def opt_len_def job_closed_def)

lemma completed_sound:
  "job_sound j \<Longrightarrow> cmd_ok (Complete i w st now res reason) \<Longrightarrow> job_sound (completed_with st res reason now j)"
  by (cases st)
    (auto simp: job_sound_def job_valid_def job_fields_ok_def status_contract_def strip_job_def
        completed_with_def opt_len_def json_given_def job_closed_def text_given_def split: option.splits)

lemma fenced_change:
  assumes "fenced_law get okay canon i w now cond f op" and "okay s" and "op s = (r, t)"
  shows "(get t x = get s x \<and> (\<not> is_ok r \<longrightarrow> t = s)) \<or>
         (x = i \<and> (\<exists>j j'. r = Inr j' \<and> get s i = Some j \<and> get t i = Some j' \<and> lease_owned j w now \<and> cond j \<and>
            j' = canon (f j) \<and> (job_sound j' \<longrightarrow> okay t)))"
proof -
  have law: "case r of
           Inl e \<Rightarrow> t = s \<and> (\<forall>j. get s i = Some j \<and> lease_owned j w now \<and> cond j \<longrightarrow> \<not> job_sound (f j))
         | Inr j' \<Rightarrow> (\<exists>j. get s i = Some j \<and> lease_owned j w now \<and> cond j \<and> j' = canon (f j)) \<and>
                    get t i = Some j' \<and> (\<forall>x. x \<noteq> i \<longrightarrow> get t x = get s x) \<and> (job_sound j' \<longrightarrow> okay t)"
    using assms unfolding fenced_law_def by blast
  show ?thesis
  proof (cases r)
    case (Inl e)
    with law show ?thesis by simp
  next
    case (Inr j')
    with law show ?thesis by (cases "x = i") auto
  qed
qed

lemma fenced_ok:
  assumes "fenced_law get okay canon i w now cond f op" and "okay s" and "op s = (Inr j', t)"
  shows "\<exists>j. get s i = Some j \<and> lease_owned j w now \<and> cond j \<and> j' = canon (f j) \<and> get t i = Some j' \<and>
             (job_sound j' \<longrightarrow> okay t)"
  using fenced_change [OF assms, of i] assms(1) [unfolded fenced_law_def, rule_format, OF assms(2,3)]
  by auto

lemma claim_change:
  assumes "claim_law get okay canon w dur limit cond f op" and "okay s" and "py_len (contract_strip w) \<le> 128"
    and "op s = (r, t)"
  shows "okay t \<and> (get t x = get s x \<or> (\<exists>j. get s x = Some j \<and> cond j \<and> get t x = Some (canon (f j))))"
proof (cases "claim_inputs_ok w dur limit")
  case False
  with assms show ?thesis by (auto simp: claim_law_def)
next
  case True
  from assms(1) have law: "\<forall>s. okay s \<and> claim_inputs_ok w dur limit \<and> py_len (contract_strip w) \<le> 128 \<longrightarrow>
        (\<exists>js t. op s = (Inr js, t) \<and> okay t \<and> length js \<le> limit \<and> distinct (map jb_id js) \<and>
           (\<forall>j' \<in> set js. get t (jb_id j') = Some j' \<and>
              (\<exists>j. get s (jb_id j') = Some j \<and> cond j \<and> j' = canon (f j))) \<and>
           (\<forall>i. i \<notin> jb_id ` set js \<longrightarrow> get t i = get s i) \<and>
           (length js < limit \<longrightarrow> (\<forall>i j. get s i = Some j \<and> cond j \<longrightarrow> i \<in> jb_id ` set js)))"
    unfolding claim_law_def by (rule conjunct2)
  have "okay s \<and> claim_inputs_ok w dur limit \<and> py_len (contract_strip w) \<le> 128" using assms(2,3) True by simp
  from law [rule_format, OF this] obtain js t' where js: "op s = (Inr js, t')" "okay t'"
    "\<And>j'. j' \<in> set js \<Longrightarrow> get t' (jb_id j') = Some j' \<and> (\<exists>j. get s (jb_id j') = Some j \<and> cond j \<and> j' = canon (f j))"
    "\<And>i. i \<notin> jb_id ` set js \<Longrightarrow> get t' i = get s i" by blast
  have t: "t' = t" using js(1) assms(4) by simp
  show ?thesis
  proof (cases "x \<in> jb_id ` set js")
    case True
    then obtain j' where "j' \<in> set js" "x = jb_id j'" by (elim imageE)
    with js(3) [of j'] js(2) t show ?thesis by auto
  next
    case False
    with js(2) js(4) [OF False] t show ?thesis by simp
  qed
qed

context job_repository
begin

lemma fenced_exec:
  assumes law: "fenced_law (jp_get P) okay canon i w now cond f op" and s: "okay s"
    and sound: "\<And>j. job_sound j \<Longrightarrow> cond j \<Longrightarrow> job_sound (f j)"
  shows "okay (snd (op s)) \<and> (jp_get P (snd (op s)) x = jp_get P s x \<or>
     (\<exists>j. jp_get P s x = Some j \<and> jb_id j = i \<and> lease_owned j w now \<and> cond j \<and> jp_get P (snd (op s)) x = Some (canon (f j))))"
proof -
  obtain r t where op: "op s = (r, t)" by force
  have canon_sound: "job_sound (canon y)" if "job_sound y" for y
    using canon_cases [of y] that by auto
  have "okay t"
  proof (cases r)
    case (Inl e)
    with fenced_change [OF law s op, of i] s show ?thesis by auto
  next
    case (Inr j')
    have "op s = (Inr j', t)" using op Inr by simp
    from fenced_ok [OF law s this]
    obtain j where "jp_get P s i = Some j" "cond j" "j' = canon (f j)" "job_sound j' \<longrightarrow> okay t" by blast
    with get_sound [OF s] sound canon_sound show ?thesis by blast
  qed
  moreover have "jp_get P t x = jp_get P s x \<or>
     (\<exists>j. jp_get P s x = Some j \<and> jb_id j = i \<and> lease_owned j w now \<and> cond j \<and> jp_get P t x = Some (canon (f j)))"
    using fenced_change [OF law s op, of x] get_sound [OF s] by blast
  ultimately show ?thesis by (simp add: op)
qed

lemma exec_change:
  assumes s: "okay s" and c: "cmd_ok c"
  shows "okay (snd (job_exec P s c)) \<and>
     (jp_get P (snd (job_exec P s c)) x = jp_get P s x \<or>
      (\<exists>j j'. jp_get P s x = Some j \<and> jp_get P (snd (job_exec P s c)) x = Some j' \<and> job_change canon c j j'))"
proof (cases c)
  case (Claim_Start w now dur limit)
  obtain r t where op: "jp_claim_start P w now dur limit s = (r, t)" by force
  have "py_len (contract_strip w) \<le> 128" using c Claim_Start by simp
  from claim_change [OF start_law s this op, of x] show ?thesis by (auto simp: Claim_Start op)
next
  case (Claim_Poll w now dur limit)
  obtain r t where op: "jp_claim_poll P w now dur limit s = (r, t)" by force
  have "py_len (contract_strip w) \<le> 128" using c Claim_Poll by simp
  from claim_change [OF poll_law s this op, of x] show ?thesis by (auto simp: Claim_Poll op)
next
  case (Bind_Job i p w now next')
  have "job_sound (bound p now next' j)" if "job_sound j" for j
    using that c bound_sound by (simp add: Bind_Job)
  from fenced_exec [OF bind_law s this, where x = x] show ?thesis by (auto simp: Bind_Job)
next
  case (Reschedule i w now next')
  have "job_sound (rescheduled now next' j)" if "job_sound j" "jb_status j = Polling" for j
    using that by (rule rescheduled_sound)
  from fenced_exec [OF reschedule_law s this, where x = x] show ?thesis by (auto simp: Reschedule)
next
  case (Complete i w st now res reason)
  have "job_sound (completed_with st res reason now j)" if "job_sound j" for j
    using completed_sound [OF that] c unfolding Complete .
  from fenced_exec [OF complete_law s this, where x = x] show ?thesis by (auto simp: Complete)
next
  case (Reopen now limit)
  from reopen_law [of now limit, unfolded reopen_law_def, rule_format, OF s]
  show ?thesis by (fastforce simp: Reopen)
qed

lemma session_okay:
  "okay s \<Longrightarrow> \<forall>c \<in> set cs. cmd_ok c \<Longrightarrow> okay (run_all (job_exec P) s cs)"
  by (induction cs arbitrary: s) (use exec_change in auto)

text \<open>While a lease runs, other workers' commands leave its job alone.\<close>

lemma exec_held:
  assumes "okay s" and "cmd_ok c" and "jp_get P s i = Some j" and "jb_owner j = Some w" and "jb_until j = Some e"
    and "jb_status j \<in> {Starting, Polling}" and "cmd_worker c \<noteq> Some w" and "cmd_time c < e"
  shows "jp_get P (snd (job_exec P s c)) i = Some j"
  using exec_change [OF assms(1,2), of i] assms(3-)
  by (cases c) (auto simp: can_start_def can_poll_def lease_owned_def is_missing_mapped_result_def)

lemma session_held:
  "okay s \<Longrightarrow> \<forall>c \<in> set cs. cmd_ok c \<and> cmd_worker c \<noteq> Some w \<and> cmd_time c < e \<Longrightarrow> jp_get P s i = Some j \<Longrightarrow>
   jb_owner j = Some w \<Longrightarrow> jb_until j = Some e \<Longrightarrow> jb_status j \<in> {Starting, Polling} \<Longrightarrow>
   jp_get P (run_all (job_exec P) s cs) i = Some j"
proof (induction cs arbitrary: s)
  case (Cons c cs)
  have "okay (snd (job_exec P s c))" using exec_change [OF Cons.prems(1)] Cons.prems(2) by simp
  moreover have "jp_get P (snd (job_exec P s c)) i = Some j"
    by (rule exec_held [OF Cons.prems(1)]) (use Cons.prems in auto)
  ultimately show ?case using Cons by simp
qed simp

text \<open>A closed job without a lease is only ever reopened.\<close>

lemma closed_unleased: "job_sound j \<Longrightarrow> job_closed (jb_status j) \<Longrightarrow> jb_owner j = None"
  by (auto simp: job_sound_def job_valid_def status_contract_def strip_job_def)

lemma exec_closed:
  assumes "okay s" and "cmd_ok c" and "jp_get P s i = Some j" and "job_closed (jb_status j)" and "\<not> is_missing_mapped_result j"
  shows "jp_get P (snd (job_exec P s c)) i = Some j"
  using exec_change [OF assms(1,2), of i] assms(3-) get_sound [OF assms(1,3)] closed_unleased [of j]
  by (cases c) (auto simp: can_start_def can_poll_def lease_owned_def job_closed_def)

lemma session_closed:
  "okay s \<Longrightarrow> \<forall>c \<in> set cs. cmd_ok c \<Longrightarrow> jp_get P s i = Some j \<Longrightarrow> job_closed (jb_status j) \<Longrightarrow>
   \<not> is_missing_mapped_result j \<Longrightarrow> jp_get P (run_all (job_exec P) s cs) i = Some j"
proof (induction cs arbitrary: s)
  case (Cons c cs)
  have "okay (snd (job_exec P s c))" using exec_change [OF Cons.prems(1)] Cons.prems(2) by simp
  moreover have "jp_get P (snd (job_exec P s c)) i = Some j"
    by (rule exec_closed [OF Cons.prems(1)]) (use Cons.prems in auto)
  ultimately show ?case using Cons by simp
qed simp

end

end
