(* ===== verification/Job_Projector.thy ===== *)
theory Job_Projector
  imports Json
begin

text \<open>
  \<^verbatim>\<open>generation_jobs/projector.py\<close>: the workspace patch of a closed generation job. A
  payload is a JSON object; \<open>R\<close> is \<^verbatim>\<open>repr\<close> of floats and containers (only reached when
  an identity field of the payload is not a string), \<open>U\<close> is
  \<^verbatim>\<open>canonical_provider_media_url\<close>, \<open>now\<close> the text of \<^verbatim>\<open>now.isoformat()\<close>.
  A patch is \<open>None\<close> when the projection finds nothing to change. The success projections
  read some fields without a type check, so a malformed payload makes Python raise: the results of
  these are of type \<open>py\<close>, with \<open>Inl ()\<close> for any exception.
\<close>

section \<open>Python's reading of loosely typed values\<close>

type_synonym 'a py = "unit + 'a"

definition py_str :: "(json \<Rightarrow> string) \<Rightarrow> json \<Rightarrow> string" where
  "py_str R j = (case j of JStr s \<Rightarrow> s | JInt i \<Rightarrow> show_int i | JBool b \<Rightarrow> if b then ''True'' else ''False''
                 | JNull \<Rightarrow> ''None'' | _ \<Rightarrow> R j)"

text \<open>\<^verbatim>\<open>str(x or "")\<close>.\<close>

definition str_or_empty :: "(json \<Rightarrow> string) \<Rightarrow> json \<Rightarrow> string" where
  "str_or_empty R j = (if truthy j then py_str R j else [])"

text \<open>
  \<^verbatim>\<open>for x in value\<close>: a list yields its items, a text its characters, a dictionary its
  keys; any other value raises. \<^verbatim>\<open>d.get(k, [])\<close> falls back only when the key is
  absent, so a stored null is iterated and raises.
\<close>

fun code_points :: "string \<Rightarrow> string list" where
  "code_points [] = []"
| "code_points (c # s) =
     (case code_points s of
        [] \<Rightarrow> [[c]]
      | p # ps \<Rightarrow> if is_continuation (hd p) then (c # p) # ps else [c] # p # ps)"

fun py_iter :: "json \<Rightarrow> json list py" where
  "py_iter (JList xs) = Inr xs"
| "py_iter (JStr s) = Inr (map JStr (code_points s))"
| "py_iter (JObj kvs) = Inr (map (\<lambda>(k, _). JStr k) kvs)"
| "py_iter j = Inl ()"

fun get_iter :: "string \<Rightarrow> json \<Rightarrow> json list py" where
  "get_iter k (JObj kvs) = (case map_of kvs k of None \<Rightarrow> Inr [] | Some v \<Rightarrow> py_iter v)"
| "get_iter k j = Inl ()"

text \<open>A set lookup hashes its key: lists and dictionaries raise.\<close>

definition hashable :: "json \<Rightarrow> bool" where
  "hashable j \<longleftrightarrow> \<not> is_jlist j \<and> \<not> is_obj j"

fun py_map :: "('a \<Rightarrow> 'b py) \<Rightarrow> 'a list \<Rightarrow> 'b list py" where
  "py_map f [] = Inr []"
| "py_map f (x # xs) = bind_result (f x) (\<lambda>y. bind_result (py_map f xs) (\<lambda>ys. Inr (y # ys)))"

lemma py_map_Inr: "py_map f xs = Inr ys \<Longrightarrow> list_all2 (\<lambda>x y. f x = Inr y) xs ys"
  by (induction xs arbitrary: ys) (auto simp: bind_result_Inr_iff)

lemma py_map_from: "py_map f xs = Inr ys \<Longrightarrow> y \<in> set ys \<Longrightarrow> \<exists>x \<in> set xs. f x = Inr y"
  by (induction xs arbitrary: ys) (auto simp: bind_result_Inr_iff)

lemma py_map_into: "py_map f xs = Inr ys \<Longrightarrow> x \<in> set xs \<Longrightarrow> \<exists>y \<in> set ys. f x = Inr y"
  by (induction xs arbitrary: ys) (auto simp: bind_result_Inr_iff)

text \<open>\<^verbatim>\<open>{**d, ...}\<close>: later keys overwrite in place or are appended.\<close>

definition jputs :: "(string \<times> json) list \<Rightarrow> json \<Rightarrow> json" where
  "jputs kvs j = fold (\<lambda>(k, v). jput k v) kvs j"

definition jdels :: "string list \<Rightarrow> json \<Rightarrow> json" where
  "jdels ks j = fold jdel ks j"

lemma jputs_Cons: "jputs ((k, v) # kvs) j = jputs kvs (jput k v j)"
  by (simp add: jputs_def)

lemma jputs_Nil: "jputs [] j = j"
  by (simp add: jputs_def)

lemma is_obj_jputs [simp]: "is_obj (jputs kvs j) = is_obj j"
proof (induction kvs arbitrary: j)
  case (Cons kv kvs)
  then show ?case by (cases kv) (simp add: jputs_Cons)
qed (simp add: jputs_Nil)

lemma is_obj_jdels [simp]: "is_obj (jdels ks j) = is_obj j"
  by (induction ks arbitrary: j) (auto simp: jdels_def)

lemma jget_jputs:
  "is_obj j \<Longrightarrow> jget k (jputs kvs j) = (case map_of (rev kvs) k of Some v \<Rightarrow> v | None \<Rightarrow> jget k j)"
proof (induction kvs arbitrary: j)
  case Nil
  then show ?case by (simp add: jputs_Nil)
next
  case (Cons kv kvs)
  obtain k' v' where kv: "kv = (k', v')" by force
  have "is_obj (jput k' v' j)" using Cons.prems by simp
  from Cons.IH [OF this] have
    "jget k (jputs kvs (jput k' v' j)) = (case map_of (rev kvs) k of Some v \<Rightarrow> v | None \<Rightarrow> jget k (jput k' v' j))" .
  moreover have "jget k (jput k' v' j) = (if k = k' then v' else jget k j)"
    using Cons.prems by (rule jget_jput)
  ultimately show ?case
    unfolding kv jputs_Cons by (simp add: map_add_def split: option.split)
qed

lemma jget_jdels: "is_obj j \<Longrightarrow> jget k (jdels ks j) = (if k \<in> set ks then JNull else jget k j)"
proof (induction ks arbitrary: j)
  case (Cons k' ks)
  have "is_obj (jdel k' j)" using Cons.prems by simp
  from Cons.IH [OF this] show ?case
    using jget_jdel [OF Cons.prems, of k k'] by (cases "k = k'") (simp_all add: jdels_def)
qed (simp add: jdels_def)

section \<open>Images\<close>

definition asset_hit :: "(json \<Rightarrow> string) \<Rightarrow> string \<Rightarrow> json \<Rightarrow> bool" where
  "asset_hit R aid item \<longleftrightarrow> is_obj item \<and> py_strip (str_or_empty R (jget ''asset_id'' item)) = aid"

text \<open>
  The loop over the registry: an asset of that id that was not planned for generation ends the
  projection, the others are rewritten by \<open>f\<close>; the flag says whether any was.
\<close>

fun rewrite_assets ::
  "(json \<Rightarrow> string) \<Rightarrow> string \<Rightarrow> (json \<Rightarrow> json) \<Rightarrow> json list \<Rightarrow> (json list \<times> bool) option" where
  "rewrite_assets R aid f [] = Some ([], False)"
| "rewrite_assets R aid f (x # xs) =
     (if \<not> asset_hit R aid x then map_option (\<lambda>(ys, c). (x # ys, c)) (rewrite_assets R aid f xs)
      else if jget ''origin'' x \<noteq> JStr ''planned_generation'' then None
      else map_option (\<lambda>(ys, c). (f x # ys, True)) (rewrite_assets R aid f xs))"

definition asset_patch ::
  "(json \<Rightarrow> string) \<Rightarrow> string \<Rightarrow> (json \<Rightarrow> json) \<Rightarrow> json \<Rightarrow> json option" where
  "asset_patch R aid f payload =
     (case jget ''asset_registry'' payload of
        JList xs \<Rightarrow> (case rewrite_assets R aid f xs of
                       None \<Rightarrow> None
                     | Some (ys, c) \<Rightarrow> if c then Some (JObj [(''asset_registry'', JList ys)]) else None)
      | _ \<Rightarrow> None)"

definition image_ready :: "string \<Rightarrow> string \<Rightarrow> string \<Rightarrow> json \<Rightarrow> json" where
  "image_ready url ref now item =
     jdels [''failure_status'', ''failure_reason_code'', ''failed_at'']
       (jputs [(''state'', JStr ''ready''), (''usable_for_video'', JBool True),
               (''provider_artifact_ref'', JStr ref), (''image_url'', JStr url),
               (''completed_at'', JStr now), (''generation_job_status'', JStr ''succeeded'')] item)"

definition build_image_asset_success_patch ::
  "(json \<Rightarrow> string) \<Rightarrow> (string \<Rightarrow> string option py) \<Rightarrow> json \<Rightarrow> string \<Rightarrow> json \<Rightarrow> string
     \<Rightarrow> json option py" where
  "build_image_asset_success_patch R U payload aid result now =
     (let ref = py_strip (str_or_empty R (jget ''artifact_ref'' result)) in
      case U (str_or_empty R (jget ''image_url'' result)) of
        Inl _ \<Rightarrow> Inl ()
      | Inr None \<Rightarrow> Inr None
      | Inr (Some url) \<Rightarrow>
          Inr (if \<not> starts_with ''artifact:'' ref then None
               else asset_patch R aid (image_ready url ref now) payload))"

definition image_failed :: "string \<Rightarrow> string option \<Rightarrow> string \<Rightarrow> json \<Rightarrow> json" where
  "image_failed st reason now item =
     jputs [(''state'', JStr ''failed''), (''usable_for_video'', JBool False), (''failure_status'', JStr st),
            (''failure_reason_code'', JStr (py_take 128 (case reason of
                None \<Rightarrow> ''provider_failed'' | Some r \<Rightarrow> if r = [] then ''provider_failed'' else r))),
            (''failed_at'', JStr now), (''generation_job_status'', JStr st)] item"

definition build_image_asset_failure_patch ::
  "(json \<Rightarrow> string) \<Rightarrow> json \<Rightarrow> string \<Rightarrow> string \<Rightarrow> string option \<Rightarrow> string \<Rightarrow> json option" where
  "build_image_asset_failure_patch R payload aid st reason now =
     asset_patch R aid (image_failed st reason now) payload"

section \<open>Scenes\<close>

definition job_hit :: "(json \<Rightarrow> string) \<Rightarrow> string \<Rightarrow> json \<Rightarrow> bool" where
  "job_hit R jid item \<longleftrightarrow> is_obj item \<and> str_or_empty R (jget ''job_id'' item) = jid"

definition scene_hit :: "(json \<Rightarrow> string) \<Rightarrow> string \<Rightarrow> json \<Rightarrow> bool" where
  "scene_hit R jid sc \<longleftrightarrow> is_obj sc \<and> is_jlist (jget ''generation_jobs'' sc) \<and>
     list_ex (job_hit R jid) (items_of (jget ''generation_jobs'' sc))"

definition scene_failed_text :: string where
  "scene_failed_text = [CHR 0xE9, CHR 0x87, CHR 0x8D, CHR 0xE6, CHR 0x96, CHR 0xB0, CHR 0xE7, CHR 0x94, CHR 0x9F,
     CHR 0xE6, CHR 0x88, CHR 0x90, CHR 0xE5, CHR 0xA4, CHR 0xB1, CHR 0xE8, CHR 0xB4, CHR 0xA5]"

definition scene_done_text :: string where
  "scene_done_text = [CHR 0xE9, CHR 0x87, CHR 0x8D, CHR 0xE6, CHR 0x96, CHR 0xB0, CHR 0xE7, CHR 0x94, CHR 0x9F,
     CHR 0xE6, CHR 0x88, CHR 0x90, CHR 0xE5, CHR 0xAE, CHR 0x8C, CHR 0xE6, CHR 0x88, CHR 0x90]"

definition scene_review_text :: string where
  "scene_review_text = [CHR 0xE7, CHR 0xAD, CHR 0x89, CHR 0xE5, CHR 0xBE, CHR 0x85, CHR 0xE7, CHR 0x89, CHR 0x88,
     CHR 0xE6, CHR 0x9C, CHR 0xAC, CHR 0xE5, CHR 0xAE, CHR 0xA1, CHR 0xE6, CHR 0xA0, CHR 0xB8]"

definition job_error_text :: string where
  "job_error_text = [CHR 0xE7, CHR 0x94, CHR 0x9F, CHR 0xE6, CHR 0x88, CHR 0x90, CHR 0xE4, CHR 0xBB, CHR 0xBB,
     CHR 0xE5, CHR 0x8A, CHR 0xA1, CHR 0xE6, CHR 0x89, CHR 0xA7, CHR 0xE8, CHR 0xA1, CHR 0x8C, CHR 0xE5,
     CHR 0xA4, CHR 0xB1, CHR 0xE8, CHR 0xB4, CHR 0xA5]"

definition job_failed :: "string \<Rightarrow> string option \<Rightarrow> string \<Rightarrow> json \<Rightarrow> json" where
  "job_failed st reason now item =
     jputs [(''status'', JStr st), (''error'', JStr job_error_text),
            (''reason_code'', JStr (case reason of
                None \<Rightarrow> ''provider_failed'' | Some r \<Rightarrow> if r = [] then ''provider_failed'' else r)),
            (''completed_at'', JStr now)] item"

definition rewrite_jobs :: "(json \<Rightarrow> string) \<Rightarrow> string \<Rightarrow> (json \<Rightarrow> json) \<Rightarrow> json list \<Rightarrow> json list" where
  "rewrite_jobs R jid f js = map (\<lambda>x. if job_hit R jid x then f x else x) js"

definition scene_with_failure ::
  "(json \<Rightarrow> string) \<Rightarrow> string \<Rightarrow> string \<Rightarrow> string option \<Rightarrow> string \<Rightarrow> json \<Rightarrow> json" where
  "scene_with_failure R jid st reason now sc =
     (if scene_hit R jid sc
      then jputs [(''generation_jobs'',
                   JList (rewrite_jobs R jid (job_failed st reason now) (items_of (jget ''generation_jobs'' sc)))),
                  (''edit_status'', JStr scene_failed_text)] sc
      else sc)"

definition build_scene_generation_failure_patch ::
  "(json \<Rightarrow> string) \<Rightarrow> json \<Rightarrow> string \<Rightarrow> string \<Rightarrow> string option \<Rightarrow> string \<Rightarrow> json option" where
  "build_scene_generation_failure_patch R payload jid st reason now =
     (case jget ''scenes'' payload of
        JList scs \<Rightarrow>
          if \<not> list_ex (scene_hit R jid) scs then None
          else let hits = filter (scene_hit R jid) (map (scene_with_failure R jid st reason now) scs)
               in Some (JObj [(''scenes'', JList hits), (''scene_packages'', JList hits)])
      | _ \<Rightarrow> None)"

definition job_succeeded ::
  "(json \<Rightarrow> string) \<Rightarrow> string \<Rightarrow> string \<Rightarrow> string \<Rightarrow> json \<Rightarrow> string \<Rightarrow> json \<Rightarrow> json" where
  "job_succeeded R vid ref url result now item =
     jputs [(''status'', JStr ''succeeded''), (''variant_id'', JStr vid), (''artifact_ref'', JStr ref),
            (''video_url'', JStr url),
            (''completed_at'', JStr (if truthy (jget ''completed_at'' result)
                                     then py_str R (jget ''completed_at'' result) else now))] item"

text \<open>The jobs judged together: those of the same plan step, or the job alone.\<close>

definition cohort :: "(json \<Rightarrow> string) \<Rightarrow> string \<Rightarrow> string \<Rightarrow> json list \<Rightarrow> json list" where
  "cohort R jid step js =
     filter (\<lambda>x. is_obj x \<and> ((step \<noteq> [] \<and> str_or_empty R (jget ''plan_step_id'' x) = step) \<or>
                              (step = [] \<and> str_or_empty R (jget ''job_id'' x) = jid))) js"

definition variant_entry ::
  "(json \<Rightarrow> string) \<Rightarrow> string \<Rightarrow> string \<Rightarrow> string \<Rightarrow> json \<Rightarrow> string \<Rightarrow> string \<Rightarrow> bool \<Rightarrow> json" where
  "variant_entry R vid ref url result now jid single =
     JObj [(''variant_id'', JStr vid), (''artifact_ref'', JStr ref), (''video_url'', JStr url),
           (''selected'', JBool single), (''review_status'', JStr (if single then ''approved'' else ''pending'')),
           (''completed_at'', JStr (if truthy (jget ''completed_at'' result)
                                    then py_str R (jget ''completed_at'' result) else now)),
           (''source_job_id'', JStr jid)]"

definition updated_scene ::
  "(json \<Rightarrow> string) \<Rightarrow> string \<Rightarrow> string \<Rightarrow> string \<Rightarrow> string \<Rightarrow> json \<Rightarrow> string \<Rightarrow> json list \<Rightarrow> json \<Rightarrow> json" where
  "updated_scene R jid vid ref url result now old sc =
       (let jobs = rewrite_jobs R jid (job_succeeded R vid ref url result now) (items_of (jget ''generation_jobs'' sc));
            vs = (if list_ex (\<lambda>x. str_or_empty R (jget ''variant_id'' x) = vid) old then old
                  else old @ [variant_entry R vid ref url result now jid (length jobs = 1)]);
            step = (case List.find (job_hit R jid) jobs of
                      None \<Rightarrow> [] | Some x \<Rightarrow> py_strip (str_or_empty R (jget ''plan_step_id'' x)));
            coh = cohort R jid step jobs;
            all_done = (coh \<noteq> [] \<and> list_all (\<lambda>x. jget ''status'' x = JStr ''succeeded'') coh);
            sc1 = jputs [(''generation_jobs'', JList jobs), (''variants'', JList vs),
                         (''edit_status'', JStr (if all_done then scene_done_text else scene_review_text))] sc
        in if all_done \<and> length coh = 1
           then jputs [(''approved_variant_id'', JStr vid), (''video_url'', JStr url)] sc1 else sc1)"

definition scene_with_success ::
  "(json \<Rightarrow> string) \<Rightarrow> string \<Rightarrow> string \<Rightarrow> string \<Rightarrow> string \<Rightarrow> json \<Rightarrow> string \<Rightarrow> json \<Rightarrow> json py" where
  "scene_with_success R jid vid ref url result now sc =
     (if \<not> scene_hit R jid sc then Inr sc
      else bind_result (get_iter ''variants'' sc) (\<lambda>vs.
        Inr (updated_scene R jid vid ref url result now (filter is_obj vs) sc)))"

definition open_job_status :: "json \<Rightarrow> bool" where
  "open_job_status st \<longleftrightarrow> st \<in> {JStr ''queued'', JStr ''starting'', JStr ''polling''}"

definition scene_jobs :: "json \<Rightarrow> json list" where
  "scene_jobs sc = (if is_obj sc then items_of (jget ''generation_jobs'' sc) else [])"

text \<open>The count of closed jobs iterates the jobs of every object scene, whatever they are.\<close>

definition count_closed :: "json list \<Rightarrow> nat py" where
  "count_closed scs =
     bind_result (py_map (get_iter ''generation_jobs'') (filter is_obj scs)) (\<lambda>jss.
       let js = filter is_obj (concat jss) in
       if \<not> list_all (\<lambda>x. hashable (jget ''status'' x)) js then Inl ()
       else Inr (length (filter (\<lambda>x. \<not> open_job_status (jget ''status'' x)) js)))"

definition dirty_scene_ids :: "(json \<Rightarrow> string) \<Rightarrow> json \<Rightarrow> json \<Rightarrow> json list py" where
  "dirty_scene_ids R payload target =
     (let tid = str_or_empty R (jget ''scene_id'' target) in
      if is_jlist (jget ''dirty_scene_ids'' payload) \<and> jget ''edit_status'' target = JStr scene_done_text
      then Inr (map (\<lambda>x. JStr (py_str R x))
                 (filter (\<lambda>x. py_str R x \<noteq> tid) (items_of (jget ''dirty_scene_ids'' payload))))
      else get_iter ''dirty_scene_ids'' payload)"

definition success_patch :: "(json \<Rightarrow> string) \<Rightarrow> json \<Rightarrow> json list \<Rightarrow> json \<Rightarrow> json py" where
  "success_patch R payload nexts target =
     bind_result (dirty_scene_ids R payload target) (\<lambda>dirty.
     bind_result (count_closed nexts) (\<lambda>done.
       let total = length (concat (map scene_jobs nexts));
           tid = str_or_empty R (jget ''scene_id'' target)
       in Inr (JObj
            [(''scenes'', JList [target]), (''scene_packages'', JList [target]),
             (''dirty_scene_ids'', JList dirty),
             (''scene_video_progress'', JObj
                [(''completed'', JInt (int done)), (''total'', JInt (int total)), (''scene_id'', JStr tid),
                 (''scene_index'', jget ''scene_index'' target),
                 (''ok'', JBool (total \<le> done \<and> 0 < total))])])))"

definition build_scene_generation_success_patch ::
  "(json \<Rightarrow> string) \<Rightarrow> (string \<Rightarrow> string option py) \<Rightarrow> json \<Rightarrow> string \<Rightarrow> json \<Rightarrow> string
     \<Rightarrow> json option py" where
  "build_scene_generation_success_patch R U payload jid result now =
     (let vid = py_strip (str_or_empty R (jget ''variant_id'' result));
          ref = py_strip (str_or_empty R (jget ''artifact_ref'' result)) in
      case U (str_or_empty R (jget ''video_url'' result)) of
        Inl _ \<Rightarrow> Inl ()
      | Inr None \<Rightarrow> Inr None
      | Inr (Some url) \<Rightarrow>
          if vid = [] \<or> \<not> starts_with ''artifact:'' ref then Inr None
          else case jget ''scenes'' payload of
            JList scs \<Rightarrow>
              bind_result (py_map (scene_with_success R jid vid ref url result now) scs) (\<lambda>nexts.
                let hits = filter (scene_hit R jid) nexts in
                if hits = [] then Inr None
                else bind_result (success_patch R payload nexts (last hits)) (\<lambda>p. Inr (Some p)))
          | _ \<Rightarrow> Inr None)"

text \<open>
  \<^verbatim>\<open>job.get("plan_step_id") not in {None, plan_step_id}\<close> and the test of the status hash
  what they look up.
\<close>

definition step_fits :: "string option \<Rightarrow> json \<Rightarrow> bool py" where
  "step_fits step x =
     (case step of
        None \<Rightarrow> Inr True
      | Some st \<Rightarrow> if st = [] then Inr True
                   else if \<not> hashable (jget ''plan_step_id'' x) then Inl ()
                   else Inr (jget ''plan_step_id'' x \<in> {JNull, JStr st}))"

definition counts_as_polling :: "string option \<Rightarrow> json \<Rightarrow> bool py" where
  "counts_as_polling step x =
     (if \<not> is_obj x then Inr False
      else bind_result (step_fits step x) (\<lambda>fits.
        if \<not> fits then Inr False
        else if \<not> hashable (jget ''status'' x) then Inl ()
        else Inr (open_job_status (jget ''status'' x))))"

definition count_polling_scene_generation_jobs :: "json \<Rightarrow> string option \<Rightarrow> nat py" where
  "count_polling_scene_generation_jobs payload step =
     bind_result (py_map (counts_as_polling step) (concat (map scene_jobs (items_of (jget ''scenes'' payload)))))
       (\<lambda>flags. Inr (length (filter (\<lambda>b. b) flags)))"

section \<open>What a patch changes\<close>

lemma rewrite_assets_map:
  "rewrite_assets R aid f xs = Some (ys, c) \<Longrightarrow>
   ys = map (\<lambda>x. if asset_hit R aid x then f x else x) xs \<and> c = list_ex (asset_hit R aid) xs \<and>
   (\<forall>x \<in> set xs. asset_hit R aid x \<longrightarrow> jget ''origin'' x = JStr ''planned_generation'')"
  by (induction xs arbitrary: ys c) (auto split: if_splits)

lemma rewrite_assets_total:
  "\<forall>x \<in> set xs. asset_hit R aid x \<longrightarrow> jget ''origin'' x = JStr ''planned_generation'' \<Longrightarrow>
   rewrite_assets R aid f xs = Some (map (\<lambda>x. if asset_hit R aid x then f x else x) xs, list_ex (asset_hit R aid) xs)"
  by (induction xs) auto

lemma asset_patch_Some:
  "asset_patch R aid f payload = Some p \<longleftrightarrow>
   (\<exists>xs. jget ''asset_registry'' payload = JList xs \<and> list_ex (asset_hit R aid) xs \<and>
     (\<forall>x \<in> set xs. asset_hit R aid x \<longrightarrow> jget ''origin'' x = JStr ''planned_generation'') \<and>
     p = JObj [(''asset_registry'', JList (map (\<lambda>x. if asset_hit R aid x then f x else x) xs))])"
  by (auto simp: asset_patch_def rewrite_assets_total split: json.splits option.splits if_splits
      dest!: rewrite_assets_map)

lemma jputs_hit: "\<forall>kv \<in> set kvs. fst kv \<noteq> ''job_id'' \<Longrightarrow> job_hit R jid (jputs kvs x) = job_hit R jid x"
proof (cases "is_obj x")
  case True
  assume "\<forall>kv \<in> set kvs. fst kv \<noteq> ''job_id''"
  then have "map_of (rev kvs) ''job_id'' = None" by (auto simp: map_of_eq_None_iff)
  with True show ?thesis by (simp add: job_hit_def jget_jputs)
qed (simp add: job_hit_def)

lemma job_hit_updates [simp]:
  "job_hit R jid (job_failed st reason now x) = job_hit R jid x"
  "job_hit R jid (job_succeeded R' vid ref url result now x) = job_hit R jid x"
  unfolding job_failed_def job_succeeded_def by (rule jputs_hit; simp)+

lemma rewrite_jobs_hit:
  "(\<And>x. job_hit R jid (f x) = job_hit R jid x) \<Longrightarrow>
   list_ex (job_hit R jid) (rewrite_jobs R jid f js) = list_ex (job_hit R jid) js"
  by (auto simp: rewrite_jobs_def list_ex_iff)

lemma scene_failure_jobs:
  "scene_hit R jid sc \<Longrightarrow>
   jget ''generation_jobs'' (scene_with_failure R jid st reason now sc) =
     JList (rewrite_jobs R jid (job_failed st reason now) (items_of (jget ''generation_jobs'' sc)))"
  by (simp add: scene_with_failure_def scene_hit_def jget_jputs)

lemma scene_failure_hit [simp]:
  "scene_hit R jid (scene_with_failure R jid st reason now sc) = scene_hit R jid sc"
proof (cases "scene_hit R jid sc")
  case True
  then have "is_obj (scene_with_failure R jid st reason now sc)"
    by (simp add: scene_with_failure_def scene_hit_def)
  with True show ?thesis
    using scene_failure_jobs [OF True, of st reason now]
    by (simp add: scene_hit_def [of R jid "scene_with_failure R jid st reason now sc"] rewrite_jobs_hit)
      (simp add: scene_hit_def)
qed (simp add: scene_with_failure_def)

lemma updated_scene_jobs:
  assumes "scene_hit R jid sc"
  shows "jget ''generation_jobs'' (updated_scene R jid vid ref url result now old sc) =
     JList (rewrite_jobs R jid (job_succeeded R vid ref url result now) (items_of (jget ''generation_jobs'' sc)))"
  using assms by (simp add: updated_scene_def Let_def scene_hit_def jget_jputs)

lemma updated_scene_obj [simp]: "is_obj (updated_scene R jid vid ref url result now old sc) = is_obj sc"
  by (simp add: updated_scene_def Let_def)

lemma updated_scene_hit:
  assumes "scene_hit R jid sc"
  shows "scene_hit R jid (updated_scene R jid vid ref url result now old sc)"
  using updated_scene_jobs [OF assms, of vid ref url result now old] assms
  by (simp add: scene_hit_def [of R jid "updated_scene R jid vid ref url result now old sc"] rewrite_jobs_hit)
    (simp add: scene_hit_def)

text \<open>A scene the success projection rewrote mentions the job exactly when it did before.\<close>

lemma scene_success_cases:
  assumes "scene_with_success R jid vid ref url result now sc = Inr new"
  obtains "\<not> scene_hit R jid sc" and "new = sc"
  | vs where "scene_hit R jid sc" and "get_iter ''variants'' sc = Inr vs" and "scene_hit R jid new"
      and "new = updated_scene R jid vid ref url result now (filter is_obj vs) sc"
  using assms updated_scene_hit
  by (auto simp: scene_with_success_def bind_result_Inr_iff split: if_splits)

end
