(* ===== verification/Workspace_Port.thy ===== *)
theory Workspace_Port
  imports Json
begin

text \<open>
  What the job worker and the tool executor use of a workspace repository: reading a workspace and
  applying a patch under a revision check (\<open>wp_apply\<close> gives False for a revision conflict), and
  \<^verbatim>\<open>workspace_mutation.py\<close>, the write path of the tools. Other writers may act before each
  attempt (\<open>envs\<close>).
\<close>

record ws_view =
  wv_conv :: string
  wv_revision :: nat
  wv_payload :: json

record 'w ws_port =
  wp_get :: "'w \<Rightarrow> string \<Rightarrow> string \<Rightarrow> ws_view option"
  wp_apply :: "string \<Rightarrow> string \<Rightarrow> json \<Rightarrow> nat \<Rightarrow> time \<Rightarrow> 'w \<Rightarrow> bool \<times> 'w"

text \<open>
  \<^verbatim>\<open>apply_tool_patch\<close>: at most as many attempts as \<open>envs\<close> has entries, each with the revision
  read after the previous conflict; a workspace that is gone ends the attempts.
\<close>

fun apply_tool_patch ::
  "'w ws_port \<Rightarrow> string \<Rightarrow> string \<Rightarrow> json \<Rightarrow> time \<Rightarrow> nat \<Rightarrow> ('w \<Rightarrow> 'w) list \<Rightarrow> 'w \<Rightarrow> bool \<times> 'w" where
  "apply_tool_patch W user ws patch now rv [] w = (False, w)"
| "apply_tool_patch W user ws patch now rv (env # envs) w =
     (case wp_apply W user ws patch rv now (env w) of
        (True, w') \<Rightarrow> (True, w')
      | (False, w') \<Rightarrow>
          (case wp_get W w' user ws of
             None \<Rightarrow> (False, w')
           | Some v \<Rightarrow> apply_tool_patch W user ws patch now (wv_revision v) envs w'))"

end
