(* ===== verification/Jobs_Worker.thy ===== *)
theory Jobs_Worker
  imports Jobs_Sessions Job_Projector Workspace_Port
begin

text \<open>
  \<^verbatim>\<open>generation_jobs/worker.py\<close> and \<^verbatim>\<open>credentials.py\<close>: one pass of the
  worker over the jobs it claims. The worker is written over a \<open>job_port\<close>, as the code is
  over the Protocol, so its lemmas are proved once in \<open>job_repository\<close>; the workspace
  repository is a port too. The provider is an environment: its answer to the one call a job makes is
  an argument (\<open>reply\<close>). \<open>now\<close> is the clock when that answer is processed. The jobs of a
  pass run concurrently but touch disjoint jobs; the model runs them one after the other, in any
  order the caller gives.
\<close>

section \<open>Credentials\<close>

record cred_store =
  cs_ttl :: time
  cs_values :: "(string, string \<times> time) dict"

definition drop_expired :: "time \<Rightarrow> cred_store \<Rightarrow> cred_store" where
  "drop_expired now c = c\<lparr>cs_values := filter (\<lambda>(_, _, e). now < e) (cs_values c)\<rparr>"

definition cred_put :: "time \<Rightarrow> string \<Rightarrow> string \<Rightarrow> cred_store \<Rightarrow> (unit + unit) \<times> cred_store" where
  "cred_put now i auth c =
     (if \<not> starts_with ''generation-job-'' i \<or> py_strip auth = [] then (Inl (), c)
      else (Inr (), drop_expired now
              (c\<lparr>cs_values := AList.delete i (cs_values c) @ [(i, py_strip auth, now + cs_ttl c)]\<rparr>)))"

definition cred_get :: "time \<Rightarrow> string \<Rightarrow> cred_store \<Rightarrow> string option \<times> cred_store" where
  "cred_get now i c =
     (let c' = drop_expired now c in (map_option fst (map_of (cs_values c') i), c'))"

definition cred_discard :: "string \<Rightarrow> cred_store \<Rightarrow> cred_store" where
  "cred_discard i c = c\<lparr>cs_values := AList.delete i (cs_values c)\<rparr>"

definition cred_close :: "cred_store \<Rightarrow> cred_store" where
  "cred_close c = c\<lparr>cs_values := []\<rparr>"

section \<open>The provider\<close>

datatype outcome = Out_Polling | Out_Succeeded | Out_Failed | Out_Paused_Quota | Out_Timeout | Out_Expired

record snapshot =
  sn_pjob :: "string option"
  sn_outcome :: outcome
  sn_result :: json
  sn_reason :: string

datatype reply = Snapshot snapshot | Mapping_Error string | Raised

record worker =
  wk_id :: string
  wk_lease :: time
  wk_poll :: time
  wk_image :: bool
  wk_video :: bool

text \<open>What the projection needs of Python: \<^verbatim>\<open>repr\<close>, the media address, the clock text.\<close>

record texts =
  tx_repr :: "json \<Rightarrow> string"
  tx_url :: "string \<Rightarrow> string option py"
  tx_iso :: "time \<Rightarrow> string"

record ('s, 'w) world =
  wd_jobs :: 's
  wd_creds :: cred_store
  wd_ws :: 'w

definition worker_ok :: "worker \<Rightarrow> bool" where
  "worker_ok k \<longleftrightarrow> py_strip (wk_id k) = wk_id k \<and> wk_id k \<noteq> [] \<and> py_len (wk_id k) \<le> 128 \<and>
     0 < wk_lease k \<and> 0 < wk_poll k"

definition provider_given :: "worker \<Rightarrow> job_kind \<Rightarrow> bool" where
  "provider_given k kind = (case kind of Image \<Rightarrow> wk_image k | Video \<Rightarrow> wk_video k)"

section \<open>Projection\<close>

definition workspace_patch :: "texts \<Rightarrow> job \<Rightarrow> json \<Rightarrow> time \<Rightarrow> json option py" where
  "workspace_patch T j payload now =
     (let result = (case jb_result j of None \<Rightarrow> JObj [] | Some r \<Rightarrow> if truthy r then r else JObj []) in
      if jb_kind j = Image then
        (if jb_status j = Succeeded
         then build_image_asset_success_patch (tx_repr T) (tx_url T) payload (jb_item j) result (tx_iso T now)
         else Inr (build_image_asset_failure_patch (tx_repr T) payload (jb_item j) (job_status_text (jb_status j))
                (jb_reason j) (tx_iso T now)))
      else if jb_status j = Succeeded
      then build_scene_generation_success_patch (tx_repr T) (tx_url T) payload (jb_id j) result (tx_iso T now)
      else Inr (build_scene_generation_failure_patch (tx_repr T) payload (jb_id j) (job_status_text (jb_status j))
             (jb_reason j) (tx_iso T now)))"

text \<open>
  \<^verbatim>\<open>_project\<close>: up to three attempts. Between reading the workspace and applying the
  patch other writers may run (\<open>Others env\<close>); a rejected patch is rebuilt from the new workspace.
  Only the application of the patch is inside the \<^verbatim>\<open>try\<close>: an exception of the read
  (\<open>Read_Fails\<close>) or of the patch builders leaves \<^verbatim>\<open>_project\<close>, which is then \<open>Inl ()\<close>.
\<close>

datatype 'w attempt = Read_Fails | Others "'w \<Rightarrow> 'w"

type_synonym 'w envs = "'w attempt \<times> 'w attempt \<times> 'w attempt"

fun project_tries :: "texts \<Rightarrow> 'w ws_port \<Rightarrow> time \<Rightarrow> job \<Rightarrow> 'w attempt list \<Rightarrow> 'w \<Rightarrow> (unit + unit) \<times> 'w" where
  "project_tries T W now j [] w = (Inr (), w)"
| "project_tries T W now j (Read_Fails # envs) w = (Inl (), w)"
| "project_tries T W now j (Others env # envs) w =
     (case wp_get W w (jb_user j) (jb_ws j) of
        None \<Rightarrow> (Inr (), w)
      | Some v \<Rightarrow>
          if wv_conv v \<noteq> jb_conv j then (Inr (), w)
          else case workspace_patch T j (wv_payload v) now of
                 Inl _ \<Rightarrow> (Inl (), w)
               | Inr None \<Rightarrow> (Inr (), w)
               | Inr (Some p) \<Rightarrow>
                   (case wp_apply W (jb_user j) (jb_ws j) p (wv_revision v) now (env w) of
                      (True, w') \<Rightarrow> (Inr (), w')
                    | (False, w') \<Rightarrow> project_tries T W now j envs w'))"

definition project :: "texts \<Rightarrow> 'w ws_port \<Rightarrow> time \<Rightarrow> job \<Rightarrow> 'w envs \<Rightarrow> 'w \<Rightarrow> (unit + unit) \<times> 'w" where
  "project T W now j envs w = (case envs of (a, b, c) \<Rightarrow> project_tries T W now j [a, b, c] w)"

section \<open>Finishing a job\<close>

text \<open>
  A turn ends with an exception of the repository or of the projection. The job is completed before it
  is projected; when the projection raises, the credential is not discarded.
\<close>

datatype turn_error = Job_Store job_error | Projection_Raised

definition finish_job ::
  "texts \<Rightarrow> 's job_port \<Rightarrow> 'w ws_port \<Rightarrow> worker \<Rightarrow> time \<Rightarrow> 'w envs \<Rightarrow> string \<Rightarrow> job_status \<Rightarrow> json option
     \<Rightarrow> string option \<Rightarrow> ('s, 'w) world \<Rightarrow> (turn_error + unit) \<times> ('s, 'w) world" where
  "finish_job T P W k now envs i st res reason w =
     (case jp_complete P i (wk_id k) st now res reason (wd_jobs w) of
        (Inl e, s) \<Rightarrow> (Inl (Job_Store e), w\<lparr>wd_jobs := s\<rparr>)
      | (Inr j, s) \<Rightarrow>
          (case project T W now j envs (wd_ws w) of
             (Inl _, ws) \<Rightarrow> (Inl Projection_Raised, w\<lparr>wd_jobs := s, wd_ws := ws\<rparr>)
           | (Inr _, ws) \<Rightarrow>
               (Inr (), w\<lparr>wd_jobs := s, wd_ws := ws, wd_creds := cred_discard i (wd_creds w)\<rparr>)))"

definition finish_failure_job ::
  "texts \<Rightarrow> 's job_port \<Rightarrow> 'w ws_port \<Rightarrow> worker \<Rightarrow> time \<Rightarrow> 'w envs \<Rightarrow> string \<Rightarrow> job_status
     \<Rightarrow> string \<Rightarrow> ('s, 'w) world \<Rightarrow> (turn_error + unit) \<times> ('s, 'w) world" where
  "finish_failure_job T P W k now envs i st reason w = finish_job T P W k now envs i st None (Some reason) w"

definition safe_reason_char :: "char \<Rightarrow> bool" where
  "safe_reason_char c = (let n = (of_char c :: int) in (97 \<le> n \<and> n \<le> 122) \<or> (48 \<le> n \<and> n \<le> 57) \<or> n = 95)"

definition safe_mapping_reason :: "string \<Rightarrow> string" where
  "safe_mapping_reason r =
     (let s = py_lower (py_strip r) in
      if s \<noteq> [] \<and> length s \<le> 96 \<and> list_all safe_reason_char s then s else ''response_mapping_failed'')"

datatype phase = Phase_Start | Phase_Poll

fun phase_text :: "phase \<Rightarrow> string" where
  "phase_text Phase_Start = ''start''"
| "phase_text Phase_Poll = ''poll''"

definition fail_mapping ::
  "texts \<Rightarrow> 's job_port \<Rightarrow> 'w ws_port \<Rightarrow> worker \<Rightarrow> time \<Rightarrow> 'w envs \<Rightarrow> string \<Rightarrow> string \<Rightarrow> phase
     \<Rightarrow> ('s, 'w) world \<Rightarrow> (turn_error + unit) \<times> ('s, 'w) world" where
  "fail_mapping T P W k now envs i reason ph w =
     finish_failure_job T P W k now envs i Indeterminate
       (''provider_'' @ phase_text ph @ ''_'' @ safe_mapping_reason reason) w"

definition result_mapping :: "json \<Rightarrow> json" where
  "result_mapping r = (if is_obj r then r else JObj [])"

definition accept_snapshot ::
  "texts \<Rightarrow> 's job_port \<Rightarrow> 'w ws_port \<Rightarrow> worker \<Rightarrow> time \<Rightarrow> 'w envs \<Rightarrow> string \<Rightarrow> snapshot \<Rightarrow> phase
     \<Rightarrow> ('s, 'w) world \<Rightarrow> (turn_error + unit) \<times> ('s, 'w) world" where
  "accept_snapshot T P W k now envs i sn ph w =
     (if sn_outcome sn = Out_Polling then
        (case sn_pjob sn of
           Some p \<Rightarrow> if p = [] then finish_failure_job T P W k now envs i Indeterminate
                                   (''provider_'' @ phase_text ph @ ''_job_id_missing'') w
                    else (case jp_bind P i p (wk_id k) now (now + wk_poll k) (wd_jobs w) of
                            (Inl e, s) \<Rightarrow> (Inl (Job_Store e), w\<lparr>wd_jobs := s\<rparr>)
                          | (Inr _, s) \<Rightarrow> (Inr (), w\<lparr>wd_jobs := s\<rparr>))
         | None \<Rightarrow> finish_failure_job T P W k now envs i Indeterminate
                     (''provider_'' @ phase_text ph @ ''_job_id_missing'') w)
      else if sn_outcome sn = Out_Succeeded then
        (let result = result_mapping (sn_result sn) in
         if \<not> truthy result then finish_failure_job T P W k now envs i Indeterminate ''provider_result_missing'' w
         else finish_job T P W k now envs i Succeeded (Some result) None w)
      else finish_failure_job T P W k now envs i Job_Failed
             (if sn_reason sn = [] then ''provider_business_failed'' else sn_reason sn) w)"

section \<open>One job of a pass\<close>

text \<open>
  \<^verbatim>\<open>_start\<close>. Whatever the processing of an answer raises, the projection of a closed job
  included, is caught and answered by closing the job as indeterminate; an exception of that last write
  leaves the turn.
\<close>

definition start_job ::
  "texts \<Rightarrow> 's job_port \<Rightarrow> 'w ws_port \<Rightarrow> worker \<Rightarrow> time \<Rightarrow> 'w envs \<Rightarrow> reply \<Rightarrow> job
     \<Rightarrow> ('s, 'w) world \<Rightarrow> (turn_error + unit) \<times> ('s, 'w) world" where
  "start_job T P W k now envs rep j w0 =
     (case cred_get now (jb_id j) (wd_creds w0) of (cred, cs) \<Rightarrow>
      let w = w0\<lparr>wd_creds := cs\<rparr>; i = jb_id j in
      if \<not> provider_given k (jb_kind j) then finish_failure_job T P W k now envs i Job_Failed ''provider_unavailable'' w
      else if cred = None then finish_failure_job T P W k now envs i Indeterminate ''authorization_unavailable'' w
      else case rep of
        Mapping_Error reason \<Rightarrow> fail_mapping T P W k now envs i reason Phase_Start w
      | Raised \<Rightarrow> finish_failure_job T P W k now envs i Indeterminate ''provider_start_indeterminate'' w
      | Snapshot sn \<Rightarrow>
          (case accept_snapshot T P W k now envs i sn Phase_Start w of
             (Inr _, w') \<Rightarrow> (Inr (), w')
           | (Inl _, w') \<Rightarrow>
               finish_failure_job T P W k now envs i Indeterminate ''provider_start_indeterminate'' w'))"

text \<open>\<^verbatim>\<open>_reschedule_poll\<close>: a failure is only logged.\<close>

definition reschedule_job :: "'s job_port \<Rightarrow> worker \<Rightarrow> time \<Rightarrow> string \<Rightarrow> ('s, 'w) world \<Rightarrow> ('s, 'w) world" where
  "reschedule_job P k now i w =
     w\<lparr>wd_jobs := snd (jp_reschedule P i (wk_id k) now (now + wk_poll k) (wd_jobs w))\<rparr>"

definition poll_job ::
  "texts \<Rightarrow> 's job_port \<Rightarrow> 'w ws_port \<Rightarrow> worker \<Rightarrow> time \<Rightarrow> 'w envs \<Rightarrow> reply \<Rightarrow> job
     \<Rightarrow> ('s, 'w) world \<Rightarrow> (turn_error + unit) \<times> ('s, 'w) world" where
  "poll_job T P W k now envs rep j w0 =
     (let i = jb_id j in
      if \<not> provider_given k (jb_kind j) \<or> \<not> text_given (jb_pjob j)
      then finish_failure_job T P W k now envs i Indeterminate ''provider_job_unavailable'' w0
      else case cred_get now i (wd_creds w0) of (_, cs) \<Rightarrow>
        let w = w0\<lparr>wd_creds := cs\<rparr> in
        case rep of
          Mapping_Error reason \<Rightarrow>
            if safe_mapping_reason reason = ''provider_status_authorization_unavailable''
            then (Inr (), reschedule_job P k now i w)
            else fail_mapping T P W k now envs i reason Phase_Poll w
        | Raised \<Rightarrow> (Inr (), reschedule_job P k now i w)
        | Snapshot sn \<Rightarrow>
            if sn_outcome sn = Out_Polling then
              (case jp_reschedule P i (wk_id k) now (now + wk_poll k) (wd_jobs w) of
                 (Inr _, s) \<Rightarrow> (Inr (), w\<lparr>wd_jobs := s\<rparr>)
               | (Inl _, s) \<Rightarrow> (Inr (), reschedule_job P k now i (w\<lparr>wd_jobs := s\<rparr>)))
            else
              (case accept_snapshot T P W k now envs i sn Phase_Poll w of
                 (Inr _, w') \<Rightarrow> (Inr (), w')
               | (Inl _, w') \<Rightarrow> (Inr (), reschedule_job P k now i w')))"

section \<open>A pass\<close>

text \<open>
  The claims of \<^verbatim>\<open>run_once\<close>: closed jobs without a result address are reopened, then
  at most six jobs are claimed, new ones first.
\<close>

definition claim_pass :: "'s job_port \<Rightarrow> worker \<Rightarrow> time \<Rightarrow> 's \<Rightarrow> (job_error + job list \<times> job list) \<times> 's" where
  "claim_pass P k now s0 =
     (let s1 = snd (jp_reopen P now 6 s0) in
      seq_st (jp_claim_start P (wk_id k) now (wk_lease k) 6 s1) (\<lambda>starts s2.
        if length starts < 6 then
          lift_result (\<lambda>polls. (starts, polls))
            (jp_claim_poll P (wk_id k) now (wk_lease k) (6 - length starts) s2)
        else (Inr (starts, []), s2)))"

definition job_turn ::
  "texts \<Rightarrow> 's job_port \<Rightarrow> 'w ws_port \<Rightarrow> worker \<Rightarrow> (string \<Rightarrow> time \<times> 'w envs \<times> reply) \<Rightarrow> job
     \<Rightarrow> ('s, 'w) world \<Rightarrow> (turn_error + unit) \<times> ('s, 'w) world" where
  "job_turn T P W k world_of j w =
     (case world_of (jb_id j) of (now, envs, rep) \<Rightarrow>
        if jb_status j = Starting then start_job T P W k now envs rep j w
        else poll_job T P W k now envs rep j w)"

text \<open>\<^verbatim>\<open>gather\<close>: every job gets its turn; the first exception is raised at the end.\<close>

fun run_turns ::
  "texts \<Rightarrow> 's job_port \<Rightarrow> 'w ws_port \<Rightarrow> worker \<Rightarrow> (string \<Rightarrow> time \<times> 'w envs \<times> reply) \<Rightarrow> job list
     \<Rightarrow> ('s, 'w) world \<Rightarrow> (turn_error + unit) \<times> ('s, 'w) world" where
  "run_turns T P W k world_of [] w = (Inr (), w)"
| "run_turns T P W k world_of (j # js) w =
     (case job_turn T P W k world_of j w of (r, w1) \<Rightarrow>
      case run_turns T P W k world_of js w1 of (r', w2) \<Rightarrow>
        ((case r of Inl e \<Rightarrow> Inl e | Inr _ \<Rightarrow> r'), w2))"

definition run_once ::
  "texts \<Rightarrow> 's job_port \<Rightarrow> 'w ws_port \<Rightarrow> worker \<Rightarrow> time \<Rightarrow> (string \<Rightarrow> time \<times> 'w envs \<times> reply)
     \<Rightarrow> ('s, 'w) world \<Rightarrow> (turn_error + nat) \<times> ('s, 'w) world" where
  "run_once T P W k now world_of w =
     (case claim_pass P k now (wd_jobs w) of
        (Inl e, s) \<Rightarrow> (Inl (Job_Store e), w\<lparr>wd_jobs := s\<rparr>)
      | (Inr (starts, polls), s) \<Rightarrow>
          lift_result (\<lambda>_. length starts + length polls)
            (run_turns T P W k world_of (starts @ polls) (w\<lparr>wd_jobs := s\<rparr>)))"

section \<open>What the provider's answers satisfy\<close>

fun snapshot_reason :: "outcome \<Rightarrow> string" where
  "snapshot_reason Out_Polling = ''provider_polling''"
| "snapshot_reason Out_Succeeded = ''provider_succeeded''"
| "snapshot_reason Out_Failed = ''provider_business_failed''"
| "snapshot_reason Out_Paused_Quota = ''provider_quota_insufficient''"
| "snapshot_reason Out_Timeout = ''provider_timeout''"
| "snapshot_reason Out_Expired = ''provider_job_expired''"

definition pjob_char :: "char \<Rightarrow> bool" where
  "pjob_char c = (let n = (of_char c :: int) in
     (48 \<le> n \<and> n \<le> 58) \<or> (65 \<le> n \<and> n \<le> 90) \<or> (97 \<le> n \<and> n \<le> 122) \<or> n = 45 \<or> n = 46 \<or> n = 95)"

text \<open>
  The contract of \<^verbatim>\<open>ProviderJobSnapshot\<close> the worker relies on: the reason is the one of the
  outcome, a job id matches \<^verbatim>\<open>[A-Za-z0-9][A-Za-z0-9._:-]{0,254}\<close> (its first character is
  not constrained further here).
\<close>

definition snapshot_ok :: "snapshot \<Rightarrow> bool" where
  "snapshot_ok sn \<longleftrightarrow> sn_reason sn = snapshot_reason (sn_outcome sn) \<and>
     (case sn_pjob sn of None \<Rightarrow> True | Some p \<Rightarrow> p \<noteq> [] \<and> length p \<le> 255 \<and> list_all pjob_char p)"

fun reply_ok :: "reply \<Rightarrow> bool" where
  "reply_ok (Snapshot sn) = snapshot_ok sn"
| "reply_ok (Mapping_Error r) = True"
| "reply_ok Raised = True"

lemma py_len_le: "py_len s \<le> length s"
  by (simp add: py_len_def)

lemma py_len_strip_le: "length s \<le> n \<Longrightarrow> py_len (contract_strip s) \<le> n"
  using py_len_le [of "contract_strip s"] length_contract_strip [of s] by linarith

lemma strip_nonblank: "\<not> is_space c \<Longrightarrow> contract_strip (c # s) \<noteq> []"
  using white_is_space by (intro contract_strip_nonblank) auto

lemma pjob_char_not_space: "pjob_char c \<Longrightarrow> \<not> is_space c"
  by (auto simp: pjob_char_def is_space_def Let_def)

lemma snapshot_pjob:
  "snapshot_ok sn \<Longrightarrow> sn_pjob sn = Some p \<Longrightarrow> p \<noteq> [] \<and> contract_strip p \<noteq> [] \<and> py_len (contract_strip p) \<le> 255"
  by (cases p) (auto simp: snapshot_ok_def pjob_char_not_space strip_nonblank intro!: py_len_strip_le)

lemma p_not_space: "\<not> is_space (CHR ''p'')"
  by (simp add: is_space_def)

lemma snapshot_reason_ok: "contract_strip (snapshot_reason r) \<noteq> [] \<and> py_len (contract_strip (snapshot_reason r)) \<le> 128 \<and> snapshot_reason r \<noteq> []"
  by (cases r; auto simp: strip_nonblank p_not_space intro!: py_len_strip_le)

lemma length_safe_reason: "length (safe_mapping_reason r) \<le> 96"
  by (simp add: safe_mapping_reason_def Let_def)

lemma mapping_reason_ok:
  "contract_strip (''provider_'' @ phase_text ph @ ''_'' @ safe_mapping_reason r) \<noteq> [] \<and>
   py_len (contract_strip (''provider_'' @ phase_text ph @ ''_'' @ safe_mapping_reason r)) \<le> 128"
  using length_safe_reason [of r]
  by (cases ph; auto simp: strip_nonblank p_not_space intro!: py_len_strip_le)

section \<open>A turn, over the laws of the repository\<close>

text \<open>Only job \<open>i\<close> changed, and it is now \<open>j\<close>.\<close>

definition only_changed :: "'s job_port \<Rightarrow> string \<Rightarrow> 's \<Rightarrow> 's \<Rightarrow> job \<Rightarrow> bool" where
  "only_changed P i s t j \<longleftrightarrow> jp_get P t i = Some j \<and> (\<forall>x. x \<noteq> i \<longrightarrow> jp_get P t x = jp_get P s x)"

definition unleased :: "job \<Rightarrow> bool" where
  "unleased j \<longleftrightarrow> jb_owner j = None \<and> jb_until j = None"

lemma fenced_total:
  assumes law: "fenced_law get okay canon i w now cond f op" and s: "okay s"
    and j: "get s i = Some j" "lease_owned j w now" "cond j" "job_sound (f j)" and canon: "\<And>j. canon j = j \<or> canon j = strip_job j"
  shows "\<exists>t. op s = (Inr (canon (f j)), t) \<and> okay t \<and> get t i = Some (canon (f j)) \<and> (\<forall>x. x \<noteq> i \<longrightarrow> get t x = get s x)"
proof -
  obtain r t where op: "op s = (r, t)" by force
  have sound: "job_sound (canon (f j))" using canon [of "f j"] j(4) by auto
  show ?thesis
  proof (cases r)
    case (Inl e)
    from law [unfolded fenced_law_def, rule_format, OF s op] Inl j show ?thesis by simp
  next
    case (Inr j')
    have op': "op s = (Inr j', t)" using op Inr by simp
    from fenced_ok [OF law s op'] j(1) have j': "j' = canon (f j)" "get t i = Some j'" "okay t"
      using sound by auto
    have "get t x = get s x" if "x \<noteq> i" for x using fenced_change [OF law s op', of x] that by auto
    with op' j' show ?thesis by simp
  qed
qed

lemma fenced_stale:
  assumes law: "fenced_law get okay canon i w now cond f op" and s: "okay s"
    and no: "\<forall>j. get s i = Some j \<longrightarrow> \<not> lease_owned j w now"
  shows "\<exists>e. op s = (Inl e, s)"
proof -
  obtain r t where op: "op s = (r, t)" by force
  show ?thesis
  proof (cases r)
    case (Inl e)
    with fenced_change [OF law s op, of i] op show ?thesis by auto
  next
    case (Inr j')
    with fenced_ok [OF law s] op no show ?thesis by blast
  qed
qed

definition job_held :: "'s job_port \<Rightarrow> worker \<Rightarrow> time \<Rightarrow> job \<Rightarrow> 's \<Rightarrow> bool" where
  "job_held P k now j s \<longleftrightarrow> jp_get P s (jb_id j) = Some j \<and> lease_owned j (wk_id k) now"

definition not_held :: "'s job_port \<Rightarrow> worker \<Rightarrow> time \<Rightarrow> string \<Rightarrow> 's \<Rightarrow> bool" where
  "not_held P k now i s \<longleftrightarrow> (\<forall>j. jp_get P s i = Some j \<longrightarrow> \<not> lease_owned j (wk_id k) now)"

text \<open>What a turn may leave: the job released, in a state the answer explains.\<close>

definition start_explained :: "worker \<Rightarrow> bool \<Rightarrow> reply \<Rightarrow> job \<Rightarrow> job \<Rightarrow> bool" where
  "start_explained k cred rep j j' \<longleftrightarrow>
     jb_status j' \<in> {Polling, Succeeded, Job_Failed, Indeterminate} \<and>
     (jb_status j' = Polling \<longleftrightarrow> provider_given k (jb_kind j) \<and> cred \<and>
        (\<exists>sn p. rep = Snapshot sn \<and> sn_outcome sn = Out_Polling \<and> sn_pjob sn = Some p)) \<and>
     (jb_status j' = Succeeded \<longleftrightarrow> provider_given k (jb_kind j) \<and> cred \<and>
        (\<exists>sn. rep = Snapshot sn \<and> sn_outcome sn = Out_Succeeded \<and> is_obj (sn_result sn) \<and> truthy (sn_result sn))) \<and>
     (jb_status j' = Job_Failed \<longleftrightarrow> \<not> provider_given k (jb_kind j) \<or>
        (cred \<and> (\<exists>sn. rep = Snapshot sn \<and> sn_outcome sn \<notin> {Out_Polling, Out_Succeeded})))"

definition poll_explained :: "worker \<Rightarrow> time \<Rightarrow> reply \<Rightarrow> job \<Rightarrow> job \<Rightarrow> bool" where
  "poll_explained k now rep j j' \<longleftrightarrow>
     jb_status j' \<in> {Polling, Succeeded, Job_Failed, Indeterminate} \<and>
     (jb_status j' = Polling \<longrightarrow> jb_next j' = Some (now + wk_poll k) \<and> jb_pjob j' = jb_pjob j) \<and>
     (jb_status j' = Polling \<longleftrightarrow> provider_given k (jb_kind j) \<and>
        (rep = Raised \<or> (\<exists>sn. rep = Snapshot sn \<and> sn_outcome sn = Out_Polling) \<or>
         (\<exists>r. rep = Mapping_Error r \<and> safe_mapping_reason r = ''provider_status_authorization_unavailable''))) \<and>
     (jb_status j' = Succeeded \<longleftrightarrow> provider_given k (jb_kind j) \<and>
        (\<exists>sn. rep = Snapshot sn \<and> sn_outcome sn = Out_Succeeded \<and> is_obj (sn_result sn) \<and> truthy (sn_result sn))) \<and>
     (jb_status j' = Job_Failed \<longleftrightarrow> provider_given k (jb_kind j) \<and>
        (\<exists>sn. rep = Snapshot sn \<and> sn_outcome sn \<notin> {Out_Polling, Out_Succeeded}))"

text \<open>
  The turn returns, unless the job is closed and its projection raised; only the job changed, and it
  carries no lease.
\<close>

definition projection_raises :: "texts \<Rightarrow> 'w ws_port \<Rightarrow> time \<Rightarrow> 'w envs \<Rightarrow> job \<Rightarrow> 'w \<Rightarrow> bool" where
  "projection_raises T W now envs j w \<longleftrightarrow> fst (project T W now j envs w) = Inl ()"

definition turn_result ::
  "(job \<Rightarrow> 'w \<Rightarrow> bool) \<Rightarrow> 's job_port \<Rightarrow> ('s \<Rightarrow> bool) \<Rightarrow> string \<Rightarrow> ('s, 'w) world
     \<Rightarrow> (turn_error + unit) \<times> ('s, 'w) world \<Rightarrow> job \<Rightarrow> bool" where
  "turn_result raises P okay i w res j' \<longleftrightarrow>
     (fst res = Inr () \<or> job_closed (jb_status j') \<and> raises j' (wd_ws w)) \<and> okay (wd_jobs (snd res)) \<and> only_changed P i (wd_jobs w) (wd_jobs (snd res)) j' \<and> unleased j'"

lemma strip_job_frames [simp]:
  "jb_status (strip_job j) = jb_status j" "jb_next (strip_job j) = jb_next j" "jb_until (strip_job j) = jb_until j"
  "jb_pjob (strip_job j) = map_option contract_strip (jb_pjob j)" "jb_owner (strip_job j) = map_option contract_strip (jb_owner j)"
  by (simp_all add: strip_job_def)

lemma job_update_frames [simp]:
  "jb_status (completed_with st res reason now j) = st" "jb_owner (completed_with st res reason now j) = None"
  "jb_until (completed_with st res reason now j) = None"
  "jb_status (bound p now next j) = Polling" "jb_owner (bound p now next j) = None" "jb_until (bound p now next j) = None"
  "jb_status (rescheduled now next j) = jb_status j" "jb_owner (rescheduled now next j) = None"
  "jb_until (rescheduled now next j) = None" "jb_next (rescheduled now next j) = Some next"
  "jb_pjob (rescheduled now next j) = jb_pjob j"
  by (simp_all add: job_update_defs)

context job_repository
begin

lemma canon_unleased: "unleased j \<Longrightarrow> unleased (canon j)"
  using canon_cases [of j] by (auto simp: unleased_def)

lemma finish_total:
  assumes s: "okay (wd_jobs w)" and j: "job_held P k now j (wd_jobs w)"
    and args: "cmd_ok (Complete (jb_id j) (wk_id k) st now res reason)"
  shows "\<exists>j'. turn_result (projection_raises T W now envs) P okay (jb_id j) w (finish_job T P W k now envs (jb_id j) st res reason w) j' \<and> jb_status j' = st"
proof -
  have g: "jp_get P (wd_jobs w) (jb_id j) = Some j" "lease_owned j (wk_id k) now"
    using j by (simp_all add: job_held_def)
  have "job_sound (completed_with st res reason now j)"
    by (rule completed_sound [OF _ args]) (use get_sound [OF s g(1)] in simp)
  from fenced_total [OF complete_law s g TrueI this canon_cases]
  obtain t where t: "jp_complete P (jb_id j) (wk_id k) st now res reason (wd_jobs w) = (Inr (canon (completed_with st res reason now j)), t)"
    "okay t" "jp_get P t (jb_id j) = Some (canon (completed_with st res reason now j))"
    "\<forall>x. x \<noteq> jb_id j \<longrightarrow> jp_get P t x = jp_get P (wd_jobs w) x" by blast
  have u: "unleased (canon (completed_with st res reason now j))"
    by (rule canon_unleased) (simp add: unleased_def)
  have c: "job_closed st" using args by (simp split: option.splits)
  obtain p ws where pr: "project T W now (canon (completed_with st res reason now j)) envs (wd_ws w) = (p, ws)" by force
  show ?thesis
    using t u c by (intro exI [of _ "canon (completed_with st res reason now j)"])
      (cases p; simp add: finish_job_def turn_result_def only_changed_def canon_status pr projection_raises_def)
qed

lemma finish_failure_total:
  assumes "okay (wd_jobs w)" and "job_held P k now j (wd_jobs w)" and "st \<in> {Job_Failed, Indeterminate}"
    and "contract_strip reason \<noteq> [] \<and> py_len (contract_strip reason) \<le> 128"
  shows "\<exists>j'. turn_result (projection_raises T W now envs) P okay (jb_id j) w (finish_failure_job T P W k now envs (jb_id j) st reason w) j' \<and> jb_status j' = st"
  unfolding finish_failure_job_def
  by (rule finish_total [OF assms(1,2)]) (use assms(3,4) in \<open>auto simp: job_closed_def opt_len_def text_given_def\<close>)

lemma bind_total:
  assumes s: "okay s" and j: "job_held P k now j s" and st: "jb_status j = Starting"
    and p: "contract_strip p \<noteq> []" "py_len (contract_strip p) \<le> 255"
  shows "\<exists>t j'. jp_bind P (jb_id j) p (wk_id k) now next s = (Inr j', t) \<and> okay t \<and> only_changed P (jb_id j) s t j' \<and>
           unleased j' \<and> jb_status j' = Polling"
proof -
  have g: "jp_get P s (jb_id j) = Some j" "lease_owned j (wk_id k) now" using j by (simp_all add: job_held_def)
  have "job_sound (bound p now next j)" by (rule bound_sound) (use get_sound [OF s g(1)] p in simp_all)
  from fenced_total [OF bind_law s g st this canon_cases]
  obtain t where t: "jp_bind P (jb_id j) p (wk_id k) now next s = (Inr (canon (bound p now next j)), t)" "okay t"
    "jp_get P t (jb_id j) = Some (canon (bound p now next j))"
    "\<forall>x. x \<noteq> jb_id j \<longrightarrow> jp_get P t x = jp_get P s x" by blast
  have "unleased (canon (bound p now next j))" by (rule canon_unleased) (simp add: unleased_def)
  with t show ?thesis by (simp add: only_changed_def canon_status)
qed

lemma reschedule_total:
  assumes s: "okay s" and j: "job_held P k now j s" and st: "jb_status j = Polling"
  shows "\<exists>t j'. jp_reschedule P (jb_id j) (wk_id k) now next s = (Inr j', t) \<and> okay t \<and> only_changed P (jb_id j) s t j' \<and>
           unleased j' \<and> jb_status j' = Polling \<and> jb_next j' = Some next \<and> jb_pjob j' = jb_pjob j"
proof -
  have g: "jp_get P s (jb_id j) = Some j" "lease_owned j (wk_id k) now" using j by (simp_all add: job_held_def)
  have js: "job_sound j" "canon j = j" using get_sound [OF s g(1)] by simp_all
  have "job_sound (rescheduled now next j)" by (rule rescheduled_sound [OF js(1) st])
  from fenced_total [OF reschedule_law s g st this canon_cases]
  obtain t where t: "jp_reschedule P (jb_id j) (wk_id k) now next s = (Inr (canon (rescheduled now next j)), t)" "okay t"
    "jp_get P t (jb_id j) = Some (canon (rescheduled now next j))"
    "\<forall>x. x \<noteq> jb_id j \<longrightarrow> jp_get P t x = jp_get P s x" by blast
  have u: "unleased (canon (rescheduled now next j))" by (rule canon_unleased) (simp add: unleased_def)
  have "jb_pjob (canon (rescheduled now next j)) = jb_pjob j"
    using canon_which
  proof
    assume c: "canon = strip_job"
    then have "jb_pjob (strip_job j) = jb_pjob j" using js(2) by simp
    then show ?thesis by (simp add: c)
  qed simp
  with t u st show ?thesis by (simp add: only_changed_def canon_status canon_until)
qed

lemma accept_total:
  assumes s: "okay (wd_jobs w)" and j: "job_held P k now j (wd_jobs w)" and sn: "snapshot_ok sn"
    and st: "sn_outcome sn = Out_Polling \<Longrightarrow> jb_status j = Starting"
  shows "\<exists>j'. turn_result (projection_raises T W now envs) P okay (jb_id j) w (accept_snapshot T P W k now envs (jb_id j) sn ph w) j' \<and>
     jb_status j' = (case sn_outcome sn of
        Out_Polling \<Rightarrow> if sn_pjob sn = None then Indeterminate else Polling
      | Out_Succeeded \<Rightarrow> if is_obj (sn_result sn) \<and> truthy (sn_result sn) then Succeeded else Indeterminate
      | _ \<Rightarrow> Job_Failed)"
proof (cases "sn_outcome sn = Out_Polling")
  case True
  show ?thesis
  proof (cases "sn_pjob sn")
    case None
    have "contract_strip (''provider_'' @ phase_text ph @ ''_job_id_missing'') \<noteq> [] \<and>
          py_len (contract_strip (''provider_'' @ phase_text ph @ ''_job_id_missing'')) \<le> 128"
      by (cases ph; auto simp: strip_nonblank p_not_space intro!: py_len_strip_le)
    from finish_failure_total [OF s j _ this, of Indeterminate] True None show ?thesis
      by (simp add: accept_snapshot_def)
  next
    case (Some p)
    have p: "p \<noteq> []" "contract_strip p \<noteq> []" "py_len (contract_strip p) \<le> 255" using snapshot_pjob [OF sn Some] by auto
    obtain t j' where b: "jp_bind P (jb_id j) p (wk_id k) now (now + wk_poll k) (wd_jobs w) = (Inr j', t)" "okay t"
      "only_changed P (jb_id j) (wd_jobs w) t j'" "unleased j'" "jb_status j' = Polling"
      using bind_total [OF s j st [OF True] p(2,3), of "now + wk_poll k"] by blast
    then show ?thesis using True Some p(1) by (intro exI [of _ j']) (simp add: accept_snapshot_def turn_result_def)
  qed
next
  case np: False
  show ?thesis
  proof (cases "sn_outcome sn = Out_Succeeded")
    case True
    show ?thesis
    proof (cases "is_obj (sn_result sn) \<and> truthy (sn_result sn)")
      case True
      have "cmd_ok (Complete (jb_id j) (wk_id k) Succeeded now (Some (sn_result sn)) None)"
        using True by (simp add: job_closed_def opt_len_def)
      from finish_total [OF s j this] np True \<open>sn_outcome sn = Out_Succeeded\<close> show ?thesis
        by (simp add: accept_snapshot_def Let_def result_mapping_def)
    next
      case False
      have "contract_strip ''provider_result_missing'' \<noteq> [] \<and> py_len (contract_strip ''provider_result_missing'') \<le> 128"
        by (auto simp: strip_nonblank p_not_space intro!: py_len_strip_le)
      from finish_failure_total [OF s j _ this, of Indeterminate] np False \<open>sn_outcome sn = Out_Succeeded\<close> show ?thesis
        by (auto simp: accept_snapshot_def Let_def result_mapping_def)
    qed
  next
    case False
    have r: "sn_reason sn = snapshot_reason (sn_outcome sn)" using sn by (simp add: snapshot_ok_def)
    have "contract_strip (sn_reason sn) \<noteq> [] \<and> py_len (contract_strip (sn_reason sn)) \<le> 128" "sn_reason sn \<noteq> []"
      unfolding r using snapshot_reason_ok [of "sn_outcome sn"] by blast+
    note reason = this
    have a: "accept_snapshot T P W k now envs (jb_id j) sn ph w =
        finish_failure_job T P W k now envs (jb_id j) Job_Failed (sn_reason sn) w"
      using np False reason(2) by (simp add: accept_snapshot_def)
    have b: "(case sn_outcome sn of
        Out_Polling \<Rightarrow> if sn_pjob sn = None then Indeterminate else Polling
      | Out_Succeeded \<Rightarrow> if is_obj (sn_result sn) \<and> truthy (sn_result sn) then Succeeded else Indeterminate
      | _ \<Rightarrow> Job_Failed) = Job_Failed"
      using np False by (cases "sn_outcome sn") simp_all
    show ?thesis unfolding a b by (rule finish_failure_total [OF s j _ reason(1)]) simp
  qed
qed

lemma finish_stale:
  assumes "okay (wd_jobs w)" and "not_held P k now i (wd_jobs w)"
  shows "\<exists>e. finish_job T P W k now envs i st res reason w = (Inl e, w)"
proof -
  have "\<forall>j. jp_get P (wd_jobs w) i = Some j \<longrightarrow> \<not> lease_owned j (wk_id k) now"
    using assms(2) by (simp add: not_held_def)
  from fenced_stale [OF complete_law assms(1) this]
  obtain e where "jp_complete P i (wk_id k) st now res reason (wd_jobs w) = (Inl e, wd_jobs w)" by blast
  then show ?thesis by (simp add: finish_job_def)
qed

text \<open>After a turn nobody holds the job, so a second attempt to close it is refused.\<close>

lemma turn_unheld:
  assumes "turn_result r P okay i w res j'"
  shows "okay (wd_jobs (snd res))" and "not_held P k now i (wd_jobs (snd res))"
  using assms by (simp_all add: turn_result_def only_changed_def unleased_def not_held_def lease_owned_def)

lemma refused_close:
  assumes t: "turn_result r P okay i w (Inl e, w1) j'"
  obtains e' where "finish_failure_job T P W k now envs i st reason w1 = (Inl e', w1)"
    and "turn_result r P okay i w (Inl e', w1) j'"
proof -
  from turn_unheld [OF t] have "okay (wd_jobs w1)" "not_held P k now i (wd_jobs w1)" by simp_all
  from finish_stale [OF this] obtain e' where e': "finish_failure_job T P W k now envs i st reason w1 = (Inl e', w1)"
    unfolding finish_failure_job_def by blast
  with t show thesis by (intro that [of e']) (simp_all add: turn_result_def)
qed

lemma refused_reschedule:
  assumes t: "turn_result r P okay i w (Inl e, w1) j'"
  shows "reschedule_job P k now i w1 = w1"
proof -
  from turn_unheld [OF t] have u: "okay (wd_jobs w1)" "not_held P k now i (wd_jobs w1)" by simp_all
  have "\<forall>j. jp_get P (wd_jobs w1) i = Some j \<longrightarrow> \<not> lease_owned j (wk_id k) now"
    using u(2) by (simp add: not_held_def)
  from fenced_stale [OF reschedule_law u(1) this, of "now + wk_poll k"] show ?thesis
    by (auto simp: reschedule_job_def)
qed

lemma turn_result_creds:
  "turn_result (projection_raises T W now envs) P okay i (w\<lparr>wd_creds := c\<rparr>) res j' = turn_result (projection_raises T W now envs) P okay i w res j'"
  by (simp add: turn_result_def)

lemma start_settles:
  assumes s: "okay (wd_jobs w)" and j: "job_held P k now j (wd_jobs w)" and st: "jb_status j = Starting"
    and rep: "reply_ok rep"
  shows "\<exists>j'. turn_result (projection_raises T W now envs) P okay (jb_id j) w (start_job T P W k now envs rep j w) j' \<and>
     start_explained k (fst (cred_get now (jb_id j) (wd_creds w)) \<noteq> None) rep j j'"
proof -
  obtain cred cs where c: "cred_get now (jb_id j) (wd_creds w) = (cred, cs)" by force
  let ?w = "w\<lparr>wd_creds := cs\<rparr>"
  have s': "okay (wd_jobs ?w)" and j': "job_held P k now j (wd_jobs ?w)" using s j by simp_all
  have fail: "\<exists>j'. turn_result (projection_raises T W now envs) P okay (jb_id j) w (finish_failure_job T P W k now envs (jb_id j) fs reason ?w) j' \<and> jb_status j' = fs"
    if "fs \<in> {Job_Failed, Indeterminate}" "contract_strip reason \<noteq> [] \<and> py_len (contract_strip reason) \<le> 128" for fs reason
    using finish_failure_total [OF s' j' that, where T = T and W = W and envs = envs]
    by (simp only: turn_result_creds)
  have fixed: "contract_strip (''provider_unavailable'') \<noteq> [] \<and> py_len (contract_strip ''provider_unavailable'') \<le> 128"
    "contract_strip (''authorization_unavailable'') \<noteq> [] \<and> py_len (contract_strip ''authorization_unavailable'') \<le> 128"
    "contract_strip (''provider_start_indeterminate'') \<noteq> [] \<and> py_len (contract_strip ''provider_start_indeterminate'') \<le> 128"
    by (auto simp: strip_nonblank is_space_def intro!: py_len_strip_le)
  show ?thesis
  proof (cases "provider_given k (jb_kind j) \<and> cred \<noteq> None")
    case False
    show ?thesis
    proof (cases "provider_given k (jb_kind j)")
      case True
      obtain j1 where "turn_result (projection_raises T W now envs) P okay (jb_id j) w (finish_failure_job T P W k now envs (jb_id j) Indeterminate
          ''authorization_unavailable'' ?w) j1" "jb_status j1 = Indeterminate"
        using fail [OF _ fixed(2), of Indeterminate] by blast
      with False True show ?thesis
        by (intro exI [of _ j1]) (simp add: start_job_def c Let_def start_explained_def)
    next
      case False
      obtain j1 where "turn_result (projection_raises T W now envs) P okay (jb_id j) w (finish_failure_job T P W k now envs (jb_id j) Job_Failed
          ''provider_unavailable'' ?w) j1" "jb_status j1 = Job_Failed"
        using fail [OF _ fixed(1), of Job_Failed] by blast
      with False show ?thesis
        by (intro exI [of _ j1]) (simp add: start_job_def c Let_def start_explained_def)
    qed
  next
    case True
    then obtain y where y: "cred = Some y" by blast
    show ?thesis
    proof (cases rep)
      case (Mapping_Error r)
      obtain j1 where "turn_result (projection_raises T W now envs) P okay (jb_id j) w (finish_failure_job T P W k now envs (jb_id j) Indeterminate
          (''provider_'' @ phase_text Phase_Start @ ''_'' @ safe_mapping_reason r) ?w) j1" "jb_status j1 = Indeterminate"
        using fail [OF _ mapping_reason_ok, of Indeterminate Phase_Start r] by blast
      with True Mapping_Error show ?thesis
        by (intro exI [of _ j1]) (simp add: start_job_def c y Let_def start_explained_def fail_mapping_def)
    next
      case Raised
      obtain j1 where "turn_result (projection_raises T W now envs) P okay (jb_id j) w (finish_failure_job T P W k now envs (jb_id j) Indeterminate
          ''provider_start_indeterminate'' ?w) j1" "jb_status j1 = Indeterminate"
        using fail [OF _ fixed(3), of Indeterminate] by blast
      with True Raised show ?thesis
        by (intro exI [of _ j1]) (simp add: start_job_def c y Let_def start_explained_def)
    next
      case (Snapshot sn)
      then have sn: "snapshot_ok sn" using rep by simp
      from accept_total [OF s' j' sn st, where T = T and W = W and envs = envs and ph = Phase_Start]
      obtain j1 where j1: "turn_result (projection_raises T W now envs) P okay (jb_id j) w (accept_snapshot T P W k now envs (jb_id j) sn Phase_Start ?w) j1"
        "jb_status j1 = (case sn_outcome sn of
        Out_Polling \<Rightarrow> if sn_pjob sn = None then Indeterminate else Polling
      | Out_Succeeded \<Rightarrow> if is_obj (sn_result sn) \<and> truthy (sn_result sn) then Succeeded else Indeterminate
      | _ \<Rightarrow> Job_Failed)" unfolding turn_result_creds by blast
      obtain r w1 where w1: "accept_snapshot T P W k now envs (jb_id j) sn Phase_Start ?w = (r, w1)" by force
      have "turn_result (projection_raises T W now envs) P okay (jb_id j) w (start_job T P W k now envs rep j w) j1"
      proof (cases r)
        case (Inr u)
        with j1(1) True show ?thesis by (simp add: start_job_def c y Let_def Snapshot w1)
      next
        case (Inl e)
        obtain e' where "finish_failure_job T P W k now envs (jb_id j) Indeterminate ''provider_start_indeterminate'' w1 = (Inl e', w1)"
          "turn_result (projection_raises T W now envs) P okay (jb_id j) w (Inl e', w1) j1"
          using refused_close j1(1) unfolding w1 Inl by blast
        with True show ?thesis by (simp add: start_job_def c y Let_def Snapshot w1 Inl)
      qed
      moreover have "start_explained k True rep j j1"
        using True j1(2) by (cases "sn_outcome sn") (auto simp: start_explained_def Snapshot)
      ultimately show ?thesis using c y by auto
    qed
  qed
qed

lemma poll_settles:
  assumes s: "okay (wd_jobs w)" and j: "job_held P k now j (wd_jobs w)" and st: "jb_status j = Polling"
    and rep: "reply_ok rep"
  shows "\<exists>j'. turn_result (projection_raises T W now envs) P okay (jb_id j) w (poll_job T P W k now envs rep j w) j' \<and> poll_explained k now rep j j'"
proof -
  obtain cred cs where c: "cred_get now (jb_id j) (wd_creds w) = (cred, cs)" by force
  let ?w = "w\<lparr>wd_creds := cs\<rparr>"
  have s': "okay (wd_jobs ?w)" and j': "job_held P k now j (wd_jobs ?w)" using s j by simp_all
  have "job_sound j" using get_sound [OF s, of "jb_id j" j] j by (simp add: job_held_def)
  then have pj: "text_given (jb_pjob j)"
    using st polling_pjob [of j]
    by (auto simp: job_sound_def text_given_def split: option.splits)
  have resched: "\<exists>t j1. jp_reschedule P (jb_id j) (wk_id k) now (now + wk_poll k) (wd_jobs ?w) = (Inr j1, t) \<and>
      turn_result (projection_raises T W now envs) P okay (jb_id j) w (Inr (), ?w\<lparr>wd_jobs := t\<rparr>) j1 \<and> jb_status j1 = Polling \<and>
      jb_next j1 = Some (now + wk_poll k) \<and> jb_pjob j1 = jb_pjob j"
    using reschedule_total [OF s' j' st, of "now + wk_poll k"] by (auto simp: turn_result_def)
  then obtain t j1 where t: "jp_reschedule P (jb_id j) (wk_id k) now (now + wk_poll k) (wd_jobs w) = (Inr j1, t)"
    "turn_result (projection_raises T W now envs) P okay (jb_id j) w (Inr (), ?w\<lparr>wd_jobs := t\<rparr>) j1" "jb_status j1 = Polling"
    "jb_next j1 = Some (now + wk_poll k)" "jb_pjob j1 = jb_pjob j" by auto
  have rj: "reschedule_job P k now (jb_id j) ?w = ?w\<lparr>wd_jobs := t\<rparr>" by (simp add: reschedule_job_def t(1))
  have pu: "contract_strip (''provider_job_unavailable'') \<noteq> [] \<and> py_len (contract_strip ''provider_job_unavailable'') \<le> 128"
    by (auto simp: strip_nonblank is_space_def intro!: py_len_strip_le)
  show ?thesis
  proof (cases "provider_given k (jb_kind j)")
    case False
    obtain j2 where "turn_result (projection_raises T W now envs) P okay (jb_id j) w (finish_failure_job T P W k now envs (jb_id j) Indeterminate
        ''provider_job_unavailable'' w) j2" "jb_status j2 = Indeterminate"
      using finish_failure_total [OF s j _ pu, of Indeterminate T W envs] by blast
    with False show ?thesis by (intro exI [of _ j2]) (simp add: poll_job_def Let_def poll_explained_def)
  next
    case True
    show ?thesis
    proof (cases rep)
      case (Mapping_Error r)
      show ?thesis
      proof (cases "safe_mapping_reason r = ''provider_status_authorization_unavailable''")
        case auth: True
        with True Mapping_Error t pj show ?thesis
          by (intro exI [of _ j1]) (simp add: poll_job_def Let_def c rj poll_explained_def)
      next
        case auth: False
        obtain j2 where "turn_result (projection_raises T W now envs) P okay (jb_id j) w (finish_failure_job T P W k now envs (jb_id j) Indeterminate
            (''provider_'' @ phase_text Phase_Poll @ ''_'' @ safe_mapping_reason r) ?w) j2" "jb_status j2 = Indeterminate"
          using finish_failure_total [OF s' j' _ mapping_reason_ok, of Indeterminate T W envs Phase_Poll r]
          unfolding turn_result_creds by blast
        with True Mapping_Error auth pj show ?thesis
          by (intro exI [of _ j2]) (simp add: poll_job_def Let_def c poll_explained_def fail_mapping_def)
      qed
    next
      case Raised
      with True t pj show ?thesis
        by (intro exI [of _ j1]) (simp add: poll_job_def Let_def c rj poll_explained_def)
    next
      case (Snapshot sn)
      show ?thesis
      proof (cases "sn_outcome sn = Out_Polling")
        case pol: True
        with True Snapshot t pj show ?thesis
          by (intro exI [of _ j1]) (simp add: poll_job_def Let_def c poll_explained_def)
      next
        case pol: False
        have sn: "snapshot_ok sn" using rep Snapshot by simp
        have "sn_outcome sn = Out_Polling \<Longrightarrow> jb_status j = Starting" using pol by simp
        from accept_total [OF s' j' sn this, where T = T and W = W and envs = envs and ph = Phase_Poll]
        obtain j2 where j2: "turn_result (projection_raises T W now envs) P okay (jb_id j) w (accept_snapshot T P W k now envs (jb_id j) sn Phase_Poll ?w) j2"
          "jb_status j2 = (case sn_outcome sn of
            Out_Polling \<Rightarrow> if sn_pjob sn = None then Indeterminate else Polling
          | Out_Succeeded \<Rightarrow> if is_obj (sn_result sn) \<and> truthy (sn_result sn) then Succeeded else Indeterminate
          | _ \<Rightarrow> Job_Failed)" unfolding turn_result_creds by blast
        obtain r w1 where w1: "accept_snapshot T P W k now envs (jb_id j) sn Phase_Poll ?w = (r, w1)" by force
        have "turn_result (projection_raises T W now envs) P okay (jb_id j) w (poll_job T P W k now envs rep j w) j2"
        proof (cases r)
          case (Inr u)
          with j2(1) True pol pj show ?thesis by (simp add: poll_job_def Let_def c Snapshot w1)
        next
          case (Inl e)
          have "reschedule_job P k now (jb_id j) w1 = w1"
            using refused_reschedule j2(1) unfolding w1 Inl by blast
          with j2(1) True pol pj show ?thesis
            by (simp add: poll_job_def Let_def c Snapshot w1 Inl) (simp add: turn_result_def)
        qed
        moreover have "poll_explained k now rep j j2"
          using True pol j2(2) by (cases "sn_outcome sn") (auto simp: poll_explained_def Snapshot)
        ultimately show ?thesis by auto
      qed
    qed
  qed
qed

text \<open>A worker that no longer holds the lease changes no job, whatever the provider says.\<close>

lemma finish_failure_stale:
  "okay (wd_jobs w) \<Longrightarrow> not_held P k now i (wd_jobs w) \<Longrightarrow>
   wd_jobs (snd (finish_failure_job T P W k now envs i st reason w)) = wd_jobs w"
  using finish_stale [of w k now i T W envs st None "Some reason"] by (auto simp: finish_failure_job_def)

lemma accept_stale:
  assumes s: "okay (wd_jobs w)" and n: "not_held P k now i (wd_jobs w)"
  shows "\<exists>e. accept_snapshot T P W k now envs i sn ph w = (Inl e, w)"
proof -
  have n': "\<forall>j. jp_get P (wd_jobs w) i = Some j \<longrightarrow> \<not> lease_owned j (wk_id k) now"
    using n by (simp add: not_held_def)
  have bind: "\<exists>e. jp_bind P i p (wk_id k) now nxt (wd_jobs w) = (Inl e, wd_jobs w)" for p nxt
    by (rule fenced_stale [OF bind_law s n'])
  have fin: "\<exists>e. finish_failure_job T P W k now envs i st reason w = (Inl e, w)"
    "\<exists>e. finish_job T P W k now envs i st res rs w = (Inl e, w)" for st reason res rs
    unfolding finish_failure_job_def by (rule finish_stale [OF s n])+
  show ?thesis
  proof (cases "sn_outcome sn = Out_Polling")
    case True
    show ?thesis
    proof (cases "sn_pjob sn")
      case None
      with True fin(1) show ?thesis by (simp add: accept_snapshot_def)
    next
      case (Some p)
      obtain e where "jp_bind P i p (wk_id k) now (now + wk_poll k) (wd_jobs w) = (Inl e, wd_jobs w)"
        using bind by blast
      with True Some fin(1) show ?thesis by (cases "p = []") (simp_all add: accept_snapshot_def)
    qed
  next
    case False
    with fin show ?thesis by (simp add: accept_snapshot_def Let_def)
  qed
qed

lemma start_stale:
  assumes s: "okay (wd_jobs w)" and n: "not_held P k now (jb_id j) (wd_jobs w)"
  shows "wd_jobs (snd (start_job T P W k now envs rep j w)) = wd_jobs w"
proof -
  obtain cred cs where c: "cred_get now (jb_id j) (wd_creds w) = (cred, cs)" by force
  let ?w = "w\<lparr>wd_creds := cs\<rparr>"
  have s': "okay (wd_jobs ?w)" and n': "not_held P k now (jb_id j) (wd_jobs ?w)" using s n by simp_all
  note ff = finish_failure_stale [OF s' n', simplified]
  show ?thesis
  proof (cases rep)
    case (Snapshot sn)
    obtain e where "accept_snapshot T P W k now envs (jb_id j) sn Phase_Start ?w = (Inl e, ?w)"
      using accept_stale [OF s' n'] by blast
    then show ?thesis by (simp add: start_job_def c Let_def Snapshot ff)
  qed (simp_all add: start_job_def c Let_def fail_mapping_def ff)
qed

lemma reschedule_stale:
  assumes s: "okay (wd_jobs w)" and n: "not_held P k now i (wd_jobs w)"
  shows "\<exists>e. jp_reschedule P i (wk_id k) now next (wd_jobs w) = (Inl e, wd_jobs w)"
proof -
  have "\<forall>j. jp_get P (wd_jobs w) i = Some j \<longrightarrow> \<not> lease_owned j (wk_id k) now"
    using n by (simp add: not_held_def)
  from fenced_stale [OF reschedule_law s this] show ?thesis .
qed

lemma poll_stale:
  assumes s: "okay (wd_jobs w)" and n: "not_held P k now (jb_id j) (wd_jobs w)"
  shows "wd_jobs (snd (poll_job T P W k now envs rep j w)) = wd_jobs w"
proof -
  obtain cred cs where c: "cred_get now (jb_id j) (wd_creds w) = (cred, cs)" by force
  let ?w = "w\<lparr>wd_creds := cs\<rparr>"
  have s': "okay (wd_jobs ?w)" and n': "not_held P k now (jb_id j) (wd_jobs ?w)" using s n by simp_all
  note ff = finish_failure_stale [OF s' n', simplified] finish_failure_stale [OF s n]
  obtain e where r: "jp_reschedule P (jb_id j) (wk_id k) now (now + wk_poll k) (wd_jobs w) = (Inl e, wd_jobs w)"
    using reschedule_stale [OF s n] by blast
  show ?thesis
  proof (cases rep)
    case (Snapshot sn)
    obtain e where "accept_snapshot T P W k now envs (jb_id j) sn Phase_Poll ?w = (Inl e, ?w)"
      using accept_stale [OF s' n'] by blast
    then show ?thesis by (simp add: poll_job_def c Let_def Snapshot ff r reschedule_job_def)
  qed (simp_all add: poll_job_def c Let_def fail_mapping_def ff r reschedule_job_def)
qed

text \<open>The claims of a pass.\<close>

lemma claim_result:
  assumes law: "claim_law (jp_get P) okay canon w dur limit cond f op" and s: "okay s"
    and w: "claim_inputs_ok w dur limit" "py_len (contract_strip w) \<le> 128"
  obtains js t where "op s = (Inr js, t)" and "okay t" and "length js \<le> limit" and "distinct (map jb_id js)"
    and "\<And>j'. j' \<in> set js \<Longrightarrow> jp_get P t (jb_id j') = Some j' \<and> (\<exists>j. jp_get P s (jb_id j') = Some j \<and> cond j \<and> j' = canon (f j))"
    and "\<And>i. i \<notin> jb_id ` set js \<Longrightarrow> jp_get P t i = jp_get P s i"
proof -
  from law have "\<forall>s. okay s \<and> claim_inputs_ok w dur limit \<and> py_len (contract_strip w) \<le> 128 \<longrightarrow>
        (\<exists>js t. op s = (Inr js, t) \<and> okay t \<and> length js \<le> limit \<and> distinct (map jb_id js) \<and>
           (\<forall>j' \<in> set js. jp_get P t (jb_id j') = Some j' \<and>
              (\<exists>j. jp_get P s (jb_id j') = Some j \<and> cond j \<and> j' = canon (f j))) \<and>
           (\<forall>i. i \<notin> jb_id ` set js \<longrightarrow> jp_get P t i = jp_get P s i) \<and>
           (length js < limit \<longrightarrow> (\<forall>i j. jp_get P s i = Some j \<and> cond j \<longrightarrow> i \<in> jb_id ` set js)))"
    unfolding claim_law_def by (rule conjunct2)
  from this [rule_format, OF conjI [OF s conjI [OF w]]] that show thesis by blast
qed

lemma canon_owner_strip:
  "contract_strip w = w \<Longrightarrow> jb_owner j = Some w \<Longrightarrow> jb_owner (canon j) = Some w"
  using canon_cases [of j] by auto

lemma pass_claims:
  assumes s: "okay s" and k: "worker_ok k"
  shows "\<exists>starts polls t. claim_pass P k now s = (Inr (starts, polls), t) \<and> okay t \<and>
     length starts + length polls \<le> 6 \<and> distinct (map jb_id (starts @ polls)) \<and>
     (\<forall>j \<in> set (starts @ polls). job_held P k now j t) \<and>
     (\<forall>j \<in> set starts. jb_status j = Starting) \<and> (\<forall>j \<in> set polls. jb_status j = Polling)"
proof -
  have "contract_strip (wk_id k) = wk_id k" "py_strip (wk_id k) = wk_id k"
    using k stripped_contract [of "wk_id k"] by (simp_all add: worker_ok_def)
  then have k': "contract_strip (wk_id k) = wk_id k" "py_strip (wk_id k) \<noteq> []" "py_len (contract_strip (wk_id k)) \<le> 128" "0 < wk_lease k"
    using k by (simp_all add: worker_ok_def)
  let ?s1 = "snd (jp_reopen P now 6 s)"
  have s1: "okay ?s1" using reopen_law [of now 6, unfolded reopen_law_def, rule_format, OF s] by simp
  have in6: "claim_inputs_ok (wk_id k) (wk_lease k) 6" using k' by (simp add: claim_inputs_ok_def)
  obtain starts s2 where c: "jp_claim_start P (wk_id k) now (wk_lease k) 6 ?s1 = (Inr starts, s2)" "okay s2"
    "length starts \<le> 6" "distinct (map jb_id starts)"
    "\<And>j'. j' \<in> set starts \<Longrightarrow> jp_get P s2 (jb_id j') = Some j' \<and>
       (\<exists>j. jp_get P ?s1 (jb_id j') = Some j \<and> can_start now j \<and> j' = canon (start_claimed (wk_id k) now (wk_lease k) j))"
    using claim_result [OF start_law s1 in6 k'(3), of now] by metis
  have held: "lease_owned (canon (start_claimed (wk_id k) now (wk_lease k) j)) (wk_id k) now"
    "lease_owned (canon (poll_claimed (wk_id k) now (wk_lease k) j)) (wk_id k) now" for j
    using k'(4) canon_owner_strip [OF k'(1), of "start_claimed (wk_id k) now (wk_lease k) j"]
      canon_owner_strip [OF k'(1), of "poll_claimed (wk_id k) now (wk_lease k) j"]
    by (simp_all add: lease_owned_def canon_until start_claimed_def poll_claimed_def)
  have st: "jb_status j = Starting \<and> lease_owned j (wk_id k) now" if "j \<in> set starts" for j
    using c(5) [OF that] held(1) by (auto simp: canon_status start_claimed_def)
  show ?thesis
  proof (cases "length starts < 6")
    case False
    then have "claim_pass P k now s = (Inr (starts, []), s2)" by (simp add: claim_pass_def Let_def c(1))
    with c st show ?thesis by (auto simp: job_held_def)
  next
    case True
    then have inp: "claim_inputs_ok (wk_id k) (wk_lease k) (6 - length starts)" using k' by (simp add: claim_inputs_ok_def)
    obtain polls t where p: "jp_claim_poll P (wk_id k) now (wk_lease k) (6 - length starts) s2 = (Inr polls, t)" "okay t"
      "length polls \<le> 6 - length starts" "distinct (map jb_id polls)"
      "\<And>j'. j' \<in> set polls \<Longrightarrow> jp_get P t (jb_id j') = Some j' \<and>
         (\<exists>j. jp_get P s2 (jb_id j') = Some j \<and> can_poll now j \<and> j' = canon (poll_claimed (wk_id k) now (wk_lease k) j))"
      "\<And>i. i \<notin> jb_id ` set polls \<Longrightarrow> jp_get P t i = jp_get P s2 i"
      using claim_result [OF poll_law c(2) inp k'(3), of now] by metis
    have pt: "jb_status j = Polling \<and> lease_owned j (wk_id k) now" if "j \<in> set polls" for j
      using p(5) [OF that] held(2) by (auto simp: canon_status poll_claimed_def can_poll_def)
    have disj: "jb_id j \<notin> jb_id ` set polls" if "j \<in> set starts" for j
    proof
      assume "jb_id j \<in> jb_id ` set polls"
      then obtain j' where "j' \<in> set polls" "jb_id j' = jb_id j" by auto
      with p(5) [of j'] c(5) [OF that] st [OF that] show False by (auto simp: can_poll_def)
    qed
    have keep: "jp_get P t (jb_id j) = Some j" if "j \<in> set starts" for j
      using p(6) [OF disj [OF that]] c(5) [OF that] by simp
    have "claim_pass P k now s = (Inr (starts, polls), t)"
      using True by (simp add: claim_pass_def Let_def c(1) p(1) lift_result_def)
    moreover have "length starts + length polls \<le> 6" using p(3) True by linarith
    moreover have "distinct (map jb_id (starts @ polls))" using c(4) p(4) disj by auto
    moreover have "\<forall>j \<in> set (starts @ polls). job_held P k now j t" using keep p(5) st pt by (auto simp: job_held_def)
    ultimately show ?thesis using p(2) st pt by blast
  qed
qed

end

end
