(* ===== verification/Jobs_Claims.thy ===== *)
theory Jobs_Claims
  imports Jobs_Worker
begin

text \<open>
  What the two repositories and the worker promise, with the laws of \<open>job_repository\<close>
  discharged for the in-memory and for the SQL one (\<open>mem_jobs\<close>, \<open>sql_jobs\<close>).
\<close>

definition repository_port :: "job_table job_port \<Rightarrow> bool" where
  "repository_port P \<longleftrightarrow> P = mem_port \<or> P = sql_port"

text \<open>A stored job used by the witnesses, in the states a worker meets it.\<close>

definition example_job :: job where
  "example_job = \<lparr>jb_id = ''generation-job-1'', jb_user = ''u'', jb_conv = ''c'', jb_ws = ''w'', jb_kind = Image,
     jb_item = ''a'', jb_variant = 1, jb_status = Queued, jb_request = JObj [], jb_hash = ''h'', jb_key = ''k'',
     jb_provider = ''p'', jb_pjob = None, jb_result = None, jb_reason = None, jb_next = None, jb_owner = None,
     jb_until = None, jb_created = 0, jb_updated = 0\<rparr>"

definition example_starting :: job where
  "example_starting = start_claimed ''w1'' 10 30 example_job"

definition example_polling :: job where
  "example_polling = poll_claimed ''w1'' 10 30 (bound ''pj'' 5 8 example_job)"

definition example_failed :: job where
  "example_failed = completed_with Job_Failed None (Some ''provider_timeout'') 20 example_polling"

definition example_worker :: worker where
  "example_worker = \<lparr>wk_id = ''w1'', wk_lease = 30, wk_poll = 3, wk_image = True, wk_video = True\<rparr>"

definition one_job :: "job \<Rightarrow> job_table" where
  "one_job j = [(jb_id j, j)]"

lemma one_job_ok: "job_sound j \<Longrightarrow> jobs_ok (one_job j)"
  by (simp add: one_job_def jobs_ok_def keyed_def dict_vals_def)

lemma one_job_get: "jp_get mem_port (one_job j) (jb_id j) = Some j"
  by (simp add: one_job_def mem_port_def)

lemma example_sound: "job_sound example_job" "job_sound example_starting" "job_sound example_polling" "job_sound example_failed"
  by code_simp+

section \<open>The properties\<close>

text \<open>
  C8. A lease is exclusive. While the lease of a worker on a job runs, no session of other workers
  (claims, bindings, reschedulings, completions, reopenings in any order, at times before the lease
  ends) changes that job, in the in-memory and in the SQL repository.
\<close>

theorem lease_excludes_other_workers:
  assumes "repository_port P" and "jobs_ok d"
    and "\<forall>c \<in> set cs. cmd_ok c \<and> cmd_worker c \<noteq> Some w \<and> cmd_time c < e"
    and "jp_get P d i = Some j" and "jb_owner j = Some w" and "jb_until j = Some e"
    and "jb_status j \<in> {Starting, Polling}"
  shows "jp_get P (run_all (job_exec P) d cs) i = Some j"
  using assms(1) mem_jobs.session_held [OF assms(2,3)] sql_jobs.session_held [OF assms(2,3)] assms(4-7)
  by (auto simp: repository_port_def)

lemma lease_excludes_other_workers_witness:
  "jp_get mem_port (run_all (job_exec mem_port) (one_job example_starting)
     [Claim_Start ''w2'' 20 30 6, Complete ''generation-job-1'' ''w2'' Job_Failed 25 None (Some ''x''), Reopen 26 6])
     ''generation-job-1'' = Some example_starting"
proof (rule lease_excludes_other_workers [where w = "''w1''" and e = 40])
  show "repository_port mem_port" by (simp add: repository_port_def)
  show "jobs_ok (one_job example_starting)" by (rule one_job_ok [OF example_sound(2)])
  show "\<forall>c \<in> set [Claim_Start ''w2'' 20 30 6, Complete ''generation-job-1'' ''w2'' Job_Failed 25 None (Some ''x''), Reopen 26 6].
      cmd_ok c \<and> cmd_worker c \<noteq> Some ''w1'' \<and> cmd_time c < 40"
    by code_simp
  show "jp_get mem_port (one_job example_starting) ''generation-job-1'' = Some example_starting"
    by code_simp
qed (simp_all add: example_starting_def start_claimed_def)

text \<open>
  C10. A closed job is final. No session of workers changes a succeeded, failed, timed out, expired or
  indeterminate job, except that the worker's scan may reopen an indeterminate one that ended without
  a result address.
\<close>

theorem closed_job_is_final:
  assumes "repository_port P" and "jobs_ok d" and "\<forall>c \<in> set cs. cmd_ok c"
    and "jp_get P d i = Some j" and "job_closed (jb_status j)" and "\<not> is_missing_mapped_result j"
  shows "jp_get P (run_all (job_exec P) d cs) i = Some j"
  using assms(1) mem_jobs.session_closed [OF assms(2,3)] sql_jobs.session_closed [OF assms(2,3)] assms(4-6)
  by (auto simp: repository_port_def)

lemma closed_job_is_final_witness:
  "jp_get sql_port (run_all (job_exec sql_port) (one_job example_failed)
     [Reopen 30 6, Claim_Poll ''w1'' 30 30 6]) ''generation-job-1'' = Some example_failed"
proof (rule closed_job_is_final)
  show "repository_port sql_port" by (simp add: repository_port_def)
  show "jobs_ok (one_job example_failed)" by (rule one_job_ok [OF example_sound(4)])
  show "\<forall>c \<in> set [Reopen 30 6, Claim_Poll ''w1'' 30 30 6]. cmd_ok c" by code_simp
  show "jp_get sql_port (one_job example_failed) ''generation-job-1'' = Some example_failed" by code_simp
  show "job_closed (jb_status example_failed)" by code_simp
  show "\<not> is_missing_mapped_result example_failed" by code_simp
qed

text \<open>
  C9. A claimed job never stays claimed. When a worker that holds the lease processes the provider's
  answer, it changes only that job, gives the lease back and leaves the job polling or closed, also
  when the turn raises; it raises only after the job is closed and because its projection into
  the workspace raised. A new job is polling exactly when the provider accepted it with an id, succeeded exactly on
  a non-empty result, failed only when no provider is configured or the provider said so, and
  indeterminate otherwise; a polled job keeps polling exactly when the answer is not final, with the
  next poll one interval away.
\<close>

theorem claimed_job_settles:
  assumes "repository_port P" and "jobs_ok (wd_jobs w)" and "job_held P k now j (wd_jobs w)" and "reply_ok rep"
    and "jb_status j \<in> {Starting, Polling}" and "world_of (jb_id j) = (now, envs, rep)"
  shows "\<exists>j'. turn_result (projection_raises T W now envs) P jobs_ok (jb_id j) w (job_turn T P W k world_of j w) j' \<and>
     (if jb_status j = Starting
      then start_explained k (fst (cred_get now (jb_id j) (wd_creds w)) \<noteq> None) rep j j'
      else poll_explained k now rep j j')"
proof (cases "jb_status j = Starting")
  case True
  then show ?thesis
    using assms(1) mem_jobs.start_settles [of w k now j rep T W envs] sql_jobs.start_settles [of w k now j rep T W envs] assms(2-6)
    by (auto simp: job_turn_def repository_port_def)
next
  case False
  then show ?thesis
    using assms(1) mem_jobs.poll_settles [of w k now j rep T W envs] sql_jobs.poll_settles [of w k now j rep T W envs] assms(2-6)
    by (auto simp: job_turn_def repository_port_def)
qed

definition example_texts :: texts where
  "example_texts = \<lparr>tx_repr = (\<lambda>_. []), tx_url = (\<lambda>s. Inr (Some s)), tx_iso = (\<lambda>_. [])\<rparr>"

definition no_workspace :: "unit ws_port" where
  "no_workspace = \<lparr>wp_get = (\<lambda>_ _ _. None), wp_apply = (\<lambda>_ _ _ _ _ w. (False, w))\<rparr>"

definition example_world :: "job \<Rightarrow> (job_table, unit) world" where
  "example_world j = \<lparr>wd_jobs = one_job j, wd_creds = \<lparr>cs_ttl = 60, cs_values = [(''generation-job-1'', ''t'', 100)]\<rparr>,
     wd_ws = ()\<rparr>"

definition url_missing :: reply where
  "url_missing = Mapping_Error ''image_result_url_missing''"

definition calm :: "unit envs" where
  "calm = (Others (\<lambda>w. w), Others (\<lambda>w. w), Others (\<lambda>w. w))"

lemma claimed_job_settles_witness:
  "\<exists>j'. turn_result (projection_raises example_texts no_workspace 20 calm) mem_port jobs_ok ''generation-job-1''
      (example_world example_polling)
      (job_turn example_texts mem_port no_workspace example_worker (\<lambda>_. (20, calm, url_missing)) example_polling
        (example_world example_polling)) j' \<and> jb_status j' \<noteq> Polling"
proof -
  have id: "jb_id example_polling = ''generation-job-1''" and st: "jb_status example_polling = Polling"
    by code_simp+
  have "job_held mem_port example_worker 20 example_polling (wd_jobs (example_world example_polling))"
    by code_simp
  from claimed_job_settles [OF _ _ this, of url_missing "\<lambda>_. (20, calm, url_missing)" calm example_texts no_workspace]
  have "\<exists>j'. turn_result (projection_raises example_texts no_workspace 20 calm) mem_port jobs_ok ''generation-job-1'' (example_world example_polling)
      (job_turn example_texts mem_port no_workspace example_worker (\<lambda>_. (20, calm, url_missing)) example_polling
        (example_world example_polling)) j' \<and> poll_explained example_worker 20 url_missing example_polling j'"
    using one_job_ok [OF example_sound(3)]
    by (simp add: repository_port_def example_world_def url_missing_def st id)
  moreover have "safe_mapping_reason ''image_result_url_missing'' \<noteq> ''provider_status_authorization_unavailable''"
    by code_simp
  ultimately show ?thesis by (auto simp: poll_explained_def url_missing_def)
qed

text \<open>
  A worker whose lease has lapsed or was taken over changes no job: whatever answer it brings back,
  the repository is exactly as before its turn.
\<close>

lemma stale_worker_changes_nothing:
  assumes "repository_port P" and "jobs_ok (wd_jobs w)" and "world_of (jb_id j) = (now, envs, rep)"
    and "not_held P k now (jb_id j) (wd_jobs w)"
  shows "wd_jobs (snd (job_turn T P W k world_of j w)) = wd_jobs w"
  using assms(1) mem_jobs.start_stale [OF assms(2), of k now j T W envs rep] sql_jobs.start_stale [OF assms(2), of k now j T W envs rep]
    mem_jobs.poll_stale [OF assms(2), of k now j T W envs rep] sql_jobs.poll_stale [OF assms(2), of k now j T W envs rep] assms(3,4)
  by (auto simp: job_turn_def repository_port_def)

lemma stale_worker_changes_nothing_witness:
  "wd_jobs (snd (job_turn example_texts sql_port no_workspace example_worker (\<lambda>_. (50, calm, Raised)) example_starting
     (example_world example_starting))) = one_job example_starting"
proof -
  have "not_held sql_port example_worker 50 (jb_id example_starting) (one_job example_starting)"
  proof -
    have g: "jp_get sql_port (one_job example_starting) (jb_id example_starting) = Some example_starting" by code_simp
    have n: "\<not> lease_owned example_starting (wk_id example_worker) 50" by code_simp
    show ?thesis unfolding not_held_def using g n by simp
  qed
  then show ?thesis
    using stale_worker_changes_nothing [of sql_port "example_world example_starting" "\<lambda>_. (50, calm, Raised)"
        example_starting 50 calm Raised example_worker example_texts no_workspace]
      one_job_ok [OF example_sound(2)]
    by (simp add: repository_port_def example_world_def)
qed

text \<open>
  A pass of the worker claims at most six jobs in all, no job twice, new ones before polls, and it
  holds the lease of every job it claimed; claiming never raises for a well-formed worker.
\<close>

lemma pass_claims_at_most_six:
  assumes "repository_port P" and "jobs_ok d" and "worker_ok k"
  shows "\<exists>starts polls t. claim_pass P k now d = (Inr (starts, polls), t) \<and> jobs_ok t \<and>
     length starts + length polls \<le> 6 \<and> distinct (map jb_id (starts @ polls)) \<and>
     (\<forall>j \<in> set (starts @ polls). job_held P k now j t) \<and>
     (\<forall>j \<in> set starts. jb_status j = Starting) \<and> (\<forall>j \<in> set polls. jb_status j = Polling)"
  using assms(1) mem_jobs.pass_claims [OF assms(2,3)] sql_jobs.pass_claims [OF assms(2,3)]
  by (auto simp: repository_port_def)

lemma pass_claims_at_most_six_witness:
  "\<exists>starts polls t. claim_pass sql_port example_worker 40 (one_job example_starting) = (Inr (starts, polls), t) \<and>
     length starts + length polls \<le> 6"
proof -
  have "worker_ok example_worker" by code_simp
  from pass_claims_at_most_six [OF _ one_job_ok [OF example_sound(2)] this, of sql_port 40] show ?thesis
    by (auto simp: repository_port_def)
qed

definition spinning_job :: job where
  "spinning_job = completed_with Indeterminate None (Some ''provider_poll_image_result_url_missing'') 20 example_polling"

fun passes :: "nat \<Rightarrow> (job_table, unit) world \<Rightarrow> nat \<times> (job_table, unit) world" where
  "passes 0 w = (0, w)"
| "passes (Suc n) w =
     (case run_once example_texts mem_port no_workspace example_worker 20 (\<lambda>_. (20, calm, url_missing)) w of
        (Inl _, w1) \<Rightarrow> (0, w1)
      | (Inr m, w1) \<Rightarrow> (case passes n w1 of (k, w2) \<Rightarrow> (m + k, w2)))"

definition spinning_world :: "(job_table, unit) world" where
  "spinning_world = \<lparr>wd_jobs = one_job spinning_job, wd_creds = \<lparr>cs_ttl = 60, cs_values = []\<rparr>, wd_ws = ()\<rparr>"

lemma spinning_pass:
  "run_once example_texts mem_port no_workspace example_worker 20 (\<lambda>_. (20, calm, url_missing)) spinning_world =
     (Inr 1, spinning_world)"
  by code_simp

text \<open>
  A mapping failure does not end the polling. The worker closes a poll whose answer had no result
  address as indeterminate, which its docstring calls a terminal state that stops idle polling of a
  finished job; but every pass first reopens exactly these jobs, due at once. Starting from such a job,
  each pass claims it, asks the provider again, closes it the same way, and leaves the repository as it
  was: any number of passes are spent on it.
\<close>

lemma mapping_failure_is_polled_for_ever:
  "passes n spinning_world = (n, spinning_world) \<and>
   (case poll_job example_texts mem_port no_workspace example_worker 20 calm url_missing example_polling
           (example_world example_polling) of
      (r, w) \<Rightarrow> r = Inr () \<and> wd_jobs w = one_job spinning_job)"
proof
  show "passes n spinning_world = (n, spinning_world)"
    by (induction n) (simp_all add: spinning_pass)
  show "case poll_job example_texts mem_port no_workspace example_worker 20 calm url_missing example_polling
           (example_world example_polling) of
      (r, w) \<Rightarrow> r = Inr () \<and> wd_jobs w = one_job spinning_job"
    by code_simp
qed

section \<open>The projection into the workspace\<close>

lemma job_status_after:
  "is_obj x \<Longrightarrow> jget ''status'' (job_failed st reason now x) = JStr st"
  "is_obj x \<Longrightarrow> jget ''status'' (job_succeeded R vid ref url result now x) = JStr ''succeeded''"
  by (simp_all add: job_failed_def job_succeeded_def jget_jputs)

text \<open>Entry by entry: the job's own entries are closed, all others are as before.\<close>

definition jobs_closed :: "(json \<Rightarrow> string) \<Rightarrow> string \<Rightarrow> json list \<Rightarrow> json list \<Rightarrow> bool" where
  "jobs_closed R jid old new \<longleftrightarrow>
     list_all2 (\<lambda>x y. if job_hit R jid x then job_hit R jid y \<and> \<not> open_job_status (jget ''status'' y) else y = x) old new"

lemma rewrite_jobs_closed:
  assumes "\<And>x. job_hit R jid x \<Longrightarrow> job_hit R jid (f x) \<and> \<not> open_job_status (jget ''status'' (f x))"
  shows "jobs_closed R jid js (rewrite_jobs R jid f js)"
  by (auto simp: jobs_closed_def rewrite_jobs_def list_all2_map2 assms list.rel_refl_strong)

lemma job_hit_obj: "job_hit R jid x \<Longrightarrow> is_obj x"
  by (simp add: job_hit_def)

lemma failure_closes:
  assumes "scene_hit R jid sc" and "\<not> open_job_status (JStr st)"
  shows "jobs_closed R jid (scene_jobs sc) (scene_jobs (scene_with_failure R jid st reason now sc))"
proof -
  have o: "is_obj sc" "is_obj (scene_with_failure R jid st reason now sc)"
    using assms(1) by (simp_all add: scene_hit_def scene_with_failure_def)
  show ?thesis
    unfolding scene_jobs_def by (simp add: o scene_failure_jobs [OF assms(1)])
      (rule rewrite_jobs_closed, use assms(2) in \<open>auto dest: job_hit_obj simp: job_status_after\<close>)
qed

lemma success_closes:
  assumes "scene_hit R jid sc"
  shows "jobs_closed R jid (scene_jobs sc) (scene_jobs (updated_scene R jid vid ref url result now old sc))"
proof -
  have o: "is_obj sc" using assms(1) by (simp add: scene_hit_def)
  show ?thesis
    unfolding scene_jobs_def by (simp add: o updated_scene_jobs [OF assms(1)])
      (rule rewrite_jobs_closed, auto dest: job_hit_obj simp: job_status_after open_job_status_def)
qed

text \<open>
  A projected result closes exactly its job. Whatever the payload, the patch of a finished video
  job lists scenes that mention the job, keeps every scene's job list in length and order, leaves the
  entries of other jobs untouched, and no entry of the job in a patched scene is still queued, starting
  or polling.
\<close>

lemma projection_closes_its_job:
  assumes "st \<in> {Succeeded, Job_Failed, Timeout, Expired, Indeterminate}"
    and "p = (if st = Succeeded then build_scene_generation_success_patch R U payload jid result now
              else Inr (build_scene_generation_failure_patch R payload jid (job_status_text st) reason now))"
    and "p = Inr (Some patch)"
  shows "\<exists>scs. jget ''scenes'' payload = JList scs \<and> items_of (jget ''scenes'' patch) \<noteq> [] \<and>
     (\<forall>new \<in> set (items_of (jget ''scenes'' patch)). \<exists>old \<in> set scs. scene_hit R jid old \<and> scene_hit R jid new \<and>
        jobs_closed R jid (scene_jobs old) (scene_jobs new))"
proof (cases "st = Succeeded")
  case True
  then have b: "build_scene_generation_success_patch R U payload jid result now = Inr (Some patch)"
    using assms by simp
  then obtain scs url vid ref nexts where scs: "jget ''scenes'' payload = JList scs"
    and nexts: "py_map (scene_with_success R jid vid ref url result now) scs = Inr nexts"
    and hits: "filter (scene_hit R jid) nexts \<noteq> []"
    and "success_patch R payload nexts (last (filter (scene_hit R jid) nexts)) = Inr patch"
    by (auto simp: build_scene_generation_success_patch_def Let_def bind_result_Inr_iff
        split: sum.splits option.splits if_splits json.splits)
  then have target: "items_of (jget ''scenes'' patch) = [last (filter (scene_hit R jid) nexts)]"
    by (auto simp: success_patch_def Let_def bind_result_Inr_iff)
  define new where "new = last (filter (scene_hit R jid) nexts)"
  have new: "new \<in> set nexts" "scene_hit R jid new" using last_in_set [OF hits] by (auto simp: new_def)
  from py_map_from [OF nexts new(1)] obtain old where old: "old \<in> set scs"
    "scene_with_success R jid vid ref url result now old = Inr new" by blast
  from old(2) new(2) have "scene_hit R jid old \<and> jobs_closed R jid (scene_jobs old) (scene_jobs new)"
    by (cases rule: scene_success_cases) (auto intro: success_closes)
  with scs old(1) new(2) show ?thesis by (auto simp: target new_def [symmetric])
next
  case False
  then have b: "build_scene_generation_failure_patch R payload jid (job_status_text st) reason now = Some patch"
    using assms by simp
  have st: "\<not> open_job_status (JStr (job_status_text st))"
    using assms(1) by (auto simp: open_job_status_def)
  from b obtain scs where scs: "jget ''scenes'' payload = JList scs" and ex: "list_ex (scene_hit R jid) scs"
    and pp: "items_of (jget ''scenes'' patch) =
       filter (scene_hit R jid) (map (scene_with_failure R jid (job_status_text st) reason now) scs)"
    by (auto simp: build_scene_generation_failure_patch_def Let_def split: if_splits json.splits)
  have "items_of (jget ''scenes'' patch) \<noteq> []" using ex by (auto simp: pp filter_empty_conv list_ex_iff)
  moreover have "\<exists>old \<in> set scs. scene_hit R jid old \<and> scene_hit R jid new \<and> jobs_closed R jid (scene_jobs old) (scene_jobs new)"
    if "new \<in> set (items_of (jget ''scenes'' patch))" for new
    using that failure_closes [OF _ st] by (auto simp: pp)
  ultimately show ?thesis using scs by blast
qed

definition example_payload :: json where
  "example_payload = JObj [(''scenes'', JList [JObj [(''scene_id'', JStr ''s''),
     (''generation_jobs'', JList [JObj [(''job_id'', JStr ''g1''), (''status'', JStr ''polling'')],
                                  JObj [(''job_id'', JStr ''g2''), (''status'', JStr ''queued'')]])]])]"

lemma projection_closes_its_job_witness:
  "\<exists>scs. jget ''scenes'' example_payload = JList scs \<and>
     items_of (jget ''scenes'' (the (build_scene_generation_failure_patch (\<lambda>_. []) example_payload ''g1'' ''failed'' None ''t''))) \<noteq> []"
proof -
  have "build_scene_generation_failure_patch (\<lambda>_. []) example_payload ''g1'' ''failed'' None ''t'' =
     Some (the (build_scene_generation_failure_patch (\<lambda>_. []) example_payload ''g1'' ''failed'' None ''t''))"
    by code_simp
  with projection_closes_its_job [of Job_Failed "Inr (build_scene_generation_failure_patch (\<lambda>_. []) example_payload ''g1'' ''failed'' None ''t'')"
      "\<lambda>_. []" "\<lambda>s. Inr (Some s)" example_payload "''g1''" JNull "''t''" None]
  show ?thesis by auto
qed

section \<open>A scene that stops every success projection\<close>

lemma scene_hit_iterates: "scene_hit R jid sc \<Longrightarrow> get_iter ''generation_jobs'' sc \<noteq> Inl ()"
  by (cases sc) (auto simp: scene_hit_def split: option.splits json.splits elim!: is_jlist.elims)

text \<open>
  One scene whose generation_jobs cannot be iterated (a stored null, say) stops the projection of every
  successful video job of its workspace, whichever scene the job belongs to: the builder counts the
  closed jobs of all scenes and raises, or finds nothing to change.
\<close>

lemma null_jobs_stop_projection:
  assumes "jget ''scenes'' payload = JList scs" and "sc \<in> set scs" and "is_obj sc"
    and "get_iter ''generation_jobs'' sc = Inl ()"
  shows "build_scene_generation_success_patch R U payload jid result now \<noteq> Inr (Some patch)"
proof
  assume "build_scene_generation_success_patch R U payload jid result now = Inr (Some patch)"
  then obtain vid ref url nexts target where
    nexts: "py_map (scene_with_success R jid vid ref url result now) scs = Inr nexts"
    and ok: "success_patch R payload nexts target = Inr patch"
    using assms(1)
    by (auto simp: build_scene_generation_success_patch_def Let_def bind_result_Inr_iff
        split: sum.splits option.splits if_splits json.splits)
  have "\<not> scene_hit R jid sc" using scene_hit_iterates [of R jid sc] assms(4) by blast
  with py_map_into [OF nexts assms(2)] have "sc \<in> set nexts" by (auto simp: scene_with_success_def)
  moreover obtain n where "count_closed nexts = Inr n"
    using ok by (auto simp: success_patch_def bind_result_Inr_iff)
  then obtain jss where "py_map (get_iter ''generation_jobs'') (filter is_obj nexts) = Inr jss"
    by (auto simp: count_closed_def bind_result_Inr_iff)
  ultimately show False using py_map_into [of _ "filter is_obj nexts" jss sc] assms(3,4) by fastforce
qed

definition null_payload :: json where
  "null_payload = JObj [(''scenes'', JList
     [JObj [(''scene_id'', JStr ''a''), (''generation_jobs'', JList [JObj [(''job_id'', JStr ''generation-job-1'')]])],
      JObj [(''scene_id'', JStr ''b''), (''generation_jobs'', JNull)]])]"

definition one_workspace :: "ws_view ws_port" where
  "one_workspace = \<lparr>wp_get = (\<lambda>w _ _. Some w), wp_apply = (\<lambda>_ _ p _ _ w. (True, w\<lparr>wv_payload := p\<rparr>))\<rparr>"

definition video_done :: reply where
  "video_done = Snapshot \<lparr>sn_pjob = Some ''pj'', sn_outcome = Out_Succeeded,
     sn_result = JObj [(''variant_id'', JStr ''v''), (''artifact_ref'', JStr ''artifact:1''), (''video_url'', JStr ''x'')],
     sn_reason = ''provider_succeeded''\<rparr>"

definition video_world :: "json \<Rightarrow> (job_table, ws_view) world" where
  "video_world p = \<lparr>wd_jobs = one_job (example_polling\<lparr>jb_kind := Video\<rparr>),
     wd_creds = \<lparr>cs_ttl = 60, cs_values = [(''generation-job-1'', ''t'', 100)]\<rparr>,
     wd_ws = \<lparr>wv_conv = ''c'', wv_revision = 1, wv_payload = p\<rparr>\<rparr>"

text \<open>
  A turn on such a workspace: the answer of the provider closes the job as succeeded, the exception is
  only logged, the workspace never shows the video and the credential stays. Without the null the same
  answer changes the workspace and discards the credential.
\<close>

lemma success_is_never_projected:
  "case poll_job example_texts mem_port one_workspace example_worker 20
      (Others (\<lambda>w. w), Others (\<lambda>w. w), Others (\<lambda>w. w)) video_done
      (example_polling\<lparr>jb_kind := Video\<rparr>) (video_world null_payload) of
     (r, w) \<Rightarrow> r = Inr () \<and> map_option jb_status (map_of (wd_jobs w) ''generation-job-1'') = Some Succeeded \<and>
               wd_ws w = wd_ws (video_world null_payload) \<and> cs_values (wd_creds w) \<noteq> []"
  by code_simp

lemma success_is_projected:
  "case poll_job example_texts mem_port one_workspace example_worker 20
      (Others (\<lambda>w. w), Others (\<lambda>w. w), Others (\<lambda>w. w)) video_done
      (example_polling\<lparr>jb_kind := Video\<rparr>) (video_world (JObj [(''scenes'', JList
         [JObj [(''generation_jobs'', JList [JObj [(''job_id'', JStr ''generation-job-1'')]])]])])) of
     (r, w) \<Rightarrow> r = Inr () \<and> jget ''scene_video_progress'' (wv_payload (wd_ws w)) \<noteq> JNull \<and>
               cs_values (wd_creds w) = []"
  by code_simp

end
