(* ===== verification/Json_Text.thy ===== *)
theory Json_Text
  imports Json Sha256 "HOL-Library.Multiset"
begin

text \<open>
  \<^verbatim>\<open>json.dumps(value, ensure_ascii=False, sort_keys=..., separators=(",", ":"))\<close> and
  Python's \<^verbatim>\<open>==\<close> on JSON values. The text of a float is a parameter (\<open>fl\<close>). The
  byte order of UTF-8 strings is the code point order by which Python sorts keys.
  \<open>utf8\<close> writes a literal of the source that is not ASCII by its bytes.
\<close>

definition utf8 :: "int list \<Rightarrow> string" where
  "utf8 bs = map char_of bs"

fun join_with :: "string \<Rightarrow> string list \<Rightarrow> string" where
  "join_with sep [] = []"
| "join_with sep [t] = t"
| "join_with sep (t # u # ts) = t @ sep @ join_with sep (u # ts)"

definition escape_char :: "char \<Rightarrow> string" where
  "escape_char c = (let n = (of_char c :: int) in
     if n = 34 then [char_of (92::int), c]
     else if n = 92 then [c, c]
     else if n < 32 then
       (if n = 10 then char_of (92::int) # ''n''
        else if n = 13 then char_of (92::int) # ''r''
        else if n = 9 then char_of (92::int) # ''t''
        else if n = 8 then char_of (92::int) # ''b''
        else if n = 12 then char_of (92::int) # ''f''
        else char_of (92::int) # ''u00'' @ [hex_digit (n div 16), hex_digit (n mod 16)])
     else [c])"

definition quoted :: "string \<Rightarrow> string" where
  "quoted s = [char_of (34::int)] @ concat (map escape_char s) @ [char_of (34::int)]"

fun jdump :: "(rat \<Rightarrow> string) \<Rightarrow> bool \<Rightarrow> json \<Rightarrow> string" where
  "jdump fl srt JNull = ''null''"
| "jdump fl srt (JBool b) = (if b then ''true'' else ''false'')"
| "jdump fl srt (JInt n) = show_int n"
| "jdump fl srt (JFloat q) = fl q"
| "jdump fl srt (JStr s) = quoted s"
| "jdump fl srt (JList xs) = ''['' @ join_with '','' (map (jdump fl srt) xs) @ '']''"
| "jdump fl srt (JObj d) =
     (let ps = map (\<lambda>(k, v). (k, jdump fl srt v)) d;
          qs = (if srt then sort_key fst ps else ps)
      in ''{'' @ join_with '','' (map (\<lambda>(k, t). quoted k @ '':'' @ t) qs) @ ''}'')"

lemma key_once: "distinct (map fst d) \<Longrightarrow> length (filter (\<lambda>y. k = fst y) d) \<le> 1"
proof (induction d)
  case (Cons y d)
  have "k = fst y \<Longrightarrow> filter (\<lambda>y. k = fst y) d = []"
    using Cons.prems by (auto simp: filter_empty_conv)
  with Cons show ?case by auto
qed simp

lemma same_mset_short: "length xs \<le> 1 \<Longrightarrow> mset ys = mset xs \<Longrightarrow> ys = xs"
  by (cases xs; cases ys) (auto dest: mset_eq_length)

lemma jdump_sorted_perm:
  assumes "mset d = mset e" and "distinct (map fst d)"
  shows "jdump fl True (JObj d) = jdump fl True (JObj e)"
proof -
  let ?g = "\<lambda>(k, v). (k, jdump fl True v)"
  have fst_g: "map fst (map ?g xs) = map fst xs" for xs :: "(string \<times> json) list"
    by (induction xs) auto
  have dist: "distinct (map fst (map ?g d))" using assms(2) by (simp only: fst_g)
  have "sort_key fst (map ?g d) = sort_key fst (map ?g e)"
  proof (rule properties_for_sort_key)
    show "mset (sort_key fst (map ?g e)) = mset (map ?g d)" using assms(1) by simp
    show "sorted (map fst (sort_key fst (map ?g e)))" by simp
    fix x :: "string \<times> string"
    let ?P = "\<lambda>y::string \<times> string. fst x = fst y"
    have ms: "mset (filter ?P (sort_key fst (map ?g e))) = mset (filter ?P (map ?g d))"
      using assms(1) by simp
    show "filter ?P (sort_key fst (map ?g e)) = filter ?P (map ?g d)"
      by (rule same_mset_short [OF key_once [OF dist] ms])
  qed
  then show ?thesis by (simp add: Let_def)
qed

section \<open>Equality of values\<close>

fun num_of :: "json \<Rightarrow> rat option" where
  "num_of (JBool b) = Some (if b then 1 else 0)"
| "num_of (JInt n) = Some (of_int n)"
| "num_of (JFloat q) = Some q"
| "num_of _ = None"

function py_eq :: "json \<Rightarrow> json \<Rightarrow> bool" where
  "py_eq JNull j = (j = JNull)"
| "py_eq (JBool b) j = (num_of j = num_of (JBool b))"
| "py_eq (JInt n) j = (num_of j = num_of (JInt n))"
| "py_eq (JFloat q) j = (num_of j = num_of (JFloat q))"
| "py_eq (JStr s) j = (j = JStr s)"
| "py_eq (JList xs) j = (case j of JList ys \<Rightarrow> length xs = length ys \<and> list_all (\<lambda>(x, y). py_eq x y) (zip xs ys) | _ \<Rightarrow> False)"
| "py_eq (JObj d) j = (case j of
      JObj e \<Rightarrow> length d = length e \<and>
        list_all (\<lambda>(k, v). case map_of e k of None \<Rightarrow> False | Some w \<Rightarrow> py_eq v w) d
    | _ \<Rightarrow> False)"
  by pat_completeness auto

lemma size_item_less:
  "x \<in> set xs \<Longrightarrow> size x < Suc (size_list size xs)"
  "(k, v) \<in> set d \<Longrightarrow> size v < Suc (size_list (size_prod (\<lambda>_. 0) size) d)"
  by (induction xs, auto) (induction d, auto)

termination py_eq
  by (relation "measure (\<lambda>(a, b). size a)") (auto dest: set_zip_leftD intro: size_item_less)

fun json_wf :: "json \<Rightarrow> bool" where
  "json_wf (JList xs) = list_all json_wf xs"
| "json_wf (JObj d) = (distinct (map fst d) \<and> list_all (\<lambda>(k, v). json_wf v) d)"
| "json_wf _ = True"

lemma py_eq_refl: "json_wf j \<Longrightarrow> py_eq j j"
proof (induction j rule: json_wf.induct)
  case (1 xs)
  then have "list_all (\<lambda>x. py_eq x x) xs" by (simp add: list_all_iff)
  then have "list_all (\<lambda>(x, y). py_eq x y) (zip xs xs)" by (induction xs) auto
  then show ?case by simp
next
  case (2 d)
  then have "(k, v) \<in> set d \<Longrightarrow> py_eq v v" for k v by (force simp: list_all_iff)
  moreover have "(k, v) \<in> set d \<Longrightarrow> map_of d k = Some v" for k v using 2 by (simp add: map_of_is_SomeI)
  ultimately show ?case by (auto simp: list_all_iff)
qed auto

end
