(* ===== verification/Tables.thy ===== *)
theory Tables
  imports Prelude
begin

text \<open>
  Tables: a dictionary of rows by primary key. \<open>unique_in\<close> is the check of a nullable unique
  column when a row is written, \<open>uniq\<close> the constraint itself, \<open>rows_le\<close> the order in which
  a table only grows and each of its rows only moves up in \<open>R\<close>.
\<close>

named_theorems table_laws \<open>how an update of a row keeps the laws of its table\<close>

definition unique_in :: "('v \<Rightarrow> 'a option) \<Rightarrow> 'k \<Rightarrow> 'a option \<Rightarrow> ('k, 'v) dict \<Rightarrow> bool" where
  "unique_in f k x d = (x = None \<or> list_all (\<lambda>(k', v). k' = k \<or> f v \<noteq> x) d)"

definition uniq :: "('v \<Rightarrow> 'a option) \<Rightarrow> ('k, 'v) dict \<Rightarrow> bool" where
  "uniq f d = (\<forall>i j v w. map_of d i = Some v \<longrightarrow> map_of d j = Some w \<longrightarrow> f v = f w \<longrightarrow> f v \<noteq> None \<longrightarrow> i = j)"

definition all_rows :: "('k \<Rightarrow> 'v \<Rightarrow> bool) \<Rightarrow> ('k, 'v) dict \<Rightarrow> bool" where
  "all_rows P d = (\<forall>k v. map_of d k = Some v \<longrightarrow> P k v)"

definition rows_le :: "('v \<Rightarrow> 'v \<Rightarrow> bool) \<Rightarrow> ('k, 'v) dict \<Rightarrow> ('k, 'v) dict \<Rightarrow> bool" where
  "rows_le R d e = (\<forall>k v. map_of d k = Some v \<longrightarrow> (\<exists>w. map_of e k = Some w \<and> R v w))"

definition row_order :: "('v \<Rightarrow> 'v \<Rightarrow> bool) \<Rightarrow> bool" where
  "row_order R = ((\<forall>v. R v v) \<and> (\<forall>u v w. R u v \<longrightarrow> R v w \<longrightarrow> R u w))"

lemma unique_inD:
  "unique_in f k x d \<Longrightarrow> map_of d k' = Some v \<Longrightarrow> k' \<noteq> k \<Longrightarrow> f v = x \<Longrightarrow> x = None"
  by (auto simp: unique_in_def list_all_iff dest: map_of_SomeD)

lemma uniqD: "uniq f d \<Longrightarrow> map_of d i = Some v \<Longrightarrow> map_of d j = Some w \<Longrightarrow> f v = f w \<Longrightarrow> f v \<noteq> None \<Longrightarrow> i = j"
  by (simp add: uniq_def)

lemma uniq_Nil [simp]: "uniq f []"
  by (simp add: uniq_def)

lemma uniq_update [table_laws]:
  assumes "uniq f d" and "unique_in f k (f v) d"
  shows "uniq f (AList.update k v d)"
  unfolding uniq_def
proof (intro allI impI)
  fix i j a b
  assume a: "map_of (AList.update k v d) i = Some a" and b: "map_of (AList.update k v d) j = Some b"
    and e: "f a = f b" and ne: "f a \<noteq> None"
  show "i = j"
  proof (cases "i = k"; cases "j = k")
    assume "i \<noteq> k" "j \<noteq> k"
    then show ?thesis using a b e ne uniqD [OF assms(1)] by simp
  next
    assume "i = k" "j \<noteq> k"
    then show ?thesis using a b e ne unique_inD [OF assms(2)] by auto
  next
    assume "i \<noteq> k" "j = k"
    then show ?thesis using a b e ne unique_inD [OF assms(2)] by auto
  qed simp
qed

lemma uniq_update_same [table_laws]:
  assumes "uniq f d" and "map_of d k = Some u" and "f v = f u"
  shows "uniq f (AList.update k v d)"
  unfolding uniq_def
proof (intro allI impI)
  fix i j a b
  assume a: "map_of (AList.update k v d) i = Some a" and b: "map_of (AList.update k v d) j = Some b"
    and e: "f a = f b" and ne: "f a \<noteq> None"
  obtain a' b' where "map_of d i = Some a'" "f a' = f a" "map_of d j = Some b'" "f b' = f b"
    using a b assms(2,3) by (auto split: if_splits)
  then show "i = j" using uniqD [OF assms(1)] e ne by metis
qed

lemma all_rowsD: "all_rows P d \<Longrightarrow> map_of d k = Some v \<Longrightarrow> P k v"
  by (simp add: all_rows_def)

lemma all_rows_Nil [simp]: "all_rows P []"
  by (simp add: all_rows_def)

lemma all_rows_update [table_laws]: "all_rows P d \<Longrightarrow> P k v \<Longrightarrow> all_rows P (AList.update k v d)"
  by (auto simp: all_rows_def)

lemma rows_leD: "rows_le R d e \<Longrightarrow> map_of d k = Some v \<Longrightarrow> \<exists>w. map_of e k = Some w \<and> R v w"
  by (simp add: rows_le_def)

lemma rows_le_refl: "row_order R \<Longrightarrow> rows_le R d d"
  by (auto simp: rows_le_def row_order_def)

lemma rows_le_trans: "row_order R \<Longrightarrow> rows_le R c d \<Longrightarrow> rows_le R d e \<Longrightarrow> rows_le R c e"
  unfolding rows_le_def row_order_def by metis

lemma rows_le_insert [table_laws]:
  "row_order R \<Longrightarrow> map_of d k = None \<Longrightarrow> rows_le R d (AList.update k v d)"
  by (auto simp: rows_le_def row_order_def)

lemma rows_le_update [table_laws]:
  "row_order R \<Longrightarrow> map_of d k = Some u \<Longrightarrow> R u v \<Longrightarrow> rows_le R d (AList.update k v d)"
  by (auto simp: rows_le_def row_order_def)

end
