(* ===== verification/Tool_Store.thy ===== *)
theory Tool_Store
  imports Json_Text Tables
begin

text \<open>
  \<^verbatim>\<open>agent_tools/repository.py\<close>: run bindings, the tool call ledger, interrupts and
  recovery events, one definition per method. A table is the dictionary of its rows by primary key; a
  method is one transaction, and a violated constraint of the schema
  (\<^verbatim>\<open>persistence/models.py\<close>) rolls it back as \<open>Integrity\<close>. \<open>H\<close> is the
  hexadecimal SHA-256 digest.
\<close>

section \<open>Rows\<close>

record run_binding =
  rb_run :: string
  rb_session :: string
  rb_user :: string
  rb_conv :: string
  rb_ws :: string
  rb_rev :: int
  rb_context :: string
  rb_toolset :: string
  rb_manifest :: string
  rb_request :: string

datatype call_state = Executing | Completed

record call_row =
  tc_run :: string
  tc_call :: string
  tc_digest :: string
  tc_state :: call_state
  tc_response :: json

datatype recovery_status = Pending | Created | Manual_Review

record recovery =
  hr_event :: string
  hr_status :: recovery_status
  hr_new :: "string option"

datatype interrupt_kind = Await_Confirmation | Authorization_Required | Form

fun read_kind :: "string \<Rightarrow> interrupt_kind option" where
  "read_kind k =
     (if k = ''awaiting_confirmation'' then Some Await_Confirmation
      else if k = ''authorization_required'' then Some Authorization_Required
      else if k = ''form'' then Some Form else None)"

datatype interrupt_status = It_Open | It_Responded | It_Cancelled

record interrupt =
  it_key :: string
  it_run :: string
  it_user :: string
  it_conv :: string
  it_ws :: string
  it_rev :: int
  it_kind :: interrupt_kind
  it_status :: interrupt_status
  it_payload :: json
  it_response :: "string option"
  it_resumed :: "string option"
  it_answer :: json

record tool_store =
  ts_bindings :: "(string, run_binding) dict"
  ts_calls :: "(string, call_row) dict"
  ts_recoveries :: "(string, recovery) dict"
  ts_interrupts :: "(string, interrupt) dict"

datatype tool_error = Binding_Conflict | Lookup_Failed | Bad_Value | Integrity

definition empty_tools :: tool_store where
  "empty_tools = \<lparr>ts_bindings = [], ts_calls = [], ts_recoveries = [], ts_interrupts = []\<rparr>"

section \<open>Identities\<close>

definition sha_check :: "string \<Rightarrow> bool" where
  "sha_check s = (length s = 71 \<and> starts_with ''sha256:'' s \<and> list_all is_hex (drop 7 s))"

definition tool_call_key :: "(string \<Rightarrow> string) \<Rightarrow> string \<Rightarrow> string \<Rightarrow> string" where
  "tool_call_key H run call = ''sha256:'' @ H (run @ '':'' @ call)"

definition request_digest ::
  "(string \<Rightarrow> string) \<Rightarrow> (rat \<Rightarrow> string) \<Rightarrow> run_binding \<Rightarrow> string \<Rightarrow> json \<Rightarrow> int \<Rightarrow> string" where
  "request_digest H fl b name args rv =
     ''sha256:'' @ H (jdump fl True (JObj [
        (''protocol_version'', JStr ''v1''),
        (''session_id'', JStr (rb_session b)),
        (''tool_name'', JStr name),
        (''arguments'', args),
        (''expected_workspace_revision'', JInt rv),
        (''context_digest'', JStr (rb_context b)),
        (''toolset_version'', JStr (rb_toolset b))]))"

definition recovery_id :: "(string \<Rightarrow> string) \<Rightarrow> string \<Rightarrow> string" where
  "recovery_id H run = derived_id H ''hrecovery_'' (''v1:harness-recovery:'' @ run)"

definition interrupt_id :: "(string \<Rightarrow> string) \<Rightarrow> string \<Rightarrow> string" where
  "interrupt_id H key = derived_id H ''hint_'' (''v1:harness-interrupt:'' @ key)"

section \<open>Run bindings\<close>

definition register_run_binding :: "run_binding \<Rightarrow> tool_store \<Rightarrow> (tool_error + run_binding) \<times> tool_store" where
  "register_run_binding b s =
     (case map_of (ts_bindings s) (rb_run b) of
        None \<Rightarrow>
          if 1 \<le> rb_rev b \<and> sha_check (rb_context b) \<and> sha_check (rb_manifest b) \<and>
             sha_check (rb_request b) \<and>
             unique_in (\<lambda>r. Some (rb_session r)) (rb_run b) (Some (rb_session b)) (ts_bindings s)
          then (Inr b, s\<lparr>ts_bindings := AList.update (rb_run b) b (ts_bindings s)\<rparr>)
          else (Inl Integrity, s)
      | Some old \<Rightarrow> if old \<noteq> b then (Inl Binding_Conflict, s) else (Inr old, s))"

definition get_run_binding :: "tool_store \<Rightarrow> string \<Rightarrow> run_binding option" where
  "get_run_binding s run = map_of (ts_bindings s) run"

section \<open>Recovery events\<close>

definition get_or_create_recovery ::
  "(string \<Rightarrow> string) \<Rightarrow> string \<Rightarrow> tool_store \<Rightarrow> (tool_error + recovery) \<times> tool_store" where
  "get_or_create_recovery H run s =
     (case map_of (ts_recoveries s) run of
        None \<Rightarrow>
          (let r = \<lparr>hr_event = recovery_id H run, hr_status = Pending, hr_new = None\<rparr> in
           if unique_in (\<lambda>v. Some (hr_event v)) run (Some (hr_event r)) (ts_recoveries s)
           then (Inr r, s\<lparr>ts_recoveries := AList.update run r (ts_recoveries s)\<rparr>)
           else (Inl Integrity, s))
      | Some r \<Rightarrow> (Inr r, s))"

definition mark_recovery_manual_review :: "string \<Rightarrow> tool_store \<Rightarrow> (tool_error + recovery) \<times> tool_store" where
  "mark_recovery_manual_review run s =
     (case map_of (ts_recoveries s) run of
        None \<Rightarrow> (Inl Lookup_Failed, s)
      | Some r \<Rightarrow>
          if hr_status r = Created then (Inr r, s)
          else (let r' = r\<lparr>hr_status := Manual_Review\<rparr>
                in (Inr r', s\<lparr>ts_recoveries := AList.update run r' (ts_recoveries s)\<rparr>)))"

definition bind_recovery_run ::
  "string \<Rightarrow> string \<Rightarrow> tool_store \<Rightarrow> (tool_error + recovery) \<times> tool_store" where
  "bind_recovery_run run new s =
     (case map_of (ts_recoveries s) run of
        None \<Rightarrow> (Inl Lookup_Failed, s)
      | Some r \<Rightarrow>
          if hr_status r = Created
          then (if hr_new r \<noteq> Some new then (Inl Binding_Conflict, s) else (Inr r, s))
          else if hr_status r \<noteq> Pending then (Inl Binding_Conflict, s)
          else if \<not> unique_in hr_new run (Some new) (ts_recoveries s) then (Inl Integrity, s)
          else (let r' = r\<lparr>hr_status := Created, hr_new := Some new\<rparr>
                in (Inr r', s\<lparr>ts_recoveries := AList.update run r' (ts_recoveries s)\<rparr>)))"

section \<open>Interrupts\<close>

text \<open>Of the record that \<open>get_or_create_interrupt\<close> returns its callers read the identity.\<close>

definition get_or_create_interrupt ::
  "(string \<Rightarrow> string) \<Rightarrow> string \<Rightarrow> run_binding \<Rightarrow> string \<Rightarrow> json \<Rightarrow> tool_store
   \<Rightarrow> (tool_error + string) \<times> tool_store" where
  "get_or_create_interrupt H key b kind payload s =
     (case read_kind kind of
        None \<Rightarrow> (Inl Bad_Value, s)
      | Some k \<Rightarrow>
          (let i = interrupt_id H key in
           case map_of (ts_interrupts s) i of
             None \<Rightarrow>
               if 1 \<le> rb_rev b \<and> unique_in (\<lambda>r. Some (it_key r)) i (Some key) (ts_interrupts s)
               then (Inr i, s\<lparr>ts_interrupts := AList.update i
                       \<lparr>it_key = key, it_run = rb_run b, it_user = rb_user b, it_conv = rb_conv b,
                        it_ws = rb_ws b, it_rev = rb_rev b, it_kind = k, it_status = It_Open,
                        it_payload = payload, it_response = None, it_resumed = None,
                        it_answer = JObj []\<rparr> (ts_interrupts s)\<rparr>)
               else (Inl Integrity, s)
           | Some r \<Rightarrow>
               if it_key r = key \<and> it_run r = rb_run b \<and> it_kind r = k \<and> py_eq (it_payload r) payload
               then (Inr i, s) else (Inl Binding_Conflict, s)))"

definition get_interrupt :: "tool_store \<Rightarrow> string \<Rightarrow> interrupt option" where
  "get_interrupt s i = map_of (ts_interrupts s) i"

definition get_run_binding_by_interrupt :: "tool_store \<Rightarrow> string \<Rightarrow> run_binding option" where
  "get_run_binding_by_interrupt s i =
     (case map_of (ts_interrupts s) i of
        None \<Rightarrow> None
      | Some r \<Rightarrow> map_of (ts_bindings s) (it_run r))"

definition grants :: "string \<Rightarrow> string \<Rightarrow> interrupt \<Rightarrow> bool" where
  "grants run tool r =
     (it_resumed r = Some run \<and> it_status r = It_Responded \<and>
      jget ''tool_name'' (it_payload r) = JStr tool \<and>
      (it_kind r = Await_Confirmation \<or>
       it_kind r = Authorization_Required \<and> jget ''confirmation_granted'' (it_payload r) = JBool True))"

definition is_tool_confirmation_granted :: "tool_store \<Rightarrow> string \<Rightarrow> string \<Rightarrow> bool" where
  "is_tool_confirmation_granted s run tool = list_ex (\<lambda>(i, r). grants run tool r) (ts_interrupts s)"

definition respond_interrupt ::
  "string \<Rightarrow> run_binding \<Rightarrow> string \<Rightarrow> int \<Rightarrow> json option \<Rightarrow> tool_store
   \<Rightarrow> (tool_error + interrupt) \<times> tool_store" where
  "respond_interrupt i b resp rv answer s =
     (case map_of (ts_interrupts s) i of
        None \<Rightarrow> (Inl Lookup_Failed, s)
      | Some r \<Rightarrow>
          if it_user r \<noteq> rb_user b \<or> it_conv r \<noteq> rb_conv b then (Inl Lookup_Failed, s)
          else if it_ws r \<noteq> rb_ws b \<or> it_run r \<noteq> rb_run b then (Inl Binding_Conflict, s)
          else
            (let a = (case answer of None \<Rightarrow> JObj [] | Some p \<Rightarrow> p) in
             case it_response r of
               Some old \<Rightarrow>
                 if old \<noteq> resp then (Inl Binding_Conflict, s)
                 else if \<not> py_eq (it_answer r) a then (Inl Binding_Conflict, s)
                 else (Inr r, s)
             | None \<Rightarrow>
                 if it_status r \<noteq> It_Open \<or> rv < it_rev r then (Inl Binding_Conflict, s)
                 else if \<not> unique_in it_response i (Some resp) (ts_interrupts s) then (Inl Integrity, s)
                 else (let r' = r\<lparr>it_status := It_Responded, it_response := Some resp, it_answer := a\<rparr>
                       in (Inr r', s\<lparr>ts_interrupts := AList.update i r' (ts_interrupts s)\<rparr>))))"

definition cancel_interrupt ::
  "string \<Rightarrow> run_binding \<Rightarrow> string \<Rightarrow> int \<Rightarrow> tool_store \<Rightarrow> (tool_error + interrupt) \<times> tool_store" where
  "cancel_interrupt i b resp rv s =
     (case map_of (ts_interrupts s) i of
        None \<Rightarrow> (Inl Lookup_Failed, s)
      | Some r \<Rightarrow>
          if it_kind r \<noteq> Form then (Inl Lookup_Failed, s)
          else if it_user r \<noteq> rb_user b \<or> it_conv r \<noteq> rb_conv b \<or> it_ws r \<noteq> rb_ws b \<or> it_run r \<noteq> rb_run b
          then (Inl Binding_Conflict, s)
          else if it_status r = It_Cancelled
          then (if it_response r \<noteq> Some resp then (Inl Binding_Conflict, s) else (Inr r, s))
          else if it_status r \<noteq> It_Open \<or> rv < it_rev r then (Inl Binding_Conflict, s)
          else if \<not> unique_in it_response i (Some resp) (ts_interrupts s) then (Inl Integrity, s)
          else (let r' = r\<lparr>it_status := It_Cancelled, it_response := Some resp,
                           it_answer := JObj [(''action'', JStr ''form_cancelled'')]\<rparr>
                in (Inr r', s\<lparr>ts_interrupts := AList.update i r' (ts_interrupts s)\<rparr>)))"

definition bind_interrupt_resume_run ::
  "string \<Rightarrow> string \<Rightarrow> string \<Rightarrow> tool_store \<Rightarrow> (tool_error + interrupt) \<times> tool_store" where
  "bind_interrupt_resume_run i resp run s =
     (case map_of (ts_interrupts s) i of
        None \<Rightarrow> (Inl Binding_Conflict, s)
      | Some r \<Rightarrow>
          if it_status r \<noteq> It_Responded \<or> it_response r \<noteq> Some resp then (Inl Binding_Conflict, s)
          else if it_resumed r \<noteq> None \<and> it_resumed r \<noteq> Some run then (Inl Binding_Conflict, s)
          else if \<not> unique_in it_resumed i (Some run) (ts_interrupts s) then (Inl Integrity, s)
          else (let r' = r\<lparr>it_resumed := Some run\<rparr>
                in (Inr r', s\<lparr>ts_interrupts := AList.update i r' (ts_interrupts s)\<rparr>)))"

section \<open>The tool call ledger\<close>

datatype call_claim = Claimed_Now | Was_Completed json | Is_Executing

text \<open>\<open>claim_reread\<close> is the second transaction, after an insert that violated a constraint.\<close>

definition claim_reread :: "string \<Rightarrow> string \<Rightarrow> tool_store \<Rightarrow> tool_error + call_claim" where
  "claim_reread key digest s =
     (case map_of (ts_calls s) key of
        None \<Rightarrow> Inl Binding_Conflict
      | Some r \<Rightarrow>
          if tc_digest r \<noteq> digest then Inl Binding_Conflict
          else if tc_state r = Completed then Inr (Was_Completed (tc_response r))
          else Inr Is_Executing)"

definition claim_tool_call ::
  "string \<Rightarrow> string \<Rightarrow> string \<Rightarrow> string \<Rightarrow> tool_store \<Rightarrow> (tool_error + call_claim) \<times> tool_store" where
  "claim_tool_call key run call digest s =
     (case map_of (ts_calls s) key of
        Some r \<Rightarrow>
          (if tc_digest r \<noteq> digest then Inl Binding_Conflict
           else if tc_state r = Completed then Inr (Was_Completed (tc_response r))
           else Inr Is_Executing, s)
      | None \<Rightarrow>
          if sha_check key \<and> sha_check digest \<and>
             unique_in (\<lambda>r. Some (tc_run r, tc_call r)) key (Some (run, call)) (ts_calls s)
          then (Inr Claimed_Now,
                s\<lparr>ts_calls := AList.update key
                    \<lparr>tc_run = run, tc_call = call, tc_digest = digest, tc_state = Executing,
                     tc_response = JObj []\<rparr> (ts_calls s)\<rparr>)
          else (claim_reread key digest s, s))"

definition complete_tool_call ::
  "string \<Rightarrow> string \<Rightarrow> json \<Rightarrow> tool_store \<Rightarrow> (tool_error + json) \<times> tool_store" where
  "complete_tool_call key digest response s =
     (case map_of (ts_calls s) key of
        None \<Rightarrow> (Inl Binding_Conflict, s)
      | Some r \<Rightarrow>
          if tc_digest r \<noteq> digest then (Inl Binding_Conflict, s)
          else if tc_state r = Completed then (Inr (tc_response r), s)
          else (Inr response,
                s\<lparr>ts_calls := AList.update key (r\<lparr>tc_state := Completed, tc_response := response\<rparr>)
                    (ts_calls s)\<rparr>))"

definition get_tool_response :: "string \<Rightarrow> string \<Rightarrow> tool_store \<Rightarrow> tool_error + json option" where
  "get_tool_response key digest s =
     (case map_of (ts_calls s) key of
        None \<Rightarrow> Inr None
      | Some r \<Rightarrow>
          if tc_digest r \<noteq> digest then Inl Binding_Conflict
          else if tc_state r \<noteq> Completed then Inr None
          else Inr (Some (tc_response r)))"

definition has_tool_calls :: "tool_store \<Rightarrow> string \<Rightarrow> bool" where
  "has_tool_calls s run = list_ex (\<lambda>(k, r). tc_run r = run) (ts_calls s)"

end
