(* ===== verification/Tool_Laws.thy ===== *)
theory Tool_Laws
  imports Tool_Store
begin

text \<open>
  Laws of the tool repository: the constraints every method keeps, the order in which its rows
  move (a completed call, an answered interrupt and a settled recovery never change again), and both
  as an instance of the shared machine contracts.
\<close>

section \<open>Constraints\<close>

definition interrupt_ok :: "interrupt \<Rightarrow> bool" where
  "interrupt_ok r =
     (case it_status r of
        It_Open \<Rightarrow> it_response r = None \<and> it_resumed r = None
      | It_Responded \<Rightarrow> it_response r \<noteq> None
      | It_Cancelled \<Rightarrow> it_response r \<noteq> None \<and> it_resumed r = None)"

definition recovery_ok :: "recovery \<Rightarrow> bool" where
  "recovery_ok r = (hr_status r = Created \<longleftrightarrow> hr_new r \<noteq> None)"

definition call_id :: "call_row \<Rightarrow> (string \<times> string) option" where
  "call_id r = Some (tc_run r, tc_call r)"

definition tool_ok :: "tool_store \<Rightarrow> bool" where
  "tool_ok s =
     (uniq (\<lambda>b. Some (rb_session b)) (ts_bindings s) \<and>
      all_rows (\<lambda>k b. rb_run b = k) (ts_bindings s) \<and>
      uniq call_id (ts_calls s) \<and>
      all_rows (\<lambda>k r. recovery_ok r) (ts_recoveries s) \<and>
      uniq hr_new (ts_recoveries s) \<and>
      all_rows (\<lambda>k r. interrupt_ok r) (ts_interrupts s) \<and>
      uniq it_response (ts_interrupts s) \<and>
      uniq it_resumed (ts_interrupts s) \<and>
      distinct (map fst (ts_interrupts s)))"

lemma empty_tools_ok: "tool_ok empty_tools"
  by (simp add: tool_ok_def empty_tools_def)

section \<open>The order of the rows\<close>

definition call_le :: "call_row \<Rightarrow> call_row \<Rightarrow> bool" where
  "call_le r t = (tc_run t = tc_run r \<and> tc_call t = tc_call r \<and> tc_digest t = tc_digest r \<and>
     (tc_state r = Completed \<longrightarrow> t = r))"

definition recovery_le :: "recovery \<Rightarrow> recovery \<Rightarrow> bool" where
  "recovery_le r t = (hr_event t = hr_event r \<and> (hr_status r \<noteq> Pending \<longrightarrow> t = r))"

definition interrupt_le :: "interrupt \<Rightarrow> interrupt \<Rightarrow> bool" where
  "interrupt_le r t =
     (it_key t = it_key r \<and> it_run t = it_run r \<and> it_user t = it_user r \<and> it_conv t = it_conv r \<and>
      it_ws t = it_ws r \<and> it_rev t = it_rev r \<and> it_kind t = it_kind r \<and> it_payload t = it_payload r \<and>
      (it_status r \<noteq> It_Open \<longrightarrow>
         it_status t = it_status r \<and> it_response t = it_response r \<and> it_answer t = it_answer r) \<and>
      (it_resumed r \<noteq> None \<longrightarrow> it_resumed t = it_resumed r))"

definition tool_le :: "tool_store \<Rightarrow> tool_store \<Rightarrow> bool" where
  "tool_le s t =
     (rows_le (=) (ts_bindings s) (ts_bindings t) \<and> rows_le call_le (ts_calls s) (ts_calls t) \<and>
      rows_le recovery_le (ts_recoveries s) (ts_recoveries t) \<and>
      rows_le interrupt_le (ts_interrupts s) (ts_interrupts t))"

lemma row_orders [simp, intro]:
  "row_order ((=) :: run_binding \<Rightarrow> run_binding \<Rightarrow> bool)" "row_order call_le"
  "row_order recovery_le" "row_order interrupt_le"
  by (auto simp: row_order_def call_le_def recovery_le_def interrupt_le_def)

lemma tool_le_refl [simp]: "tool_le s s"
  by (simp add: tool_le_def rows_le_refl)

lemma tool_le_trans: "tool_le s t \<Longrightarrow> tool_le t u \<Longrightarrow> tool_le s u"
  unfolding tool_le_def by (auto intro: rows_le_trans)

section \<open>Commands\<close>

datatype tool_cmd =
    Register_Binding run_binding
  | Recovery_Event string
  | Recovery_Manual string
  | Recovery_Bind string string
  | Interrupt_Create string run_binding string json
  | Interrupt_Respond string run_binding string int "json option"
  | Interrupt_Cancel string run_binding string int
  | Interrupt_Bind string string string
  | Call_Claim string string string string
  | Call_Complete string string json

definition forget_value :: "('e + 'a) \<times> 's \<Rightarrow> ('e + unit) \<times> 's" where
  "forget_value = lift_result (\<lambda>_. ())"

fun tool_exec :: "(string \<Rightarrow> string) \<Rightarrow> tool_store \<Rightarrow> tool_cmd \<Rightarrow> (tool_error + unit) \<times> tool_store" where
  "tool_exec H s (Register_Binding b) = forget_value (register_run_binding b s)"
| "tool_exec H s (Recovery_Event run) = forget_value (get_or_create_recovery H run s)"
| "tool_exec H s (Recovery_Manual run) = forget_value (mark_recovery_manual_review run s)"
| "tool_exec H s (Recovery_Bind run new) = forget_value (bind_recovery_run run new s)"
| "tool_exec H s (Interrupt_Create key b kind p) = forget_value (get_or_create_interrupt H key b kind p s)"
| "tool_exec H s (Interrupt_Respond i b resp rv a) = forget_value (respond_interrupt i b resp rv a s)"
| "tool_exec H s (Interrupt_Cancel i b resp rv) = forget_value (cancel_interrupt i b resp rv s)"
| "tool_exec H s (Interrupt_Bind i resp run) = forget_value (bind_interrupt_resume_run i resp run s)"
| "tool_exec H s (Call_Claim key run call digest) = forget_value (claim_tool_call key run call digest s)"
| "tool_exec H s (Call_Complete key digest resp) = forget_value (complete_tool_call key digest resp s)"

lemma forget_value_simps [simp]:
  "snd (forget_value p) = snd p" "is_ok (fst (forget_value p)) = is_ok (fst p)"
  by (auto simp: forget_value_def lift_result_def split: prod.splits sum.splits)

text \<open>One law per method: it keeps the constraints, moves rows up, and raises without a trace.\<close>

definition lawful :: "tool_store \<Rightarrow> ('e + 'a) \<times> tool_store \<Rightarrow> bool" where
  "lawful s p = ((tool_ok s \<longrightarrow> tool_ok (snd p)) \<and> tool_le s (snd p) \<and> (\<not> is_ok (fst p) \<longrightarrow> snd p = s))"

named_theorems tool_lawful \<open>the law of each repository method\<close>

lemma lawful_same [simp]: "lawful s (r, s)"
  by (simp add: lawful_def)

lemma lawful_bindings:
  assumes "rows_le (=) (ts_bindings s) d"
    and "tool_ok s \<Longrightarrow> uniq (\<lambda>b. Some (rb_session b)) d \<and> all_rows (\<lambda>k b. rb_run b = k) d"
  shows "lawful s (Inr x, s\<lparr>ts_bindings := d\<rparr>)"
  using assms by (auto simp: lawful_def tool_le_def rows_le_refl tool_ok_def)

lemma lawful_calls:
  assumes "rows_le call_le (ts_calls s) d" and "tool_ok s \<Longrightarrow> uniq call_id d"
  shows "lawful s (Inr x, s\<lparr>ts_calls := d\<rparr>)"
  using assms by (auto simp: lawful_def tool_le_def rows_le_refl tool_ok_def)

lemma lawful_recoveries:
  assumes "rows_le recovery_le (ts_recoveries s) d"
    and "tool_ok s \<Longrightarrow> all_rows (\<lambda>k r. recovery_ok r) d \<and> uniq hr_new d"
  shows "lawful s (Inr x, s\<lparr>ts_recoveries := d\<rparr>)"
  using assms by (auto simp: lawful_def tool_le_def rows_le_refl tool_ok_def)

lemma lawful_interrupts:
  assumes "rows_le interrupt_le (ts_interrupts s) (AList.update i r (ts_interrupts s))"
    and "tool_ok s \<Longrightarrow> interrupt_ok r \<and> uniq it_response (AList.update i r (ts_interrupts s)) \<and>
           uniq it_resumed (AList.update i r (ts_interrupts s))"
  shows "lawful s (Inr x, s\<lparr>ts_interrupts := AList.update i r (ts_interrupts s)\<rparr>)"
  using assms by (auto simp: lawful_def tool_le_def rows_le_refl tool_ok_def intro: all_rows_update)

lemma register_lawful [tool_lawful]: "lawful s (register_run_binding b s)"
  by (auto simp: register_run_binding_def tool_ok_def split: option.split
      intro!: lawful_bindings rows_le_insert uniq_update all_rows_update)

lemma unique_None [simp]: "unique_in f k None d"
  by (simp add: unique_in_def)

lemma recovery_event_lawful [tool_lawful]: "lawful s (get_or_create_recovery H run s)"
  by (auto simp: get_or_create_recovery_def tool_ok_def Let_def recovery_ok_def split: option.split
      intro!: lawful_recoveries rows_le_insert uniq_update all_rows_update)

lemma manual_review_lawful [tool_lawful]: "lawful s (mark_recovery_manual_review run s)"
proof (cases "map_of (ts_recoveries s) run")
  case (Some r)
  have "hr_status r \<noteq> Created \<Longrightarrow> tool_ok s \<Longrightarrow> hr_new r = None"
    using Some by (auto simp: tool_ok_def recovery_ok_def dest!: all_rowsD)
  then show ?thesis using Some
    by (cases "hr_status r")
       (auto simp: mark_recovery_manual_review_def Let_def recovery_le_def recovery_ok_def tool_ok_def
         intro!: lawful_recoveries rows_le_update all_rows_update uniq_update_same)
qed (simp add: mark_recovery_manual_review_def)

lemma bind_recovery_lawful [tool_lawful]: "lawful s (bind_recovery_run run new s)"
  by (auto simp: bind_recovery_run_def tool_ok_def Let_def recovery_ok_def recovery_le_def
      split: option.split intro!: lawful_recoveries rows_le_update uniq_update all_rows_update)

lemma interrupt_create_lawful [tool_lawful]: "lawful s (get_or_create_interrupt H key b kind p s)"
  by (auto simp: get_or_create_interrupt_def tool_ok_def Let_def interrupt_ok_def
      split: option.split simp del: read_kind.simps intro!: lawful_interrupts rows_le_insert uniq_update)

lemma lawful_interrupt_row:
  assumes r: "map_of (ts_interrupts s) i = Some r" and le: "interrupt_le r r'"
    and ok: "interrupt_ok r \<Longrightarrow> interrupt_ok r'"
    and resp: "it_response r' = it_response r \<or> unique_in it_response i (it_response r') (ts_interrupts s)"
    and res: "it_resumed r' = it_resumed r \<or> unique_in it_resumed i (it_resumed r') (ts_interrupts s)"
  shows "lawful s (Inr x, s\<lparr>ts_interrupts := AList.update i r' (ts_interrupts s)\<rparr>)"
proof (rule lawful_interrupts)
  show "rows_le interrupt_le (ts_interrupts s) (AList.update i r' (ts_interrupts s))"
    using r le by (auto intro: rows_le_update)
  assume t: "tool_ok s"
  then have "interrupt_ok r'" using r ok by (auto simp: tool_ok_def dest: all_rowsD)
  moreover have "uniq it_response (AList.update i r' (ts_interrupts s))"
    using t resp uniq_update_same [OF _ r] uniq_update by (metis tool_ok_def)
  moreover have "uniq it_resumed (AList.update i r' (ts_interrupts s))"
    using t res uniq_update_same [OF _ r] uniq_update by (metis tool_ok_def)
  ultimately show "interrupt_ok r' \<and> uniq it_response (AList.update i r' (ts_interrupts s)) \<and>
      uniq it_resumed (AList.update i r' (ts_interrupts s))" by simp
qed

lemma respond_lawful [tool_lawful]: "lawful s (respond_interrupt i b resp rv a s)"
  by (auto simp: respond_interrupt_def Let_def split: option.split
      intro!: lawful_interrupt_row) (auto simp: interrupt_ok_def interrupt_le_def)

lemma cancel_lawful [tool_lawful]: "lawful s (cancel_interrupt i b resp rv s)"
  by (auto simp: cancel_interrupt_def Let_def split: option.split
      intro!: lawful_interrupt_row) (auto simp: interrupt_ok_def interrupt_le_def)

lemma bind_interrupt_lawful [tool_lawful]: "lawful s (bind_interrupt_resume_run i resp run s)"
  by (auto simp: bind_interrupt_resume_run_def Let_def split: option.split
      intro!: lawful_interrupt_row) (auto simp: interrupt_ok_def interrupt_le_def)

lemma claim_lawful [tool_lawful]: "lawful s (claim_tool_call key run call digest s)"
  by (auto simp: claim_tool_call_def tool_ok_def call_id_def [abs_def] split: option.split
      intro!: lawful_calls rows_le_insert uniq_update)

lemma complete_lawful [tool_lawful]: "lawful s (complete_tool_call key digest resp s)"
  by (auto simp: complete_tool_call_def tool_ok_def call_le_def call_id_def split: option.split
      intro!: lawful_calls rows_le_update uniq_update_same)

lemma exec_lawful: "lawful s (tool_exec H s c)"
  using tool_lawful by (cases c) (auto simp: lawful_def)

interpretation tools: monotone_machine "tool_exec H" tool_ok tool_le
  by unfold_locales
     (use exec_lawful [of _ H] in \<open>auto simp: lawful_def intro: tool_le_trans\<close>)

interpretation tools_atomic: atomic_machine "tool_exec H" tool_ok
  by unfold_locales (metis exec_lawful is_ok_simps(2) lawful_def)

end
