(* ===== verification/Tool_Registry.thy ===== *)
theory Tool_Registry
  imports Json_Text Workspace_Port
begin

text \<open>
  \<^verbatim>\<open>agent_tools/video/registry.py\<close> and the tool call of
  \<^verbatim>\<open>video/services/tool_executor.py\<close>. The argument model and the handler of a tool are an
  environment: \<open>handler\<close> is what the validation and the handler do on this call. The message texts
  of the source are their UTF-8 bytes.
\<close>

section \<open>Specifications and results\<close>

datatype cost_level = Cost_None | Cost_Read | Cost_Billable | Cost_Destructive

record tool_spec =
  sp_name :: string
  sp_cost :: cost_level
  sp_confirm :: bool
  sp_mutations :: "string list"
  sp_keys :: "string list"

record tool_result =
  tr_name :: string
  tr_summary :: string
  tr_patch :: json
  tr_artifacts :: "string list"
  tr_pending :: "string list"
  tr_obs :: json

definition result_ok :: "tool_result \<Rightarrow> bool" where
  "result_ok r =
     (1 \<le> py_len (tr_name r) \<and> py_len (tr_name r) \<le> 128 \<and>
      1 \<le> py_len (tr_summary r) \<and> py_len (tr_summary r) \<le> 2000 \<and>
      is_obj (tr_patch r) \<and> is_obj (tr_obs r) \<and>
      list_all (\<lambda>i. py_strip i \<noteq> []) (tr_pending r) \<and> distinct (tr_pending r))"

definition plain_result :: "string \<Rightarrow> string \<Rightarrow> json \<Rightarrow> tool_result" where
  "plain_result name summary obs =
     \<lparr>tr_name = name, tr_summary = summary, tr_patch = JObj [], tr_artifacts = [], tr_pending = [],
      tr_obs = obs\<rparr>"

section \<open>The registry\<close>

type_synonym registry = "(string, tool_spec) dict"

fun add_tools :: "registry \<Rightarrow> tool_spec list \<Rightarrow> unit + registry" where
  "add_tools d [] = Inr d"
| "add_tools d (t # ts) =
     (let name = py_strip (sp_name t) in
      if name = [] \<or> map_of d name \<noteq> None then Inl ()
      else add_tools (AList.update name t d) ts)"

definition registry_names :: "registry \<Rightarrow> string list" where
  "registry_names d = sort (map fst d)"

definition resolve_tool :: "registry \<Rightarrow> string \<Rightarrow> tool_spec option" where
  "resolve_tool d name = map_of d name"

definition registry_specs :: "registry \<Rightarrow> tool_spec list" where
  "registry_specs d = map (\<lambda>n. the (map_of d n)) (registry_names d)"

section \<open>What a validation error tells the model\<close>

text \<open>arguments invalid, fix and retry\<close>

definition txt_bad_arguments :: string where
  "txt_bad_arguments =
     utf8 [229, 183, 165, 229, 133, 183, 229, 143, 130, 230, 149, 176, 230, 151, 160, 230, 149,
     136, 239, 188, 140, 232, 175, 183, 228, 191, 174, 230, 173, 163, 229, 144, 142, 233, 135, 141,
     232, 175, 149]"

text \<open>arguments invalid, fix:\<close>

definition txt_bad_hints :: string where
  "txt_bad_hints =
     utf8 [229, 183, 165, 229, 133, 183, 229, 143, 130, 230, 149, 176, 230, 151, 160, 230, 149,
     136, 239, 188, 140, 232, 175, 183, 228, 191, 174, 230, 173, 163, 239, 188, 154]"

text \<open>arguments invalid, fix the fields:\<close>

definition txt_bad_fields :: string where
  "txt_bad_fields =
     utf8 [229, 183, 165, 229, 133, 183, 229, 143, 130, 230, 149, 176, 230, 151, 160, 230, 149,
     136, 239, 188, 140, 232, 175, 183, 228, 191, 174, 230, 173, 163, 229, 173, 151, 230, 174, 181,
     239, 188, 154]"

text \<open>enumeration comma\<close>

definition txt_sep :: string where
  "txt_sep =
     utf8 [227, 128, 129]"

text \<open>full-width opening parenthesis\<close>

definition txt_open :: string where
  "txt_open =
     utf8 [239, 188, 136]"

text \<open>full-width closing parenthesis\<close>

definition txt_close :: string where
  "txt_close =
     utf8 [239, 188, 137]"

text \<open>value invalid\<close>

definition txt_any :: string where
  "txt_any =
     utf8 [229, 173, 151, 230, 174, 181, 229, 128, 188, 230, 151, 160, 230, 149, 136]"

text \<open>execution failed, retry later\<close>

definition txt_failed :: string where
  "txt_failed =
     utf8 [32, 230, 137, 167, 232, 161, 140, 229, 164, 177, 232, 180, 165, 239, 188, 140, 232, 175,
     183, 231, 168, 141, 229, 144, 142, 233, 135, 141, 232, 175, 149]"

text \<open>An item of \<^verbatim>\<open>error.errors()\<close>: the text of its location parts, and its type.\<close>

type_synonym error_item = "string list \<times> string"

fun collect_fields :: "error_item list \<Rightarrow> string list \<Rightarrow> string list \<Rightarrow> string list \<times> string list" where
  "collect_fields [] det flat = (det, flat)"
| "collect_fields ((parts, ty) # items) det flat =
     (if parts = [] then collect_fields items det flat
      else
        (let field = join_with ''.'' parts; many = 1 < length parts;
             new = 0 < py_len field \<and> py_len field \<le> 160 \<and> field \<notin> set (if many then det else flat);
             det' = (if new \<and> many then det @ [field] else det);
             flat' = (if new \<and> \<not> many then flat @ [field] else flat)
         in if 8 \<le> length det' then (det', flat') else collect_fields items det' flat'))"

definition safe_validation_fields :: "error_item list \<Rightarrow> string list" where
  "safe_validation_fields items =
     (case collect_fields items [] [] of (det, flat) \<Rightarrow> take 8 (if det \<noteq> [] then det else flat))"

definition reason_by_type :: "string \<Rightarrow> string" where
  "reason_by_type ty = (case map_of [
      (''missing'',
         utf8 [231, 188, 186, 229, 176, 145, 229, 191, 133, 229, 161, 171, 229, 173, 151, 230, 174,
         181]),
      (''extra_forbidden'',
         utf8 [228, 184, 141, 229, 133, 129, 232, 174, 184, 232, 175, 165, 229, 173, 151, 230, 174,
         181]),
      (''literal_error'',
         utf8 [229, 143, 150, 229, 128, 188, 228, 184, 141, 231, 172, 166, 229, 144, 136, 229, 133,
         129, 232, 174, 184, 232, 140, 131, 229, 155, 180]),
      (''string_too_short'',
         utf8 [230, 150, 135, 230, 156, 172, 232, 191, 135, 231, 159, 173, 230, 136, 150, 228, 184,
         186, 231, 169, 186]),
      (''string_too_long'',
         utf8 [230, 150, 135, 230, 156, 172, 232, 182, 133, 232, 191, 135, 233, 149, 191, 229, 186,
         166, 233, 153, 144, 229, 136, 182]),
      (''too_short'',
         utf8 [229, 136, 151, 232, 161, 168, 233, 161, 185, 228, 184, 141, 232, 182, 179]),
      (''too_long'',
         utf8 [229, 136, 151, 232, 161, 168, 233, 161, 185, 232, 191, 135, 229, 164, 154]),
      (''int_parsing'',
         utf8 [229, 191, 133, 233, 161, 187, 230, 152, 175, 230, 149, 180, 230, 149, 176]),
      (''int_type'',
         utf8 [229, 191, 133, 233, 161, 187, 230, 152, 175, 230, 149, 180, 230, 149, 176]),
      (''greater_than_equal'',
         utf8 [230, 149, 176, 229, 128, 188, 228, 189, 142, 228, 186, 142, 229, 133, 129, 232, 174,
         184, 228, 184, 139, 233, 153, 144]),
      (''less_than_equal'',
         utf8 [230, 149, 176, 229, 128, 188, 232, 182, 133, 232, 191, 135, 229, 133, 129, 232, 174,
         184, 228, 184, 138, 233, 153, 144]),
      (''value_error'',
         utf8 [229, 173, 151, 230, 174, 181, 231, 187, 132, 229, 144, 136, 228, 184, 141, 231, 172,
         166, 229, 144, 136, 229, 144, 136, 229, 144, 140])] ty of
      None \<Rightarrow> txt_any | Some t \<Rightarrow> t)"

fun collect_hints :: "error_item list \<Rightarrow> string list \<Rightarrow> string list \<Rightarrow> string list \<times> string list" where
  "collect_hints [] det flat = (det, flat)"
| "collect_hints ((parts, ty) # items) det flat =
     (let field = join_with ''.'' parts in
      if parts = [] \<or> \<not> (0 < py_len field \<and> py_len field \<le> 160) then collect_hints items det flat
      else
        (let hint = field @ txt_open @ reason_by_type ty @ txt_close; many = 1 < length parts;
             new = hint \<notin> set (if many then det else flat);
             det' = (if new \<and> many then det @ [hint] else det);
             flat' = (if new \<and> \<not> many then flat @ [hint] else flat)
         in if 8 \<le> length det' then (det', flat') else collect_hints items det' flat'))"

definition safe_validation_hints :: "error_item list \<Rightarrow> string list" where
  "safe_validation_hints items =
     (case collect_hints items [] [] of (det, flat) \<Rightarrow> take 8 (if det \<noteq> [] then det else flat))"

section \<open>Execution\<close>

datatype handler =
    Invalid_Arguments "error_item list"
  | Validation_Raised string
  | Execution_Raised string
  | Other_Raised
  | Returned tool_result

datatype exec_error = Exec_Validation | Exec_Failed | Exec_Other

fun contains :: "string \<Rightarrow> string \<Rightarrow> bool" where
  "contains p [] = (p = [])"
| "contains p (c # s) = (starts_with p (c # s) \<or> contains p s)"

definition public_failure :: "string \<Rightarrow> bool" where
  "public_failure detail =
     (detail \<noteq> [] \<and>
      (list_ex (\<lambda>p. starts_with p detail) [
     utf8 [229, 156, 186, 230, 153, 175, 229, 140, 133],
     utf8 [229, 143, 130, 232, 128, 131, 229, 155, 190],
     ''generate_scene_assets'',
     ''prepare_scene_packages'',
     utf8 [232, 167, 134, 233, 162, 145, 228, 186, 164, 228, 187, 152],
     utf8 [232, 167, 134, 233, 162, 145, 229, 144, 136, 229, 185, 182],
     utf8 [229, 137, 170, 230, 152, 160, 228, 186, 164, 228, 187, 152]] \<or>
       list_ex (\<lambda>p. contains p detail) [
     utf8 [228, 184, 141, 230, 152, 175, 229, 143, 175, 231, 148, 159, 230, 136, 144, 229, 174,
     158, 228, 189, 147],
     utf8 [231, 188, 186, 229, 176, 145, 232, 174, 161, 229, 136, 146, 232, 186, 171, 228, 187,
     189],
     utf8 [231, 188, 186, 229, 176, 145, 228, 184, 180, 230, 151, 182, 230, 142, 136, 230, 157,
     131],
     utf8 [229, 176, 154, 230, 156, 170, 232, 163, 133, 233, 133, 141],
     utf8 [230, 160, 161, 233, 170, 140, 229, 164, 177, 232, 180, 165]]))"

definition patch_root :: "string \<Rightarrow> string" where
  "patch_root m = takeWhile (\<lambda>c. c \<noteq> CHR ''.'') m"

fun obj_keys :: "json \<Rightarrow> string list" where
  "obj_keys (JObj d) = map fst d"
| "obj_keys _ = []"

definition invalid_arguments :: "tool_spec \<Rightarrow> error_item list \<Rightarrow> tool_result" where
  "invalid_arguments sp items =
     (let fields = safe_validation_fields items; hints = safe_validation_hints items;
          summary = (if hints \<noteq> [] then txt_bad_hints @ join_with txt_sep hints
                     else if fields \<noteq> [] then txt_bad_fields @ join_with txt_sep fields
                     else txt_bad_arguments)
      in plain_result (sp_name sp) summary (JObj
           ((if ''validation_fields'' \<in> set (sp_keys sp)
             then [(''validation_fields'', JList (map JStr fields))] else []) @
            (if ''validation_hints'' \<in> set (sp_keys sp)
             then [(''validation_hints'', JList (map JStr hints))] else []))))"

definition registry_execute :: "registry \<Rightarrow> string \<Rightarrow> handler \<Rightarrow> exec_error + tool_result" where
  "registry_execute d name h =
     (case resolve_tool d name of
        None \<Rightarrow> Inl Exec_Validation
      | Some sp \<Rightarrow>
          (case h of
             Invalid_Arguments items \<Rightarrow> Inr (invalid_arguments sp items)
           | Validation_Raised detail \<Rightarrow>
               (let t = py_strip detail in
                Inr (plain_result (sp_name sp) (if t \<noteq> [] then py_take 280 t else txt_bad_arguments) (JObj [])))
           | Execution_Raised detail \<Rightarrow>
               (let t = py_strip detail in
                Inr (plain_result (sp_name sp)
                       (if public_failure t then py_take 280 t else sp_name sp @ txt_failed) (JObj [])))
           | Other_Raised \<Rightarrow> Inl Exec_Other
           | Returned r \<Rightarrow>
               if tr_name r \<noteq> sp_name sp \<or>
                  \<not> set (obj_keys (tr_patch r)) \<subseteq> set (map patch_root (sp_mutations sp))
               then Inl Exec_Failed
               else Inr r))"

text \<open>\<^verbatim>\<open>execute_tool_call\<close>: the patch of the result is written before the result is returned.\<close>

definition execute_tool_call ::
  "registry \<Rightarrow> 'w ws_port \<Rightarrow> string \<Rightarrow> string \<Rightarrow> nat \<Rightarrow> time \<Rightarrow> ('w \<Rightarrow> 'w) list \<Rightarrow> string \<Rightarrow> handler \<Rightarrow> 'w
   \<Rightarrow> (exec_error + tool_result) \<times> 'w" where
  "execute_tool_call d W user ws rv now envs tool h w =
     (let name = py_strip tool in
      if name = [] then (Inl Exec_Other, w)
      else
        (case registry_execute d name h of
           Inl e \<Rightarrow> (Inl e, w)
         | Inr r \<Rightarrow>
             if truthy (tr_patch r)
             then (case apply_tool_patch W user ws (tr_patch r) now rv (take 3 envs) w of
                     (True, w') \<Rightarrow> (Inr r, w')
                   | (False, w') \<Rightarrow> (Inl Exec_Other, w'))
             else (Inr r, w)))"

end
