(* ===== verification/Tool_Broker.thy ===== *)
theory Tool_Broker
  imports Tool_Laws Tool_Registry
begin

text \<open>
  \<^verbatim>\<open>agent_tools/broker.py\<close>, \<^verbatim>\<open>contracts.py\<close> and the credential store of a run
  (\<^verbatim>\<open>video/credential_store.py\<close>). A call is cut where the coroutine awaits: \<open>advance\<close>
  runs one piece, from one access of the shared state to the next, so that calls, commands on the
  repository, cancellations and crashes interleave piece by piece.
\<close>

section \<open>Credentials of a run\<close>

record run_creds =
  rc_ttl :: time
  rc_values :: "(string, string \<times> time) dict"

definition rc_expire :: "time \<Rightarrow> run_creds \<Rightarrow> run_creds" where
  "rc_expire now c = c\<lparr>rc_values := filter (\<lambda>(_, _, e). now < e) (rc_values c)\<rparr>"

definition rc_store :: "string \<Rightarrow> string \<times> time \<Rightarrow> run_creds \<Rightarrow> run_creds" where
  "rc_store i v c = c\<lparr>rc_values := AList.delete i (rc_values c) @ [(i, v)]\<rparr>"

definition rc_put :: "time \<Rightarrow> string \<Rightarrow> string \<Rightarrow> run_creds \<Rightarrow> (tool_error + unit) \<times> run_creds" where
  "rc_put now run auth c =
     (if \<not> starts_with ''hrun_'' run \<or> py_strip auth = [] then (Inl Bad_Value, c)
      else (Inr (), rc_expire now (rc_store run (py_strip auth, now + rc_ttl c) c)))"

definition rc_put_grant :: "time \<Rightarrow> string \<Rightarrow> string \<Rightarrow> run_creds \<Rightarrow> (tool_error + unit) \<times> run_creds" where
  "rc_put_grant now grant auth c =
     (if py_strip grant = [] \<or> 128 < py_len grant \<or> py_strip auth = [] then (Inl Bad_Value, c)
      else (Inr (), rc_expire now (rc_store grant (py_strip auth, now + rc_ttl c) c)))"

definition rc_bind_grant :: "time \<Rightarrow> string \<Rightarrow> string \<Rightarrow> run_creds \<Rightarrow> (tool_error + unit) \<times> run_creds" where
  "rc_bind_grant now grant run c =
     (if \<not> starts_with ''hrun_'' run then (Inl Bad_Value, c)
      else
        (let c' = rc_expire now c in
         case map_of (rc_values c') grant of
           None \<Rightarrow> (Inl Lookup_Failed, c')
         | Some v \<Rightarrow> (Inr (), rc_store run v (c'\<lparr>rc_values := AList.delete grant (rc_values c')\<rparr>))))"

definition rc_discard_grant :: "string \<Rightarrow> run_creds \<Rightarrow> run_creds" where
  "rc_discard_grant grant c = c\<lparr>rc_values := AList.delete grant (rc_values c)\<rparr>"

definition rc_take :: "time \<Rightarrow> string \<Rightarrow> run_creds \<Rightarrow> string option \<times> run_creds" where
  "rc_take now run c =
     (let c' = rc_expire now c in
      (map_option fst (map_of (rc_values c') run), c'\<lparr>rc_values := AList.delete run (rc_values c')\<rparr>))"

definition rc_close :: "run_creds \<Rightarrow> run_creds" where
  "rc_close c = c\<lparr>rc_values := []\<rparr>"

section \<open>Requests and responses\<close>

record call_request =
  rq_run :: string
  rq_session :: string
  rq_call :: string
  rq_tool :: string
  rq_args :: json
  rq_rev :: int
  rq_context :: string
  rq_toolset :: string

datatype response_status =
  Rs_Completed | Rs_Pending | Rs_Confirm | Rs_Authorize | Rs_Rejected | Rs_Failed

fun response_status_text :: "response_status \<Rightarrow> string" where
  "response_status_text Rs_Completed = ''completed''"
| "response_status_text Rs_Pending = ''pending_operation''"
| "response_status_text Rs_Confirm = ''awaiting_confirmation''"
| "response_status_text Rs_Authorize = ''authorization_required''"
| "response_status_text Rs_Rejected = ''rejected''"
| "response_status_text Rs_Failed = ''failed''"

record response =
  rs_status :: response_status
  rs_summary :: string
  rs_obs :: json
  rs_susp :: "json option"

definition requires_suspension :: "response \<Rightarrow> bool" where
  "requires_suspension r = (rs_status r \<in> {Rs_Pending, Rs_Confirm, Rs_Authorize})"

definition response_ok :: "response \<Rightarrow> bool" where
  "response_ok r =
     (1 \<le> py_len (rs_summary r) \<and> py_len (rs_summary r) \<le> 512 \<and> is_obj (rs_obs r) \<and>
      (case rs_susp r of None \<Rightarrow> True | Some j \<Rightarrow> is_obj j))"

text \<open>\<^verbatim>\<open>model_dump\<close> and \<^verbatim>\<open>model_validate\<close>.\<close>

definition response_json :: "response \<Rightarrow> json" where
  "response_json r = JObj [
     (''protocol_version'', JStr ''v1''),
     (''status'', JStr (response_status_text (rs_status r))),
     (''public_summary'', JStr (rs_summary r)),
     (''model_observation'', rs_obs r),
     (''suspension'', case rs_susp r of None \<Rightarrow> JNull | Some j \<Rightarrow> j)]"

definition read_status :: "json \<Rightarrow> response_status option" where
  "read_status j = List.find (\<lambda>s. j = JStr (response_status_text s))
     [Rs_Completed, Rs_Pending, Rs_Confirm, Rs_Authorize, Rs_Rejected, Rs_Failed]"

definition read_response :: "json \<Rightarrow> response option" where
  "read_response j =
     (case (j, read_status (jget ''status'' j), jget ''public_summary'' j) of
        (JObj d, Some st, JStr summary) \<Rightarrow>
          (let r = \<lparr>rs_status = st, rs_summary = summary, rs_obs = jget ''model_observation'' j,
                    rs_susp = (if jget ''suspension'' j = JNull then None else Some (jget ''suspension'' j))\<rparr>
           in if set (map fst d) \<subseteq> {''protocol_version'', ''status'', ''public_summary'',
                   ''model_observation'', ''suspension''} \<and>
                 jget ''protocol_version'' j = JStr ''v1'' \<and> response_ok r
              then Some r else None)
      | _ \<Rightarrow> None)"

text \<open>the run is not registered with the Gateway\<close>

definition say_unregistered :: string where
  "say_unregistered =
     utf8 [229, 189, 147, 229, 137, 141, 32, 82, 117, 110, 32, 230, 156, 170, 229, 156, 168, 32,
     71, 97, 116, 101, 119, 97, 121, 32, 230, 179, 168, 229, 134, 140]"

text \<open>the call does not match the frozen run binding\<close>

definition say_not_frozen :: string where
  "say_not_frozen =
     utf8 [84, 111, 111, 108, 32, 67, 97, 108, 108, 32, 228, 184, 142, 229, 134, 187, 231, 187,
     147, 32, 82, 117, 110, 32, 98, 105, 110, 100, 105, 110, 103, 32, 228, 184, 141, 228, 184, 128,
     232, 135, 180]"

text \<open>the manifest does not match the frozen run\<close>

definition say_manifest :: string where
  "say_manifest =
     utf8 [84, 111, 111, 108, 32, 77, 97, 110, 105, 102, 101, 115, 116, 32, 228, 184, 142, 229,
     134, 187, 231, 187, 147, 32, 82, 117, 110, 32, 228, 184, 141, 228, 184, 128, 232, 135, 180]"

text \<open>the call is executing, retry with the same identity\<close>

definition say_in_progress :: string where
  "say_in_progress =
     utf8 [232, 175, 165, 32, 84, 111, 111, 108, 32, 232, 176, 131, 231, 148, 168, 230, 173, 163,
     229, 156, 168, 230, 137, 167, 232, 161, 140, 239, 188, 140, 232, 175, 183, 228, 189, 191, 231,
     148, 168, 229, 144, 140, 228, 184, 128, 232, 176, 131, 231, 148, 168, 230, 160, 135, 232, 175,
     134, 233, 135, 141, 232, 175, 149]"

text \<open>the run may not use this tool\<close>

definition say_unknown_tool :: string where
  "say_unknown_tool =
     utf8 [229, 189, 147, 229, 137, 141, 32, 82, 117, 110, 32, 230, 156, 170, 230, 142, 136, 230,
     157, 131, 232, 175, 165, 32, 84, 111, 111, 108]"

text \<open>the operation needs your confirmation\<close>

definition say_confirm :: string where
  "say_confirm =
     utf8 [232, 175, 165, 230, 147, 141, 228, 189, 156, 233, 156, 128, 232, 166, 129, 228, 189,
     160, 231, 154, 132, 231, 161, 174, 232, 174, 164, 229, 144, 142, 230, 137, 141, 232, 131, 189,
     231, 187, 167, 231, 187, 173]"

text \<open>a billable tool must declare its confirmation\<close>

definition say_no_boundary :: string where
  "say_no_boundary =
     utf8 [232, 174, 161, 232, 180, 185, 32, 84, 111, 111, 108, 32, 229, 191, 133, 233, 161, 187,
     229, 163, 176, 230, 152, 142, 231, 161, 174, 232, 174, 164, 232, 190, 185, 231, 149, 140]"

text \<open>the workspace does not exist or is not of this run\<close>

definition say_no_workspace :: string where
  "say_no_workspace =
     utf8 [229, 183, 165, 228, 189, 156, 229, 140, 186, 228, 184, 141, 229, 173, 152, 229, 156,
     168, 230, 136, 150, 228, 184, 141, 229, 177, 158, 228, 186, 142, 229, 189, 147, 229, 137, 141,
     32, 82, 117, 110]"

text \<open>the workspace revision has changed\<close>

definition say_revision :: string where
  "say_revision =
     utf8 [229, 183, 165, 228, 189, 156, 229, 140, 186, 32, 114, 101, 118, 105, 115, 105, 111, 110,
     32, 229, 183, 178, 229, 143, 152, 229, 140, 150]"

text \<open>the billable operation needs a new authorization\<close>

definition say_authorize :: string where
  "say_authorize =
     utf8 [233, 156, 128, 232, 166, 129, 233, 135, 141, 230, 150, 176, 230, 142, 136, 230, 157,
     131, 229, 144, 142, 230, 137, 141, 232, 131, 189, 229, 144, 175, 229, 138, 168, 232, 175, 165,
     232, 174, 161, 232, 180, 185, 230, 147, 141, 228, 189, 156]"

text \<open>the call was interrupted\<close>

definition say_cancelled :: string where
  "say_cancelled =
     utf8 [232, 175, 165, 32, 84, 111, 111, 108, 32, 232, 176, 131, 231, 148, 168, 232, 162, 171,
     228, 184, 173, 230, 150, 173, 239, 188, 140, 232, 175, 183, 229, 159, 186, 228, 186, 142, 229,
     189, 147, 229, 137, 141, 229, 183, 165, 228, 189, 156, 229, 140, 186, 233, 135, 141, 230, 150,
     176, 229, 143, 145, 232, 181, 183]"

text \<open>submitting the image generation failed\<close>

definition say_image_failed :: string where
  "say_image_failed =
     utf8 [229, 155, 190, 231, 137, 135, 232, 181, 132, 228, 186, 167, 231, 148, 159, 230, 136,
     144, 230, 143, 144, 228, 186, 164, 229, 164, 177, 232, 180, 165, 239, 188, 140, 232, 175, 183,
     231, 168, 141, 229, 144, 142, 233, 135, 141, 232, 175, 149]"

text \<open>the call did not complete\<close>

definition say_failed :: string where
  "say_failed =
     utf8 [232, 175, 165, 32, 84, 111, 111, 108, 32, 232, 176, 131, 231, 148, 168, 230, 156, 170,
     229, 174, 140, 230, 136, 144, 239, 188, 140, 232, 175, 183, 229, 159, 186, 228, 186, 142, 229,
     189, 147, 229, 137, 141, 229, 183, 165, 228, 189, 156, 229, 140, 186, 231, 187, 167, 231, 187,
     173]"

definition plain_response :: "response_status \<Rightarrow> string \<Rightarrow> string \<Rightarrow> response" where
  "plain_response st summary code =
     \<lparr>rs_status = st, rs_summary = summary, rs_obs = JObj [(''code'', JStr code)], rs_susp = None\<rparr>"

definition rejected :: "string \<Rightarrow> response" where
  "rejected summary = plain_response Rs_Rejected summary ''tool_call_rejected''"

definition in_progress :: response where
  "in_progress = plain_response Rs_Failed say_in_progress ''tool_call_in_progress''"

definition suspended_for :: "string \<Rightarrow> string \<Rightarrow> string \<Rightarrow> response" where
  "suspended_for kind tool i =
     (let susp = JObj [(''kind'', JStr kind), (''tool_name'', JStr tool), (''interrupt_id'', JStr i)] in
      if kind = ''awaiting_confirmation''
      then \<lparr>rs_status = Rs_Confirm, rs_summary = say_confirm,
             rs_obs = JObj [(''code'', JStr ''tool_confirmation_required''), (''tool_name'', JStr tool)],
             rs_susp = Some susp\<rparr>
      else \<lparr>rs_status = Rs_Authorize, rs_summary = say_authorize,
             rs_obs = JObj [(''code'', JStr ''tool_authorization_required'')], rs_susp = Some susp\<rparr>)"

section \<open>The observation of a tool\<close>

definition observation_forbidden :: "string list" where
  "observation_forbidden =
     [''authorization'', ''credential'', ''secret'', ''token'', ''password'', ''api_key'', ''provider'']"

definition observation_max_bytes :: nat where
  "observation_max_bytes = 8192"

definition safe_model_observation :: "(rat \<Rightarrow> string) \<Rightarrow> string list \<Rightarrow> json \<Rightarrow> json option" where
  "safe_model_observation fl allowed v =
     (if \<not> is_obj v then None
      else if \<not> set (obj_keys v) \<subseteq> set allowed then None
      else if list_ex (\<lambda>k. list_ex (\<lambda>f. contains f (py_lower k)) observation_forbidden) (obj_keys v) then None
      else if observation_max_bytes < length (jdump fl False v) then None
      else Some v)"

fun merge_obj :: "json \<Rightarrow> json \<Rightarrow> json" where
  "merge_obj (JObj d) (JObj e) = JObj (foldl (\<lambda>acc (k, v). AList.update k v acc) d e)"
| "merge_obj j _ = j"

definition failed_response :: "tool_spec \<Rightarrow> response" where
  "failed_response sp =
     plain_response Rs_Failed (if sp_name sp = ''generate_image_assets'' then say_image_failed else say_failed)
       ''tool_call_failed''"

definition cancelled_response :: response where
  "cancelled_response = plain_response Rs_Failed say_cancelled ''tool_call_cancelled''"

definition success_response :: "(rat \<Rightarrow> string) \<Rightarrow> tool_spec \<Rightarrow> tool_result \<Rightarrow> nat \<Rightarrow> response option" where
  "success_response fl sp res rv =
     (case safe_model_observation fl (sp_keys sp) (tr_obs res) of
        None \<Rightarrow> None
      | Some obs \<Rightarrow>
          (let pend = (tr_pending res \<noteq> []);
               r = \<lparr>rs_status = (if pend then Rs_Pending else Rs_Completed), rs_summary = tr_summary res,
                    rs_obs = merge_obj (JObj [
                       (''code'', JStr (if pend then ''video_tool_pending_generation_job''
                                        else ''video_tool_completed'')),
                       (''tool_name'', JStr (tr_name res)),
                       (''workspace_revision'', JInt (int rv)),
                       (''artifact_refs'', JList (map JStr (tr_artifacts res)))]) obs,
                    rs_susp = (if pend
                       then Some (JObj [(''kind'', JStr ''pending_operation''),
                                        (''generation_job_ids'', JList (map JStr (tr_pending res)))])
                       else None)\<rparr>
           in if response_ok r then Some r else None))"

section \<open>A call, piece by piece\<close>

record broker =
  bk_registry :: registry
  bk_manifest :: string
  bk_creds :: bool

record 'w tool_world =
  tw_store :: tool_store
  tw_creds :: run_creds
  tw_ws :: 'w

datatype broker_error = Store_Error tool_error | Call_Cancelled | Bad_Response

datatype call_phase =
    Fresh
  | Claimed run_binding string
  | Asking run_binding string string json
  | Checked run_binding string tool_spec bool
  | Loaded run_binding string tool_spec bool ws_view
  | Running run_binding string tool_spec ws_view "string option"
  | Closing string response
  | Cancelling string
  | Finished "broker_error + response"

text \<open>What the environment does in a piece: the time, the handler or a cancellation, other writers.\<close>

record 'w piece =
  pc_now :: time
  pc_handler :: handler
  pc_cancel :: bool
  pc_envs :: "('w \<Rightarrow> 'w) list"

definition begin_call ::
  "(string \<Rightarrow> string) \<Rightarrow> (rat \<Rightarrow> string) \<Rightarrow> broker \<Rightarrow> string \<Rightarrow> call_request \<Rightarrow> tool_store
   \<Rightarrow> call_phase \<times> tool_store" where
  "begin_call H fl B key rq s =
     (case get_run_binding s (rq_run rq) of
        None \<Rightarrow> (Finished (Inr (rejected say_unregistered)), s)
      | Some b \<Rightarrow>
          if key \<noteq> tool_call_key H (rq_run rq) (rq_call rq)
          then (Finished (Inl (Store_Error Binding_Conflict)), s)
          else if rq_session rq \<noteq> rb_session b \<or> rq_context rq \<noteq> rb_context b \<or> rq_toolset rq \<noteq> rb_toolset b
          then (Finished (Inr (rejected say_not_frozen)), s)
          else if rb_manifest b \<noteq> bk_manifest B then (Finished (Inr (rejected say_manifest)), s)
          else
            (let digest = request_digest H fl b (rq_tool rq) (rq_args rq) (rq_rev rq) in
             case claim_tool_call key (rq_run rq) (rq_call rq) digest s of
               (Inl e, s') \<Rightarrow> (Finished (Inl (Store_Error e)), s')
             | (Inr (Was_Completed j), s') \<Rightarrow>
                 (case read_response j of
                    None \<Rightarrow> Finished (Inl Bad_Response)
                  | Some r \<Rightarrow> Finished (Inr r), s')
             | (Inr Is_Executing, s') \<Rightarrow> (Finished (Inr in_progress), s')
             | (Inr Claimed_Now, s') \<Rightarrow> (Claimed b digest, s')))"

definition check_call :: "broker \<Rightarrow> call_request \<Rightarrow> run_binding \<Rightarrow> string \<Rightarrow> tool_store \<Rightarrow> call_phase" where
  "check_call B rq b digest s =
     (case resolve_tool (bk_registry B) (rq_tool rq) of
        None \<Rightarrow> Finished (Inr (rejected say_unknown_tool))
      | Some sp \<Rightarrow>
          (let granted = is_tool_confirmation_granted s (rq_run rq) (sp_name sp) in
           if sp_confirm sp \<and> \<not> granted
           then Asking b digest ''awaiting_confirmation'' (JObj [(''tool_name'', JStr (sp_name sp))])
           else if sp_cost sp \<noteq> Cost_None \<and> \<not> granted then Finished (Inr (rejected say_no_boundary))
           else Checked b digest sp granted))"

definition load_workspace ::
  "'w ws_port \<Rightarrow> call_request \<Rightarrow> run_binding \<Rightarrow> string \<Rightarrow> tool_spec \<Rightarrow> bool \<Rightarrow> 'w \<Rightarrow> call_phase" where
  "load_workspace W rq b digest sp granted w =
     (case wp_get W w (rb_user b) (rb_ws b) of
        None \<Rightarrow> Closing digest (rejected say_no_workspace)
      | Some v \<Rightarrow>
          if wv_conv v \<noteq> rb_conv b then Closing digest (rejected say_no_workspace)
          else if int (wv_revision v) \<noteq> rq_rev rq then Closing digest (rejected say_revision)
          else Loaded b digest sp granted v)"

definition ask_authorization :: "run_binding \<Rightarrow> string \<Rightarrow> tool_spec \<Rightarrow> bool \<Rightarrow> call_phase" where
  "ask_authorization b digest sp granted =
     Asking b digest ''authorization_required''
       (JObj [(''tool_name'', JStr (sp_name sp)), (''confirmation_granted'', JBool granted)])"

definition take_credential ::
  "broker \<Rightarrow> time \<Rightarrow> call_request \<Rightarrow> run_binding \<Rightarrow> string \<Rightarrow> tool_spec \<Rightarrow> bool \<Rightarrow> ws_view \<Rightarrow> run_creds
   \<Rightarrow> call_phase \<times> run_creds" where
  "take_credential B now rq b digest sp granted v c =
     (if sp_cost sp = Cost_None then (Running b digest sp v None, c)
      else if \<not> bk_creds B then (ask_authorization b digest sp granted, c)
      else (case rc_take now (rq_run rq) c of
              (None, c') \<Rightarrow> (ask_authorization b digest sp granted, c')
            | (Some a, c') \<Rightarrow> (Running b digest sp v (Some a), c')))"

definition context_ok :: "run_binding \<Rightarrow> call_request \<Rightarrow> bool" where
  "context_ok b rq = (py_strip (rb_user b) \<noteq> [] \<and> starts_with ''hrun_'' (rq_run rq) \<and> py_strip (rq_call rq) \<noteq> [])"

definition run_tool ::
  "(rat \<Rightarrow> string) \<Rightarrow> broker \<Rightarrow> 'w ws_port \<Rightarrow> 'w piece \<Rightarrow> call_request \<Rightarrow> run_binding \<Rightarrow> string \<Rightarrow> tool_spec
   \<Rightarrow> ws_view \<Rightarrow> 'w \<Rightarrow> call_phase \<times> 'w" where
  "run_tool fl B W p rq b digest sp v w =
     (if pc_cancel p then (Cancelling digest, w)
      else if \<not> context_ok b rq then (Closing digest (failed_response sp), w)
      else (case execute_tool_call (bk_registry B) W (rb_user b) (rb_ws b) (wv_revision v) (pc_now p)
                   (pc_envs p) (rq_tool rq) (pc_handler p) w of
              (Inl e, w') \<Rightarrow> (Closing digest (failed_response sp), w')
            | (Inr res, w') \<Rightarrow>
                (let rv = (case wp_get W w' (rb_user b) (rb_ws b) of
                             None \<Rightarrow> wv_revision v | Some v' \<Rightarrow> wv_revision v')
                 in case success_response fl sp res rv of
                      None \<Rightarrow> (Closing digest (failed_response sp), w')
                    | Some r \<Rightarrow> (Closing digest r, w'))))"

definition close_call :: "string \<Rightarrow> string \<Rightarrow> response \<Rightarrow> tool_store \<Rightarrow> call_phase \<times> tool_store" where
  "close_call key digest r s =
     (case complete_tool_call key digest (response_json r) s of
        (Inl e, s') \<Rightarrow> (Finished (Inl (Store_Error e)), s')
      | (Inr j, s') \<Rightarrow>
          (case read_response j of
             None \<Rightarrow> Finished (Inl Bad_Response)
           | Some r' \<Rightarrow> Finished (Inr r'), s'))"

fun advance ::
  "(string \<Rightarrow> string) \<Rightarrow> (rat \<Rightarrow> string) \<Rightarrow> broker \<Rightarrow> 'w ws_port \<Rightarrow> 'w piece \<Rightarrow> string \<Rightarrow> call_request
   \<Rightarrow> call_phase \<Rightarrow> 'w tool_world \<Rightarrow> call_phase \<times> 'w tool_world" where
  "advance H fl B W p key rq Fresh t =
     (let (ph, s) = begin_call H fl B key rq (tw_store t) in (ph, t\<lparr>tw_store := s\<rparr>))"
| "advance H fl B W p key rq (Claimed b digest) t = (check_call B rq b digest (tw_store t), t)"
| "advance H fl B W p key rq (Asking b digest kind payload) t =
     (case get_or_create_interrupt H key b kind payload (tw_store t) of
        (Inl e, s) \<Rightarrow> (Finished (Inl (Store_Error e)), t\<lparr>tw_store := s\<rparr>)
      | (Inr i, s) \<Rightarrow>
          (Closing digest (suspended_for kind
             (case jget ''tool_name'' payload of JStr n \<Rightarrow> n | _ \<Rightarrow> []) i), t\<lparr>tw_store := s\<rparr>))"
| "advance H fl B W p key rq (Checked b digest sp granted) t =
     (load_workspace W rq b digest sp granted (tw_ws t), t)"
| "advance H fl B W p key rq (Loaded b digest sp granted v) t =
     (let (ph, c) = take_credential B (pc_now p) rq b digest sp granted v (tw_creds t)
      in (ph, t\<lparr>tw_creds := c\<rparr>))"
| "advance H fl B W p key rq (Running b digest sp v cred) t =
     (let (ph, w) = run_tool fl B W p rq b digest sp v (tw_ws t) in (ph, t\<lparr>tw_ws := w\<rparr>))"
| "advance H fl B W p key rq (Closing digest r) t =
     (let (ph, s) = close_call key digest r (tw_store t) in (ph, t\<lparr>tw_store := s\<rparr>))"
| "advance H fl B W p key rq (Cancelling digest) t =
     (case complete_tool_call key digest (response_json cancelled_response) (tw_store t) of
        (Inl e, s) \<Rightarrow> (Finished (Inl (Store_Error e)), t\<lparr>tw_store := s\<rparr>)
      | (Inr j, s) \<Rightarrow> (Finished (Inl Call_Cancelled), t\<lparr>tw_store := s\<rparr>))"
| "advance H fl B W p key rq (Finished r) t = (Finished r, t)"

text \<open>An undisturbed call: the pieces in a row. Seven are enough for every path.\<close>

fun run_call ::
  "nat \<Rightarrow> (string \<Rightarrow> string) \<Rightarrow> (rat \<Rightarrow> string) \<Rightarrow> broker \<Rightarrow> 'w ws_port \<Rightarrow> 'w piece \<Rightarrow> string \<Rightarrow> call_request
   \<Rightarrow> call_phase \<Rightarrow> 'w tool_world \<Rightarrow> call_phase \<times> 'w tool_world" where
  "run_call 0 H fl B W p key rq ph t = (ph, t)"
| "run_call (Suc n) H fl B W p key rq ph t =
     (case advance H fl B W p key rq ph t of (ph', t') \<Rightarrow> run_call n H fl B W p key rq ph' t')"

definition broker_call ::
  "(string \<Rightarrow> string) \<Rightarrow> (rat \<Rightarrow> string) \<Rightarrow> broker \<Rightarrow> 'w ws_port \<Rightarrow> 'w piece \<Rightarrow> string \<Rightarrow> call_request
   \<Rightarrow> 'w tool_world \<Rightarrow> call_phase \<times> 'w tool_world" where
  "broker_call H fl B W p key rq t = run_call 7 H fl B W p key rq Fresh t"

end
