(* ===== verification/Tool_System.thy ===== *)
theory Tool_System
  imports Tool_Broker
begin

text \<open>
  The broker in its process: any number of calls in flight, each at its own piece, together with
  the controllers that answer interrupts and deposit credentials, other writers of workspaces,
  cancelled requests and restarts. The log of the executions and the list of the deposits are
  history variables of the model.
\<close>

section \<open>Steps\<close>

record log_entry =
  lx_key :: string
  lx_run :: string
  lx_call :: string
  lx_spec :: tool_spec
  lx_cred :: "string option"

record 'w tool_sys =
  sy_world :: "'w tool_world"
  sy_tasks :: "(nat, string \<times> call_request \<times> call_phase) dict"
  sy_log :: "log_entry list"
  sy_deposits :: "string list"

definition log_of_phase :: "string \<Rightarrow> call_request \<Rightarrow> call_phase \<Rightarrow> log_entry list" where
  "log_of_phase key rq ph =
     (case ph of
        Running b digest sp v cred \<Rightarrow>
          [\<lparr>lx_key = key, lx_run = rq_run rq, lx_call = rq_call rq, lx_spec = sp, lx_cred = cred\<rparr>]
      | _ \<Rightarrow> [])"

datatype cred_cmd = Deposit string string | Grant string string | Bind_Grant string string | Drop_Grant string

fun cred_exec :: "time \<Rightarrow> run_creds \<Rightarrow> cred_cmd \<Rightarrow> string list \<times> run_creds" where
  "cred_exec now c (Deposit run auth) =
     (let (r, c') = rc_put now run auth c in (if is_ok r then [run] else [], c'))"
| "cred_exec now c (Grant grant auth) =
     (let (r, c') = rc_put_grant now grant auth c in (if is_ok r then [grant] else [], c'))"
| "cred_exec now c (Bind_Grant grant run) =
     (let (r, c') = rc_bind_grant now grant run c in (if is_ok r then [run] else [], c'))"
| "cred_exec now c (Drop_Grant grant) = ([], rc_discard_grant grant c)"

text \<open>The ledger of the calls is written by the broker alone.\<close>

fun ledger_cmd :: "tool_cmd \<Rightarrow> bool" where
  "ledger_cmd (Call_Claim _ _ _ _) = True"
| "ledger_cmd (Call_Complete _ _ _) = True"
| "ledger_cmd _ = False"

inductive tool_step ::
  "(string \<Rightarrow> string) \<Rightarrow> (rat \<Rightarrow> string) \<Rightarrow> broker \<Rightarrow> 'w ws_port \<Rightarrow> 'w tool_sys \<Rightarrow> 'w tool_sys \<Rightarrow> bool"
  for H fl B W where
  step_arrive: "map_of (sy_tasks s) i = None \<Longrightarrow>
     tool_step H fl B W s (s\<lparr>sy_tasks := AList.update i (key, rq, Fresh) (sy_tasks s)\<rparr>)"
| step_advance: "map_of (sy_tasks s) i = Some (key, rq, ph) \<Longrightarrow>
     advance H fl B W p key rq ph (sy_world s) = (ph', t) \<Longrightarrow>
     tool_step H fl B W s
       (s\<lparr>sy_world := t, sy_tasks := AList.update i (key, rq, ph') (sy_tasks s),
          sy_log := sy_log s @ log_of_phase key rq ph'\<rparr>)"
| step_abandon: "tool_step H fl B W s (s\<lparr>sy_tasks := AList.delete i (sy_tasks s)\<rparr>)"
| step_restart: "tool_step H fl B W s
     (s\<lparr>sy_tasks := [], sy_world := (sy_world s)\<lparr>tw_creds := rc_close (tw_creds (sy_world s))\<rparr>\<rparr>)"
| step_command: "\<not> ledger_cmd c \<Longrightarrow>
     tool_step H fl B W s
       (s\<lparr>sy_world := (sy_world s)\<lparr>tw_store := snd (tool_exec H (tw_store (sy_world s)) c)\<rparr>\<rparr>)"
| step_credential: "cred_exec now (tw_creds (sy_world s)) c = (ds, cr) \<Longrightarrow>
     tool_step H fl B W s
       (s\<lparr>sy_world := (sy_world s)\<lparr>tw_creds := cr\<rparr>, sy_deposits := sy_deposits s @ ds\<rparr>)"
| step_workspace: "tool_step H fl B W s
     (s\<lparr>sy_world := (sy_world s)\<lparr>tw_ws := f (tw_ws (sy_world s))\<rparr>\<rparr>)"

definition idle_sys :: "'w tool_world \<Rightarrow> 'w tool_sys" where
  "idle_sys t = \<lparr>sy_world = t, sy_tasks = [], sy_log = [], sy_deposits = []\<rparr>"

inductive tool_reach ::
  "(string \<Rightarrow> string) \<Rightarrow> (rat \<Rightarrow> string) \<Rightarrow> broker \<Rightarrow> 'w ws_port \<Rightarrow> 'w tool_sys \<Rightarrow> bool"
  for H fl B W where
  reach_idle: "tool_ok (tw_store t) \<Longrightarrow> rc_values (tw_creds t) = [] \<Longrightarrow> tool_reach H fl B W (idle_sys t)"
| reach_step: "tool_reach H fl B W s \<Longrightarrow> tool_step H fl B W s s' \<Longrightarrow> tool_reach H fl B W s'"

abbreviation sy_store :: "'w tool_sys \<Rightarrow> tool_store" where
  "sy_store s \<equiv> tw_store (sy_world s)"

section \<open>What a piece does to the store\<close>

fun owns_call :: "call_phase \<Rightarrow> string option" where
  "owns_call (Claimed b digest) = Some digest"
| "owns_call (Asking b digest kind payload) = Some digest"
| "owns_call (Checked b digest sp granted) = Some digest"
| "owns_call (Loaded b digest sp granted v) = Some digest"
| "owns_call (Running b digest sp v cred) = Some digest"
| "owns_call (Closing digest r) = Some digest"
| "owns_call (Cancelling digest) = Some digest"
| "owns_call _ = None"

fun waits :: "call_phase \<Rightarrow> bool" where
  "waits (Claimed b digest) = True"
| "waits (Asking b digest kind payload) = True"
| "waits (Checked b digest sp granted) = True"
| "waits (Loaded b digest sp granted v) = True"
| "waits _ = False"

lemma waits_owns: "waits ph \<Longrightarrow> owns_call ph \<noteq> None"
  by (cases ph) auto

definition claimed_row :: "string \<Rightarrow> string \<Rightarrow> string \<Rightarrow> call_row" where
  "claimed_row run call digest =
     \<lparr>tc_run = run, tc_call = call, tc_digest = digest, tc_state = Executing, tc_response = JObj []\<rparr>"

lemma claim_cases:
  assumes "claim_tool_call key run call digest s = (r, s')"
  obtains (kept) "r \<noteq> Inr Claimed_Now" "s' = s"
  | (claimed) "r = Inr Claimed_Now" "map_of (ts_calls s) key = None"
      "s' = s\<lparr>ts_calls := AList.update key (claimed_row run call digest) (ts_calls s)\<rparr>"
  using assms
  by (auto simp: claim_tool_call_def claim_reread_def claimed_row_def split: option.splits if_splits)

lemma begin_call_cases:
  assumes "begin_call H fl B key rq s = (ph, s')"
  obtains (over) r where "ph = Finished r" "s' = s"
  | (claimed) b where "get_run_binding s (rq_run rq) = Some b"
      "ph = Claimed b (request_digest H fl b (rq_tool rq) (rq_args rq) (rq_rev rq))"
      "key = tool_call_key H (rq_run rq) (rq_call rq)" "map_of (ts_calls s) key = None"
      "s' = s\<lparr>ts_calls := AList.update key (claimed_row (rq_run rq) (rq_call rq)
               (request_digest H fl b (rq_tool rq) (rq_args rq) (rq_rev rq))) (ts_calls s)\<rparr>"
      "claim_tool_call key (rq_run rq) (rq_call rq)
         (request_digest H fl b (rq_tool rq) (rq_args rq) (rq_rev rq)) s = (Inr Claimed_Now, s')"
proof (cases "get_run_binding s (rq_run rq)")
  case None
  then show ?thesis using assms by (auto simp: begin_call_def intro: over)
next
  case (Some b)
  let ?d = "request_digest H fl b (rq_tool rq) (rq_args rq) (rq_rev rq)"
  obtain r t where c: "claim_tool_call key (rq_run rq) (rq_call rq) ?d s = (r, t)" by fastforce
  show ?thesis
  proof (cases "key \<noteq> tool_call_key H (rq_run rq) (rq_call rq) \<or> rq_session rq \<noteq> rb_session b \<or>
      rq_context rq \<noteq> rb_context b \<or> rq_toolset rq \<noteq> rb_toolset b \<or> rb_manifest b \<noteq> bk_manifest B")
    case True
    then show ?thesis using assms Some over by (auto simp: begin_call_def split: if_splits)
  next
    case False
    from c show ?thesis
    proof (cases rule: claim_cases)
      case kept
      then show ?thesis using assms Some False c over
        by (auto simp: begin_call_def Let_def split: sum.splits call_claim.splits option.splits)
    next
      case c2: claimed
      then have "ph = Claimed b ?d" "s' = t"
        using assms Some False c by (auto simp: begin_call_def Let_def)
      then show ?thesis using claimed [OF Some] c2 c False by simp
    qed
  qed
qed

lemma complete_cases:
  assumes "complete_tool_call key digest j s = (r, s')"
  obtains (kept) "s' = s"
  | (written) c where "map_of (ts_calls s) key = Some c" "tc_digest c = digest" "tc_state c = Executing"
      "r = Inr j"
      "s' = s\<lparr>ts_calls := AList.update key (c\<lparr>tc_state := Completed, tc_response := j\<rparr>) (ts_calls s)\<rparr>"
  using assms
  by (auto simp: complete_tool_call_def split: option.splits if_splits) (metis call_state.exhaust)

lemma begin_call_le: "tool_le s (snd (begin_call H fl B key rq s)) \<and>
    (tool_ok s \<longrightarrow> tool_ok (snd (begin_call H fl B key rq s)))"
proof -
  obtain ph s' where e: "begin_call H fl B key rq s = (ph, s')" by fastforce
  then show ?thesis
  proof (cases rule: begin_call_cases)
    case over
    then show ?thesis using e by simp
  next
    case (claimed b)
    then show ?thesis
      using e claim_lawful [of s key "rq_run rq" "rq_call rq"
        "request_digest H fl b (rq_tool rq) (rq_args rq) (rq_rev rq)"]
      by (simp add: lawful_def)
  qed
qed

lemma close_call_le: "tool_le s (snd (close_call key digest r s)) \<and>
    (tool_ok s \<longrightarrow> tool_ok (snd (close_call key digest r s)))"
  using complete_lawful [of s key digest "response_json r"]
  by (auto simp: close_call_def lawful_def split: option.split sum.split prod.split)

lemma advance_le:
  assumes "advance H fl B W p key rq ph t = (ph', t')"
  shows "tool_le (tw_store t) (tw_store t') \<and> (tool_ok (tw_store t) \<longrightarrow> tool_ok (tw_store t'))"
proof (cases ph)
  case Fresh
  then show ?thesis using assms begin_call_le [of "tw_store t" H fl B key rq]
    by (auto simp: Let_def split: prod.splits)
next
  case (Asking b digest kind payload)
  then show ?thesis using assms interrupt_create_lawful [of "tw_store t" H key b kind payload]
    by (auto simp: lawful_def split: prod.splits sum.splits)
next
  case (Closing digest r)
  then show ?thesis using assms close_call_le [of "tw_store t" key digest r]
    by (auto simp: Let_def split: prod.splits)
next
  case (Cancelling digest)
  then show ?thesis
    using assms complete_lawful [of "tw_store t" key digest "response_json cancelled_response"]
    by (auto simp: lawful_def split: prod.splits sum.splits)
qed (use assms in \<open>auto split: prod.splits\<close>)

text \<open>How a piece moves the ownership of its call.\<close>

lemma advance_calls:
  assumes "advance H fl B W p key rq ph t = (ph', t')"
  obtains (kept) "ts_calls (tw_store t') = ts_calls (tw_store t)"
      "owns_call ph' = None \<or> owns_call ph' = owns_call ph" "waits ph' \<Longrightarrow> waits ph"
  | (claimed) d where "owns_call ph = None" "owns_call ph' = Some d"
      "key = tool_call_key H (rq_run rq) (rq_call rq)" "map_of (ts_calls (tw_store t)) key = None"
      "ts_calls (tw_store t') =
         AList.update key (claimed_row (rq_run rq) (rq_call rq) d) (ts_calls (tw_store t))"
      "log_of_phase key rq ph' = []"
  | (written) d c j where "owns_call ph = Some d" "owns_call ph' = None"
      "map_of (ts_calls (tw_store t)) key = Some c" "tc_state c = Executing"
      "ts_calls (tw_store t') =
         AList.update key (c\<lparr>tc_state := Completed, tc_response := j\<rparr>) (ts_calls (tw_store t))"
proof (cases ph)
  case Fresh
  obtain s' where e: "begin_call H fl B key rq (tw_store t) = (ph', s')" "t' = t\<lparr>tw_store := s'\<rparr>"
    using assms Fresh by (auto simp: Let_def split: prod.splits)
  from e(1) show ?thesis
  proof (cases rule: begin_call_cases)
    case over
    then show ?thesis using e Fresh kept by simp
  next
    case c: (claimed b)
    then show ?thesis using e Fresh by (intro claimed) (auto simp: log_of_phase_def)
  qed
next
  case (Claimed b d)
  then show ?thesis using assms
    by (intro kept) (auto simp: check_call_def Let_def split: option.splits if_splits)
next
  case (Asking b d kind payload)
  then show ?thesis using assms
    by (intro kept) (auto simp: get_or_create_interrupt_def Let_def
        split: option.splits if_splits prod.splits sum.splits)
next
  case (Checked b d sp g)
  then show ?thesis using assms
    by (intro kept) (auto simp: load_workspace_def split: option.splits if_splits)
next
  case (Loaded b d sp g v)
  then show ?thesis using assms
    by (intro kept) (auto simp: take_credential_def ask_authorization_def Let_def
        split: option.splits if_splits prod.splits)
next
  case (Running b d sp v cred)
  then show ?thesis using assms
    by (intro kept) (auto simp: run_tool_def Let_def split: option.splits if_splits prod.splits sum.splits)
next
  case (Closing d r)
  obtain q s' where c: "complete_tool_call key d (response_json r) (tw_store t) = (q, s')" by fastforce
  then have e: "owns_call ph' = None" "\<not> waits ph'" "tw_store t' = s'"
    using assms Closing by (auto simp: close_call_def Let_def split: sum.splits option.splits)
  from c show ?thesis
  proof (cases rule: complete_cases)
    case kept
    then show ?thesis using e by (intro that(1)) auto
  next
    case (written c)
    then show ?thesis using e Closing by (intro that(3)) auto
  qed
next
  case (Cancelling d)
  obtain q s' where c: "complete_tool_call key d (response_json cancelled_response) (tw_store t) = (q, s')"
    by fastforce
  then have e: "owns_call ph' = None" "\<not> waits ph'" "tw_store t' = s'"
    using assms Cancelling by (auto split: sum.splits)
  from c show ?thesis
  proof (cases rule: complete_cases)
    case kept
    then show ?thesis using e by (intro that(1)) auto
  next
    case (written c)
    then show ?thesis using e Cancelling by (intro that(3)) auto
  qed
next
  case (Finished r)
  then show ?thesis using assms by (intro kept) auto
qed

lemma running_from_loaded:
  assumes "advance H fl B W p key rq ph t = (ph', t')" and "log_of_phase key rq ph' \<noteq> []"
  obtains b d sp g v cred where "ph = Loaded b d sp g v" "ph' = Running b d sp v cred"
    "log_of_phase key rq ph' =
       [\<lparr>lx_key = key, lx_run = rq_run rq, lx_call = rq_call rq, lx_spec = sp, lx_cred = cred\<rparr>]"
    "take_credential B (pc_now p) rq b d sp g v (tw_creds t) = (ph', tw_creds t')"
  using assms
  by (cases ph) (auto simp: log_of_phase_def begin_call_def check_call_def load_workspace_def take_credential_def
      ask_authorization_def run_tool_def close_call_def Let_def
      split: option.splits if_splits prod.splits sum.splits call_claim.splits)

section \<open>Invariants\<close>

definition keys_of_log :: "log_entry list \<Rightarrow> string list" where
  "keys_of_log l = map lx_key l"

definition own_ok :: "(string \<Rightarrow> string) \<Rightarrow> (nat, string \<times> call_request \<times> call_phase) dict \<Rightarrow> tool_store \<Rightarrow> bool" where
  "own_ok H ts s = (\<forall>i key rq ph d. map_of ts i = Some (key, rq, ph) \<longrightarrow> owns_call ph = Some d \<longrightarrow>
     key = tool_call_key H (rq_run rq) (rq_call rq) \<and>
     (\<exists>c. map_of (ts_calls s) key = Some c \<and> tc_state c = Executing))"

definition own_unique :: "(nat, string \<times> call_request \<times> call_phase) dict \<Rightarrow> bool" where
  "own_unique ts = (\<forall>i j key rq ph rq' ph'. map_of ts i = Some (key, rq, ph) \<longrightarrow>
     map_of ts j = Some (key, rq', ph') \<longrightarrow> owns_call ph \<noteq> None \<longrightarrow> owns_call ph' \<noteq> None \<longrightarrow> i = j)"

definition wait_ok :: "(nat, string \<times> call_request \<times> call_phase) dict \<Rightarrow> log_entry list \<Rightarrow> bool" where
  "wait_ok ts l = (\<forall>i key rq ph. map_of ts i = Some (key, rq, ph) \<longrightarrow> waits ph \<longrightarrow> key \<notin> set (keys_of_log l))"

definition log_ok :: "(string \<Rightarrow> string) \<Rightarrow> tool_store \<Rightarrow> log_entry list \<Rightarrow> bool" where
  "log_ok H s l = (distinct (keys_of_log l) \<and>
     (\<forall>e \<in> set l. lx_key e = tool_call_key H (lx_run e) (lx_call e) \<and> map_of (ts_calls s) (lx_key e) \<noteq> None))"

definition sys_ok :: "(string \<Rightarrow> string) \<Rightarrow> 'w tool_sys \<Rightarrow> bool" where
  "sys_ok H s = (tool_ok (sy_store s) \<and> own_ok H (sy_tasks s) (sy_store s) \<and> own_unique (sy_tasks s) \<and>
     wait_ok (sy_tasks s) (sy_log s) \<and> log_ok H (sy_store s) (sy_log s))"

lemmas sys_ok_parts = sys_ok_def own_ok_def own_unique_def wait_ok_def log_ok_def

lemma sys_okD:
  assumes "sys_ok H s"
  shows "tool_ok (sy_store s)"
    and "map_of (sy_tasks s) i = Some (key, rq, ph) \<Longrightarrow> owns_call ph = Some d \<Longrightarrow>
      key = tool_call_key H (rq_run rq) (rq_call rq) \<and>
      (\<exists>c. map_of (ts_calls (sy_store s)) key = Some c \<and> tc_state c = Executing)"
    and "map_of (sy_tasks s) i = Some (key, rq, ph) \<Longrightarrow> map_of (sy_tasks s) j = Some (key, rq', ph') \<Longrightarrow>
      owns_call ph \<noteq> None \<Longrightarrow> owns_call ph' \<noteq> None \<Longrightarrow> i = j"
    and "map_of (sy_tasks s) i = Some (key, rq, ph) \<Longrightarrow> waits ph \<Longrightarrow> key \<notin> set (keys_of_log (sy_log s))"
    and "distinct (keys_of_log (sy_log s))"
    and "e \<in> set (sy_log s) \<Longrightarrow> lx_key e = tool_call_key H (lx_run e) (lx_call e) \<and>
      map_of (ts_calls (sy_store s)) (lx_key e) \<noteq> None"
proof -
  have o: "own_ok H (sy_tasks s) (sy_store s)" and u: "own_unique (sy_tasks s)"
    and w: "wait_ok (sy_tasks s) (sy_log s)" and l: "log_ok H (sy_store s) (sy_log s)"
    using assms by (simp_all add: sys_ok_def)
  show "tool_ok (sy_store s)" using assms by (simp add: sys_ok_def)
  show "map_of (sy_tasks s) i = Some (key, rq, ph) \<Longrightarrow> owns_call ph = Some d \<Longrightarrow>
      key = tool_call_key H (rq_run rq) (rq_call rq) \<and>
      (\<exists>c. map_of (ts_calls (sy_store s)) key = Some c \<and> tc_state c = Executing)"
    using o unfolding own_ok_def by blast
  show "map_of (sy_tasks s) i = Some (key, rq, ph) \<Longrightarrow> map_of (sy_tasks s) j = Some (key, rq', ph') \<Longrightarrow>
      owns_call ph \<noteq> None \<Longrightarrow> owns_call ph' \<noteq> None \<Longrightarrow> i = j"
    using u unfolding own_unique_def by blast
  show "map_of (sy_tasks s) i = Some (key, rq, ph) \<Longrightarrow> waits ph \<Longrightarrow> key \<notin> set (keys_of_log (sy_log s))"
    using w unfolding wait_ok_def by blast
  show "distinct (keys_of_log (sy_log s))" using l by (simp add: log_ok_def)
  show "e \<in> set (sy_log s) \<Longrightarrow> lx_key e = tool_call_key H (lx_run e) (lx_call e) \<and>
      map_of (ts_calls (sy_store s)) (lx_key e) \<noteq> None"
    using l unfolding log_ok_def by blast
qed

lemma log_ok_mono:
  assumes "log_ok H s l" and "\<And>k. map_of (ts_calls s) k \<noteq> None \<Longrightarrow> map_of (ts_calls t) k \<noteq> None"
  shows "log_ok H t l"
  using assms unfolding log_ok_def by blast

lemma log_ok_snoc:
  assumes "log_ok H s l" and "lx_key e \<notin> set (keys_of_log l)"
    and "lx_key e = tool_call_key H (lx_run e) (lx_call e)" and "map_of (ts_calls s) (lx_key e) \<noteq> None"
  shows "log_ok H s (l @ [e])"
  using assms unfolding log_ok_def keys_of_log_def by auto

lemma keys_of_log_append [simp]: "keys_of_log (l @ m) = keys_of_log l @ keys_of_log m"
  by (simp add: keys_of_log_def)

text \<open>A piece that changes no row of the ledger.\<close>

lemma advance_kept_ok:
  assumes ok: "sys_ok H s" and i: "map_of (sy_tasks s) i = Some (key, rq, ph)"
    and step: "advance H fl B W p key rq ph (sy_world s) = (ph', t)"
    and calls: "ts_calls (tw_store t) = ts_calls (sy_store s)"
    and own: "owns_call ph' = None \<or> owns_call ph' = owns_call ph" and wt: "waits ph' \<Longrightarrow> waits ph"
    and tok: "tool_ok (tw_store t)"
  shows "sys_ok H (s\<lparr>sy_world := t, sy_tasks := AList.update i (key, rq, ph') (sy_tasks s),
           sy_log := sy_log s @ log_of_phase key rq ph'\<rparr>)"
proof -
  let ?ts = "AList.update i (key, rq, ph') (sy_tasks s)"
  have new: "key \<notin> set (keys_of_log (sy_log s)) \<and> owns_call ph \<noteq> None \<and> \<not> waits ph' \<and>
      (\<exists>sp cred. log_of_phase key rq ph' =
        [\<lparr>lx_key = key, lx_run = rq_run rq, lx_call = rq_call rq, lx_spec = sp, lx_cred = cred\<rparr>])"
    if "log_of_phase key rq ph' \<noteq> []"
    using step that
  proof (cases rule: running_from_loaded)
    case (1 b d sp g v cred)
    then show ?thesis using sys_okD(4) [OF ok i] by auto
  qed
  have "own_ok H ?ts (tw_store t)"
    unfolding own_ok_def
  proof (intro allI impI)
    fix j k r q d
    assume j: "map_of ?ts j = Some (k, r, q)" and d: "owns_call q = Some d"
    show "k = tool_call_key H (rq_run r) (rq_call r) \<and>
        (\<exists>c. map_of (ts_calls (tw_store t)) k = Some c \<and> tc_state c = Executing)"
    proof (cases "j = i")
      case True
      then have q: "k = key" "r = rq" "q = ph'" using j by auto
      then have "owns_call ph = Some d" using own d by auto
      then show ?thesis using sys_okD(2) [OF ok i, of d] q calls by metis
    next
      case False
      then have "map_of (sy_tasks s) j = Some (k, r, q)" using j by simp
      then show ?thesis using sys_okD(2) [OF ok] d calls by simp
    qed
  qed
  moreover have "own_unique ?ts"
    unfolding own_unique_def
  proof (intro allI impI)
    have was: "\<exists>r q. map_of (sy_tasks s) a = Some (k, r, q) \<and> owns_call q \<noteq> None"
      if "map_of ?ts a = Some (k, r, q)" "owns_call q \<noteq> None" for a k r q
    proof (cases "a = i")
      case True
      then show ?thesis using that i own by (metis Pair_inject map_of_update fun_upd_same option.inject)
    next
      case False
      then show ?thesis using that by simp
    qed
    fix a b k r q r' q'
    assume a: "map_of ?ts a = Some (k, r, q)" and b: "map_of ?ts b = Some (k, r', q')"
      and oa: "owns_call q \<noteq> None" and ob: "owns_call q' \<noteq> None"
    obtain r1 q1 where 1: "map_of (sy_tasks s) a = Some (k, r1, q1)" "owns_call q1 \<noteq> None"
      using was [OF a oa] by blast
    obtain r2 q2 where 2: "map_of (sy_tasks s) b = Some (k, r2, q2)" "owns_call q2 \<noteq> None"
      using was [OF b ob] by blast
    show "a = b" by (rule sys_okD(3) [OF ok 1(1) 2(1) 1(2) 2(2)])
  qed
  moreover have "wait_ok ?ts (sy_log s @ log_of_phase key rq ph')"
    unfolding wait_ok_def
  proof (intro allI impI)
    fix j k r q
    assume j: "map_of ?ts j = Some (k, r, q)" and q: "waits q"
    have old: "k \<notin> set (keys_of_log (sy_log s))"
    proof (cases "j = i")
      case True
      then show ?thesis using j q wt sys_okD(4) [OF ok i] by auto
    next
      case False
      then show ?thesis using j q sys_okD(4) [OF ok, of j k r q] by simp
    qed
    moreover have "k \<notin> set (keys_of_log (log_of_phase key rq ph'))"
    proof
      assume k: "k \<in> set (keys_of_log (log_of_phase key rq ph'))"
      then have ne: "log_of_phase key rq ph' \<noteq> []" by (auto simp: keys_of_log_def)
      then have e: "k = key" "\<not> waits ph'" "owns_call ph \<noteq> None" using new k by (auto simp: keys_of_log_def)
      then have "j \<noteq> i" using j q by auto
      then have "map_of (sy_tasks s) j = Some (key, r, q)" using j e(1) by simp
      then have "j = i" using sys_okD(3) [OF ok _ i] waits_owns [OF q] e(3) by blast
      then show False using \<open>j \<noteq> i\<close> by simp
    qed
    ultimately show "k \<notin> set (keys_of_log (sy_log s @ log_of_phase key rq ph'))" by simp
  qed
  moreover have "log_ok H (tw_store t) (sy_log s @ log_of_phase key rq ph')"
  proof -
    have l: "log_ok H (tw_store t) (sy_log s)"
      by (rule log_ok_mono [of _ "sy_store s"]) (use ok calls in \<open>simp_all add: sys_ok_def\<close>)
    show ?thesis
    proof (cases "log_of_phase key rq ph' = []")
      case True
      then show ?thesis using l by simp
    next
      case False
      then obtain sp cred d where e: "log_of_phase key rq ph' =
          [\<lparr>lx_key = key, lx_run = rq_run rq, lx_call = rq_call rq, lx_spec = sp, lx_cred = cred\<rparr>]"
        and d: "owns_call ph = Some d" and k: "key \<notin> set (keys_of_log (sy_log s))"
        using new by blast
      have "key = tool_call_key H (rq_run rq) (rq_call rq)" "map_of (ts_calls (tw_store t)) key \<noteq> None"
        using sys_okD(2) [OF ok i d] calls by auto
      then show ?thesis unfolding e using l k by (intro log_ok_snoc) auto
    qed
  qed
  ultimately show ?thesis using tok by (simp add: sys_ok_def)
qed

text \<open>A piece that claims the call, and one that closes it.\<close>

lemma advance_claimed_ok:
  assumes ok: "sys_ok H s" and i: "map_of (sy_tasks s) i = Some (key, rq, ph)"
    and own: "owns_call ph' = Some d" and key: "key = tool_call_key H (rq_run rq) (rq_call rq)"
    and fresh: "map_of (ts_calls (sy_store s)) key = None" and log: "log_of_phase key rq ph' = []"
    and calls: "ts_calls (tw_store t) =
         AList.update key (claimed_row (rq_run rq) (rq_call rq) d) (ts_calls (sy_store s))"
    and tok: "tool_ok (tw_store t)"
  shows "sys_ok H (s\<lparr>sy_world := t, sy_tasks := AList.update i (key, rq, ph') (sy_tasks s),
           sy_log := sy_log s @ log_of_phase key rq ph'\<rparr>)"
proof -
  let ?ts = "AList.update i (key, rq, ph') (sy_tasks s)"
  have others: "k \<noteq> key" if "map_of (sy_tasks s) j = Some (k, r, q)" "owns_call q \<noteq> None" for j k r q
    using sys_okD(2) [OF ok that(1)] that(2) fresh by auto
  have free: "key \<notin> set (keys_of_log (sy_log s))"
    using sys_okD(6) [OF ok] fresh by (fastforce simp: keys_of_log_def)
  have "own_ok H ?ts (tw_store t)"
    using sys_okD(2) [OF ok] others key own unfolding own_ok_def
    by (auto simp: calls claimed_row_def)
  moreover have "own_unique ?ts"
    unfolding own_unique_def
  proof (intro allI impI)
    fix a b k r q r' q'
    assume a: "map_of ?ts a = Some (k, r, q)" and b: "map_of ?ts b = Some (k, r', q')"
      and o: "owns_call q \<noteq> None" "owns_call q' \<noteq> None"
    show "a = b"
    proof (cases "a = i"; cases "b = i")
      assume "a \<noteq> i" "b \<noteq> i"
      then show ?thesis using a b o sys_okD(3) [OF ok, of a k r q b r' q'] by simp
    next
      assume "a = i" "b \<noteq> i"
      then show ?thesis using a b o others [of b k r' q'] by simp
    next
      assume "a \<noteq> i" "b = i"
      then show ?thesis using a b o others [of a k r q] by simp
    qed simp
  qed
  moreover have "wait_ok ?ts (sy_log s @ log_of_phase key rq ph')"
    using sys_okD(4) [OF ok] free unfolding wait_ok_def by (auto simp: log keys_of_log_def)
  moreover have "log_ok H (tw_store t) (sy_log s @ log_of_phase key rq ph')"
    unfolding log append_Nil2
    by (rule log_ok_mono [of _ "sy_store s"]) (use ok in \<open>auto simp: sys_ok_def calls\<close>)
  ultimately show ?thesis using tok by (simp add: sys_ok_def)
qed

lemma advance_written_ok:
  assumes ok: "sys_ok H s" and i: "map_of (sy_tasks s) i = Some (key, rq, ph)"
    and own: "owns_call ph = Some d" and none: "owns_call ph' = None"
    and row: "map_of (ts_calls (sy_store s)) key = Some c"
    and calls: "ts_calls (tw_store t) =
         AList.update key (c\<lparr>tc_state := Completed, tc_response := j\<rparr>) (ts_calls (sy_store s))"
    and tok: "tool_ok (tw_store t)"
  shows "sys_ok H (s\<lparr>sy_world := t, sy_tasks := AList.update i (key, rq, ph') (sy_tasks s),
           sy_log := sy_log s @ log_of_phase key rq ph'\<rparr>)"
proof -
  let ?ts = "AList.update i (key, rq, ph') (sy_tasks s)"
  have log: "log_of_phase key rq ph' = []" "\<not> waits ph'"
    using none waits_owns [of ph'] by (auto simp: log_of_phase_def split: call_phase.splits)
  have others: "k \<noteq> key" if "map_of (sy_tasks s) j = Some (k, r, q)" "owns_call q \<noteq> None" "j \<noteq> i" for j k r q
    using sys_okD(3) [OF ok, of j key r q i rq ph] that i own by auto
  have "own_ok H ?ts (tw_store t)"
    using sys_okD(2) [OF ok] others none unfolding own_ok_def by (auto simp: calls)
  moreover have "own_unique ?ts"
    unfolding own_unique_def
  proof (intro allI impI)
    fix a b k r q r' q'
    assume "map_of ?ts a = Some (k, r, q)" "map_of ?ts b = Some (k, r', q')"
      "owns_call q \<noteq> None" "owns_call q' \<noteq> None"
    then show "a = b" using none sys_okD(3) [OF ok, of a k r q b r' q'] by (auto split: if_splits)
  qed
  moreover have "wait_ok ?ts (sy_log s @ log_of_phase key rq ph')"
    using sys_okD(4) [OF ok] log unfolding wait_ok_def by (auto split: if_splits)
  moreover have "log_ok H (tw_store t) (sy_log s @ log_of_phase key rq ph')"
    unfolding log(1) append_Nil2
    by (rule log_ok_mono [of _ "sy_store s"]) (use ok in \<open>auto simp: sys_ok_def calls\<close>)
  ultimately show ?thesis using tok by (simp add: sys_ok_def)
qed

lemma advance_ok:
  assumes ok: "sys_ok H s" and i: "map_of (sy_tasks s) i = Some (key, rq, ph)"
    and step: "advance H fl B W p key rq ph (sy_world s) = (ph', t)"
  shows "sys_ok H (s\<lparr>sy_world := t, sy_tasks := AList.update i (key, rq, ph') (sy_tasks s),
           sy_log := sy_log s @ log_of_phase key rq ph'\<rparr>)"
proof -
  have tok: "tool_ok (tw_store t)" using advance_le [OF step] sys_okD(1) [OF ok] by blast
  from step show ?thesis
  proof (cases rule: advance_calls)
    case kept
    then show ?thesis using advance_kept_ok [OF ok i step _ _ _ tok] by blast
  next
    case (claimed d)
    then show ?thesis using advance_claimed_ok [OF ok i _ _ _ _ _ tok] by blast
  next
    case (written d c j)
    then show ?thesis using advance_written_ok [OF ok i _ _ _ _ tok] by blast
  qed
qed

lemma exec_keeps_calls: "\<not> ledger_cmd c \<Longrightarrow> ts_calls (snd (tool_exec H s c)) = ts_calls s"
  by (cases c) (auto simp: register_run_binding_def get_or_create_recovery_def mark_recovery_manual_review_def
      bind_recovery_run_def get_or_create_interrupt_def respond_interrupt_def cancel_interrupt_def
      bind_interrupt_resume_run_def Let_def split: option.splits)

text \<open>A step of anyone else: fewer tasks, the same ledger, the same log.\<close>

lemma sys_ok_other:
  assumes ok: "sys_ok H s" and tok: "tool_ok (sy_store s')"
    and calls: "ts_calls (sy_store s') = ts_calls (sy_store s)" and log: "sy_log s' = sy_log s"
    and tasks: "\<And>i x. map_of (sy_tasks s') i = Some x \<Longrightarrow>
                  map_of (sy_tasks s) i = Some x \<or> owns_call (snd (snd x)) = None"
  shows "sys_ok H s'"
proof -
  have t: "map_of (sy_tasks s) i = Some (k, r, q)"
    if "map_of (sy_tasks s') i = Some (k, r, q)" "owns_call q \<noteq> None" for i k r q
    using tasks [OF that(1)] that(2) by simp
  have "own_ok H (sy_tasks s') (sy_store s')"
    unfolding own_ok_def calls using t sys_okD(2) [OF ok] by blast
  moreover have "own_unique (sy_tasks s')"
    unfolding own_unique_def
  proof (intro allI impI)
    fix a b k r q r' q'
    assume "map_of (sy_tasks s') a = Some (k, r, q)" "map_of (sy_tasks s') b = Some (k, r', q')"
      and o: "owns_call q \<noteq> None" "owns_call q' \<noteq> None"
    then have "map_of (sy_tasks s) a = Some (k, r, q)" "map_of (sy_tasks s) b = Some (k, r', q')"
      using t by simp_all
    then show "a = b" using o by (rule sys_okD(3) [OF ok])
  qed
  moreover have "wait_ok (sy_tasks s') (sy_log s')"
    unfolding wait_ok_def log
  proof (intro allI impI)
    fix i k r q
    assume "map_of (sy_tasks s') i = Some (k, r, q)" and w: "waits q"
    then have "map_of (sy_tasks s) i = Some (k, r, q)" using t waits_owns by simp
    then show "k \<notin> set (keys_of_log (sy_log s))" using w by (rule sys_okD(4) [OF ok])
  qed
  moreover have "log_ok H (sy_store s') (sy_log s')"
    unfolding log by (rule log_ok_mono [of _ "sy_store s"]) (use ok calls in \<open>simp_all add: sys_ok_def\<close>)
  ultimately show ?thesis using tok by (simp add: sys_ok_def)
qed

inductive_cases tool_stepE: "tool_step H fl B W s s'"

lemma tool_step_ok: "tool_step H fl B W s s' \<Longrightarrow> sys_ok H s \<Longrightarrow> sys_ok H s'"
proof (induction rule: tool_step.induct)
  case (step_arrive s i key rq)
  then show ?case
    by (intro sys_ok_other [OF step_arrive.prems]) (auto simp: sys_ok_def split: if_splits)
next
  case (step_advance s i key rq ph p ph' t)
  then show ?case using advance_ok by blast
next
  case (step_abandon s i)
  then show ?case by (intro sys_ok_other [OF step_abandon]) (auto simp: sys_ok_def split: if_splits)
next
  case (step_restart s)
  then show ?case by (intro sys_ok_other [OF step_restart]) (auto simp: sys_ok_def)
next
  case (step_command c s)
  have "tool_ok (snd (tool_exec H (sy_store s) c))"
    using exec_lawful [of "sy_store s" H c] sys_okD(1) [OF step_command.prems] by (simp add: lawful_def)
  then show ?case using exec_keeps_calls [OF step_command.hyps]
    by (intro sys_ok_other [OF step_command.prems]) auto
next
  case (step_credential now s c ds cr)
  then show ?case by (intro sys_ok_other [OF step_credential.prems]) (auto simp: sys_ok_def)
next
  case (step_workspace s f)
  then show ?case by (intro sys_ok_other [OF step_workspace]) (auto simp: sys_ok_def)
qed

lemma tool_reach_ok: "tool_reach H fl B W s \<Longrightarrow> sys_ok H s"
proof (induction rule: tool_reach.induct)
  case (reach_idle t)
  then show ?case by (simp add: idle_sys_def sys_ok_parts keys_of_log_def)
next
  case (reach_step s s')
  then show ?case using tool_step_ok by blast
qed

lemma tool_step_le: "tool_step H fl B W s s' \<Longrightarrow> tool_le (sy_store s) (sy_store s')"
proof (induction rule: tool_step.induct)
  case (step_advance s i key rq ph p ph' t)
  then show ?case using advance_le [OF step_advance(2)] by simp
next
  case (step_command c s)
  then show ?case using exec_lawful [of "sy_store s" H c] by (simp add: lawful_def)
qed simp_all

section \<open>Confirmation\<close>

text \<open>A grant is never taken back: the answered interrupt and its resumed run are final.\<close>

lemma grants_mono: "interrupt_le r r' \<Longrightarrow> grants run tool r \<Longrightarrow> grants run tool r'"
  by (auto simp: interrupt_le_def grants_def)

lemma granted_iff:
  "distinct (map fst (ts_interrupts s)) \<Longrightarrow>
   is_tool_confirmation_granted s run tool \<longleftrightarrow> (\<exists>i r. map_of (ts_interrupts s) i = Some r \<and> grants run tool r)"
  by (auto simp: is_tool_confirmation_granted_def list_ex_iff dest: map_of_SomeD)

lemma granted_mono:
  assumes "tool_le s t" "tool_ok s" "tool_ok t" "is_tool_confirmation_granted s run tool"
  shows "is_tool_confirmation_granted t run tool"
proof -
  have ds: "distinct (map fst (ts_interrupts s))" and dt: "distinct (map fst (ts_interrupts t))"
    using assms(2,3) by (simp_all add: tool_ok_def)
  obtain i r where i: "map_of (ts_interrupts s) i = Some r" and g: "grants run tool r"
    using assms(4) granted_iff [OF ds] by blast
  have "rows_le interrupt_le (ts_interrupts s) (ts_interrupts t)" using assms(1) by (simp add: tool_le_def)
  then obtain r' where "map_of (ts_interrupts t) i = Some r'" "interrupt_le r r'"
    using i by (blast dest: rows_leD)
  then show ?thesis using grants_mono [OF _ g] granted_iff [OF dt] by blast
qed

definition needs_grant :: "tool_spec \<Rightarrow> bool" where
  "needs_grant sp = (sp_confirm sp \<or> sp_cost sp \<noteq> Cost_None)"

definition spec_fits :: "broker \<Rightarrow> tool_store \<Rightarrow> string \<Rightarrow> string \<Rightarrow> tool_spec \<Rightarrow> bool" where
  "spec_fits B s run name sp =
     (resolve_tool (bk_registry B) name = Some sp \<and>
      (needs_grant sp \<longrightarrow> is_tool_confirmation_granted s run (sp_name sp)))"

fun phase_fits :: "broker \<Rightarrow> tool_store \<Rightarrow> call_request \<Rightarrow> call_phase \<Rightarrow> bool" where
  "phase_fits B s rq (Checked b digest sp granted) = spec_fits B s (rq_run rq) (rq_tool rq) sp"
| "phase_fits B s rq (Loaded b digest sp granted v) = spec_fits B s (rq_run rq) (rq_tool rq) sp"
| "phase_fits B s rq _ = True"

definition confirm_ok :: "broker \<Rightarrow> 'w tool_sys \<Rightarrow> bool" where
  "confirm_ok B s =
     ((\<forall>i key rq ph. map_of (sy_tasks s) i = Some (key, rq, ph) \<longrightarrow> phase_fits B (sy_store s) rq ph) \<and>
      (\<forall>e \<in> set (sy_log s). (needs_grant (lx_spec e) \<longrightarrow>
          is_tool_confirmation_granted (sy_store s) (lx_run e) (sp_name (lx_spec e))) \<and>
        (lx_cred e = None \<longleftrightarrow> sp_cost (lx_spec e) = Cost_None)))"

lemma spec_fits_mono: "tool_le s t \<Longrightarrow> tool_ok s \<Longrightarrow> tool_ok t \<Longrightarrow> spec_fits B s run n sp \<Longrightarrow> spec_fits B t run n sp"
  by (auto simp: spec_fits_def intro: granted_mono)

lemma phase_fits_mono: "tool_le s t \<Longrightarrow> tool_ok s \<Longrightarrow> tool_ok t \<Longrightarrow> phase_fits B s rq ph \<Longrightarrow> phase_fits B t rq ph"
  by (cases ph) (auto intro: spec_fits_mono)

lemma advance_fits:
  assumes "advance H fl B W p key rq ph t = (ph', t')" and "phase_fits B (tw_store t) rq ph"
  shows "phase_fits B (tw_store t') rq ph'"
proof (cases ph)
  case (Claimed b d)
  then show ?thesis using assms
    by (auto simp: check_call_def Let_def spec_fits_def needs_grant_def split: option.splits if_splits)
next
  case (Checked b d sp g)
  then show ?thesis using assms by (auto simp: load_workspace_def split: option.splits if_splits)
next
  case (Loaded b d sp g v)
  then show ?thesis using assms
    by (auto simp: take_credential_def ask_authorization_def split: option.splits if_splits prod.splits)
next
  case (Running b d sp v cred)
  then show ?thesis using assms
    by (auto simp: run_tool_def Let_def split: option.splits if_splits prod.splits sum.splits)
qed (use assms in \<open>auto simp: begin_call_def close_call_def Let_def
      split: option.splits if_splits prod.splits sum.splits call_claim.splits\<close>)

lemma confirm_ok_other:
  assumes c: "confirm_ok B s" and le: "tool_le (sy_store s) (sy_store s')"
    and ok: "tool_ok (sy_store s)" "tool_ok (sy_store s')" and log: "sy_log s' = sy_log s"
    and tasks: "\<And>i x. map_of (sy_tasks s') i = Some x \<Longrightarrow>
                  map_of (sy_tasks s) i = Some x \<or> snd (snd x) = Fresh"
  shows "confirm_ok B s'"
proof -
  have "phase_fits B (sy_store s') rq ph" if t: "map_of (sy_tasks s') i = Some (key, rq, ph)" for i key rq ph
    using tasks [OF t] c phase_fits_mono [OF le ok] unfolding confirm_ok_def by (metis phase_fits.simps(3) snd_conv)
  moreover have "needs_grant (lx_spec e) \<longrightarrow>
      is_tool_confirmation_granted (sy_store s') (lx_run e) (sp_name (lx_spec e))" if "e \<in> set (sy_log s)" for e
    using c that granted_mono [OF le ok] unfolding confirm_ok_def by blast
  ultimately show ?thesis using c unfolding confirm_ok_def log by blast
qed

lemma take_credential_running:
  assumes "take_credential B now rq b d sp g v c = (Running b' d' sp' v' cred, c')"
  shows "sp' = sp \<and> (cred = None \<longleftrightarrow> sp_cost sp = Cost_None) \<and>
    (sp_cost sp \<noteq> Cost_None \<longrightarrow> rc_take now (rq_run rq) c = (cred, c')) \<and> (sp_cost sp = Cost_None \<longrightarrow> c' = c)"
  using assms by (auto simp: take_credential_def ask_authorization_def split: if_splits prod.splits option.splits)

lemma advance_confirm:
  assumes c: "confirm_ok B s" and ok: "tool_ok (sy_store s)"
    and i: "map_of (sy_tasks s) i = Some (key, rq, ph)"
    and step: "advance H fl B W p key rq ph (sy_world s) = (ph', t)"
  shows "confirm_ok B (s\<lparr>sy_world := t, sy_tasks := AList.update i (key, rq, ph') (sy_tasks s),
           sy_log := sy_log s @ log_of_phase key rq ph'\<rparr>)"
proof -
  have le: "tool_le (sy_store s) (tw_store t)" and tok: "tool_ok (tw_store t)"
    using advance_le [OF step] ok by blast+
  have fit: "phase_fits B (sy_store s) rq ph" using c i unfolding confirm_ok_def by blast
  have "phase_fits B (tw_store t) r q"
    if j: "map_of (AList.update i (key, rq, ph') (sy_tasks s)) j = Some (k, r, q)" for j k r q
  proof (cases "j = i")
    case True
    then show ?thesis using j advance_fits [OF step fit] by simp
  next
    case False
    then have "phase_fits B (sy_store s) r q" using j c unfolding confirm_ok_def by (metis fun_upd_other map_of_update)
    then show ?thesis by (rule phase_fits_mono [OF le ok tok])
  qed
  moreover have "(needs_grant (lx_spec e) \<longrightarrow>
        is_tool_confirmation_granted (tw_store t) (lx_run e) (sp_name (lx_spec e))) \<and>
      (lx_cred e = None \<longleftrightarrow> sp_cost (lx_spec e) = Cost_None)"
    if e: "e \<in> set (sy_log s @ log_of_phase key rq ph')" for e
  proof (cases "e \<in> set (sy_log s)")
    case True
    then have "needs_grant (lx_spec e) \<longrightarrow>
        is_tool_confirmation_granted (sy_store s) (lx_run e) (sp_name (lx_spec e))"
      "lx_cred e = None \<longleftrightarrow> sp_cost (lx_spec e) = Cost_None" using c unfolding confirm_ok_def by blast+
    then show ?thesis using granted_mono [OF le ok tok] by blast
  next
    case False
    then have "e \<in> set (log_of_phase key rq ph')" using e by simp
    then have ne: "log_of_phase key rq ph' \<noteq> []" by auto
    from step ne show ?thesis
    proof (cases rule: running_from_loaded)
      case (1 b d sp g v cred)
      then have e1: "lx_spec e = sp" "lx_run e = rq_run rq" "lx_cred e = cred" using False e by auto
      have "cred = None \<longleftrightarrow> sp_cost sp = Cost_None"
        using take_credential_running 1(2,4) by blast
      moreover have "needs_grant sp \<longrightarrow> is_tool_confirmation_granted (sy_store s) (rq_run rq) (sp_name sp)"
        using fit 1(1) by (simp add: spec_fits_def)
      ultimately show ?thesis using e1 granted_mono [OF le ok tok] by simp
    qed
  qed
  ultimately show ?thesis unfolding confirm_ok_def by simp
qed

lemma tool_reach_confirm: "tool_reach H fl B W s \<Longrightarrow> confirm_ok B s"
proof (induction rule: tool_reach.induct)
  case (reach_idle t)
  then show ?case by (simp add: confirm_ok_def idle_sys_def)
next
  case (reach_step s s')
  have ok: "tool_ok (sy_store s)" using tool_reach_ok [OF reach_step.hyps(1)] by (rule sys_okD(1))
  have ok': "tool_ok (sy_store s')"
    using tool_step_ok [OF reach_step.hyps(2) tool_reach_ok [OF reach_step.hyps(1)]] by (rule sys_okD(1))
  note le = tool_step_le [OF reach_step.hyps(2)]
  show ?case using reach_step.hyps(2)
  proof (cases rule: tool_step.cases)
    case (step_advance i key rq ph p ph' t)
    then show ?thesis using advance_confirm [OF reach_step.IH ok] by blast
  next
    case (step_arrive i key rq)
    then show ?thesis by (intro confirm_ok_other [OF reach_step.IH le ok ok']) (auto split: if_splits)
  next
    case (step_abandon i)
    then show ?thesis by (intro confirm_ok_other [OF reach_step.IH le ok ok']) (auto split: if_splits)
  qed (intro confirm_ok_other [OF reach_step.IH le ok ok']; simp)+
qed

section \<open>Credentials are used up\<close>

definition paid :: "log_entry list \<Rightarrow> string \<Rightarrow> nat" where
  "paid l run = length (filter (\<lambda>e. lx_run e = run \<and> lx_cred e \<noteq> None) l)"

definition held :: "run_creds \<Rightarrow> string \<Rightarrow> nat" where
  "held c run = (if map_of (rc_values c) run = None then 0 else 1)"

definition cred_ok :: "'w tool_sys \<Rightarrow> bool" where
  "cred_ok s = (\<forall>run. paid (sy_log s) run + held (tw_creds (sy_world s)) run \<le> count_list (sy_deposits s) run)"

lemma map_of_filter_None: "map_of d k = None \<Longrightarrow> map_of (filter P d) k = None"
  by (induction d) (auto split: if_splits)

lemma held_expire: "held (rc_expire now c) run \<le> held c run"
  using map_of_filter_None [of "rc_values c" run] by (auto simp: held_def rc_expire_def)

lemma held_store: "held (rc_store i v c) run \<le> held c run + (if run = i then 1 else 0)"
  by (auto simp: held_def rc_store_def map_add_def split: option.splits)

lemma held_delete: "held (c\<lparr>rc_values := AList.delete i (rc_values c)\<rparr>) run = (if run = i then 0 else held c run)"
  by (simp add: held_def)

lemma held_take:
  "rc_take now i c = (r, c') \<Longrightarrow> held c' run + (if run = i \<and> r \<noteq> None then 1 else 0) \<le> held c run"
  using held_expire [of now c run] by (auto simp: rc_take_def Let_def held_delete) (auto simp: held_def split: if_splits)

lemma held_exec:
  assumes "cred_exec now c cmd = (ds, c')"
  shows "held c' run \<le> held c run + count_list ds run"
proof (cases cmd)
  case (Deposit i auth)
  let ?c = "rc_store i (py_strip auth, now + rc_ttl c) c"
  show ?thesis using assms Deposit held_expire [of now ?c run] held_store [of i "(py_strip auth, now + rc_ttl c)" c run]
    by (auto simp: rc_put_def split: if_splits)
next
  case (Grant i auth)
  let ?c = "rc_store i (py_strip auth, now + rc_ttl c) c"
  show ?thesis using assms Grant held_expire [of now ?c run] held_store [of i "(py_strip auth, now + rc_ttl c)" c run]
    by (auto simp: rc_put_grant_def split: if_splits)
next
  case (Bind_Grant g i)
  let ?d = "rc_expire now c"
  have "held (rc_store i v (?d\<lparr>rc_values := AList.delete g (rc_values ?d)\<rparr>)) run \<le>
      held c run + (if run = i then 1 else 0)" for v
    using held_store [of i v "?d\<lparr>rc_values := AList.delete g (rc_values ?d)\<rparr>" run] held_delete [of g ?d run]
      held_expire [of now c run] by (auto split: if_splits)
  then show ?thesis using assms Bind_Grant held_expire [of now c run]
    by (auto simp: rc_bind_grant_def Let_def split: if_splits option.splits)
next
  case (Drop_Grant g)
  then show ?thesis using assms by (auto simp: rc_discard_grant_def held_delete)
qed

lemma advance_creds:
  assumes step: "advance H fl B W p key rq ph t = (ph', t')"
  shows "paid (log_of_phase key rq ph') run + held (tw_creds t') run \<le> held (tw_creds t) run"
proof (cases ph)
  case (Loaded b d sp g v)
  have tc: "take_credential B (pc_now p) rq b d sp g v (tw_creds t) = (ph', tw_creds t')"
    using step Loaded by (auto simp: Let_def split: prod.splits)
  show ?thesis
  proof (cases "log_of_phase key rq ph' = []")
    case True
    then show ?thesis using tc held_take [of "pc_now p" "rq_run rq" "tw_creds t" _ _ run]
      by (auto simp: take_credential_def paid_def split: if_splits prod.splits option.splits)
  next
    case False
    from step False show ?thesis
    proof (cases rule: running_from_loaded)
      case (1 b' d' sp' g' v' cred)
      note r = take_credential_running [OF 1(4) [unfolded 1(2)]]
      show ?thesis
      proof (cases "sp_cost sp' = Cost_None")
        case True
        then show ?thesis using r 1(3) by (simp add: paid_def)
      next
        case False
        then have tk: "rc_take (pc_now p) (rq_run rq) (tw_creds t) = (cred, tw_creds t')" "cred \<noteq> None"
          using r by auto
        then show ?thesis using held_take [OF tk(1), of run] 1(3) by (auto simp: paid_def)
      qed
    qed
  qed
next
  case (Running b d sp v cred)
  then show ?thesis using step
    by (auto simp: run_tool_def Let_def paid_def log_of_phase_def split: option.splits if_splits prod.splits sum.splits)
qed (use step in \<open>auto simp: begin_call_def check_call_def load_workspace_def close_call_def Let_def paid_def
      log_of_phase_def split: option.splits if_splits prod.splits sum.splits call_claim.splits\<close>)

lemma paid_append: "paid (l @ m) run = paid l run + paid m run"
  by (simp add: paid_def)

lemma tool_reach_creds: "tool_reach H fl B W s \<Longrightarrow> cred_ok s"
proof (induction rule: tool_reach.induct)
  case (reach_idle t)
  then show ?case by (simp add: cred_ok_def idle_sys_def paid_def held_def)
next
  case (reach_step s s')
  have ih: "paid (sy_log s) run + held (tw_creds (sy_world s)) run \<le> count_list (sy_deposits s) run" for run
    using reach_step.IH by (simp add: cred_ok_def)
  show ?case using reach_step.hyps(2)
  proof (cases rule: tool_step.cases)
    case (step_advance i key rq ph p ph' t)
    have "paid (log_of_phase key rq ph') run + held (tw_creds t) run \<le> held (tw_creds (sy_world s)) run" for run
      by (rule advance_creds [OF step_advance(3)])
    then have "paid (sy_log s) run + paid (log_of_phase key rq ph') run + held (tw_creds t) run \<le>
        count_list (sy_deposits s) run" for run using ih [of run] by (smt (verit) add.assoc add_left_mono le_trans)
    then show ?thesis using step_advance(1) by (simp add: cred_ok_def paid_append)
  next
    case (step_credential now c ds cr)
    have "held cr run \<le> held (tw_creds (sy_world s)) run + count_list ds run" for run
      by (rule held_exec [OF step_credential(2)])
    then have "paid (sy_log s) run + held cr run \<le> count_list (sy_deposits s) run + count_list ds run" for run
      using ih [of run] by (smt (verit) add.assoc add_left_mono add_right_mono le_trans)
    then show ?thesis using step_credential(1) by (simp add: cred_ok_def)
  next
    case step_restart
    have "held (rc_close c) run = 0" for c run by (simp add: held_def rc_close_def)
    then show ?thesis using step_restart ih by (simp add: cred_ok_def) (meson add_leD1 le_trans)
  qed (use ih in \<open>simp_all add: cred_ok_def\<close>)
qed

end
