(* ===== verification/Tool_Replay.thy ===== *)
theory Tool_Replay
  imports Tool_System
begin

text \<open>
  Two more facts about calls: every piece moves a call on, so that it ends after at most six
  pieces whatever happens in between; and a call that was closed is answered from the ledger for ever,
  with the response that was recorded first.
\<close>

section \<open>Calls end\<close>

fun pieces_left :: "call_phase \<Rightarrow> nat" where
  "pieces_left Fresh = 6"
| "pieces_left (Claimed b digest) = 5"
| "pieces_left (Checked b digest sp granted) = 4"
| "pieces_left (Loaded b digest sp granted v) = 3"
| "pieces_left (Asking b digest kind payload) = 2"
| "pieces_left (Running b digest sp v cred) = 2"
| "pieces_left (Closing digest r) = 1"
| "pieces_left (Cancelling digest) = 1"
| "pieces_left (Finished r) = 0"

lemma pieces_left_0: "pieces_left ph = 0 \<longleftrightarrow> (\<exists>r. ph = Finished r)"
  by (cases ph) auto

lemma advance_fewer:
  assumes "advance H fl B W p key rq ph t = (ph', t')" and "pieces_left ph \<noteq> 0"
  shows "pieces_left ph' < pieces_left ph"
  using assms
  by (cases ph) (auto simp: begin_call_def check_call_def load_workspace_def take_credential_def
      ask_authorization_def run_tool_def close_call_def Let_def
      split: option.splits if_splits prod.splits sum.splits call_claim.splits)

lemma run_call_finishes:
  "pieces_left ph \<le> n \<Longrightarrow> \<exists>r. fst (run_call n H fl B W p key rq ph t) = Finished r"
proof (induction n arbitrary: ph t)
  case 0
  then show ?case using pieces_left_0 by simp
next
  case (Suc n)
  obtain ph' t' where a: "advance H fl B W p key rq ph t = (ph', t')" by fastforce
  have "pieces_left ph' \<le> n"
  proof (cases "pieces_left ph = 0")
    case True
    then obtain r where "ph = Finished r" using pieces_left_0 by blast
    then show ?thesis using a by auto
  next
    case False
    then show ?thesis using advance_fewer [OF a] Suc.prems by simp
  qed
  then show ?case using Suc.IH a by simp
qed

section \<open>Requests stay frozen\<close>

definition frozen :: "(string \<Rightarrow> string) \<Rightarrow> (rat \<Rightarrow> string) \<Rightarrow> broker \<Rightarrow> tool_store \<Rightarrow> string \<Rightarrow> call_request \<Rightarrow> string \<Rightarrow> bool" where
  "frozen H fl B s key rq digest =
     (\<exists>b. get_run_binding s (rq_run rq) = Some b \<and> key = tool_call_key H (rq_run rq) (rq_call rq) \<and>
        rq_session rq = rb_session b \<and> rq_context rq = rb_context b \<and> rq_toolset rq = rb_toolset b \<and>
        rb_manifest b = bk_manifest B \<and> digest = request_digest H fl b (rq_tool rq) (rq_args rq) (rq_rev rq))"

definition all_frozen :: "(string \<Rightarrow> string) \<Rightarrow> (rat \<Rightarrow> string) \<Rightarrow> broker \<Rightarrow> 'w tool_sys \<Rightarrow> bool" where
  "all_frozen H fl B s = (\<forall>i key rq ph d. map_of (sy_tasks s) i = Some (key, rq, ph) \<longrightarrow>
     owns_call ph = Some d \<longrightarrow> frozen H fl B (sy_store s) key rq d)"

lemma frozen_mono: "tool_le s t \<Longrightarrow> frozen H fl B s key rq d \<Longrightarrow> frozen H fl B t key rq d"
proof -
  assume le: "tool_le s t" and f: "frozen H fl B s key rq d"
  then have "rows_le (=) (ts_bindings s) (ts_bindings t)" by (simp add: tool_le_def)
  then have "get_run_binding s i = Some b \<Longrightarrow> get_run_binding t i = Some b" for i b
    by (auto simp: get_run_binding_def dest: rows_leD)
  then show ?thesis using f unfolding frozen_def by blast
qed

lemma begin_call_frozen:
  assumes "begin_call H fl B key rq s = (ph, s')" and "owns_call ph = Some d"
  shows "frozen H fl B s key rq d"
  using assms(1)
proof (cases rule: begin_call_cases)
  case (over r)
  then show ?thesis using assms(2) by simp
next
  case (claimed b)
  have "rq_session rq = rb_session b" "rq_context rq = rb_context b" "rq_toolset rq = rb_toolset b"
    "rb_manifest b = bk_manifest B"
    using assms(1) claimed(1,2,3) by (simp_all add: begin_call_def split: if_splits)
  then show ?thesis using claimed assms(2) unfolding frozen_def by auto
qed

lemma advance_owner:
  assumes "advance H fl B W p key rq ph t = (ph', t')" and "owns_call ph' = Some d"
  shows "ph = Fresh \<and> begin_call H fl B key rq (tw_store t) = (ph', tw_store t') \<or> owns_call ph = Some d"
proof (cases ph)
  case Fresh
  then show ?thesis using assms by (auto simp: Let_def split: prod.splits)
qed (use assms in \<open>auto simp: check_call_def load_workspace_def take_credential_def ask_authorization_def
      run_tool_def close_call_def Let_def split: option.splits if_splits prod.splits sum.splits\<close>)

lemma advance_all_frozen:
  assumes f: "all_frozen H fl B s" and i: "map_of (sy_tasks s) i = Some (key, rq, ph)"
    and step: "advance H fl B W p key rq ph (sy_world s) = (ph', t)"
  shows "all_frozen H fl B (s\<lparr>sy_world := t, sy_tasks := AList.update i (key, rq, ph') (sy_tasks s), sy_log := l\<rparr>)"
proof -
  have le: "tool_le (sy_store s) (tw_store t)" using advance_le [OF step] by blast
  have "frozen H fl B (tw_store t) k r d"
    if j: "map_of (AList.update i (key, rq, ph') (sy_tasks s)) j = Some (k, r, q)" and d: "owns_call q = Some d" for j k r q d
  proof (cases "j = i")
    case True
    then have q: "k = key" "r = rq" "q = ph'" using j by auto
    have "frozen H fl B (sy_store s) key rq d"
      using advance_owner [OF step d [unfolded q]] begin_call_frozen d q f i unfolding all_frozen_def by metis
    then show ?thesis using frozen_mono [OF le] q by simp
  next
    case False
    then have "map_of (sy_tasks s) j = Some (k, r, q)" using j by simp
    then have "frozen H fl B (sy_store s) k r d" using f d unfolding all_frozen_def by blast
    then show ?thesis by (rule frozen_mono [OF le])
  qed
  then show ?thesis unfolding all_frozen_def by simp
qed

lemma all_frozen_other:
  assumes f: "all_frozen H fl B s" and le: "tool_le (sy_store s) (sy_store s')"
    and tasks: "\<And>i x. map_of (sy_tasks s') i = Some x \<Longrightarrow>
                  map_of (sy_tasks s) i = Some x \<or> snd (snd x) = Fresh"
  shows "all_frozen H fl B s'"
  unfolding all_frozen_def
proof (intro allI impI)
  fix i key rq ph d
  assume t: "map_of (sy_tasks s') i = Some (key, rq, ph)" and d: "owns_call ph = Some d"
  then have "map_of (sy_tasks s) i = Some (key, rq, ph)" using tasks [OF t] by auto
  then have "frozen H fl B (sy_store s) key rq d" using f d unfolding all_frozen_def by blast
  then show "frozen H fl B (sy_store s') key rq d" by (rule frozen_mono [OF le])
qed

lemma tool_reach_frozen: "tool_reach H fl B W s \<Longrightarrow> all_frozen H fl B s"
proof (induction rule: tool_reach.induct)
  case (reach_idle t)
  then show ?case by (simp add: all_frozen_def idle_sys_def)
next
  case (reach_step s s')
  note le = tool_step_le [OF reach_step.hyps(2)]
  show ?case using reach_step.hyps(2)
  proof (cases rule: tool_step.cases)
    case (step_advance i key rq ph p ph' t)
    then show ?thesis using advance_all_frozen [OF reach_step.IH] by blast
  next
    case (step_arrive i key rq)
    then show ?thesis by (intro all_frozen_other [OF reach_step.IH le]) (auto split: if_splits)
  next
    case (step_abandon i)
    then show ?thesis by (intro all_frozen_other [OF reach_step.IH le]) (auto split: if_splits)
  qed (intro all_frozen_other [OF reach_step.IH le]; simp)+
qed

section \<open>Replay\<close>

inductive tool_steps ::
  "(string \<Rightarrow> string) \<Rightarrow> (rat \<Rightarrow> string) \<Rightarrow> broker \<Rightarrow> 'w ws_port \<Rightarrow> 'w tool_sys \<Rightarrow> 'w tool_sys \<Rightarrow> bool"
  for H fl B W where
  steps_none: "tool_steps H fl B W s s"
| steps_more: "tool_step H fl B W s s' \<Longrightarrow> tool_steps H fl B W s' s'' \<Longrightarrow> tool_steps H fl B W s s''"

lemma tool_steps_le: "tool_steps H fl B W s s' \<Longrightarrow> tool_le (sy_store s) (sy_store s')"
  by (induction rule: tool_steps.induct) (auto intro: tool_le_trans dest: tool_step_le)

definition answered :: "(string \<Rightarrow> string) \<Rightarrow> (rat \<Rightarrow> string) \<Rightarrow> broker \<Rightarrow> tool_store \<Rightarrow> string \<Rightarrow> call_request \<Rightarrow> response \<Rightarrow> bool" where
  "answered H fl B s key rq r =
     (\<exists>c. map_of (ts_calls s) key = Some c \<and> tc_state c = Completed \<and>
        frozen H fl B s key rq (tc_digest c) \<and> read_response (tc_response c) = Some r)"

lemma answered_mono:
  assumes le: "tool_le s t" and a: "answered H fl B s key rq r"
  shows "answered H fl B t key rq r"
proof -
  obtain c where c: "map_of (ts_calls s) key = Some c" "tc_state c = Completed"
    "frozen H fl B s key rq (tc_digest c)" "read_response (tc_response c) = Some r"
    using a unfolding answered_def by blast
  have "rows_le call_le (ts_calls s) (ts_calls t)" using le by (simp add: tool_le_def)
  then obtain c' where "map_of (ts_calls t) key = Some c'" "call_le c c'" using c(1) by (blast dest: rows_leD)
  then have "map_of (ts_calls t) key = Some c" using c(2) by (simp add: call_le_def)
  then show ?thesis using c frozen_mono [OF le c(3)] unfolding answered_def by blast
qed

lemma answered_replays:
  "answered H fl B s key rq r \<Longrightarrow> begin_call H fl B key rq s = (Finished (Inr r), s)"
  by (auto simp: answered_def frozen_def begin_call_def claim_tool_call_def Let_def)

lemma closed_is_answered:
  assumes "advance H fl B W p key rq (Closing d r) t = (Finished (Inr r'), t')"
    and "frozen H fl B (tw_store t) key rq d"
  shows "answered H fl B (tw_store t') key rq r'"
proof -
  obtain q s' where c: "complete_tool_call key d (response_json r) (tw_store t) = (Inr q, s')"
    and q: "read_response q = Some r'" "tw_store t' = s'"
    using assms(1) by (auto simp: close_call_def Let_def split: prod.splits sum.splits option.splits)
  have le: "tool_le (tw_store t) s'"
    using complete_lawful [of "tw_store t" key d "response_json r"] c by (simp add: lawful_def)
  have "\<exists>c. map_of (ts_calls s') key = Some c \<and> tc_state c = Completed \<and> tc_digest c = d \<and> tc_response c = q"
    using c by (auto simp: complete_tool_call_def split: option.splits if_splits)
  then show ?thesis using q frozen_mono [OF le assms(2)] unfolding answered_def by blast
qed

end
