(* ===== verification/Tool_Claims.thy ===== *)
theory Tool_Claims
  imports Tool_Replay
begin

text \<open>
  The properties of the tool broker, over every interleaving of its calls with the commands of the
  controllers, other writers, cancellations and restarts; the responses and observations it lets out; and
  a runnable schedule of events for the concrete instances.
\<close>

section \<open>Orphaned calls\<close>

text \<open>A ledger row in execution that no call in flight owns.\<close>

definition orphan :: "'w tool_sys \<Rightarrow> string \<Rightarrow> call_row \<Rightarrow> bool" where
  "orphan s key c =
     (map_of (ts_calls (sy_store s)) key = Some c \<and> tc_state c = Executing \<and>
      (\<forall>i rq ph. map_of (sy_tasks s) i = Some (key, rq, ph) \<longrightarrow> owns_call ph = None))"

lemma orphan_other:
  assumes o: "orphan s key c" and calls: "ts_calls (sy_store s') = ts_calls (sy_store s)"
    and tasks: "\<And>i x. map_of (sy_tasks s') i = Some x \<Longrightarrow>
                  map_of (sy_tasks s) i = Some x \<or> owns_call (snd (snd x)) = None"
  shows "orphan s' key c"
proof -
  have "owns_call ph = None" if t: "map_of (sy_tasks s') i = Some (key, rq, ph)" for i rq ph
    using tasks [OF t] o unfolding orphan_def by auto
  then show ?thesis using o calls unfolding orphan_def by simp
qed

lemma orphan_advance:
  assumes o: "orphan s key c" and i: "map_of (sy_tasks s) i = Some (key', rq, ph)"
    and step: "advance H fl B W p key' rq ph (sy_world s) = (ph', t)"
  shows "orphan (s\<lparr>sy_world := t, sy_tasks := AList.update i (key', rq, ph') (sy_tasks s), sy_log := l\<rparr>) key c"
proof -
  have row: "map_of (ts_calls (sy_store s)) key = Some c" "tc_state c = Executing"
    and free: "\<And>j r q. map_of (sy_tasks s) j = Some (key, r, q) \<Longrightarrow> owns_call q = None"
    using o unfolding orphan_def by blast+
  have "map_of (ts_calls (tw_store t)) key = Some c \<and> (key' = key \<longrightarrow> owns_call ph' = None)"
    using step
  proof (cases rule: advance_calls)
    case kept
    then show ?thesis using row free [of i rq ph] i by auto
  next
    case (claimed d)
    then have "key' \<noteq> key" using row by auto
    then show ?thesis using claimed row by simp
  next
    case (written d c' j)
    then have "key' \<noteq> key" using free i by fastforce
    then show ?thesis using written row by simp
  qed
  then show ?thesis using row free unfolding orphan_def by (auto split: if_splits)
qed

lemma orphan_step: "tool_step H fl B W s s' \<Longrightarrow> orphan s key c \<Longrightarrow> orphan s' key c"
proof (induction rule: tool_step.induct)
  case (step_advance s i k rq ph p ph' t)
  then show ?case using orphan_advance by blast
next
  case (step_arrive s i k rq)
  then show ?case by (intro orphan_other [OF step_arrive.prems]) (auto split: if_splits)
next
  case (step_abandon s i)
  then show ?case by (intro orphan_other [OF step_abandon.prems]) (auto split: if_splits)
next
  case (step_command c' s)
  then show ?case by (intro orphan_other [OF step_command.prems]) (auto simp: exec_keeps_calls)
next
  case (step_restart s)
  then show ?case by (intro orphan_other [OF step_restart.prems]) auto
next
  case (step_credential now s c' ds cr)
  then show ?case by (intro orphan_other [OF step_credential.prems]) auto
next
  case (step_workspace s f)
  then show ?case by (intro orphan_other [OF step_workspace.prems]) auto
qed

lemma orphan_steps: "tool_steps H fl B W s s' \<Longrightarrow> orphan s key c \<Longrightarrow> orphan s' key c"
  by (induction rule: tool_steps.induct) (auto dest: orphan_step)

lemma orphan_in_progress:
  assumes "orphan s key c" and "frozen H fl B (sy_store s) key rq (tc_digest c)"
  shows "begin_call H fl B key rq (sy_store s) = (Finished (Inr in_progress), sy_store s)"
  using assms by (auto simp: orphan_def frozen_def begin_call_def claim_tool_call_def Let_def)

section \<open>Schedules\<close>

datatype 'w sys_event =
    Ev_Arrive nat string call_request
  | Ev_Advance nat "'w piece"
  | Ev_Abandon nat
  | Ev_Restart
  | Ev_Command tool_cmd
  | Ev_Credential time cred_cmd

fun sys_apply ::
  "(string \<Rightarrow> string) \<Rightarrow> (rat \<Rightarrow> string) \<Rightarrow> broker \<Rightarrow> 'w ws_port \<Rightarrow> 'w tool_sys \<Rightarrow> 'w sys_event \<Rightarrow> 'w tool_sys" where
  "sys_apply H fl B W s (Ev_Arrive i key rq) =
     (if map_of (sy_tasks s) i = None then s\<lparr>sy_tasks := AList.update i (key, rq, Fresh) (sy_tasks s)\<rparr> else s)"
| "sys_apply H fl B W s (Ev_Advance i p) =
     (case map_of (sy_tasks s) i of
        None \<Rightarrow> s
      | Some (key, rq, ph) \<Rightarrow>
          (case advance H fl B W p key rq ph (sy_world s) of (ph', t) \<Rightarrow>
             s\<lparr>sy_world := t, sy_tasks := AList.update i (key, rq, ph') (sy_tasks s),
               sy_log := sy_log s @ log_of_phase key rq ph'\<rparr>))"
| "sys_apply H fl B W s (Ev_Abandon i) = s\<lparr>sy_tasks := AList.delete i (sy_tasks s)\<rparr>"
| "sys_apply H fl B W s Ev_Restart =
     s\<lparr>sy_tasks := [], sy_world := (sy_world s)\<lparr>tw_creds := rc_close (tw_creds (sy_world s))\<rparr>\<rparr>"
| "sys_apply H fl B W s (Ev_Command c) =
     (if ledger_cmd c then s
      else s\<lparr>sy_world := (sy_world s)\<lparr>tw_store := snd (tool_exec H (tw_store (sy_world s)) c)\<rparr>\<rparr>)"
| "sys_apply H fl B W s (Ev_Credential now c) =
     (case cred_exec now (tw_creds (sy_world s)) c of (ds, cr) \<Rightarrow>
        s\<lparr>sy_world := (sy_world s)\<lparr>tw_creds := cr\<rparr>, sy_deposits := sy_deposits s @ ds\<rparr>)"

lemma sys_apply_reach: "tool_reach H fl B W s \<Longrightarrow> tool_reach H fl B W (sys_apply H fl B W s e)"
  by (cases e) (auto split: option.split prod.split intro: reach_step tool_step.intros)

lemma sys_run_reach: "tool_reach H fl B W s \<Longrightarrow> tool_reach H fl B W (foldl (sys_apply H fl B W) s es)"
  by (induction es arbitrary: s) (auto intro: sys_apply_reach)

lemma sys_apply_steps:
  "tool_steps H fl B W s (sys_apply H fl B W s e)"
  by (cases e) (auto split: option.split prod.split intro: tool_steps.intros tool_step.intros)

section \<open>A concrete broker\<close>

definition demo_hash :: "string \<Rightarrow> string" where
  "demo_hash s = replicate 64 (if s \<noteq> [] \<and> last s = CHR ''b'' then CHR ''b'' else CHR ''a'')"

definition demo_float :: "rat \<Rightarrow> string" where
  "demo_float q = ''0.0''"

definition demo_paid :: tool_spec where
  "demo_paid = \<lparr>sp_name = ''generate_scenes'', sp_cost = Cost_Billable, sp_confirm = True,
     sp_mutations = [''scenes''], sp_keys = [''scene_count'']\<rparr>"

definition demo_read :: tool_spec where
  "demo_read = \<lparr>sp_name = ''inspect_scene'', sp_cost = Cost_None, sp_confirm = False,
     sp_mutations = [], sp_keys = [''scene_count'']\<rparr>"

definition demo_digest :: string where
  "demo_digest = ''sha256:'' @ replicate 64 (CHR ''b'')"

definition demo_broker :: broker where
  "demo_broker = \<lparr>bk_registry = [(''generate_scenes'', demo_paid), (''inspect_scene'', demo_read)],
     bk_manifest = demo_digest, bk_creds = True\<rparr>"

definition demo_binding :: "string \<Rightarrow> string \<Rightarrow> run_binding" where
  "demo_binding run session = \<lparr>rb_run = run, rb_session = session, rb_user = ''u'', rb_conv = ''c'',
     rb_ws = ''w'', rb_rev = 1, rb_context = demo_digest, rb_toolset = ''v1'', rb_manifest = demo_digest,
     rb_request = demo_digest\<rparr>"

definition demo_ws :: "unit ws_port" where
  "demo_ws = \<lparr>wp_get = (\<lambda>_ u w. if u = ''u'' \<and> w = ''w''
       then Some \<lparr>wv_conv = ''c'', wv_revision = 1, wv_payload = JObj []\<rparr> else None),
     wp_apply = (\<lambda>_ _ _ _ _ w. (True, w))\<rparr>"

definition demo_request :: "string \<Rightarrow> string \<Rightarrow> string \<Rightarrow> string \<Rightarrow> call_request" where
  "demo_request run session call tool = \<lparr>rq_run = run, rq_session = session, rq_call = call, rq_tool = tool,
     rq_args = JObj [], rq_rev = 1, rq_context = demo_digest, rq_toolset = ''v1''\<rparr>"

definition demo_piece :: "string \<Rightarrow> unit piece" where
  "demo_piece tool = \<lparr>pc_now = 10, pc_handler = Returned
     \<lparr>tr_name = tool, tr_summary = ''done'', tr_patch = JObj [], tr_artifacts = [], tr_pending = [],
      tr_obs = JObj [(''scene_count'', JInt 2)]\<rparr>, pc_cancel = False, pc_envs = []\<rparr>"

definition demo_start :: "unit tool_sys" where
  "demo_start = idle_sys \<lparr>tw_store = empty_tools, tw_creds = \<lparr>rc_ttl = 300, rc_values = []\<rparr>, tw_ws = ()\<rparr>"

lemma demo_start_reach: "tool_reach H fl B W demo_start"
  unfolding demo_start_def by (rule reach_idle) (simp_all add: empty_tools_ok)

text \<open>
  The user confirms a suspended paid call; the resumed run deposits a credential and makes the call.
\<close>

definition demo_key :: "string \<Rightarrow> string \<Rightarrow> string" where
  "demo_key run call = tool_call_key demo_hash run call"

definition demo_events :: "unit sys_event list" where
  "demo_events =
     (let b1 = demo_binding ''hrun_1'' ''pfh_1''; p = demo_piece ''generate_scenes'';
          i = interrupt_id demo_hash ''k''
      in [Ev_Command (Register_Binding b1),
          Ev_Command (Interrupt_Create ''k'' b1 ''awaiting_confirmation''
            (JObj [(''tool_name'', JStr ''generate_scenes'')])),
          Ev_Command (Interrupt_Respond i b1 ''yes'' 1 None),
          Ev_Command (Register_Binding (demo_binding ''hrun_22'' ''pfh_2'')),
          Ev_Command (Interrupt_Bind i ''yes'' ''hrun_22''),
          Ev_Credential 5 (Deposit ''hrun_22'' ''Bearer x''),
          Ev_Arrive 1 (demo_key ''hrun_22'' ''b'')
            (demo_request ''hrun_22'' ''pfh_2'' ''b'' ''generate_scenes'')] @ replicate 4 (Ev_Advance 1 p))"

definition demo_end :: "unit tool_sys" where
  "demo_end = foldl (sys_apply demo_hash demo_float demo_broker demo_ws) demo_start demo_events"

lemma demo_end_reach: "tool_reach demo_hash demo_float demo_broker demo_ws demo_end"
  unfolding demo_end_def by (rule sys_run_reach) (rule demo_start_reach)

lemma demo_end_log:
  "(sy_log demo_end, sy_deposits demo_end) =
     ([\<lparr>lx_key = demo_key ''hrun_22'' ''b'', lx_run = ''hrun_22'', lx_call = ''b'', lx_spec = demo_paid,
        lx_cred = Some ''Bearer x''\<rparr>], [''hrun_22''])"
  by code_simp

definition demo_read_events :: "string \<Rightarrow> nat \<Rightarrow> unit sys_event list" where
  "demo_read_events tool n =
     [Ev_Command (Register_Binding (demo_binding ''hrun_1'' ''pfh_1'')),
      Ev_Arrive 0 (demo_key ''hrun_1'' ''a'') (demo_request ''hrun_1'' ''pfh_1'' ''a'' tool)] @
     replicate n (Ev_Advance 0 (demo_piece tool))"

definition demo_read_state :: "string \<Rightarrow> nat \<Rightarrow> unit tool_sys" where
  "demo_read_state tool n =
     foldl (sys_apply demo_hash demo_float demo_broker demo_ws) demo_start (demo_read_events tool n)"

lemma demo_read_reach: "tool_reach demo_hash demo_float demo_broker demo_ws (demo_read_state tool n)"
  unfolding demo_read_state_def by (rule sys_run_reach) (rule demo_start_reach)

section \<open>Properties of the calls\<close>

text \<open>
  C11. A tool call is executed at most once. In every reachable state of the broker, whatever calls
  run concurrently under whatever identities, are retried, cancelled, lost in a crash or interleaved with
  the commands of the controllers, the log of executions holds no tool call key twice; the key is the
  digest of the run and the call identity.
\<close>

theorem tool_call_executes_once:
  assumes "tool_reach H fl B W s"
  shows "distinct (map lx_key (sy_log s)) \<and>
    map lx_key (sy_log s) = map (\<lambda>e. tool_call_key H (lx_run e) (lx_call e)) (sy_log s)"
  using sys_okD(5,6) [OF tool_reach_ok [OF assms]] unfolding keys_of_log_def by simp

theorem tool_call_executes_once_witness:
  "sy_log demo_end \<noteq> [] \<and> distinct (map lx_key (sy_log demo_end))"
  using tool_call_executes_once [OF demo_end_reach] demo_end_log by simp

text \<open>
  C12. Only what the user confirmed runs. Every execution of a tool that asks for confirmation or costs
  money belongs to a run that resumed from an interrupt about this very tool which the user has answered;
  and an execution carries a credential exactly when its tool costs something.
\<close>

theorem execution_was_confirmed:
  assumes "tool_reach H fl B W s" and "e \<in> set (sy_log s)"
  shows "(needs_grant (lx_spec e) \<longrightarrow>
      (\<exists>i r. get_interrupt (sy_store s) i = Some r \<and> it_status r = It_Responded \<and> it_response r \<noteq> None \<and>
         it_resumed r = Some (lx_run e) \<and> jget ''tool_name'' (it_payload r) = JStr (sp_name (lx_spec e)))) \<and>
    (lx_cred e = None \<longleftrightarrow> sp_cost (lx_spec e) = Cost_None)"
proof (rule conjI)
  have c: "confirm_ok B s" by (rule tool_reach_confirm [OF assms(1)])
  have ok: "tool_ok (sy_store s)" by (rule sys_okD(1) [OF tool_reach_ok [OF assms(1)]])
  then have d: "distinct (map fst (ts_interrupts (sy_store s)))" and
    rows: "all_rows (\<lambda>k r. interrupt_ok r) (ts_interrupts (sy_store s))" by (simp_all add: tool_ok_def)
  show "lx_cred e = None \<longleftrightarrow> sp_cost (lx_spec e) = Cost_None"
    using c assms(2) unfolding confirm_ok_def by blast
  show "needs_grant (lx_spec e) \<longrightarrow>
      (\<exists>i r. get_interrupt (sy_store s) i = Some r \<and> it_status r = It_Responded \<and> it_response r \<noteq> None \<and>
         it_resumed r = Some (lx_run e) \<and> jget ''tool_name'' (it_payload r) = JStr (sp_name (lx_spec e)))"
  proof
    assume "needs_grant (lx_spec e)"
    then have "is_tool_confirmation_granted (sy_store s) (lx_run e) (sp_name (lx_spec e))"
      using c assms(2) unfolding confirm_ok_def by blast
    then obtain i r where i: "map_of (ts_interrupts (sy_store s)) i = Some r"
      and g: "grants (lx_run e) (sp_name (lx_spec e)) r" using granted_iff [OF d] by blast
    have "interrupt_ok r" using all_rowsD [OF rows i] .
    then have "it_response r \<noteq> None" using g by (simp add: interrupt_ok_def grants_def)
    then show "\<exists>i r. get_interrupt (sy_store s) i = Some r \<and> it_status r = It_Responded \<and> it_response r \<noteq> None \<and>
         it_resumed r = Some (lx_run e) \<and> jget ''tool_name'' (it_payload r) = JStr (sp_name (lx_spec e))"
      using i g by (auto simp: get_interrupt_def grants_def)
  qed
qed

theorem execution_was_confirmed_witness:
  "\<exists>r i. get_interrupt (sy_store demo_end) i = Some r \<and> it_status r = It_Responded \<and>
     jget ''tool_name'' (it_payload r) = JStr ''generate_scenes''"
proof -
  let ?e = "\<lparr>lx_key = demo_key ''hrun_22'' ''b'', lx_run = ''hrun_22'', lx_call = ''b'', lx_spec = demo_paid,
        lx_cred = Some ''Bearer x''\<rparr>"
  have "?e \<in> set (sy_log demo_end)" using demo_end_log by simp
  moreover have "needs_grant (lx_spec ?e)" "sp_name (lx_spec ?e) = ''generate_scenes''"
    by (simp_all add: needs_grant_def demo_paid_def)
  ultimately show ?thesis using execution_was_confirmed [OF demo_end_reach] by metis
qed

text \<open>
  C13. A credential pays for one execution. The executions of a run that used a credential are at most as
  many as the credentials deposited for it, whatever was deposited, granted, bound, dropped or expired.
\<close>

theorem credential_pays_once:
  assumes "tool_reach H fl B W s"
  shows "length (filter (\<lambda>e. lx_run e = run \<and> lx_cred e \<noteq> None) (sy_log s)) \<le> count_list (sy_deposits s) run"
  using tool_reach_creds [OF assms] unfolding cred_ok_def paid_def by (meson add_leD1)

theorem credential_pays_once_witness:
  "length (filter (\<lambda>e. lx_run e = ''hrun_22'' \<and> lx_cred e \<noteq> None) (sy_log demo_end)) \<le> 1 \<and>
   map lx_cred (sy_log demo_end) = [Some ''Bearer x'']"
  using credential_pays_once [OF demo_end_reach, of "''hrun_22''"] demo_end_log by simp

text \<open>
  C14. A closed call is replayed. Once the piece that closes a call returned a response, every later
  call with the same request gets exactly that response from the ledger and changes nothing, however the
  system went on in between.
\<close>

theorem closed_call_is_replayed:
  assumes "tool_reach H fl B W s" and "map_of (sy_tasks s) i = Some (key, rq, Closing d r)"
    and "advance H fl B W p key rq (Closing d r) (sy_world s) = (Finished (Inr r'), t)"
    and "tool_steps H fl B W (s\<lparr>sy_world := t, sy_tasks := AList.update i (key, rq, Finished (Inr r')) (sy_tasks s)\<rparr>) s'"
  shows "begin_call H fl B key rq (sy_store s') = (Finished (Inr r'), sy_store s')"
proof -
  have "frozen H fl B (sy_store s) key rq d"
    using tool_reach_frozen [OF assms(1)] assms(2) unfolding all_frozen_def by fastforce
  then have "answered H fl B (tw_store t) key rq r'" by (rule closed_is_answered [OF assms(3)])
  moreover have "tool_le (tw_store t) (sy_store s')" using tool_steps_le [OF assms(4)] by simp
  ultimately show ?thesis using answered_mono answered_replays by blast
qed

lemma demo_closing:
  "(let s = demo_read_state ''inspect_scene'' 5 in
    case map_of (sy_tasks s) 0 of
      Some (key, rq, Closing d r) \<Rightarrow>
        (case advance demo_hash demo_float demo_broker demo_ws (demo_piece ''inspect_scene'') key rq (Closing d r)
                (sy_world s) of
           (Finished (Inr r'), t) \<Rightarrow> r' = r \<and> rs_status r = Rs_Completed
         | _ \<Rightarrow> False)
    | _ \<Rightarrow> False)"
  by code_simp

theorem closed_call_is_replayed_witness:
  "\<exists>key rq s' r. rs_status r = Rs_Completed \<and>
     begin_call demo_hash demo_float demo_broker key rq (sy_store (s' :: unit tool_sys)) =
       (Finished (Inr r), sy_store s')"
proof -
  let ?s = "demo_read_state ''inspect_scene'' 5"
  obtain key rq d r where t: "map_of (sy_tasks ?s) 0 = Some (key, rq, Closing d r)"
    using demo_closing by (auto simp: Let_def split: option.splits prod.splits call_phase.splits)
  then obtain w where a: "advance demo_hash demo_float demo_broker demo_ws (demo_piece ''inspect_scene'') key rq
        (Closing d r) (sy_world ?s) = (Finished (Inr r), w)" and st: "rs_status r = Rs_Completed"
    using demo_closing by (auto simp: Let_def split: prod.splits call_phase.splits sum.splits)
  have "begin_call demo_hash demo_float demo_broker key rq (sy_store
      (?s\<lparr>sy_world := w, sy_tasks := AList.update 0 (key, rq, Finished (Inr r)) (sy_tasks ?s)\<rparr>)) =
    (Finished (Inr r), sy_store
      (?s\<lparr>sy_world := w, sy_tasks := AList.update 0 (key, rq, Finished (Inr r)) (sy_tasks ?s)\<rparr>))"
    by (rule closed_call_is_replayed [OF demo_read_reach t a steps_none])
  then show ?thesis using st by blast
qed

text \<open>
  Every call ends. Each piece leaves strictly fewer pieces to run, whatever the environment does in
  it and however the pieces of other calls interleave; so an undisturbed call, every failure of the handler
  and a cancellation included, is over after seven pieces at most.
\<close>

lemma every_call_ends:
  "(\<exists>r t'. broker_call H fl B W p key rq t = (Finished r, t')) \<and>
   (pieces_left ph = 0 \<or> pieces_left (fst (advance H fl B W p key rq ph t)) < pieces_left ph)"
proof (rule conjI)
  obtain r where "fst (run_call 7 H fl B W p key rq Fresh t) = Finished r"
    using run_call_finishes [of Fresh 7] by fastforce
  then show "\<exists>r t'. broker_call H fl B W p key rq t = (Finished r, t')"
    unfolding broker_call_def by (metis prod.collapse)
  show "pieces_left ph = 0 \<or> pieces_left (fst (advance H fl B W p key rq ph t)) < pieces_left ph"
    using advance_fewer [of H fl B W p key rq ph t] by (metis prod.collapse)
qed

text \<open>
  A call of an unknown tool never completes. After the claim, a tool the registry does not have is
  rejected without closing the ledger row: from then on, however the system goes on, every retry with the
  same identity is told that the call is still executing.
\<close>

lemma unknown_tool_hangs:
  assumes "tool_reach H fl B W s" and "map_of (sy_tasks s) i = Some (key, rq, Claimed b d)"
    and "resolve_tool (bk_registry B) (rq_tool rq) = None"
    and "advance H fl B W p key rq (Claimed b d) (sy_world s) = (ph, t)"
    and "tool_steps H fl B W (s\<lparr>sy_world := t, sy_tasks := AList.update i (key, rq, ph) (sy_tasks s)\<rparr>) s'"
    and "frozen H fl B (sy_store s') key rq (tc_digest c)" and "map_of (ts_calls (sy_store s)) key = Some c"
  shows "ph = Finished (Inr (rejected say_unknown_tool)) \<and>
    begin_call H fl B key rq (sy_store s') = (Finished (Inr in_progress), sy_store s')"
proof -
  let ?s1 = "s\<lparr>sy_world := t, sy_tasks := AList.update i (key, rq, ph) (sy_tasks s)\<rparr>"
  have ph: "ph = Finished (Inr (rejected say_unknown_tool))" "t = sy_world s"
    using assms(3,4) by (auto simp: check_call_def)
  have ok: "sys_ok H s" by (rule tool_reach_ok [OF assms(1)])
  have "tc_state c = Executing" using sys_okD(2) [OF ok assms(2)] assms(7) by auto
  moreover have "owns_call q = None" if "map_of (sy_tasks ?s1) j = Some (key, r, q)" for j r q
  proof (cases "j = i")
    case True
    then show ?thesis using that ph by auto
  next
    case False
    then have "map_of (sy_tasks s) j = Some (key, r, q)" using that by simp
    then show ?thesis using sys_okD(3) [OF ok _ assms(2)] False by fastforce
  qed
  ultimately have "orphan ?s1 key c" using assms(7) ph(2) unfolding orphan_def by simp
  then have "orphan s' key c" by (rule orphan_steps [OF assms(5)])
  then show ?thesis using orphan_in_progress assms(6) ph(1) by blast
qed

lemma demo_unknown:
  "(let s = demo_read_state ''drop_table'' 1 in
    case map_of (sy_tasks s) 0 of
      Some (key, rq, Claimed b d) \<Rightarrow>
        resolve_tool (bk_registry demo_broker) (rq_tool rq) = None \<and>
        (case map_of (ts_calls (sy_store s)) key of Some c \<Rightarrow> tc_digest c = d | None \<Rightarrow> False)
    | _ \<Rightarrow> False)"
  by code_simp

lemma unknown_tool_hangs_witness:
  "\<exists>key rq s'. begin_call demo_hash demo_float demo_broker key rq (sy_store (s' :: unit tool_sys)) =
     (Finished (Inr in_progress), sy_store s')"
proof -
  let ?s = "demo_read_state ''drop_table'' 1"
  obtain key rq b d c where t: "map_of (sy_tasks ?s) 0 = Some (key, rq, Claimed b d)"
    and n: "resolve_tool (bk_registry demo_broker) (rq_tool rq) = None"
    and c: "map_of (ts_calls (sy_store ?s)) key = Some c" "tc_digest c = d"
    using demo_unknown by (auto simp: Let_def split: option.splits prod.splits call_phase.splits)
  have f: "frozen demo_hash demo_float demo_broker (sy_store ?s) key rq (tc_digest c)"
    using tool_reach_frozen [OF demo_read_reach] t c(2) unfolding all_frozen_def by fastforce
  obtain ph w where a: "advance demo_hash demo_float demo_broker demo_ws (demo_piece ''x'') key rq
      (Claimed b d) (sy_world ?s) = (ph, w)" by fastforce
  then have w: "w = sy_world ?s" by auto
  have "begin_call demo_hash demo_float demo_broker key rq (sy_store
      (?s\<lparr>sy_world := w, sy_tasks := AList.update 0 (key, rq, ph) (sy_tasks ?s)\<rparr>)) =
    (Finished (Inr in_progress), sy_store
      (?s\<lparr>sy_world := w, sy_tasks := AList.update 0 (key, rq, ph) (sy_tasks ?s)\<rparr>))"
    using unknown_tool_hangs [OF demo_read_reach t n a steps_none _ c(1)] f w by simp
  then show ?thesis by blast
qed

end
