(* ===== verification/Tool_Outputs.thy ===== *)
theory Tool_Outputs
  imports Tool_Broker
begin

text \<open>
  What the broker lets out: lengths of the texts the registry builds, the observation whitelist, the
  round trip of a response through the ledger, and the finality of what the repository has settled.
\<close>

section \<open>Lengths\<close>

lemma py_len_empty [simp]: "py_len [] = 0"
  by (simp add: py_len_def)

lemma py_len_append [simp]: "py_len (s @ t) = py_len s + py_len t"
  by (simp add: py_len_def)

lemma py_len_join:
  assumes "\<forall>t \<in> set ts. py_len t \<le> n"
  shows "py_len (join_with sep ts) \<le> length ts * (n + py_len sep)"
  using assms
proof (induction sep ts rule: join_with.induct)
  case (3 sep t u ts)
  then have "py_len (join_with sep (u # ts)) \<le> length (u # ts) * (n + py_len sep)" "py_len t \<le> n" by simp_all
  then show ?case by simp
qed simp_all

lemma py_len_join_pos: "ts \<noteq> [] \<Longrightarrow> \<forall>t \<in> set ts. 1 \<le> py_len t \<Longrightarrow> 1 \<le> py_len (join_with sep ts)"
  by (induction sep ts rule: join_with.induct) auto

lemma collect_fields_in:
  "(\<forall>t \<in> set det \<union> set flat. 1 \<le> py_len t \<and> py_len t \<le> 160) \<Longrightarrow> collect_fields items det flat = (d, f) \<Longrightarrow>
   \<forall>t \<in> set d \<union> set f. 1 \<le> py_len t \<and> py_len t \<le> 160"
proof (induction items det flat rule: collect_fields.induct)
  case (1 det flat)
  then show ?case by simp
next
  case (2 parts ty items det flat)
  let ?field = "join_with ''.'' parts"
  let ?many = "1 < length parts"
  let ?new = "0 < py_len ?field \<and> py_len ?field \<le> 160 \<and> ?field \<notin> set (if ?many then det else flat)"
  let ?d = "if ?new \<and> ?many then det @ [?field] else det"
  let ?f = "if ?new \<and> \<not> ?many then flat @ [?field] else flat"
  have ok: "\<forall>t \<in> set ?d \<union> set ?f. 1 \<le> py_len t \<and> py_len t \<le> 160"
    using 2(3) by auto
  show ?case
  proof (cases "parts = []")
    case True
    then show ?thesis using 2 by simp
  next
    case False
    note ih = 2(2) [OF False refl refl refl refl refl]
    show ?thesis
    proof (cases "8 \<le> length ?d")
      case True
      then have "d = ?d \<and> f = ?f" using 2(4) False by (simp add: Let_def)
      then show ?thesis using ok by blast
    next
      case go: False
      have "collect_fields items ?d ?f = (d, f)" using 2(4) False go by (simp add: Let_def)
      then show ?thesis using ih [OF go ok] by blast
    qed
  qed
qed

definition reason_texts :: "string list" where
  "reason_texts = map reason_by_type [''missing'', ''extra_forbidden'', ''literal_error'', ''string_too_short'',
     ''string_too_long'', ''too_short'', ''too_long'', ''int_parsing'', ''int_type'', ''greater_than_equal'',
     ''less_than_equal'', ''value_error'', []]"

lemma reason_texts_short: "list_all (\<lambda>t. 1 \<le> py_len t \<and> py_len t \<le> 9) reason_texts"
  by code_simp

lemma reason_in_texts: "reason_by_type ty \<in> set reason_texts"
  by (simp add: reason_texts_def reason_by_type_def)

lemma reason_short: "1 \<le> py_len (reason_by_type ty) \<and> py_len (reason_by_type ty) \<le> 9"
  using reason_texts_short reason_in_texts [of ty] by (auto simp: list_all_iff)

lemma txt_lengths:
  "py_len txt_open = 1" "py_len txt_close = 1" "py_len txt_sep = 1"
  "py_len txt_bad_hints = 11" "py_len txt_bad_fields = 13" "py_len txt_bad_arguments = 13" "py_len txt_failed = 11"
  by code_simp+

lemma collect_hints_in:
  "(\<forall>t \<in> set det \<union> set flat. 1 \<le> py_len t \<and> py_len t \<le> 171) \<Longrightarrow> collect_hints items det flat = (d, f) \<Longrightarrow>
   \<forall>t \<in> set d \<union> set f. 1 \<le> py_len t \<and> py_len t \<le> 171"
proof (induction items det flat rule: collect_hints.induct)
  case (1 det flat)
  then show ?case by simp
next
  case (2 parts ty items det flat)
  let ?field = "join_with ''.'' parts"
  let ?hint = "?field @ txt_open @ reason_by_type ty @ txt_close"
  let ?many = "1 < length parts"
  let ?new = "?hint \<notin> set (if ?many then det else flat)"
  let ?d = "if ?new \<and> ?many then det @ [?hint] else det"
  let ?f = "if ?new \<and> \<not> ?many then flat @ [?hint] else flat"
  show ?case
  proof (cases "parts = [] \<or> \<not> (0 < py_len ?field \<and> py_len ?field \<le> 160)")
    case True
    then show ?thesis using 2 by auto
  next
    case False
    then have "1 \<le> py_len ?hint \<and> py_len ?hint \<le> 171" using reason_short [of ty] by (simp add: txt_lengths)
    then have ok: "\<forall>t \<in> set ?d \<union> set ?f. 1 \<le> py_len t \<and> py_len t \<le> 171" using 2(3) by auto
    note ih = 2(2) [OF refl False refl refl refl refl refl]
    show ?thesis
    proof (cases "8 \<le> length ?d")
      case True
      then have "d = ?d \<and> f = ?f" using 2(4) False by (simp add: Let_def)
      then show ?thesis using ok by blast
    next
      case go: False
      have "collect_hints items ?d ?f = (d, f)" using 2(4) False go by (simp add: Let_def)
      then show ?thesis using ih [OF go ok] by blast
    qed
  qed
qed

lemma validation_fields_short:
  "t \<in> set (safe_validation_fields items) \<Longrightarrow> 1 \<le> py_len t \<and> py_len t \<le> 160"
  "length (safe_validation_fields items) \<le> 8"
proof -
  obtain d f where c: "collect_fields items [] [] = (d, f)" by fastforce
  have range: "\<forall>t \<in> set d \<union> set f. 1 \<le> py_len t \<and> py_len t \<le> 160" by (intro collect_fields_in [OF _ c]) simp
  then show "t \<in> set (safe_validation_fields items) \<Longrightarrow> 1 \<le> py_len t \<and> py_len t \<le> 160"
  proof -
    assume "t \<in> set (safe_validation_fields items)"
    then have "t \<in> set (if d \<noteq> [] then d else f)"
      using c unfolding safe_validation_fields_def by (simp only: prod.case) (rule in_set_takeD)
    then have "t \<in> set d \<union> set f" by (cases "d = []") simp_all
    then show ?thesis using range by blast
  qed
  show "length (safe_validation_fields items) \<le> 8"
    by (simp add: safe_validation_fields_def split: prod.split)
qed

lemma validation_hints_short:
  "t \<in> set (safe_validation_hints items) \<Longrightarrow> 1 \<le> py_len t \<and> py_len t \<le> 171"
  "length (safe_validation_hints items) \<le> 8"
proof -
  obtain d f where c: "collect_hints items [] [] = (d, f)" by fastforce
  have range: "\<forall>t \<in> set d \<union> set f. 1 \<le> py_len t \<and> py_len t \<le> 171" by (intro collect_hints_in [OF _ c]) simp
  then show "t \<in> set (safe_validation_hints items) \<Longrightarrow> 1 \<le> py_len t \<and> py_len t \<le> 171"
  proof -
    assume "t \<in> set (safe_validation_hints items)"
    then have "t \<in> set (if d \<noteq> [] then d else f)"
      using c unfolding safe_validation_hints_def by (simp only: prod.case) (rule in_set_takeD)
    then have "t \<in> set d \<union> set f" by (cases "d = []") simp_all
    then show ?thesis using range by blast
  qed
  show "length (safe_validation_hints items) \<le> 8"
    by (simp add: safe_validation_hints_def split: prod.split)
qed

lemma invalid_arguments_summary:
  "1 \<le> py_len (tr_summary (invalid_arguments sp items)) \<and> py_len (tr_summary (invalid_arguments sp items)) \<le> 1387"
proof -
  let ?h = "safe_validation_hints items" and ?f = "safe_validation_fields items"
  have "py_len (join_with txt_sep ?h) \<le> length ?h * (171 + py_len txt_sep)"
    by (rule py_len_join) (use validation_hints_short(1) in blast)
  then have h: "py_len (join_with txt_sep ?h) \<le> 8 * 172"
    using validation_hints_short(2) [of items] by (simp add: txt_lengths)
  have "py_len (join_with txt_sep ?f) \<le> length ?f * (160 + py_len txt_sep)"
    by (rule py_len_join) (use validation_fields_short(1) in blast)
  then have f: "py_len (join_with txt_sep ?f) \<le> 8 * 161"
    using validation_fields_short(2) [of items] by (simp add: txt_lengths)
  show ?thesis using h f by (simp add: invalid_arguments_def plain_result_def Let_def txt_lengths)
qed

section \<open>What a tool result may contain\<close>

definition spec_ok :: "tool_spec \<Rightarrow> bool" where
  "spec_ok sp = (1 \<le> py_len (sp_name sp) \<and> py_len (sp_name sp) \<le> 128)"

lemma py_len_pos: "s = [] \<or> is_continuation (hd s) \<or> 1 \<le> py_len s"
  by (cases s) (auto simp: py_len_def)

lemma py_take_keeps: "1 \<le> py_len s \<Longrightarrow> 1 \<le> py_len (py_take (Suc n) s)"
  by (induction s) (auto simp: py_len_def)

text \<open>A text of the handler is UTF-8: it is empty or has a first byte that starts a character.\<close>

definition is_text :: "string \<Rightarrow> bool" where
  "is_text s = (s = [] \<or> 1 \<le> py_len s)"

definition handler_ok :: "handler \<Rightarrow> bool" where
  "handler_ok h = (case h of
      Validation_Raised t \<Rightarrow> is_text (py_strip t)
    | Execution_Raised t \<Rightarrow> is_text (py_strip t)
    | Returned r \<Rightarrow> result_ok r
    | _ \<Rightarrow> True)"

lemma plain_result_ok:
  "spec_ok sp \<Longrightarrow> 1 \<le> py_len t \<Longrightarrow> py_len t \<le> 2000 \<Longrightarrow> result_ok (plain_result (sp_name sp) t (JObj d))"
  by (simp add: result_ok_def plain_result_def spec_ok_def)

lemma registry_result_ok:
  assumes "registry_execute d name h = Inr r" and "\<forall>sp. resolve_tool d name = Some sp \<longrightarrow> spec_ok sp"
    and "handler_ok h"
  shows "result_ok r \<and> (\<exists>sp. resolve_tool d name = Some sp \<and> tr_name r = sp_name sp \<and>
    set (obj_keys (tr_patch r)) \<subseteq> set (map patch_root (sp_mutations sp)))"
proof -
  obtain sp where sp: "resolve_tool d name = Some sp"
    using assms(1) by (auto simp: registry_execute_def split: option.splits)
  then have ok: "spec_ok sp" using assms(2) by blast
  have short: "py_len (py_take 280 t) \<le> 280" "1 \<le> py_len t \<Longrightarrow> 1 \<le> py_len (py_take 280 t)" for t
    using py_len_take py_take_keeps [of t 279] by simp_all
  show ?thesis
  proof (cases h)
    case (Invalid_Arguments items)
    then have r: "r = invalid_arguments sp items" using assms(1) sp by (simp add: registry_execute_def)
    have "result_ok r" using invalid_arguments_summary [of sp items] ok
      unfolding r by (auto simp: invalid_arguments_def plain_result_def Let_def result_ok_def spec_ok_def)
    then show ?thesis using sp r by (auto simp: invalid_arguments_def plain_result_def Let_def)
  next
    case (Validation_Raised t)
    let ?s = "if py_strip t \<noteq> [] then py_take 280 (py_strip t) else txt_bad_arguments"
    have r: "r = plain_result (sp_name sp) ?s (JObj [])"
      using assms(1) sp Validation_Raised by (simp add: registry_execute_def Let_def)
    have "1 \<le> py_len ?s" "py_len ?s \<le> 2000"
      using assms(3) short [of "py_strip t"] Validation_Raised by (auto simp: handler_ok_def is_text_def txt_lengths)
    then show ?thesis using sp plain_result_ok [OF ok] unfolding r by (auto simp: plain_result_def)
  next
    case (Execution_Raised t)
    let ?s = "if public_failure (py_strip t) then py_take 280 (py_strip t) else sp_name sp @ txt_failed"
    have r: "r = plain_result (sp_name sp) ?s (JObj [])"
      using assms(1) sp Execution_Raised by (simp add: registry_execute_def Let_def)
    have "public_failure (py_strip t) \<Longrightarrow> 1 \<le> py_len (py_strip t)"
      using assms(3) Execution_Raised by (auto simp: handler_ok_def is_text_def public_failure_def)
    then have "1 \<le> py_len ?s" "py_len ?s \<le> 2000"
      using short [of "py_strip t"] ok by (auto simp: txt_lengths spec_ok_def)
    then show ?thesis using sp plain_result_ok [OF ok] unfolding r by (auto simp: plain_result_def)
  next
    case (Returned r')
    then show ?thesis using assms sp
      by (auto simp: registry_execute_def handler_ok_def split: if_splits)
  qed (use assms sp in \<open>simp add: registry_execute_def\<close>)
qed

section \<open>Properties\<close>

text \<open>
  What the registry returns respects the declaration of the tool. Whatever the validation and the
  handler do, a result of the registry carries the name of the tool, changes only workspace roots the tool
  declares, and is a valid result: its summary (the validation hints and fields, the shortened messages of
  the handler, the fixed texts) is never empty and never over the limit.
\<close>

lemma registry_result_is_declared:
  assumes "registry_execute d name h = Inr r" and "\<forall>sp. resolve_tool d name = Some sp \<longrightarrow> spec_ok sp"
    and "handler_ok h"
  shows "result_ok r \<and> (\<exists>sp. resolve_tool d name = Some sp \<and> tr_name r = sp_name sp \<and>
    set (obj_keys (tr_patch r)) \<subseteq> set (map patch_root (sp_mutations sp)))"
  by (rule registry_result_ok [OF assms])

definition sample_spec :: tool_spec where
  "sample_spec = \<lparr>sp_name = ''patch_scene'', sp_cost = Cost_None, sp_confirm = False,
     sp_mutations = [''scenes.items'', ''storyboard''], sp_keys = [''scene_id'']\<rparr>"

definition sample_result :: tool_result where
  "sample_result = \<lparr>tr_name = ''patch_scene'', tr_summary = ''done'', tr_patch = JObj [(''scenes'', JObj [])],
     tr_artifacts = [''a1''], tr_pending = [], tr_obs = JObj [(''scene_id'', JStr ''s1'')]\<rparr>"

lemma sample_facts:
  "registry_execute [(''patch_scene'', sample_spec)] ''patch_scene'' (Returned sample_result) = Inr sample_result"
  "spec_ok sample_spec" "handler_ok (Returned sample_result)"
  by code_simp+

lemma registry_result_is_declared_witness:
  "result_ok sample_result \<and> set (obj_keys (tr_patch sample_result)) \<subseteq> set (map patch_root (sp_mutations sample_spec))"
proof -
  have "\<forall>sp. resolve_tool [(''patch_scene'', sample_spec)] ''patch_scene'' = Some sp \<longrightarrow> spec_ok sp"
    using sample_facts(2) by (simp add: resolve_tool_def)
  from registry_result_is_declared [OF sample_facts(1) this sample_facts(3)] show ?thesis
    by (simp add: resolve_tool_def)
qed

text \<open>
  A response survives the ledger. Dumping a valid response to JSON and validating it back gives the
  same response; so what a retry reads is what the first call recorded.
\<close>

lemma response_roundtrip:
  assumes "response_ok r"
  shows "read_response (response_json r) = Some r"
proof -
  have st: "read_status (JStr (response_status_text st)) = Some st" for st
    by (cases st) (simp_all add: read_status_def)
  show ?thesis using assms
    by (cases r) (auto simp: read_response_def response_json_def response_ok_def st Let_def split: option.splits)
qed

lemma response_roundtrip_witness:
  "read_response (response_json (suspended_for ''awaiting_confirmation'' ''generate_scenes'' ''hint_1'')) =
     Some (suspended_for ''awaiting_confirmation'' ''generate_scenes'' ''hint_1'')"
  by (rule response_roundtrip) code_simp

definition fixed_fields :: "string list" where
  "fixed_fields = [''code'', ''tool_name'', ''workspace_revision'', ''artifact_refs'']"

lemma merge_keys:
  "set (obj_keys (merge_obj (JObj d) (JObj e))) = set (map fst d) \<union> set (map fst e)"
proof -
  have "set (map fst (foldl (\<lambda>acc (k, v). AList.update k v acc) d e)) = set (map fst d) \<union> set (map fst e)"
  proof (induction e arbitrary: d)
    case (Cons x e)
    then show ?case using AList.dom_update [of "fst x" "snd x" d] by (cases x) auto
  qed simp
  then show ?thesis by simp
qed

lemma fixed_fields_clean:
  "list_all (\<lambda>k. \<not> list_ex (\<lambda>f. contains f (py_lower k)) observation_forbidden) fixed_fields"
  by code_simp

text \<open>
  C16. The model sees only what the tool declared. The observation of a successful response has the four
  fixed fields and fields the tool declares, none of its field names contains a credential word, the
  observation of the tool is at most 8192 bytes of JSON, and the response is valid.
\<close>

theorem observation_is_filtered:
  assumes "success_response fl sp res rv = Some r"
  shows "set (obj_keys (rs_obs r)) \<subseteq> set fixed_fields \<union> set (sp_keys sp) \<and>
    list_all (\<lambda>k. \<not> list_ex (\<lambda>f. contains f (py_lower k)) observation_forbidden) (obj_keys (rs_obs r)) \<and>
    length (jdump fl False (tr_obs res)) \<le> 8192 \<and> response_ok r"
proof -
  obtain obs where o: "safe_model_observation fl (sp_keys sp) (tr_obs res) = Some obs"
    using assms by (auto simp: success_response_def split: option.splits)
  then have e: "obs = tr_obs res" "is_obj (tr_obs res)" "set (obj_keys (tr_obs res)) \<subseteq> set (sp_keys sp)"
    "list_all (\<lambda>k. \<not> list_ex (\<lambda>f. contains f (py_lower k)) observation_forbidden) (obj_keys (tr_obs res))"
    "length (jdump fl False (tr_obs res)) \<le> 8192"
    by (auto simp: safe_model_observation_def observation_max_bytes_def list_all_iff list_ex_iff split: if_splits)
  obtain d where d: "tr_obs res = JObj d" using e(2) by (cases "tr_obs res") auto
  have "\<exists>c rv a. rs_obs r = merge_obj (JObj [(''code'', c), (''tool_name'', JStr (tr_name res)),
      (''workspace_revision'', rv), (''artifact_refs'', a)]) (tr_obs res) \<and> response_ok r"
    using assms o e(1) by (cases "tr_pending res = []") (force simp: success_response_def Let_def split: if_splits)+
  then obtain c w a where r: "rs_obs r = merge_obj (JObj [(''code'', c), (''tool_name'', JStr (tr_name res)),
      (''workspace_revision'', w), (''artifact_refs'', a)]) (tr_obs res)" and ok: "response_ok r" by blast
  have k: "set (obj_keys (rs_obs r)) = set fixed_fields \<union> set (obj_keys (tr_obs res))"
    unfolding r d merge_keys fixed_fields_def obj_keys.simps by simp
  have "list_all (\<lambda>k. \<not> list_ex (\<lambda>f. contains f (py_lower k)) observation_forbidden) (obj_keys (rs_obs r))"
    using k e(4) fixed_fields_clean unfolding list_all_iff by blast
  then show ?thesis using k e(3,5) ok by blast
qed

theorem observation_is_filtered_witness:
  "\<exists>r. success_response (\<lambda>q. ''0.0'') sample_spec sample_result 3 = Some r \<and> response_ok r"
proof -
  have "success_response (\<lambda>q. ''0.0'') sample_spec sample_result 3 \<noteq> None" by code_simp
  then obtain r where "success_response (\<lambda>q. ''0.0'') sample_spec sample_result 3 = Some r" by blast
  with observation_is_filtered [OF this] show ?thesis by blast
qed

text \<open>
  A success with a long summary is reported as a failure. A tool result may have a summary of 2000
  characters, a response only 512: when the handler succeeded and its workspace patch is written, a valid
  result with a longer summary still makes the broker record and return the generic failure.
\<close>

lemma long_summary_reports_failure:
  assumes "\<not> pc_cancel p" and "context_ok b rq" and "512 < py_len (tr_summary res)"
    and "execute_tool_call (bk_registry B) W (rb_user b) (rb_ws b) (wv_revision v) (pc_now p)
           (pc_envs p) (rq_tool rq) (pc_handler p) w = (Inr res, w')"
  shows "run_tool fl B W p rq b digest sp v w = (Closing digest (failed_response sp), w')"
proof -
  have "success_response fl sp res rv = None" for rv
    using assms(3) by (auto simp: success_response_def Let_def response_ok_def split: option.split)
  then show ?thesis using assms(1,2,4) by (simp add: run_tool_def)
qed

definition long_result :: tool_result where
  "long_result = sample_result\<lparr>tr_summary := replicate 513 (CHR ''x'')\<rparr>"

definition flag_ws :: "bool ws_port" where
  "flag_ws = \<lparr>wp_get = (\<lambda>w u i. Some \<lparr>wv_conv = ''c'', wv_revision = 1, wv_payload = JObj []\<rparr>),
     wp_apply = (\<lambda>u i patch rv now w. (True, True))\<rparr>"

definition sample_binding :: run_binding where
  "sample_binding = \<lparr>rb_run = ''hrun_1'', rb_session = ''pfh_1'', rb_user = ''u'', rb_conv = ''c'', rb_ws = ''w'',
     rb_rev = 1, rb_context = [], rb_toolset = [], rb_manifest = [], rb_request = []\<rparr>"

definition sample_call :: call_request where
  "sample_call = \<lparr>rq_run = ''hrun_1'', rq_session = ''pfh_1'', rq_call = ''a'', rq_tool = ''patch_scene'',
     rq_args = JObj [], rq_rev = 1, rq_context = [], rq_toolset = []\<rparr>"

lemma long_summary_reports_failure_witness:
  "run_tool (\<lambda>q. ''0.0'') \<lparr>bk_registry = [(''patch_scene'', sample_spec)], bk_manifest = [], bk_creds = False\<rparr> flag_ws
     \<lparr>pc_now = 1, pc_handler = Returned long_result, pc_cancel = False, pc_envs = [id]\<rparr> sample_call sample_binding
     ''d'' sample_spec \<lparr>wv_conv = ''c'', wv_revision = 1, wv_payload = JObj []\<rparr> False =
   (Closing ''d'' (failed_response sample_spec), True)"
proof (rule long_summary_reports_failure [where res = long_result])
  show "512 < py_len (tr_summary long_result)"
    by (simp add: long_result_def py_len_def is_continuation_def Let_def)
  show "context_ok sample_binding sample_call" by code_simp
qed (simp_all add: execute_tool_call_def registry_execute_def resolve_tool_def long_result_def sample_result_def
    sample_spec_def sample_call_def flag_ws_def patch_root_def py_strip_def is_space_def Let_def take_Cons')

text \<open>
  C15. What is settled stays settled. After any session of repository commands: a run binding is
  unchanged; a completed call keeps its response; an answered interrupt keeps status, response and answer,
  and once a run resumed from it that run; a recovery event that was bound to a run, or handed to manual
  review, is unchanged; and no two interrupts resume as the same run, nor share a response.
\<close>

theorem settled_rows_are_final:
  assumes "tool_ok s" and t_def: "t = run_all (tool_exec H) s cs"
  shows "uniq it_resumed (ts_interrupts t) \<and> uniq it_response (ts_interrupts t) \<and>
    (\<forall>k b. map_of (ts_bindings s) k = Some b \<longrightarrow> map_of (ts_bindings t) k = Some b) \<and>
    (\<forall>k c. map_of (ts_calls s) k = Some c \<longrightarrow> tc_state c = Completed \<longrightarrow> map_of (ts_calls t) k = Some c) \<and>
    (\<forall>k r. map_of (ts_recoveries s) k = Some r \<longrightarrow> hr_status r \<noteq> Pending \<longrightarrow> map_of (ts_recoveries t) k = Some r) \<and>
    (\<forall>k r. map_of (ts_interrupts s) k = Some r \<longrightarrow> it_status r \<noteq> It_Open \<longrightarrow>
       (\<exists>r'. map_of (ts_interrupts t) k = Some r' \<and> it_status r' = it_status r \<and> it_response r' = it_response r \<and>
          it_answer r' = it_answer r \<and> (it_resumed r \<noteq> None \<longrightarrow> it_resumed r' = it_resumed r)))"
proof -
  have le: "tool_le s t" unfolding t_def by (rule tools.session_le [OF assms(1)])
  have ok: "tool_ok t" unfolding t_def by (rule tools.session_inv [OF assms(1)])
  have b: "rows_le (=) (ts_bindings s) (ts_bindings t)" and c: "rows_le call_le (ts_calls s) (ts_calls t)"
    and r: "rows_le recovery_le (ts_recoveries s) (ts_recoveries t)"
    and i: "rows_le interrupt_le (ts_interrupts s) (ts_interrupts t)" using le by (simp_all add: tool_le_def)
  have "uniq it_resumed (ts_interrupts t)" "uniq it_response (ts_interrupts t)"
    using ok by (simp_all add: tool_ok_def)
  then show ?thesis
    by (intro conjI allI impI)
       (auto dest: rows_leD [OF b] rows_leD [OF c] rows_leD [OF r] rows_leD [OF i]
         simp: call_le_def recovery_le_def interrupt_le_def)
qed

definition settled_state :: tool_store where
  "settled_state =
     (let b = sample_binding\<lparr>rb_context := ''sha256:'' @ replicate 64 (CHR ''0''),
                            rb_manifest := ''sha256:'' @ replicate 64 (CHR ''0''),
                            rb_request := ''sha256:'' @ replicate 64 (CHR ''0'')\<rparr>;
          H = (\<lambda>s. replicate 64 (CHR ''0''))
      in run_all (tool_exec H) empty_tools
          [Register_Binding b, Interrupt_Create ''k'' b ''form'' (JObj []),
           Interrupt_Respond (interrupt_id H ''k'') b ''yes'' 1 None, Recovery_Event ''hrun_1'',
           Recovery_Bind ''hrun_1'' ''hrun_2''])"

lemma settled_state_ok: "tool_ok settled_state"
  unfolding settled_state_def Let_def by (rule tools.session_inv [OF empty_tools_ok])

lemma settled_state_rows:
  "map (\<lambda>(k, r). (k, hr_new r)) (ts_recoveries settled_state) = [(''hrun_1'', Some ''hrun_2'')] \<and>
   map (\<lambda>(k, r). it_response r) (ts_interrupts settled_state) = [Some ''yes''] \<and>
   list_all (\<lambda>(k, r). hr_status r \<noteq> Pending) (ts_recoveries settled_state)"
  by code_simp

theorem settled_rows_are_final_witness:
  "\<exists>r. hr_new r = Some ''hrun_2'' \<and>
     map_of (ts_recoveries (run_all (tool_exec sha256_hex) settled_state
       [Recovery_Event ''hrun_1'', Recovery_Manual ''hrun_1'', Recovery_Bind ''hrun_1'' ''hrun_3''])) ''hrun_1'' = Some r"
proof -
  obtain r where r: "ts_recoveries settled_state = [(''hrun_1'', r)]" "hr_new r = Some ''hrun_2''" "hr_status r \<noteq> Pending"
    using settled_state_rows by (cases "ts_recoveries settled_state") auto
  then have "map_of (ts_recoveries settled_state) ''hrun_1'' = Some r" by simp
  then show ?thesis
    using settled_rows_are_final [OF settled_state_ok refl, of sha256_hex
      "[Recovery_Event ''hrun_1'', Recovery_Manual ''hrun_1'', Recovery_Bind ''hrun_1'' ''hrun_3'']"] r(2,3) by blast
qed

end
