(* ===== verification/Gateway_Events.thy ===== *)
theory Gateway_Events
  imports Json "HOL-Library.Product_Lexorder" "HOL-Library.Char_ord"
begin

text \<open>
  The event outbox of a conversation
  (\<^verbatim>\<open>agent_control_plane/persistence/repositories.py\<close>): the in-memory and the SQL
  repository, one definition per event method. Other tables (workflows, turns, summaries) matter to an
  event only through the owners of a conversation (\<open>me_other\<close>, \<open>se_other\<close>). Times are integers.
\<close>

datatype gw_error = Bad_Text | Record_Conflict | Bad_Window | Lease_Conflict | No_Row

definition require_text :: "nat \<Rightarrow> string \<Rightarrow> gw_error + string" where
  "require_text n s = (let t = py_strip s in if t = [] \<or> n < py_len t then Inl Bad_Text else Inr t)"

section \<open>Events\<close>

record agent_event =
  ae_id :: string
  ae_seq :: nat
  ae_cursor :: string
  ae_conv :: string
  ae_run :: string
  ae_time :: time
  ae_type :: string
  ae_payload :: json

definition normalize_event :: "agent_event \<Rightarrow> gw_error + agent_event" where
  "normalize_event e =
     bind_result (require_text 64 (ae_id e)) (\<lambda>i.
     bind_result (require_text 128 (ae_cursor e)) (\<lambda>c.
     bind_result (require_text 64 (ae_conv e)) (\<lambda>v.
     bind_result (require_text 64 (ae_run e)) (\<lambda>r.
       Inr (e\<lparr>ae_id := i, ae_cursor := c, ae_conv := v, ae_run := r\<rparr>)))))"

datatype delivery_status = Dl_Pending | Dl_Delivering | Dl_Published

record delivery =
  dl_status :: delivery_status
  dl_attempts :: nat
  dl_owner :: "string option"
  dl_until :: "time option"
  dl_published :: "time option"

definition fresh_delivery :: delivery where
  "fresh_delivery = \<lparr>dl_status = Dl_Pending, dl_attempts = 0, dl_owner = None, dl_until = None, dl_published = None\<rparr>"

definition lease_window :: "string \<Rightarrow> time \<Rightarrow> time \<Rightarrow> gw_error + string" where
  "lease_window owner now until =
     bind_result (require_text 128 owner) (\<lambda>w. if until \<le> now then Inl Bad_Window else Inr w)"

definition claimable :: "time \<Rightarrow> delivery \<Rightarrow> bool" where
  "claimable now d = (\<not> (dl_status d = Dl_Delivering \<and>
     (case dl_until d of None \<Rightarrow> True | Some u \<Rightarrow> now < u)))"

definition claimed_delivery :: "string \<Rightarrow> time \<Rightarrow> delivery \<Rightarrow> delivery" where
  "claimed_delivery w until d =
     d\<lparr>dl_status := Dl_Delivering, dl_attempts := dl_attempts d + 1, dl_owner := Some w, dl_until := Some until\<rparr>"

definition lease_lost :: "string \<Rightarrow> time \<Rightarrow> delivery \<Rightarrow> bool" where
  "lease_lost w tm d = (dl_status d \<noteq> Dl_Delivering \<or> dl_owner d \<noteq> Some w \<or>
     (case dl_until d of None \<Rightarrow> True | Some u \<Rightarrow> u \<le> tm))"

definition in_order :: "agent_event list \<Rightarrow> agent_event list" where
  "in_order es = sort_key (\<lambda>e. (ae_seq e, ae_id e)) es"

definition page_after :: "string option \<Rightarrow> nat \<Rightarrow> agent_event list \<Rightarrow> gw_error + agent_event list option" where
  "page_after cursor limit es =
     (case cursor of
        None \<Rightarrow> Inr (Some (take limit es))
      | Some c \<Rightarrow>
          bind_result (require_text 128 c) (\<lambda>cc.
            case List.find (\<lambda>e. ae_cursor e = cc) es of
              None \<Rightarrow> Inr None
            | Some a \<Rightarrow> Inr (Some (take limit (filter (\<lambda>e. ae_seq a < ae_seq e) es)))))"

section \<open>In memory\<close>

record mem_events =
  me_other :: "(string \<times> string) list"
  me_events :: "(string \<times> string, agent_event) dict"
  me_ids :: "string list"
  me_seqs :: "(string \<times> nat) list"
  me_cursors :: "(string \<times> string) list"
  me_delivery :: "(string \<times> string, delivery) dict"

definition mem_authority :: "string \<Rightarrow> mem_events \<Rightarrow> string list" where
  "mem_authority conv s =
     map snd (filter (\<lambda>(c, u). c = conv) (me_other s)) @
     map (\<lambda>((u, i), e). u) (filter (\<lambda>((u, i), e). ae_conv e = conv) (me_events s))"

definition mem_conversation :: "string \<Rightarrow> mem_events \<Rightarrow> agent_event list" where
  "mem_conversation conv s = filter (\<lambda>e. ae_conv e = conv) (map snd (me_events s))"

definition mem_create_event :: "string \<Rightarrow> agent_event \<Rightarrow> mem_events \<Rightarrow> (gw_error + agent_event) \<times> mem_events" where
  "mem_create_event user e s =
     (case bind_result (require_text 64 user) (\<lambda>u. bind_result (normalize_event e) (\<lambda>n. Inr (u, n))) of
        Inl er \<Rightarrow> (Inl er, s)
      | Inr (owner, n) \<Rightarrow>
          if list_ex (\<lambda>u. u \<noteq> owner) (mem_authority (ae_conv n) s) then (Inl Record_Conflict, s)
          else
            (let expected = (case mem_conversation (ae_conv n) s of
                    [] \<Rightarrow> 1
                  | es \<Rightarrow> fold max (map ae_seq es) 0 + 1);
                 r = n\<lparr>ae_seq := expected\<rparr>
             in if expected < ae_seq n then (Inl Record_Conflict, s)
                else if ae_id r \<in> set (me_ids s) \<or> (ae_conv r, ae_seq r) \<in> set (me_seqs s) \<or>
                        (ae_conv r, ae_cursor r) \<in> set (me_cursors s)
                then (Inl Record_Conflict, s)
                else (Inr r, s\<lparr>me_ids := me_ids s @ [ae_id r], me_seqs := me_seqs s @ [(ae_conv r, ae_seq r)],
                        me_cursors := me_cursors s @ [(ae_conv r, ae_cursor r)],
                        me_events := AList.update (owner, ae_id r) r (me_events s),
                        me_delivery := AList.update (owner, ae_id r) fresh_delivery (me_delivery s)\<rparr>)))"

definition mem_get_event :: "string \<Rightarrow> string \<Rightarrow> mem_events \<Rightarrow> gw_error + agent_event option" where
  "mem_get_event user i s =
     bind_result (require_text 64 user) (\<lambda>u. bind_result (require_text 64 i) (\<lambda>k. Inr (map_of (me_events s) (u, k))))"

definition mem_owned :: "string \<Rightarrow> string \<Rightarrow> mem_events \<Rightarrow> agent_event list" where
  "mem_owned u c s = map snd (filter (\<lambda>((o', i), e). o' = u \<and> ae_conv e = c) (me_events s))"

definition mem_list_events :: "string \<Rightarrow> string \<Rightarrow> mem_events \<Rightarrow> gw_error + agent_event list" where
  "mem_list_events user conv s =
     bind_result (require_text 64 user) (\<lambda>u. bind_result (require_text 64 conv) (\<lambda>c. Inr (in_order (mem_owned u c s))))"

definition mem_latest_event :: "string \<Rightarrow> string \<Rightarrow> mem_events \<Rightarrow> gw_error + agent_event option" where
  "mem_latest_event user conv s =
     bind_result (mem_list_events user conv s) (\<lambda>es. Inr (if es = [] then None else Some (last es)))"

definition mem_events_after :: "string \<Rightarrow> string \<Rightarrow> string option \<Rightarrow> nat \<Rightarrow> mem_events \<Rightarrow> gw_error + agent_event list option" where
  "mem_events_after user conv cursor limit s =
     bind_result (require_text 64 user) (\<lambda>_. bind_result (require_text 64 conv) (\<lambda>_.
       if limit < 1 \<or> 1000 < limit then Inl Bad_Window
       else bind_result (mem_list_events user conv s) (page_after cursor limit)))"

definition mem_claim_event ::
  "string \<Rightarrow> string \<Rightarrow> string \<Rightarrow> time \<Rightarrow> time \<Rightarrow> mem_events
   \<Rightarrow> (gw_error + (agent_event \<times> delivery) option) \<times> mem_events" where
  "mem_claim_event user conv worker now until s =
     (case bind_result (require_text 64 user) (\<lambda>u. bind_result (require_text 64 conv) (\<lambda>c.
             bind_result (lease_window worker now until) (\<lambda>w. Inr (u, c, w)))) of
        Inl er \<Rightarrow> (Inl er, s)
      | Inr (u, c, w) \<Rightarrow>
          (case in_order (filter (\<lambda>e. case map_of (me_delivery s) (u, ae_id e) of
                                       None \<Rightarrow> False | Some d \<Rightarrow> dl_status d \<noteq> Dl_Published) (mem_owned u c s)) of
             [] \<Rightarrow> (Inr None, s)
           | e # es \<Rightarrow>
               (case map_of (me_delivery s) (u, ae_id e) of
                  None \<Rightarrow> (Inr None, s)
                | Some d \<Rightarrow>
                    if \<not> claimable now d then (Inr None, s)
                    else (let d' = claimed_delivery w until d in
                          (Inr (Some (e, d')), s\<lparr>me_delivery := AList.update (u, ae_id e) d' (me_delivery s)\<rparr>)))))"

definition mem_complete_event ::
  "string \<Rightarrow> string \<Rightarrow> string \<Rightarrow> time \<Rightarrow> mem_events \<Rightarrow> (gw_error + agent_event option) \<times> mem_events" where
  "mem_complete_event user i worker tm s =
     (case bind_result (require_text 64 user) (\<lambda>u. bind_result (require_text 64 i) (\<lambda>k.
             bind_result (require_text 128 worker) (\<lambda>w. Inr (u, k, w)))) of
        Inl er \<Rightarrow> (Inl er, s)
      | Inr (u, k, w) \<Rightarrow>
          (case (map_of (me_events s) (u, k), map_of (me_delivery s) (u, k)) of
             (Some e, Some d) \<Rightarrow>
               if dl_status d = Dl_Published then (Inr (Some e), s)
               else if lease_lost w tm d then (Inl Record_Conflict, s)
               else (Inr (Some e), s\<lparr>me_delivery := AList.update (u, k)
                       (d\<lparr>dl_status := Dl_Published, dl_published := Some tm\<rparr>) (me_delivery s)\<rparr>)
           | _ \<Rightarrow> (Inr None, s)))"

section \<open>In SQL\<close>

text \<open>
  Rows in the order of \<^verbatim>\<open>outbox_id\<close>; the coordination rows map a conversation to the user
  that may number its events.
\<close>

record sql_event_row =
  er_user :: string
  er_event :: agent_event
  er_delivery :: delivery

record sql_events =
  se_other :: "(string \<times> string) list"
  se_rows :: "sql_event_row list"
  se_coord :: "(string, string) dict"

definition sql_authority :: "string \<Rightarrow> sql_events \<Rightarrow> string list" where
  "sql_authority conv s =
     map snd (filter (\<lambda>(c, u). c = conv) (se_other s)) @
     map er_user (filter (\<lambda>r. ae_conv (er_event r) = conv) (se_rows s))"

definition lock_event_sequence :: "string \<Rightarrow> string \<Rightarrow> sql_events \<Rightarrow> gw_error + sql_events" where
  "lock_event_sequence owner conv s =
     (case map_of (se_coord s) conv of
        Some u \<Rightarrow> if u \<noteq> owner then Inl Record_Conflict else Inr s
      | None \<Rightarrow>
          if list_ex (\<lambda>u. u \<noteq> owner) (sql_authority conv s) then Inl Record_Conflict
          else Inr (s\<lparr>se_coord := AList.update conv owner (se_coord s)\<rparr>))"

definition sql_last_row :: "string \<Rightarrow> sql_events \<Rightarrow> sql_event_row option" where
  "sql_last_row conv s =
     (let rows = sort_key (\<lambda>r. ae_seq (er_event r)) (filter (\<lambda>r. ae_conv (er_event r) = conv) (se_rows s))
      in if rows = [] then None else Some (last rows))"

definition sql_create_event :: "string \<Rightarrow> agent_event \<Rightarrow> sql_events \<Rightarrow> (gw_error + agent_event) \<times> sql_events" where
  "sql_create_event user e s =
     (case bind_result (require_text 64 user) (\<lambda>u. bind_result (normalize_event e) (\<lambda>n. Inr (u, n))) of
        Inl er \<Rightarrow> (Inl er, s)
      | Inr (owner, n) \<Rightarrow>
          (case lock_event_sequence owner (ae_conv n) s of
             Inl er \<Rightarrow> (Inl er, s)
           | Inr t \<Rightarrow>
               (let last_row = sql_last_row (ae_conv n) t in
                if (case last_row of None \<Rightarrow> False | Some r \<Rightarrow> er_user r \<noteq> owner) then (Inl Record_Conflict, s)
                else
                  (let expected = (case last_row of None \<Rightarrow> 1 | Some r \<Rightarrow> ae_seq (er_event r) + 1);
                       r = n\<lparr>ae_seq := expected\<rparr>
                   in if expected < ae_seq n then (Inl Record_Conflict, s)
                      else if list_ex (\<lambda>x. ae_id (er_event x) = ae_id r \<or>
                                ae_conv (er_event x) = ae_conv r \<and>
                                (ae_seq (er_event x) = ae_seq r \<or> ae_cursor (er_event x) = ae_cursor r)) (se_rows t)
                      then (Inl Record_Conflict, s)
                      else (Inr r, t\<lparr>se_rows := se_rows t @
                              [\<lparr>er_user = owner, er_event = r, er_delivery = fresh_delivery\<rparr>]\<rparr>)))))"

definition sql_get_event :: "string \<Rightarrow> string \<Rightarrow> sql_events \<Rightarrow> gw_error + agent_event option" where
  "sql_get_event user i s =
     bind_result (require_text 64 user) (\<lambda>u. bind_result (require_text 64 i) (\<lambda>k.
       Inr (map_option er_event (List.find (\<lambda>r. er_user r = u \<and> ae_id (er_event r) = k) (se_rows s)))))"

definition sql_owned :: "string \<Rightarrow> string \<Rightarrow> sql_events \<Rightarrow> sql_event_row list" where
  "sql_owned u c s = filter (\<lambda>r. er_user r = u \<and> ae_conv (er_event r) = c) (se_rows s)"

definition sql_list_events :: "string \<Rightarrow> string \<Rightarrow> sql_events \<Rightarrow> gw_error + agent_event list" where
  "sql_list_events user conv s =
     bind_result (require_text 64 user) (\<lambda>u. bind_result (require_text 64 conv) (\<lambda>c.
       Inr (in_order (map er_event (sql_owned u c s)))))"

definition sql_latest_event :: "string \<Rightarrow> string \<Rightarrow> sql_events \<Rightarrow> gw_error + agent_event option" where
  "sql_latest_event user conv s =
     bind_result (sql_list_events user conv s) (\<lambda>es. Inr (if es = [] then None else Some (last es)))"

definition sql_events_after :: "string \<Rightarrow> string \<Rightarrow> string option \<Rightarrow> nat \<Rightarrow> sql_events \<Rightarrow> gw_error + agent_event list option" where
  "sql_events_after user conv cursor limit s =
     bind_result (require_text 64 user) (\<lambda>_. bind_result (require_text 64 conv) (\<lambda>_.
       if limit < 1 \<or> 1000 < limit then Inl Bad_Window
       else bind_result (sql_list_events user conv s) (page_after cursor limit)))"

definition set_delivery :: "string \<Rightarrow> delivery \<Rightarrow> sql_events \<Rightarrow> sql_events" where
  "set_delivery i d s =
     s\<lparr>se_rows := map (\<lambda>r. if ae_id (er_event r) = i then r\<lparr>er_delivery := d\<rparr> else r) (se_rows s)\<rparr>"

definition sql_claim_event ::
  "string \<Rightarrow> string \<Rightarrow> string \<Rightarrow> time \<Rightarrow> time \<Rightarrow> sql_events
   \<Rightarrow> (gw_error + (agent_event \<times> delivery) option) \<times> sql_events" where
  "sql_claim_event user conv worker now until s =
     (case bind_result (require_text 64 user) (\<lambda>u. bind_result (require_text 64 conv) (\<lambda>c.
             bind_result (lease_window worker now until) (\<lambda>w. Inr (u, c, w)))) of
        Inl er \<Rightarrow> (Inl er, s)
      | Inr (u, c, w) \<Rightarrow>
          (case sort_key (\<lambda>r. (ae_seq (er_event r), ae_id (er_event r)))
                  (filter (\<lambda>r. dl_status (er_delivery r) \<noteq> Dl_Published) (sql_owned u c s)) of
             [] \<Rightarrow> (Inr None, s)
           | r # rs \<Rightarrow>
               if \<not> claimable now (er_delivery r) then (Inr None, s)
               else (let d' = claimed_delivery w until (er_delivery r) in
                     (Inr (Some (er_event r, d')), set_delivery (ae_id (er_event r)) d' s))))"

definition sql_complete_event ::
  "string \<Rightarrow> string \<Rightarrow> string \<Rightarrow> time \<Rightarrow> sql_events \<Rightarrow> (gw_error + agent_event option) \<times> sql_events" where
  "sql_complete_event user i worker tm s =
     (case bind_result (require_text 64 user) (\<lambda>u. bind_result (require_text 64 i) (\<lambda>k.
             bind_result (require_text 128 worker) (\<lambda>w. Inr (u, k, w)))) of
        Inl er \<Rightarrow> (Inl er, s)
      | Inr (u, k, w) \<Rightarrow>
          (case List.find (\<lambda>r. er_user r = u \<and> ae_id (er_event r) = k) (se_rows s) of
             None \<Rightarrow> (Inr None, s)
           | Some r \<Rightarrow>
               if dl_status (er_delivery r) = Dl_Published then (Inr (Some (er_event r)), s)
               else if lease_lost w tm (er_delivery r) then (Inl Record_Conflict, s)
               else (Inr (Some (er_event r)), set_delivery k
                       ((er_delivery r)\<lparr>dl_status := Dl_Published, dl_published := Some tm\<rparr>) s)))"

end
