(* ===== verification/Gateway_Outbox.thy ===== *)
theory Gateway_Outbox
  imports Gateway_Events
begin

text \<open>
  The abstract outbox: the list of the events of all conversations with their owners, in the order in
  which they were appended. Both repositories are interpreted as refinements of it (\<open>event_outbox\<close>);
  what the projector and the clients rely on is proved once, in the locale.
\<close>

section \<open>The abstract outbox\<close>

type_synonym outbox = "(string \<times> agent_event) list"

definition conversation :: "string \<Rightarrow> outbox \<Rightarrow> agent_event list" where
  "conversation c L = filter (\<lambda>e. ae_conv e = c) (map snd L)"

definition owned :: "string \<Rightarrow> string \<Rightarrow> outbox \<Rightarrow> agent_event list" where
  "owned u c L = map snd (filter (\<lambda>(o', e). o' = u \<and> ae_conv e = c) L)"

definition find_owned :: "string \<Rightarrow> string \<Rightarrow> outbox \<Rightarrow> agent_event option" where
  "find_owned u i L = map_option snd (List.find (\<lambda>(o', e). o' = u \<and> ae_id e = i) L)"

definition place :: "(string \<times> string) list \<Rightarrow> string \<Rightarrow> agent_event \<Rightarrow> outbox \<Rightarrow> gw_error + agent_event" where
  "place other owner n L =
     (let k = length (conversation (ae_conv n) L) + 1; r = n\<lparr>ae_seq := k\<rparr> in
      if list_ex (\<lambda>(c, u). c = ae_conv n \<and> u \<noteq> owner) other \<or>
         list_ex (\<lambda>(u, e). ae_conv e = ae_conv n \<and> u \<noteq> owner) L \<or> k < ae_seq n \<or>
         list_ex (\<lambda>(u, e). ae_id e = ae_id n \<or> ae_conv e = ae_conv n \<and> ae_cursor e = ae_cursor n) L
      then Inl Record_Conflict else Inr r)"

definition checked_event :: "string \<Rightarrow> agent_event \<Rightarrow> gw_error + string \<times> agent_event" where
  "checked_event user e = bind_result (require_text 64 user) (\<lambda>u. bind_result (normalize_event e) (\<lambda>n. Inr (u, n)))"

definition outbox_create ::
  "(string \<times> string) list \<Rightarrow> string \<Rightarrow> agent_event \<Rightarrow> outbox \<Rightarrow> (gw_error + agent_event) \<times> outbox" where
  "outbox_create other user e L =
     (case checked_event user e of
        Inl er \<Rightarrow> (Inl er, L)
      | Inr (owner, n) \<Rightarrow>
          (case place other owner n L of Inl er \<Rightarrow> (Inl er, L) | Inr r \<Rightarrow> (Inr r, L @ [(owner, r)])))"

definition outbox_ok :: "outbox \<Rightarrow> bool" where
  "outbox_ok L =
     (distinct (map (\<lambda>(u, e). ae_id e) L) \<and>
      (\<forall>c. map ae_seq (conversation c L) = [1..<Suc (length (conversation c L))]) \<and>
      (\<forall>u e v f. (u, e) \<in> set L \<longrightarrow> (v, f) \<in> set L \<longrightarrow> ae_conv e = ae_conv f \<longrightarrow> u = v))"

lemma conversation_append [simp]: "conversation c (L @ M) = conversation c L @ conversation c M"
  by (simp add: conversation_def)

lemma outbox_ok_Nil [simp]: "outbox_ok []"
  by (simp add: outbox_ok_def conversation_def)

lemma place_ok:
  assumes "outbox_ok L" and "place other owner n L = Inr r"
  shows "outbox_ok (L @ [(owner, r)])" and "r = n\<lparr>ae_seq := length (conversation (ae_conv n) L) + 1\<rparr>"
proof -
  show r: "r = n\<lparr>ae_seq := length (conversation (ae_conv n) L) + 1\<rparr>"
    using assms(2) by (auto simp: place_def Let_def split: if_splits)
  have free: "\<And>u e. (u, e) \<in> set L \<Longrightarrow> ae_id e \<noteq> ae_id n \<and> (ae_conv e = ae_conv n \<longrightarrow> u = owner)"
    using assms(2) by (fastforce simp: place_def Let_def list_ex_iff split: if_splits)
  have "map ae_seq (conversation c (L @ [(owner, r)])) = [1..<Suc (length (conversation c (L @ [(owner, r)])))]" for c
    using assms(1) r by (auto simp: outbox_ok_def conversation_def)
  moreover have "distinct (map (\<lambda>(u, e). ae_id e) (L @ [(owner, r)]))"
    using assms(1) r free by (fastforce simp: outbox_ok_def)
  moreover have "u = v" if "(u, e) \<in> set (L @ [(owner, r)])" "(v, f) \<in> set (L @ [(owner, r)])" "ae_conv e = ae_conv f" for u e v f
    using assms(1) r free that unfolding outbox_ok_def by (auto dest: free)
  ultimately show "outbox_ok (L @ [(owner, r)])" unfolding outbox_ok_def by blast
qed

lemma outbox_create_ok: "outbox_ok L \<Longrightarrow> outbox_ok (snd (outbox_create other user e L))"
  by (auto simp: outbox_create_def place_ok split: sum.split prod.split)

lemma outbox_create_extends: "\<exists>M. snd (outbox_create other u e L) = L @ M"
proof (cases "snd (outbox_create other u e L) = L")
  case False
  then show ?thesis by (auto simp: outbox_create_def split: sum.splits prod.splits)
qed simp

lemma owned_sorted:
  assumes "outbox_ok L"
  shows "in_order (owned u c L) = owned u c L"
proof -
  have all: "filter (\<lambda>e. True) (owned u c L) = owned u c L" by simp
  have "sorted_wrt (<) (map ae_seq (conversation c L))"
    using assms unfolding outbox_ok_def by (metis sorted_wrt_upt)
  then have w: "sorted_wrt (\<lambda>e f. ae_seq e < ae_seq f) (map snd (filter (\<lambda>p. ae_conv (snd p) = c) L))"
    by (simp add: conversation_def filter_map sorted_wrt_map o_def)
  have "owned u c L = map snd (filter (\<lambda>p. fst p = u) (filter (\<lambda>p. ae_conv (snd p) = c) L))"
    by (simp add: owned_def case_prod_unfold conj_commute)
  then have "sorted_wrt (\<lambda>e f. ae_seq e < ae_seq f) (owned u c L)"
    using sorted_wrt_filter [OF w [unfolded sorted_wrt_map], of "\<lambda>p. fst p = u"]
    by (simp only: sorted_wrt_map)
  then have "sorted_wrt (\<lambda>e f. (ae_seq e, ae_id e) \<le> (ae_seq f, ae_id f)) (owned u c L)"
    by (rule sorted_wrt_mono_rel [rotated]) auto
  then have "sorted (map (\<lambda>e. (ae_seq e, ae_id e)) (owned u c L))" by (simp add: sorted_map)
  then show ?thesis unfolding in_order_def by (rule sort_key_id_if_sorted)
qed

section \<open>The interface\<close>

locale event_outbox =
  fixes create :: "string \<Rightarrow> agent_event \<Rightarrow> 's \<Rightarrow> (gw_error + agent_event) \<times> 's"
    and get :: "string \<Rightarrow> string \<Rightarrow> 's \<Rightarrow> gw_error + agent_event option"
    and listing :: "string \<Rightarrow> string \<Rightarrow> 's \<Rightarrow> gw_error + agent_event list"
    and okay :: "'s \<Rightarrow> bool"
    and view :: "'s \<Rightarrow> outbox"
    and other :: "'s \<Rightarrow> (string \<times> string) list"
  assumes view_ok: "okay s \<Longrightarrow> outbox_ok (view s)"
    and create_okay: "okay s \<Longrightarrow> okay (snd (create u e s))"
    and create_other: "other (snd (create u e s)) = other s"
    and create_refines: "okay s \<Longrightarrow>
      outbox_create (other s) u e (view s) = (fst (create u e s), view (snd (create u e s)))"
    and get_refines: "okay s \<Longrightarrow> get u i s =
      bind_result (require_text 64 u) (\<lambda>o'. bind_result (require_text 64 i) (\<lambda>k. Inr (find_owned o' k (view s))))"
    and listing_refines: "okay s \<Longrightarrow> listing u c s =
      bind_result (require_text 64 u) (\<lambda>o'. bind_result (require_text 64 c) (\<lambda>v. Inr (owned o' v (view s))))"
begin

fun create_all :: "'s \<Rightarrow> (string \<times> agent_event) list \<Rightarrow> (gw_error + agent_event) list \<times> 's" where
  "create_all s [] = ([], s)"
| "create_all s ((u, e) # cs) =
     (let (r, t) = create u e s; (rs, t') = create_all t cs in (r # rs, t'))"

lemma create_appends:
  assumes "okay s"
  shows "\<exists>M. view (snd (create u e s)) = view s @ M"
proof -
  have "view (snd (create u e s)) = snd (outbox_create (other s) u e (view s))"
    using create_refines [OF assms, of u e] by simp
  then show ?thesis using outbox_create_extends by metis
qed

lemma session_okay: "okay s \<Longrightarrow> okay (snd (create_all s cs))"
proof (induction cs arbitrary: s)
  case (Cons c cs)
  obtain u e where c: "c = (u, e)" by (cases c)
  have "okay (snd (create u e s))" using Cons.prems by (rule create_okay)
  then show ?case using Cons.IH c by (simp add: split_beta Let_def)
qed simp

text \<open>The abstract machine predicts every answer and the final outbox.\<close>

lemma session_refines:
  "okay s \<Longrightarrow>
   (fst (create_all s cs), view (snd (create_all s cs))) =
   foldl (\<lambda>(rs, L) (u, e). (rs @ [fst (outbox_create (other s) u e L)], snd (outbox_create (other s) u e L)))
     ([], view s) cs"
proof -
  let ?f = "\<lambda>ot (rs, L) (u, e). (rs @ [fst (outbox_create ot u e L)], snd (outbox_create ot u e L))"
  have "okay s \<Longrightarrow> foldl (?f (other s)) (pre, view s) cs = (pre @ fst (create_all s cs), view (snd (create_all s cs)))"
    for pre s
  proof (induction cs arbitrary: s pre)
    case (Cons c cs)
    obtain u e where c: "c = (u, e)" by (cases c)
    obtain r t where t: "create u e s = (r, t)" by fastforce
    have "okay t" "other t = other s" using create_okay [OF Cons.prems, of u e] create_other [of u e s] t by simp_all
    moreover have "outbox_create (other s) u e (view s) = (r, view t)" using create_refines [OF Cons.prems, of u e] t by simp
    ultimately show ?case using Cons.IH [of t "pre @ [r]"] c t by (simp add: split_beta Let_def)
  qed simp
  then show "okay s \<Longrightarrow> ?thesis" by simp
qed

text \<open>A client that reads a conversation sees consecutive numbers from 1 on, or nothing of it.\<close>

lemma listing_dense:
  assumes "okay s" and "listing u c s = Inr es"
  shows "es = [] \<or> map ae_seq es = [1..<Suc (length es)]"
proof -
  obtain o' v where es: "es = owned o' v (view s)"
    using assms(2) unfolding listing_refines [OF assms(1)]
    by (cases "require_text 64 u"; cases "require_text 64 c") auto
  have ok: "outbox_ok (view s)" using assms(1) by (rule view_ok)
  show ?thesis
  proof (cases "es = []")
    case False
    then obtain e where e: "(o', e) \<in> set (view s)" "ae_conv e = v" unfolding es owned_def by (auto simp: filter_empty_conv)
    have same: "(u', f) \<in> set (view s) \<Longrightarrow> ae_conv f = v \<Longrightarrow> u' = o'" for u' f
      using ok e unfolding outbox_ok_def by blast
    have "filter (\<lambda>(u', f). u' = o' \<and> ae_conv f = v) (view s) = filter (\<lambda>p. ae_conv (snd p) = v) (view s)"
      by (rule filter_cong [OF refl]) (auto dest: same)
    then have "es = conversation v (view s)"
      by (simp add: es owned_def conversation_def filter_map o_def)
    then show ?thesis using ok unfolding outbox_ok_def by simp
  qed simp
qed

end

section \<open>The in-memory repository\<close>

definition mem_view :: "mem_events \<Rightarrow> outbox" where
  "mem_view s = map (\<lambda>((u, i), e). (u, e)) (me_events s)"

definition mem_ok :: "mem_events \<Rightarrow> bool" where
  "mem_ok s =
     (outbox_ok (mem_view s) \<and>
      list_all (\<lambda>((u, i), e). i = ae_id e) (me_events s) \<and>
      me_ids s = map (\<lambda>(k, e). ae_id e) (me_events s) \<and>
      me_seqs s = map (\<lambda>(k, e). (ae_conv e, ae_seq e)) (me_events s) \<and>
      me_cursors s = map (\<lambda>(k, e). (ae_conv e, ae_cursor e)) (me_events s) \<and>
      map fst (me_delivery s) = map fst (me_events s))"

lemma fold_max_numbers: "fold max [1..<Suc n] (0::nat) = n"
  by (induction n) auto

lemma mem_conversation_view: "mem_conversation c s = conversation c (mem_view s)"
  by (simp add: mem_conversation_def conversation_def mem_view_def o_def case_prod_unfold)

lemma next_number:
  assumes "outbox_ok L"
  shows "(case conversation c L of [] \<Rightarrow> 1 | es \<Rightarrow> fold max (map ae_seq es) 0 + 1) = length (conversation c L) + 1"
proof -
  have m: "map ae_seq (conversation c L) = [1..<Suc (length (conversation c L))]"
    using assms unfolding outbox_ok_def by blast
  have "fold max (map ae_seq (conversation c L)) 0 = length (conversation c L)"
    unfolding m by (rule fold_max_numbers)
  then show ?thesis by (cases "conversation c L") simp_all
qed

lemma number_taken:
  assumes "outbox_ok L" and "(u, e) \<in> set L" and "ae_conv e = c"
  shows "ae_seq e < Suc (length (conversation c L))"
proof -
  have "e \<in> set (conversation c L)" using assms(2,3) by (force simp: conversation_def)
  then have "ae_seq e \<in> set (map ae_seq (conversation c L))" by simp
  moreover have "map ae_seq (conversation c L) = [1..<Suc (length (conversation c L))]"
    using assms(1) unfolding outbox_ok_def by blast
  ultimately show ?thesis by (simp only: set_upt atLeastLessThan_iff)
qed

lemma list_ex_collect: "list_ex P (filter Q xs) = list_ex (\<lambda>x. Q x \<and> P x) xs"
  by (induction xs) auto

lemma list_ex_of_map: "list_ex P (map f xs) = list_ex (\<lambda>x. P (f x)) xs"
  by (induction xs) auto

lemma in_map_list_ex: "x \<in> set (map f xs) \<longleftrightarrow> list_ex (\<lambda>y. f y = x) xs"
  by (induction xs) auto

lemma list_ex_disj: "list_ex (\<lambda>x. P x \<or> Q x) xs \<longleftrightarrow> list_ex P xs \<or> list_ex Q xs"
  by (induction xs) auto

lemma mem_authority_view:
  "list_ex P (mem_authority c s) \<longleftrightarrow>
   list_ex (\<lambda>(v, u). v = c \<and> P u) (me_other s) \<or> list_ex (\<lambda>(u, e). ae_conv e = c \<and> P u) (mem_view s)"
  by (simp add: mem_authority_def mem_view_def list_ex_collect list_ex_of_map case_prod_unfold)

lemma mem_taken:
  assumes "mem_ok s"
  shows "ae_id n \<in> set (me_ids s) \<or> (ae_conv n, Suc (length (conversation (ae_conv n) (mem_view s)))) \<in> set (me_seqs s) \<or>
      (ae_conv n, ae_cursor n) \<in> set (me_cursors s)
   \<longleftrightarrow> list_ex (\<lambda>(u, e). ae_id e = ae_id n \<or> ae_conv e = ae_conv n \<and> ae_cursor e = ae_cursor n) (mem_view s)"
proof -
  have "(ae_conv n, Suc (length (conversation (ae_conv n) (mem_view s)))) \<notin> set (me_seqs s)"
  proof
    assume "(ae_conv n, Suc (length (conversation (ae_conv n) (mem_view s)))) \<in> set (me_seqs s)"
    then obtain u e where e: "(u, e) \<in> set (mem_view s)" "ae_conv e = ae_conv n"
      "ae_seq e = Suc (length (conversation (ae_conv n) (mem_view s)))"
      using assms by (force simp: mem_ok_def mem_view_def)
    have "outbox_ok (mem_view s)" using assms by (simp add: mem_ok_def)
    from number_taken [OF this e(1,2)] e(3) show False by simp
  qed
  moreover have "ae_id n \<in> set (me_ids s) \<longleftrightarrow> list_ex (\<lambda>(u, e). ae_id e = ae_id n) (mem_view s)"
    using assms unfolding mem_ok_def mem_view_def
    by (simp only: in_map_list_ex list_ex_of_map case_prod_unfold fst_conv snd_conv prod.inject)
  moreover have "(ae_conv n, ae_cursor n) \<in> set (me_cursors s) \<longleftrightarrow>
      list_ex (\<lambda>(u, e). ae_conv e = ae_conv n \<and> ae_cursor e = ae_cursor n) (mem_view s)"
    using assms unfolding mem_ok_def mem_view_def
    by (simp only: in_map_list_ex list_ex_of_map case_prod_unfold fst_conv snd_conv prod.inject)
  ultimately show ?thesis by (simp add: list_ex_disj case_prod_unfold)
qed

lemma mem_create_place:
  assumes "mem_ok s" and "checked_event user e = Inr (owner, n)"
  shows "fst (mem_create_event user e s) = place (me_other s) owner n (mem_view s)"
  using assms(1) mem_taken [OF assms(1), of n] next_number [of "mem_view s" "ae_conv n"] assms(2)
  by (simp add: mem_create_event_def checked_event_def [symmetric] place_def Let_def mem_authority_view mem_conversation_view mem_ok_def)

lemma update_new: "k \<notin> set (map fst m) \<Longrightarrow> AList.update k v m = m @ [(k, v)]"
  by (induction m) auto

lemma mem_create_state:
  assumes "mem_ok s" and "checked_event user e = Inr (owner, n)" and "fst (mem_create_event user e s) = Inr r"
  shows "snd (mem_create_event user e s) =
      s\<lparr>me_ids := me_ids s @ [ae_id r], me_seqs := me_seqs s @ [(ae_conv r, ae_seq r)],
        me_cursors := me_cursors s @ [(ae_conv r, ae_cursor r)],
        me_events := me_events s @ [((owner, ae_id r), r)],
        me_delivery := me_delivery s @ [((owner, ae_id r), fresh_delivery)]\<rparr>"
proof -
  have upd: "snd (mem_create_event user e s) =
      s\<lparr>me_ids := me_ids s @ [ae_id r], me_seqs := me_seqs s @ [(ae_conv r, ae_seq r)],
        me_cursors := me_cursors s @ [(ae_conv r, ae_cursor r)],
        me_events := AList.update (owner, ae_id r) r (me_events s),
        me_delivery := AList.update (owner, ae_id r) fresh_delivery (me_delivery s)\<rparr>"
    and id: "ae_id r \<notin> set (me_ids s)"
    using assms(2,3) by (auto simp: mem_create_event_def checked_event_def [symmetric] Let_def split: if_splits)
  have "(owner, ae_id r) \<notin> set (map fst (me_events s))"
    using id assms(1) by (fastforce simp: mem_ok_def list_all_iff)
  then show ?thesis using upd assms(1) by (simp add: update_new mem_ok_def)
qed

lemma mem_create_error: "fst (mem_create_event user e s) = Inl er \<Longrightarrow> snd (mem_create_event user e s) = s"
  by (auto simp: mem_create_event_def Let_def split: sum.splits if_splits)

lemma mem_create_invalid:
  "checked_event user e = Inl er \<Longrightarrow> mem_create_event user e s = (Inl er, s)"
  by (simp add: mem_create_event_def checked_event_def [symmetric])

lemma place_record:
  "place other owner n L = Inr r \<Longrightarrow> r = n\<lparr>ae_seq := length (conversation (ae_conv n) L) + 1\<rparr>"
  by (auto simp: place_def Let_def split: if_splits)

lemma mem_create_refines:
  assumes "mem_ok s"
  shows "outbox_create (me_other s) user e (mem_view s) =
      (fst (mem_create_event user e s), mem_view (snd (mem_create_event user e s)))"
proof (cases "checked_event user e")
  case (Inl er)
  then show ?thesis by (simp add: outbox_create_def mem_create_invalid)
next
  case (Inr p)
  obtain owner n where n: "checked_event user e = Inr (owner, n)" using Inr by (cases p) simp
  note place = mem_create_place [OF assms n]
  show ?thesis
  proof (cases "fst (mem_create_event user e s)")
    case (Inl er)
    then show ?thesis using n place by (simp add: outbox_create_def mem_create_error)
  next
    case (Inr r)
    then show ?thesis using n place mem_create_state [OF assms n Inr] by (simp add: outbox_create_def mem_view_def)
  qed
qed

lemma mem_create_ok:
  assumes "mem_ok s"
  shows "mem_ok (snd (mem_create_event user e s))"
proof (cases "fst (mem_create_event user e s)")
  case (Inl er)
  then show ?thesis using assms by (simp add: mem_create_error)
next
  case (Inr r)
  obtain owner n where n: "checked_event user e = Inr (owner, n)"
    using Inr mem_create_invalid [of user e _ s] by (cases "checked_event user e") auto
  have "outbox_ok (mem_view (snd (mem_create_event user e s)))"
    using mem_create_refines [OF assms, of user e] outbox_create_ok [of "mem_view s" "me_other s" user e] assms
    by (simp add: mem_ok_def)
  then show ?thesis using mem_create_state [OF assms n Inr] assms by (simp add: mem_ok_def)
qed

lemma mem_find:
  assumes "list_all (\<lambda>((u, i), e). i = ae_id e) m"
  shows "map_of m (u, k) = find_owned u k (map (\<lambda>((u, i), e). (u, e)) m)"
  using assms by (induction m) (auto simp: find_owned_def)

lemma mem_owned_view: "mem_owned u c s = owned u c (mem_view s)"
  by (simp add: mem_owned_def owned_def mem_view_def filter_map o_def case_prod_unfold)

lemma mem_get_refines:
  "mem_ok s \<Longrightarrow> mem_get_event u i s =
     bind_result (require_text 64 u) (\<lambda>o'. bind_result (require_text 64 i) (\<lambda>k. Inr (find_owned o' k (mem_view s))))"
  by (simp add: mem_get_event_def mem_find mem_ok_def mem_view_def)

lemma mem_list_refines:
  "mem_ok s \<Longrightarrow> mem_list_events u c s =
     bind_result (require_text 64 u) (\<lambda>o'. bind_result (require_text 64 c) (\<lambda>v. Inr (owned o' v (mem_view s))))"
  by (simp add: mem_list_events_def mem_owned_view owned_sorted mem_ok_def)

lemma mem_create_other: "me_other (snd (mem_create_event user e s)) = me_other s"
  by (auto simp: mem_create_event_def Let_def split: sum.split prod.split)

interpretation mem_outbox: event_outbox mem_create_event mem_get_event mem_list_events mem_ok mem_view me_other
  by unfold_locales
    (simp_all add: mem_create_ok mem_create_other mem_create_refines mem_get_refines mem_list_refines mem_ok_def [THEN iffD1])

section \<open>The SQL repository\<close>

definition sql_view :: "sql_events \<Rightarrow> outbox" where
  "sql_view s = map (\<lambda>r. (er_user r, er_event r)) (se_rows s)"

text \<open>A coordination row names the owner of a conversation that has events, and nobody else owns it.\<close>

definition sql_ok :: "sql_events \<Rightarrow> bool" where
  "sql_ok s =
     (outbox_ok (sql_view s) \<and>
      (\<forall>c u. map_of (se_coord s) c = Some u \<longrightarrow>
         list_ex (\<lambda>p. ae_conv (snd p) = c) (sql_view s) \<and> \<not> list_ex (\<lambda>v. v \<noteq> u) (sql_authority c s)))"

lemma sql_authority_view:
  "list_ex P (sql_authority c s) \<longleftrightarrow>
   list_ex (\<lambda>(v, u). v = c \<and> P u) (se_other s) \<or> list_ex (\<lambda>(u, e). ae_conv e = c \<and> P u) (sql_view s)"
  by (simp add: sql_authority_def sql_view_def list_ex_collect list_ex_of_map case_prod_unfold)

text \<open>Taking the coordination row answers the question of the in-memory repository.\<close>

lemma lock_answers:
  assumes "sql_ok s"
  shows "(\<exists>er. lock_event_sequence owner c s = Inl er) \<longleftrightarrow> list_ex (\<lambda>u. u \<noteq> owner) (sql_authority c s)"
proof (cases "map_of (se_coord s) c")
  case (Some u)
  have a: "list_ex (\<lambda>p. ae_conv (snd p) = c) (sql_view s)" "\<not> list_ex (\<lambda>v. v \<noteq> u) (sql_authority c s)"
    using assms Some unfolding sql_ok_def by blast+
  have "list_ex (\<lambda>v. True) (sql_authority c s)"
    unfolding sql_authority_view using a(1) by (auto simp: list_ex_iff case_prod_unfold)
  then have "list_ex (\<lambda>v. v = u) (sql_authority c s)"
    using a(2) unfolding list_ex_iff by blast
  then have "u \<noteq> owner \<Longrightarrow> list_ex (\<lambda>v. v \<noteq> owner) (sql_authority c s)"
    unfolding list_ex_iff by blast
  then show ?thesis using Some a(2) by (cases "u = owner") (simp_all add: lock_event_sequence_def)
qed (auto simp: lock_event_sequence_def)

lemma lock_error: "lock_event_sequence owner c s = Inl er \<Longrightarrow> er = Record_Conflict"
  by (auto simp: lock_event_sequence_def split: option.splits if_splits)

lemma lock_state:
  "lock_event_sequence owner c s = Inr t \<Longrightarrow>
   se_rows t = se_rows s \<and> se_other t = se_other s \<and> map_of (se_coord t) = (map_of (se_coord s))(c \<mapsto> owner)"
  by (auto simp: lock_event_sequence_def update_conv' fun_upd_idem split: option.splits if_splits)

lemma sql_last_view:
  assumes "outbox_ok (sql_view s)"
  shows "map_option er_event (sql_last_row c s) =
      (if conversation c (sql_view s) = [] then None else Some (last (conversation c (sql_view s))))"
proof -
  let ?rows = "filter (\<lambda>r. ae_conv (er_event r) = c) (se_rows s)"
  have c: "conversation c (sql_view s) = map er_event ?rows"
    by (simp add: conversation_def sql_view_def o_def filter_map)
  have "map ae_seq (conversation c (sql_view s)) = [1..<Suc (length (conversation c (sql_view s)))]"
    using assms unfolding outbox_ok_def by blast
  then have m: "map (\<lambda>r. ae_seq (er_event r)) ?rows = [1..<Suc (length ?rows)]"
    by (simp only: c map_map o_def length_map)
  have "sorted (map (\<lambda>r. ae_seq (er_event r)) ?rows)" unfolding m by (rule sorted_upt)
  then have "sort_key (\<lambda>r. ae_seq (er_event r)) ?rows = ?rows" by (rule sort_key_id_if_sorted)
  then show ?thesis by (simp add: sql_last_row_def Let_def c last_map)
qed

lemma sql_last_owner: "sql_last_row c s = Some r \<Longrightarrow> er_user r \<in> set (sql_authority c s)"
proof -
  assume "sql_last_row c s = Some r"
  then have ne: "sort_key (\<lambda>r. ae_seq (er_event r)) (filter (\<lambda>r. ae_conv (er_event r) = c) (se_rows s)) \<noteq> []"
    and r: "r = last (sort_key (\<lambda>r. ae_seq (er_event r)) (filter (\<lambda>r. ae_conv (er_event r) = c) (se_rows s)))"
    by (auto simp: sql_last_row_def Let_def split: if_splits)
  have "r \<in> set (filter (\<lambda>r. ae_conv (er_event r) = c) (se_rows s))"
    using last_in_set [OF ne] unfolding r set_sort .
  then show ?thesis by (auto simp: sql_authority_def)
qed

lemma last_number:
  assumes "outbox_ok L"
  shows "(case (if conversation c L = [] then None else Some (last (conversation c L))) of
      None \<Rightarrow> 1 | Some e \<Rightarrow> ae_seq e + 1) = length (conversation c L) + 1"
proof (cases "conversation c L = []")
  case False
  have m: "map ae_seq (conversation c L) = [1..<Suc (length (conversation c L))]"
    using assms unfolding outbox_ok_def by blast
  have "ae_seq (last (conversation c L)) = last (map ae_seq (conversation c L))" using False by (simp add: last_map)
  also have "\<dots> = length (conversation c L)" unfolding m using False by (simp add: Suc_le_eq)
  finally show ?thesis using False by simp
qed simp

lemma sql_create_invalid: "checked_event user e = Inl er \<Longrightarrow> sql_create_event user e s = (Inl er, s)"
  by (simp add: sql_create_event_def checked_event_def [symmetric])

lemma sql_taken:
  assumes "outbox_ok (sql_view s)"
  shows "list_ex (\<lambda>x. ae_id (er_event x) = ae_id n \<or> ae_conv (er_event x) = ae_conv n \<and>
      (ae_seq (er_event x) = Suc (length (conversation (ae_conv n) (sql_view s))) \<or> ae_cursor (er_event x) = ae_cursor n)) (se_rows s)
   \<longleftrightarrow> list_ex (\<lambda>(u, e). ae_id e = ae_id n \<or> ae_conv e = ae_conv n \<and> ae_cursor e = ae_cursor n) (sql_view s)"
proof -
  have "ae_seq (er_event x) < Suc (length (conversation (ae_conv n) (sql_view s)))"
    if "x \<in> set (se_rows s)" "ae_conv (er_event x) = ae_conv n" for x
    using number_taken [OF assms, of "er_user x" "er_event x" "ae_conv n"] that by (force simp: sql_view_def)
  then show ?thesis unfolding list_ex_iff sql_view_def by fastforce
qed

lemma sql_create_place:
  assumes "sql_ok s" and "checked_event user e = Inr (owner, n)"
  shows "fst (sql_create_event user e s) = place (se_other s) owner n (sql_view s)"
proof (cases "lock_event_sequence owner (ae_conv n) s")
  case (Inl er)
  then have "list_ex (\<lambda>u. u \<noteq> owner) (sql_authority (ae_conv n) s)" using lock_answers [OF assms(1)] by blast
  then show ?thesis using Inl lock_error [OF Inl] assms(2)
    unfolding sql_authority_view
    by (auto simp: sql_create_event_def checked_event_def [symmetric] place_def Let_def)
next
  case (Inr t)
  have free: "\<not> list_ex (\<lambda>u. u \<noteq> owner) (sql_authority (ae_conv n) s)"
    using lock_answers [OF assms(1), of owner "ae_conv n"] Inr by auto
  have t: "se_rows t = se_rows s" "se_other t = se_other s" "sql_view t = sql_view s"
    using lock_state [OF Inr] by (simp_all add: sql_view_def)
  have auth: "sql_authority (ae_conv n) t = sql_authority (ae_conv n) s" by (simp add: sql_authority_def t)
  have ok: "outbox_ok (sql_view s)" using assms(1) unfolding sql_ok_def by blast
  have own: "\<not> (case sql_last_row (ae_conv n) t of None \<Rightarrow> False | Some r \<Rightarrow> er_user r \<noteq> owner)"
    using free sql_last_owner [of "ae_conv n" t] auth by (auto simp: list_ex_iff split: option.split)
  have "(case sql_last_row (ae_conv n) t of None \<Rightarrow> 1 | Some r \<Rightarrow> ae_seq (er_event r) + 1) =
      (case map_option er_event (sql_last_row (ae_conv n) t) of None \<Rightarrow> 1 | Some e \<Rightarrow> ae_seq e + 1)"
    by (cases "sql_last_row (ae_conv n) t") simp_all
  also have "\<dots> = length (conversation (ae_conv n) (sql_view s)) + 1"
    unfolding sql_last_view [OF ok [folded t(3)]] t(3) by (rule last_number [OF ok])
  finally have num: "(case sql_last_row (ae_conv n) t of None \<Rightarrow> 1 | Some r \<Rightarrow> ae_seq (er_event r) + 1) =
      length (conversation (ae_conv n) (sql_view s)) + 1" .
  show ?thesis
    using free own num sql_taken [OF ok, of n] assms(2) Inr
    unfolding sql_authority_view
    by (simp add: sql_create_event_def checked_event_def [symmetric] place_def Let_def t)
qed

lemma sql_create_error: "fst (sql_create_event user e s) = Inl er \<Longrightarrow> snd (sql_create_event user e s) = s"
  by (auto simp: sql_create_event_def Let_def split: sum.splits if_splits)

lemma sql_create_state:
  assumes "checked_event user e = Inr (owner, n)" and "fst (sql_create_event user e s) = Inr r"
  shows "se_rows (snd (sql_create_event user e s)) = se_rows s @ [\<lparr>er_user = owner, er_event = r, er_delivery = fresh_delivery\<rparr>]"
    and "se_other (snd (sql_create_event user e s)) = se_other s"
    and "map_of (se_coord (snd (sql_create_event user e s))) = (map_of (se_coord s))(ae_conv n \<mapsto> owner)"
    and "\<not> list_ex (\<lambda>u. u \<noteq> owner) (sql_authority (ae_conv n) s) \<or> map_of (se_coord s) (ae_conv n) = Some owner"
    and "ae_conv r = ae_conv n"
  using assms
  by (auto simp: sql_create_event_def checked_event_def [symmetric] Let_def lock_event_sequence_def update_conv'
      fun_upd_idem split: if_splits option.splits)

lemma sql_create_refines:
  assumes "sql_ok s"
  shows "outbox_create (se_other s) user e (sql_view s) =
      (fst (sql_create_event user e s), sql_view (snd (sql_create_event user e s)))"
proof (cases "checked_event user e")
  case (Inl er)
  then show ?thesis by (simp add: outbox_create_def sql_create_invalid)
next
  case (Inr p)
  obtain owner n where n: "checked_event user e = Inr (owner, n)" using Inr by (cases p) simp
  note place = sql_create_place [OF assms n]
  show ?thesis
  proof (cases "fst (sql_create_event user e s)")
    case (Inl er)
    then show ?thesis using n place by (simp add: outbox_create_def sql_create_error)
  next
    case (Inr r)
    then show ?thesis using n place sql_create_state [OF n Inr] by (simp add: outbox_create_def sql_view_def)
  qed
qed

lemma sql_create_ok:
  assumes "sql_ok s"
  shows "sql_ok (snd (sql_create_event user e s))"
proof (cases "fst (sql_create_event user e s)")
  case (Inl er)
  then show ?thesis using assms by (simp add: sql_create_error)
next
  case (Inr r)
  obtain owner n where n: "checked_event user e = Inr (owner, n)"
    using Inr sql_create_invalid [of user e _ s] by (cases "checked_event user e") auto
  let ?t = "snd (sql_create_event user e s)"
  note t = sql_create_state [OF n Inr]
  have "\<not> list_ex (\<lambda>u. u \<noteq> owner) (sql_authority (ae_conv n) s)"
    using t(4) assms unfolding sql_ok_def by blast
  moreover have "outbox_ok (sql_view ?t)"
    using sql_create_refines [OF assms, of user e] outbox_create_ok [of "sql_view s" "se_other s" user e] assms
    by (simp add: sql_ok_def)
  moreover have "list_ex P (sql_authority c ?t) \<longleftrightarrow> list_ex P (sql_authority c s) \<or> c = ae_conv n \<and> P owner" for P c
    unfolding sql_authority_view using t by (auto simp: sql_view_def)
  moreover have "list_ex (\<lambda>p. ae_conv (snd p) = c) (sql_view ?t) \<longleftrightarrow>
      list_ex (\<lambda>p. ae_conv (snd p) = c) (sql_view s) \<or> c = ae_conv n" for c
    using t by (auto simp: sql_view_def)
  ultimately show ?thesis using assms t(3) by (simp add: sql_ok_def)
qed

lemma sql_find: "map_option er_event (List.find (\<lambda>r. er_user r = u \<and> ae_id (er_event r) = k) rows) =
    find_owned u k (map (\<lambda>r. (er_user r, er_event r)) rows)"
  by (induction rows) (auto simp: find_owned_def)

lemma sql_owned_view: "map er_event (sql_owned u c s) = owned u c (sql_view s)"
  by (simp add: sql_owned_def owned_def sql_view_def filter_map o_def case_prod_unfold)

lemma sql_get_refines:
  "sql_get_event u i s =
     bind_result (require_text 64 u) (\<lambda>o'. bind_result (require_text 64 i) (\<lambda>k. Inr (find_owned o' k (sql_view s))))"
  by (simp add: sql_get_event_def sql_find sql_view_def)

lemma sql_list_refines:
  "sql_ok s \<Longrightarrow> sql_list_events u c s =
     bind_result (require_text 64 u) (\<lambda>o'. bind_result (require_text 64 c) (\<lambda>v. Inr (owned o' v (sql_view s))))"
  by (simp add: sql_list_events_def sql_owned_view owned_sorted sql_ok_def)

lemma sql_create_other: "se_other (snd (sql_create_event user e s)) = se_other s"
proof (cases "fst (sql_create_event user e s)")
  case (Inr r)
  obtain owner n where n: "checked_event user e = Inr (owner, n)"
    using Inr sql_create_invalid [of user e _ s] by (cases "checked_event user e") auto
  from sql_create_state(2) [OF n Inr] show ?thesis .
qed (simp add: sql_create_error)

interpretation sql_outbox: event_outbox sql_create_event sql_get_event sql_list_events sql_ok sql_view se_other
  by unfold_locales
    (simp_all add: sql_create_ok sql_create_other sql_create_refines sql_get_refines sql_list_refines sql_ok_def [THEN iffD1])

end
