(* ===== verification/Gateway_Claims.thy ===== *)
theory Gateway_Claims
  imports Gateway_Outbox
begin

text \<open>
  The properties of the event outbox: the two repositories answer every sequence of calls alike, and
  events leave the outbox in order, one delivery at a time.
\<close>

section \<open>Calls and answers\<close>

datatype gw_cmd =
    Create_Event string agent_event
  | Get_Event string string
  | List_Events string string
  | Latest_Event string string
  | Events_After string string "string option" nat
  | Claim_Event string string string time time
  | Complete_Event string string string time

datatype gw_answer =
    Created "gw_error + agent_event"
  | Found "gw_error + agent_event option"
  | Listed "gw_error + agent_event list"
  | Paged "gw_error + agent_event list option"
  | Leased "gw_error + (agent_event \<times> delivery) option"

fun mem_exec :: "mem_events \<Rightarrow> gw_cmd \<Rightarrow> gw_answer \<times> mem_events" where
  "mem_exec s (Create_Event u e) = map_prod Created id (mem_create_event u e s)"
| "mem_exec s (Get_Event u i) = (Found (mem_get_event u i s), s)"
| "mem_exec s (List_Events u c) = (Listed (mem_list_events u c s), s)"
| "mem_exec s (Latest_Event u c) = (Found (mem_latest_event u c s), s)"
| "mem_exec s (Events_After u c k n) = (Paged (mem_events_after u c k n s), s)"
| "mem_exec s (Claim_Event u c w now until) = map_prod Leased id (mem_claim_event u c w now until s)"
| "mem_exec s (Complete_Event u i w tm) = map_prod Found id (mem_complete_event u i w tm s)"

fun sql_exec :: "sql_events \<Rightarrow> gw_cmd \<Rightarrow> gw_answer \<times> sql_events" where
  "sql_exec s (Create_Event u e) = map_prod Created id (sql_create_event u e s)"
| "sql_exec s (Get_Event u i) = (Found (sql_get_event u i s), s)"
| "sql_exec s (List_Events u c) = (Listed (sql_list_events u c s), s)"
| "sql_exec s (Latest_Event u c) = (Found (sql_latest_event u c s), s)"
| "sql_exec s (Events_After u c k n) = (Paged (sql_events_after u c k n s), s)"
| "sql_exec s (Claim_Event u c w now until) = map_prod Leased id (sql_claim_event u c w now until s)"
| "sql_exec s (Complete_Event u i w tm) = map_prod Found id (sql_complete_event u i w tm s)"

fun run_cmds :: "('s \<Rightarrow> 'c \<Rightarrow> 'a \<times> 's) \<Rightarrow> 's \<Rightarrow> 'c list \<Rightarrow> 'a list \<times> 's" where
  "run_cmds f s [] = ([], s)"
| "run_cmds f s (c # cs) = (let (a, t) = f s c; (as, t') = run_cmds f t cs in (a # as, t'))"

lemma run_cmds_simulation:
  assumes step: "\<And>s t c. R s t \<Longrightarrow> fst (f s c) = fst (g t c) \<and> R (snd (f s c)) (snd (g t c))"
  shows "R s t \<Longrightarrow> fst (run_cmds f s cs) = fst (run_cmds g t cs) \<and> R (snd (run_cmds f s cs)) (snd (run_cmds g t cs))"
proof (induction cs arbitrary: s t)
  case (Cons c cs)
  from step [OF Cons.prems, of c] Cons.IH [of "snd (f s c)" "snd (g t c)"]
  show ?case by (simp add: split_beta Let_def)
qed simp

section \<open>The two repositories side by side\<close>

definition row_key :: "sql_event_row \<Rightarrow> string \<times> string" where
  "row_key r = (er_user r, ae_id (er_event r))"

definition twins :: "mem_events \<Rightarrow> sql_events \<Rightarrow> bool" where
  "twins m s =
     (mem_ok m \<and> sql_ok s \<and> me_other m = se_other s \<and>
      me_events m = map (\<lambda>r. (row_key r, er_event r)) (se_rows s) \<and>
      me_delivery m = map (\<lambda>r. (row_key r, er_delivery r)) (se_rows s))"

lemma twins_view: "twins m s \<Longrightarrow> mem_view m = sql_view s"
  by (simp add: twins_def mem_view_def sql_view_def row_key_def o_def)

lemma twins_ids: "twins m s \<Longrightarrow> distinct (map (\<lambda>r. ae_id (er_event r)) (se_rows s))"
  by (simp add: twins_def sql_ok_def outbox_ok_def sql_view_def o_def)

lemma same_id:
  "distinct (map (\<lambda>r. ae_id (er_event r)) rows) \<Longrightarrow> x \<in> set rows \<Longrightarrow> y \<in> set rows \<Longrightarrow>
   ae_id (er_event x) = ae_id (er_event y) \<Longrightarrow> x = y"
  by (simp add: distinct_map inj_on_def)

lemma map_of_rows:
  "map_of (map (\<lambda>r. (row_key r, f r)) rows) (u, k) =
   map_option f (List.find (\<lambda>r. er_user r = u \<and> ae_id (er_event r) = k) rows)"
  by (induction rows) (auto simp: row_key_def)

lemma map_of_row:
  assumes "distinct (map (\<lambda>r. ae_id (er_event r)) rows)" and "r \<in> set rows"
  shows "map_of (map (\<lambda>r. (row_key r, f r)) rows) (er_user r, ae_id (er_event r)) = Some (f r)"
proof -
  have "inj_on row_key (set rows)"
    using same_id [OF assms(1)] by (auto simp: inj_on_def row_key_def)
  then have "distinct (map fst (map (\<lambda>r. (row_key r, f r)) rows))"
    using assms(1) by (simp add: o_def distinct_map)
  then show ?thesis using assms(2) by (intro map_of_is_SomeI) (auto simp: row_key_def)
qed

lemma update_row:
  assumes "distinct (map (\<lambda>r. ae_id (er_event r)) rows)" and "r \<in> set rows"
  shows "AList.update (row_key r) d (map (\<lambda>r. (row_key r, er_delivery r)) rows) =
    map (\<lambda>r. (row_key r, er_delivery r))
      (map (\<lambda>x. if ae_id (er_event x) = ae_id (er_event r) then x\<lparr>er_delivery := d\<rparr> else x) rows)"
  using assms
proof (induction rows)
  case (Cons x rows)
  show ?case
  proof (cases "r = x")
    case True
    have fresh: "ae_id (er_event x) \<notin> (\<lambda>r. ae_id (er_event r)) ` set rows" using Cons.prems(1) by simp
    have "ae_id (er_event y) \<noteq> ae_id (er_event x)" if "y \<in> set rows" for y
      using fresh imageI [OF that, of "\<lambda>r. ae_id (er_event r)"] by auto
    then have "map (\<lambda>x. if ae_id (er_event x) = ae_id (er_event r) then x\<lparr>er_delivery := d\<rparr> else x) rows = rows"
      using True by (auto intro: map_idI)
    then show ?thesis using True by (simp add: row_key_def)
  next
    case False
    then have r: "r \<in> set rows" using Cons.prems(2) by simp
    have "ae_id (er_event x) \<notin> (\<lambda>r. ae_id (er_event r)) ` set rows" using Cons.prems(1) by simp
    then have "ae_id (er_event x) \<noteq> ae_id (er_event r)"
      using imageI [OF r, of "\<lambda>r. ae_id (er_event r)"] by auto
    then show ?thesis using Cons.IH Cons.prems(1) r by (simp add: row_key_def)
  qed
qed simp

lemma sort_key_map: "sort_key f (map g xs) = map g (sort_key (\<lambda>x. f (g x)) xs)"
proof -
  have "insort_key f (g x) (map g ys) = map g (insort_key (\<lambda>x. f (g x)) x ys)" for x ys
    by (induction ys) auto
  then show ?thesis by (induction xs) auto
qed

lemma twins_set_delivery:
  assumes "twins m s" and "r \<in> set (se_rows s)"
  shows "twins (m\<lparr>me_delivery := AList.update (row_key r) d (me_delivery m)\<rparr>) (set_delivery (ae_id (er_event r)) d s)"
proof -
  let ?upd = "\<lambda>x. if ae_id (er_event x) = ae_id (er_event r) then x\<lparr>er_delivery := d\<rparr> else x"
  have upd: "er_event (?upd x) = er_event x" "er_user (?upd x) = er_user x" "row_key (?upd x) = row_key x" for x
    by (simp_all add: row_key_def)
  have v: "sql_view (set_delivery (ae_id (er_event r)) d s) = sql_view s"
    by (simp add: sql_view_def set_delivery_def upd o_def cong: map_cong)
  have se: "se_other (set_delivery (ae_id (er_event r)) d s) = se_other s"
    "se_coord (set_delivery (ae_id (er_event r)) d s) = se_coord s"
    by (simp_all add: set_delivery_def)
  have "list_ex P (sql_authority c (set_delivery (ae_id (er_event r)) d s)) = list_ex P (sql_authority c s)" for P c
    unfolding sql_authority_view v se ..
  then have sok: "sql_ok (set_delivery (ae_id (er_event r)) d s)"
    using assms(1) unfolding twins_def sql_ok_def v se by simp
  have ev: "map (\<lambda>r. (row_key r, er_event r)) (map ?upd (se_rows s)) = map (\<lambda>r. (row_key r, er_event r)) (se_rows s)"
    unfolding map_map o_def upd ..
  have keys: "map fst (AList.update (row_key r) d (me_delivery m)) = map fst (me_delivery m)"
    using assms update_row [OF twins_ids [OF assms(1)] assms(2)] unfolding twins_def
    by (simp add: o_def upd cong: map_cong)
  have mok: "mem_ok (m\<lparr>me_delivery := AList.update (row_key r) d (me_delivery m)\<rparr>)"
  proof -
    have "mem_ok m" using assms(1) by (simp add: twins_def)
    then show ?thesis using keys by (simp add: mem_ok_def mem_view_def)
  qed
  show ?thesis
    using sok mok ev assms update_row [OF twins_ids [OF assms(1)] assms(2), of d]
    unfolding twins_def by (simp add: set_delivery_def)
qed

section \<open>One step of both\<close>

lemma twins_create:
  assumes "twins m s"
  shows "fst (mem_create_event u e m) = fst (sql_create_event u e s)"
    and "twins (snd (mem_create_event u e m)) (snd (sql_create_event u e s))"
proof -
  have ok: "mem_ok m" "sql_ok s" and other: "me_other m = se_other s" using assms by (simp_all add: twins_def)
  have "(fst (mem_create_event u e m), mem_view (snd (mem_create_event u e m))) =
      (fst (sql_create_event u e s), sql_view (snd (sql_create_event u e s)))"
    using mem_outbox.create_refines [OF ok(1)] sql_outbox.create_refines [OF ok(2)] twins_view [OF assms] other by metis
  then show same: "fst (mem_create_event u e m) = fst (sql_create_event u e s)" by simp
  show "twins (snd (mem_create_event u e m)) (snd (sql_create_event u e s))"
  proof (cases "fst (mem_create_event u e m)")
    case (Inl er)
    then show ?thesis using assms same by (simp add: mem_create_error sql_create_error)
  next
    case (Inr r)
    obtain owner n where n: "checked_event u e = Inr (owner, n)"
      using Inr mem_create_invalid [of u e _ m] by (cases "checked_event u e") auto
    have sql: "fst (sql_create_event u e s) = Inr r" using same Inr by simp
    show ?thesis
      using mem_outbox.create_okay [OF ok(1), of u e] sql_outbox.create_okay [OF ok(2), of u e]
        mem_create_state [OF ok(1) n Inr] sql_create_state(1,2) [OF n sql] assms
      by (simp add: twins_def row_key_def)
  qed
qed

lemma twins_reads:
  assumes "twins m s"
  shows "mem_get_event u i m = sql_get_event u i s" and "mem_list_events u c m = sql_list_events u c s"
proof -
  have ok: "mem_ok m" "sql_ok s" using assms by (simp_all add: twins_def)
  show "mem_get_event u i m = sql_get_event u i s"
    using mem_outbox.get_refines [OF ok(1), of u i] sql_outbox.get_refines [OF ok(2), of u i] twins_view [OF assms] by simp
  show "mem_list_events u c m = sql_list_events u c s"
    using mem_outbox.listing_refines [OF ok(1), of u c] sql_outbox.listing_refines [OF ok(2), of u c] twins_view [OF assms] by simp
qed

lemma twins_delivery:
  assumes "twins m s" and "r \<in> set (se_rows s)"
  shows "map_of (me_delivery m) (er_user r, ae_id (er_event r)) = Some (er_delivery r)"
  using assms map_of_row [OF twins_ids [OF assms(1)] assms(2)] by (simp add: twins_def)

lemma twins_pending:
  assumes "twins m s"
  shows "in_order (filter (\<lambda>e. case map_of (me_delivery m) (u, ae_id e) of
             None \<Rightarrow> False | Some d \<Rightarrow> dl_status d \<noteq> Dl_Published) (mem_owned u c m)) =
    map er_event (sort_key (\<lambda>r. (ae_seq (er_event r), ae_id (er_event r)))
      (filter (\<lambda>r. dl_status (er_delivery r) \<noteq> Dl_Published) (sql_owned u c s)))"
proof -
  have "mem_owned u c m = map er_event (sql_owned u c s)"
    by (simp add: mem_owned_view sql_owned_view twins_view [OF assms])
  moreover have "filter (\<lambda>r. case map_of (me_delivery m) (u, ae_id (er_event r)) of
        None \<Rightarrow> False | Some d \<Rightarrow> dl_status d \<noteq> Dl_Published) (sql_owned u c s) =
      filter (\<lambda>r. dl_status (er_delivery r) \<noteq> Dl_Published) (sql_owned u c s)"
    by (rule filter_cong [OF refl]) (use twins_delivery [OF assms] in \<open>auto simp: sql_owned_def\<close>)
  ultimately show ?thesis by (simp add: in_order_def filter_map o_def sort_key_map)
qed

lemma twins_claim:
  assumes "twins m s"
  shows "fst (mem_claim_event user conv w now until m) = fst (sql_claim_event user conv w now until s) \<and>
    twins (snd (mem_claim_event user conv w now until m)) (snd (sql_claim_event user conv w now until s))"
proof (cases "bind_result (require_text 64 user) (\<lambda>u. bind_result (require_text 64 conv) (\<lambda>c.
             bind_result (lease_window w now until) (\<lambda>w. Inr (u, c, w))))")
  case (Inl er)
  then show ?thesis using assms by (simp add: mem_claim_event_def sql_claim_event_def)
next
  case (Inr p)
  obtain u c v where p: "p = (u, c, v)" by (cases p)
  note pending = twins_pending [OF assms, of u c]
  show ?thesis
  proof (cases "sort_key (\<lambda>r. (ae_seq (er_event r), ae_id (er_event r)))
      (filter (\<lambda>r. dl_status (er_delivery r) \<noteq> Dl_Published) (sql_owned u c s))")
    case Nil
    then show ?thesis using assms Inr p pending by (simp add: mem_claim_event_def sql_claim_event_def)
  next
    case (Cons r rs)
    have "r \<in> set (sort_key (\<lambda>r. (ae_seq (er_event r), ae_id (er_event r)))
      (filter (\<lambda>r. dl_status (er_delivery r) \<noteq> Dl_Published) (sql_owned u c s)))" unfolding Cons by simp
    then have r: "r \<in> set (se_rows s)" "er_user r = u" by (simp_all add: sql_owned_def)
    have d: "map_of (me_delivery m) (u, ae_id (er_event r)) = Some (er_delivery r)"
      using twins_delivery [OF assms r(1)] r(2) by simp
    show ?thesis
      using assms Inr p pending Cons d r twins_set_delivery [OF assms r(1), of "claimed_delivery v until (er_delivery r)"]
      by (simp add: mem_claim_event_def sql_claim_event_def Let_def row_key_def)
  qed
qed

lemma twins_complete:
  assumes "twins m s"
  shows "fst (mem_complete_event user i w tm m) = fst (sql_complete_event user i w tm s) \<and>
    twins (snd (mem_complete_event user i w tm m)) (snd (sql_complete_event user i w tm s))"
proof (cases "bind_result (require_text 64 user) (\<lambda>u. bind_result (require_text 64 i) (\<lambda>k.
             bind_result (require_text 128 w) (\<lambda>w. Inr (u, k, w))))")
  case (Inl er)
  then show ?thesis using assms by (simp add: mem_complete_event_def sql_complete_event_def)
next
  case (Inr p)
  obtain u k v where p: "p = (u, k, v)" by (cases p)
  have ev: "map_of (me_events m) (u, k) = map_option er_event (List.find (\<lambda>r. er_user r = u \<and> ae_id (er_event r) = k) (se_rows s))"
    and dl: "map_of (me_delivery m) (u, k) = map_option er_delivery (List.find (\<lambda>r. er_user r = u \<and> ae_id (er_event r) = k) (se_rows s))"
    using assms by (simp_all add: twins_def map_of_rows)
  show ?thesis
  proof (cases "List.find (\<lambda>r. er_user r = u \<and> ae_id (er_event r) = k) (se_rows s)")
    case None
    then show ?thesis using assms Inr p ev dl by (simp add: mem_complete_event_def sql_complete_event_def)
  next
    case (Some r)
    then have r: "r \<in> set (se_rows s)" "er_user r = u" "ae_id (er_event r) = k"
      by (auto simp: find_Some_iff)
    show ?thesis
      using assms Inr p ev dl Some r
        twins_set_delivery [OF assms r(1), of "(er_delivery r)\<lparr>dl_status := Dl_Published, dl_published := Some tm\<rparr>"]
      by (simp add: mem_complete_event_def sql_complete_event_def row_key_def)
  qed
qed

lemma twins_step:
  assumes "twins m s"
  shows "fst (mem_exec m c) = fst (sql_exec s c) \<and> twins (snd (mem_exec m c)) (snd (sql_exec s c))"
  using assms
  by (cases c) (simp_all add: twins_create twins_reads twins_claim twins_complete mem_latest_event_def
      sql_latest_event_def mem_events_after_def sql_events_after_def)

section \<open>Properties\<close>

definition new_mem_events :: "(string \<times> string) list \<Rightarrow> mem_events" where
  "new_mem_events owners = \<lparr>me_other = owners, me_events = [], me_ids = [], me_seqs = [], me_cursors = [], me_delivery = []\<rparr>"

definition new_sql_events :: "(string \<times> string) list \<Rightarrow> sql_events" where
  "new_sql_events owners = \<lparr>se_other = owners, se_rows = [], se_coord = []\<rparr>"

lemma twins_new: "twins (new_mem_events owners) (new_sql_events owners)"
  by (simp add: twins_def new_mem_events_def new_sql_events_def mem_ok_def sql_ok_def mem_view_def sql_view_def)

lemma twins_run:
  "fst (run_cmds mem_exec (new_mem_events owners) cs) = fst (run_cmds sql_exec (new_sql_events owners) cs) \<and>
   twins (snd (run_cmds mem_exec (new_mem_events owners) cs)) (snd (run_cmds sql_exec (new_sql_events owners) cs))"
  by (rule run_cmds_simulation [OF twins_step twins_new])

text \<open>
  C18. The in-memory and the SQL event repository give the same answers to every sequence of creations,
  reads, pages, claims and completions, whoever owns the conversations outside the outbox; and the events
  of a conversation are then numbered 1, 2, 3, ... in both.
\<close>

theorem event_repositories_agree:
  "fst (run_cmds mem_exec (new_mem_events owners) cs) = fst (run_cmds sql_exec (new_sql_events owners) cs) \<and>
   map ae_seq (mem_conversation c (snd (run_cmds mem_exec (new_mem_events owners) cs))) =
     [1..<Suc (length (mem_conversation c (snd (run_cmds mem_exec (new_mem_events owners) cs))))]"
proof -
  note sim = twins_run [of owners cs]
  then have "outbox_ok (mem_view (snd (run_cmds mem_exec (new_mem_events owners) cs)))"
    by (simp add: twins_def mem_outbox.view_ok)
  then show ?thesis using sim unfolding mem_conversation_view outbox_ok_def by blast
qed

section \<open>Delivery\<close>

definition sql_delivery :: "sql_events \<Rightarrow> string \<Rightarrow> delivery option" where
  "sql_delivery s i = map_option er_delivery (List.find (\<lambda>r. ae_id (er_event r) = i) (se_rows s))"

lemma find_updated:
  "map_option er_delivery (List.find (\<lambda>r. ae_id (er_event r) = j)
      (map (\<lambda>r. if ae_id (er_event r) = i then r\<lparr>er_delivery := d\<rparr> else r) rows)) =
   (let old = map_option er_delivery (List.find (\<lambda>r. ae_id (er_event r) = j) rows)
    in if j = i then map_option (\<lambda>_. d) old else old)"
  by (induction rows) auto

lemma sql_delivery_set:
  "sql_delivery (set_delivery i d s) j = (if j = i then map_option (\<lambda>_. d) (sql_delivery s j) else sql_delivery s j)"
  using find_updated [of j i d "se_rows s"]
  by (simp add: sql_delivery_def set_delivery_def Let_def split: if_split)

lemma sql_delivery_row:
  assumes "sql_ok s" and "r \<in> set (se_rows s)"
  shows "sql_delivery s (ae_id (er_event r)) = Some (er_delivery r)"
proof -
  have dist: "distinct (map (\<lambda>r. ae_id (er_event r)) (se_rows s))"
    using assms(1) by (simp add: sql_ok_def outbox_ok_def sql_view_def o_def)
  obtain y where y: "List.find (\<lambda>x. ae_id (er_event x) = ae_id (er_event r)) (se_rows s) = Some y"
    using assms(2) by (cases "List.find (\<lambda>x. ae_id (er_event x) = ae_id (er_event r)) (se_rows s)")
      (auto simp: find_None_iff)
  then have "y \<in> set (se_rows s)" "ae_id (er_event y) = ae_id (er_event r)" by (auto simp: find_Some_iff)
  then have "y = r" using same_id [OF dist _ assms(2)] by blast
  then show ?thesis using y by (simp add: sql_delivery_def)
qed

definition published :: "sql_events \<Rightarrow> string \<Rightarrow> delivery \<Rightarrow> bool" where
  "published s i d = (sql_delivery s i = Some d \<and> dl_status d = Dl_Published)"

lemma published_create: "published s i d \<Longrightarrow> published (snd (sql_create_event u e s)) i d"
proof (cases "fst (sql_create_event u e s)")
  case (Inr r)
  assume p: "published s i d"
  obtain owner n where n: "checked_event u e = Inr (owner, n)"
    using Inr sql_create_invalid [of u e _ s] by (cases "checked_event u e") auto
  have "List.find P xs = Some y \<Longrightarrow> List.find P (xs @ ys) = Some y" for P :: "sql_event_row \<Rightarrow> bool" and xs ys y
    by (induction xs) auto
  then show ?thesis using p sql_create_state(1) [OF n Inr] by (auto simp: published_def sql_delivery_def)
qed (simp add: sql_create_error)

text \<open>A claim takes the first event that is not published, and only when nobody holds it.\<close>

lemma claim_taken:
  assumes "sql_claim_event user conv w now until s = (Inr (Some (e, d)), t)"
  obtains r v where "r \<in> set (sql_owned (py_strip user) (py_strip conv) s)" and "er_event r = e"
    and "dl_status (er_delivery r) \<noteq> Dl_Published" and "claimable now (er_delivery r)"
    and "d = claimed_delivery v until (er_delivery r)" and "t = set_delivery (ae_id e) d s"
    and "\<forall>x \<in> set (sql_owned (py_strip user) (py_strip conv) s).
        ae_seq (er_event x) < ae_seq e \<longrightarrow> dl_status (er_delivery x) = Dl_Published"
proof -
  let ?u = "py_strip user" and ?c = "py_strip conv"
  let ?key = "\<lambda>r. (ae_seq (er_event r), ae_id (er_event r))"
  let ?rows = "filter (\<lambda>r. dl_status (er_delivery r) \<noteq> Dl_Published) (sql_owned ?u ?c s)"
  obtain v where v: "bind_result (require_text 64 user) (\<lambda>u. bind_result (require_text 64 conv) (\<lambda>c.
             bind_result (lease_window w now until) (\<lambda>w. Inr (u, c, w)))) = Inr (?u, ?c, v)"
    using assms
    by (cases "require_text 64 user"; cases "require_text 64 conv"; cases "lease_window w now until")
      (auto simp: sql_claim_event_def require_text_def Let_def split: if_splits)
  obtain r rs where r: "sort_key ?key ?rows = r # rs"
    using assms v by (cases "sort_key ?key ?rows") (simp_all add: sql_claim_event_def)
  have mem: "r \<in> set ?rows" using r by (metis list.set_intros(1) set_sort)
  have least: "?key r \<le> ?key x" if "x \<in> set ?rows" for x
  proof -
    have "sorted (map ?key (r # rs))" unfolding r [symmetric] by (rule sorted_sort_key)
    moreover have "x \<in> set (r # rs)" using that unfolding r [symmetric] by simp
    ultimately show ?thesis by auto
  qed
  have out: "claimable now (er_delivery r)" "e = er_event r" "d = claimed_delivery v until (er_delivery r)"
    "t = set_delivery (ae_id e) d s"
    using assms v r by (auto simp: sql_claim_event_def Let_def split: if_splits)
  have "dl_status (er_delivery x) = Dl_Published"
    if "x \<in> set (sql_owned ?u ?c s)" "ae_seq (er_event x) < ae_seq e" for x
    using least [of x] that out(2) by auto
  then show ?thesis using that [of r v] mem out by simp
qed

lemma published_claim:
  assumes "sql_ok s" and "published s i d"
  shows "published (snd (sql_claim_event u c w now until s)) i d"
proof (cases "fst (sql_claim_event u c w now until s)")
  case (Inr a)
  show ?thesis
  proof (cases a)
    case None
    then have "snd (sql_claim_event u c w now until s) = s"
      using Inr by (auto simp: sql_claim_event_def Let_def split: sum.splits list.splits if_splits)
    then show ?thesis using assms(2) by simp
  next
    case (Some p)
    obtain e d' where p: "p = (e, d')" by (cases p)
    have "sql_claim_event u c w now until s = (Inr (Some (e, d')), snd (sql_claim_event u c w now until s))"
      using Inr Some p by (metis prod.collapse)
    from claim_taken [OF this] obtain r where r: "r \<in> set (sql_owned (py_strip u) (py_strip c) s)" "er_event r = e"
      "dl_status (er_delivery r) \<noteq> Dl_Published" "snd (sql_claim_event u c w now until s) = set_delivery (ae_id e) d' s"
      by metis
    have "sql_delivery s (ae_id e) = Some (er_delivery r)"
      using sql_delivery_row [OF assms(1), of r] r by (simp add: sql_owned_def)
    then have "i \<noteq> ae_id e" using assms(2) r(3) by (auto simp: published_def)
    then show ?thesis using assms(2) r(4) by (simp add: published_def sql_delivery_set)
  qed
next
  case (Inl er)
  then have "snd (sql_claim_event u c w now until s) = s"
    by (auto simp: sql_claim_event_def Let_def split: sum.splits list.splits if_splits)
  then show ?thesis using assms(2) by simp
qed

lemma published_complete:
  assumes "sql_ok s" and "published s i d"
  shows "published (snd (sql_complete_event u k w tm s)) i d"
proof (cases "snd (sql_complete_event u k w tm s) = s")
  case False
  obtain r d' where r: "r \<in> set (se_rows s)" "dl_status (er_delivery r) \<noteq> Dl_Published"
    "snd (sql_complete_event u k w tm s) = set_delivery (ae_id (er_event r)) d' s"
  proof (cases "bind_result (require_text 64 u) (\<lambda>u. bind_result (require_text 64 k) (\<lambda>k.
             bind_result (require_text 128 w) (\<lambda>w. Inr (u, k, w))))")
    case (Inr p)
    obtain u' k' w' where p: "p = (u', k', w')" by (cases p)
    obtain r where r: "List.find (\<lambda>r. er_user r = u' \<and> ae_id (er_event r) = k') (se_rows s) = Some r"
      using False Inr p
      by (cases "List.find (\<lambda>r. er_user r = u' \<and> ae_id (er_event r) = k') (se_rows s)") (simp_all add: sql_complete_event_def)
    moreover have "r \<in> set (se_rows s)" "ae_id (er_event r) = k'" using r by (auto simp: find_Some_iff)
    ultimately show ?thesis
      using False Inr p that [of r] by (simp add: sql_complete_event_def split: if_splits)
  qed (use False in \<open>simp add: sql_complete_event_def\<close>)
  have "i \<noteq> ae_id (er_event r)"
    using sql_delivery_row [OF assms(1) r(1)] assms(2) r(2) by (auto simp: published_def)
  then show ?thesis using assms(2) r(3) by (simp add: published_def sql_delivery_set)
qed (simp add: assms(2))

lemma published_step:
  assumes "twins m s" and "published s i d"
  shows "published (snd (sql_exec s c)) i d"
proof -
  have ok: "sql_ok s" using assms(1) by (simp add: twins_def)
  show ?thesis
    by (cases c) (simp_all add: assms(2) published_create published_claim [OF ok] published_complete [OF ok])
qed

lemma published_stays:
  "twins m s \<Longrightarrow> published s i d \<Longrightarrow> published (snd (run_cmds sql_exec s cs)) i d"
proof (induction cs arbitrary: m s)
  case (Cons c cs)
  have "twins (snd (mem_exec m c)) (snd (sql_exec s c))" using twins_step [OF Cons.prems(1)] by blast
  from Cons.IH [OF this published_step [OF Cons.prems]] show ?case by (simp add: split_beta Let_def)
qed simp

text \<open>
  C19. In every state the SQL outbox can reach, a claim takes an event of the conversation whose
  predecessors have all been published, that is itself not published and that no worker holds with a
  lease in force; and no later sequence of calls takes back or rewrites the publication of a predecessor.
\<close>

theorem events_leave_in_order:
  assumes "s = snd (run_cmds sql_exec (new_sql_events owners) cs)"
    and "sql_claim_event user conv w now until s = (Inr (Some (e, d)), t)"
  shows "(\<forall>d'. sql_delivery s (ae_id e) = Some d' \<longrightarrow> dl_status d' \<noteq> Dl_Published \<and> claimable now d') \<and>
    (\<forall>x \<in> set (sql_owned (py_strip user) (py_strip conv) s). ae_seq (er_event x) < ae_seq e \<longrightarrow>
       (\<forall>ds. published (snd (run_cmds sql_exec t ds)) (ae_id (er_event x)) (er_delivery x)))"
proof -
  obtain m where m: "twins m s"
    using twins_run [of owners cs] assms(1) by blast
  then have ok: "sql_ok s" by (simp add: twins_def)
  have "t = snd (sql_exec s (Claim_Event user conv w now until))" using assms(2) by simp
  with twins_step [OF m] obtain m' where m': "twins m' t" by blast
  obtain r where r: "r \<in> set (se_rows s)" "er_event r = e" "dl_status (er_delivery r) \<noteq> Dl_Published"
    "claimable now (er_delivery r)"
    and before: "\<forall>x \<in> set (sql_owned (py_strip user) (py_strip conv) s).
        ae_seq (er_event x) < ae_seq e \<longrightarrow> dl_status (er_delivery x) = Dl_Published"
    by (rule claim_taken [OF assms(2)]) (auto simp: sql_owned_def)
  have "published (snd (run_cmds sql_exec t ds)) (ae_id (er_event x)) (er_delivery x)"
    if x: "x \<in> set (sql_owned (py_strip user) (py_strip conv) s)" "ae_seq (er_event x) < ae_seq e" for x ds
  proof -
    have "published s (ae_id (er_event x)) (er_delivery x)"
      using sql_delivery_row [OF ok, of x] before x by (auto simp: published_def sql_owned_def)
    then have "published t (ae_id (er_event x)) (er_delivery x)"
      using published_claim [OF ok, of _ _ user conv w now until] assms(2) by simp
    then show ?thesis by (rule published_stays [OF m'])
  qed
  then show ?thesis using sql_delivery_row [OF ok r(1)] r by auto
qed

definition two_events :: "gw_cmd list" where
  "two_events =
     [Create_Event ''u'' \<lparr>ae_id = ''e1'', ae_seq = 0, ae_cursor = ''a'', ae_conv = ''c'', ae_run = ''r'', ae_time = 5,
        ae_type = ''run.status'', ae_payload = JNull\<rparr>,
      Create_Event ''u'' \<lparr>ae_id = ''e2'', ae_seq = 0, ae_cursor = ''b'', ae_conv = ''c'', ae_run = ''r'', ae_time = 6,
        ae_type = ''run.completed'', ae_payload = JNull\<rparr>,
      Claim_Event ''u'' ''c'' ''w'' 10 20, Complete_Event ''u'' ''e1'' ''w'' 15]"

lemma two_events_run:
  "let s = snd (run_cmds sql_exec (new_sql_events []) two_events); r = sql_claim_event ''u'' ''c'' ''v'' 21 30 s
   in (case fst r of Inr (Some (e, d)) \<Rightarrow> ae_seq e = 2 \<and> dl_attempts d = 1 | _ \<Rightarrow> False) \<and>
      length (filter (\<lambda>x. ae_seq (er_event x) < 2) (sql_owned (py_strip ''u'') (py_strip ''c'') s)) = 1"
  by code_simp

lemma events_leave_in_order_witness:
  "\<exists>s e d t x. s = snd (run_cmds sql_exec (new_sql_events []) two_events) \<and>
     sql_claim_event ''u'' ''c'' ''v'' 21 30 s = (Inr (Some (e, d)), t) \<and>
     x \<in> set (sql_owned (py_strip ''u'') (py_strip ''c'') s) \<and>
     published (snd (run_cmds sql_exec t [Complete_Event ''u'' ''e2'' ''v'' 25])) (ae_id (er_event x)) (er_delivery x)"
proof -
  define s where "s = snd (run_cmds sql_exec (new_sql_events []) two_events)"
  define r where "r = sql_claim_event ''u'' ''c'' ''v'' 21 30 s"
  have run: "(case fst r of Inr (Some (e, d)) \<Rightarrow> ae_seq e = 2 \<and> dl_attempts d = 1 | _ \<Rightarrow> False)"
    and one: "length (filter (\<lambda>x. ae_seq (er_event x) < 2) (sql_owned (py_strip ''u'') (py_strip ''c'') s)) = 1"
    using two_events_run unfolding Let_def s_def [symmetric] r_def [symmetric] by blast+
  obtain e d t where e: "r = (Inr (Some (e, d)), t)" "ae_seq e = 2"
    using run by (cases r) (auto split: sum.splits option.splits)
  obtain x where x: "x \<in> set (sql_owned (py_strip ''u'') (py_strip ''c'') s)" "ae_seq (er_event x) < 2"
  proof -
    have "filter (\<lambda>x. ae_seq (er_event x) < 2) (sql_owned (py_strip ''u'') (py_strip ''c'') s) \<noteq> []"
      using one by (metis list.size(3) zero_neq_one)
    then show ?thesis using that unfolding filter_empty_conv by blast
  qed
  have "published (snd (run_cmds sql_exec t [Complete_Event ''u'' ''e2'' ''v'' 25])) (ae_id (er_event x)) (er_delivery x)"
    using events_leave_in_order [OF s_def e(1) [unfolded r_def]] x unfolding e(2) by blast
  then show ?thesis using x e(1) unfolding r_def s_def by blast
qed

end
