(* ===== verification/Harness_Projector.thy ===== *)
theory Harness_Projector
  imports Gateway_Outbox Sidecar_Runs Tool_Store
begin

text \<open>
  The Gateway's side of a run's events: \<^verbatim>\<open>agent_harness/projector.py\<close> and the event stream
  of \<^verbatim>\<open>agent_harness/sidecar.py\<close>. A projector is a task that is suspended at every call of
  the event repository: \<open>proj_step\<close> runs it to its next such call, and a schedule interleaves the
  projectors of several Gateway processes with other writers. The repository is the three methods of
  \<^verbatim>\<open>_EventRepository\<close>, passed as arguments as the code does. \<^verbatim>\<open>datetime.fromisoformat\<close>
  is applied at the boundary: an event carries the parsed time, or None where it raises ValueError.
\<close>

section \<open>The stream of the sidecar\<close>

record harness_event =
  he_run :: string
  he_id :: string
  he_seq :: nat
  he_type :: string
  he_at :: "time option"
  he_payload :: json

datatype stream_line = Other_Line | Bad_Line | Envelope harness_event

text \<open>The patterns of \<^verbatim>\<open>_SidecarRunEventEnvelope\<close>.\<close>

definition is_hex_digit :: "char \<Rightarrow> bool" where
  "is_hex_digit c = (let n = (of_char c :: int) in (48 \<le> n \<and> n \<le> 57) \<or> (97 \<le> n \<and> n \<le> 102))"

definition hex_id_ok :: "string \<Rightarrow> string \<Rightarrow> bool" where
  "hex_id_ok pre s = (starts_with pre s \<and> length (drop (length pre) s) = 32 \<and> list_all is_hex_digit (drop (length pre) s))"

definition wire_type_ok :: "string \<Rightarrow> bool" where
  "wire_type_ok t = list_ex (\<lambda>p. starts_with p t \<and> drop (length p) t \<noteq> [] \<and> list_all is_event_char (drop (length p) t))
     [''run.'', ''tool.'', ''response.'', ''public_summary.'']"

definition envelope_ok :: "harness_event \<Rightarrow> bool" where
  "envelope_ok e = (hex_id_ok ''hrun_'' (he_run e) \<and> hex_id_ok ''hevt_'' (he_id e) \<and> 1 \<le> he_seq e \<and>
     wire_type_ok (he_type e) \<and> is_obj (he_payload e))"

text \<open>\<^verbatim>\<open>stream_sidecar_events\<close>: the events it yields, and whether it ends by raising.\<close>

fun stream_events :: "string \<Rightarrow> nat \<Rightarrow> stream_line list \<Rightarrow> harness_event list \<times> bool" where
  "stream_events run prev [] = ([], False)"
| "stream_events run prev (Other_Line # ls) = stream_events run prev ls"
| "stream_events run prev (Bad_Line # ls) = ([], True)"
| "stream_events run prev (Envelope e # ls) =
     (if \<not> envelope_ok e then ([], True)
      else if he_run e \<noteq> run \<or> he_seq e \<le> prev then ([], True)
      else (case stream_events run (he_seq e) ls of (es, err) \<Rightarrow> (e # es, err)))"

section \<open>What of an event is public\<close>

datatype proj_error =
    Unsafe_Event
  | Bad_Occurred_At
  | Outbox_Contended
  | Stream_Failed
  | Unsafe_Response
  | Repository_Raised gw_error
  | Message_Collision

definition text_upto :: "nat \<Rightarrow> json \<Rightarrow> bool" where
  "text_upto n j = (case j of JStr s \<Rightarrow> s \<noteq> [] \<and> py_len s \<le> n | _ \<Rightarrow> False)"

definition solid_text_upto :: "nat \<Rightarrow> json \<Rightarrow> bool" where
  "solid_text_upto n j = (case j of JStr s \<Rightarrow> py_strip s \<noteq> [] \<and> py_len s \<le> n | _ \<Rightarrow> False)"

definition public_failure_codes :: "string list" where
  "public_failure_codes =
     [''engine_execution_failed'', ''engine_finish_reason_unexpected'', ''harness_run_recovery_required'',
      ''deadline_exceeded'', ''max_model_steps'', ''max_business_tools'', ''max_output_tokens'']"

definition run_status_of :: "harness_event \<Rightarrow> json" where
  "run_status_of e =
     (if he_type e = ''run.accepted'' then JStr ''accepted''
      else if he_type e = ''run.started'' then JStr ''running''
      else if he_type e = ''run.completed'' then JStr ''completed''
      else if he_type e = ''run.failed'' then JStr ''failed''
      else if he_type e = ''run.cancelled'' then JStr ''cancelled''
      else jget ''status'' (he_payload e))"

definition run_types :: "string list" where
  "run_types = [''run.accepted'', ''run.started'', ''run.completed'', ''run.failed'', ''run.cancelled'', ''run.suspended'']"

definition public_run_event :: "harness_event \<Rightarrow> proj_error + string \<times> json" where
  "public_run_event e =
     (let st = run_status_of e;
          human = st = JStr ''suspended_confirmation'' \<or> st = JStr ''suspended_authorization'';
          intr = jget ''interrupt_id'' (he_payload e);
          code = jget ''code'' (he_payload e)
      in if he_type e = ''run.suspended'' \<and> \<not> (st = JStr ''suspended_operation'' \<or> human) then Inl Unsafe_Event
         else if human \<and> \<not> solid_text_upto 128 intr then Inl Unsafe_Event
         else Inr (''run.state_changed'',
                JObj ([(''status'', st)] @ (if human then [(''interrupt_id'', intr)] else []) @
                  (if he_type e = ''run.failed'' \<and> list_ex (\<lambda>c. code = JStr c) public_failure_codes
                   then [(''code'', code)] else []))))"

definition public_event :: "harness_event \<Rightarrow> proj_error + string \<times> json" where
  "public_event e =
     (let p = he_payload e; ty = he_type e in
      if ty \<in> set run_types then public_run_event e
      else if ty = ''tool.completed'' then
        (if text_upto 128 (jget ''tool_name'' p)
         then Inr (''agent.tool.completed'', JObj [(''tool_name'', jget ''tool_name'' p)]) else Inl Unsafe_Event)
      else if ty = ''public_summary.delta'' then
        (if solid_text_upto 512 (jget ''delta'' p)
         then Inr (''agent.thinking.delta'', JObj [(''delta'', JStr (text_of (jget ''delta'' p)))]) else Inl Unsafe_Event)
      else if ty = ''public_summary.completed'' then
        (if solid_text_upto 1536 (jget ''summary'' p)
         then Inr (''agent.thinking.completed'', JObj [(''summary'', JStr (text_of (jget ''summary'' p)))]) else Inl Unsafe_Event)
      else if ty = ''response.delta'' then
        (if text_upto 512 (jget ''delta'' p)
         then Inr (''agent.response.delta'', JObj [(''delta'', jget ''delta'' p)]) else Inl Unsafe_Event)
      else if ty = ''response.completed'' then
        (if solid_text_upto 8000 (jget ''response'' p)
         then Inr (''agent.response.completed'', JObj [(''response'', JStr (text_of (jget ''response'' p)))]) else Inl Unsafe_Event)
      else Inl Unsafe_Event)"

text \<open>The statuses at which a projector stops.\<close>

definition stops :: "agent_event \<Rightarrow> bool" where
  "stops e = (ae_type e = ''run.state_changed'' \<and>
     list_ex (\<lambda>st. jget ''status'' (ae_payload e) = JStr st)
       [''completed'', ''failed'', ''cancelled'', ''suspended_operation'', ''suspended_confirmation'', ''suspended_authorization''])"

section \<open>Messages of a conversation\<close>

text \<open>The task store as far as the projector and the snapshot use it.\<close>

record message =
  ms_id :: string
  ms_conv :: string
  ms_user :: string
  ms_role :: string
  ms_content :: string
  ms_run :: "string option"
  ms_at :: time

definition append_message :: "message \<Rightarrow> message list \<Rightarrow> (unit + message) \<times> message list" where
  "append_message m ms =
     (case List.find (\<lambda>x. ms_id x = ms_id m) ms of
        Some x \<Rightarrow> (if ms_conv x \<noteq> ms_conv m then Inl () else Inr x, ms)
      | None \<Rightarrow> (Inr m, ms @ [m]))"

definition list_messages :: "string \<Rightarrow> string \<Rightarrow> nat \<Rightarrow> message list \<Rightarrow> message list" where
  "list_messages conv user limit ms =
     take limit (sort_key (\<lambda>m. (ms_at m, ms_id m)) (filter (\<lambda>m. ms_conv m = conv \<and> ms_user m = user) ms))"

definition response_message :: "run_binding \<Rightarrow> time \<Rightarrow> harness_event \<Rightarrow> proj_error + message" where
  "response_message b now e =
     (let r = jget ''response'' (he_payload e) in
      if solid_text_upto 8000 r
      then Inr \<lparr>ms_id = ''harness_response_'' @ drop 5 (rb_run b), ms_conv = rb_conv b, ms_user = rb_user b,
                ms_role = ''assistant'', ms_content = text_of r, ms_run = Some (rb_run b), ms_at = now\<rparr>
      else Inl Unsafe_Response)"

definition append_response :: "run_binding \<Rightarrow> time \<Rightarrow> harness_event \<Rightarrow> message list \<Rightarrow> (proj_error + unit) \<times> message list" where
  "append_response b now e ms =
     (case response_message b now e of
        Inl er \<Rightarrow> (Inl er, ms)
      | Inr m \<Rightarrow> (case append_message m ms of (Inl _, ms') \<Rightarrow> (Inl Message_Collision, ms') | (Inr _, ms') \<Rightarrow> (Inr (), ms')))"

section \<open>A projector, cut at its awaits\<close>

datatype phase =
    Fetching
  | Looking
  | Trying nat
  | Listing nat
  | Creating nat nat
  | Published agent_event
  | Over "proj_error option"

record projector =
  pj_left :: "harness_event list"
  pj_fault :: bool
  pj_phase :: phase

text \<open>\<^verbatim>\<open>AgentEvent\<close> is a contract: what is stored is the stripped payload.\<close>

definition gateway_event :: "run_binding \<Rightarrow> harness_event \<Rightarrow> nat \<Rightarrow> string \<times> json \<Rightarrow> time \<Rightarrow> agent_event" where
  "gateway_event b e n tp tm =
     \<lparr>ae_id = contract_strip (he_id e), ae_seq = n, ae_cursor = contract_strip (he_id e),
      ae_conv = contract_strip (rb_conv b), ae_run = contract_strip (rb_run b), ae_time = tm,
      ae_type = fst tp, ae_payload = contract_json (snd tp)\<rparr>"

definition gateway_image :: "harness_event \<Rightarrow> proj_error + (string \<times> json) \<times> time" where
  "gateway_image e =
     bind_result (public_event e) (\<lambda>tp. case he_at e of None \<Rightarrow> Inl Bad_Occurred_At | Some tm \<Rightarrow> Inr (tp, tm))"

definition max_tries :: nat where
  "max_tries = 8"

type_synonym 's create_op = "string \<Rightarrow> agent_event \<Rightarrow> 's \<Rightarrow> (gw_error + agent_event) \<times> 's"
type_synonym 's get_op = "string \<Rightarrow> string \<Rightarrow> 's \<Rightarrow> gw_error + agent_event option"
type_synonym 's listing_op = "string \<Rightarrow> string \<Rightarrow> 's \<Rightarrow> gw_error + agent_event list"

definition look_up :: "'s get_op \<Rightarrow> run_binding \<Rightarrow> string \<Rightarrow> 's \<Rightarrow> phase \<Rightarrow> phase" where
  "look_up get b i s absent =
     (case get (rb_user b) i s of
        Inl er \<Rightarrow> Over (Some (Repository_Raised er))
      | Inr (Some e) \<Rightarrow> Published e
      | Inr None \<Rightarrow> absent)"

definition list_prior :: "'s listing_op \<Rightarrow> run_binding \<Rightarrow> nat \<Rightarrow> 's \<Rightarrow> phase" where
  "list_prior listing b k s =
     (case listing (rb_user b) (rb_conv b) s of
        Inl er \<Rightarrow> Over (Some (Repository_Raised er))
      | Inr prior \<Rightarrow> Creating k (if prior = [] then 1 else ae_seq (last prior) + 1))"

text \<open>The step of \<open>_append_source_event\<close> for the event at the head of the stream.\<close>

definition append_piece ::
  "'s create_op \<Rightarrow> 's get_op \<Rightarrow> 's listing_op \<Rightarrow> run_binding \<Rightarrow> harness_event \<Rightarrow> phase \<Rightarrow> 's \<Rightarrow> phase \<times> 's" where
  "append_piece create get listing b e ph s =
     (case ph of
        Looking \<Rightarrow>
          (look_up get b (he_id e) s
             (case gateway_image e of Inl er \<Rightarrow> Over (Some er) | Inr _ \<Rightarrow> Trying 0), s)
      | Trying k \<Rightarrow>
          (if max_tries \<le> k then Over (Some Outbox_Contended) else look_up get b (he_id e) s (Listing k), s)
      | Listing k \<Rightarrow> (list_prior listing b k s, s)
      | Creating k n \<Rightarrow>
          (case gateway_image e of
             Inl er \<Rightarrow> (Over (Some er), s)
           | Inr (tp, tm) \<Rightarrow>
               (case create (rb_user b) (gateway_event b e n tp tm) s of
                  (Inr r, s') \<Rightarrow> (Published r, s')
                | (Inl Record_Conflict, s') \<Rightarrow> (Trying (Suc k), s')
                | (Inl er, s') \<Rightarrow> (Over (Some (Repository_Raised er)), s')))
      | _ \<Rightarrow> (ph, s))"

definition proj_step ::
  "'s create_op \<Rightarrow> 's get_op \<Rightarrow> 's listing_op \<Rightarrow> run_binding \<Rightarrow> time
   \<Rightarrow> projector \<Rightarrow> 's \<times> message list \<Rightarrow> projector \<times> 's \<times> message list" where
  "proj_step create get listing b now pj w =
     (case w of (s, ms) \<Rightarrow>
      case pj_phase pj of
        Over r \<Rightarrow> (pj, s, ms)
      | Fetching \<Rightarrow>
          (pj\<lparr>pj_phase := (if pj_left pj = [] then Over (if pj_fault pj then Some Stream_Failed else None) else Looking)\<rparr>, s, ms)
      | Published e \<Rightarrow>
          (case pj_left pj of
             [] \<Rightarrow> (pj, s, ms)
           | h # rest \<Rightarrow>
               (case (if he_type h = ''response.completed'' then append_response b now h ms else (Inr (), ms)) of
                  (Inl er, ms') \<Rightarrow> (pj\<lparr>pj_phase := Over (Some er)\<rparr>, s, ms')
                | (Inr _, ms') \<Rightarrow>
                    (if stops e then (pj\<lparr>pj_phase := Over None\<rparr>, s, ms')
                     else (pj\<lparr>pj_left := rest, pj_phase := Fetching\<rparr>, s, ms'))))
      | ph \<Rightarrow>
          (case pj_left pj of
             [] \<Rightarrow> (pj, s, ms)
           | h # rest \<Rightarrow> (case append_piece create get listing b h ph s of (ph', s') \<Rightarrow> (pj\<lparr>pj_phase := ph'\<rparr>, s', ms))))"

section \<open>Projectors, other writers, crashes\<close>

text \<open>
  The tasks of all Gateway processes by process and run; \<open>bind\<close> is the stored binding of a run.
  \<^verbatim>\<open>start\<close> leaves a running task of its process alone; a task that is over may be started
  again. \<open>Stop\<close> is \<^verbatim>\<open>aclose\<close> or the end of the process.
\<close>

record 's gateway =
  gw_store :: 's
  gw_messages :: "message list"
  gw_pool :: "(nat \<times> string, projector) dict"

datatype gw_act =
    Start_Projector nat string "stream_line list"
  | Step_Projector nat string time
  | Stop_Projector nat string
  | Write_Event string agent_event

definition is_over :: "projector \<Rightarrow> bool" where
  "is_over pj = (case pj_phase pj of Over _ \<Rightarrow> True | _ \<Rightarrow> False)"

definition new_projector :: "string \<Rightarrow> stream_line list \<Rightarrow> projector" where
  "new_projector run lines =
     (case stream_events run 0 lines of (es, err) \<Rightarrow> \<lparr>pj_left = es, pj_fault = err, pj_phase = Fetching\<rparr>)"

fun gw_exec ::
  "'s create_op \<Rightarrow> 's get_op \<Rightarrow> 's listing_op \<Rightarrow> (string \<Rightarrow> run_binding) \<Rightarrow> 's gateway \<Rightarrow> gw_act \<Rightarrow> 's gateway" where
  "gw_exec create get listing bind g (Start_Projector p run lines) =
     (case map_of (gw_pool g) (p, run) of
        Some pj \<Rightarrow> if \<not> is_over pj then g
                   else g\<lparr>gw_pool := AList.update (p, run) (new_projector run lines) (gw_pool g)\<rparr>
      | None \<Rightarrow> g\<lparr>gw_pool := AList.update (p, run) (new_projector run lines) (gw_pool g)\<rparr>)"
| "gw_exec create get listing bind g (Step_Projector p run now) =
     (case map_of (gw_pool g) (p, run) of
        None \<Rightarrow> g
      | Some pj \<Rightarrow>
          (case proj_step create get listing (bind run) now pj (gw_store g, gw_messages g) of
             (pj', s', ms') \<Rightarrow>
               \<lparr>gw_store = s', gw_messages = ms', gw_pool = AList.update (p, run) pj' (gw_pool g)\<rparr>))"
| "gw_exec create get listing bind g (Stop_Projector p run) = g\<lparr>gw_pool := AList.delete (p, run) (gw_pool g)\<rparr>"
| "gw_exec create get listing bind g (Write_Event u e) = g\<lparr>gw_store := snd (create u e (gw_store g))\<rparr>"

definition gw_run ::
  "'s create_op \<Rightarrow> 's get_op \<Rightarrow> 's listing_op \<Rightarrow> (string \<Rightarrow> run_binding) \<Rightarrow> gw_act list \<Rightarrow> 's gateway \<Rightarrow> 's gateway" where
  "gw_run create get listing bind acts g = foldl (gw_exec create get listing bind) g acts"

definition new_gateway :: "'s \<Rightarrow> 's gateway" where
  "new_gateway s = \<lparr>gw_store = s, gw_messages = [], gw_pool = []\<rparr>"

section \<open>What the browser reads\<close>

definition snapshot_event_limit :: nat where
  "snapshot_event_limit = 256"

definition bounded_snapshot_events :: "agent_event list \<Rightarrow> agent_event list" where
  "bounded_snapshot_events es = drop (length es - snapshot_event_limit) es"

definition public_run_statuses :: "string list" where
  "public_run_statuses =
     [''accepted'', ''running'', ''suspended_operation'', ''suspended_confirmation'', ''suspended_authorization'',
      ''completed'', ''failed'', ''cancelled'']"

definition snapshot_status :: "agent_event list \<Rightarrow> string" where
  "snapshot_status es =
     (if es = [] then ''accepted''
      else case jget ''status'' (ae_payload (last es)) of
             JStr st \<Rightarrow> if st \<in> set public_run_statuses then st else ''accepted''
           | _ \<Rightarrow> ''accepted'')"

record snapshot =
  sn_status :: string
  sn_last_sequence :: nat
  sn_last_cursor :: string
  sn_events :: "agent_event list"
  sn_messages :: "message list"

datatype read_error = Run_Not_Found | Events_Unreadable gw_error

definition require_binding :: "(string \<Rightarrow> run_binding option) \<Rightarrow> string \<Rightarrow> string \<Rightarrow> string \<Rightarrow> read_error + run_binding" where
  "require_binding bindings user conv run =
     (case bindings run of
        None \<Rightarrow> Inl Run_Not_Found
      | Some b \<Rightarrow> if rb_user b \<noteq> user \<or> rb_conv b \<noteq> conv then Inl Run_Not_Found else Inr b)"

definition run_events :: "'s listing_op \<Rightarrow> run_binding \<Rightarrow> string \<Rightarrow> string \<Rightarrow> 's \<Rightarrow> read_error + agent_event list" where
  "run_events listing b user conv s =
     (case listing user conv s of
        Inl er \<Rightarrow> Inl (Events_Unreadable er)
      | Inr es \<Rightarrow> Inr (filter (\<lambda>e. ae_run e = rb_run b) es))"

text \<open>\<^verbatim>\<open>list_conversation_messages\<close> is called with its default limit of 200.\<close>

definition snapshot_of ::
  "'s listing_op \<Rightarrow> (string \<Rightarrow> run_binding option) \<Rightarrow> string \<Rightarrow> string \<Rightarrow> string \<Rightarrow> 's \<Rightarrow> message list \<Rightarrow> read_error + snapshot" where
  "snapshot_of listing bindings user conv run s ms =
     bind_result (require_binding bindings user conv run) (\<lambda>b.
     bind_result (run_events listing b user conv s) (\<lambda>es.
       Inr \<lparr>sn_status = snapshot_status es,
            sn_last_sequence = (if es = [] then 0 else ae_seq (last es)),
            sn_last_cursor = (if es = [] then [] else ae_cursor (last es)),
            sn_events = bounded_snapshot_events es,
            sn_messages = filter (\<lambda>m. ms_run m = Some run) (list_messages conv user 200 ms)\<rparr>))"

definition events_after_sequence ::
  "'s listing_op \<Rightarrow> (string \<Rightarrow> run_binding option) \<Rightarrow> string \<Rightarrow> string \<Rightarrow> string \<Rightarrow> nat \<Rightarrow> 's \<Rightarrow> read_error + agent_event list" where
  "events_after_sequence listing bindings user conv run n s =
     bind_result (require_binding bindings user conv run) (\<lambda>b.
     bind_result (run_events listing b user conv s) (\<lambda>es. Inr (filter (\<lambda>e. n < ae_seq e) es)))"

text \<open>
  The event stream of the browser (\<^verbatim>\<open>event_stream\<close> in the conversation router): every poll
  reads the events after the cursor in one state of the repository and the status in a later one. The
  result is what was sent and whether the stream ended because the status was terminal.
\<close>

definition stream_over :: "string \<Rightarrow> bool" where
  "stream_over st = (st \<in> {''completed'', ''failed'', ''cancelled''})"

fun sse_stream ::
  "'s listing_op \<Rightarrow> (string \<Rightarrow> run_binding option) \<Rightarrow> string \<Rightarrow> string \<Rightarrow> string \<Rightarrow> nat \<Rightarrow> ('s \<times> 's) list
   \<Rightarrow> agent_event list \<times> bool" where
  "sse_stream listing bindings user conv run cur [] = ([], False)"
| "sse_stream listing bindings user conv run cur ((s1, s2) # polls) =
     (case events_after_sequence listing bindings user conv run cur s1 of
        Inl er \<Rightarrow> ([], False)
      | Inr es \<Rightarrow>
          (case snapshot_of listing bindings user conv run s2 [] of
             Inl er \<Rightarrow> (es, False)
           | Inr sn \<Rightarrow>
               if stream_over (sn_status sn) then (es, True)
               else (case sse_stream listing bindings user conv run (if es = [] then cur else ae_seq (last es)) polls of
                       (rest, over) \<Rightarrow> (es @ rest, over))))"

end
