(* ===== verification/Harness_Laws.thy ===== *)
theory Harness_Laws
  imports Harness_Projector "HOL-Library.Sublist"
begin

text \<open>
  Why the projection of a run is faithful. The argument uses only the contract of the event repository
  (\<open>event_outbox\<close>): whatever projectors, crashes and other writers do, the events of the run are the
  public images of the first \<open>n\<close> events of the sidecar's log (\<open>mirrors\<close>), and every projector stands at
  most one event past them.
\<close>

section \<open>Identities survive normalisation\<close>

definition plain_char :: "char \<Rightarrow> bool" where
  "plain_char c = (\<not> is_space c)"

lemma strip_plain:
  assumes "list_all plain_char s"
  shows "py_strip s = s"
proof -
  have "dropWhile is_space s = s"
    using assms by (cases s) (auto simp: plain_char_def)
  moreover have "dropWhile is_space (rev s) = rev s"
  proof (cases "rev s")
    case (Cons c cs)
    then have "c \<in> set s" by (metis list.set_intros(1) set_rev)
    then show ?thesis using assms Cons by (auto simp: plain_char_def list_all_iff)
  qed simp
  ultimately show ?thesis by (simp add: py_strip_def)
qed

lemma hex_plain: "is_hex_digit c \<Longrightarrow> plain_char c"
  by (auto simp: is_hex_digit_def plain_char_def is_space_def Let_def)

lemma hex_id_plain:
  assumes "hex_id_ok pre s" and "list_all plain_char pre"
  shows "py_strip s = s" and "contract_strip s = s"
proof -
  have "s = pre @ drop (length pre) s"
    using assms(1) by (auto simp: hex_id_ok_def starts_with_def) (metis append_take_drop_id)
  moreover have "list_all plain_char (drop (length pre) s)"
    using assms(1) hex_plain by (auto simp: hex_id_ok_def list_all_iff)
  ultimately have "list_all plain_char s" using assms(2) by (metis list_all_append)
  then show "py_strip s = s" by (rule strip_plain)
  from \<open>list_all plain_char s\<close> have "list_all (\<lambda>c. \<not> is_white c) s"
    by (rule list.pred_mono_strong) (use white_is_space in \<open>auto simp: plain_char_def\<close>)
  then show "contract_strip s = s" by (rule contract_strip_plain)
qed

lemma run_id_strip: "hex_id_ok ''hrun_'' s \<Longrightarrow> py_strip s = s \<and> contract_strip s = s"
  using hex_id_plain [of "''hrun_''" s] by (simp add: plain_char_def is_space_def)

lemma event_id_strip: "hex_id_ok ''hevt_'' s \<Longrightarrow> py_strip s = s \<and> contract_strip s = s"
  using hex_id_plain [of "''hevt_''" s] by (simp add: plain_char_def is_space_def)

lemma checked_fields:
  assumes "checked_event u e = Inr (owner, n)"
  shows "ae_id n = py_strip (ae_id e)" and "ae_run n = py_strip (ae_run e)" and "ae_type n = ae_type e"
    and "ae_payload n = ae_payload e" and "owner = py_strip u" and "ae_conv n = py_strip (ae_conv e)"
  using assms
  by (auto simp: checked_event_def normalize_event_def bind_result_Inr_iff require_text_def Let_def split: if_splits)

section \<open>The stream\<close>

lemma stream_events_sound:
  "stream_events run prev lines = (es, err) \<Longrightarrow>
   list_all (\<lambda>e. envelope_ok e \<and> he_run e = run) es \<and> sorted_wrt (<) (prev # map he_seq es)"
proof (induction run prev lines arbitrary: es err rule: stream_events.induct)
  case (4 run prev e ls)
  show ?case
  proof (cases "envelope_ok e \<and> he_run e = run \<and> prev < he_seq e")
    case True
    obtain fs er where f: "stream_events run (he_seq e) ls = (fs, er)" by fastforce
    then have "es = e # fs" using 4(2) True by auto
    moreover have "list_all (\<lambda>e. envelope_ok e \<and> he_run e = run) fs \<and> sorted_wrt (<) (he_seq e # map he_seq fs)"
      using 4(1) [of fs er] f True by simp
    ultimately show ?thesis using True by (auto dest: less_trans)
  next
    case False
    then show ?thesis using 4(2) by (auto split: if_splits)
  qed
qed auto

text \<open>A log whose numbers increase passes the stream unchanged.\<close>

lemma stream_events_complete:
  "list_all (\<lambda>e. envelope_ok e \<and> he_run e = run) es \<Longrightarrow> sorted_wrt (<) (prev # map he_seq es) \<Longrightarrow>
   stream_events run prev (map Envelope es) = (es, False)"
  by (induction es arbitrary: prev) auto

section \<open>Mirrors\<close>

text \<open>The public image of an event: its identity, its public type and the payload after the contract.\<close>

definition public_image :: "harness_event \<Rightarrow> proj_error + string \<times> string \<times> json" where
  "public_image e = bind_result (gateway_image e) (\<lambda>(tp, tm). Inr (he_id e, fst tp, contract_json (snd tp)))"

text \<open>
  The projected events of a run in the outbox are those with an identity of the sidecar. Others write
  events of the run under identities of their own: an answered confirmation leaves an
  \<^verbatim>\<open>interrupt.responded\<close> or \<^verbatim>\<open>interrupt.closed\<close> event named
  \<^verbatim>\<open>hinterruptevt_...\<close>.
\<close>

definition is_projected :: "string \<Rightarrow> bool" where
  "is_projected i = starts_with ''hevt_'' i"

definition run_image :: "string \<Rightarrow> outbox \<Rightarrow> (proj_error + string \<times> string \<times> json) list" where
  "run_image r L = map (\<lambda>(u, e). Inr (ae_id e, ae_type e, ae_payload e))
     (filter (\<lambda>(u, e). ae_run e = r \<and> is_projected (ae_id e)) L)"

definition log_ids :: "harness_event list \<Rightarrow> string set" where
  "log_ids es = he_id ` set es"

text \<open>\<open>Q\<close> holds of the payloads that other writers give to events of the run.\<close>

definition mirrors :: "(json \<Rightarrow> bool) \<Rightarrow> string \<Rightarrow> harness_event list \<Rightarrow> nat \<Rightarrow> outbox \<Rightarrow> bool" where
  "mirrors Q r es n L =
     (n \<le> length es \<and> run_image r L = map public_image (take n es) \<and>
      (\<forall>(u, e) \<in> set L. (ae_id e \<in> log_ids es \<longrightarrow> ae_run e = r) \<and>
         (ae_run e = r \<and> \<not> is_projected (ae_id e) \<longrightarrow> Q (ae_payload e))))"

definition log_ok :: "string \<Rightarrow> harness_event list \<Rightarrow> bool" where
  "log_ok r es = (distinct (map he_id es) \<and> list_all (\<lambda>e. envelope_ok e \<and> he_run e = r) es)"

lemma run_image_append [simp]: "run_image r (L @ M) = run_image r L @ run_image r M"
  by (simp add: run_image_def)

lemma log_projected: "log_ok r es \<Longrightarrow> i < length es \<Longrightarrow> is_projected (he_id (es ! i))"
  by (auto simp: log_ok_def list_all_length envelope_ok_def hex_id_ok_def is_projected_def)

text \<open>An event of the log that is in the outbox is one of the first \<open>n\<close>, and conversely.\<close>

lemma mirrored_index:
  assumes "mirrors Q r es n L" and "log_ok r es" and "i < length es"
  shows "(\<exists>u e. (u, e) \<in> set L \<and> ae_id e = he_id (es ! i)) \<longleftrightarrow> i < n"
proof
  assume "\<exists>u e. (u, e) \<in> set L \<and> ae_id e = he_id (es ! i)"
  then obtain u e where e: "(u, e) \<in> set L" "ae_id e = he_id (es ! i)" by blast
  then have "ae_id e \<in> log_ids es" using assms(3) by (simp add: log_ids_def)
  then have "ae_run e = r" using assms(1) e(1) by (auto simp: mirrors_def)
  moreover have "is_projected (ae_id e)" unfolding e(2) by (rule log_projected [OF assms(2,3)])
  ultimately have "Inr (ae_id e, ae_type e, ae_payload e) \<in> set (run_image r L)"
    using e(1) by (auto simp: run_image_def intro!: image_eqI [of _ _ "(u, e)"])
  then have "Inr (ae_id e, ae_type e, ae_payload e) \<in> public_image ` set (take n es)"
    using assms(1) by (simp add: mirrors_def)
  then obtain x where x: "x \<in> set (take n es)" "public_image x = Inr (ae_id e, ae_type e, ae_payload e)" by auto
  then have "he_id x = he_id (es ! i)"
    using e(2) by (auto simp: public_image_def bind_result_Inr_iff split: prod.splits)
  moreover obtain j where j: "j < n" "j < length es" "x = es ! j" using x(1) by (auto simp: in_set_conv_nth)
  ultimately have "j = i"
    using assms(2,3) nth_eq_iff_index_eq [of "map he_id es" j i] by (simp add: log_ok_def)
  then show "i < n" using j(1) by simp
next
  assume "i < n"
  then have "es ! i \<in> set (take n es)" using assms(3) by (auto simp: in_set_conv_nth)
  then have "public_image (es ! i) \<in> set (run_image r L)" using assms(1) by (simp add: mirrors_def)
  then obtain p where "p \<in> set L" "public_image (es ! i) = (case p of (u, e) \<Rightarrow> Inr (ae_id e, ae_type e, ae_payload e))"
    unfolding run_image_def set_map set_filter by blast
  then obtain u e where "(u, e) \<in> set L" "public_image (es ! i) = Inr (ae_id e, ae_type e, ae_payload e)"
    using prod.exhaust [of p] by (metis (mono_tags, lifting) case_prod_conv)
  then show "\<exists>u e. (u, e) \<in> set L \<and> ae_id e = he_id (es ! i)"
    by (auto simp: public_image_def bind_result_Inr_iff split: prod.splits intro!: exI [of _ u] exI [of _ e])
qed

lemma mirrors_extend:
  assumes "mirrors Q r es n L" and "n < length es" and "ae_run e = r" and "is_projected (ae_id e)"
    and "public_image (es ! n) = Inr (ae_id e, ae_type e, ae_payload e)"
  shows "mirrors Q r es (Suc n) (L @ [(u, e)])"
  using assms by (auto simp: mirrors_def take_Suc_conv_app_nth run_image_def)

lemma mirrors_foreign:
  assumes "mirrors Q r es n L" and "ae_run e \<noteq> r \<or> \<not> is_projected (ae_id e) \<and> Q (ae_payload e)" and "ae_id e \<notin> log_ids es"
  shows "mirrors Q r es n (L @ [(u, e)])"
  using assms by (auto simp: mirrors_def run_image_def)

section \<open>Projectors that keep up\<close>

text \<open>
  A projector of the run has dealt with the first \<open>i\<close> events, all of them in the outbox; once it holds a
  stored event, the one at hand is in the outbox too.
\<close>

definition keeps_up :: "harness_event list \<Rightarrow> nat \<Rightarrow> projector \<Rightarrow> bool" where
  "keeps_up es n pj =
     (\<exists>i. prefix (pj_left pj) (drop i es) \<and>
        (if \<exists>e. pj_phase pj = Published e then pj_left pj = [] \<or> Suc i \<le> n else i \<le> n))"

definition entry_ok :: "string \<Rightarrow> harness_event list \<Rightarrow> nat \<Rightarrow> string \<Rightarrow> projector \<Rightarrow> bool" where
  "entry_ok r es n run pj =
     (list_all (\<lambda>e. envelope_ok e \<and> he_run e = run) (pj_left pj) \<and>
      (if run = r then keeps_up es n pj else log_ids (pj_left pj) \<inter> log_ids es = {}))"

lemma keeps_up_more: "keeps_up es n pj \<Longrightarrow> n \<le> m \<Longrightarrow> keeps_up es m pj"
  unfolding keeps_up_def by (metis le_trans)

lemma entry_ok_more: "entry_ok r es n run pj \<Longrightarrow> n \<le> m \<Longrightarrow> entry_ok r es m run pj"
  by (auto simp: entry_ok_def intro: keeps_up_more)

lemma prefix_drop_Cons:
  assumes "prefix (h # rest) (drop i es)"
  shows "i < length es" and "es ! i = h" and "prefix rest (drop (Suc i) es)"
proof -
  obtain zs where z: "drop i es = h # rest @ zs" using assms by (auto simp: prefix_def)
  then show "i < length es" by (metis drop_all linorder_not_le list.distinct(1))
  then show "es ! i = h" using z by (metis Cons_nth_drop_Suc list.inject)
  have "drop (Suc i) es = rest @ zs" using z by (metis drop_Suc tl_drop list.sel(3))
  then show "prefix rest (drop (Suc i) es)" by simp
qed

text \<open>
  A schedule is fair to the log \<open>es\<close> of run \<open>r\<close> when every stream of the run is a prefix of it, no
  other stream carries its event ids, and no other writer uses an identity of the sidecar. Other
  writers may use the run; \<open>writes_ok\<close> says what they put into its events.
\<close>

fun act_ok :: "string \<Rightarrow> harness_event list \<Rightarrow> gw_act \<Rightarrow> bool" where
  "act_ok r es (Start_Projector p run lines) =
     (let got = fst (stream_events run 0 lines)
      in if run = r then prefix got es else list_all (\<lambda>e. he_id e \<notin> set (map he_id es)) got)"
| "act_ok r es (Write_Event u e) = (\<not> is_projected (py_strip (ae_id e)))"
| "act_ok r es _ = True"

text \<open>The payloads of other writers are only restricted where a status is read from them.\<close>

fun writes_ok :: "(json \<Rightarrow> bool) \<Rightarrow> string \<Rightarrow> gw_act \<Rightarrow> bool" where
  "writes_ok Q r (Write_Event u e) = (py_strip (ae_run e) = r \<longrightarrow> Q (ae_payload e))"
| "writes_ok Q r _ = True"

definition pool_ok :: "string \<Rightarrow> harness_event list \<Rightarrow> nat \<Rightarrow> (nat \<times> string, projector) dict \<Rightarrow> bool" where
  "pool_ok r es n pool = (\<forall>((p, run), pj) \<in> set pool. entry_ok r es n run pj)"

lemma set_update: "set (AList.update k v m) \<subseteq> insert (k, v) (set m)"
  by (induction m) auto

lemma set_delete: "x \<in> set (AList.delete k m) \<Longrightarrow> x \<in> set m"
  by (induction m) (auto split: if_splits)

lemma pool_ok_update:
  "pool_ok r es n pool \<Longrightarrow> n \<le> m \<Longrightarrow> entry_ok r es m (snd k) pj \<Longrightarrow> pool_ok r es m (AList.update k pj pool)"
proof -
  assume p: "pool_ok r es n pool" "n \<le> m" "entry_ok r es m (snd k) pj"
  have "entry_ok r es m run qj" if "((q, run), qj) \<in> set (AList.update k pj pool)" for q run qj
  proof -
    from that set_update [of k pj pool] consider "(q, run) = k \<and> qj = pj" | "((q, run), qj) \<in> set pool" by blast
    then show ?thesis
    proof cases
      case 1
      then show ?thesis using p(3) by auto
    next
      case 2
      then show ?thesis using p(1,2) entry_ok_more unfolding pool_ok_def by blast
    qed
  qed
  then show ?thesis unfolding pool_ok_def by blast
qed

lemma pool_ok_entry: "pool_ok r es n pool \<Longrightarrow> map_of pool (p, run) = Some pj \<Longrightarrow> entry_ok r es n run pj"
  unfolding pool_ok_def by (fastforce dest: map_of_SomeD)

lemma new_projector_ok:
  assumes "act_ok r es (Start_Projector p run lines)"
  shows "entry_ok r es n run (new_projector run lines)"
proof -
  obtain got err where g: "stream_events run 0 lines = (got, err)" by fastforce
  have sound: "list_all (\<lambda>e. envelope_ok e \<and> he_run e = run) got" using stream_events_sound [OF g] by blast
  have new: "new_projector run lines = \<lparr>pj_left = got, pj_fault = err, pj_phase = Fetching\<rparr>"
    using g by (simp add: new_projector_def)
  show ?thesis
  proof (cases "run = r")
    case True
    then have "prefix got (drop 0 es)" using assms g by simp
    then have "keeps_up es n \<lparr>pj_left = got, pj_fault = err, pj_phase = Fetching\<rparr>"
      unfolding keeps_up_def by (intro exI [of _ 0]) simp
    then show ?thesis using sound new True by (simp add: entry_ok_def)
  next
    case False
    then have "\<forall>e \<in> set got. he_id e \<notin> he_id ` set es" using assms g by (simp add: list_all_iff)
    then show ?thesis using sound new False by (force simp: entry_ok_def log_ids_def)
  qed
qed

context event_outbox
begin

lemma create_cases:
  assumes "okay s" and "create u e s = (res, s')"
  obtains (failed) er where "res = Inl er" "view s' = view s"
  | (placed) rr owner n where "res = Inr rr" "checked_event u e = Inr (owner, n)"
      "place (other s) owner n (view s) = Inr rr" "view s' = view s @ [(owner, rr)]"
proof -
  have o: "outbox_create (other s) u e (view s) = (res, view s')"
    using create_refines [OF assms(1), of u e] assms(2) by simp
  show thesis
  proof (cases "checked_event u e")
    case (Inl er)
    then show thesis using o failed by (auto simp: outbox_create_def)
  next
    case (Inr p)
    obtain owner n where p: "p = (owner, n)" by (cases p)
    show thesis
    proof (cases "place (other s) owner n (view s)")
      case (Inl er)
      then have "outbox_create (other s) u e (view s) = (Inl er, view s)" using \<open>checked_event u e = Inr p\<close> p
        by (simp add: outbox_create_def)
      then show thesis using o failed [of er] by simp
    next
      case (Inr rr)
      then have "outbox_create (other s) u e (view s) = (Inr rr, view s @ [(owner, rr)])"
        using \<open>checked_event u e = Inr p\<close> p by (simp add: outbox_create_def)
      then show thesis using o placed [of rr owner n] \<open>checked_event u e = Inr p\<close> p Inr by simp
    qed
  qed
qed

lemma create_okay': "okay s \<Longrightarrow> create u e s = (res, s') \<Longrightarrow> okay s'"
  using create_okay [of s u e] by simp

lemma placed_fields:
  assumes "checked_event u e = Inr (owner, n)" and "place ot owner n L = Inr rr"
  shows "ae_id rr = py_strip (ae_id e)" and "ae_run rr = py_strip (ae_run e)" and "ae_type rr = ae_type e"
    and "ae_payload rr = ae_payload e" and "\<forall>u x. (u, x) \<in> set L \<longrightarrow> ae_id x \<noteq> ae_id rr"
proof -
  note r = place_record [OF assms(2)]
  show "ae_id rr = py_strip (ae_id e)" "ae_run rr = py_strip (ae_run e)" "ae_type rr = ae_type e"
    "ae_payload rr = ae_payload e"
    using checked_fields [OF assms(1)] r by simp_all
  have "\<not> list_ex (\<lambda>(u, x). ae_id x = ae_id n \<or> ae_conv x = ae_conv n \<and> ae_cursor x = ae_cursor n) L"
    using assms(2) by (auto simp: place_def Let_def split: if_splits)
  then show "\<forall>u x. (u, x) \<in> set L \<longrightarrow> ae_id x \<noteq> ae_id rr"
    using r by (auto simp: list_ex_iff)
qed

lemma get_found:
  assumes "okay s" and "get u i s = Inr (Some e)"
  shows "\<exists>owner. (owner, e) \<in> set (view s) \<and> ae_id e = py_strip i"
  using assms(2) unfolding get_refines [OF assms(1)]
  by (auto simp: bind_result_Inr_iff find_owned_def find_Some_iff require_text_def Let_def split: if_splits)
     (metis nth_mem)

lemma append_piece_cases:
  assumes "append_piece create get listing b h ph s = (ph', s')" and "okay s"
  shows "(okay s' \<and> view s' = view s \<and>
       (\<forall>e. ph' = Published e \<and> ph \<noteq> ph' \<longrightarrow> (\<exists>u. (u, e) \<in> set (view s) \<and> ae_id e = py_strip (he_id h)))) \<or>
     (\<exists>k m tp tm rr owner n. ph = Creating k m \<and> gateway_image h = Inr (tp, tm) \<and> ph' = Published rr \<and> okay s' \<and>
       view s' = view s @ [(owner, rr)] \<and> checked_event (rb_user b) (gateway_event b h m tp tm) = Inr (owner, n) \<and>
       place (other s) owner n (view s) = Inr rr)"
proof (cases ph)
  case Looking
  then show ?thesis using assms get_found [OF assms(2)]
    by (auto simp: append_piece_def look_up_def split: sum.splits option.splits)
next
  case (Trying k)
  then show ?thesis using assms get_found [OF assms(2)]
    by (auto simp: append_piece_def look_up_def split: sum.splits option.splits if_splits)
next
  case (Listing k)
  then show ?thesis using assms by (auto simp: append_piece_def list_prior_def split: sum.splits)
next
  case (Creating k m)
  show ?thesis
  proof (cases "gateway_image h")
    case (Inl er)
    then show ?thesis using assms Creating by (auto simp: append_piece_def)
  next
    case (Inr p)
    obtain tp tm where p: "gateway_image h = Inr (tp, tm)" using Inr by (cases p) simp
    obtain res t where c: "create (rb_user b) (gateway_event b h m tp tm) s = (res, t)" by fastforce
    note ok = create_okay' [OF assms(2) c]
    from assms(2) c show ?thesis
    proof (cases rule: create_cases)
      case (failed er)
      then show ?thesis using assms Creating p c ok
        by (cases er) (auto simp: append_piece_def)
    next
      case (placed rr owner n)
      then show ?thesis using assms Creating p c ok by (auto simp: append_piece_def)
    qed
  qed
qed (use assms in \<open>auto simp: append_piece_def\<close>)

text \<open>The piece of a projector keeps the mirror, and the projector keeps up with it.\<close>

lemma append_piece_mirrors:
  assumes m: "mirrors Q r es n (view s)" and log: "log_ok r es" and ok: "okay s"
    and run: "rb_run b = run" and he: "he_run h = run" and env: "envelope_ok h"
    and piece: "append_piece create get listing b h ph s = (ph', s')" and ph: "\<nexists>e. ph = Published e"
    and mine: "run = r \<Longrightarrow> i < length es \<and> es ! i = h \<and> i \<le> n" and not_mine: "run \<noteq> r \<Longrightarrow> he_id h \<notin> log_ids es"
  shows "okay s' \<and> (\<exists>m' \<ge> n. mirrors Q r es m' (view s') \<and> (run = r \<longrightarrow> (\<exists>e. ph' = Published e) \<longrightarrow> i < m'))"
proof -
  have ids: "py_strip (he_id h) = he_id h" "py_strip run = run" "contract_strip (he_id h) = he_id h" "contract_strip run = run"
    using env he event_id_strip run_id_strip by (auto simp: envelope_ok_def)
  from append_piece_cases [OF piece ok] show ?thesis
  proof (elim disjE exE conjE)
    assume o: "okay s'" "view s' = view s"
      and f: "\<forall>e. ph' = Published e \<and> ph \<noteq> ph' \<longrightarrow> (\<exists>u. (u, e) \<in> set (view s) \<and> ae_id e = py_strip (he_id h))"
    have "i < n" if rr: "run = r" and pub: "ph' = Published e" for e
    proof -
      note i = mine [OF rr]
      have "ph \<noteq> ph'" using ph pub by blast
      then obtain u where "(u, e) \<in> set (view s)" "ae_id e = he_id (es ! i)"
        using f pub ids(1) i by auto
      then show ?thesis using mirrored_index [OF m log] i by blast
    qed
    then show ?thesis using o m by auto
  next
    fix k q tp tm rr owner n'
    assume img: "gateway_image h = Inr (tp, tm)" and rr: "ph' = Published rr" "okay s'" "view s' = view s @ [(owner, rr)]"
      and ce: "checked_event (rb_user b) (gateway_event b h q tp tm) = Inr (owner, n')"
      and pl: "place (other s) owner n' (view s) = Inr rr"
    have f: "ae_id rr = he_id h" "ae_run rr = run" "ae_type rr = fst tp" "ae_payload rr = contract_json (snd tp)"
      "\<forall>u x. (u, x) \<in> set (view s) \<longrightarrow> ae_id x \<noteq> he_id h"
      using placed_fields [OF ce pl] ids run by (simp_all add: gateway_event_def)
    show ?thesis
    proof (cases "run = r")
      case True
      note i = mine [OF True]
      have "\<not> i < n"
      proof
        assume "i < n"
        then obtain u x where "(u, x) \<in> set (view s)" "ae_id x = he_id (es ! i)"
          using mirrored_index [OF m log] i by blast
        then show False using f(5) i by blast
      qed
      then have "i = n" using i by simp
      moreover have "public_image (es ! n) = Inr (ae_id rr, ae_type rr, ae_payload rr)"
        using i \<open>i = n\<close> img f by (simp add: public_image_def)
      ultimately have "mirrors Q r es (Suc n) (view s')"
        using mirrors_extend [OF m, of rr owner] i True f(2) rr(3) log_projected [OF log, of i] f(1) by simp
      then show ?thesis using rr(2) \<open>i = n\<close> by (intro conjI exI [of _ "Suc n"]) auto
    next
      case False
      then have "mirrors Q r es n (view s')"
        using mirrors_foreign [OF m, of rr owner] f not_mine rr(3) by simp
      then show ?thesis using rr(2) False by blast
    qed
  qed
qed

lemma proj_step_mirrors:
  assumes m: "mirrors Q r es n (view s)" and log: "log_ok r es" and ok: "okay s"
    and b: "rb_run b = run" and pj: "entry_ok r es n run pj"
    and step: "proj_step create get listing b now pj (s, ms) = (pj', s', ms')"
  shows "okay s' \<and> (\<exists>m' \<ge> n. mirrors Q r es m' (view s') \<and> entry_ok r es m' run pj')"
proof (cases "pj_left pj")
  case Nil
  then have "s' = s \<and> pj_left pj' = []"
    using step by (auto simp: proj_step_def split: phase.splits)
  moreover have "entry_ok r es n run pj'" if "pj_left pj' = []"
    using that pj by (auto simp: entry_ok_def keeps_up_def log_ids_def intro!: exI [of _ 0])
  ultimately show ?thesis using ok m by blast
next
  case (Cons h rest)
  have h: "envelope_ok h" "he_run h = run"
    and rest: "list_all (\<lambda>e. envelope_ok e \<and> he_run e = run) rest"
    using pj Cons by (simp_all add: entry_ok_def)
  show ?thesis
  proof (cases "\<exists>e. pj_phase pj = Published e")
    case True
    then obtain e where e: "pj_phase pj = Published e" by blast
    have same: "s' = s" and pj': "pj_left pj' = pj_left pj \<and> (\<exists>x. pj_phase pj' = Over x) \<or> pj_left pj' = rest \<and> pj_phase pj' = Fetching"
      using step e Cons by (auto simp: proj_step_def split: if_splits sum.splits prod.splits)
    have "entry_ok r es n run pj'"
    proof (cases "run = r")
      case True
      then obtain i where i: "prefix (h # rest) (drop i es)" "Suc i \<le> n"
        using pj e Cons by (auto simp: entry_ok_def keeps_up_def)
      have "prefix rest (drop (Suc i) es)" using prefix_drop_Cons [OF i(1)] by blast
      then have "keeps_up es n pj'"
        using pj' i Cons unfolding keeps_up_def
        by (elim disjE conjE exE) (auto intro: exI [of _ i] exI [of _ "Suc i"])
      then show ?thesis using True pj' rest h Cons by (auto simp: entry_ok_def)
    next
      case False
      have "log_ids (pj_left pj') \<subseteq> log_ids (pj_left pj)" using pj' Cons by (auto simp: log_ids_def)
      moreover have "list_all (\<lambda>e. envelope_ok e \<and> he_run e = run) (pj_left pj')" using pj' rest h Cons by auto
      ultimately show ?thesis using pj False unfolding entry_ok_def by auto
    qed
    then show ?thesis using ok m same by blast
  next
    case False
    show ?thesis
    proof (cases "(\<exists>x. pj_phase pj = Over x) \<or> pj_phase pj = Fetching")
      case True
      then have "s' = s \<and> pj_left pj' = pj_left pj \<and> (\<nexists>e. pj_phase pj' = Published e)"
        using step False Cons by (auto simp: proj_step_def)
      then show ?thesis using ok m pj False by (auto simp: entry_ok_def keeps_up_def)
    next
      case working: False
      obtain ph' t where piece: "append_piece create get listing b h (pj_phase pj) s = (ph', t)" by fastforce
      have out: "pj' = pj\<lparr>pj_phase := ph'\<rparr>" "s' = t"
        using step Cons piece False working by (auto simp: proj_step_def split: phase.splits)
      have mine: "\<exists>i. prefix (h # rest) (drop i es) \<and> i \<le> n" if "run = r"
        using pj that Cons False by (auto simp: entry_ok_def keeps_up_def)
      have not_mine: "run \<noteq> r \<Longrightarrow> he_id h \<notin> log_ids es"
        using pj Cons by (auto simp: entry_ok_def log_ids_def)
      show ?thesis
      proof (cases "run = r")
        case True
        then obtain i where i: "prefix (h # rest) (drop i es)" "i \<le> n" using mine by blast
        obtain m' where m': "okay t" "n \<le> m'" "mirrors Q r es m' (view t)" "(\<exists>e. ph' = Published e) \<Longrightarrow> i < m'"
          using append_piece_mirrors [OF m log ok b h(2,1) piece False, of i] prefix_drop_Cons [OF i(1)] i(2) True by auto
        have "keeps_up es m' pj'"
          using i m' out Cons unfolding keeps_up_def by (intro exI [of _ i]) auto
        then have "entry_ok r es m' run pj'" using True pj out by (simp add: entry_ok_def)
        then show ?thesis using m' out by blast
      next
        case other_run: False
        obtain m' where m': "okay t" "n \<le> m'" "mirrors Q r es m' (view t)"
          using append_piece_mirrors [OF m log ok b h(2,1) piece False] not_mine other_run by auto
        then have "entry_ok r es m' run pj'" using other_run pj out by (simp add: entry_ok_def)
        then show ?thesis using m' out by blast
      qed
    qed
  qed
qed

lemma gw_exec_mirrors:
  assumes log: "log_ok r es" and bind: "\<forall>run. rb_run (bind run) = run" and act: "act_ok r es a" and wr: "writes_ok Q r a"
    and ok: "okay (gw_store g)" and m: "mirrors Q r es n (view (gw_store g))" and pool: "pool_ok r es n (gw_pool g)"
  shows "\<exists>m \<ge> n. okay (gw_store (gw_exec create get listing bind g a)) \<and>
      mirrors Q r es m (view (gw_store (gw_exec create get listing bind g a))) \<and>
      pool_ok r es m (gw_pool (gw_exec create get listing bind g a))"
proof (cases a)
  case (Start_Projector p run lines)
  then have "gw_exec create get listing bind g a = g \<or>
      gw_exec create get listing bind g a = g\<lparr>gw_pool := AList.update (p, run) (new_projector run lines) (gw_pool g)\<rparr>"
    by (auto split: option.splits)
  moreover have "pool_ok r es n (AList.update (p, run) (new_projector run lines) (gw_pool g))"
    using pool new_projector_ok [OF act [unfolded Start_Projector]] by (auto intro: pool_ok_update)
  ultimately show ?thesis using ok m pool by (intro exI [of _ n]) auto
next
  case (Step_Projector p run now)
  show ?thesis
  proof (cases "map_of (gw_pool g) (p, run)")
    case None
    then show ?thesis using Step_Projector ok m pool by auto
  next
    case (Some pj)
    obtain pj' s' ms' where st: "proj_step create get listing (bind run) now pj (gw_store g, gw_messages g) = (pj', s', ms')"
      by (metis prod.exhaust)
    have b: "rb_run (bind run) = run" using bind by simp
    from proj_step_mirrors [OF m log ok b pool_ok_entry [OF pool Some] st]
    obtain k where "okay s'" "n \<le> k" "mirrors Q r es k (view s')" "entry_ok r es k run pj'" by blast
    moreover from this have "pool_ok r es k (AList.update (p, run) pj' (gw_pool g))" using pool by (auto intro: pool_ok_update)
    ultimately show ?thesis using Step_Projector Some st by (intro exI [of _ k]) auto
  qed
next
  case (Stop_Projector p run)
  have "pool_ok r es n (AList.delete (p, run) (gw_pool g))"
    using pool set_delete unfolding pool_ok_def by fast
  then show ?thesis using Stop_Projector ok m by (intro exI [of _ n]) auto
next
  case (Write_Event u e)
  obtain res s' where c: "create u e (gw_store g) = (res, s')" by fastforce
  note ok' = create_okay' [OF ok c]
  have "mirrors Q r es n (view s')"
    using ok c
  proof (cases rule: create_cases)
    case (failed er)
    then show ?thesis using m by simp
  next
    case (placed rr owner k)
    have id: "\<not> is_projected (ae_id rr)" and "ae_run rr \<noteq> r \<or> Q (ae_payload rr)"
      using placed_fields [OF placed(2,3)] act wr Write_Event by auto
    moreover have "ae_id rr \<notin> log_ids es"
      using id log_projected [OF log] by (auto simp: log_ids_def in_set_conv_nth)
    ultimately have "ae_run rr \<noteq> r \<or> \<not> is_projected (ae_id rr) \<and> Q (ae_payload rr)" "ae_id rr \<notin> log_ids es" by auto
    then show ?thesis using mirrors_foreign [OF m] placed(4) by simp
  qed
  then show ?thesis using Write_Event c ok' pool by (intro exI [of _ n]) simp
qed

lemma append_piece_okay:
  assumes "append_piece create get listing b h ph s = (ph', s')" and "okay s"
  shows "okay s'"
  using append_piece_cases [OF assms] by blast

lemma exec_okay: "okay (gw_store g) \<Longrightarrow> okay (gw_store (gw_exec create get listing bind g a))"
proof (cases a)
  case (Step_Projector p run now)
  assume ok: "okay (gw_store g)"
  have "okay s'" if "proj_step create get listing b now pj (gw_store g, ms) = (pj', s', ms')" for b pj ms pj' s' ms'
    using that ok
    by (auto simp: proj_step_def split: phase.splits list.splits sum.splits prod.splits if_splits
        dest: append_piece_okay)
  then show ?thesis using Step_Projector ok by (auto split: option.splits prod.splits)
qed (auto simp: create_okay split: option.splits)

lemma gw_run_mirrors:
  assumes log: "log_ok r es" and bind: "\<forall>run. rb_run (bind run) = run"
  shows "list_all (act_ok r es) acts \<Longrightarrow> list_all (writes_ok Q r) acts \<Longrightarrow> okay (gw_store g) \<Longrightarrow> mirrors Q r es n (view (gw_store g)) \<Longrightarrow>
    pool_ok r es n (gw_pool g) \<Longrightarrow>
    \<exists>m \<ge> n. okay (gw_store (gw_run create get listing bind acts g)) \<and>
      mirrors Q r es m (view (gw_store (gw_run create get listing bind acts g)))"
proof (induction acts arbitrary: g n)
  case Nil
  then show ?case by (auto simp: gw_run_def)
next
  case (Cons a acts)
  have a: "act_ok r es a" "writes_ok Q r a" and rest: "list_all (act_ok r es) acts" "list_all (writes_ok Q r) acts"
    using Cons.prems(1,2) by simp_all
  from gw_exec_mirrors [OF log bind a Cons.prems(3-5)] obtain k where k: "n \<le> k"
    "okay (gw_store (gw_exec create get listing bind g a))"
    "mirrors Q r es k (view (gw_store (gw_exec create get listing bind g a)))"
    "pool_ok r es k (gw_pool (gw_exec create get listing bind g a))" by blast
  have unfold: "gw_run create get listing bind (a # acts) g = gw_run create get listing bind acts (gw_exec create get listing bind g a)"
    by (simp add: gw_run_def)
  from Cons.IH [OF rest k(2-4)] k(1) show ?case unfolding unfold by (meson le_trans)
qed

text \<open>From a state without events of the run and without running projectors.\<close>

lemma projection_mirrors:
  assumes "log_ok r es" and "\<forall>run. rb_run (bind run) = run" and "list_all (act_ok r es) acts"
    and "list_all (writes_ok Q r) acts" and "okay s" and "view s = []"
  shows "\<exists>n. mirrors Q r es n (view (gw_store (gw_run create get listing bind acts (new_gateway s)))) \<and>
      outbox_ok (view (gw_store (gw_run create get listing bind acts (new_gateway s))))"
proof -
  have "mirrors Q r es 0 (view s)" using assms(6) by (simp add: mirrors_def run_image_def)
  then show ?thesis
    using gw_run_mirrors [OF assms(1-4), of "new_gateway s" 0] assms(5)
    by (auto simp: new_gateway_def pool_ok_def intro: view_ok)
qed

end

end
