(* ===== verification/Harness_Claims.thy ===== *)
theory Harness_Claims
  imports Harness_Laws Gateway_Claims Sidecar_Replay
begin

text \<open>
  The properties of the event path from the sidecar to the browser: the Gateway's outbox mirrors the
  sidecar's log under any interleaving, and two places where the browser does not see the run as it is.
\<close>

section \<open>The log the sidecar serves\<close>

definition wire :: "(string \<Rightarrow> time option) \<Rightarrow> event_row \<Rightarrow> harness_event" where
  "wire tsp e =
     \<lparr>he_run = ev_run e, he_id = ev_id e, he_seq = ev_seq e, he_type = ev_type e, he_at = tsp (ev_at e),
      he_payload = ev_payload e\<rparr>"

text \<open>
  What \<^verbatim>\<open>stream_sidecar_events\<close> yields when it reads the whole log of a run: nothing when
  the sidecar raises while it reads the log.
\<close>

definition served :: "(string \<Rightarrow> time option) \<Rightarrow> string \<Rightarrow> store \<Rightarrow> harness_event list" where
  "served tsp r s =
     (case events_after r 0 s of
        Inl _ \<Rightarrow> []
      | Inr es \<Rightarrow> fst (stream_events r 0 (map (\<lambda>e. Envelope (wire tsp e)) es)))"

lemma stream_events_subseq:
  "\<exists>ys. es = map wire' ys \<and> prefix ys xs" if "stream_events r n (map (\<lambda>e. Envelope (wire' e)) xs) = (es, err)"
  for wire' :: "'a \<Rightarrow> harness_event"
  using that
proof (induction xs arbitrary: n es)
  case (Cons x xs)
  show ?case
  proof (cases "envelope_ok (wire' x) \<and> he_run (wire' x) = r \<and> n < he_seq (wire' x)")
    case True
    obtain fs er where f: "stream_events r (he_seq (wire' x)) (map (\<lambda>e. Envelope (wire' e)) xs) = (fs, er)" by fastforce
    from Cons.IH [of "he_seq (wire' x)" fs] f True Cons.prems obtain ys where "fs = map wire' ys" "prefix ys xs" by auto
    then show ?thesis using f True Cons.prems by (intro exI [of _ "x # ys"]) auto
  next
    case False
    then show ?thesis using Cons.prems by (intro exI [of _ "[]"]) (auto split: if_splits)
  qed
qed auto

lemma served_cases:
  assumes "svc_reachable H sv"
  obtains (unread) "served tsp r (sv_store sv) = []"
  | (read) err where
      "stream_events r 0 (map (\<lambda>e. Envelope (wire tsp e)) (events_of r (sv_store sv))) = (served tsp r (sv_store sv), err)"
proof -
  have ok: "events_ok H (sv_store sv)" using reachable_run_inv [OF assms] by (simp add: run_inv_def store_inv_def)
  obtain es err where es: "stream_events r 0 (map (\<lambda>e. Envelope (wire tsp e)) (events_of r (sv_store sv))) = (es, err)"
    by fastforce
  show thesis
  proof (cases "readable r (events_of r (sv_store sv))")
    case True
    then have "served tsp r (sv_store sv) = es" by (simp add: served_def events_after_drop [OF ok] es)
    with es read show thesis by blast
  next
    case False
    then show thesis using unread by (simp add: served_def events_after_drop [OF ok])
  qed
qed

lemma served_events:
  assumes "svc_reachable H sv"
  obtains ys where "served tsp r (sv_store sv) = map (wire tsp) ys" and "prefix ys (events_of r (sv_store sv))"
  using assms
proof (cases rule: served_cases [where tsp = tsp and r = r])
  case unread
  then show thesis using that [of "[]"] by simp
next
  case (read err)
  from stream_events_subseq [OF read] that show thesis by blast
qed

lemma served_log_ok:
  assumes "svc_reachable H sv"
  shows "log_ok r (served tsp r (sv_store sv))"
proof -
  have "events_ok H (sv_store sv)" using reachable_run_inv [OF assms] by (simp add: run_inv_def store_inv_def)
  then have "distinct (map ev_id (events_of r (sv_store sv)))"
    by (simp add: events_ok_def events_of_def distinct_map_filter)
  moreover obtain ys where "served tsp r (sv_store sv) = map (wire tsp) ys" "prefix ys (events_of r (sv_store sv))"
    by (rule served_events [OF assms])
  ultimately have d: "distinct (map he_id (served tsp r (sv_store sv)))"
    by (auto simp: wire_def o_def prefix_def)
  from assms show ?thesis
  proof (cases rule: served_cases [where tsp = tsp and r = r])
    case unread
    then show ?thesis by (simp add: log_ok_def)
  next
    case (read err)
    from stream_events_sound [OF read] d show ?thesis by (simp add: log_ok_def)
  qed
qed

lemma any_writes: "list_all (writes_ok (\<lambda>_. True) r) acts"
proof -
  have "writes_ok (\<lambda>_. True) r a" for a by (cases a) simp_all
  then show ?thesis by (simp add: list_all_iff)
qed

text \<open>
  C17. The Gateway's outbox mirrors the sidecar's log. Take any reachable state of the sidecar and any
  schedule of the Gateway in which every stream of the run is a prefix of what the sidecar serves: any
  number of projectors of any number of processes, restarted from the first event as often as they like,
  stopped at any await, interleaved with the projectors of other runs and with other writers, which may
  write events of the same run too but not under an identity of the sidecar (\<^verbatim>\<open>hevt_...\<close>). Then the
  projected events of the run in the SQL outbox (those with an identity of the sidecar) are exactly the
  public images of the first \<open>n\<close> events of the log for some \<open>n\<close>, in their order, none missing and none
  twice; and every conversation is numbered without gaps. The public image holds the payload as the
  contract \<^verbatim>\<open>AgentEvent\<close> leaves it, stripped of the white space around its strings.
\<close>

theorem gateway_mirrors_sidecar:
  assumes "svc_reachable H sv" and "es = served tsp r (sv_store sv)"
    and "\<forall>run. rb_run (bind run) = run" and "list_all (act_ok r es) acts"
    and "g = gw_run sql_create_event sql_get_event sql_list_events bind acts (new_gateway (new_sql_events owners))"
  shows "\<exists>n \<le> length es. run_image r (sql_view (gw_store g)) = map public_image (take n es) \<and>
    (\<forall>c. map ae_seq (conversation c (sql_view (gw_store g))) = [1..<Suc (length (conversation c (sql_view (gw_store g))))])"
proof -
  have log: "log_ok r es" unfolding assms(2) by (rule served_log_ok [OF assms(1)])
  have new: "sql_ok (new_sql_events owners)" "sql_view (new_sql_events owners) = []"
    by (simp_all add: new_sql_events_def sql_ok_def sql_view_def)
  obtain n where "mirrors (\<lambda>_. True) r es n (sql_view (gw_store g))" "outbox_ok (sql_view (gw_store g))"
    using sql_outbox.projection_mirrors [OF log assms(3,4) any_writes new] assms(5) by blast
  then show ?thesis unfolding mirrors_def outbox_ok_def by blast
qed

section \<open>A run whose model sends a long chunk\<close>

definition hexes :: "string \<Rightarrow> string" where
  "hexes s = replicate 31 CHR ''a'' @ [last (''0'' @ s)]"

definition long_run :: string where
  "long_run = ''hrun_'' @ hexes ''0''"

definition long_request :: run_request where
  "long_request = \<lparr>rq_key = ''k0'', rq_digest = ''d1''\<rparr>"

definition long_catalog :: skill_catalog where
  "long_catalog = \<lparr>sc_digest = catalog_digest hexes [], sc_entries = []\<rparr>"

definition long_started :: service where
  "long_started = task_start hexes ''t1'' long_run (snd (activate_run long_run
     (snd (create_run hexes ''t0'' True (Inr long_catalog) ''e'' ''1'' long_request init_service))))"

definition long_published :: service where
  "long_published = long_started\<lparr>sv_store := snd (append_event hexes ''t2'' long_run ''response.delta''
     (delta_payload (replicate 513 CHR ''x'')) (sv_store long_started))\<rparr>"

definition long_result :: engine_result where
  "long_result = \<lparr>er_response = ''done'', er_finish = Some ''completed'', er_tools = [], er_tool_results = False,
     er_suspension = None, er_interrupt = None, er_deltas = [], er_summaries = [], er_emitted = True\<rparr>"

definition long_closed :: service where
  "long_closed = forget long_run (long_published\<lparr>sv_store := run_piece hexes ''t3'' long_run
     (finish_run hexes ''t3'' long_run long_result (sv_store long_published)),
     sv_threads := removeAll long_run (sv_threads long_published)\<rparr>)"

lemma long_task:
  "map_of (sv_tasks (snd (activate_run long_run (snd (create_run hexes ''t0'' True (Inr long_catalog) ''e'' ''1'' long_request init_service)))))
     long_run = Some \<lparr>tk_state = Scheduled, tk_cancel = False\<rparr>"
  by code_simp

lemma long_thread: "sv_threads long_published = [long_run]"
  by code_simp

lemma long_engine: "map_of (sv_tasks long_published) long_run = Some \<lparr>tk_state = In_Engine, tk_cancel = False\<rparr>"
  by code_simp

lemma long_started_thread: "sv_threads long_started = [long_run]"
  by code_simp

lemma long_reachable: "svc_reachable hexes long_closed"
proof -
  have "svc_reachable hexes (snd (create_run hexes ''t0'' True (Inr long_catalog) ''e'' ''1'' long_request init_service))"
    by (rule svc_reachable.step [OF svc_reachable.start svc_step.create])
  then have "svc_reachable hexes (snd (activate_run long_run
      (snd (create_run hexes ''t0'' True (Inr long_catalog) ''e'' ''1'' long_request init_service))))"
    by (rule svc_reachable.step) (rule svc_step.activate)
  then have "svc_reachable hexes long_started"
    unfolding long_started_def by (rule svc_reachable.step) (rule svc_step.task_begin [OF long_task])
  then have "svc_reachable hexes long_published"
    unfolding long_published_def
    by (rule svc_reachable.step) (rule svc_step.publish, simp_all add: long_started_thread public_event_type_def)
  then show ?thesis
    unfolding long_closed_def by (rule svc_reachable.step) (rule svc_step.engine_return [OF long_engine])
qed

lemma long_log:
  "let s = sv_store long_closed; es = events_of long_run s in
   map ev_type es = [''run.accepted'', ''run.started'', ''public_summary.delta'', ''response.delta'', ''response.completed'', ''run.completed''] \<and>
   map ev_seq es = [1, 2, 3, 4, 5, 6] \<and> list_all (\<lambda>e. envelope_ok (wire (\<lambda>_. None) e)) es \<and>
   ev_payload (es ! 3) = JObj [(''delta'', JStr (replicate 513 CHR ''x''))] \<and>
   map_option rr_status (run_by_id s long_run) = Some run_status.Completed"
  by code_simp

definition demo_binding :: "string \<Rightarrow> run_binding" where
  "demo_binding run = \<lparr>rb_run = run, rb_session = ''s'', rb_user = ''u'', rb_conv = ''c'', rb_ws = ''w'', rb_rev = 1,
     rb_context = [], rb_toolset = [], rb_manifest = [], rb_request = []\<rparr>"

text \<open>
  The first two events of the run, and two processes that project it while another writer appends an event
  of another run and the answer to a confirmation of this run.
\<close>

definition demo_event :: "nat \<Rightarrow> string \<Rightarrow> string \<Rightarrow> harness_event" where
  "demo_event n ty st =
     \<lparr>he_run = long_run, he_id = ''hevt_'' @ hexes (show_nat n), he_seq = n, he_type = ty, he_at = Some 5,
      he_payload = JObj [(''status'', JStr st)]\<rparr>"

definition demo_log :: "harness_event list" where
  "demo_log = [demo_event 1 ''run.accepted'' ''accepted'', demo_event 2 ''run.started'' ''running'']"

definition demo_acts :: "gw_act list" where
  "demo_acts =
     (let lines = map Envelope demo_log; a = Step_Projector 0 long_run 7; b = Step_Projector 1 long_run 8
      in [Start_Projector 0 long_run lines, Start_Projector 1 long_run (take 1 lines), a, b, a, b, a, b, a, b, a, b,
          Write_Event ''u'' \<lparr>ae_id = ''e9'', ae_seq = 0, ae_cursor = ''k9'', ae_conv = ''c'', ae_run = ''r9'', ae_time = 6,
            ae_type = ''error.raised'', ae_payload = JNull\<rparr>,
          Write_Event ''u'' \<lparr>ae_id = ''hinterruptevt_1'', ae_seq = 3, ae_cursor = ''hinterruptevt_1'', ae_conv = ''c'',
            ae_run = long_run, ae_time = 6, ae_type = ''interrupt.responded'',
            ae_payload = JObj [(''interrupt_id'', JStr ''i1''), (''kind'', JStr ''confirmation'')]\<rparr>, b, Stop_Projector 1 long_run, a, a, a, a, a, a])"

definition demo_gateway :: "sql_events gateway" where
  "demo_gateway = gw_run sql_create_event sql_get_event sql_list_events demo_binding demo_acts (new_gateway (new_sql_events []))"

lemma demo_run:
  "map (\<lambda>(u, e). (ae_seq e, ae_type e)) (sql_view (gw_store demo_gateway)) =
     [(1, ''run.state_changed''), (2, ''error.raised''), (3, ''interrupt.responded''), (4, ''run.state_changed'')]"
  by code_simp

definition long_served :: "harness_event list" where
  "long_served = served (\<lambda>_. Some 5) long_run (sv_store long_closed)"

lemma demo_fair: "list_all (act_ok long_run long_served) demo_acts"
  by code_simp

lemma gateway_mirrors_sidecar_witness:
  "\<exists>n \<le> length long_served. run_image long_run (sql_view (gw_store demo_gateway)) = map public_image (take n long_served)"
proof -
  have b: "\<forall>run. rb_run (demo_binding run) = run" by (simp add: demo_binding_def)
  show ?thesis
    using gateway_mirrors_sidecar [OF long_reachable long_served_def b demo_fair demo_gateway_def] by blast
qed

text \<open>
  A chunk of the answer loses its blanks on the way: \<^verbatim>\<open>_public_event\<close> passes the text of a
  \<^verbatim>\<open>response.delta\<close> on as it is, and \<^verbatim>\<open>AgentEvent\<close> strips it, so the chunks
  no longer add up to the answer.
\<close>

definition chunk :: "nat \<Rightarrow> string \<Rightarrow> harness_event" where
  "chunk n t = (demo_event n ''response.delta'' [])\<lparr>he_payload := delta_payload t\<rparr>"

lemma chunks_lose_blanks:
  "map (\<lambda>e. case public_image e of Inl _ \<Rightarrow> JNull | Inr (i, ty, p) \<Rightarrow> jget ''delta'' p) [chunk 3 ''Hello'', chunk 4 '' world''] =
     [JStr ''Hello'', JStr ''world'']"
  by code_simp

text \<open>
  The answer to a confirmation is an event of the suspended run, and it has no status: the snapshot of the
  run, which reads the status of its last event, falls back to \<^verbatim>\<open>accepted\<close>.
\<close>

definition suspended_event :: harness_event where
  "suspended_event = (demo_event 2 ''run.suspended'' [])\<lparr>he_payload :=
     JObj [(''status'', JStr ''suspended_confirmation''), (''interrupt_id'', JStr ''i1'')]\<rparr>"

definition answered :: "bool \<Rightarrow> sql_events" where
  "answered b = gw_store (gw_run sql_create_event sql_get_event sql_list_events demo_binding
     (Start_Projector 0 long_run [Envelope suspended_event] # replicate 5 (Step_Projector 0 long_run 7) @
      (if b then [Write_Event ''u'' \<lparr>ae_id = ''hinterruptevt_1'', ae_seq = 2, ae_cursor = ''hinterruptevt_1'', ae_conv = ''c'',
        ae_run = long_run, ae_time = 8, ae_type = ''interrupt.responded'',
        ae_payload = JObj [(''interrupt_id'', JStr ''i1''), (''kind'', JStr ''confirmation'')]\<rparr>] else []))
     (new_gateway (new_sql_events [])))"

lemma answer_hides_suspension:
  "map_sum id sn_status (snapshot_of sql_list_events (\<lambda>run. Some (demo_binding run)) ''u'' ''c'' long_run (answered False) []) =
     Inr ''suspended_confirmation'' \<and>
   map_sum id sn_status (snapshot_of sql_list_events (\<lambda>run. Some (demo_binding run)) ''u'' ''c'' long_run (answered True) []) =
     Inr ''accepted''"
  by code_simp

lemma long_rejected:
  assumes "gateway_image h = Inl er" and "mirrors Q r es n L" and "i < length es" and "es ! i = h"
  shows "n \<le> i"
proof (rule ccontr)
  assume "\<not> n \<le> i"
  then have "i < length (take n es)" "take n es ! i = h" using assms(3,4) by simp_all
  then have "public_image h \<in> set (map public_image (take n es))" by (metis nth_mem imageI set_map)
  then have "public_image h \<in> set (run_image r L)" using assms(2) by (simp add: mirrors_def)
  then show False using assms(1) by (auto simp: run_image_def public_image_def)
qed

definition early_status :: "json \<Rightarrow> bool" where
  "early_status j = (jget ''status'' j = JStr ''accepted'' \<or> jget ''status'' j = JStr ''running'' \<or> jget ''status'' j = JNull)"

lemma snapshot_status_early:
  "(\<And>e. e \<in> set es \<Longrightarrow> early_status (ae_payload e)) \<Longrightarrow> snapshot_status es \<in> {''accepted'', ''running''}"
  by (cases "es = []") (fastforce simp: snapshot_status_def early_status_def public_run_statuses_def dest: last_in_set)+

lemma public_event_wire: "public_event (wire tsp e) = public_event (wire (\<lambda>_. None) e)"
  by (simp only: public_event_def public_run_event_def run_status_of_def Let_def wire_def harness_event.simps)

lemma long_first_three:
  "list_all (\<lambda>e. case public_event (wire (\<lambda>_. None) e) of Inl er \<Rightarrow> True | Inr tp \<Rightarrow> early_status (contract_json (snd tp)))
     (take 3 (events_of long_run (sv_store long_closed)))"
  by code_simp

lemma long_fourth: "public_event (wire (\<lambda>_. None) (events_of long_run (sv_store long_closed) ! 3)) = Inl Unsafe_Event"
  by code_simp

text \<open>What the outbox can hold of that run.\<close>

lemma long_outbox:
  assumes "mirrors early_status long_run (served tsp long_run (sv_store long_closed)) n L" and "(u, e) \<in> set L"
    and "ae_run e = long_run" and "is_projected (ae_id e)"
  shows "early_status (ae_payload e)"
proof -
  let ?es = "served tsp long_run (sv_store long_closed)" and ?evs = "events_of long_run (sv_store long_closed)"
  obtain ys where ys: "?es = map (wire tsp) ys" "prefix ys ?evs" by (rule served_events [OF long_reachable])
  have nth: "?es ! i = wire tsp (?evs ! i)" if "i < length ?es" for i
    using ys that by (auto simp: prefix_def nth_append)
  have "n \<le> 3"
  proof (cases "3 < length ?es")
    case True
    have "gateway_image (?es ! 3) = Inl Unsafe_Event"
      using long_fourth public_event_wire [of tsp "?evs ! 3"] nth [OF True] by (simp add: gateway_image_def)
    then show ?thesis using long_rejected [OF _ assms(1) True] by blast
  next
    case False
    then show ?thesis using assms(1) by (simp add: mirrors_def)
  qed
  have "Inr (ae_id e, ae_type e, ae_payload e) \<in> set (run_image long_run L)"
    using assms(2,3,4) by (auto simp: run_image_def intro!: image_eqI [of _ _ "(u, e)"])
  then obtain x where x: "x \<in> set (take n ?es)" "public_image x = Inr (ae_id e, ae_type e, ae_payload e)"
    using assms(1) by (auto simp: mirrors_def)
  then obtain j where j: "j < n" "j < length ?es" "x = ?es ! j" by (auto simp: in_set_conv_nth)
  have "j < length ?evs" using j(2) ys by (auto simp: prefix_def)
  then have mem: "?evs ! j \<in> set (take 3 ?evs)" using j(1) \<open>n \<le> 3\<close> by (auto simp: in_set_conv_nth intro!: exI [of _ j])
  obtain tp where tp: "public_event x = Inr tp" "ae_payload e = contract_json (snd tp)"
    using x(2) by (auto simp: public_image_def gateway_image_def bind_result_Inr_iff split: prod.splits option.splits)
  have "public_event (wire (\<lambda>_. None) (?evs ! j)) = Inr tp" using tp(1) j nth public_event_wire [of tsp "?evs ! j"] by simp
  then show ?thesis using long_first_three mem tp(2) unfolding list_all_iff by fastforce
qed

text \<open>
  A long chunk of the model hides the end of a run. The sidecar stores the public events of the engine
  with whatever length they have; the projector refuses a \<^verbatim>\<open>response.delta\<close> of more than 512 characters,
  at the same event after every restart. There is a reachable sidecar in which a run is completed, with
  its answer and \<^verbatim>\<open>run.completed\<close> in the log, and for which no schedule of projectors ever shows the
  browser a status other than accepted or running, as long as no other writer puts a status into an event
  of the run (the answers to its confirmations have none).
\<close>

lemma long_chunk_hides_completion:
  "\<exists>sv r. svc_reachable hexes sv \<and> map_option rr_status (run_by_id (sv_store sv) r) = Some run_status.Completed \<and>
     ''run.completed'' \<in> set (map ev_type (events_of r (sv_store sv))) \<and>
     (\<forall>tsp bind acts owners bindings user conv ms sn.
        (\<forall>run. rb_run (bind run) = run) \<and>
        list_all (act_ok r (served tsp r (sv_store sv))) acts \<and> list_all (writes_ok early_status r) acts \<and>
        snapshot_of sql_list_events bindings user conv r
          (gw_store (gw_run sql_create_event sql_get_event sql_list_events bind acts (new_gateway (new_sql_events owners)))) ms = Inr sn \<and>
        (\<forall>b. bindings r = Some b \<longrightarrow> rb_run b = r)
        \<longrightarrow> sn_status sn \<in> {''accepted'', ''running''})"
proof (intro exI [of _ long_closed] exI [of _ long_run] conjI allI impI)
  show "svc_reachable hexes long_closed" by (rule long_reachable)
  show "map_option rr_status (run_by_id (sv_store long_closed) long_run) = Some run_status.Completed"
    and "''run.completed'' \<in> set (map ev_type (events_of long_run (sv_store long_closed)))"
    using long_log by (simp_all add: Let_def)
  fix tsp bind acts owners bindings user conv ms sn
  let ?es = "served tsp long_run (sv_store long_closed)"
  let ?s = "gw_store (gw_run sql_create_event sql_get_event sql_list_events bind acts (new_gateway (new_sql_events owners)))"
  assume "(\<forall>run. rb_run (bind run) = run) \<and> list_all (act_ok long_run ?es) acts \<and> list_all (writes_ok early_status long_run) acts \<and>
      snapshot_of sql_list_events bindings user conv long_run ?s ms = Inr sn \<and> (\<forall>b. bindings long_run = Some b \<longrightarrow> rb_run b = long_run)"
  then have bind: "\<forall>run. rb_run (bind run) = run"
    and acts: "list_all (act_ok long_run ?es) acts" "list_all (writes_ok early_status long_run) acts"
    and sn: "snapshot_of sql_list_events bindings user conv long_run ?s ms = Inr sn"
    and stored: "\<And>b. bindings long_run = Some b \<Longrightarrow> rb_run b = long_run" by blast+
  have new: "sql_ok (new_sql_events owners)" "sql_view (new_sql_events owners) = []"
    by (simp_all add: new_sql_events_def sql_ok_def sql_view_def)
  obtain n where m: "mirrors early_status long_run ?es n (sql_view ?s)"
    using sql_outbox.projection_mirrors [OF served_log_ok [OF long_reachable] bind acts new] by blast
  obtain b es where b: "require_binding bindings user conv long_run = Inr b" "run_events sql_list_events b user conv ?s = Inr es"
    "sn_status sn = snapshot_status es"
    using sn by (auto simp: snapshot_of_def bind_result_Inr_iff)
  have "rb_run b = long_run" using b(1) stored by (auto simp: require_binding_def split: option.splits if_splits)
  then obtain all where all: "sql_list_events user conv ?s = Inr all" "es = filter (\<lambda>e. ae_run e = long_run) all"
    using b(2) by (auto simp: run_events_def split: sum.splits)
  have "early_status (ae_payload e)" if e: "e \<in> set es" for e
  proof -
    have "e \<in> set all" "ae_run e = long_run" using e all(2) by simp_all
    then obtain r where "r \<in> set (se_rows ?s)" "er_event r = e"
      using all(1) by (auto simp: sql_list_events_def bind_result_Inr_iff in_order_def sql_owned_def)
    then have "(er_user r, e) \<in> set (sql_view ?s)" by (auto simp: sql_view_def)
    then show ?thesis using long_outbox [OF m] \<open>ae_run e = long_run\<close> m unfolding mirrors_def by blast
  qed
  then show "sn_status sn \<in> {''accepted'', ''running''}" unfolding b(3) by (rule snapshot_status_early)
qed

lemma empty_snapshot:
  "\<exists>sn. snapshot_of sql_list_events (\<lambda>run. Some (demo_binding run)) ''u'' ''c'' r
     (gw_store (gw_run sql_create_event sql_get_event sql_list_events demo_binding [] (new_gateway (new_sql_events [])))) [] = Inr sn"
proof -
  have "require_text 64 ''u'' = Inr ''u''" "require_text 64 ''c'' = Inr ''c''" by code_simp+
  then show ?thesis
    by (simp add: snapshot_of_def require_binding_def run_events_def sql_list_events_def sql_owned_def new_gateway_def
        new_sql_events_def gw_run_def demo_binding_def)
qed

lemma long_chunk_hides_completion_witness:
  "\<exists>sv r sn. svc_reachable hexes sv \<and> map_option rr_status (run_by_id (sv_store sv) r) = Some run_status.Completed \<and>
     snapshot_of sql_list_events (\<lambda>run. Some (demo_binding run)) ''u'' ''c'' r
       (gw_store (gw_run sql_create_event sql_get_event sql_list_events demo_binding [] (new_gateway (new_sql_events [])))) [] = Inr sn \<and>
     sn_status sn \<in> {''accepted'', ''running''}"
proof -
  obtain sv r where sv: "svc_reachable hexes sv" "map_option rr_status (run_by_id (sv_store sv) r) = Some run_status.Completed"
    and status: "\<And>tsp bind acts owners bindings user conv ms sn.
        (\<forall>run. rb_run (bind run) = run) \<and>
        list_all (act_ok r (served tsp r (sv_store sv))) acts \<and> list_all (writes_ok early_status r) acts \<and>
        snapshot_of sql_list_events bindings user conv r
          (gw_store (gw_run sql_create_event sql_get_event sql_list_events bind acts (new_gateway (new_sql_events owners)))) ms = Inr sn \<and>
        (\<forall>b. bindings r = Some b \<longrightarrow> rb_run b = r) \<Longrightarrow> sn_status sn \<in> {''accepted'', ''running''}"
    using long_chunk_hides_completion by blast
  obtain sn where "snapshot_of sql_list_events (\<lambda>run. Some (demo_binding run)) ''u'' ''c'' r
     (gw_store (gw_run sql_create_event sql_get_event sql_list_events demo_binding [] (new_gateway (new_sql_events [])))) [] = Inr sn"
    using empty_snapshot by blast
  then show ?thesis using sv status [where tsp = "\<lambda>_. None" and bind = demo_binding and acts = "[]" and owners = "[]"
        and bindings = "\<lambda>run. Some (demo_binding run)" and user = "''u''" and conv = "''c''" and ms = "[]" and sn = sn]
    by (auto simp: demo_binding_def)
qed

section \<open>Messages of a snapshot\<close>

text \<open>
  A snapshot of a long conversation has no answer. The snapshot of a run filters the first 200
  messages of the conversation for those of the run: once 200 older messages of the user exist, the stored
  answer of the run is in no snapshot.
\<close>

lemma old_messages_hide_answer:
  assumes "snapshot_of sql_list_events bindings user conv run s ms = Inr sn"
    and "200 \<le> length (filter (\<lambda>x. ms_conv x = conv \<and> ms_user x = user \<and> (ms_at x, ms_id x) < (ms_at m, ms_id m)) ms)"
  shows "m \<notin> set (sn_messages sn)"
proof
  let ?k = "\<lambda>x. (ms_at x, ms_id x)" and ?mine = "\<lambda>x. ms_conv x = conv \<and> ms_user x = user"
  let ?xs = "sort_key ?k (filter ?mine ms)"
  assume "m \<in> set (sn_messages sn)"
  then have "m \<in> set (take 200 ?xs)"
    using assms(1) by (auto simp: snapshot_of_def bind_result_Inr_iff list_messages_def)
  then have "length (filter (\<lambda>x. ?k x < ?k m) ?xs) < 200" by (rule sorted_take_least [rotated]) simp
  moreover have "length (filter (\<lambda>x. ?k x < ?k m) ?xs) = length (filter (\<lambda>x. ?k x < ?k m) (filter ?mine ms))"
    by (simp only: filter_sort length_sort)
  ultimately show False using assms(2) unfolding filter_filter conj_assoc by simp
qed

definition demo_message :: "nat \<Rightarrow> message" where
  "demo_message n = \<lparr>ms_id = replicate n CHR ''a'', ms_conv = ''c'', ms_user = ''u'', ms_role = ''user'',
     ms_content = ''hello'', ms_run = None, ms_at = int n\<rparr>"

definition demo_answer :: message where
  "demo_answer = \<lparr>ms_id = ''harness_response_'' @ drop 5 long_run, ms_conv = ''c'', ms_user = ''u'', ms_role = ''assistant'',
     ms_content = ''done'', ms_run = Some long_run, ms_at = 999\<rparr>"

lemma old_messages_hide_answer_witness:
  "\<exists>sn. snapshot_of sql_list_events (\<lambda>r. Some (demo_binding r)) ''u'' ''c'' long_run (new_sql_events [])
       (map demo_message [0..<200] @ [demo_answer]) = Inr sn \<and>
     demo_answer \<in> set (map demo_message [0..<200] @ [demo_answer]) \<and> demo_answer \<notin> set (sn_messages sn)"
proof -
  let ?ms = "map demo_message [0..<200] @ [demo_answer]"
  have "is_ok (snapshot_of sql_list_events (\<lambda>r. Some (demo_binding r)) ''u'' ''c'' long_run (new_sql_events []) [])"
    by code_simp
  then obtain sn where sn: "snapshot_of sql_list_events (\<lambda>r. Some (demo_binding r)) ''u'' ''c'' long_run (new_sql_events []) ?ms = Inr sn"
    by (auto simp: is_ok_def snapshot_of_def bind_result_def split: sum.splits)
  have "filter (\<lambda>x. ms_conv x = ''c'' \<and> ms_user x = ''u'' \<and> (ms_at x, ms_id x) < (ms_at demo_answer, ms_id demo_answer))
      (map demo_message [0..<200]) = map demo_message [0..<200]"
    by (rule filter_True) (auto simp: demo_message_def demo_answer_def)
  then have "200 \<le> length (filter (\<lambda>x. ms_conv x = ''c'' \<and> ms_user x = ''u'' \<and>
      (ms_at x, ms_id x) < (ms_at demo_answer, ms_id demo_answer)) ?ms)"
    by simp
  from old_messages_hide_answer [OF sn this] sn show ?thesis by (intro exI [of _ sn]) simp
qed

section \<open>The event stream of the browser\<close>

text \<open>Reading page by page from growing lists gives the list, once and in order.\<close>

lemma filter_after_last:
  fixes f :: "'a \<Rightarrow> nat"
  assumes "sorted_wrt (<) (map f (xs @ ys))" and "xs \<noteq> []" and "filter (\<lambda>x. c < f x) xs = zs"
  shows "zs @ filter (\<lambda>x. (if zs = [] then c else f (last zs)) < f x) (xs @ ys) = filter (\<lambda>x. c < f x) (xs @ ys)"
proof (cases "zs = []")
  case True
  then show ?thesis using assms(3) by simp
next
  case False
  have lst: "last zs = last xs"
  proof -
    have "c < f (last xs)"
    proof (rule ccontr)
      assume n: "\<not> c < f (last xs)"
      have "f x \<le> f (last xs)" if "x \<in> set xs" for x
      proof -
        have "sorted_wrt (<) (map f (butlast xs @ [last xs]))" using assms(1,2) by (simp add: sorted_wrt_append)
        moreover have "x \<in> set (butlast xs) \<or> x = last xs" using that assms(2) by (cases xs rule: rev_cases) auto
        ultimately show ?thesis by (auto simp: sorted_wrt_append)
      qed
      then have "\<not> c < f x" if "x \<in> set xs" for x using n that by (meson le_less_linear less_le_trans not_le)
      then have "zs = []" using assms(3) by (auto simp: filter_empty_conv)
      then show False using False by simp
    qed
    then have "zs = filter (\<lambda>x. c < f x) (butlast xs) @ [last xs]"
      using assms(2,3) filter_append [of "\<lambda>x. c < f x" "butlast xs" "[last xs]"] by simp
    then show ?thesis by simp
  qed
  have "filter (\<lambda>x. f (last xs) < f x) xs = []"
  proof -
    have "sorted_wrt (<) (map f (butlast xs @ [last xs]))" using assms(1,2) by (simp add: sorted_wrt_append)
    then have "\<forall>x \<in> set (butlast xs). f x < f (last xs)" by (simp add: sorted_wrt_append)
    then have "filter (\<lambda>x. f (last xs) < f x) (butlast xs @ [last xs]) = []" by (auto simp: filter_empty_conv)
    then show ?thesis using assms(2) by simp
  qed
  moreover have "filter (\<lambda>x. f (last xs) < f x) ys = ys"
    using assms(1,2) by (intro filter_True) (auto simp: sorted_wrt_append)
  moreover have "c < f (last xs)"
    using False lst assms(3) last_in_set [of zs] by auto
  then have "filter (\<lambda>x. c < f x) ys = ys"
    using assms(1,2) by (intro filter_True) (auto simp: sorted_wrt_append intro: less_trans)
  ultimately show ?thesis using False lst assms(3) by simp
qed

definition owned_events :: "string \<Rightarrow> string \<Rightarrow> string \<Rightarrow> sql_events \<Rightarrow> agent_event list" where
  "owned_events run user conv s = filter (\<lambda>e. ae_run e = run) (owned (py_strip user) (py_strip conv) (sql_view s))"

lemma owned_events_increase:
  assumes "sql_ok s"
  shows "sorted_wrt (<) (map ae_seq (owned_events run user conv s))"
proof -
  have "sorted_wrt (<) (map ae_seq (conversation (py_strip conv) (sql_view s)))"
    using sql_outbox.view_ok [OF assms] unfolding outbox_ok_def by (metis sorted_wrt_upt)
  then have "sorted_wrt (<) (map ae_seq (filter (\<lambda>e. ae_run e = run) (map snd (filter (\<lambda>p. fst p = py_strip user)
      (filter (\<lambda>p. ae_conv (snd p) = py_strip conv) (sql_view s))))))"
    by (simp add: conversation_def filter_map sorted_wrt_map sorted_wrt_filter o_def del: filter_filter)
  then show ?thesis by (simp add: owned_events_def owned_def case_prod_unfold conj_commute)
qed

lemma run_events_owned:
  assumes "sql_ok s" and "is_ok (require_text 64 user)" and "is_ok (require_text 64 conv)"
  shows "run_events sql_list_events b user conv s = Inr (owned_events (rb_run b) user conv s)"
  using assms(2,3) sql_outbox.listing_refines [OF assms(1), of user conv]
  by (auto simp: run_events_def owned_events_def is_ok_def require_text_def Let_def split: sum.splits if_splits)

text \<open>
  C20. The browser's stream repeats nothing, reorders nothing and skips nothing it has read. Over any
  sequence of polls of a growing outbox, what the stream has sent is exactly the events of the run after
  the cursor as the outbox stood at its last read of events, in the order of their numbers, each once.
  While the stream is open that is the last poll; when it has ended, the status read later in the same
  poll was final. An event stored between these two reads of the last poll is not sent.
\<close>

theorem stream_sends_each_event_once:
  assumes "sorted_wrt (\<lambda>s t. prefix (sql_view s) (sql_view t)) (map fst polls)"
    and "\<forall>(s, t) \<in> set polls. sql_ok s \<and> sql_ok t" and "polls \<noteq> []"
    and "is_ok (require_text 64 user)" and "is_ok (require_text 64 conv)"
    and "require_binding bindings user conv run = Inr b"
    and "sse_stream sql_list_events bindings user conv run cur polls = (es, over)"
  shows "\<exists>p \<in> set polls. es = filter (\<lambda>e. cur < ae_seq e) (owned_events (rb_run b) user conv (fst p)) \<and>
    sorted_wrt (<) (map ae_seq es) \<and>
    (if over then stream_over (snapshot_status (owned_events (rb_run b) user conv (snd p))) else p = last polls)"
  using assms(1-3,7)
proof (induction polls arbitrary: cur es)
  case (Cons p polls)
  obtain s t where p: "p = (s, t)" by (cases p)
  have ok: "sql_ok s" "sql_ok t" using Cons.prems(2) p by auto
  let ?ev = "owned_events (rb_run b) user conv"
  let ?es = "filter (\<lambda>e. cur < ae_seq e) (?ev s)"
  have now: "events_after_sequence sql_list_events bindings user conv run cur s = Inr ?es"
    using assms(6) run_events_owned [OF ok(1) assms(4,5)] by (simp add: events_after_sequence_def)
  obtain sn where sn: "snapshot_of sql_list_events bindings user conv run t [] = Inr sn"
    and status: "sn_status sn = snapshot_status (?ev t)"
    using assms(6) run_events_owned [OF ok(2) assms(4,5)] by (auto simp: snapshot_of_def)
  have inc: "sorted_wrt (<) (map ae_seq (filter (\<lambda>e. cur < ae_seq e) (?ev s)))"
    using owned_events_increase [OF ok(1)] by (simp add: sorted_wrt_map sorted_wrt_filter)
  show ?case
  proof (cases "stream_over (sn_status sn)")
    case True
    then show ?thesis using Cons.prems(4) p now sn status inc by (intro bexI [of _ p]) auto
  next
    case False
    let ?cur = "if ?es = [] then cur else ae_seq (last ?es)"
    obtain rest ov where rest: "sse_stream sql_list_events bindings user conv run ?cur polls = (rest, ov)" by fastforce
    have out: "es = ?es @ rest" "over = ov" using Cons.prems(4) p now sn False rest by auto
    show ?thesis
    proof (cases "polls = []")
      case True
      then show ?thesis using out rest p inc by (intro bexI [of _ p]) auto
    next
      case nonempty: False
      have chain: "sorted_wrt (\<lambda>s t. prefix (sql_view s) (sql_view t)) (map fst polls)"
        and oks: "\<forall>(s, t) \<in> set polls. sql_ok s \<and> sql_ok t"
        using Cons.prems(1,2) by auto
      from Cons.IH [OF chain oks nonempty rest [unfolded out(2) [symmetric]]]
      obtain q where q: "q \<in> set polls" "rest = filter (\<lambda>e. ?cur < ae_seq e) (?ev (fst q))"
        and q_end: "if over then stream_over (snapshot_status (?ev (snd q))) else q = last polls" by blast
      have "prefix (sql_view s) (sql_view (fst q))" using Cons.prems(1) q(1) p by auto
      then obtain ys where ys: "?ev (fst q) = ?ev s @ ys"
        by (auto simp: prefix_def owned_events_def owned_def)
      have sorted: "sorted_wrt (<) (map ae_seq (?ev s @ ys))"
        using owned_events_increase [of "fst q"] oks q(1) ys by (metis case_prod_unfold)
      have "es = filter (\<lambda>e. cur < ae_seq e) (?ev (fst q))"
      proof (cases "?ev s = []")
        case True
        then show ?thesis using out q(2) by simp
      next
        case False
        from filter_after_last [OF sorted False refl, of cur] show ?thesis
          unfolding out(1) q(2) ys .
      qed
      moreover have "sorted_wrt (<) (map ae_seq (filter (\<lambda>e. cur < ae_seq e) (?ev (fst q))))"
        using sorted unfolding ys [symmetric] by (simp add: sorted_wrt_map sorted_wrt_filter)
      ultimately show ?thesis using q(1) q_end nonempty by (intro bexI [of _ q]) auto
    qed
  qed
qed simp

definition short_log :: "harness_event list" where
  "short_log = [demo_event 1 ''run.accepted'' ''accepted'', demo_event 2 ''run.completed'' ''completed'']"

definition gateway_after :: "nat \<Rightarrow> sql_events gateway" where
  "gateway_after n = gw_run sql_create_event sql_get_event sql_list_events demo_binding
     (Start_Projector 0 long_run (map Envelope short_log) # replicate n (Step_Projector 0 long_run 7)) (new_gateway (new_sql_events []))"

lemma gateway_after_steps:
  "gateway_after (m + n) = gw_run sql_create_event sql_get_event sql_list_events demo_binding
     (replicate n (Step_Projector 0 long_run 7)) (gateway_after m)"
  by (simp add: gateway_after_def gw_run_def replicate_add)

lemma stream_misses_run:
  "(let s1 = gw_store (gateway_after 6); s2 = gw_store (gateway_after 11);
        r = sse_stream sql_list_events (\<lambda>run. Some (demo_binding run)) ''u'' ''c'' long_run 0 [(s1, s2)]
    in map (\<lambda>e. jget ''status'' (ae_payload e)) (fst r) = [JStr ''accepted''] \<and> snd r \<and>
       map (\<lambda>e. jget ''status'' (ae_payload e)) (map snd (sql_view s2)) = [JStr ''accepted'', JStr ''completed''])"
  by code_simp

text \<open>
  The browser's stream can end without the end of the run. The stream reads the events and then, in a
  second read, the status: when the projector writes the terminal event between the two, the stream ends
  and the event is never sent, although it is in the outbox.
\<close>

lemma stream_can_miss_the_end:
  "\<exists>g1 g2 acts. g2 = gw_run sql_create_event sql_get_event sql_list_events demo_binding acts g1 \<and>
     (let r = sse_stream sql_list_events (\<lambda>run. Some (demo_binding run)) ''u'' ''c'' long_run 0 [(gw_store g1, gw_store g2)]
      in snd r \<and> map (\<lambda>e. jget ''status'' (ae_payload e)) (fst r) = [JStr ''accepted''] \<and>
         map (\<lambda>e. jget ''status'' (ae_payload e)) (map snd (sql_view (gw_store g2))) = [JStr ''accepted'', JStr ''completed''])"
proof (intro exI conjI)
  show "gateway_after 11 = gw_run sql_create_event sql_get_event sql_list_events demo_binding
      (replicate 5 (Step_Projector 0 long_run 7)) (gateway_after 6)"
    using gateway_after_steps [of 6 5] by simp
qed (use stream_misses_run in \<open>simp add: Let_def\<close>)

lemma sql_ok_empty: "sql_ok (new_sql_events owners)"
  by (simp add: new_sql_events_def sql_ok_def sql_view_def)

lemma gateway_after_ok: "sql_ok (gw_store (gateway_after n))"
proof -
  have "sql_ok (gw_store (foldl (gw_exec sql_create_event sql_get_event sql_list_events demo_binding) g acts))"
    if "sql_ok (gw_store g)" for g acts
    using that by (induction acts arbitrary: g) (simp_all add: sql_outbox.exec_okay)
  then show ?thesis by (simp add: gateway_after_def gw_run_def new_gateway_def sql_ok_empty)
qed

lemma stream_sends_each_event_once_witness:
  "\<exists>p \<in> set [(gw_store (gateway_after 6), gw_store (gateway_after 6))].
     fst (sse_stream sql_list_events (\<lambda>run. Some (demo_binding run)) ''u'' ''c'' long_run 0
       [(gw_store (gateway_after 6), gw_store (gateway_after 6))]) =
     filter (\<lambda>e. 0 < ae_seq e) (owned_events (rb_run (demo_binding long_run)) ''u'' ''c'' (fst p))"
proof -
  let ?p = "(gw_store (gateway_after 6), gw_store (gateway_after 6))"
  obtain es over where r: "sse_stream sql_list_events (\<lambda>run. Some (demo_binding run)) ''u'' ''c'' long_run 0 [?p] = (es, over)"
    by fastforce
  have t: "is_ok (require_text 64 ''u'')" "is_ok (require_text 64 ''c'')" by code_simp+
  have b: "require_binding (\<lambda>run. Some (demo_binding run)) ''u'' ''c'' long_run = Inr (demo_binding long_run)"
    by (simp add: require_binding_def demo_binding_def)
  have "\<exists>p \<in> set [?p]. es = filter (\<lambda>e. 0 < ae_seq e) (owned_events (rb_run (demo_binding long_run)) ''u'' ''c'' (fst p)) \<and>
      sorted_wrt (<) (map ae_seq es) \<and>
      (if over then stream_over (snapshot_status (owned_events (rb_run (demo_binding long_run)) ''u'' ''c'' (snd p))) else p = last [?p])"
    by (rule stream_sends_each_event_once [OF _ _ _ t b r]) (simp_all add: gateway_after_ok)
  then show ?thesis using r by auto
qed

end
