(* ===== verification/Workspace_Payload.thy ===== *)
theory Workspace_Payload
  imports Json_Text Job_Projector "HOL-Library.Sublist"
begin

text \<open>
  The payload of a video workspace (\<^verbatim>\<open>video/workspace/payload.py\<close> and the patch functions of
  \<^verbatim>\<open>memory_repository.py\<close>): the migration of flat payloads, the assets of uploaded materials, the
  merge of scene lists and the application of a patch. \<open>R\<close> is \<^verbatim>\<open>repr\<close> of floats and containers and
  \<open>P\<close> is \<^verbatim>\<open>int\<close> of a text (None where it raises). A function that can raise returns an option.
\<close>

section \<open>Reading of JSON objects\<close>

definition has_key :: "string \<Rightarrow> json \<Rightarrow> bool" where
  "has_key k j = (case j of JObj d \<Rightarrow> map_of d k \<noteq> None | _ \<Rightarrow> False)"

fun first_true :: "json list \<Rightarrow> json" where
  "first_true [] = JNull"
| "first_true [j] = j"
| "first_true (j # js) = (if truthy j then j else first_true js)"

definition id_text :: "(json \<Rightarrow> string) \<Rightarrow> string \<Rightarrow> json \<Rightarrow> string" where
  "id_text R k j = py_strip (str_or_empty R (jget k j))"

definition objects :: "json \<Rightarrow> json list" where
  "objects j = filter is_obj (items_of j)"

definition py_int :: "(string \<Rightarrow> int option) \<Rightarrow> json \<Rightarrow> int option" where
  "py_int P j =
     (case j of JInt i \<Rightarrow> Some i | JBool b \<Rightarrow> Some (if b then 1 else 0)
      | JFloat q \<Rightarrow> Some (if q < 0 then - \<lfloor>- q\<rfloor> else \<lfloor>q\<rfloor>) | JStr s \<Rightarrow> P s | _ \<Rightarrow> None)"

fun all_some :: "'a option list \<Rightarrow> 'a list option" where
  "all_some [] = Some []"
| "all_some (x # xs) = (case x of None \<Rightarrow> None | Some a \<Rightarrow> map_option (\<lambda>as. a # as) (all_some xs))"

section \<open>Migration\<close>

definition brief_keys :: "(string \<times> string) list" where
  "brief_keys =
     [(''ratio'', ''aspect_ratio''), (''video_ratio'', ''aspect_ratio''), (''duration_sec'', ''target_duration_sec''),
      (''platform'', ''platform''), (''audio'', ''audio''), (''cta'', ''cta'')]"

definition legacy_brief :: "json \<Rightarrow> json" where
  "legacy_brief s =
     fold (\<lambda>(old, new) b. if \<not> has_key new b \<and> has_key old s then jput new (jget old s) b else b) brief_keys
       (if is_obj (jget ''product_info'' s) then jget ''product_info'' s else JObj [])"

definition is_str :: "json \<Rightarrow> bool" where
  "is_str j = (case j of JStr s \<Rightarrow> True | _ \<Rightarrow> False)"

definition legacy_narrative :: "json \<Rightarrow> json" where
  "legacy_narrative s =
     (let script = jget ''script'' s in
      JObj ((if is_str (jget ''content'' script) then [(''script'', jget ''content'' script)] else []) @
            (if is_str (jget ''status'' script) then [(''status'', jget ''status'' script)] else []) @
            (if is_obj (jget ''script_pipeline'' s) then [(''pipeline'', jget ''script_pipeline'' s)] else [])))"

definition asset_buckets :: "(string \<times> string) list" where
  "asset_buckets = [(''characters'', ''character''), (''scenes'', ''scene''), (''props'', ''prop'')]"

definition numbered :: "json list \<Rightarrow> (nat \<times> json) list" where
  "numbered xs = zip [1..<Suc (length xs)] xs"

definition legacy_asset :: "(json \<Rightarrow> string) \<Rightarrow> string \<Rightarrow> string \<Rightarrow> nat \<Rightarrow> json \<Rightarrow> json" where
  "legacy_asset R bucket kind i item =
     (let slot = bucket @ ''-'' @ show_nat i;
          aid = py_strip (py_str R (first_true [jget ''asset_id'' item, jget ''id'' item, JStr slot]));
          artifact = jget ''artifact_ref'' item;
          ready = (case artifact of JStr a \<Rightarrow> starts_with ''artifact:'' a | _ \<Rightarrow> False)
      in JObj [(''asset_id'', JStr aid), (''slot'', JStr slot), (''kind'', JStr kind),
           (''role'', JStr (py_take 256 (py_str R (first_true [jget ''name'' item, jget ''title'' item, JStr aid])))),
           (''origin'', JStr (if ready then ''provider_output'' else ''planned_generation'')),
           (''state'', JStr (if ready then ''ready'' else ''planned'')),
           (''provider_artifact_ref'', if ready then artifact else JNull), (''usable_for_video'', JBool ready)])"

definition legacy_asset_registry :: "(json \<Rightarrow> string) \<Rightarrow> json \<Rightarrow> json list" where
  "legacy_asset_registry R s =
     concat (map (\<lambda>(bucket, kind).
       map (\<lambda>(i, item). legacy_asset R bucket kind i item)
         (filter (\<lambda>(i, item). is_obj item) (numbered (items_of (jget bucket (jget ''global_assets'' s)))))) asset_buckets)"

definition legacy_duration :: "json \<Rightarrow> int" where
  "legacy_duration item =
     (case first_true [jget ''duration_sec'' item, jget ''duration'' item, JInt 4] of
        JInt d \<Rightarrow> max 4 (min 30 d) | _ \<Rightarrow> 4)"

definition legacy_package ::
  "(json \<Rightarrow> string) \<Rightarrow> (string \<Rightarrow> int option) \<Rightarrow> nat \<Rightarrow> json \<Rightarrow> json option option" where
  "legacy_package R P i item =
     (let seg = py_strip (py_str R (first_true [jget ''segment_id'' item, jget ''scene_id'' item, JStr (''scene-'' @ show_nat i)]));
          prompt = py_strip (py_str R (first_true [jget ''prompt'' item, jget ''storyline'' item, jget ''shot_description'' item, JStr []]))
      in if prompt = [] then Some None
         else (case py_int P (first_true [jget ''sequence'' item, jget ''scene_index'' item, JInt (int i)]) of
                 None \<Rightarrow> None
               | Some n \<Rightarrow>
                   Some (Some (jputs
                     [(''segment_id'', JStr seg), (''sequence'', JInt n), (''duration_sec'', JInt (legacy_duration item)),
                      (''generation_mode'', first_true [jget ''generation_mode'' item, JStr ''independent'']),
                      (''prompt'', JStr prompt),
                      (''state'', JStr (if truthy (jget ''video_url'' item) then ''ready'' else ''planned''))] item))))"

definition legacy_prompt_packages :: "(json \<Rightarrow> string) \<Rightarrow> (string \<Rightarrow> int option) \<Rightarrow> json \<Rightarrow> json list option" where
  "legacy_prompt_packages R P s =
     map_option (\<lambda>ps. concat (map (\<lambda>p. case p of None \<Rightarrow> [] | Some j \<Rightarrow> [j]) ps))
       (all_some (map (\<lambda>(i, item). legacy_package R P i item)
          (filter (\<lambda>(i, item). is_obj item) (numbered (items_of (first_true [jget ''scenes'' s, jget ''scene_packages'' s]))))))"

definition put_missing :: "string \<Rightarrow> json \<Rightarrow> json \<Rightarrow> json" where
  "put_missing k v s = (if has_key k s then s else jput k v s)"

definition migrate_workspace_payload :: "(json \<Rightarrow> string) \<Rightarrow> (string \<Rightarrow> int option) \<Rightarrow> json \<Rightarrow> json option" where
  "migrate_workspace_payload R P s0 =
     (if py_eq (JInt 2) (jget ''workspace_schema_version'' s0) then Some s0
      else
        (let s1 = put_missing ''creative_brief'' (legacy_brief s0) s0;
             s2 = put_missing ''narrative_plan'' (legacy_narrative s1) s1;
             s3 = put_missing ''asset_registry'' (JList (legacy_asset_registry R s2)) s2
         in if has_key ''prompt_packages'' s3 then Some (jput ''workspace_schema_version'' (JInt 2) s3)
            else map_option (\<lambda>ps. jput ''workspace_schema_version'' (JInt 2) (jput ''prompt_packages'' (JList ps) s3))
              (legacy_prompt_packages R P s3)))"

section \<open>Assets of materials\<close>

definition material_kinds :: "(string \<times> string) list" where
  "material_kinds = [(''image'', ''reference_image''), (''video'', ''reference_video''), (''audio'', ''reference_audio''), (''file'', ''reference_file'')]"

definition zh_material :: string where
  "zh_material = utf8 [231, 180, 160, 230, 157, 144]"

definition zh_user_material :: string where
  "zh_user_material = utf8 [231, 148, 168, 230, 136, 183, 231, 180, 160, 230, 157, 144]"

text \<open>None when the identity is too long for an asset record.\<close>

definition material_asset :: "(json \<Rightarrow> string) \<Rightarrow> nat \<Rightarrow> json \<Rightarrow> json list option" where
  "material_asset R i item =
     (let mid = id_text R ''material_id'' item;
          name = py_strip (py_str R (first_true [jget ''name'' item, jget ''reference_label'' item, JStr (zh_material @ show_nat i)]));
          label = py_strip (py_str R (first_true [jget ''reference_label'' item, JStr (''@'' @ zh_material @ show_nat i)]));
          role = (if py_take 256 name = [] then zh_user_material @ show_nat i else py_take 256 name)
      in case map_of material_kinds (py_lower (id_text R ''kind'' item)) of
           None \<Rightarrow> Some []
         | Some kind \<Rightarrow>
             if mid = [] then Some []
             else if 113 < py_len mid then None
             else Some [JObj [(''asset_id'', JStr (''asset_material_'' @ mid)), (''slot'', JStr (py_take 64 label)), (''kind'', JStr kind),
               (''role'', JStr role), (''origin'', JStr ''existing_material''), (''source_material_id'', JStr mid), (''state'', JStr ''ready''),
               (''reference_asset_ids'', JList []), (''provider_artifact_ref'', JStr (''artifact:material:'' @ mid)),
               (''usable_for_video'', JBool True)]])"

definition material_asset_records :: "(json \<Rightarrow> string) \<Rightarrow> json \<Rightarrow> json list option" where
  "material_asset_records R s =
     map_option concat (all_some (map (\<lambda>(i, item). material_asset R i item)
       (filter (\<lambda>(i, item). is_obj item) (numbered (items_of (jget ''materials'' s))))))"

section \<open>Patches\<close>

definition patch_keys_ok :: "json \<Rightarrow> bool" where
  "patch_keys_ok p = (case p of JObj d \<Rightarrow> list_all (\<lambda>(k, v). py_strip k \<noteq> [] \<and> py_len k \<le> 128) d | _ \<Rightarrow> True)"

text \<open>The two loops of \<^verbatim>\<open>_merge_scenes_by_id\<close> fill one dictionary, in the order of first appearance.\<close>

definition scene_dict :: "(json \<Rightarrow> string) \<Rightarrow> json list \<Rightarrow> (string, json) dict" where
  "scene_dict R xs =
     fold (\<lambda>x m. let i = id_text R ''scene_id'' x in if i = [] then m else AList.update i x m) xs []"

definition merge_scenes_by_id :: "(json \<Rightarrow> string) \<Rightarrow> json \<Rightarrow> json \<Rightarrow> json list" where
  "merge_scenes_by_id R existing incoming =
     (if objects existing = [] then objects incoming
      else map snd (scene_dict R (objects existing @ objects incoming)))"

text \<open>Records with a new identity are appended.\<close>

fun append_records :: "(json \<Rightarrow> string) \<Rightarrow> string \<Rightarrow> json list \<Rightarrow> json list \<Rightarrow> json list" where
  "append_records R k merged [] = merged"
| "append_records R k merged (x # xs) =
     (let i = str_or_empty R (jget k x) in
      append_records R k
        (if is_obj x \<and> i \<noteq> [] \<and> i \<notin> set (map (\<lambda>y. str_or_empty R (jget k y)) merged) then merged @ [x] else merged) xs)"

definition patch_scenes :: "(json \<Rightarrow> string) \<Rightarrow> bool \<Rightarrow> json \<Rightarrow> string \<Rightarrow> json \<Rightarrow> json" where
  "patch_scenes R replace patch k payload =
     (if has_key k patch
      then jput k (if replace then jget k patch else JList (merge_scenes_by_id R (jget k payload) (jget k patch))) payload
      else payload)"

definition append_to :: "(json \<Rightarrow> string) \<Rightarrow> string \<Rightarrow> string \<Rightarrow> json \<Rightarrow> json \<Rightarrow> json" where
  "append_to R field k extra payload =
     (if is_jlist extra then jput field (JList (append_records R k (objects (jget field payload)) (items_of extra))) payload else payload)"

definition patched_payload ::
  "(json \<Rightarrow> string) \<Rightarrow> (string \<Rightarrow> int option) \<Rightarrow> json \<Rightarrow> json \<Rightarrow> json option" where
  "patched_payload R P patch payload =
     (let replace = truthy (jget ''scenes_replace'' patch);
          refs = jget ''reference_images_append'' patch; mats = jget ''materials_append'' patch;
          rest = jdels [''scenes_replace'', ''reference_images_append'', ''materials_append'', ''scenes'', ''scene_packages''] patch
      in case migrate_workspace_payload R P payload of
           None \<Rightarrow> None
         | Some p0 \<Rightarrow>
             (let p1 = patch_scenes R replace patch ''scene_packages'' (patch_scenes R replace patch ''scenes'' p0);
                  p2 = append_to R ''reference_images'' ''reference_id'' refs p1;
                  p3 = append_to R ''materials'' ''material_id'' mats p2
              in map_option (\<lambda>p4. case rest of JObj d \<Rightarrow> jputs d p4 | _ \<Rightarrow> p4)
                   (if is_jlist mats
                    then map_option (\<lambda>recs. append_to R ''asset_registry'' ''asset_id'' (JList recs) p3) (material_asset_records R p3)
                    else Some p3)))"

definition scene_of :: "(json \<Rightarrow> string) \<Rightarrow> json list \<Rightarrow> string \<Rightarrow> json" where
  "scene_of R xs i = (case List.find (\<lambda>x. id_text R ''scene_id'' x = i) (rev xs) of None \<Rightarrow> JNull | Some x \<Rightarrow> x)"

definition patch_applied :: "(json \<Rightarrow> string) \<Rightarrow> json \<Rightarrow> string \<times> json \<Rightarrow> bool" where
  "patch_applied R payload kv =
     (case kv of (k, v) \<Rightarrow>
        if k \<in> {''scenes'', ''scene_packages''} \<and> is_jlist v
        then list_all (\<lambda>x. is_obj x \<and> id_text R ''scene_id'' x \<noteq> [] \<and>
               py_eq (scene_of R (objects (jget k payload)) (id_text R ''scene_id'' x)) x) (items_of v)
        else py_eq (jget k payload) v)"

end
