(* ===== verification/Video_Store.thy ===== *)
theory Video_Store
  imports Workspace_Payload Gateway_Outbox
begin

text \<open>
  Workspaces, plans and steps of the video agent (\<^verbatim>\<open>video/contracts.py\<close> and
  \<^verbatim>\<open>MemoryVideoAgentRepository\<close> of \<^verbatim>\<open>video/workspace/memory_repository.py\<close>), one definition per method.
  \<open>U\<close> is the hex text of \<^verbatim>\<open>uuid5(NAMESPACE_URL, x)\<close>, \<open>R\<close> and \<open>P\<close> are those of the payload, times are
  integers in milliseconds. The transition lock is not reentrant: a method that waits for it while it
  holds it never goes on (\<open>Hangs\<close>), and \<open>vs_stuck\<close> says that this has happened.
\<close>

section \<open>Contracts\<close>

datatype plan_status =
  Planning | Plan_Running | Plan_Awaiting_Confirmation | Waiting_For_Input | Plan_Completed | Plan_Failed | Plan_Cancelled

datatype step_status = Step_Pending | Step_Running | Step_Awaiting | Step_Completed | Step_Failed | Step_Skipped

fun step_status_text :: "step_status \<Rightarrow> string" where
  "step_status_text Step_Pending = ''pending''"
| "step_status_text Step_Running = ''running''"
| "step_status_text Step_Awaiting = ''awaiting_confirmation''"
| "step_status_text Step_Completed = ''completed''"
| "step_status_text Step_Failed = ''failed''"
| "step_status_text Step_Skipped = ''skipped''"

record plan_step =
  st_id :: string
  st_plan :: string
  st_seq :: nat
  st_tool :: string
  st_title :: string
  st_status :: step_status
  st_args :: json
  st_confirm :: bool
  st_summary :: "string option"
  st_refs :: "string list"
  st_started :: "time option"
  st_done :: "time option"

record agent_plan =
  pl_id :: string
  pl_ws :: string
  pl_conv :: string
  pl_rev :: nat
  pl_status :: plan_status
  pl_goal :: "string option"
  pl_steps :: "plan_step list"
  pl_created :: "time option"
  pl_updated :: "time option"

record video_ws =
  vw_id :: string
  vw_conv :: string
  vw_rev :: nat
  vw_payload :: json
  vw_created :: "time option"
  vw_updated :: "time option"

definition terminal_step :: "step_status \<Rightarrow> bool" where
  "terminal_step st = (st \<in> {Step_Completed, Step_Failed, Step_Skipped})"

definition step_times_ok :: "plan_step \<Rightarrow> bool" where
  "step_times_ok s =
     (if st_status s \<in> {Step_Pending, Step_Awaiting}
      then st_started s = None \<and> st_done s = None \<and> (st_status s = Step_Awaiting \<longrightarrow> st_confirm s)
      else (case st_started s of
              None \<Rightarrow> False
            | Some t \<Rightarrow> if terminal_step (st_status s) then (case st_done s of None \<Rightarrow> False | Some u \<Rightarrow> t \<le> u)
                         else st_done s = None))"

fun plan_moves :: "plan_status \<Rightarrow> plan_status list" where
  "plan_moves Planning = [Plan_Running, Plan_Awaiting_Confirmation, Waiting_For_Input, Plan_Failed, Plan_Cancelled]"
| "plan_moves Plan_Running = [Plan_Awaiting_Confirmation, Plan_Completed, Plan_Failed, Plan_Cancelled]"
| "plan_moves Plan_Awaiting_Confirmation = [Plan_Running, Plan_Failed, Plan_Cancelled]"
| "plan_moves Waiting_For_Input = [Plan_Cancelled, Plan_Completed]"
| "plan_moves _ = []"

definition plan_may_move :: "plan_status \<Rightarrow> plan_status \<Rightarrow> bool" where
  "plan_may_move a b = (a = b \<or> b \<in> set (plan_moves a))"

section \<open>State\<close>

datatype vw_error = Vw_Conflict | Vw_Value | Vw_Unconfigured | Vw_Integrity | Vw_Events gw_error | Hangs

record video_store =
  vs_ws :: "(string \<times> string, video_ws) dict"
  vs_ws_owner :: "(string, string) dict"
  vs_plans :: "(string \<times> string, agent_plan) dict"
  vs_plan_owner :: "(string, string) dict"
  vs_steps :: "(string \<times> string \<times> string, plan_step) dict"
  vs_stuck :: bool

type_synonym 'a vs_result = "(vw_error + 'a) \<times> video_store"

definition owner_text :: "string \<Rightarrow> vw_error + string" where
  "owner_text user = (if py_strip user = [] then Inl Vw_Value else Inr (py_strip user))"

text \<open>\<^verbatim>\<open>async with self._transition_lock\<close>.\<close>

definition with_lock :: "(video_store \<Rightarrow> 'a vs_result) \<Rightarrow> video_store \<Rightarrow> 'a vs_result" where
  "with_lock body s = (if vs_stuck s then (Inl Hangs, s) else body s)"

definition set_step :: "string \<Rightarrow> plan_step \<Rightarrow> string \<times> string \<Rightarrow> video_store \<Rightarrow> video_store" where
  "set_step owner x ids s = s\<lparr>vs_steps := AList.update (owner, ids) x (vs_steps s)\<rparr>"

definition set_plan :: "string \<Rightarrow> agent_plan \<Rightarrow> video_store \<Rightarrow> video_store" where
  "set_plan owner p s = s\<lparr>vs_plans := AList.update (owner, pl_id p) p (vs_plans s)\<rparr>"

definition set_ws :: "string \<Rightarrow> video_ws \<Rightarrow> video_store \<Rightarrow> video_store" where
  "set_ws owner w s = s\<lparr>vs_ws := AList.update (owner, vw_id w) w (vs_ws s)\<rparr>"

definition plan_steps :: "string \<Rightarrow> string \<Rightarrow> video_store \<Rightarrow> plan_step list" where
  "plan_steps owner plan s =
     sort_key st_seq (map snd (filter (\<lambda>((o', p, i), x). o' = owner \<and> p = plan) (vs_steps s)))"

definition list_plan_steps :: "string \<Rightarrow> string \<Rightarrow> video_store \<Rightarrow> vw_error + plan_step list" where
  "list_plan_steps user plan s = bind_result (owner_text user) (\<lambda>u. Inr (plan_steps u plan s))"

section \<open>Workspaces\<close>

definition stored_time :: "time \<Rightarrow> time option \<Rightarrow> time option" where
  "stored_time now t = (case t of None \<Rightarrow> Some now | Some x \<Rightarrow> Some x)"

definition create_workspace :: "string \<Rightarrow> time \<Rightarrow> video_ws \<Rightarrow> video_store \<Rightarrow> video_ws vs_result" where
  "create_workspace user now w s =
     (case owner_text user of
        Inl er \<Rightarrow> (Inl er, s)
      | Inr u \<Rightarrow>
          (case map_of (vs_ws_owner s) (vw_id w) of
             Some v \<Rightarrow>
               if v \<noteq> u then (Inl Vw_Conflict, s)
               else (case map_of (vs_ws s) (u, vw_id w) of None \<Rightarrow> (Inl Vw_Value, s) | Some x \<Rightarrow> (Inr x, s))
           | None \<Rightarrow>
               (let x = w\<lparr>vw_created := stored_time now (vw_created w), vw_updated := stored_time now (vw_updated w)\<rparr>
                in (Inr x, (set_ws u x s)\<lparr>vs_ws_owner := AList.update (vw_id w) u (vs_ws_owner s)\<rparr>))))"

definition get_workspace :: "string \<Rightarrow> string \<Rightarrow> video_store \<Rightarrow> vw_error + video_ws option" where
  "get_workspace user wid s = bind_result (owner_text user) (\<lambda>u. Inr (map_of (vs_ws s) (u, wid)))"

definition drop_ws :: "string \<Rightarrow> string \<Rightarrow> video_store \<Rightarrow> video_store" where
  "drop_ws owner wid s =
     (case map_of (vs_ws s) (owner, wid) of
        None \<Rightarrow> s
      | Some w \<Rightarrow> s\<lparr>vs_ws := AList.delete (owner, wid) (vs_ws s), vs_ws_owner := AList.delete wid (vs_ws_owner s)\<rparr>)"

definition discard_workspace :: "string \<Rightarrow> string \<Rightarrow> video_store \<Rightarrow> unit vs_result" where
  "discard_workspace user wid s =
     (case owner_text user of Inl er \<Rightarrow> (Inl er, s) | Inr u \<Rightarrow> with_lock (\<lambda>s. (Inr (), drop_ws u wid s)) s)"

definition conv_workspaces :: "string \<Rightarrow> string \<Rightarrow> video_store \<Rightarrow> video_ws list" where
  "conv_workspaces owner conv s = map snd (filter (\<lambda>((u, i), w). u = owner \<and> vw_conv w = conv) (vs_ws s))"

definition planned_ids :: "string \<Rightarrow> string \<Rightarrow> video_store \<Rightarrow> string list" where
  "planned_ids owner conv s = map (\<lambda>(k, p). pl_ws p) (filter (\<lambda>((u, i), p). u = owner \<and> pl_conv p = conv) (vs_plans s))"

definition sort_time :: "time option \<Rightarrow> nat \<times> time" where
  "sort_time t = (case t of None \<Rightarrow> (0, 0) | Some x \<Rightarrow> (1, x))"

fun first_max :: "('a \<Rightarrow> 'k::linorder) \<Rightarrow> 'a \<Rightarrow> 'a list \<Rightarrow> 'a" where
  "first_max k best [] = best"
| "first_max k best (x # xs) = first_max k (if k best < k x then x else best) xs"

definition workspace_id_for :: "(string \<Rightarrow> string) \<Rightarrow> string \<Rightarrow> vw_error + string" where
  "workspace_id_for U conv =
     (let c = py_strip conv in
      if c = [] then Inl Vw_Value else Inr (''video_workspace_'' @ U (''pixelflow-video-agent:video_workspace:'' @ c)))"

text \<open>Only called with at least one workspace.\<close>

definition pick_workspace :: "(string \<Rightarrow> string) \<Rightarrow> string \<Rightarrow> string list \<Rightarrow> video_ws list \<Rightarrow> vw_error + video_ws" where
  "pick_workspace U conv planned ws =
     (case ws of
        [] \<Rightarrow> Inl Vw_Conflict
      | [w] \<Rightarrow> Inr w
      | _ \<Rightarrow>
          bind_result (workspace_id_for U conv) (\<lambda>pref.
            case List.find (\<lambda>w. vw_id w = pref) ws of
              Some w \<Rightarrow> Inr w
            | None \<Rightarrow>
                (let pool = (case filter (\<lambda>w. vw_id w \<in> set planned) ws of [] \<Rightarrow> ws | qs \<Rightarrow> qs)
                 in Inr (first_max (\<lambda>w. (sort_time (vw_updated w), vw_id w)) (hd pool) (tl pool)))))"

definition orphans_of :: "video_ws \<Rightarrow> string list \<Rightarrow> video_ws list \<Rightarrow> string list" where
  "orphans_of best planned ws = map vw_id (filter (\<lambda>w. vw_id w \<noteq> vw_id best \<and> vw_id w \<notin> set planned) ws)"

text \<open>
  The common part of \<^verbatim>\<open>load_conversation_state\<close> and \<^verbatim>\<open>list_conversation_plans\<close>: choose the workspace
  and discard the orphans. \<open>held\<close> says that the caller holds the lock the discarding waits for.
\<close>

definition settle_workspace ::
  "(string \<Rightarrow> string) \<Rightarrow> bool \<Rightarrow> string \<Rightarrow> string \<Rightarrow> video_store \<Rightarrow> video_ws option vs_result" where
  "settle_workspace U held owner conv s =
     (let ws = conv_workspaces owner conv s; planned = planned_ids owner conv s in
      if ws = [] then (Inr None, s)
      else (case pick_workspace U conv planned ws of
              Inl er \<Rightarrow> (Inl er, s)
            | Inr best \<Rightarrow>
                (let gone = orphans_of best planned ws in
                 if gone = [] then (Inr (Some best), s)
                 else if held then (Inl Hangs, s\<lparr>vs_stuck := True\<rparr>)
                 else with_lock (\<lambda>s. (Inr (Some best), fold (drop_ws owner) gone s)) s)))"

definition workspace_plans :: "string \<Rightarrow> string \<Rightarrow> string \<Rightarrow> video_store \<Rightarrow> agent_plan list" where
  "workspace_plans owner conv wid s =
     map snd (filter (\<lambda>((u, i), p). u = owner \<and> pl_conv p = conv \<and> pl_ws p = wid) (vs_plans s))"

definition with_steps :: "string \<Rightarrow> video_store \<Rightarrow> agent_plan \<Rightarrow> agent_plan" where
  "with_steps owner s p = p\<lparr>pl_steps := plan_steps owner (pl_id p) s\<rparr>"

definition load_conversation_state ::
  "(string \<Rightarrow> string) \<Rightarrow> string \<Rightarrow> string \<Rightarrow> video_store \<Rightarrow> (video_ws \<times> agent_plan option) option vs_result" where
  "load_conversation_state U user conv s =
     (case owner_text user of
        Inl er \<Rightarrow> (Inl er, s)
      | Inr u \<Rightarrow>
          (case settle_workspace U False u conv s of
             (Inl er, t) \<Rightarrow> (Inl er, t)
           | (Inr None, t) \<Rightarrow> (Inr None, t)
           | (Inr (Some w), t) \<Rightarrow>
               (case workspace_plans u conv (vw_id w) t of
                  [] \<Rightarrow> (Inr (Some (w, None)), t)
                | p # ps \<Rightarrow>
                    (let latest = first_max (\<lambda>q. (sort_time (case pl_updated q of None \<Rightarrow> pl_created q | x \<Rightarrow> x), pl_id q)) p ps
                     in (Inr (Some (w, Some (with_steps u t latest))), t)))))"

definition conversation_plans ::
  "(string \<Rightarrow> string) \<Rightarrow> bool \<Rightarrow> string \<Rightarrow> string \<Rightarrow> video_store \<Rightarrow> agent_plan list vs_result" where
  "conversation_plans U held u conv s =
     (case settle_workspace U held u conv s of
        (Inl er, t) \<Rightarrow> (Inl er, t)
      | (Inr None, t) \<Rightarrow> (Inr [], t)
      | (Inr (Some w), t) \<Rightarrow>
          (Inr (map (with_steps u t) (sort_key (\<lambda>p. (sort_time (pl_created p), pl_id p)) (workspace_plans u conv (vw_id w) t))), t))"

definition list_conversation_plans :: "(string \<Rightarrow> string) \<Rightarrow> string \<Rightarrow> string \<Rightarrow> video_store \<Rightarrow> agent_plan list vs_result" where
  "list_conversation_plans U user conv s =
     (case owner_text user of Inl er \<Rightarrow> (Inl er, s) | Inr u \<Rightarrow> conversation_plans U False u conv s)"

definition patch_replay :: "(json \<Rightarrow> string) \<Rightarrow> video_ws \<Rightarrow> json \<Rightarrow> nat \<Rightarrow> bool" where
  "patch_replay R w patch rv =
     (vw_rev w = rv + 1 \<and>
      (case jdel ''scenes_replace'' patch of JObj d \<Rightarrow> list_all (patch_applied R (vw_payload w)) d | _ \<Rightarrow> True))"

text \<open>
  The new record goes through \<^verbatim>\<open>VideoWorkspace.model_validate\<close>, and its contract strips every
  string and every key of the payload. A stored record is left as it is by the contract when it is read
  again (\<open>contract_json_idem\<close>).
\<close>

definition updated_workspace ::
  "(json \<Rightarrow> string) \<Rightarrow> (string \<Rightarrow> int option) \<Rightarrow> json \<Rightarrow> time \<Rightarrow> video_ws \<Rightarrow> video_ws option" where
  "updated_workspace R P patch now w =
     map_option (\<lambda>j. w\<lparr>vw_rev := vw_rev w + 1, vw_payload := contract_json j, vw_updated := Some now\<rparr>) (patched_payload R P patch (vw_payload w))"

definition apply_workspace_patch ::
  "(json \<Rightarrow> string) \<Rightarrow> (string \<Rightarrow> int option) \<Rightarrow> string \<Rightarrow> string \<Rightarrow> json \<Rightarrow> nat \<Rightarrow> time \<Rightarrow> video_store \<Rightarrow> video_ws vs_result" where
  "apply_workspace_patch R P user wid patch rv now s =
     (if rv < 1 \<or> \<not> patch_keys_ok patch then (Inl Vw_Conflict, s)
      else
        (case owner_text user of
           Inl er \<Rightarrow> (Inl er, s)
         | Inr u \<Rightarrow>
             with_lock (\<lambda>s.
               case map_of (vs_ws s) (u, wid) of
                 None \<Rightarrow> (Inl Vw_Conflict, s)
               | Some w \<Rightarrow>
                   if patch_replay R w patch rv then (Inr w, s)
                   else if vw_rev w \<noteq> rv then (Inl Vw_Conflict, s)
                   else (case updated_workspace R P patch now w of
                           None \<Rightarrow> (Inl Vw_Value, s)
                         | Some w' \<Rightarrow> (Inr w', s\<lparr>vs_ws := AList.update (u, wid) w' (vs_ws s)\<rparr>))) s))"

end
