(* ===== verification/Video_Plans.thy ===== *)
theory Video_Plans
  imports Video_Store
begin

text \<open>
  The plan methods of \<^verbatim>\<open>MemoryVideoAgentRepository\<close> (\<^verbatim>\<open>video/workspace/memory_repository.py\<close>)
  and the step methods without events.
\<close>

section \<open>Plans\<close>

definition get_plan :: "string \<Rightarrow> string \<Rightarrow> video_store \<Rightarrow> vw_error + agent_plan option" where
  "get_plan user pid s =
     bind_result (owner_text user) (\<lambda>u. Inr (map_option (with_steps u s) (map_of (vs_plans s) (u, pid))))"

definition put_steps :: "string \<Rightarrow> string \<Rightarrow> plan_step list \<Rightarrow> video_store \<Rightarrow> video_store" where
  "put_steps u pid steps s = fold (\<lambda>x. set_step u x (pid, st_id x)) steps s"

definition clear_steps :: "string \<Rightarrow> string \<Rightarrow> video_store \<Rightarrow> video_store" where
  "clear_steps u pid s = s\<lparr>vs_steps := filter (\<lambda>((o', p, i), x). \<not> (o' = u \<and> p = pid)) (vs_steps s)\<rparr>"

definition new_steps_ok :: "agent_plan \<Rightarrow> plan_step list \<Rightarrow> bool" where
  "new_steps_ok p steps =
     (if steps = [] then pl_status p \<in> {Waiting_For_Input, Plan_Running}
      else list_all (\<lambda>x. st_plan x = pl_id p) steps \<and> distinct (map st_seq steps))"

definition save_plan ::
  "string \<Rightarrow> agent_plan \<Rightarrow> plan_step list \<Rightarrow> nat option \<Rightarrow> time \<Rightarrow> video_store \<Rightarrow> agent_plan vs_result" where
  "save_plan user p steps rv now s =
     (case owner_text user of
        Inl er \<Rightarrow> (Inl er, s)
      | Inr u \<Rightarrow>
          if map_of (vs_ws s) (u, pl_ws p) = None then (Inl Vw_Conflict, s)
          else (case map_of (vs_plan_owner s) (pl_id p) of
             Some v \<Rightarrow>
               if v \<noteq> u then (Inl Vw_Conflict, s)
               else with_lock (\<lambda>s.
                 case map_of (vs_plans s) (u, pl_id p) of
                   None \<Rightarrow> (Inl Vw_Value, s)
                 | Some old \<Rightarrow>
                     if rv \<noteq> Some (pl_rev old) \<or> pl_ws old \<noteq> pl_ws p \<or> pl_conv old \<noteq> pl_conv p then (Inl Vw_Conflict, s)
                     else (let q = p\<lparr>pl_rev := pl_rev old + 1, pl_steps := steps, pl_created := pl_created old,
                                     pl_updated := stored_time now (pl_updated p)\<rparr>
                           in (Inr q, put_steps u (pl_id q) steps (clear_steps u (pl_id q) (set_plan u q s))))) s
           | None \<Rightarrow>
               if rv \<noteq> None \<or> \<not> new_steps_ok p steps then (Inl Vw_Conflict, s)
               else (let q = p\<lparr>pl_steps := steps, pl_created := stored_time now (pl_created p),
                               pl_updated := stored_time now (pl_updated p)\<rparr>
                     in (Inr q, put_steps u (pl_id q) steps
                           ((set_plan u q s)\<lparr>vs_plan_owner := AList.update (pl_id q) u (vs_plan_owner s)\<rparr>)))))"

definition with_plan ::
  "string \<Rightarrow> string \<Rightarrow> (string \<Rightarrow> agent_plan \<Rightarrow> agent_plan vs_result) \<Rightarrow> video_store \<Rightarrow> agent_plan vs_result" where
  "with_plan user pid f s =
     (case owner_text user of
        Inl er \<Rightarrow> (Inl er, s)
      | Inr u \<Rightarrow> (case map_of (vs_plans s) (u, pid) of None \<Rightarrow> (Inl Vw_Conflict, s) | Some p \<Rightarrow> f u p))"

definition update_plan_status :: "string \<Rightarrow> string \<Rightarrow> plan_status \<Rightarrow> time \<Rightarrow> video_store \<Rightarrow> agent_plan vs_result" where
  "update_plan_status user pid st now s =
     with_plan user pid (\<lambda>u p.
       if \<not> plan_may_move (pl_status p) st then (Inl Vw_Conflict, s)
       else (let q = p\<lparr>pl_status := st, pl_rev := pl_rev p + 1, pl_steps := plan_steps u pid s, pl_updated := Some now\<rparr>
             in (Inr q, s\<lparr>vs_plans := AList.update (u, pid) q (vs_plans s)\<rparr>))) s"

definition update_plan_public_goal ::
  "string \<Rightarrow> string \<Rightarrow> string option \<Rightarrow> nat \<Rightarrow> time \<Rightarrow> video_store \<Rightarrow> agent_plan vs_result" where
  "update_plan_public_goal user pid goal rv now s =
     with_plan user pid (\<lambda>u p.
       if pl_rev p \<noteq> rv then (Inl Vw_Conflict, s)
       else (let q = p\<lparr>pl_goal := goal, pl_rev := pl_rev p + 1, pl_steps := plan_steps u pid s, pl_updated := Some now\<rparr>
             in (Inr q, s\<lparr>vs_plans := AList.update (u, pid) q (vs_plans s)\<rparr>))) s"

section \<open>Steps\<close>

definition with_step ::
  "string \<Rightarrow> string \<times> string \<Rightarrow> (plan_step \<Rightarrow> vw_error + plan_step) \<Rightarrow> video_store \<Rightarrow> plan_step vs_result" where
  "with_step user ids f s =
     (case owner_text user of
        Inl er \<Rightarrow> (Inl er, s)
      | Inr u \<Rightarrow>
          (case map_of (vs_steps s) (u, ids) of
             None \<Rightarrow> (Inl Vw_Conflict, s)
           | Some x \<Rightarrow> (case f x of Inl er \<Rightarrow> (Inl er, s) | Inr y \<Rightarrow> (Inr y, set_step u y ids s))))"

definition started_step :: "time \<Rightarrow> plan_step \<Rightarrow> vw_error + plan_step" where
  "started_step now x =
     (if st_status x = Step_Running then Inr (if st_started x = Some now then x else x\<lparr>st_started := Some now\<rparr>)
      else if st_status x \<noteq> Step_Pending \<or> st_confirm x then Inl Vw_Conflict
      else Inr (x\<lparr>st_status := Step_Running, st_started := Some now\<rparr>))"

record step_result =
  sr_tool :: string
  sr_summary :: string
  sr_refs :: "string list"

definition completed_step :: "step_result \<Rightarrow> time \<Rightarrow> plan_step \<Rightarrow> vw_error + plan_step" where
  "completed_step r now x =
     (if st_tool x \<noteq> sr_tool r then Inl Vw_Conflict
      else if st_status x = Step_Completed then
        (if st_summary x = Some (sr_summary r) \<and> st_refs x = sr_refs r then Inr x else Inl Vw_Conflict)
      else if st_status x \<noteq> Step_Running then Inl Vw_Conflict
      else Inr (x\<lparr>st_status := Step_Completed, st_summary := Some (sr_summary r), st_refs := sr_refs r, st_done := Some now\<rparr>))"

definition asked_step :: "plan_step \<Rightarrow> vw_error + plan_step" where
  "asked_step x =
     (if st_status x = Step_Awaiting then Inr x
      else if st_status x \<noteq> Step_Pending \<or> \<not> st_confirm x then Inl Vw_Conflict
      else Inr (x\<lparr>st_status := Step_Awaiting\<rparr>))"

definition confirmed_step :: "time \<Rightarrow> plan_step \<Rightarrow> vw_error + plan_step" where
  "confirmed_step now x =
     (if st_status x = Step_Running then Inr x
      else if st_status x \<noteq> Step_Awaiting then Inl Vw_Conflict
      else Inr (x\<lparr>st_status := Step_Running, st_started := Some now\<rparr>))"

definition start_step :: "string \<Rightarrow> string \<times> string \<Rightarrow> time \<Rightarrow> video_store \<Rightarrow> plan_step vs_result" where
  "start_step user ids now = with_step user ids (started_step now)"

definition complete_step :: "string \<Rightarrow> string \<times> string \<Rightarrow> step_result \<Rightarrow> time \<Rightarrow> video_store \<Rightarrow> plan_step vs_result" where
  "complete_step user ids r now = with_step user ids (completed_step r now)"

definition request_step_confirmation :: "string \<Rightarrow> string \<times> string \<Rightarrow> video_store \<Rightarrow> plan_step vs_result" where
  "request_step_confirmation user ids = with_step user ids asked_step"

definition confirm_step :: "string \<Rightarrow> string \<times> string \<Rightarrow> time \<Rightarrow> video_store \<Rightarrow> plan_step vs_result" where
  "confirm_step user ids now = with_step user ids (confirmed_step now)"

section \<open>Cancellations\<close>

definition text_user_cancelled :: string where
  "text_user_cancelled = utf8 [231, 148, 168, 230, 136, 183, 229, 183, 178, 229, 143, 150, 230, 182, 136, 230, 137, 167, 232, 161, 140]"

definition text_quota_cancelled :: string where
  "text_quota_cancelled = utf8 [231, 148, 168, 230, 136, 183, 229, 183, 178, 229, 143, 150, 230, 182, 136, 233, 162, 157, 229, 186, 166, 228, 184, 173, 230, 150, 173, 228, 187, 187, 229, 138, 161]"

definition script_superseded_summary :: string where
  "script_superseded_summary = utf8 [231, 148, 168, 230, 136, 183, 229, 183, 178, 231, 161, 174, 232, 174, 164, 232, 132, 154, 230, 156, 172, 229, 185, 182, 229, 188, 128, 229, 167, 139, 231, 148, 159, 230, 136, 144, 232, 181, 132, 228, 186, 167, 229, 140, 133, 239, 188, 140, 230, 156, 172, 230, 173, 165, 229, 183, 178, 232, 183, 179, 232, 191, 135]"

definition export_goal :: string where
  "export_goal = utf8 [230, 136, 144, 231, 168, 191, 232, 135, 170, 230, 163, 128, 228, 184, 142, 229, 175, 188, 229, 135, 186]"

definition cancel_step_confirmation :: "string \<Rightarrow> string \<times> string \<Rightarrow> time \<Rightarrow> video_store \<Rightarrow> agent_plan vs_result" where
  "cancel_step_confirmation user ids now =
     with_lock (\<lambda>s.
       case owner_text user of
         Inl er \<Rightarrow> (Inl er, s)
       | Inr u \<Rightarrow>
           (case (map_of (vs_plans s) (u, fst ids), map_of (vs_steps s) (u, ids)) of
              (Some p, Some x) \<Rightarrow>
                if pl_status p = Plan_Cancelled then (Inr p, s)
                else if pl_status p \<noteq> Plan_Awaiting_Confirmation \<or> st_status x \<noteq> Step_Awaiting then (Inl Vw_Conflict, s)
                else (let y = x\<lparr>st_status := Step_Skipped, st_summary := Some text_user_cancelled,
                                st_started := Some now, st_done := Some now\<rparr>;
                          t = set_step u y ids s;
                          q = p\<lparr>pl_status := Plan_Cancelled, pl_steps := plan_steps u (fst ids) t, pl_updated := Some now\<rparr>
                      in (Inr q, t\<lparr>vs_plans := AList.update (u, fst ids) q (vs_plans t)\<rparr>))
            | _ \<Rightarrow> (Inl Vw_Conflict, s)))"

record quota_key =
  qk_interrupt :: string
  qk_job :: string
  qk_rev :: int

definition quota_resolution :: "quota_key \<Rightarrow> json" where
  "quota_resolution k =
     JObj [(''event_id'', JStr (qk_interrupt k)), (''job_id'', JStr (qk_job k)), (''quota_pause_revision'', JInt (qk_rev k)),
           (''state'', JStr ''cancelled'')]"

definition quota_resolved :: "quota_key \<Rightarrow> json \<Rightarrow> bool" where
  "quota_resolved k j =
     (is_obj j \<and> jget ''event_id'' j = JStr (qk_interrupt k) \<and> jget ''job_id'' j = JStr (qk_job k) \<and>
      py_eq (jget ''quota_pause_revision'' j) (JInt (qk_rev k)) \<and> jget ''state'' j = JStr ''cancelled'')"

definition quota_open :: "quota_key \<Rightarrow> string \<times> string \<Rightarrow> json \<Rightarrow> bool" where
  "quota_open k ids j =
     (is_obj j \<and> jget ''quota_interrupt_id'' j = JStr (qk_interrupt k) \<and> jget ''plan_id'' j = JStr (fst ids) \<and>
      jget ''step_id'' j = JStr (snd ids) \<and> jget ''job_id'' j = JStr (qk_job k) \<and>
      py_eq (jget ''quota_pause_revision'' j) (JInt (qk_rev k)))"

definition payload_of :: "video_ws option \<Rightarrow> json" where
  "payload_of w = (case w of None \<Rightarrow> JNull | Some x \<Rightarrow> vw_payload x)"

definition cancel_quota_interrupted_plan ::
  "(json \<Rightarrow> string) \<Rightarrow> (string \<Rightarrow> int option) \<Rightarrow> string \<Rightarrow> string \<times> string \<Rightarrow> quota_key \<Rightarrow> time \<Rightarrow> video_store \<Rightarrow> agent_plan vs_result" where
  "cancel_quota_interrupted_plan R P user ids k now =
     with_lock (\<lambda>s.
       case owner_text user of
         Inl er \<Rightarrow> (Inl er, s)
       | Inr u \<Rightarrow>
           (case map_of (vs_plans s) (u, fst ids) of
              None \<Rightarrow> (Inl Vw_Conflict, s)
            | Some p \<Rightarrow>
                (let w = map_of (vs_ws s) (u, pl_ws p); x = map_of (vs_steps s) (u, ids);
                     interrupt = jget ''quota_interrupt'' (payload_of w);
                     resolution = jget ''last_quota_resolution'' (payload_of w)
                 in if pl_status p = Plan_Cancelled \<and> (case x of None \<Rightarrow> False | Some y \<Rightarrow> st_status y = Step_Skipped) \<and>
                       interrupt = JNull \<and> quota_resolved k resolution
                    then (Inr (with_steps u s p), s)
                    else (case (w, x) of
                      (Some v, Some y) \<Rightarrow>
                        if st_status y \<noteq> Step_Running \<or> \<not> quota_open k ids interrupt \<or> \<not> plan_may_move (pl_status p) Plan_Cancelled
                        then (Inl Vw_Conflict, s)
                        else (case updated_workspace R P
                                (JObj [(''quota_interrupt'', JNull), (''last_quota_resolution'', quota_resolution k)]) now v of
                                None \<Rightarrow> (Inl Vw_Value, s)
                              | Some v' \<Rightarrow>
                                  (let y' = y\<lparr>st_status := Step_Skipped, st_summary := Some text_quota_cancelled, st_done := Some now\<rparr>;
                                       q = p\<lparr>pl_status := Plan_Cancelled, pl_updated := Some now\<rparr>;
                                       t = set_step u y' ids s;
                                       t' = t\<lparr>vs_plans := AList.update (u, fst ids) q (vs_plans t),
                                              vs_ws := AList.update (u, pl_ws p) v' (vs_ws t)\<rparr>
                                   in (Inr (with_steps u t' q), t')))
                    | _ \<Rightarrow> (Inl Vw_Conflict, s)))))"

definition script_plan_open :: "agent_plan \<Rightarrow> bool" where
  "script_plan_open p =
     (pl_status p \<in> {Planning, Plan_Running, Plan_Awaiting_Confirmation} \<and>
      (if pl_steps p = [] then pl_goal p = Some export_goal
       else list_all (\<lambda>x. st_tool x \<in> {''run_script_skill_stage'', ''confirm_script_creative''}) (pl_steps p) \<and>
            list_ex (\<lambda>x. st_tool x = ''run_script_skill_stage'') (pl_steps p)))"

definition skip_open :: "time \<Rightarrow> plan_step \<Rightarrow> plan_step" where
  "skip_open now x =
     (if st_status x \<in> {Step_Pending, Step_Running, Step_Awaiting}
      then x\<lparr>st_status := Step_Skipped, st_summary := Some script_superseded_summary,
             st_started := Some (case st_started x of None \<Rightarrow> now | Some t \<Rightarrow> t), st_done := Some now\<rparr>
      else x)"

definition cancel_script_plan :: "string \<Rightarrow> time \<Rightarrow> agent_plan \<Rightarrow> video_store \<Rightarrow> agent_plan \<times> video_store" where
  "cancel_script_plan u now p s =
     (let t = fold (\<lambda>x s. if st_status x \<in> {Step_Pending, Step_Running, Step_Awaiting}
                          then set_step u (skip_open now x) (pl_id p, st_id x) s else s) (pl_steps p) s;
          q = p\<lparr>pl_status := Plan_Cancelled, pl_steps := plan_steps u (pl_id p) t, pl_updated := Some now\<rparr>
      in (q, set_plan u q t))"

fun cancel_each :: "(agent_plan \<Rightarrow> video_store \<Rightarrow> agent_plan \<times> video_store) \<Rightarrow> agent_plan list \<Rightarrow> video_store \<Rightarrow> agent_plan list \<times> video_store" where
  "cancel_each f [] s = ([], s)"
| "cancel_each f (p # ps) s = (let (q, t) = f p s; (qs, t') = cancel_each f ps t in (q # qs, t'))"

definition cancel_active_script_skill_plans ::
  "(string \<Rightarrow> string) \<Rightarrow> string \<Rightarrow> string \<Rightarrow> time \<Rightarrow> video_store \<Rightarrow> agent_plan list vs_result" where
  "cancel_active_script_skill_plans U user conv now =
     with_lock (\<lambda>s.
       case owner_text user of
         Inl er \<Rightarrow> (Inl er, s)
       | Inr u \<Rightarrow>
           (case conversation_plans U True u (py_strip conv) s of
              (Inl er, t) \<Rightarrow> (Inl er, t)
            | (Inr ps, t) \<Rightarrow>
                (case cancel_each (cancel_script_plan u now) (filter script_plan_open ps) t of (qs, t') \<Rightarrow> (Inr qs, t'))))"

definition cancel_waiting_for_input_plans ::
  "(string \<Rightarrow> string) \<Rightarrow> string \<Rightarrow> string \<Rightarrow> string option \<Rightarrow> time \<Rightarrow> video_store \<Rightarrow> agent_plan list vs_result" where
  "cancel_waiting_for_input_plans U user conv exclude now =
     with_lock (\<lambda>s.
       case owner_text user of
         Inl er \<Rightarrow> (Inl er, s)
       | Inr u \<Rightarrow>
           (let ex = (case exclude of None \<Rightarrow> [] | Some e \<Rightarrow> py_strip e) in
            case conversation_plans U True u (py_strip conv) s of
              (Inl er, t) \<Rightarrow> (Inl er, t)
            | (Inr ps, t) \<Rightarrow>
                (case cancel_each
                        (\<lambda>p s. (let q = p\<lparr>pl_status := Plan_Cancelled, pl_updated := Some now\<rparr> in (q, set_plan u q s)))
                        (filter (\<lambda>p. pl_status p = Waiting_For_Input \<and> \<not> (ex \<noteq> [] \<and> pl_id p = ex)) ps) t of
                   (qs, t') \<Rightarrow> (Inr qs, t'))))"

end
