(* ===== verification/Video_Steps.thy ===== *)
theory Video_Steps
  imports Video_Plans Harness_Projector
begin

text \<open>
  The step methods of \<^verbatim>\<open>MemoryVideoAgentRepository\<close> that write a public event with the step, the
  events they write (\<^verbatim>\<open>video/services/workflow_events.py\<close>), and the commands of the repository. The
  event repository is the three methods the code calls, None when it is not configured. \<open>ve_iso\<close> is
  \<^verbatim>\<open>_iso\<close> on a time and \<open>ve_ms\<close> the floating point computation of \<^verbatim>\<open>duration_ms\<close>.
\<close>

record 's event_ops =
  eo_create :: "'s create_op"
  eo_get :: "'s get_op"
  eo_list :: "'s listing_op"

record 's video_env =
  ve_uuid :: "string \<Rightarrow> string"
  ve_repr :: "json \<Rightarrow> string"
  ve_int :: "string \<Rightarrow> int option"
  ve_iso :: "time \<Rightarrow> string"
  ve_ms :: "time \<Rightarrow> time \<Rightarrow> int"
  ve_events :: "'s event_ops option"

section \<open>Events of a step\<close>

datatype step_phase = Ph_Started | Ph_Completed | Ph_Failed string | Ph_Progressed string

definition phase_text :: "step_phase \<Rightarrow> vw_error + string" where
  "phase_text ph =
     (case ph of
        Ph_Started \<Rightarrow> Inr ''started''
      | Ph_Completed \<Rightarrow> Inr ''completed''
      | Ph_Failed reason \<Rightarrow> Inr ''failed''
      | Ph_Progressed p \<Rightarrow>
          (let k = py_strip p in
           if k = [] \<or> 64 < py_len k \<or> CHR ''/'' \<in> set k \<or> CHR 0x5C \<in> set k then Inl Vw_Value
           else Inr (''progressed:'' @ k)))"

definition step_event_id :: "(string \<Rightarrow> string) \<Rightarrow> string \<Rightarrow> string \<Rightarrow> step_phase \<Rightarrow> vw_error + string" where
  "step_event_id U plan step ph =
     bind_result (phase_text ph) (\<lambda>t.
       Inr (''evt_'' @ U (''pixelflow-video-agent:step-event:'' @ plan @ '':'' @ step @ '':'' @ t)))"

definition step_head :: "plan_step \<Rightarrow> (string \<times> json) list" where
  "step_head x =
     [(''plan_id'', JStr (st_plan x)), (''step_id'', JStr (st_id x)), (''sequence'', JInt (int (st_seq x))),
      (''title'', JStr (st_title x)), (''status'', JStr (step_status_text (st_status x)))]"

definition opt_text :: "string option \<Rightarrow> json" where
  "opt_text t = (case t of None \<Rightarrow> JNull | Some s \<Rightarrow> JStr s)"

definition finish_fields :: "'s video_env \<Rightarrow> time \<Rightarrow> time \<Rightarrow> (string \<times> json) list" where
  "finish_fields E t u =
     [(''started_at'', JStr (ve_iso E t)), (''completed_at'', JStr (ve_iso E u)), (''duration_ms'', JInt (ve_ms E t u))]"

text \<open>The four \<^verbatim>\<open>build_step_\<dots>_event\<close> functions: the type and the payload.\<close>

definition started_payload :: "'s video_env \<Rightarrow> plan_step \<Rightarrow> vw_error + string \<times> json" where
  "started_payload E x =
     (case st_started x of
        None \<Rightarrow> Inl Vw_Value
      | Some t \<Rightarrow> Inr (''agent.step.started'', JObj (step_head x @ [(''started_at'', JStr (ve_iso E t))])))"

definition progressed_payload :: "'s video_env \<Rightarrow> string \<Rightarrow> plan_step \<Rightarrow> vw_error + string \<times> json" where
  "progressed_payload E phase x =
     (case st_started x of
        None \<Rightarrow> Inl Vw_Value
      | Some t \<Rightarrow>
          (let ph = py_strip phase; summary = py_strip (case st_summary x of None \<Rightarrow> [] | Some s \<Rightarrow> s) in
           if st_status x \<noteq> Step_Running \<or> ph = [] \<or> 64 < py_len ph \<or> summary = [] then Inl Vw_Value
           else Inr (''agent.step.progressed'', JObj (step_head x @
                  [(''public_summary'', JStr summary), (''progress_phase'', JStr ph), (''started_at'', JStr (ve_iso E t))]))))"

definition completed_payload :: "'s video_env \<Rightarrow> plan_step \<Rightarrow> vw_error + string \<times> json" where
  "completed_payload E x =
     (case (st_started x, st_done x) of
        (Some t, Some u) \<Rightarrow>
          Inr (''agent.step.completed'', JObj (step_head x @
            [(''public_summary'', opt_text (st_summary x)), (''artifact_refs'', JList (map JStr (st_refs x)))] @ finish_fields E t u))
      | _ \<Rightarrow> Inl Vw_Value)"

definition failed_payload :: "'s video_env \<Rightarrow> string \<Rightarrow> plan_step \<Rightarrow> vw_error + string \<times> json" where
  "failed_payload E reason x =
     (case (st_started x, st_done x) of
        (Some t, Some u) \<Rightarrow>
          Inr (''agent.step.failed'', JObj (step_head x @
            [(''public_summary'', opt_text (st_summary x)), (''reason_code'', JStr reason)] @ finish_fields E t u))
      | _ \<Rightarrow> Inl Vw_Value)"

definition step_payload :: "'s video_env \<Rightarrow> step_phase \<Rightarrow> plan_step \<Rightarrow> vw_error + string \<times> json" where
  "step_payload E ph x =
     (case ph of
        Ph_Started \<Rightarrow> started_payload E x
      | Ph_Completed \<Rightarrow> completed_payload E x
      | Ph_Failed reason \<Rightarrow> failed_payload E reason x
      | Ph_Progressed p \<Rightarrow> progressed_payload E p x)"

definition step_event ::
  "'s video_env \<Rightarrow> step_phase \<Rightarrow> plan_step \<Rightarrow> string \<Rightarrow> nat \<Rightarrow> string \<Rightarrow> string \<Rightarrow> time \<Rightarrow> vw_error + agent_event" where
  "step_event E ph x i n conv run now =
     bind_result (step_payload E ph x) (\<lambda>(ty, p).
       if py_strip conv = [] \<or> py_strip run = [] then Inl Vw_Value
       else Inr \<lparr>ae_id = py_strip i, ae_seq = n, ae_cursor = py_strip (''cursor_'' @ drop 4 i), ae_conv = py_strip conv,
                 ae_run = py_strip run, ae_time = now, ae_type = ty, ae_payload = p\<rparr>)"

definition lift_events :: "gw_error + 'a \<Rightarrow> vw_error + 'a" where
  "lift_events r = (case r of Inl er \<Rightarrow> Inl (Vw_Events er) | Inr a \<Rightarrow> Inr a)"

text \<open>
  The common body of \<^verbatim>\<open>_persist_memory_event\<close>, \<^verbatim>\<open>_persist_memory_failure_event\<close> and
  \<^verbatim>\<open>_persist_memory_progress_event\<close>; the first takes the plan of the identity from the step, the other
  two from their argument.
\<close>

definition event_plan :: "step_phase \<Rightarrow> string \<Rightarrow> plan_step \<Rightarrow> string" where
  "event_plan ph pid x = (case ph of Ph_Started \<Rightarrow> st_plan x | Ph_Completed \<Rightarrow> st_plan x | _ \<Rightarrow> pid)"

definition persist_event ::
  "'s video_env \<Rightarrow> string \<Rightarrow> string \<Rightarrow> plan_step \<Rightarrow> step_phase \<Rightarrow> string \<Rightarrow> time \<Rightarrow> video_store \<Rightarrow> 's
   \<Rightarrow> (vw_error + agent_event) \<times> 's" where
  "persist_event E u pid x ph run now s es =
     (case ve_events E of
        None \<Rightarrow> (Inl Vw_Unconfigured, es)
      | Some ops \<Rightarrow>
          (case bind_result (case map_of (vs_plans s) (u, pid) of None \<Rightarrow> Inl Vw_Conflict | Some p \<Rightarrow> Inr p) (\<lambda>p.
                bind_result (step_event_id (ve_uuid E) (event_plan ph pid x) (st_id x) ph) (\<lambda>i.
                bind_result (lift_events (eo_get ops u i es)) (\<lambda>found. Inr (p, i, found)))) of
             Inl er \<Rightarrow> (Inl er, es)
           | Inr (p, i, Some e) \<Rightarrow> (Inr e, es)
           | Inr (p, i, None) \<Rightarrow>
               (case bind_result (lift_events (eo_list ops u (pl_conv p) es)) (\<lambda>prior.
                       step_event E ph x i (if prior = [] then 1 else ae_seq (last prior) + 1) (pl_conv p) run now) of
                  Inl er \<Rightarrow> (Inl er, es)
                | Inr e \<Rightarrow> (case eo_create ops u e es of (r, es') \<Rightarrow> (lift_events r, es')))))"

section \<open>Steps with events\<close>

type_synonym 's step_event_result = "(vw_error + plan_step \<times> agent_event) \<times> video_store \<times> 's"

text \<open>
  The frame of the first three: the step before, the change \<open>f\<close> and the event; a failure of the event
  puts the step back.
\<close>

definition change_with_event ::
  "'s video_env \<Rightarrow> string \<Rightarrow> string \<times> string \<Rightarrow> (plan_step \<Rightarrow> vw_error + plan_step) \<Rightarrow> step_phase \<Rightarrow> string \<Rightarrow> time
   \<Rightarrow> video_store \<Rightarrow> 's \<Rightarrow> 's step_event_result" where
  "change_with_event E user ids f ph run now s es =
     (if vs_stuck s then (Inl Hangs, s, es)
      else case owner_text user of
        Inl er \<Rightarrow> (Inl er, s, es)
      | Inr u \<Rightarrow>
          (case map_of (vs_steps s) (u, ids) of
             None \<Rightarrow> (Inl Vw_Conflict, s, es)
           | Some before \<Rightarrow>
               (case f before of
                  Inl er \<Rightarrow> (Inl er, s, es)
                | Inr x \<Rightarrow>
                    (let t = set_step u x ids s in
                     case persist_event E u (fst ids) x ph run now t es of
                       (Inl er, es') \<Rightarrow> (Inl er, set_step u before ids t, es')
                     | (Inr e, es') \<Rightarrow> (Inr (x, e), t, es')))))"

definition start_step_with_event ::
  "'s video_env \<Rightarrow> string \<Rightarrow> string \<times> string \<Rightarrow> string \<Rightarrow> time \<Rightarrow> video_store \<Rightarrow> 's \<Rightarrow> 's step_event_result" where
  "start_step_with_event E user ids run now = change_with_event E user ids (started_step now) Ph_Started run now"

definition progressed_step :: "string \<Rightarrow> string \<Rightarrow> plan_step \<Rightarrow> vw_error + plan_step" where
  "progressed_step summary phase x =
     (if st_status x \<noteq> Step_Running then Inl Vw_Conflict
      else if py_strip summary = [] \<or> py_strip phase = [] then Inl Vw_Value
      else Inr (if st_summary x = Some (py_strip summary) then x else x\<lparr>st_summary := Some (py_strip summary)\<rparr>))"

definition progress_step_with_event ::
  "'s video_env \<Rightarrow> string \<Rightarrow> string \<times> string \<Rightarrow> string \<Rightarrow> string \<Rightarrow> string \<Rightarrow> time \<Rightarrow> video_store \<Rightarrow> 's \<Rightarrow> 's step_event_result" where
  "progress_step_with_event E user ids summary phase run now =
     change_with_event E user ids (progressed_step summary phase) (Ph_Progressed (py_strip phase)) run now"

definition complete_step_with_event ::
  "'s video_env \<Rightarrow> string \<Rightarrow> string \<times> string \<Rightarrow> step_result \<Rightarrow> string \<Rightarrow> time \<Rightarrow> video_store \<Rightarrow> 's \<Rightarrow> 's step_event_result" where
  "complete_step_with_event E user ids r run now =
     change_with_event E user ids (completed_step r now) Ph_Completed run now"

definition failed_step :: "string \<Rightarrow> time \<Rightarrow> plan_step \<Rightarrow> vw_error + plan_step" where
  "failed_step summary now x =
     (if st_status x = Step_Failed then Inr x
      else if st_status x = Step_Running
      then Inr (x\<lparr>st_status := Step_Failed, st_summary := Some summary, st_done := Some now\<rparr>)
      else Inl Vw_Conflict)"

text \<open>The step is written before the status of the plan is checked; that error leaves the step as it is.\<close>

definition fail_step_with_event ::
  "'s video_env \<Rightarrow> string \<Rightarrow> string \<times> string \<Rightarrow> string \<Rightarrow> string \<Rightarrow> string \<Rightarrow> time \<Rightarrow> video_store \<Rightarrow> 's \<Rightarrow> 's step_event_result" where
  "fail_step_with_event E user ids reason summary run now s es =
     (if vs_stuck s then (Inl Hangs, s, es)
      else case owner_text user of
        Inl er \<Rightarrow> (Inl er, s, es)
      | Inr u \<Rightarrow>
          (case (map_of (vs_steps s) (u, ids), map_of (vs_plans s) (u, fst ids)) of
             (Some before, Some p) \<Rightarrow>
               (case failed_step summary now before of
                  Inl er \<Rightarrow> (Inl er, s, es)
                | Inr x \<Rightarrow>
                    (let t = set_step u x ids s in
                     if \<not> plan_may_move (pl_status p) Plan_Failed then (Inl Vw_Conflict, t, es)
                     else
                       (let q = p\<lparr>pl_status := Plan_Failed, pl_updated := Some now\<rparr>;
                            t' = t\<lparr>vs_plans := AList.update (u, fst ids) q (vs_plans t)\<rparr>
                        in case persist_event E u (fst ids) x (Ph_Failed reason) run now t' es of
                             (Inl er, es') \<Rightarrow>
                               (Inl er, (set_step u before ids t')\<lparr>vs_plans := AList.update (u, fst ids) p (vs_plans t')\<rparr>, es')
                           | (Inr e, es') \<Rightarrow> (Inr (x, e), t', es'))))
           | _ \<Rightarrow> (Inl Vw_Conflict, s, es)))"

section \<open>Commands\<close>

datatype video_cmd =
    Create_Workspace string time video_ws
  | Discard_Workspace string string
  | Load_State string string
  | List_Plans string string
  | Patch_Workspace string string json nat time
  | Save_Plan string agent_plan "plan_step list" "nat option" time
  | Plan_Status string string plan_status time
  | Plan_Goal string string "string option" nat time
  | Start_Step string "string \<times> string" time
  | Complete_Step string "string \<times> string" step_result time
  | Ask_Step string "string \<times> string"
  | Confirm_Step string "string \<times> string" time
  | Cancel_Confirmation string "string \<times> string" time
  | Cancel_Quota string "string \<times> string" quota_key time
  | Cancel_Scripts string string time
  | Cancel_Waiting string string "string option" time
  | Start_With_Event string "string \<times> string" string time
  | Progress_With_Event string "string \<times> string" string string string time
  | Complete_With_Event string "string \<times> string" step_result string time
  | Fail_With_Event string "string \<times> string" string string string time

definition outcome :: "'a vs_result \<Rightarrow> 's \<Rightarrow> (vw_error + unit) \<times> video_store \<times> 's" where
  "outcome r es = (case r of (v, s) \<Rightarrow> (case v of Inl er \<Rightarrow> Inl er | Inr _ \<Rightarrow> Inr (), s, es))"

definition event_outcome :: "'s step_event_result \<Rightarrow> (vw_error + unit) \<times> video_store \<times> 's" where
  "event_outcome r = (case r of (v, w) \<Rightarrow> (case v of Inl er \<Rightarrow> Inl er | Inr _ \<Rightarrow> Inr (), w))"

fun video_exec :: "'s video_env \<Rightarrow> video_store \<times> 's \<Rightarrow> video_cmd \<Rightarrow> (vw_error + unit) \<times> video_store \<times> 's" where
  "video_exec E (s, es) (Create_Workspace user now w) = outcome (create_workspace user now w s) es"
| "video_exec E (s, es) (Discard_Workspace user wid) = outcome (discard_workspace user wid s) es"
| "video_exec E (s, es) (Load_State user conv) = outcome (load_conversation_state (ve_uuid E) user conv s) es"
| "video_exec E (s, es) (List_Plans user conv) = outcome (list_conversation_plans (ve_uuid E) user conv s) es"
| "video_exec E (s, es) (Patch_Workspace user wid patch rv now) =
     outcome (apply_workspace_patch (ve_repr E) (ve_int E) user wid patch rv now s) es"
| "video_exec E (s, es) (Save_Plan user p steps rv now) = outcome (save_plan user p steps rv now s) es"
| "video_exec E (s, es) (Plan_Status user pid st now) = outcome (update_plan_status user pid st now s) es"
| "video_exec E (s, es) (Plan_Goal user pid goal rv now) = outcome (update_plan_public_goal user pid goal rv now s) es"
| "video_exec E (s, es) (Start_Step user ids now) = outcome (start_step user ids now s) es"
| "video_exec E (s, es) (Complete_Step user ids r now) = outcome (complete_step user ids r now s) es"
| "video_exec E (s, es) (Ask_Step user ids) = outcome (request_step_confirmation user ids s) es"
| "video_exec E (s, es) (Confirm_Step user ids now) = outcome (confirm_step user ids now s) es"
| "video_exec E (s, es) (Cancel_Confirmation user ids now) = outcome (cancel_step_confirmation user ids now s) es"
| "video_exec E (s, es) (Cancel_Quota user ids k now) =
     outcome (cancel_quota_interrupted_plan (ve_repr E) (ve_int E) user ids k now s) es"
| "video_exec E (s, es) (Cancel_Scripts user conv now) =
     outcome (cancel_active_script_skill_plans (ve_uuid E) user conv now s) es"
| "video_exec E (s, es) (Cancel_Waiting user conv exclude now) =
     outcome (cancel_waiting_for_input_plans (ve_uuid E) user conv exclude now s) es"
| "video_exec E (s, es) (Start_With_Event user ids run now) = event_outcome (start_step_with_event E user ids run now s es)"
| "video_exec E (s, es) (Progress_With_Event user ids summary phase run now) =
     event_outcome (progress_step_with_event E user ids summary phase run now s es)"
| "video_exec E (s, es) (Complete_With_Event user ids r run now) =
     event_outcome (complete_step_with_event E user ids r run now s es)"
| "video_exec E (s, es) (Fail_With_Event user ids reason summary run now) =
     event_outcome (fail_step_with_event E user ids reason summary run now s es)"

definition new_video_store :: video_store where
  "new_video_store = \<lparr>vs_ws = [], vs_ws_owner = [], vs_plans = [], vs_plan_owner = [], vs_steps = [], vs_stuck = False\<rparr>"

end
