(* ===== verification/Video_Laws.thy ===== *)
theory Video_Laws
  imports Video_Steps Tables
begin

text \<open>
  What the methods of the video repository do to its tables, as a relation of small changes: a workspace
  is added, dropped or patched, a plan or a step moves along its status table, a plan is saved. Every
  command is a sequence of such changes (\<open>command_changes\<close>), so what a change keeps holds after
  every session.
\<close>

section \<open>Changes\<close>

fun step_moves :: "step_status \<Rightarrow> step_status list" where
  "step_moves Step_Pending = [Step_Awaiting, Step_Running, Step_Skipped]"
| "step_moves Step_Awaiting = [Step_Running, Step_Skipped]"
| "step_moves Step_Running = [Step_Completed, Step_Failed, Step_Skipped]"
| "step_moves _ = []"

definition plan_next :: "agent_plan \<Rightarrow> agent_plan \<Rightarrow> bool" where
  "plan_next p q = (pl_id q = pl_id p \<and> pl_ws q = pl_ws p \<and> pl_conv q = pl_conv p \<and> pl_created q = pl_created p \<and>
     pl_rev p \<le> pl_rev q \<and> plan_may_move (pl_status p) (pl_status q))"

definition step_next :: "plan_step \<Rightarrow> plan_step \<Rightarrow> bool" where
  "step_next x y = (st_id y = st_id x \<and> st_plan y = st_plan x \<and> st_seq y = st_seq x \<and> st_tool y = st_tool x \<and>
     st_title y = st_title x \<and> st_args y = st_args x \<and> st_confirm y = st_confirm x \<and>
     (terminal_step (st_status x) \<longrightarrow> y = x) \<and>
     (st_status y = st_status x \<or> st_status y \<in> set (step_moves (st_status x))))"

definition ws_next :: "video_ws \<Rightarrow> video_ws \<Rightarrow> bool" where
  "ws_next w w' = (vw_id w' = vw_id w \<and> vw_conv w' = vw_conv w \<and> vw_rev w' = vw_rev w + 1)"

lemma plan_next_refl [simp]: "plan_next p p"
  by (simp add: plan_next_def plan_may_move_def)

lemma step_next_refl [simp]: "step_next x x"
  by (simp add: step_next_def)

named_theorems step_laws \<open>a step moves along the table\<close>

lemma started_step_next [step_laws]: "started_step now x = Inr y \<Longrightarrow> step_next x y"
  by (auto simp: started_step_def step_next_def terminal_step_def split: if_splits)

lemma completed_step_next [step_laws]: "completed_step r now x = Inr y \<Longrightarrow> step_next x y"
  by (auto simp: completed_step_def step_next_def terminal_step_def split: if_splits)

lemma asked_step_next [step_laws]: "asked_step x = Inr y \<Longrightarrow> step_next x y"
  by (auto simp: asked_step_def step_next_def terminal_step_def split: if_splits)

lemma confirmed_step_next [step_laws]: "confirmed_step now x = Inr y \<Longrightarrow> step_next x y"
  by (auto simp: confirmed_step_def step_next_def terminal_step_def split: if_splits)

lemma progressed_step_next [step_laws]: "progressed_step summary phase x = Inr y \<Longrightarrow> step_next x y"
  by (auto simp: progressed_step_def step_next_def terminal_step_def split: if_splits)

lemma failed_step_next [step_laws]: "failed_step summary now x = Inr y \<Longrightarrow> step_next x y"
  by (auto simp: failed_step_def step_next_def terminal_step_def split: if_splits)

lemma skip_open_next: "step_next x (skip_open now x)"
  by (auto simp: skip_open_def step_next_def terminal_step_def)

lemma updated_workspace_next: "updated_workspace R P patch now w = Some w' \<Longrightarrow> ws_next w w'"
  by (auto simp: updated_workspace_def ws_next_def)

text \<open>The label says which plan is saved or which workspace is added.\<close>

datatype label = Quiet | Saved string | Added string

inductive change :: "label \<Rightarrow> video_store \<Rightarrow> video_store \<Rightarrow> bool" where
  add_ws: "map_of (vs_ws_owner s) (vw_id w) = None \<Longrightarrow>
    change (Added (vw_id w)) s ((set_ws u w s)\<lparr>vs_ws_owner := AList.update (vw_id w) u (vs_ws_owner s)\<rparr>)"
| forget_ws: "change Quiet s (drop_ws u wid s)"
| patch_ws: "map_of (vs_ws s) (u, wid) = Some w \<Longrightarrow> ws_next w w' \<Longrightarrow>
    change Quiet s (s\<lparr>vs_ws := AList.update (u, wid) w' (vs_ws s)\<rparr>)"
| stick: "change Quiet s (s\<lparr>vs_stuck := True\<rparr>)"
| move_plan: "map_of (vs_plans s) (u, pid) = Some p \<Longrightarrow> plan_next p q \<Longrightarrow>
    change Quiet s (s\<lparr>vs_plans := AList.update (u, pid) q (vs_plans s)\<rparr>)"
| move_step: "map_of (vs_steps s) (u, ids) = Some x \<Longrightarrow> step_next x y \<Longrightarrow> change Quiet s (set_step u y ids s)"
| save_again: "map_of (vs_plans s) (u, pl_id q) = Some p \<Longrightarrow> pl_ws q = pl_ws p \<Longrightarrow> pl_conv q = pl_conv p \<Longrightarrow>
    change (Saved (pl_id q)) s (put_steps u (pl_id q) steps (clear_steps u (pl_id q) (set_plan u q s)))"
| save_new: "map_of (vs_plan_owner s) (pl_id q) = None \<Longrightarrow>
    change (Saved (pl_id q)) s (put_steps u (pl_id q) steps
      ((set_plan u q s)\<lparr>vs_plan_owner := AList.update (pl_id q) u (vs_plan_owner s)\<rparr>))"

definition changes :: "label set \<Rightarrow> video_store \<Rightarrow> video_store \<Rightarrow> bool" where
  "changes A = (\<lambda>s t. \<exists>l. (l = Quiet \<or> l \<in> A) \<and> change l s t)\<^sup>*\<^sup>*"

lemma changes_refl [simp, intro]: "changes A s s"
  by (simp add: changes_def)

lemma changes_trans [trans]: "changes A s t \<Longrightarrow> changes A t u \<Longrightarrow> changes A s u"
  unfolding changes_def by (rule rtranclp_trans)

lemma changes_mono: "changes A s t \<Longrightarrow> A \<subseteq> B \<Longrightarrow> changes B s t"
  unfolding changes_def by (erule rtranclp_mono [THEN predicate2D, rotated]) auto

lemma change_one: "change Quiet s t \<Longrightarrow> changes A s t"
  unfolding changes_def by (rule r_into_rtranclp) force

lemma change_in: "change l s t \<Longrightarrow> l \<in> A \<Longrightarrow> changes A s t"
  unfolding changes_def by (rule r_into_rtranclp) force

lemma changes_induct [consumes 1, case_names start more]:
  assumes "changes A s t" and "P s"
    and "\<And>t u l. changes A s t \<Longrightarrow> P t \<Longrightarrow> change l t u \<Longrightarrow> l = Quiet \<or> l \<in> A \<Longrightarrow> P u"
  shows "P t"
  using assms(1) unfolding changes_def
proof (induction rule: rtranclp_induct)
  case base
  show ?case by (rule assms(2))
next
  case (step y z)
  then obtain l where l: "change l y z" "l = Quiet \<or> l \<in> A" by blast
  show ?case using assms(3) [OF _ step.IH l] step.hyps(1) unfolding changes_def by blast
qed

section \<open>The state invariant\<close>

definition owned_rows :: "('v \<Rightarrow> string) \<Rightarrow> (string \<times> string, 'v) dict \<Rightarrow> (string, string) dict \<Rightarrow> bool" where
  "owned_rows name d own =
     (distinct (map fst d) \<and> distinct (map fst own) \<and> (\<forall>u i v. map_of d (u, i) = Some v \<longrightarrow> name v = i) \<and>
      (\<forall>u i. map_of own i = Some u \<longleftrightarrow> map_of d (u, i) \<noteq> None))"

definition video_ok :: "video_store \<Rightarrow> bool" where
  "video_ok s = (owned_rows vw_id (vs_ws s) (vs_ws_owner s) \<and> owned_rows pl_id (vs_plans s) (vs_plan_owner s) \<and>
     distinct (map fst (vs_steps s)) \<and> all_rows (\<lambda>(u, p, i) x. st_id x = i) (vs_steps s))"

lemma owned_rows_Nil [simp]: "owned_rows name [] []"
  by (simp add: owned_rows_def)

lemma owned_rowsI:
  "distinct (map fst d) \<Longrightarrow> distinct (map fst own) \<Longrightarrow> (\<And>u i v. map_of d (u, i) = Some v \<Longrightarrow> name v = i) \<Longrightarrow>
   (\<And>u i. map_of own i = Some u \<longleftrightarrow> map_of d (u, i) \<noteq> None) \<Longrightarrow> owned_rows name d own"
  unfolding owned_rows_def by blast

lemma owned_rows_parts:
  assumes "owned_rows name d own"
  shows "distinct (map fst d)" and "distinct (map fst own)" and "map_of d (u, i) = Some v \<Longrightarrow> name v = i"
    and "map_of d (u, i) = None \<longleftrightarrow> map_of own i \<noteq> Some u"
  using assms unfolding owned_rows_def by blast+

lemma owned_rows_add:
  assumes ok: "owned_rows name d own" and new: "map_of own (name w) = None"
  shows "owned_rows name (AList.update (u, name w) w d) (AList.update (name w) u own)"
proof (rule owned_rowsI)
  note parts = owned_rows_parts [OF ok]
  show "distinct (map fst (AList.update (u, name w) w d))" "distinct (map fst (AList.update (name w) u own))"
    using parts(1,2) by (simp_all add: distinct_update)
  show "name v = i" if "map_of (AList.update (u, name w) w d) (v', i) = Some v" for v' i v
    using that parts(3) by (auto simp del: map_of_eq_Some_iff simp: fun_upd_def split: if_splits)
  show "map_of (AList.update (name w) u own) i = Some v \<longleftrightarrow> map_of (AList.update (u, name w) w d) (v, i) \<noteq> None" for v i
    using new parts(4) [of v i] by (auto simp del: map_of_eq_Some_iff simp: fun_upd_def)
qed

lemma owned_rows_change:
  assumes ok: "owned_rows name d own" and old: "map_of d (u, i) = Some v" and "name w = i"
  shows "owned_rows name (AList.update (u, i) w d) own"
proof (rule owned_rowsI)
  note parts = owned_rows_parts [OF ok]
  show "distinct (map fst (AList.update (u, i) w d))" "distinct (map fst own)"
    using parts(1,2) by (simp_all add: distinct_update)
  show "name v' = j" if "map_of (AList.update (u, i) w d) (u', j) = Some v'" for u' j v'
    using that parts(3) \<open>name w = i\<close> by (auto simp del: map_of_eq_Some_iff simp: fun_upd_def split: if_splits)
  show "map_of own j = Some v' \<longleftrightarrow> map_of (AList.update (u, i) w d) (v', j) \<noteq> None" for v' j
    using old parts(4) [of v' j] parts(4) [of u i] by (auto simp del: map_of_eq_Some_iff simp: fun_upd_def)
qed

lemma owned_rows_drop:
  assumes ok: "owned_rows name d own" and old: "map_of d (u, i) \<noteq> None"
  shows "owned_rows name (AList.delete (u, i) d) (AList.delete i own)"
proof (rule owned_rowsI)
  note parts = owned_rows_parts [OF ok]
  show "distinct (map fst (AList.delete (u, i) d))" "distinct (map fst (AList.delete i own))"
    using parts(1,2) by (simp_all add: distinct_delete)
  show "name v = j" if "map_of (AList.delete (u, i) d) (v', j) = Some v" for v' j v
    using that parts(3) by (auto simp del: map_of_eq_Some_iff simp: fun_upd_def split: if_splits)
  show "map_of (AList.delete i own) j = Some v \<longleftrightarrow> map_of (AList.delete (u, i) d) (v, j) \<noteq> None" for v j
    using old parts(4) [of v j] parts(4) [of u i] by (auto simp del: map_of_eq_Some_iff simp: fun_upd_def)
qed

lemma owned_row_id: "owned_rows name d own \<Longrightarrow> map_of d (u, i) = Some v \<Longrightarrow> name v = i"
  unfolding owned_rows_def by blast

subsection \<open>Tables of steps\<close>

lemma set_step_fields [simp]:
  "vs_ws (set_step u x k s) = vs_ws s" "vs_ws_owner (set_step u x k s) = vs_ws_owner s"
  "vs_plans (set_step u x k s) = vs_plans s" "vs_plan_owner (set_step u x k s) = vs_plan_owner s"
  "vs_stuck (set_step u x k s) = vs_stuck s" "vs_steps (set_step u x k s) = AList.update (u, k) x (vs_steps s)"
  by (simp_all add: set_step_def)

lemma put_steps_fields [simp]:
  "vs_ws (put_steps u i xs s) = vs_ws s" "vs_ws_owner (put_steps u i xs s) = vs_ws_owner s"
  "vs_plans (put_steps u i xs s) = vs_plans s" "vs_plan_owner (put_steps u i xs s) = vs_plan_owner s"
  "vs_stuck (put_steps u i xs s) = vs_stuck s"
  by (induction xs arbitrary: s) (simp_all add: put_steps_def)

lemma put_steps_ok:
  "distinct (map fst (vs_steps s)) \<Longrightarrow> all_rows (\<lambda>(u, p, i) x. st_id x = i) (vs_steps s) \<Longrightarrow>
   distinct (map fst (vs_steps (put_steps u i xs s))) \<and> all_rows (\<lambda>(u, p, i) x. st_id x = i) (vs_steps (put_steps u i xs s))"
  by (induction xs arbitrary: s) (simp_all add: put_steps_def distinct_update all_rows_update)

lemma put_steps_other: "p \<noteq> i \<Longrightarrow> map_of (vs_steps (put_steps u i xs s)) (v, p, j) = map_of (vs_steps s) (v, p, j)"
  by (induction xs arbitrary: s) (simp_all add: put_steps_def)

lemma clear_steps_fields [simp]:
  "vs_ws (clear_steps u i s) = vs_ws s" "vs_ws_owner (clear_steps u i s) = vs_ws_owner s"
  "vs_plans (clear_steps u i s) = vs_plans s" "vs_plan_owner (clear_steps u i s) = vs_plan_owner s"
  "vs_stuck (clear_steps u i s) = vs_stuck s"
  by (simp_all add: clear_steps_def)

lemma map_of_filter_key: "map_of (filter (\<lambda>(k, v). P k) d) k = (if P k then map_of d k else None)"
  by (induction d) auto

lemma clear_steps_other: "p \<noteq> i \<Longrightarrow> map_of (vs_steps (clear_steps u i s)) (v, p, j) = map_of (vs_steps s) (v, p, j)"
proof -
  have "vs_steps (clear_steps u i s) = filter (\<lambda>(k, x). \<not> (fst k = u \<and> fst (snd k) = i)) (vs_steps s)"
    unfolding clear_steps_def by (auto intro: filter_cong)
  then show "p \<noteq> i \<Longrightarrow> ?thesis" by (simp add: map_of_filter_key)
qed

lemma all_rows_filter:
  assumes "distinct (map fst d)" and "all_rows P d"
  shows "all_rows P (filter Q d)"
proof -
  have "map_of d k = Some v" if "map_of (filter Q d) k = Some v" for k v
    using that assms(1) map_of_SomeD [OF that] by (auto intro: map_of_is_SomeI)
  then show ?thesis using assms(2) unfolding all_rows_def by blast
qed

lemma clear_steps_ok:
  "distinct (map fst (vs_steps s)) \<Longrightarrow> all_rows P (vs_steps s) \<Longrightarrow>
   distinct (map fst (vs_steps (clear_steps u i s))) \<and> all_rows P (vs_steps (clear_steps u i s))"
  by (simp add: clear_steps_def distinct_map_filter all_rows_filter)

lemma set_plan_fields [simp]:
  "vs_ws (set_plan u q s) = vs_ws s" "vs_ws_owner (set_plan u q s) = vs_ws_owner s" "vs_steps (set_plan u q s) = vs_steps s"
  "vs_plan_owner (set_plan u q s) = vs_plan_owner s" "vs_stuck (set_plan u q s) = vs_stuck s"
  "vs_plans (set_plan u q s) = AList.update (u, pl_id q) q (vs_plans s)"
  by (simp_all add: set_plan_def)

lemma set_ws_fields [simp]:
  "vs_plans (set_ws u w s) = vs_plans s" "vs_ws_owner (set_ws u w s) = vs_ws_owner s" "vs_steps (set_ws u w s) = vs_steps s"
  "vs_plan_owner (set_ws u w s) = vs_plan_owner s" "vs_stuck (set_ws u w s) = vs_stuck s"
  "vs_ws (set_ws u w s) = AList.update (u, vw_id w) w (vs_ws s)"
  by (simp_all add: set_ws_def)

lemma drop_ws_fields [simp]:
  "vs_plans (drop_ws u i s) = vs_plans s" "vs_steps (drop_ws u i s) = vs_steps s"
  "vs_plan_owner (drop_ws u i s) = vs_plan_owner s" "vs_stuck (drop_ws u i s) = vs_stuck s"
  by (simp_all add: drop_ws_def split: option.splits)

lemma drop_ws_row: "map_of (vs_ws (drop_ws u i s)) = (map_of (vs_ws s))((u, i) := None)"
  by (auto simp: drop_ws_def fun_eq_iff split: option.splits)

lemma change_ok:
  assumes "change l s t" and "video_ok s"
  shows "video_ok t"
  using assms
proof (cases rule: change.cases)
  case (forget_ws u wid)
  then show ?thesis using assms(2) by (auto simp: video_ok_def drop_ws_def owned_rows_drop split: option.splits)
next
  case (save_again u q p steps)
  have "owned_rows pl_id (AList.update (u, pl_id q) q (vs_plans s)) (vs_plan_owner s)"
    using save_again assms(2) unfolding video_ok_def by (blast intro: owned_rows_change)
  moreover note clear_steps_ok [of "set_plan u q s" "\<lambda>(u, p, i) x. st_id x = i" u "pl_id q"]
  moreover note put_steps_ok [of "clear_steps u (pl_id q) (set_plan u q s)" u "pl_id q" steps]
  ultimately show ?thesis using save_again(2) assms(2) unfolding video_ok_def by simp
next
  case (save_new q u steps)
  let ?r = "(set_plan u q s)\<lparr>vs_plan_owner := AList.update (pl_id q) u (vs_plan_owner s)\<rparr>"
  have "owned_rows pl_id (AList.update (u, pl_id q) q (vs_plans s)) (AList.update (pl_id q) u (vs_plan_owner s))"
    using save_new assms(2) unfolding video_ok_def by (blast intro: owned_rows_add)
  moreover note put_steps_ok [of ?r u "pl_id q" steps]
  ultimately show ?thesis using save_new(2) assms(2) unfolding video_ok_def by simp
next
  case (move_plan u pid p q)
  have "pl_id p = pid" using move_plan assms(2) unfolding video_ok_def by (blast dest: owned_row_id)
  then have "owned_rows pl_id (AList.update (u, pid) q (vs_plans s)) (vs_plan_owner s)"
    using move_plan assms(2) unfolding video_ok_def plan_next_def by (blast intro: owned_rows_change)
  then show ?thesis using move_plan assms(2) unfolding video_ok_def by simp
next
  case (patch_ws u wid w w')
  have "vw_id w = wid" using patch_ws assms(2) unfolding video_ok_def by (blast dest: owned_row_id)
  then have "owned_rows vw_id (AList.update (u, wid) w' (vs_ws s)) (vs_ws_owner s)"
    using patch_ws assms(2) unfolding video_ok_def ws_next_def by (blast intro: owned_rows_change)
  then show ?thesis using patch_ws assms(2) unfolding video_ok_def by simp
next
  case (move_step u ids x y)
  have "(\<lambda>(u, p, i) x. st_id x = i) (u, ids) y"
    using move_step assms(2) by (cases ids) (auto simp: video_ok_def step_next_def dest: all_rowsD)
  then show ?thesis using move_step assms(2) by (auto simp: video_ok_def distinct_update intro!: all_rows_update)
qed (auto simp: video_ok_def owned_rows_add)

lemma changes_ok: "changes A s t \<Longrightarrow> video_ok s \<Longrightarrow> video_ok t"
  by (induction rule: changes_induct) (auto intro: change_ok)

section \<open>Commands\<close>

text \<open>What a command may save or add.\<close>

fun labels :: "video_cmd \<Rightarrow> label set" where
  "labels (Save_Plan user p steps rv now) = {Saved (pl_id p)}"
| "labels (Create_Workspace user now w) = {Added (vw_id w)}"
| "labels _ = {}"

end
