(* ===== verification/Video_Contract.thy ===== *)
theory Video_Contract
  imports Video_Laws
begin

text \<open>
  What both video repositories promise (\<open>video_repository\<close>): every command is a sequence of changes of the
  tables a reader sees, and what follows for the rows along a session.
\<close>

section \<open>Rows along a session\<close>

definition plan_path :: "(plan_status \<times> plan_status) set" where
  "plan_path = {(a, b). b \<in> set (plan_moves a)}\<^sup>*"

definition step_path :: "(step_status \<times> step_status) set" where
  "step_path = {(a, b). b \<in> set (step_moves a)}\<^sup>*"

definition terminal_plan :: "plan_status \<Rightarrow> bool" where
  "terminal_plan st = (st \<in> {Plan_Completed, Plan_Failed, Plan_Cancelled})"

lemma plan_next_path: "plan_next p q \<Longrightarrow> (pl_status p, pl_status q) \<in> plan_path"
  by (auto simp: plan_next_def plan_may_move_def plan_path_def)

lemma step_next_path: "step_next x y \<Longrightarrow> (st_status x, st_status y) \<in> step_path"
  by (auto simp: step_next_def step_path_def)

lemma terminal_plan_path: "(a, b) \<in> plan_path \<Longrightarrow> terminal_plan a \<Longrightarrow> b = a"
  unfolding plan_path_def by (induction rule: rtrancl_induct) (auto simp: terminal_plan_def)

lemma change_plan_row:
  assumes "change l s t" and "l \<noteq> Saved pid" and "map_of (vs_plans s) (u, pid) = Some p"
  shows "\<exists>q. map_of (vs_plans t) (u, pid) = Some q \<and> plan_next p q"
  using assms by (cases rule: change.cases) auto

lemma change_step_row:
  assumes "change l s t" and "l \<noteq> Saved pid" and "map_of (vs_steps s) (u, pid, i) = Some x"
  shows "\<exists>y. map_of (vs_steps t) (u, pid, i) = Some y \<and> step_next x y"
  using assms by (cases rule: change.cases) (auto simp: put_steps_other clear_steps_other)

lemma plan_row_forward:
  assumes "changes A s t" and "Saved pid \<notin> A" and "map_of (vs_plans s) (u, pid) = Some p"
  shows "\<exists>q. map_of (vs_plans t) (u, pid) = Some q \<and> pl_ws q = pl_ws p \<and> (pl_status p, pl_status q) \<in> plan_path"
  using assms(1)
proof (induction rule: changes_induct)
  case start
  show ?case using assms(3) by (simp add: plan_path_def)
next
  case (more t v l)
  then obtain q where q: "map_of (vs_plans t) (u, pid) = Some q" "pl_ws q = pl_ws p" "(pl_status p, pl_status q) \<in> plan_path" by blast
  have "l \<noteq> Saved pid" using more(3) assms(2) by blast
  then obtain r where "map_of (vs_plans v) (u, pid) = Some r" "plan_next q r" using change_plan_row [OF more(2) _ q(1)] by blast
  then show ?case using q plan_next_path [of q r] unfolding plan_path_def by (auto simp: plan_next_def)
qed

lemma step_row_forward:
  assumes "changes A s t" and "Saved pid \<notin> A" and "map_of (vs_steps s) (u, pid, i) = Some x"
  shows "\<exists>y. map_of (vs_steps t) (u, pid, i) = Some y \<and> (st_status x, st_status y) \<in> step_path \<and>
    (terminal_step (st_status x) \<longrightarrow> y = x)"
  using assms(1)
proof (induction rule: changes_induct)
  case start
  show ?case using assms(3) by (simp add: step_path_def)
next
  case (more t v l)
  then obtain y where y: "map_of (vs_steps t) (u, pid, i) = Some y" "(st_status x, st_status y) \<in> step_path"
    "terminal_step (st_status x) \<longrightarrow> y = x" by blast
  have "l \<noteq> Saved pid" using more(3) assms(2) by blast
  then obtain z where "map_of (vs_steps v) (u, pid, i) = Some z" "step_next y z" using change_step_row [OF more(2) _ y(1)] by blast
  then show ?case using y step_next_path [of y z] unfolding step_path_def by (auto simp: step_next_def)
qed

definition ws_le :: "video_ws \<Rightarrow> video_ws \<Rightarrow> bool" where
  "ws_le w v = (vw_id v = vw_id w \<and> vw_conv v = vw_conv w \<and> vw_rev w \<le> vw_rev v \<and> (vw_rev w = vw_rev v \<longrightarrow> v = w))"

lemma ws_le_refl [simp]: "ws_le w w"
  by (simp add: ws_le_def)

lemma ws_le_trans: "ws_le w v \<Longrightarrow> ws_le v x \<Longrightarrow> ws_le w x"
  by (auto simp: ws_le_def)

lemma ws_next_le: "ws_next w v \<Longrightarrow> ws_le w v"
  by (simp add: ws_next_def ws_le_def)

lemma change_ws_row:
  assumes "change l s t" and "l \<noteq> Added wid"
  shows "map_of (vs_ws t) (u, wid) = None \<or>
    (\<exists>w v. map_of (vs_ws s) (u, wid) = Some w \<and> map_of (vs_ws t) (u, wid) = Some v \<and> ws_le w v)"
  using assms
proof (cases rule: change.cases)
  case (patch_ws u' wid' w w')
  then show ?thesis using ws_next_le [of w w'] by (cases "map_of (vs_ws s) (u, wid)") auto
qed (auto simp: drop_ws_row)

lemma ws_row_forward:
  assumes "changes A s t" and "Added wid \<notin> A" and "map_of (vs_ws t) (u, wid) = Some v"
  shows "\<exists>w. map_of (vs_ws s) (u, wid) = Some w \<and> ws_le w v"
proof -
  have "\<forall>v. map_of (vs_ws t) (u, wid) = Some v \<longrightarrow> (\<exists>w. map_of (vs_ws s) (u, wid) = Some w \<and> ws_le w v)"
    using assms(1)
  proof (induction rule: changes_induct)
    case (more t z l)
    have "l \<noteq> Added wid" using more(3) assms(2) by blast
    then show ?case using change_ws_row [OF more(2), of wid u] more(4) ws_le_trans by (metis option.distinct(1) option.inject)
  qed simp
  then show ?thesis using assms(3) by blast
qed

lemma no_label: "l \<notin> \<Union> (labels ` set cs) \<Longrightarrow> \<Union> (labels ` set cs) \<subseteq> - {l}"
  by blast

lemma stuck_for_good: "changes A s t \<Longrightarrow> vs_stuck s \<Longrightarrow> vs_stuck t"
proof (induction rule: changes_induct)
  case (more t u l)
  from more(2) more.IH [OF more.prems] show ?case by (cases rule: change.cases) auto
qed

section \<open>The contract of a video repository\<close>

text \<open>\<open>view\<close> gives the tables by owner.\<close>

locale video_repository = machine exec okay
  for exec :: "'w \<Rightarrow> video_cmd \<Rightarrow> (vw_error + unit) \<times> 'w" and okay :: "'w \<Rightarrow> bool" +
  fixes view :: "'w \<Rightarrow> video_store"
  assumes okay_view: "okay w \<Longrightarrow> video_ok (view w)"
    and exec_changes: "okay w \<Longrightarrow> labels c \<subseteq> A \<Longrightarrow> changes A (view w) (view (snd (exec w c)))"
    and create_present: "okay w \<Longrightarrow> map_of (vs_ws_owner (view w)) (vw_id x) \<noteq> None \<Longrightarrow>
      view (snd (exec w (Create_Workspace user now x))) = view w"
begin

lemma session_changes:
  assumes "okay w" and "\<Union> (labels ` set cs) \<subseteq> A"
  shows "changes A (view w) (view (run_all exec w cs))"
  using assms
proof (induction cs arbitrary: w)
  case (Cons c cs)
  have "changes A (view w) (view (snd (exec w c)))" using Cons.prems by (intro exec_changes) auto
  also have "changes A \<dots> (view (run_all exec (snd (exec w c)) cs))"
    using Cons.prems by (intro Cons.IH exec_inv) auto
  finally show ?case by simp
qed simp

lemma rows_forward:
  assumes "okay a" and "Saved pid \<notin> \<Union> (labels ` set cs)"
    and p: "map_of (vs_plans (view a)) (u, pid) = Some p" and x: "map_of (vs_steps (view a)) (u, pid, i) = Some x"
  shows "\<exists>q y. map_of (vs_plans (view (run_all exec a cs))) (u, pid) = Some q \<and>
      map_of (vs_steps (view (run_all exec a cs))) (u, pid, i) = Some y \<and>
      (pl_status p, pl_status q) \<in> plan_path \<and> (st_status x, st_status y) \<in> step_path \<and>
      (terminal_plan (pl_status p) \<longrightarrow> pl_status q = pl_status p) \<and> (terminal_step (st_status x) \<longrightarrow> y = x)"
proof -
  let ?t = "view (run_all exec a cs)"
  have chg: "changes (- {Saved pid}) (view a) ?t" by (rule session_changes [OF assms(1) no_label [OF assms(2)]])
  obtain q where q: "map_of (vs_plans ?t) (u, pid) = Some q" "(pl_status p, pl_status q) \<in> plan_path"
    using plan_row_forward [OF chg _ p] by auto
  obtain y where y: "map_of (vs_steps ?t) (u, pid, i) = Some y" "(st_status x, st_status y) \<in> step_path"
    "terminal_step (st_status x) \<longrightarrow> y = x"
    using step_row_forward [OF chg _ x] by auto
  show ?thesis using q y terminal_plan_path [OF q(2)] by blast
qed

lemma command_ws_row:
  assumes ok: "okay a" and old: "map_of (vs_ws (view a)) (u, wid) = Some w"
    and new: "map_of (vs_ws (view (snd (exec a c)))) (u, wid) = Some v"
  shows "ws_le w v"
proof (cases "Added wid \<in> labels c")
  case False
  then show ?thesis using ws_row_forward [OF exec_changes [OF ok order_refl] False new] old by auto
next
  case True
  then obtain user now x where c: "c = Create_Workspace user now x" "vw_id x = wid" by (cases c) auto
  have "map_of (vs_ws_owner (view a)) wid \<noteq> None" using okay_view [OF ok] old by (auto simp: video_ok_def owned_rows_def)
  then have "view (snd (exec a c)) = view a" using create_present [OF ok] c by simp
  then show ?thesis using old new by simp
qed

lemma session_ws_row:
  assumes "okay a" and "map_of (vs_ws (view a)) (u, wid) = Some w"
    and "\<forall>k \<le> length cs. map_of (vs_ws (view (run_all exec a (take k cs)))) (u, wid) \<noteq> None"
  shows "\<exists>v. map_of (vs_ws (view (run_all exec a cs))) (u, wid) = Some v \<and> ws_le w v"
  using assms
proof (induction cs arbitrary: a w)
  case (Cons c cs)
  let ?b = "snd (exec a c)"
  have "map_of (vs_ws (view ?b)) (u, wid) \<noteq> None" using Cons.prems(3) [rule_format, of 1] by simp
  then obtain x where x: "map_of (vs_ws (view ?b)) (u, wid) = Some x" by blast
  have "\<forall>k \<le> length cs. map_of (vs_ws (view (run_all exec ?b (take k cs)))) (u, wid) \<noteq> None"
    using Cons.prems(3) by (metis Suc_le_mono length_Cons run_all.simps(2) take_Suc_Cons)
  then obtain v where "map_of (vs_ws (view (run_all exec ?b cs))) (u, wid) = Some v" "ws_le x v"
    using Cons.IH [OF exec_inv [OF Cons.prems(1)] x] by blast
  then show ?case using command_ws_row [OF Cons.prems(1,2) x] by (auto intro: ws_le_trans)
qed simp

end

end
