(* ===== verification/Video_Changes.thy ===== *)
theory Video_Changes
  imports Video_Contract
begin

text \<open>Every command of the video repository in memory is a sequence of changes: it satisfies the contract.\<close>

section \<open>Workspaces\<close>

lemma drop_all_changes: "changes A s (fold (drop_ws u) ids s)"
proof (induction ids arbitrary: s)
  case (Cons i ids)
  have "changes A s (drop_ws u i s)" by (rule change_one [OF forget_ws])
  also have "changes A \<dots> (fold (drop_ws u) ids \<dots>)" by (rule Cons.IH)
  finally show ?case by simp
qed simp

lemma with_lock_changes: "(\<And>s. changes A s (snd (f s))) \<Longrightarrow> changes A s (snd (with_lock f s))"
  by (simp add: with_lock_def)

lemma create_workspace_changes:
  assumes "Added (vw_id w) \<in> A"
  shows "changes A s (snd (create_workspace user now w s))"
proof -
  let ?x = "w\<lparr>vw_created := stored_time now (vw_created w), vw_updated := stored_time now (vw_updated w)\<rparr>"
  have "changes A s ((set_ws u ?x s)\<lparr>vs_ws_owner := AList.update (vw_id w) u (vs_ws_owner s)\<rparr>)"
    if "map_of (vs_ws_owner s) (vw_id w) = None" for u
    using change_in [OF add_ws [of s ?x u]] that assms by simp
  then show ?thesis by (auto simp: create_workspace_def Let_def split: sum.splits option.splits)
qed

lemma discard_workspace_changes: "changes A s (snd (discard_workspace user wid s))"
  by (auto simp: discard_workspace_def with_lock_def intro!: change_one [OF forget_ws] split: sum.splits)

lemma settle_workspace_changes: "changes A s (snd (settle_workspace U held u conv s))"
  by (auto simp: settle_workspace_def Let_def with_lock_def intro!: drop_all_changes change_one [OF stick] split: sum.splits)

lemma settle_changes: "settle_workspace U held u conv s = (r, t) \<Longrightarrow> changes A s t"
  using settle_workspace_changes [of A s U held u conv] by simp

lemma conversation_plans_changes: "changes A s (snd (conversation_plans U held u conv s))"
  by (auto simp: conversation_plans_def intro: settle_changes split: prod.splits sum.splits option.splits)

lemma list_conversation_plans_changes: "changes A s (snd (list_conversation_plans U user conv s))"
  by (auto simp: list_conversation_plans_def conversation_plans_changes split: sum.splits)

lemma load_conversation_state_changes: "changes A s (snd (load_conversation_state U user conv s))"
  by (auto simp: load_conversation_state_def Let_def intro: settle_changes split: prod.splits sum.splits option.splits list.splits)

lemma apply_workspace_patch_changes: "changes A s (snd (apply_workspace_patch R P user wid patch rv now s))"
  by (auto simp: apply_workspace_patch_def with_lock_def dest: updated_workspace_next
      intro!: change_one [OF patch_ws] split: sum.splits option.splits)

section \<open>Plans\<close>

lemma save_plan_changes:
  assumes "Saved (pl_id p) \<in> A"
  shows "changes A s (snd (save_plan user p steps rv now s))"
proof -
  have again: "changes A s (put_steps u (pl_id p) steps (clear_steps u (pl_id p)
      (set_plan u (p\<lparr>pl_rev := r, pl_steps := xs, pl_created := c, pl_updated := t\<rparr>) s)))"
    if "map_of (vs_plans s) (u, pl_id p) = Some old" "pl_ws p = pl_ws old" "pl_conv p = pl_conv old" for u r xs c t old
    using change_in [OF save_again [of s u "p\<lparr>pl_rev := r, pl_steps := xs, pl_created := c, pl_updated := t\<rparr>" old steps]]
      that assms by simp
  have new: "changes A s (put_steps u (pl_id p) steps
      ((set_plan u (p\<lparr>pl_steps := xs, pl_created := c, pl_updated := t\<rparr>) s)\<lparr>vs_plan_owner := AList.update (pl_id p) u (vs_plan_owner s)\<rparr>))"
    if "map_of (vs_plan_owner s) (pl_id p) = None" for u xs c t
    using change_in [OF save_new [of s "p\<lparr>pl_steps := xs, pl_created := c, pl_updated := t\<rparr>" u steps]] that assms by simp
  show ?thesis
    by (auto simp: save_plan_def Let_def with_lock_def intro!: again new split: sum.splits option.splits)
qed

lemma with_plan_changes:
  assumes "\<And>u p. map_of (vs_plans s) (u, pid) = Some p \<Longrightarrow> changes A s (snd (f u p))"
  shows "changes A s (snd (with_plan user pid f s))"
  using assms by (auto simp: with_plan_def split: sum.splits option.splits)

lemma update_plan_status_changes: "changes A s (snd (update_plan_status user pid st now s))"
  unfolding update_plan_status_def
  by (rule with_plan_changes) (auto simp: Let_def plan_next_def intro!: change_one [OF move_plan])

lemma update_plan_public_goal_changes: "changes A s (snd (update_plan_public_goal user pid goal rv now s))"
  unfolding update_plan_public_goal_def
  by (rule with_plan_changes) (auto simp: Let_def plan_next_def plan_may_move_def intro!: change_one [OF move_plan])

section \<open>Steps\<close>

lemma with_step_changes:
  "(\<And>x y. f x = Inr y \<Longrightarrow> step_next x y) \<Longrightarrow> changes A s (snd (with_step user ids f s))"
  by (auto simp: with_step_def intro!: change_one [OF move_step] split: sum.splits option.splits)

lemma update_same: "map_of d k = Some v \<Longrightarrow> AList.update k v d = d"
  by (induction d) (auto split: if_splits)

lemma restore_update: "map_of d k = Some v \<Longrightarrow> AList.update k v (AList.update k x d) = d"
  by (induction d) (auto split: if_splits)

lemma restore_step: "map_of (vs_steps s) (u, ids) = Some x \<Longrightarrow> set_step u x ids (set_step u y ids s) = s"
  by (simp add: set_step_def restore_update update_same)

lemma change_with_event_changes:
  assumes "\<And>x y. f x = Inr y \<Longrightarrow> step_next x y"
  shows "changes A s (fst (snd (change_with_event E user ids f ph run now s es)))"
  using assms
  by (auto simp: change_with_event_def Let_def restore_step intro!: change_one [OF move_step]
      split: sum.splits option.splits prod.splits)

lemma fail_step_changes: "changes A s (fst (snd (fail_step_with_event E user ids reason summary run now s es)))"
proof -
  have step: "changes A s (set_step u x ids s)" if "map_of (vs_steps s) (u, ids) = Some b" "failed_step summary now b = Inr x" for u b x
    using that by (auto intro!: change_one [OF move_step] failed_step_next)
  have plan: "changes A s (set_step u x ids s\<lparr>vs_plans := AList.update (u, fst ids) (p\<lparr>pl_status := Plan_Failed, pl_updated := Some now\<rparr>) (vs_plans s)\<rparr>)"
    if "map_of (vs_steps s) (u, ids) = Some b" "failed_step summary now b = Inr x"
      "map_of (vs_plans s) (u, fst ids) = Some p" "plan_may_move (pl_status p) Plan_Failed" for u b x p
  proof -
    have "change Quiet (set_step u x ids s)
        (set_step u x ids s\<lparr>vs_plans := AList.update (u, fst ids) (p\<lparr>pl_status := Plan_Failed, pl_updated := Some now\<rparr>) (vs_plans (set_step u x ids s))\<rparr>)"
      by (rule move_plan) (use that in \<open>auto simp: plan_next_def\<close>)
    then show ?thesis using changes_trans [OF step [OF that(1,2)] change_one] by simp
  qed
  have undone: "set_step u b ids (set_step u x ids s\<lparr>vs_plans := AList.update (u, fst ids) q (vs_plans s)\<rparr>)
      \<lparr>vs_plans := AList.update (u, fst ids) p (vs_plans s)\<rparr> = s"
    if "map_of (vs_steps s) (u, ids) = Some b" "map_of (vs_plans s) (u, fst ids) = Some p" for u b x p q
    using that by (simp add: set_step_def restore_update update_same)
  show ?thesis
    by (auto simp: fail_step_with_event_def Let_def step plan undone split: sum.splits option.splits prod.splits)
qed

section \<open>Cancellations\<close>

lemma cancel_step_confirmation_changes: "changes A s (snd (cancel_step_confirmation user ids now s))"
proof -
  have two: "changes A s (set_step u y ids s\<lparr>vs_plans := AList.update (u, fst ids) q (vs_plans s)\<rparr>)"
    if "map_of (vs_steps s) (u, ids) = Some x" "step_next x y" "map_of (vs_plans s) (u, fst ids) = Some p" "plan_next p q" for u x y p q
    using changes_trans [OF change_one [OF move_step [OF that(1,2)]] change_one [OF move_plan [of "set_step u y ids s"]]] that by simp
  show ?thesis
    by (auto simp: cancel_step_confirmation_def with_lock_def Let_def plan_next_def plan_may_move_def step_next_def terminal_step_def
        intro!: two split: sum.splits option.splits)
qed

lemma cancel_quota_changes: "changes A s (snd (cancel_quota_interrupted_plan R P user ids k now s))"
proof -
  have three: "changes A s (set_step u y ids s\<lparr>vs_plans := AList.update (u, fst ids) q (vs_plans s),
      vs_ws := AList.update (u, wid) w' (vs_ws s)\<rparr>)"
    if "map_of (vs_steps s) (u, ids) = Some x" "step_next x y" "map_of (vs_plans s) (u, fst ids) = Some p" "plan_next p q"
      "map_of (vs_ws s) (u, wid) = Some w" "ws_next w w'" for u x y p q wid w w'
  proof -
    let ?t = "set_step u y ids s"
    let ?t' = "?t\<lparr>vs_plans := AList.update (u, fst ids) q (vs_plans ?t)\<rparr>"
    have "changes A s ?t" by (rule change_one [OF move_step [OF that(1,2)]])
    also have "changes A ?t ?t'" by (rule change_one [OF move_plan]) (use that in simp_all)
    also have "changes A ?t' (?t'\<lparr>vs_ws := AList.update (u, wid) w' (vs_ws ?t')\<rparr>)"
      by (rule change_one [OF patch_ws]) (use that in simp_all)
    finally show ?thesis by simp
  qed
  show ?thesis
    by (auto simp: cancel_quota_interrupted_plan_def with_lock_def Let_def plan_next_def step_next_def terminal_step_def
        intro!: three dest: updated_workspace_next split: sum.splits option.splits)
qed

text \<open>A plan as it was listed agrees with the stored one in what a cancellation keeps.\<close>

definition same_plan :: "agent_plan \<Rightarrow> agent_plan \<Rightarrow> bool" where
  "same_plan p q = (pl_id p = pl_id q \<and> pl_ws p = pl_ws q \<and> pl_conv p = pl_conv q \<and> pl_created p = pl_created q \<and>
     pl_rev p = pl_rev q \<and> pl_status p = pl_status q)"

definition listed :: "string \<Rightarrow> video_store \<Rightarrow> agent_plan \<Rightarrow> bool" where
  "listed u s p = ((\<exists>q. map_of (vs_plans s) (u, pl_id p) = Some q \<and> same_plan p q) \<and> distinct (map st_id (pl_steps p)) \<and>
     (\<forall>x \<in> set (pl_steps p). map_of (vs_steps s) (u, pl_id p, st_id x) = Some x))"

lemma in_plan_steps: "x \<in> set (plan_steps u pid s) \<longleftrightarrow> (\<exists>i. ((u, pid, i), x) \<in> set (vs_steps s))"
  by (force simp: plan_steps_def)

lemma distinct_names:
  assumes "distinct (map fst d)" and "\<And>k v. (k, v) \<in> set d \<Longrightarrow> k = key (name v)"
  shows "distinct (map name (map snd d))"
proof -
  have "map fst d = map key (map name (map snd d))" using assms(2) by (induction d) auto
  then show ?thesis using assms(1) by (simp only: distinct_map)
qed

lemma distinct_sorted_names: "distinct (map f (sort_key k xs)) = distinct (map f xs)"
  by (simp add: distinct_map)

lemma distinct_plan_steps:
  assumes "video_ok s"
  shows "distinct (map st_id (plan_steps u pid s))"
proof -
  let ?f = "filter (\<lambda>((o', p, i), x). o' = u \<and> p = pid) (vs_steps s)"
  have d: "distinct (map fst (vs_steps s))" and ids: "all_rows (\<lambda>(u, p, i) x. st_id x = i) (vs_steps s)"
    using assms by (simp_all add: video_ok_def)
  have "st_id x = i" if "((v, p, i), x) \<in> set (vs_steps s)" for v p i x
    using all_rowsD [OF ids, of "(v, p, i)" x] that d by simp
  then have "distinct (map st_id (map snd ?f))"
    using d by (intro distinct_names [where key = "\<lambda>i. (u, pid, i)"]) (auto simp: distinct_map_filter)
  then show ?thesis unfolding plan_steps_def distinct_sorted_names .
qed

lemma stored_plan_step:
  assumes "video_ok s" and "x \<in> set (plan_steps u pid s)"
  shows "map_of (vs_steps s) (u, pid, st_id x) = Some x"
proof -
  obtain i where i: "((u, pid, i), x) \<in> set (vs_steps s)" using assms(2) unfolding in_plan_steps by blast
  have d: "distinct (map fst (vs_steps s))" and ids: "all_rows (\<lambda>(u, p, i) x. st_id x = i) (vs_steps s)"
    using assms(1) by (simp_all add: video_ok_def)
  have row: "map_of (vs_steps s) (u, pid, i) = Some x" using map_of_is_SomeI [OF d i] .
  then show ?thesis using all_rowsD [OF ids row] by simp
qed

lemma listed_with_steps:
  assumes "video_ok s" and "map_of (vs_plans s) (u, i) = Some p"
  shows "listed u s (with_steps u s p)"
proof -
  have "pl_id p = i" using assms unfolding video_ok_def by (blast dest: owned_row_id)
  then show ?thesis
    using assms distinct_plan_steps [OF assms(1)] stored_plan_step [OF assms(1)]
    by (auto simp: listed_def with_steps_def same_plan_def)
qed

lemma conversation_plans_listed:
  assumes ok: "video_ok s" and eq: "conversation_plans U held u conv s = (Inr ps, t)"
  shows "video_ok t" and "list_all (listed u t) ps" and "distinct (map pl_id ps)"
proof -
  show t: "video_ok t"
    using changes_ok [OF conversation_plans_changes [of UNIV s U held u conv] ok] eq by simp
  obtain r where settled: "settle_workspace U held u conv s = (Inr r, t)"
    using eq by (auto simp: conversation_plans_def split: prod.splits sum.splits option.splits)
  have plans: "distinct (map fst (vs_plans t))" "\<And>i p. map_of (vs_plans t) (u, i) = Some p \<Longrightarrow> pl_id p = i"
    using t unfolding video_ok_def owned_rows_def by blast+
  show "list_all (listed u t) ps"
    unfolding list_all_iff
  proof
    fix p assume "p \<in> set ps"
    then obtain q i where "((u, i), q) \<in> set (vs_plans t)" "p = with_steps u t q"
      using eq settled by (cases r) (auto simp: conversation_plans_def workspace_plans_def)
    then show "listed u t p" using listed_with_steps [OF t] plans(1) by (simp add: map_of_is_SomeI)
  qed
  have "distinct (map pl_id (workspace_plans u conv wid t))" for wid
    unfolding workspace_plans_def
    by (rule distinct_names [where key = "\<lambda>i. (u, i)"]) (use plans in \<open>auto simp: distinct_map_filter\<close>)
  then have "distinct (map pl_id (map (with_steps u t) (sort_key k (workspace_plans u conv wid t))))" for k :: "agent_plan \<Rightarrow> (nat \<times> time) \<times> string" and wid
    by (simp add: comp_def with_steps_def distinct_map)
  then show "distinct (map pl_id ps)"
    using eq settled by (cases r) (auto simp: conversation_plans_def simp del: map_map)
qed

lemma cancel_each_changes:
  assumes step: "\<And>p s. listed u s p \<Longrightarrow> ok p \<Longrightarrow> changes A s (snd (f p s))"
    and other: "\<And>p q s. listed u s q \<Longrightarrow> pl_id p \<noteq> pl_id q \<Longrightarrow> listed u (snd (f p s)) q"
    and ps: "list_all (listed u s) ps" "list_all ok ps" "distinct (map pl_id ps)"
  shows "changes A s (snd (cancel_each f ps s))"
  using ps
proof (induction ps arbitrary: s)
  case (Cons p ps)
  have "changes A s (snd (f p s))" using Cons.prems step by simp
  moreover have "list_all (listed u (snd (f p s))) ps"
    using Cons.prems other by (fastforce simp: list_all_iff)
  ultimately show ?case using Cons.IH [of "snd (f p s)"] Cons.prems
    by (auto simp: Let_def split_beta intro: changes_trans)
qed simp

lemma cancel_frame:
  assumes "\<And>u ps t. conversation_plans U True u c s = (Inr ps, t) \<Longrightarrow> changes A s (snd (g u ps t))"
  shows "changes A s (snd (with_lock (\<lambda>s. case owner_text user of Inl er \<Rightarrow> (Inl er, s)
     | Inr u \<Rightarrow> (case conversation_plans U True u c s of (Inl er, t) \<Rightarrow> (Inl er, t)
         | (Inr ps, t) \<Rightarrow> (case g u ps t of (qs, t') \<Rightarrow> (Inr qs, t')))) s))"
proof (cases "owner_text user")
  case (Inr u)
  obtain r t where r: "conversation_plans U True u c s = (r, t)" by fastforce
  have "changes A s t" using conversation_plans_changes [of A s U True u c] r by simp
  then show ?thesis using Inr r assms by (cases r) (auto simp: with_lock_def split_beta)
qed (simp add: with_lock_def)

definition skip_steps :: "string \<Rightarrow> string \<Rightarrow> time \<Rightarrow> plan_step list \<Rightarrow> video_store \<Rightarrow> video_store" where
  "skip_steps u pid now xs s = fold (\<lambda>x s. if st_status x \<in> {Step_Pending, Step_Running, Step_Awaiting}
     then set_step u (skip_open now x) (pid, st_id x) s else s) xs s"

lemma skip_steps_fields [simp]:
  "vs_plans (skip_steps u pid now xs s) = vs_plans s"
  by (induction xs arbitrary: s) (simp_all add: skip_steps_def)

lemma skip_steps_other: "p \<noteq> pid \<Longrightarrow> map_of (vs_steps (skip_steps u pid now xs s)) (v, p, j) = map_of (vs_steps s) (v, p, j)"
  by (induction xs arbitrary: s) (simp_all add: skip_steps_def)

lemma skip_steps_changes:
  "distinct (map st_id xs) \<Longrightarrow> \<forall>x \<in> set xs. map_of (vs_steps s) (u, pid, st_id x) = Some x \<Longrightarrow>
   changes A s (skip_steps u pid now xs s)"
proof (induction xs arbitrary: s)
  case (Cons x xs)
  let ?s = "if st_status x \<in> {Step_Pending, Step_Running, Step_Awaiting} then set_step u (skip_open now x) (pid, st_id x) s else s"
  have row: "map_of (vs_steps s) (u, pid, st_id x) = Some x" using Cons.prems by simp
  have "changes A s ?s" using change_one [OF move_step [OF row skip_open_next]] by simp
  also have "changes A ?s (skip_steps u pid now xs ?s)"
  proof (rule Cons.IH)
    show "\<forall>y \<in> set xs. map_of (vs_steps ?s) (u, pid, st_id y) = Some y"
    proof
      fix y assume y: "y \<in> set xs"
      then have "st_id y \<noteq> st_id x" using Cons.prems(1) by (metis distinct.simps(2) image_eqI list.set_map list.simps(9))
      then show "map_of (vs_steps ?s) (u, pid, st_id y) = Some y" using y Cons.prems(2) by simp
    qed
  qed (use Cons.prems in simp)
  finally show ?case by (simp add: skip_steps_def)
qed (simp add: skip_steps_def)

lemma cancel_script_plan_eq:
  "snd (cancel_script_plan u now p s) =
     set_plan u (p\<lparr>pl_status := Plan_Cancelled, pl_steps := plan_steps u (pl_id p) (skip_steps u (pl_id p) now (pl_steps p) s),
                   pl_updated := Some now\<rparr>) (skip_steps u (pl_id p) now (pl_steps p) s)"
  by (simp add: cancel_script_plan_def skip_steps_def Let_def)

lemma set_plan_changes:
  assumes "map_of (vs_plans s) (u, pl_id p) = Some q" and "same_plan p q" and "plan_next p r"
  shows "changes A s (set_plan u r s)"
proof -
  have "plan_next q r" "pl_id r = pl_id p" using assms(2,3) by (auto simp: same_plan_def plan_next_def)
  then show ?thesis using change_one [OF move_plan [OF assms(1)]] by (simp add: set_plan_def)
qed

lemma cancel_active_script_changes:
  assumes ok: "video_ok s"
  shows "changes A s (snd (cancel_active_script_skill_plans U user conv now s))"
proof -
  have "changes A s (snd (cancel_each (cancel_script_plan u now) (filter script_plan_open ps) t))"
    if "conversation_plans U True u c s = (Inr ps, t)" for u c ps t
  proof -
    note L = conversation_plans_listed [OF ok that]
    have "changes A s t" using conversation_plans_changes [of A s U True u c] that by simp
    also have "changes A t (snd (cancel_each (cancel_script_plan u now) (filter script_plan_open ps) t))"
    proof (rule cancel_each_changes [where u = u and ok = script_plan_open])
      fix p :: agent_plan and s assume p: "listed u s p" "script_plan_open p"
      let ?s = "skip_steps u (pl_id p) now (pl_steps p) s"
      have "changes A s ?s" using p(1) by (intro skip_steps_changes) (simp_all add: listed_def)
      also have "changes A ?s (snd (cancel_script_plan u now p s))"
      proof -
        obtain q where "map_of (vs_plans ?s) (u, pl_id p) = Some q" "same_plan p q" using p(1) by (auto simp: listed_def)
        then show ?thesis
          unfolding cancel_script_plan_eq
          by (rule set_plan_changes) (use p(2) in \<open>auto simp: plan_next_def plan_may_move_def script_plan_open_def\<close>)
      qed
      finally show "changes A s (snd (cancel_script_plan u now p s))" .
    next
      fix p q :: agent_plan and s assume "listed u s q" "pl_id p \<noteq> pl_id q"
      then show "listed u (snd (cancel_script_plan u now p s)) q"
        unfolding cancel_script_plan_eq listed_def by (simp add: skip_steps_other)
    qed (use L in \<open>auto simp: list_all_iff distinct_map_filter\<close>)
    finally show ?thesis .
  qed
  then show ?thesis unfolding cancel_active_script_skill_plans_def
    by (intro cancel_frame [where g = "\<lambda>u ps t. cancel_each (cancel_script_plan u now) (filter script_plan_open ps) t"])
qed

lemma cancel_waiting_changes:
  assumes ok: "video_ok s"
  shows "changes A s (snd (cancel_waiting_for_input_plans U user conv exclude now s))"
proof -
  let ?f = "\<lambda>u p s. (let q = p\<lparr>pl_status := Plan_Cancelled, pl_updated := Some now\<rparr> in (q, set_plan u q s))"
  have "changes A s (snd (cancel_each (?f u) (filter (\<lambda>p. pl_status p = Waiting_For_Input \<and> Q p) ps) t))"
    if "conversation_plans U True u c s = (Inr ps, t)" for u c ps t Q
  proof -
    note L = conversation_plans_listed [OF ok that]
    have "changes A s t" using conversation_plans_changes [of A s U True u c] that by simp
    also have "changes A t (snd (cancel_each (?f u) (filter (\<lambda>p. pl_status p = Waiting_For_Input \<and> Q p) ps) t))"
    proof (rule cancel_each_changes [where u = u and ok = "\<lambda>p. pl_status p = Waiting_For_Input"])
      fix p :: agent_plan and s assume p: "listed u s p" "pl_status p = Waiting_For_Input"
      obtain q where "map_of (vs_plans s) (u, pl_id p) = Some q" "same_plan p q" using p(1) by (auto simp: listed_def)
      then have "changes A s (set_plan u (p\<lparr>pl_status := Plan_Cancelled, pl_updated := Some now\<rparr>) s)"
        by (rule set_plan_changes) (use p(2) in \<open>auto simp: plan_next_def plan_may_move_def\<close>)
      then show "changes A s (snd (?f u p s))" by (simp add: Let_def)
    next
      fix p q :: agent_plan and s assume "listed u s q" "pl_id p \<noteq> pl_id q"
      then show "listed u (snd (?f u p s)) q" unfolding listed_def by (simp add: Let_def)
    qed (use L in \<open>auto simp: list_all_iff distinct_map_filter\<close>)
    finally show ?thesis .
  qed
  then show ?thesis unfolding cancel_waiting_for_input_plans_def Let_def
    by (intro cancel_frame [where g = "\<lambda>u ps t. cancel_each (?f u) (filter (\<lambda>p. pl_status p = Waiting_For_Input \<and> Q p) ps) t"
          for Q, unfolded Let_def])
qed

section \<open>Commands\<close>

lemma outcome_store [simp]: "fst (snd (outcome r es)) = snd r" "snd (snd (outcome r es)) = es"
  by (simp_all add: outcome_def split: prod.splits)

lemma event_outcome_store [simp]: "snd (event_outcome r) = snd r"
  by (simp add: event_outcome_def split: prod.splits)

lemmas command_laws =
  create_workspace_changes discard_workspace_changes load_conversation_state_changes list_conversation_plans_changes
  apply_workspace_patch_changes save_plan_changes update_plan_status_changes update_plan_public_goal_changes
  cancel_step_confirmation_changes cancel_quota_changes cancel_active_script_changes cancel_waiting_changes fail_step_changes

lemmas step_command_defs =
  start_step_def complete_step_def request_step_confirmation_def confirm_step_def
  start_step_with_event_def progress_step_with_event_def complete_step_with_event_def

theorem command_changes:
  assumes "video_ok (fst w)" and "labels c \<subseteq> A"
  shows "changes A (fst w) (fst (snd (video_exec E w c)))"
proof -
  obtain s es where w: "w = (s, es)" by (cases w)
  show ?thesis
    unfolding w using assms
    by (cases c) (auto simp: w step_command_defs intro!: command_laws with_step_changes change_with_event_changes dest: step_laws)
qed

section \<open>The contract\<close>

lemma present_workspace_kept:
  "map_of (vs_ws_owner s) (vw_id w) \<noteq> None \<Longrightarrow> snd (create_workspace user now w s) = s"
  by (auto simp: create_workspace_def split: sum.splits option.splits)

interpretation mem_video: video_repository "video_exec E" "\<lambda>w. video_ok (fst w)" fst for E :: "'s video_env"
proof unfold_locales
  fix w :: "video_store \<times> 's" and c A
  assume ok: "video_ok (fst w)"
  show "video_ok (fst (snd (video_exec E w c)))" by (rule changes_ok [OF command_changes [OF ok subset_UNIV] ok])
  show "changes A (fst w) (fst (snd (video_exec E w c)))" if "labels c \<subseteq> A" using ok that by (rule command_changes)
  show "fst (snd (video_exec E w (Create_Workspace user now x))) = fst w" if "map_of (vs_ws_owner (fst w)) (vw_id x) \<noteq> None" for user now x
    using that by (cases w) (simp add: present_workspace_kept)
qed simp

lemma new_store_ok: "video_ok new_video_store"
  by (simp add: video_ok_def new_video_store_def)

end
