(* ===== verification/Video_Sql.thy ===== *)
theory Video_Sql
  imports Video_Steps "HOL-Library.List_Lexorder"
begin

text \<open>
  \<^verbatim>\<open>SQLVideoAgentRepository\<close> (\<^verbatim>\<open>video/workspace/sql_repository.py\<close>): tables by primary key with
  the owner of each row, and the shared table of events. A method is one transaction unless it opens
  several; a transaction is a value or an error, and an error leaves the tables as they were. A record
  read back from a row is validated again, which can raise. Patches and merges are the functions of
  \<open>Workspace_Payload\<close>, whose code both repositories carry word for word.
\<close>

section \<open>Tables\<close>

record sql_video =
  sv_ws :: "(string, string \<times> video_ws) dict"
  sv_plans :: "(string, string \<times> agent_plan) dict"
  sv_steps :: "(string \<times> string, string \<times> plan_step) dict"
  sv_events :: sql_events

type_synonym 'a tx = "vw_error + 'a \<times> sql_video"
type_synonym 'a sv_result = "(vw_error + 'a) \<times> sql_video"

definition commit :: "sql_video \<Rightarrow> 'a tx \<Rightarrow> 'a sv_result" where
  "commit s r = (case r of Inl er \<Rightarrow> (Inl er, s) | Inr (a, t) \<Rightarrow> (Inr a, t))"

definition short_text :: "string option \<Rightarrow> bool" where
  "short_text t = (case t of None \<Rightarrow> True | Some s \<Rightarrow> py_len (py_strip s) \<le> 2000)"

definition step_from_row :: "plan_step \<Rightarrow> vw_error + plan_step" where
  "step_from_row x =
     (if step_times_ok x \<and> short_text (st_summary x) then Inr (x\<lparr>st_summary := map_option py_strip (st_summary x)\<rparr>) else Inl Vw_Value)"

definition plan_from_row :: "agent_plan \<Rightarrow> vw_error + agent_plan" where
  "plan_from_row p =
     (if short_text (pl_goal p) then Inr (p\<lparr>pl_goal := map_option py_strip (pl_goal p), pl_steps := []\<rparr>) else Inl Vw_Value)"

fun collect :: "('a \<Rightarrow> 'e + 'b) \<Rightarrow> 'a list \<Rightarrow> 'e + 'b list" where
  "collect f [] = Inr []"
| "collect f (x # xs) = bind_result (f x) (\<lambda>y. bind_result (collect f xs) (\<lambda>ys. Inr (y # ys)))"

definition owned_row :: "string \<Rightarrow> 'k \<Rightarrow> ('k, string \<times> 'v) dict \<Rightarrow> vw_error + 'v" where
  "owned_row u k d = (case map_of d k of None \<Rightarrow> Inl Vw_Conflict | Some (v, x) \<Rightarrow> if v = u then Inr x else Inl Vw_Conflict)"

definition plan_step_rows :: "string \<Rightarrow> string \<Rightarrow> sql_video \<Rightarrow> plan_step list" where
  "plan_step_rows u pid s = sort_key st_seq (map (\<lambda>(k, v, x). x) (filter (\<lambda>(k, v, x). v = u \<and> fst k = pid) (sv_steps s)))"

definition sql_plan_steps :: "string \<Rightarrow> string \<Rightarrow> sql_video \<Rightarrow> vw_error + plan_step list" where
  "sql_plan_steps u pid s = collect step_from_row (plan_step_rows u pid s)"

definition sql_list_plan_steps :: "string \<Rightarrow> string \<Rightarrow> sql_video \<Rightarrow> vw_error + plan_step list" where
  "sql_list_plan_steps user pid s = bind_result (owner_text user) (\<lambda>u. sql_plan_steps u pid s)"

text \<open>After the transaction the steps of the plan are read in a session of their own.\<close>

definition then_steps :: "string \<Rightarrow> agent_plan sv_result \<Rightarrow> agent_plan sv_result" where
  "then_steps u r =
     (case r of
        (Inl er, t) \<Rightarrow> (Inl er, t)
      | (Inr p, t) \<Rightarrow> (bind_result (sql_plan_steps u (pl_id p) t) (\<lambda>xs. Inr (p\<lparr>pl_steps := xs\<rparr>)), t))"

section \<open>Workspaces\<close>

definition sql_create_workspace :: "string \<Rightarrow> time \<Rightarrow> video_ws \<Rightarrow> sql_video \<Rightarrow> video_ws sv_result" where
  "sql_create_workspace user now w s =
     commit s (bind_result (owner_text user) (\<lambda>u.
       case map_of (sv_ws s) (vw_id w) of
         Some (v, x) \<Rightarrow> if v \<noteq> u then Inl Vw_Conflict else Inr (x, s)
       | None \<Rightarrow>
           (let x = w\<lparr>vw_created := stored_time now (vw_created w), vw_updated := stored_time now (vw_updated w)\<rparr>
            in Inr (x, s\<lparr>sv_ws := sv_ws s @ [(vw_id w, u, x)]\<rparr>))))"

definition sql_get_workspace :: "string \<Rightarrow> string \<Rightarrow> sql_video \<Rightarrow> vw_error + video_ws option" where
  "sql_get_workspace user wid s =
     bind_result (owner_text user) (\<lambda>u. Inr (case owned_row u wid (sv_ws s) of Inl er \<Rightarrow> None | Inr w \<Rightarrow> Some w))"

definition sql_discard_workspace :: "string \<Rightarrow> string \<Rightarrow> sql_video \<Rightarrow> unit sv_result" where
  "sql_discard_workspace user wid s =
     commit s (bind_result (owner_text user) (\<lambda>u.
       case map_of (sv_ws s) wid of
         None \<Rightarrow> Inr ((), s)
       | Some (v, x) \<Rightarrow> if v \<noteq> u then Inl Vw_Conflict else Inr ((), s\<lparr>sv_ws := AList.delete wid (sv_ws s)\<rparr>)))"

definition sql_conv_workspaces :: "string \<Rightarrow> string \<Rightarrow> sql_video \<Rightarrow> video_ws list" where
  "sql_conv_workspaces u conv s =
     sort_key vw_id (map (\<lambda>(i, v, w). w) (filter (\<lambda>(i, v, w). v = u \<and> vw_conv w = conv) (sv_ws s)))"

definition sql_planned_ids :: "string \<Rightarrow> string \<Rightarrow> sql_video \<Rightarrow> string list" where
  "sql_planned_ids u conv s =
     filter (\<lambda>i. i \<noteq> []) (map (\<lambda>(i, v, p). pl_ws p) (filter (\<lambda>(i, v, p). v = u \<and> pl_conv p = conv) (sv_plans s)))"

definition delete_workspaces :: "string list \<Rightarrow> sql_video \<Rightarrow> sql_video" where
  "delete_workspaces ids s = s\<lparr>sv_ws := fold AList.delete ids (sv_ws s)\<rparr>"

definition sql_settle :: "(string \<Rightarrow> string) \<Rightarrow> string \<Rightarrow> string \<Rightarrow> sql_video \<Rightarrow> video_ws option tx" where
  "sql_settle U u conv s =
     (let ws = sql_conv_workspaces u conv s; planned = sql_planned_ids u conv s in
      if ws = [] then Inr (None, s)
      else bind_result (pick_workspace U conv planned ws) (\<lambda>best. Inr (Some best, delete_workspaces (orphans_of best planned ws) s)))"

definition sql_workspace_plans :: "string \<Rightarrow> string \<Rightarrow> string \<Rightarrow> sql_video \<Rightarrow> agent_plan list" where
  "sql_workspace_plans u conv wid s =
     map (\<lambda>(i, v, p). p) (filter (\<lambda>(i, v, p). v = u \<and> pl_conv p = conv \<and> pl_ws p = wid) (sv_plans s))"

definition sql_with_steps :: "string \<Rightarrow> sql_video \<Rightarrow> agent_plan \<Rightarrow> vw_error + agent_plan" where
  "sql_with_steps u s p =
     bind_result (sql_plan_steps u (pl_id p) s) (\<lambda>xs. bind_result (plan_from_row p) (\<lambda>q. Inr (q\<lparr>pl_steps := xs\<rparr>)))"

definition sql_load_conversation_state ::
  "(string \<Rightarrow> string) \<Rightarrow> string \<Rightarrow> string \<Rightarrow> sql_video \<Rightarrow> (video_ws \<times> agent_plan option) option sv_result" where
  "sql_load_conversation_state U user conv s =
     commit s (bind_result (owner_text user) (\<lambda>u. bind_result (sql_settle U u conv s) (\<lambda>(found, t).
       case found of
         None \<Rightarrow> Inr (None, t)
       | Some w \<Rightarrow>
           (case sql_workspace_plans u conv (vw_id w) t of
              [] \<Rightarrow> Inr (Some (w, None), t)
            | p # ps \<Rightarrow>
                bind_result (sql_with_steps u t (first_max (\<lambda>q. (sort_time (pl_updated q), sort_time (pl_created q), pl_id q)) p ps))
                  (\<lambda>q. Inr (Some (w, Some q), t))))))"

definition sql_list_plans :: "(string \<Rightarrow> string) \<Rightarrow> string \<Rightarrow> string \<Rightarrow> sql_video \<Rightarrow> agent_plan list tx" where
  "sql_list_plans U u conv s =
     bind_result (sql_settle U u conv s) (\<lambda>(found, t).
       case found of
         None \<Rightarrow> Inr ([], t)
       | Some w \<Rightarrow>
           bind_result (collect (sql_with_steps u t)
               (sort_key (\<lambda>p. (sort_time (pl_created p), pl_id p)) (sql_workspace_plans u conv (vw_id w) t)))
             (\<lambda>ps. Inr (ps, t)))"

definition sql_list_conversation_plans :: "(string \<Rightarrow> string) \<Rightarrow> string \<Rightarrow> string \<Rightarrow> sql_video \<Rightarrow> agent_plan list sv_result" where
  "sql_list_conversation_plans U user conv s = commit s (bind_result (owner_text user) (\<lambda>u. sql_list_plans U u conv s))"

definition sql_apply_workspace_patch ::
  "(json \<Rightarrow> string) \<Rightarrow> (string \<Rightarrow> int option) \<Rightarrow> string \<Rightarrow> string \<Rightarrow> json \<Rightarrow> nat \<Rightarrow> time \<Rightarrow> sql_video \<Rightarrow> video_ws sv_result" where
  "sql_apply_workspace_patch R P user wid patch rv now s =
     (if rv < 1 \<or> \<not> patch_keys_ok patch then (Inl Vw_Conflict, s)
      else commit s (bind_result (owner_text user) (\<lambda>u. bind_result (owned_row u wid (sv_ws s)) (\<lambda>w.
        if patch_replay R w patch rv then Inr (w, s)
        else if vw_rev w \<noteq> rv then Inl Vw_Conflict
        else (case updated_workspace R P patch now w of
                None \<Rightarrow> Inl Vw_Value
              | Some w' \<Rightarrow> Inr (w', s\<lparr>sv_ws := AList.update wid (u, w') (sv_ws s)\<rparr>))))))"

section \<open>Plans\<close>

definition set_plan_row :: "string \<Rightarrow> string \<Rightarrow> agent_plan \<Rightarrow> sql_video \<Rightarrow> sql_video" where
  "set_plan_row u pid p s = s\<lparr>sv_plans := AList.update pid (u, p\<lparr>pl_steps := []\<rparr>) (sv_plans s)\<rparr>"

definition sql_get_plan :: "string \<Rightarrow> string \<Rightarrow> sql_video \<Rightarrow> vw_error + agent_plan option" where
  "sql_get_plan user pid s =
     bind_result (owner_text user) (\<lambda>u.
       case owned_row u pid (sv_plans s) of
         Inl er \<Rightarrow> Inr None
       | Inr p \<Rightarrow> bind_result (sql_with_steps u s p) (\<lambda>q. Inr (Some q)))"

text \<open>An insertion violates the primary key or the unique sequence of the plan.\<close>

definition insert_step ::
  "string \<Rightarrow> (string \<times> string, string \<times> plan_step) dict \<Rightarrow> plan_step \<Rightarrow> vw_error + (string \<times> string, string \<times> plan_step) dict" where
  "insert_step u d x =
     (if map_of d (st_plan x, st_id x) \<noteq> None \<or> list_ex (\<lambda>(k, v, y). fst k = st_plan x \<and> st_seq y = st_seq x) d
      then Inl Vw_Integrity else Inr (d @ [((st_plan x, st_id x), u, x)]))"

definition saved_again :: "agent_plan \<Rightarrow> agent_plan \<Rightarrow> time \<Rightarrow> agent_plan" where
  "saved_again p old now =
     old\<lparr>pl_status := pl_status p, pl_goal := pl_goal p, pl_rev := pl_rev old + 1, pl_updated := stored_time now (pl_updated p)\<rparr>"

definition saved_new :: "agent_plan \<Rightarrow> plan_step list \<Rightarrow> time \<Rightarrow> agent_plan" where
  "saved_new p steps now =
     p\<lparr>pl_steps := steps, pl_created := stored_time now (pl_created p), pl_updated := stored_time now (pl_updated p)\<rparr>"

definition sql_write_plan ::
  "string \<Rightarrow> agent_plan \<Rightarrow> plan_step list \<Rightarrow> nat option \<Rightarrow> time \<Rightarrow> sql_video \<Rightarrow> agent_plan tx" where
  "sql_write_plan u p steps rv now s =
     (case map_of (sv_plans s) (pl_id p) of
        Some (v, old) \<Rightarrow>
          if v \<noteq> u \<or> rv \<noteq> Some (pl_rev old) \<or> pl_ws old \<noteq> pl_ws p \<or> pl_conv old \<noteq> pl_conv p then Inl Vw_Conflict
          else
            (let q = saved_again p old now;
                 kept = filter (\<lambda>(k, v', x). \<not> (v' = u \<and> fst k = pl_id p)) (sv_steps s)
             in bind_result (fold_result (insert_step u) kept steps) (\<lambda>d.
                bind_result (plan_from_row q) (\<lambda>r.
                  Inr (r\<lparr>pl_steps := steps\<rparr>, (set_plan_row u (pl_id p) q s)\<lparr>sv_steps := d\<rparr>))))
      | None \<Rightarrow>
          if rv \<noteq> None then Inl Vw_Conflict
          else bind_result (fold_result (insert_step u) (sv_steps s) steps) (\<lambda>d.
                 Inr (saved_new p steps now, (set_plan_row u (pl_id p) (saved_new p steps now) s)\<lparr>sv_steps := d\<rparr>)))"

definition sql_save_plan ::
  "string \<Rightarrow> agent_plan \<Rightarrow> plan_step list \<Rightarrow> nat option \<Rightarrow> time \<Rightarrow> sql_video \<Rightarrow> agent_plan sv_result" where
  "sql_save_plan user p steps rv now s =
     commit s (bind_result (owner_text user) (\<lambda>u.
       if \<not> new_steps_ok p steps then Inl Vw_Conflict
       else bind_result (owned_row u (pl_ws p) (sv_ws s)) (\<lambda>_. sql_write_plan u p steps rv now s)))"

definition sql_update_plan_status :: "string \<Rightarrow> string \<Rightarrow> plan_status \<Rightarrow> time \<Rightarrow> sql_video \<Rightarrow> agent_plan sv_result" where
  "sql_update_plan_status user pid st now s =
     (case owner_text user of
        Inl er \<Rightarrow> (Inl er, s)
      | Inr u \<Rightarrow>
          then_steps u (commit s (bind_result (owned_row u pid (sv_plans s)) (\<lambda>p.
            if \<not> plan_may_move (pl_status p) st then Inl Vw_Conflict
            else (let q = p\<lparr>pl_status := st, pl_rev := pl_rev p + 1, pl_updated := Some now\<rparr>
                  in bind_result (plan_from_row q) (\<lambda>r. Inr (r, set_plan_row u pid q s)))))))"

definition sql_update_plan_public_goal ::
  "string \<Rightarrow> string \<Rightarrow> string option \<Rightarrow> nat \<Rightarrow> time \<Rightarrow> sql_video \<Rightarrow> agent_plan sv_result" where
  "sql_update_plan_public_goal user pid goal rv now s =
     (case owner_text user of
        Inl er \<Rightarrow> (Inl er, s)
      | Inr u \<Rightarrow>
          then_steps u (commit s (bind_result (owned_row u pid (sv_plans s)) (\<lambda>p.
            if pl_rev p \<noteq> rv then Inl Vw_Conflict
            else (let q = p\<lparr>pl_goal := goal, pl_rev := pl_rev p + 1, pl_updated := Some now\<rparr>
                  in bind_result (plan_from_row q) (\<lambda>r. Inr (r, set_plan_row u pid q s)))))))"

section \<open>Steps\<close>

definition set_step_row :: "string \<Rightarrow> string \<times> string \<Rightarrow> plan_step \<Rightarrow> sql_video \<Rightarrow> sql_video" where
  "set_step_row u ids x s = s\<lparr>sv_steps := AList.update ids (u, x) (sv_steps s)\<rparr>"

text \<open>The row is read and validated, changed by \<open>f\<close>, and read back.\<close>

definition change_row ::
  "string \<Rightarrow> string \<times> string \<Rightarrow> (plan_step \<Rightarrow> vw_error + plan_step) \<Rightarrow> sql_video \<Rightarrow> plan_step tx" where
  "change_row u ids f s =
     bind_result (owned_row u ids (sv_steps s)) (\<lambda>x. bind_result (f x) (\<lambda>y. bind_result (step_from_row y) (\<lambda>z.
       Inr (z, set_step_row u ids y s))))"

definition validated :: "(plan_step \<Rightarrow> vw_error + plan_step) \<Rightarrow> plan_step \<Rightarrow> vw_error + plan_step" where
  "validated f x = bind_result (step_from_row x) (\<lambda>_. f x)"

definition sql_step_method ::
  "string \<Rightarrow> string \<times> string \<Rightarrow> (plan_step \<Rightarrow> vw_error + plan_step) \<Rightarrow> sql_video \<Rightarrow> plan_step sv_result" where
  "sql_step_method user ids f s = commit s (bind_result (owner_text user) (\<lambda>u. change_row u ids (validated f) s))"

definition sql_start_step :: "string \<Rightarrow> string \<times> string \<Rightarrow> time \<Rightarrow> sql_video \<Rightarrow> plan_step sv_result" where
  "sql_start_step user ids now = sql_step_method user ids (started_step now)"

definition row_completed :: "step_result \<Rightarrow> time \<Rightarrow> plan_step \<Rightarrow> vw_error + plan_step" where
  "row_completed r now x =
     (if st_tool x \<noteq> sr_tool r then Inl Vw_Conflict
      else if st_status x = Step_Completed then
        bind_result (step_from_row x) (\<lambda>z.
          if st_summary z = Some (sr_summary r) \<and> st_refs z = sr_refs r then Inr x else Inl Vw_Conflict)
      else if st_status x \<noteq> Step_Running then Inl Vw_Conflict
      else Inr (x\<lparr>st_status := Step_Completed, st_summary := Some (sr_summary r), st_refs := sr_refs r, st_done := Some now\<rparr>))"

definition sql_complete_step :: "string \<Rightarrow> string \<times> string \<Rightarrow> step_result \<Rightarrow> time \<Rightarrow> sql_video \<Rightarrow> plan_step sv_result" where
  "sql_complete_step user ids r now = sql_step_method user ids (row_completed r now)"

definition sql_request_step_confirmation :: "string \<Rightarrow> string \<times> string \<Rightarrow> sql_video \<Rightarrow> plan_step sv_result" where
  "sql_request_step_confirmation user ids = sql_step_method user ids asked_step"

definition sql_confirm_step :: "string \<Rightarrow> string \<times> string \<Rightarrow> time \<Rightarrow> sql_video \<Rightarrow> plan_step sv_result" where
  "sql_confirm_step user ids now = sql_step_method user ids (confirmed_step now)"

section \<open>Steps with events\<close>

definition write_step_event ::
  "'s video_env \<Rightarrow> string \<Rightarrow> string \<Rightarrow> plan_step \<Rightarrow> step_phase \<Rightarrow> string \<Rightarrow> string \<Rightarrow> time \<Rightarrow> sql_events
   \<Rightarrow> vw_error + agent_event \<times> sql_events" where
  "write_step_event E u conv x ph i run now es =
     (case List.find (\<lambda>r. ae_id (er_event r) = i) (se_rows es) of
        Some r \<Rightarrow> if er_user r \<noteq> u then Inl Vw_Conflict else Inr (er_event r, es)
      | None \<Rightarrow>
          (let last_row = sql_last_row conv es in
           if (case last_row of None \<Rightarrow> False | Some r \<Rightarrow> er_user r \<noteq> u) then Inl Vw_Conflict
           else bind_result
                  (step_event E ph x i (case last_row of None \<Rightarrow> 1 | Some r \<Rightarrow> ae_seq (er_event r) + 1) conv run now) (\<lambda>e.
                if list_ex (\<lambda>r. ae_id (er_event r) = ae_id e \<or> ae_conv (er_event r) = ae_conv e \<and>
                      (ae_seq (er_event r) = ae_seq e \<or> ae_cursor (er_event r) = ae_cursor e)) (se_rows es)
                then Inl Vw_Conflict
                else Inr (e, es\<lparr>se_rows := se_rows es @ [\<lparr>er_user = u, er_event = e, er_delivery = fresh_delivery\<rparr>]\<rparr>))))"

type_synonym step_tx = "(plan_step \<times> agent_event) sv_result"

definition row_with_event ::
  "'s video_env \<Rightarrow> string \<Rightarrow> string \<times> string \<Rightarrow> (plan_step \<Rightarrow> vw_error + plan_step) \<Rightarrow> step_phase \<Rightarrow> string \<Rightarrow> time
   \<Rightarrow> sql_video \<Rightarrow> (plan_step \<times> agent_event) tx" where
  "row_with_event E u ids f ph run now s =
     bind_result (step_event_id (ve_uuid E) (fst ids) (snd ids) ph) (\<lambda>i.
     bind_result (owned_row u ids (sv_steps s)) (\<lambda>_.
     bind_result (owned_row u (fst ids) (sv_plans s)) (\<lambda>p.
     bind_result (change_row u ids f s) (\<lambda>(z, t).
     bind_result (write_step_event E u (pl_conv p) z ph i run now (sv_events t)) (\<lambda>(e, es).
       Inr ((z, e), t\<lparr>sv_events := es\<rparr>))))))"

text \<open>The start of a step with an event does not look at \<^verbatim>\<open>confirmation_required\<close>.\<close>

definition row_started :: "time \<Rightarrow> plan_step \<Rightarrow> vw_error + plan_step" where
  "row_started now x =
     (if st_status x = Step_Running then bind_result (step_from_row x) (\<lambda>_. Inr (x\<lparr>st_started := Some now\<rparr>))
      else if st_status x = Step_Pending then Inr (x\<lparr>st_status := Step_Running, st_started := Some now\<rparr>)
      else Inl Vw_Conflict)"

definition sql_start_step_with_event ::
  "'s video_env \<Rightarrow> string \<Rightarrow> string \<times> string \<Rightarrow> string \<Rightarrow> time \<Rightarrow> sql_video \<Rightarrow> step_tx" where
  "sql_start_step_with_event E user ids run now s =
     commit s (bind_result (owner_text user) (\<lambda>u. row_with_event E u ids (row_started now) Ph_Started run now s))"

definition sql_complete_step_with_event ::
  "'s video_env \<Rightarrow> string \<Rightarrow> string \<times> string \<Rightarrow> step_result \<Rightarrow> string \<Rightarrow> time \<Rightarrow> sql_video \<Rightarrow> step_tx" where
  "sql_complete_step_with_event E user ids r run now s =
     commit s (bind_result (owner_text user) (\<lambda>u. row_with_event E u ids (row_completed r now) Ph_Completed run now s))"

definition row_progressed :: "string \<Rightarrow> plan_step \<Rightarrow> vw_error + plan_step" where
  "row_progressed summary x =
     (if st_status x \<noteq> Step_Running then Inl Vw_Conflict else Inr (x\<lparr>st_summary := Some (py_strip summary)\<rparr>))"

definition sql_progress_step_with_event ::
  "'s video_env \<Rightarrow> string \<Rightarrow> string \<times> string \<Rightarrow> string \<Rightarrow> string \<Rightarrow> string \<Rightarrow> time \<Rightarrow> sql_video \<Rightarrow> step_tx" where
  "sql_progress_step_with_event E user ids summary phase run now s =
     commit s (bind_result (owner_text user) (\<lambda>u.
       if py_strip summary = [] \<or> py_strip phase = [] then Inl Vw_Value
       else row_with_event E u ids (row_progressed summary) (Ph_Progressed (py_strip phase)) run now s))"

definition sql_fail_step_with_event ::
  "'s video_env \<Rightarrow> string \<Rightarrow> string \<times> string \<Rightarrow> string \<Rightarrow> string \<Rightarrow> string \<Rightarrow> time \<Rightarrow> sql_video \<Rightarrow> step_tx" where
  "sql_fail_step_with_event E user ids reason summary run now s =
     commit s (bind_result (owner_text user) (\<lambda>u.
       bind_result (step_event_id (ve_uuid E) (fst ids) (snd ids) (Ph_Failed reason)) (\<lambda>i.
       bind_result (owned_row u ids (sv_steps s)) (\<lambda>_.
       bind_result (owned_row u (fst ids) (sv_plans s)) (\<lambda>p.
         if \<not> plan_may_move (pl_status p) Plan_Failed then Inl Vw_Conflict
         else bind_result (change_row u ids (failed_step summary now) s) (\<lambda>(z, t).
              bind_result (write_step_event E u (pl_conv p) z (Ph_Failed reason) i run now (sv_events t)) (\<lambda>(e, es).
                Inr ((z, e), (set_plan_row u (fst ids) (p\<lparr>pl_status := Plan_Failed, pl_updated := Some now\<rparr>) t)\<lparr>sv_events := es\<rparr>))))))))"

section \<open>Cancellations\<close>

definition sql_cancel_step_confirmation :: "string \<Rightarrow> string \<times> string \<Rightarrow> time \<Rightarrow> sql_video \<Rightarrow> agent_plan sv_result" where
  "sql_cancel_step_confirmation user ids now s =
     (case owner_text user of
        Inl er \<Rightarrow> (Inl er, s)
      | Inr u \<Rightarrow>
          then_steps u (commit s (bind_result (owned_row u (fst ids) (sv_plans s)) (\<lambda>p.
            if pl_status p = Plan_Cancelled then bind_result (plan_from_row p) (\<lambda>r. Inr (r, s))
            else bind_result (owned_row u ids (sv_steps s)) (\<lambda>x.
              if pl_status p \<noteq> Plan_Awaiting_Confirmation \<or> st_status x \<noteq> Step_Awaiting then Inl Vw_Conflict
              else (let y = x\<lparr>st_status := Step_Skipped, st_summary := Some text_user_cancelled,
                              st_started := Some now, st_done := Some now\<rparr>;
                        q = p\<lparr>pl_status := Plan_Cancelled, pl_updated := Some now\<rparr>
                    in bind_result (plan_from_row q) (\<lambda>r. Inr (r, set_plan_row u (fst ids) q (set_step_row u ids y s)))))))))"

definition cleared_workspace :: "quota_key \<Rightarrow> time \<Rightarrow> video_ws \<Rightarrow> video_ws" where
  "cleared_workspace k now w =
     w\<lparr>vw_rev := vw_rev w + 1, vw_updated := Some now,
       vw_payload := jputs [(''quota_interrupt'', JNull), (''last_quota_resolution'', quota_resolution k)] (vw_payload w)\<rparr>"

definition sql_cancel_quota_interrupted_plan ::
  "string \<Rightarrow> string \<times> string \<Rightarrow> quota_key \<Rightarrow> time \<Rightarrow> sql_video \<Rightarrow> agent_plan sv_result" where
  "sql_cancel_quota_interrupted_plan user ids k now s =
     (case owner_text user of
        Inl er \<Rightarrow> (Inl er, s)
      | Inr u \<Rightarrow>
          then_steps u (commit s (bind_result (owned_row u (fst ids) (sv_plans s)) (\<lambda>p.
            bind_result (owned_row u ids (sv_steps s)) (\<lambda>x.
              let w = (case owned_row u (pl_ws p) (sv_ws s) of Inl er \<Rightarrow> None | Inr v \<Rightarrow> Some v);
                  interrupt = jget ''quota_interrupt'' (payload_of w); resolution = jget ''last_quota_resolution'' (payload_of w)
              in if pl_status p = Plan_Cancelled \<and> st_status x = Step_Skipped \<and> interrupt = JNull \<and> quota_resolved k resolution
                 then bind_result (plan_from_row p) (\<lambda>r. Inr (r, s))
                 else (case w of
                    None \<Rightarrow> Inl Vw_Conflict
                  | Some v \<Rightarrow>
                      if st_status x \<noteq> Step_Running \<or> \<not> quota_open k ids interrupt \<or> \<not> plan_may_move (pl_status p) Plan_Cancelled
                      then Inl Vw_Conflict
                      else (let y = x\<lparr>st_status := Step_Skipped, st_summary := Some text_quota_cancelled, st_done := Some now\<rparr>;
                                q = p\<lparr>pl_status := Plan_Cancelled, pl_updated := Some now\<rparr>;
                                t = set_plan_row u (fst ids) q (set_step_row u ids y s)
                            in bind_result (plan_from_row q) (\<lambda>r.
                                 Inr (r, t\<lparr>sv_ws := AList.update (pl_ws p) (u, cleared_workspace k now v) (sv_ws t)\<rparr>)))))))))"

text \<open>The transaction of one plan in a loop over listed plans; None when the row has moved on.\<close>

definition cancel_script_row :: "string \<Rightarrow> time \<Rightarrow> agent_plan \<Rightarrow> sql_video \<Rightarrow> agent_plan option tx" where
  "cancel_script_row u now p s =
     (case owned_row u (pl_id p) (sv_plans s) of
        Inl er \<Rightarrow> Inr (None, s)
      | Inr row \<Rightarrow>
          if pl_status row \<notin> {Planning, Plan_Running, Plan_Awaiting_Confirmation} then Inr (None, s)
          else
            (let q = row\<lparr>pl_status := Plan_Cancelled, pl_updated := Some now\<rparr>;
                 d = map (\<lambda>(k, v, x). (k, v, if v = u \<and> fst k = pl_id p then skip_open now x else x)) (sv_steps s)
             in bind_result (plan_from_row q) (\<lambda>r. Inr (Some r, (set_plan_row u (pl_id p) q s)\<lparr>sv_steps := d\<rparr>))))"

definition cancel_waiting_row :: "string \<Rightarrow> time \<Rightarrow> agent_plan \<Rightarrow> sql_video \<Rightarrow> agent_plan option tx" where
  "cancel_waiting_row u now p s =
     (case owned_row u (pl_id p) (sv_plans s) of
        Inl er \<Rightarrow> Inr (None, s)
      | Inr row \<Rightarrow>
          if pl_status row \<noteq> Waiting_For_Input then Inr (None, s)
          else (let q = row\<lparr>pl_status := Plan_Cancelled, pl_updated := Some now\<rparr>
                in bind_result (plan_from_row q) (\<lambda>r. Inr (Some r, set_plan_row u (pl_id p) q s))))"

fun cancel_rows :: "(agent_plan \<Rightarrow> sql_video \<Rightarrow> agent_plan option tx) \<Rightarrow> agent_plan list \<Rightarrow> sql_video \<Rightarrow> agent_plan list sv_result" where
  "cancel_rows f [] s = (Inr [], s)"
| "cancel_rows f (p # ps) s =
     (case f p s of
        Inl er \<Rightarrow> (Inl er, s)
      | Inr (q, t) \<Rightarrow>
          (case cancel_rows f ps t of
             (Inl er, t') \<Rightarrow> (Inl er, t')
           | (Inr qs, t') \<Rightarrow> (Inr (case q of None \<Rightarrow> qs | Some r \<Rightarrow> r # qs), t')))"

definition sql_cancel_listed ::
  "(string \<Rightarrow> string) \<Rightarrow> string \<Rightarrow> string \<Rightarrow> (agent_plan \<Rightarrow> bool) \<Rightarrow> (string \<Rightarrow> agent_plan \<Rightarrow> sql_video \<Rightarrow> agent_plan option tx)
   \<Rightarrow> sql_video \<Rightarrow> agent_plan list sv_result" where
  "sql_cancel_listed U user conv chosen f s =
     (case owner_text user of
        Inl er \<Rightarrow> (Inl er, s)
      | Inr u \<Rightarrow>
          (case commit s (sql_list_plans U u (py_strip conv) s) of
             (Inl er, t) \<Rightarrow> (Inl er, t)
           | (Inr ps, t) \<Rightarrow>
               (case cancel_rows (f u) (filter chosen ps) t of
                  (Inl er, t') \<Rightarrow> (Inl er, t')
                | (Inr qs, t') \<Rightarrow>
                    (collect (\<lambda>q. bind_result (sql_plan_steps u (pl_id q) t') (\<lambda>xs. Inr (q\<lparr>pl_steps := xs\<rparr>))) qs, t'))))"

definition sql_cancel_active_script_skill_plans ::
  "(string \<Rightarrow> string) \<Rightarrow> string \<Rightarrow> string \<Rightarrow> time \<Rightarrow> sql_video \<Rightarrow> agent_plan list sv_result" where
  "sql_cancel_active_script_skill_plans U user conv now =
     sql_cancel_listed U user conv script_plan_open (\<lambda>u. cancel_script_row u now)"

definition sql_cancel_waiting_for_input_plans ::
  "(string \<Rightarrow> string) \<Rightarrow> string \<Rightarrow> string \<Rightarrow> string option \<Rightarrow> time \<Rightarrow> sql_video \<Rightarrow> agent_plan list sv_result" where
  "sql_cancel_waiting_for_input_plans U user conv exclude now =
     (let ex = (case exclude of None \<Rightarrow> [] | Some e \<Rightarrow> py_strip e) in
      sql_cancel_listed U user conv (\<lambda>p. pl_status p = Waiting_For_Input \<and> \<not> (ex \<noteq> [] \<and> pl_id p = ex)) (\<lambda>u. cancel_waiting_row u now))"

section \<open>Commands\<close>

definition sql_outcome :: "'a sv_result \<Rightarrow> (vw_error + unit) \<times> sql_video" where
  "sql_outcome r = (case r of (v, s) \<Rightarrow> (case v of Inl er \<Rightarrow> Inl er | Inr _ \<Rightarrow> Inr (), s))"

fun sql_video_exec :: "'s video_env \<Rightarrow> sql_video \<Rightarrow> video_cmd \<Rightarrow> (vw_error + unit) \<times> sql_video" where
  "sql_video_exec E s (Create_Workspace user now w) = sql_outcome (sql_create_workspace user now w s)"
| "sql_video_exec E s (Discard_Workspace user wid) = sql_outcome (sql_discard_workspace user wid s)"
| "sql_video_exec E s (Load_State user conv) = sql_outcome (sql_load_conversation_state (ve_uuid E) user conv s)"
| "sql_video_exec E s (List_Plans user conv) = sql_outcome (sql_list_conversation_plans (ve_uuid E) user conv s)"
| "sql_video_exec E s (Patch_Workspace user wid patch rv now) =
     sql_outcome (sql_apply_workspace_patch (ve_repr E) (ve_int E) user wid patch rv now s)"
| "sql_video_exec E s (Save_Plan user p steps rv now) = sql_outcome (sql_save_plan user p steps rv now s)"
| "sql_video_exec E s (Plan_Status user pid st now) = sql_outcome (sql_update_plan_status user pid st now s)"
| "sql_video_exec E s (Plan_Goal user pid goal rv now) = sql_outcome (sql_update_plan_public_goal user pid goal rv now s)"
| "sql_video_exec E s (Start_Step user ids now) = sql_outcome (sql_start_step user ids now s)"
| "sql_video_exec E s (Complete_Step user ids r now) = sql_outcome (sql_complete_step user ids r now s)"
| "sql_video_exec E s (Ask_Step user ids) = sql_outcome (sql_request_step_confirmation user ids s)"
| "sql_video_exec E s (Confirm_Step user ids now) = sql_outcome (sql_confirm_step user ids now s)"
| "sql_video_exec E s (Cancel_Confirmation user ids now) = sql_outcome (sql_cancel_step_confirmation user ids now s)"
| "sql_video_exec E s (Cancel_Quota user ids k now) = sql_outcome (sql_cancel_quota_interrupted_plan user ids k now s)"
| "sql_video_exec E s (Cancel_Scripts user conv now) =
     sql_outcome (sql_cancel_active_script_skill_plans (ve_uuid E) user conv now s)"
| "sql_video_exec E s (Cancel_Waiting user conv exclude now) =
     sql_outcome (sql_cancel_waiting_for_input_plans (ve_uuid E) user conv exclude now s)"
| "sql_video_exec E s (Start_With_Event user ids run now) = sql_outcome (sql_start_step_with_event E user ids run now s)"
| "sql_video_exec E s (Progress_With_Event user ids summary phase run now) =
     sql_outcome (sql_progress_step_with_event E user ids summary phase run now s)"
| "sql_video_exec E s (Complete_With_Event user ids r run now) =
     sql_outcome (sql_complete_step_with_event E user ids r run now s)"
| "sql_video_exec E s (Fail_With_Event user ids reason summary run now) =
     sql_outcome (sql_fail_step_with_event E user ids reason summary run now s)"

definition new_sql_video :: "(string \<times> string) list \<Rightarrow> sql_video" where
  "new_sql_video owners =
     \<lparr>sv_ws = [], sv_plans = [], sv_steps = [], sv_events = \<lparr>se_other = owners, se_rows = [], se_coord = []\<rparr>\<rparr>"

end
