(* ===== verification/Video_Sql_Laws.thy ===== *)
theory Video_Sql_Laws
  imports Video_Sql Video_Contract
begin

text \<open>
  The SQL repository satisfies the contract of \<open>Video_Contract\<close>: seen by owner, every transaction is a
  sequence of changes.
\<close>

section \<open>Rows by owner\<close>

definition by_owner :: "('k, string \<times> 'v) dict \<Rightarrow> (string \<times> 'k, 'v) dict" where
  "by_owner d = map (\<lambda>(k, u, x). ((u, k), x)) d"

definition owner_of :: "('k, string \<times> 'v) dict \<Rightarrow> ('k, string) dict" where
  "owner_of d = map (\<lambda>(k, u, x). (k, u)) d"

lemma by_owner_simps [simp]: "by_owner [] = []" "by_owner (d @ e) = by_owner d @ by_owner e"
  "by_owner ((k, u, x) # d) = ((u, k), x) # by_owner d"
  by (simp_all add: by_owner_def)

lemma owner_of_simps [simp]: "owner_of [] = []" "owner_of (d @ e) = owner_of d @ owner_of e"
  "owner_of ((k, u, x) # d) = (k, u) # owner_of d" "map fst (owner_of d) = map fst d"
  by (simp_all add: owner_of_def case_prod_beta comp_def)

lemma by_owner_absent: "map_of d k = None \<Longrightarrow> map_of (by_owner d) (u, k) = None"
  by (induction d) (auto split: if_splits)

lemma by_owner_get:
  "distinct (map fst d) \<Longrightarrow> map_of (by_owner d) (u, k) = (case map_of d k of None \<Rightarrow> None | Some (v, x) \<Rightarrow> if v = u then Some x else None)"
proof (induction d)
  case (Cons r d)
  obtain j v x where r: "r = (j, v, x)" by (cases r)
  have "map_of d k = None" if "k = j" using Cons.prems r that by (simp add: map_of_eq_None_iff)
  then show ?case using Cons r by_owner_absent [of d k u] by auto
qed simp

lemma owner_of_get: "map_of (owner_of d) k = map_option fst (map_of d k)"
  by (induction d) auto

lemma by_owner_update:
  "map_of d k = None \<or> (\<exists>y. map_of d k = Some (u, y)) \<Longrightarrow> by_owner (AList.update k (u, x) d) = AList.update (u, k) x (by_owner d)"
  by (induction d) (auto split: if_splits)

lemma owner_of_update: "map_of d k = Some (u, y) \<Longrightarrow> owner_of (AList.update k (u, x) d) = owner_of d"
  by (induction d) (auto split: if_splits)

lemma owner_of_insert: "map_of d k = None \<Longrightarrow> owner_of (AList.update k (u, x) d) = AList.update k u (owner_of d)"
  by (induction d) (auto split: if_splits)

lemma by_owner_delete:
  "distinct (map fst d) \<Longrightarrow> map_of d k = Some (u, x) \<Longrightarrow> by_owner (AList.delete k d) = AList.delete (u, k) (by_owner d)"
proof (induction d)
  case (Cons r d)
  obtain j v y where r: "r = (j, v, y)" by (cases r)
  show ?case
  proof (cases "j = k")
    case True
    then have "map_of d k = None" using Cons.prems(1) r by (simp add: map_of_eq_None_iff)
    then have "AList.delete k d = d" "AList.delete (u, k) (by_owner d) = by_owner d"
      using by_owner_absent [of d k u] by (simp_all add: delete_idem map_of_eq_None_iff)
    then show ?thesis using Cons.prems(2) r True by simp
  next
    case False
    then show ?thesis using Cons r by auto
  qed
qed simp

lemma owner_of_delete: "owner_of (AList.delete k d) = AList.delete k (owner_of d)"
  by (induction d) auto

section \<open>The view\<close>

definition sql_tables :: "sql_video \<Rightarrow> video_store" where
  "sql_tables s = \<lparr>vs_ws = by_owner (sv_ws s), vs_ws_owner = owner_of (sv_ws s), vs_plans = by_owner (sv_plans s),
     vs_plan_owner = owner_of (sv_plans s), vs_steps = by_owner (sv_steps s), vs_stuck = False\<rparr>"

lemma sql_tables_fields [simp]:
  "vs_ws (sql_tables s) = by_owner (sv_ws s)" "vs_ws_owner (sql_tables s) = owner_of (sv_ws s)"
  "vs_plans (sql_tables s) = by_owner (sv_plans s)" "vs_plan_owner (sql_tables s) = owner_of (sv_plans s)"
  "vs_steps (sql_tables s) = by_owner (sv_steps s)" "vs_stuck (sql_tables s) = False"
  by (simp_all add: sql_tables_def)

lemma sql_tables_events [simp]: "sql_tables (s\<lparr>sv_events := es\<rparr>) = sql_tables s"
  by (simp add: sql_tables_def)

definition sql_video_ok :: "sql_video \<Rightarrow> bool" where
  "sql_video_ok s = (video_ok (sql_tables s) \<and> distinct (map fst (sv_steps s)))"

lemma sql_distinct:
  assumes "sql_video_ok s"
  shows "distinct (map fst (sv_ws s))" and "distinct (map fst (sv_plans s))" and "distinct (map fst (sv_steps s))"
  using assms by (simp_all add: sql_video_ok_def video_ok_def owned_rows_def)

lemma sql_rows:
  assumes "sql_video_ok s"
  shows "owned_row u wid (sv_ws s) = Inr w \<longleftrightarrow> map_of (sv_ws s) wid = Some (u, w)"
    and "owned_row u pid (sv_plans s) = Inr p \<longleftrightarrow> map_of (sv_plans s) pid = Some (u, p)"
    and "owned_row u ids (sv_steps s) = Inr x \<longleftrightarrow> map_of (sv_steps s) ids = Some (u, x)"
  by (auto simp: owned_row_def split: option.splits prod.splits)

lemma view_rows:
  assumes "sql_video_ok s"
  shows "map_of (sv_ws s) wid = Some (u, w) \<Longrightarrow> map_of (vs_ws (sql_tables s)) (u, wid) = Some w"
    and "map_of (sv_plans s) pid = Some (u, p) \<Longrightarrow> map_of (vs_plans (sql_tables s)) (u, pid) = Some p"
    and "map_of (sv_steps s) ids = Some (u, x) \<Longrightarrow> map_of (vs_steps (sql_tables s)) (u, ids) = Some x"
  using sql_distinct [OF assms] by (simp_all add: by_owner_get)

lemma row_ids:
  assumes "sql_video_ok s"
  shows "map_of (sv_ws s) wid = Some (u, w) \<Longrightarrow> vw_id w = wid"
    and "map_of (sv_plans s) pid = Some (u, p) \<Longrightarrow> pl_id p = pid"
  using assms view_rows [OF assms] unfolding sql_video_ok_def video_ok_def by (blast dest: owned_row_id)+

section \<open>Transactions\<close>

definition sql_moves :: "label set \<Rightarrow> sql_video \<Rightarrow> sql_video \<Rightarrow> bool" where
  "sql_moves A s t = (sql_video_ok s \<longrightarrow> changes A (sql_tables s) (sql_tables t) \<and> distinct (map fst (sv_steps t)))"

lemma sql_moves_refl [simp, intro]: "sql_moves A s s"
  by (simp add: sql_moves_def sql_video_ok_def)

lemma sql_moves_ok: "sql_moves A s t \<Longrightarrow> sql_video_ok s \<Longrightarrow> sql_video_ok t"
  unfolding sql_moves_def sql_video_ok_def by (blast intro: changes_ok)

lemma sql_moves_trans [trans]: "sql_moves A s t \<Longrightarrow> sql_moves A t r \<Longrightarrow> sql_moves A s r"
  using sql_moves_ok unfolding sql_moves_def by (blast intro: changes_trans)

lemma sql_movesI: "(sql_video_ok s \<Longrightarrow> changes A (sql_tables s) (sql_tables t)) \<Longrightarrow> (sql_video_ok s \<Longrightarrow> distinct (map fst (sv_steps t))) \<Longrightarrow> sql_moves A s t"
  unfolding sql_moves_def by blast

lemma events_moves [simp]: "sql_moves A s (t\<lparr>sv_events := es\<rparr>) = sql_moves A s t"
  by (simp add: sql_moves_def)

lemma commit_moves: "(\<And>a t. r = Inr (a, t) \<Longrightarrow> sql_moves A s t) \<Longrightarrow> sql_moves A s (snd (commit s r))"
  by (auto simp: commit_def split: sum.splits prod.splits)

lemma then_steps_state [simp]: "snd (then_steps u r) = snd r"
  by (auto simp: then_steps_def split: prod.splits sum.splits)

subsection \<open>Single changes\<close>

lemma set_plan_row_moves:
  assumes row: "map_of (sv_plans s) pid = Some (u, p)" and "plan_next p q"
  shows "sql_moves A s (set_plan_row u pid q s)"
proof (rule sql_movesI)
  assume ok: "sql_video_ok s"
  have "plan_next p (q\<lparr>pl_steps := []\<rparr>)" using assms(2) by (simp add: plan_next_def)
  from change_one [OF move_plan [OF view_rows(2) [OF ok row] this]]
  show "changes A (sql_tables s) (sql_tables (set_plan_row u pid q s))"
    using row by (simp add: set_plan_row_def sql_tables_def by_owner_update owner_of_update)
  show "distinct (map fst (sv_steps (set_plan_row u pid q s)))" using sql_distinct [OF ok] by (simp add: set_plan_row_def)
qed

lemma set_step_row_moves:
  assumes row: "map_of (sv_steps s) ids = Some (u, x)" and "step_next x y"
  shows "sql_moves A s (set_step_row u ids y s)"
proof (rule sql_movesI)
  assume ok: "sql_video_ok s"
  from change_one [OF move_step [OF view_rows(3) [OF ok row] assms(2)]]
  show "changes A (sql_tables s) (sql_tables (set_step_row u ids y s))"
    using row by (simp add: set_step_row_def set_step_def sql_tables_def by_owner_update)
  show "distinct (map fst (sv_steps (set_step_row u ids y s)))" using sql_distinct [OF ok] by (simp add: set_step_row_def distinct_update)
qed

lemma set_ws_row_moves:
  assumes row: "map_of (sv_ws s) wid = Some (u, w)" and "ws_next w w'"
  shows "sql_moves A s (s\<lparr>sv_ws := AList.update wid (u, w') (sv_ws s)\<rparr>)"
proof (rule sql_movesI)
  assume ok: "sql_video_ok s"
  from change_one [OF patch_ws [OF view_rows(1) [OF ok row] assms(2)]]
  show "changes A (sql_tables s) (sql_tables (s\<lparr>sv_ws := AList.update wid (u, w') (sv_ws s)\<rparr>))"
    using row by (simp add: sql_tables_def by_owner_update owner_of_update)
  show "distinct (map fst (sv_steps (s\<lparr>sv_ws := AList.update wid (u, w') (sv_ws s)\<rparr>)))" using sql_distinct [OF ok] by simp
qed

lemma delete_ws_moves:
  assumes row: "map_of (sv_ws s) wid = Some (u, w)"
  shows "sql_moves A s (s\<lparr>sv_ws := AList.delete wid (sv_ws s)\<rparr>)"
proof (rule sql_movesI)
  assume ok: "sql_video_ok s"
  have "changes A (sql_tables s) (drop_ws u wid (sql_tables s))" by (rule change_one [OF forget_ws])
  then show "changes A (sql_tables s) (sql_tables (s\<lparr>sv_ws := AList.delete wid (sv_ws s)\<rparr>))"
    using view_rows(1) [OF ok row] by_owner_delete [OF sql_distinct(1) [OF ok] row]
    by (simp add: drop_ws_def sql_tables_def owner_of_delete)
  show "distinct (map fst (sv_steps (s\<lparr>sv_ws := AList.delete wid (sv_ws s)\<rparr>)))" using sql_distinct [OF ok] by simp
qed

lemma delete_workspaces_moves:
  "(\<And>i v w. i \<in> set ids \<Longrightarrow> map_of (sv_ws s) i = Some (v, w) \<Longrightarrow> v = u) \<Longrightarrow> sql_moves A s (delete_workspaces ids s)"
proof (induction ids arbitrary: s)
  case (Cons i ids)
  let ?t = "s\<lparr>sv_ws := AList.delete i (sv_ws s)\<rparr>"
  have "sql_moves A s ?t"
  proof (cases "map_of (sv_ws s) i")
    case None
    then have "AList.delete i (sv_ws s) = sv_ws s" by (simp add: delete_idem map_of_eq_None_iff)
    then show ?thesis by simp
  next
    case (Some r)
    then show ?thesis by (cases r) (auto intro: delete_ws_moves)
  qed
  also have "sql_moves A ?t (delete_workspaces ids ?t)"
    using Cons.prems by (intro Cons.IH) (auto split: if_splits)
  finally show ?case by (simp add: delete_workspaces_def)
qed (simp add: delete_workspaces_def)

lemma insert_step_row: "insert_step u d x = Inr e \<Longrightarrow> map_of d (st_plan x, st_id x) = None \<and> e = d @ [((st_plan x, st_id x), u, x)]"
  by (cases "map_of d (st_plan x, st_id x)") (auto simp: insert_step_def split: if_splits)

lemma insert_steps_rows:
  "fold_result (insert_step u) d xs = Inr e \<Longrightarrow> (\<And>x. x \<in> set xs \<Longrightarrow> st_plan x = pid) \<Longrightarrow> vs_steps s = by_owner d \<Longrightarrow>
   by_owner e = vs_steps (put_steps u pid xs s) \<and> (distinct (map fst d) \<longrightarrow> distinct (map fst e))"
proof (induction xs arbitrary: d s)
  case (Cons x xs)
  let ?d = "d @ [((st_plan x, st_id x), u, x)]"
  have new: "map_of d (st_plan x, st_id x) = None" and rest: "fold_result (insert_step u) ?d xs = Inr e"
    using Cons.prems(1) by (auto simp: bind_result_Inr_iff dest!: insert_step_row)
  have "by_owner ?d = AList.update (u, pid, st_id x) x (by_owner d)"
    using update_fresh [OF by_owner_absent [OF new, of u], symmetric] Cons.prems(2) [of x] by simp
  then have "by_owner e = vs_steps (put_steps u pid xs (set_step u x (pid, st_id x) s)) \<and>
      (distinct (map fst ?d) \<longrightarrow> distinct (map fst e))"
    using Cons.IH [OF rest, of "set_step u x (pid, st_id x) s"] Cons.prems(2,3) by simp
  then show ?case using new by (auto simp: put_steps_def map_of_eq_None_iff)
qed (simp add: put_steps_def)

section \<open>Commands\<close>

subsection \<open>Workspaces\<close>

lemma sql_create_moves:
  assumes "Added (vw_id w) \<in> A"
  shows "sql_moves A s (snd (sql_create_workspace user now w s))"
proof -
  have add: "sql_moves A s (s\<lparr>sv_ws := sv_ws s @ [(vw_id w, u, x)]\<rparr>)"
    if new: "map_of (sv_ws s) (vw_id w) = None" and x: "vw_id x = vw_id w" for u x
  proof (rule sql_movesI)
    assume ok: "sql_video_ok s"
    have "map_of (vs_ws_owner (sql_tables s)) (vw_id x) = None" using new x by (simp add: owner_of_get)
    from change_in [OF add_ws [OF this, of u]] assms x
    have "changes A (sql_tables s) ((set_ws u x (sql_tables s))\<lparr>vs_ws_owner := AList.update (vw_id x) u (vs_ws_owner (sql_tables s))\<rparr>)" by simp
    then show "changes A (sql_tables s) (sql_tables (s\<lparr>sv_ws := sv_ws s @ [(vw_id w, u, x)]\<rparr>))"
      using new x update_fresh [OF new, of "(u, x)", symmetric] by (simp add: set_ws_def sql_tables_def by_owner_update owner_of_insert del: by_owner_simps(2) owner_of_simps(2))
    show "distinct (map fst (sv_steps (s\<lparr>sv_ws := sv_ws s @ [(vw_id w, u, x)]\<rparr>)))" using sql_distinct [OF ok] by simp
  qed
  then show ?thesis unfolding sql_create_workspace_def
    by (cases "owner_text user"; cases "map_of (sv_ws s) (vw_id w)")
      (auto simp: Let_def split_beta intro!: commit_moves split: if_split_asm)
qed

lemma sql_discard_moves: "sql_moves A s (snd (sql_discard_workspace user wid s))"
  unfolding sql_discard_workspace_def
  by (intro commit_moves) (auto simp: bind_result_Inr_iff intro: delete_ws_moves split: option.split_asm if_split_asm)

lemma sql_settle_moves:
  assumes "sql_settle U u conv s = Inr (r, t)"
  shows "sql_moves A s t"
proof (cases "sql_video_ok s")
  case True
  have "v = u" if "i \<in> set (orphans_of best planned (sql_conv_workspaces u conv s))" "map_of (sv_ws s) i = Some (v, w)" for best planned i v w
  proof -
    have "i \<in> vw_id ` set (sql_conv_workspaces u conv s)" using that(1) by (auto simp: orphans_of_def)
    then obtain x where "x \<in> set (sql_conv_workspaces u conv s)" "vw_id x = i" by blast
    then obtain j where x: "(j, u, x) \<in> set (sv_ws s)" "vw_id x = i" by (auto simp: sql_conv_workspaces_def)
    have "j = i" using row_ids(1) [OF True map_of_is_SomeI [OF sql_distinct(1) [OF True] x(1)]] x(2) by simp
    then have "(i, u, x) \<in> set (sv_ws s)" using x(1) by simp
    then show ?thesis using that(2) map_of_is_SomeI [OF sql_distinct(1) [OF True]] by simp
  qed
  then show ?thesis using assms
    by (auto simp: sql_settle_def Let_def bind_result_Inr_iff intro!: delete_workspaces_moves [where u = u] split: if_splits)
qed (simp add: sql_moves_def)

lemma sql_list_plans_moves: "sql_list_plans U u conv s = Inr (r, t) \<Longrightarrow> sql_moves A s t"
  by (auto simp: sql_list_plans_def bind_result_Inr_iff intro: sql_settle_moves split: option.splits)

lemma sql_list_moves: "sql_moves A s (snd (sql_list_conversation_plans U user conv s))"
  unfolding sql_list_conversation_plans_def by (intro commit_moves) (auto simp: bind_result_Inr_iff intro: sql_list_plans_moves)

lemma sql_load_moves: "sql_moves A s (snd (sql_load_conversation_state U user conv s))"
proof (cases "owner_text user")
  case (Inr u)
  have "sql_moves A s t" if settled: "sql_settle U u conv s = Inr (found, t')"
    and rest: "(case found of None \<Rightarrow> Inr (None, t')
       | Some w \<Rightarrow> (case sql_workspace_plans u conv (vw_id w) t' of
              [] \<Rightarrow> Inr (Some (w, None), t')
            | p # ps \<Rightarrow>
                bind_result (sql_with_steps u t' (first_max (\<lambda>q. (sort_time (pl_updated q), sort_time (pl_created q), pl_id q)) p ps))
                  (\<lambda>q. Inr (Some (w, Some q), t')))) = Inr (a, t)" for found t' a t
  proof -
    have "t' = t"
    proof (cases found)
      case (Some w)
      then show ?thesis using rest by (cases "sql_workspace_plans u conv (vw_id w) t'") (auto simp: bind_result_Inr_iff)
    qed (use rest in simp)
    then show ?thesis using sql_settle_moves [OF settled] by simp
  qed
  then show ?thesis unfolding sql_load_conversation_state_def Inr
    by (intro commit_moves) (auto simp: bind_result_Inr_iff)
qed (simp add: sql_load_conversation_state_def commit_def)

lemma sql_patch_moves: "sql_moves A s (snd (sql_apply_workspace_patch R P user wid patch rv now s))"
proof (cases "owner_text user")
  case (Inr u)
  show ?thesis
  proof (cases "owned_row u wid (sv_ws s)")
    case (Inr w)
    then have row: "map_of (sv_ws s) wid = Some (u, w)" by (auto simp: owned_row_def split: option.split_asm if_split_asm)
    have "sql_moves A s (s\<lparr>sv_ws := AList.update wid (u, w') (sv_ws s)\<rparr>)" if "updated_workspace R P patch now w = Some w'" for w'
      by (rule set_ws_row_moves [OF row updated_workspace_next [OF that]])
    then show ?thesis using \<open>owner_text user = Inr u\<close> Inr
      by (cases "updated_workspace R P patch now w") (auto simp: sql_apply_workspace_patch_def commit_def)
  qed (simp add: sql_apply_workspace_patch_def commit_def Inr)
qed (simp add: sql_apply_workspace_patch_def commit_def)

subsection \<open>Plans\<close>

lemma kept_steps: "by_owner (filter (\<lambda>(k, v, x). v = u \<longrightarrow> fst k \<noteq> pid) d) = filter (\<lambda>((v, p, i), x). v = u \<longrightarrow> p \<noteq> pid) (by_owner d)"
  by (induction d) auto

lemma sql_save_moves:
  assumes "Saved (pl_id p) \<in> A"
  shows "sql_moves A s (snd (sql_save_plan user p steps rv now s))"
proof -
  let ?id = "pl_id p"
  have plans: "x \<in> set steps \<Longrightarrow> st_plan x = ?id" if "new_steps_ok p steps" for x
    using that by (auto simp: new_steps_ok_def list_all_iff split: if_splits)
  have again: "sql_moves A s ((set_plan_row u ?id q s)\<lparr>sv_steps := d\<rparr>)"
    if old: "map_of (sv_plans s) ?id = Some (u, r)" and q: "pl_id q = ?id" "pl_ws q = pl_ws r" "pl_conv q = pl_conv r"
      and ins: "fold_result (insert_step u) (filter (\<lambda>(k, v', x). \<not> (v' = u \<and> fst k = ?id)) (sv_steps s)) steps = Inr d"
      and ok: "new_steps_ok p steps" for u q r d
  proof (rule sql_movesI)
    let ?q = "q\<lparr>pl_steps := []\<rparr>"
    let ?c = "clear_steps u ?id (set_plan u ?q (sql_tables s))"
    assume okay: "sql_video_ok s"
    have new: "by_owner d = vs_steps (put_steps u ?id steps ?c) \<and>
        (distinct (map fst (filter (\<lambda>(k, v', x). \<not> (v' = u \<and> fst k = ?id)) (sv_steps s))) \<longrightarrow> distinct (map fst d))"
      by (rule insert_steps_rows [OF ins plans [OF ok]]) (simp_all add: kept_steps clear_steps_def)
    have "changes A (sql_tables s) (put_steps u ?id steps ?c)"
      using change_in [OF save_again [of "sql_tables s" u ?q r steps]] view_rows(2) [OF okay old] assms q by simp
    moreover have "sql_tables ((set_plan_row u ?id q s)\<lparr>sv_steps := d\<rparr>) = put_steps u ?id steps ?c"
      using new old q by (simp add: set_plan_row_def sql_tables_def by_owner_update owner_of_update)
    ultimately show "changes A (sql_tables s) (sql_tables ((set_plan_row u ?id q s)\<lparr>sv_steps := d\<rparr>))" by simp
    show "distinct (map fst (sv_steps ((set_plan_row u ?id q s)\<lparr>sv_steps := d\<rparr>)))"
      using new sql_distinct(3) [OF okay] by (simp add: distinct_map_filter)
  qed
  have new: "sql_moves A s ((set_plan_row u ?id q s)\<lparr>sv_steps := d\<rparr>)"
    if none: "map_of (sv_plans s) ?id = None" and q: "pl_id q = ?id"
      and ins: "fold_result (insert_step u) (sv_steps s) steps = Inr d" and ok: "new_steps_ok p steps" for u q d
  proof (rule sql_movesI)
    let ?q = "q\<lparr>pl_steps := []\<rparr>"
    let ?c = "(set_plan u ?q (sql_tables s))\<lparr>vs_plan_owner := AList.update ?id u (vs_plan_owner (sql_tables s))\<rparr>"
    assume okay: "sql_video_ok s"
    have rows: "by_owner d = vs_steps (put_steps u ?id steps ?c) \<and> (distinct (map fst (sv_steps s)) \<longrightarrow> distinct (map fst d))"
      by (rule insert_steps_rows [OF ins plans [OF ok]]) simp_all
    have "map_of (vs_plan_owner (sql_tables s)) ?id = None" using none by (simp add: owner_of_get)
    then have "changes A (sql_tables s) (put_steps u ?id steps ?c)"
      using change_in [OF save_new [of "sql_tables s" ?q u steps]] assms q by simp
    moreover have "sql_tables ((set_plan_row u ?id q s)\<lparr>sv_steps := d\<rparr>) = put_steps u ?id steps ?c"
      using rows none q by (simp add: set_plan_row_def sql_tables_def by_owner_update owner_of_insert)
    ultimately show "changes A (sql_tables s) (sql_tables ((set_plan_row u ?id q s)\<lparr>sv_steps := d\<rparr>))" by simp
    show "distinct (map fst (sv_steps ((set_plan_row u ?id q s)\<lparr>sv_steps := d\<rparr>)))"
      using rows sql_distinct(3) [OF okay] by simp
  qed
  show ?thesis
  proof (cases "sql_video_ok s")
    case True
    then have id: "map_of (sv_plans s) ?id = Some (u, r) \<Longrightarrow> pl_id r = ?id" for u r by (rule row_ids(2))
    show ?thesis unfolding sql_save_plan_def
    proof (intro commit_moves, goal_cases)
      case (1 a t)
      then obtain u where ok: "new_steps_ok p steps" and rest: "sql_write_plan u p steps rv now s = Inr (a, t)"
        by (auto simp: bind_result_Inr_iff split: if_split_asm)
      show ?case
      proof (cases "map_of (sv_plans s) ?id")
        case None
        then show ?thesis using rest ok by (auto simp: sql_write_plan_def bind_result_Inr_iff saved_new_def intro: new split: if_split_asm)
      next
        case (Some row)
        obtain v old where row: "row = (v, old)" by (cases row)
        have "pl_id (saved_again p old now) = ?id" "pl_ws (saved_again p old now) = pl_ws old"
          "pl_conv (saved_again p old now) = pl_conv old" using id Some row by (simp_all add: saved_again_def)
        then show ?thesis using rest ok Some row by (auto simp: sql_write_plan_def Let_def bind_result_Inr_iff intro: again split: if_split_asm)
      qed
    qed
  qed (simp add: sql_moves_def)
qed

lemma plan_row_update_moves:
  assumes "\<And>p q. f p = Inr q \<Longrightarrow> plan_next p q"
    and "\<And>p a t. body p = Inr (a, t) \<Longrightarrow> \<exists>q. f p = Inr q \<and> t = set_plan_row u pid q s"
  shows "sql_moves A s (snd (commit s (bind_result (owned_row u pid (sv_plans s)) body)))"
proof (cases "sql_video_ok s")
  case True
  show ?thesis
  proof (rule commit_moves)
    fix a t assume "bind_result (owned_row u pid (sv_plans s)) body = Inr (a, t)"
    then obtain p where p: "map_of (sv_plans s) pid = Some (u, p)" "body p = Inr (a, t)"
      by (auto simp: bind_result_Inr_iff sql_rows [OF True])
    then obtain q where "f p = Inr q" "t = set_plan_row u pid q s" using assms(2) by blast
    then show "sql_moves A s t" using set_plan_row_moves [OF p(1) assms(1)] by simp
  qed
qed (simp add: sql_moves_def)

lemma sql_status_moves: "sql_moves A s (snd (sql_update_plan_status user pid st now s))"
proof -
  have "sql_moves A s (snd (commit s (bind_result (owned_row u pid (sv_plans s)) (\<lambda>p.
            if \<not> plan_may_move (pl_status p) st then Inl Vw_Conflict
            else (let q = p\<lparr>pl_status := st, pl_rev := pl_rev p + 1, pl_updated := Some now\<rparr>
                  in bind_result (plan_from_row q) (\<lambda>r. Inr (r, set_plan_row u pid q s)))))))" for u
    by (rule plan_row_update_moves [where f = "\<lambda>p. if plan_may_move (pl_status p) st
          then Inr (p\<lparr>pl_status := st, pl_rev := pl_rev p + 1, pl_updated := Some now\<rparr>) else Inl Vw_Conflict"])
      (auto simp: plan_next_def Let_def bind_result_Inr_iff split: if_splits)
  then show ?thesis by (auto simp: sql_update_plan_status_def split: sum.splits)
qed

lemma sql_goal_moves: "sql_moves A s (snd (sql_update_plan_public_goal user pid goal rv now s))"
proof -
  have "sql_moves A s (snd (commit s (bind_result (owned_row u pid (sv_plans s)) (\<lambda>p.
            if pl_rev p \<noteq> rv then Inl Vw_Conflict
            else (let q = p\<lparr>pl_goal := goal, pl_rev := pl_rev p + 1, pl_updated := Some now\<rparr>
                  in bind_result (plan_from_row q) (\<lambda>r. Inr (r, set_plan_row u pid q s)))))))" for u
    by (rule plan_row_update_moves [where f = "\<lambda>p. if pl_rev p = rv
          then Inr (p\<lparr>pl_goal := goal, pl_rev := pl_rev p + 1, pl_updated := Some now\<rparr>) else Inl Vw_Conflict"])
      (auto simp: plan_next_def plan_may_move_def Let_def bind_result_Inr_iff split: if_splits)
  then show ?thesis by (auto simp: sql_update_plan_public_goal_def split: sum.splits)
qed

subsection \<open>Steps\<close>

named_theorems row_laws \<open>a step row moves along the table\<close>

lemma validated_next [row_laws]: "(\<And>x y. f x = Inr y \<Longrightarrow> step_next x y) \<Longrightarrow> validated f x = Inr y \<Longrightarrow> step_next x y"
  by (auto simp: validated_def bind_result_Inr_iff)

lemma row_completed_next: "row_completed r now x = Inr y \<Longrightarrow> step_next x y"
  by (auto simp: row_completed_def step_next_def terminal_step_def bind_result_Inr_iff split: if_splits)

lemma row_started_next: "row_started now x = Inr y \<Longrightarrow> step_next x y"
  by (auto simp: row_started_def step_next_def terminal_step_def bind_result_Inr_iff split: if_splits)

lemma row_progressed_next: "row_progressed summary x = Inr y \<Longrightarrow> step_next x y"
  by (auto simp: row_progressed_def step_next_def terminal_step_def split: if_splits)

lemma change_row_moves:
  assumes "\<And>x y. f x = Inr y \<Longrightarrow> step_next x y" and "change_row u ids f s = Inr (z, t)"
  shows "sql_moves A s t"
proof (cases "sql_video_ok s")
  case True
  then show ?thesis using assms
    by (auto simp: change_row_def bind_result_Inr_iff sql_rows intro: set_step_row_moves)
qed (simp add: sql_moves_def)

lemma sql_step_method_moves:
  assumes "\<And>x y. f x = Inr y \<Longrightarrow> step_next x y"
  shows "sql_moves A s (snd (sql_step_method user ids f s))"
  unfolding sql_step_method_def
  by (intro commit_moves) (auto simp: bind_result_Inr_iff intro: change_row_moves [OF validated_next [OF assms]])

lemma row_with_event_moves:
  assumes "\<And>x y. f x = Inr y \<Longrightarrow> step_next x y" and "row_with_event E u ids f ph run now s = Inr (r, t)"
  shows "sql_moves A s t"
  using assms(2) by (auto simp: row_with_event_def bind_result_Inr_iff intro: change_row_moves [OF assms(1)])

lemma sql_event_moves:
  assumes "\<And>x y. f x = Inr y \<Longrightarrow> step_next x y"
  shows "sql_moves A s (snd (commit s (bind_result (owner_text user) (\<lambda>u. row_with_event E u ids f ph run now s))))"
  by (intro commit_moves) (auto simp: bind_result_Inr_iff intro: row_with_event_moves [OF assms])

lemma sql_progress_moves: "sql_moves A s (snd (sql_progress_step_with_event E user ids summary phase run now s))"
  unfolding sql_progress_step_with_event_def
  by (intro commit_moves)
    (auto simp: bind_result_Inr_iff intro: row_with_event_moves [OF row_progressed_next] split: if_splits)

lemma sql_fail_moves: "sql_moves A s (snd (sql_fail_step_with_event E user ids reason summary run now s))"
proof (cases "sql_video_ok s")
  case True
  have two: "sql_moves A s (set_plan_row u (fst ids) (p\<lparr>pl_status := Plan_Failed, pl_updated := Some now\<rparr>) t)"
    if "map_of (sv_plans s) (fst ids) = Some (u, p)" "plan_may_move (pl_status p) Plan_Failed"
      "change_row u ids (failed_step summary now) s = Inr (z, t)" for u p z t
  proof -
    have "sql_moves A s t" by (rule change_row_moves [OF failed_step_next that(3)])
    also have "sql_moves A t (set_plan_row u (fst ids) (p\<lparr>pl_status := Plan_Failed, pl_updated := Some now\<rparr>) t)"
      by (rule set_plan_row_moves) (use that in \<open>auto simp: change_row_def set_step_row_def bind_result_Inr_iff plan_next_def\<close>)
    finally show ?thesis .
  qed
  then show ?thesis unfolding sql_fail_step_with_event_def
    by (intro commit_moves) (auto simp: bind_result_Inr_iff sql_rows [OF True] split: if_splits)
qed (simp add: sql_moves_def)

subsection \<open>Cancellations\<close>

lemma step_and_plan_moves:
  assumes x: "map_of (sv_steps s) ids = Some (u, x)" "step_next x y" and p: "map_of (sv_plans s) pid = Some (u, p)" "plan_next p q"
  shows "sql_moves A s (set_plan_row u pid q (set_step_row u ids y s))"
proof -
  have "sql_moves A s (set_step_row u ids y s)" by (rule set_step_row_moves [OF x])
  also have "sql_moves A (set_step_row u ids y s) (set_plan_row u pid q (set_step_row u ids y s))"
    by (rule set_plan_row_moves [OF _ p(2)]) (simp add: set_step_row_def p(1))
  finally show ?thesis .
qed

lemma sql_cancel_confirmation_moves: "sql_moves A s (snd (sql_cancel_step_confirmation user ids now s))"
proof (cases "sql_video_ok s")
  case True
  have "sql_moves A s (snd (commit s (bind_result (owned_row u (fst ids) (sv_plans s)) (\<lambda>p.
            if pl_status p = Plan_Cancelled then bind_result (plan_from_row p) (\<lambda>r. Inr (r, s))
            else bind_result (owned_row u ids (sv_steps s)) (\<lambda>x.
              if pl_status p \<noteq> Plan_Awaiting_Confirmation \<or> st_status x \<noteq> Step_Awaiting then Inl Vw_Conflict
              else (let y = x\<lparr>st_status := Step_Skipped, st_summary := Some text_user_cancelled,
                              st_started := Some now, st_done := Some now\<rparr>;
                        q = p\<lparr>pl_status := Plan_Cancelled, pl_updated := Some now\<rparr>
                    in bind_result (plan_from_row q) (\<lambda>r. Inr (r, set_plan_row u (fst ids) q (set_step_row u ids y s)))))))))" for u
    by (intro commit_moves) (auto simp: bind_result_Inr_iff sql_rows [OF True] Let_def plan_next_def plan_may_move_def step_next_def
        terminal_step_def intro!: step_and_plan_moves split: if_splits)
  then show ?thesis by (auto simp: sql_cancel_step_confirmation_def split: sum.splits)
qed (simp add: sql_moves_def)

lemma sql_cancel_quota_moves: "sql_moves A s (snd (sql_cancel_quota_interrupted_plan user ids k now s))"
proof (cases "owner_text user")
  case (Inr u)
  show ?thesis
  proof (cases "sql_video_ok s")
    case True
    let ?y = "\<lambda>x. x\<lparr>st_status := Step_Skipped, st_summary := Some text_quota_cancelled, st_done := Some now\<rparr>"
    let ?q = "\<lambda>p. p\<lparr>pl_status := Plan_Cancelled, pl_updated := Some now\<rparr>"
    let ?t = "\<lambda>x p. set_plan_row u (fst ids) (?q p) (set_step_row u ids (?y x) s)"
    have three: "sql_moves A s ((?t x p)\<lparr>sv_ws := AList.update (pl_ws p) (u, cleared_workspace k now w) (sv_ws (?t x p))\<rparr>)"
      if "map_of (sv_steps s) ids = Some (u, x)" "st_status x = Step_Running" "map_of (sv_plans s) (fst ids) = Some (u, p)"
        "plan_may_move (pl_status p) Plan_Cancelled" "map_of (sv_ws s) (pl_ws p) = Some (u, w)" for x p w
    proof -
      have "sql_moves A s (?t x p)"
        by (rule step_and_plan_moves [OF that(1) _ that(3)]) (use that in \<open>simp_all add: step_next_def terminal_step_def plan_next_def\<close>)
      also have "sql_moves A (?t x p) ((?t x p)\<lparr>sv_ws := AList.update (pl_ws p) (u, cleared_workspace k now w) (sv_ws (?t x p))\<rparr>)"
        by (rule set_ws_row_moves) (use that in \<open>simp_all add: set_plan_row_def set_step_row_def cleared_workspace_def ws_next_def\<close>)
      finally show ?thesis .
    qed
    show ?thesis
      unfolding sql_cancel_quota_interrupted_plan_def Inr
      by (auto simp: bind_result_Inr_iff sql_rows [OF True] Let_def intro: three intro!: commit_moves
          split: if_split_asm option.split_asm sum.split_asm)
  qed (simp add: sql_moves_def)
qed (simp add: sql_cancel_quota_interrupted_plan_def)

lemma map_steps_changes:
  assumes "\<And>k x. step_next x (g k x)" and "distinct (map fst (vs_steps s))"
  shows "changes A s (s\<lparr>vs_steps := map (\<lambda>(k, x). (k, g k x)) (vs_steps s)\<rparr>)"
proof -
  let ?g = "map (\<lambda>(k, x). (k, g k x))"
  have "changes A s (s\<lparr>vs_steps := ?g pre @ post\<rparr>)" if "vs_steps s = pre @ post" for pre post
    using that
  proof (induction pre arbitrary: post rule: rev_induct)
    case (snoc r pre)
    obtain k x where r: "r = (k, x)" by (cases r)
    have keys: "k \<notin> fst ` set pre" "k \<notin> fst ` set (?g pre)" using assms(2) snoc.prems r by (auto simp: image_iff)
    let ?t = "s\<lparr>vs_steps := ?g pre @ (k, x) # post\<rparr>"
    have "changes A s ?t" using snoc r by simp
    also have "changes A ?t (set_step (fst k) (g k x) (snd k) ?t)"
    proof (rule change_one [OF move_step])
      have "map_of (?g pre) k = None" using keys(2) by (simp only: map_of_eq_None_iff not_False_eq_True)
      then show "map_of (vs_steps ?t) (fst k, snd k) = Some x" by (simp add: map_add_def)
    qed (rule assms(1))
    also have "set_step (fst k) (g k x) (snd k) ?t = s\<lparr>vs_steps := ?g (pre @ [r]) @ post\<rparr>"
    proof -
      have "AList.update k y (d @ (k, x) # e) = d @ (k, y) # e" if "k \<notin> fst ` set d" for d e and y :: plan_step
        using that by (induction d) auto
      then show ?thesis using keys(2) r by (simp add: set_step_def)
    qed
    finally show ?case .
  qed simp
  from this [of "vs_steps s" "[]"] show ?thesis by simp
qed

lemma cancel_script_row_moves:
  assumes "cancel_script_row u now p s = Inr (r, t)"
  shows "sql_moves A s t"
proof (cases "sql_video_ok s")
  case True
  let ?d = "map (\<lambda>(k, v, x). (k, v, if v = u \<and> fst k = pl_id p then skip_open now x else x)) (sv_steps s)"
  have steps: "sql_moves A s (s\<lparr>sv_steps := ?d\<rparr>)"
  proof (rule sql_movesI)
    let ?g = "\<lambda>k x. if fst k = u \<and> fst (snd k) = pl_id p then skip_open now x else x"
    have "distinct (map fst (vs_steps (sql_tables s)))" using True by (simp add: sql_video_ok_def video_ok_def)
    then have "changes A (sql_tables s) ((sql_tables s)\<lparr>vs_steps := map (\<lambda>(k, x). (k, ?g k x)) (vs_steps (sql_tables s))\<rparr>)"
      by (rule map_steps_changes [rotated]) (simp add: skip_open_next)
    moreover have "by_owner ?d = map (\<lambda>(k, x). (k, ?g k x)) (by_owner (sv_steps s))"
      by (simp add: by_owner_def case_prod_beta comp_def)
    ultimately show "changes A (sql_tables s) (sql_tables (s\<lparr>sv_steps := ?d\<rparr>))" by (simp add: sql_tables_def)
    have "map fst ?d = map fst (sv_steps s)" by (simp add: comp_def case_prod_beta)
    then show "distinct (map fst (sv_steps (s\<lparr>sv_steps := ?d\<rparr>)))"
      using sql_distinct(3) [OF True] by (simp del: map_map)
  qed
  have both: "sql_moves A s ((set_plan_row u (pl_id p) q s)\<lparr>sv_steps := ?d\<rparr>)"
    if row: "map_of (sv_plans s) (pl_id p) = Some (u, row)" and next_row: "plan_next row q" for row q
  proof -
    note steps
    also have "sql_moves A (s\<lparr>sv_steps := ?d\<rparr>) (set_plan_row u (pl_id p) q (s\<lparr>sv_steps := ?d\<rparr>))"
      by (rule set_plan_row_moves [OF _ next_row]) (simp add: row)
    also have "set_plan_row u (pl_id p) q (s\<lparr>sv_steps := ?d\<rparr>) = (set_plan_row u (pl_id p) q s)\<lparr>sv_steps := ?d\<rparr>"
      by (cases s) (simp add: set_plan_row_def)
    finally show ?thesis .
  qed
  have cancel: "plan_next row (row\<lparr>pl_status := Plan_Cancelled, pl_updated := Some now\<rparr>)"
    if "pl_status row \<in> {Planning, Plan_Running, Plan_Awaiting_Confirmation}" for row :: agent_plan
    using that by (auto simp: plan_next_def plan_may_move_def)
  show ?thesis
  proof (cases "owned_row u (pl_id p) (sv_plans s)")
    case (Inl er)
    then show ?thesis using assms by (simp add: cancel_script_row_def)
  next
    case (Inr row)
    then have row: "map_of (sv_plans s) (pl_id p) = Some (u, row)" by (simp add: sql_rows [OF True])
    show ?thesis
    proof (cases "pl_status row \<in> {Planning, Plan_Running, Plan_Awaiting_Confirmation}")
      case True
      then show ?thesis using assms Inr both [OF row cancel [OF True]]
        by (auto simp: cancel_script_row_def Let_def bind_result_Inr_iff)
    next
      case False
      then show ?thesis using assms Inr by (simp add: cancel_script_row_def)
    qed
  qed
qed (simp add: sql_moves_def)

lemma cancel_waiting_row_moves:
  assumes "cancel_waiting_row u now p s = Inr (r, t)"
  shows "sql_moves A s t"
proof (cases "sql_video_ok s")
  case True
  show ?thesis
  proof (cases "owned_row u (pl_id p) (sv_plans s)")
    case (Inr row)
    then have row: "map_of (sv_plans s) (pl_id p) = Some (u, row)" by (simp add: sql_rows [OF True])
    show ?thesis using assms Inr
      by (auto simp: cancel_waiting_row_def Let_def bind_result_Inr_iff plan_next_def plan_may_move_def
          intro!: set_plan_row_moves [OF row] split: if_splits)
  qed (use assms in \<open>simp add: cancel_waiting_row_def\<close>)
qed (simp add: sql_moves_def)

lemma cancel_rows_moves:
  assumes "\<And>p s r t. f p s = Inr (r, t) \<Longrightarrow> sql_moves A s t"
  shows "sql_moves A s (snd (cancel_rows f ps s))"
proof (induction ps arbitrary: s)
  case (Cons p ps)
  show ?case
  proof (cases "f p s")
    case (Inr a)
    obtain q t where a: "a = (q, t)" by (cases a)
    have "sql_moves A s t" using assms Inr a by blast
    also have "sql_moves A t (snd (cancel_rows f ps t))" by (rule Cons.IH)
    finally show ?thesis using Inr a by (auto split: prod.splits sum.splits)
  qed simp
qed simp

lemma sql_cancel_listed_moves:
  assumes "\<And>u p s r t. f u p s = Inr (r, t) \<Longrightarrow> sql_moves A s t"
  shows "sql_moves A s (snd (sql_cancel_listed U user conv chosen f s))"
proof -
  have "sql_moves A s (snd (commit s (sql_list_plans U u c s)))" for u c
    by (rule commit_moves) (rule sql_list_plans_moves)
  moreover have "sql_moves A t (snd (cancel_rows (f u) ps t))" for u ps t
    by (rule cancel_rows_moves) (rule assms)
  ultimately show ?thesis
    by (auto simp: sql_cancel_listed_def split: sum.splits prod.splits) (metis sql_moves_trans snd_conv)+
qed

subsection \<open>The contract\<close>

lemma sql_outcome_state [simp]: "snd (sql_outcome r) = snd r"
  by (simp add: sql_outcome_def split: prod.splits)

lemmas sql_command_laws =
  sql_create_moves sql_discard_moves sql_load_moves sql_list_moves sql_patch_moves sql_save_moves sql_status_moves sql_goal_moves
  sql_cancel_confirmation_moves sql_cancel_quota_moves sql_fail_moves sql_progress_moves

lemma sql_command_moves: "labels c \<subseteq> A \<Longrightarrow> sql_moves A s (snd (sql_video_exec E s c))"
  by (cases c)
    (auto simp: sql_start_step_def sql_complete_step_def sql_request_step_confirmation_def sql_confirm_step_def
       sql_start_step_with_event_def sql_complete_step_with_event_def
       sql_cancel_active_script_skill_plans_def sql_cancel_waiting_for_input_plans_def Let_def
       intro!: sql_command_laws sql_step_method_moves sql_event_moves sql_cancel_listed_moves
       dest: started_step_next row_completed_next asked_step_next confirmed_step_next row_started_next
         cancel_script_row_moves cancel_waiting_row_moves)

interpretation sql_video: video_repository "sql_video_exec E" sql_video_ok sql_tables for E :: "'s video_env"
proof unfold_locales
  fix w c A
  assume ok: "sql_video_ok w"
  show "sql_video_ok (snd (sql_video_exec E w c))" by (rule sql_moves_ok [OF sql_command_moves [OF subset_UNIV] ok])
  show "video_ok (sql_tables w)" using ok by (simp add: sql_video_ok_def)
  show "changes A (sql_tables w) (sql_tables (snd (sql_video_exec E w c)))" if "labels c \<subseteq> A"
    using sql_command_moves [OF that, of w E] ok by (simp add: sql_moves_def)
  show "sql_tables (snd (sql_video_exec E w (Create_Workspace user now x))) = sql_tables w"
    if "map_of (vs_ws_owner (sql_tables w)) (vw_id x) \<noteq> None" for user now x
    using that by (auto simp: owner_of_get sql_create_workspace_def commit_def bind_result_def split: sum.splits option.splits prod.splits if_splits)
qed

end
