(* ===== verification/Video_Repositories.thy ===== *)
theory Video_Repositories
  imports Video_Changes Video_Sql_Laws
begin

text \<open>
  The two implementations of the repository protocol (\<^verbatim>\<open>video/workspace/repository.py\<close>) as one: a
  command goes to the store in memory or to the tables, and a reader sees the rows by owner.
\<close>

datatype 's video_repo = Memory video_store 's | Sql sql_video

fun repo_exec :: "'s video_env \<Rightarrow> 's video_repo \<Rightarrow> video_cmd \<Rightarrow> (vw_error + unit) \<times> 's video_repo" where
  "repo_exec E (Memory s es) c = (case video_exec E (s, es) c of (r, t, es') \<Rightarrow> (r, Memory t es'))"
| "repo_exec E (Sql s) c = (case sql_video_exec E s c of (r, t) \<Rightarrow> (r, Sql t))"

fun repo_patch ::
  "'s video_env \<Rightarrow> string \<Rightarrow> string \<Rightarrow> json \<Rightarrow> nat \<Rightarrow> time \<Rightarrow> 's video_repo \<Rightarrow> (vw_error + video_ws) \<times> 's video_repo" where
  "repo_patch E user wid patch rv now (Memory s es) =
     (case apply_workspace_patch (ve_repr E) (ve_int E) user wid patch rv now s of (r, t) \<Rightarrow> (r, Memory t es))"
| "repo_patch E user wid patch rv now (Sql s) =
     (case sql_apply_workspace_patch (ve_repr E) (ve_int E) user wid patch rv now s of (r, t) \<Rightarrow> (r, Sql t))"

fun repo_view :: "'s video_repo \<Rightarrow> video_store" where
  "repo_view (Memory s es) = s"
| "repo_view (Sql s) = sql_tables s"

fun repo_ok :: "'s video_repo \<Rightarrow> bool" where
  "repo_ok (Memory s es) = video_ok s"
| "repo_ok (Sql s) = sql_video_ok s"

definition fresh_repo :: "'s video_repo \<Rightarrow> bool" where
  "fresh_repo a = (case a of Memory s es \<Rightarrow> s = new_video_store | Sql s \<Rightarrow> s = new_sql_video (se_other (sv_events s)))"

lemma fresh_repo_ok: "fresh_repo a \<Longrightarrow> repo_ok a"
proof (cases a)
  case (Sql s)
  moreover have "sql_video_ok (new_sql_video owners)" for owners
    by (simp add: sql_video_ok_def new_sql_video_def sql_tables_def video_ok_def)
  moreover assume "fresh_repo a"
  ultimately show ?thesis by (simp add: fresh_repo_def) metis
qed (simp add: fresh_repo_def new_store_ok)

lemma repo_exec_parts:
  "repo_view (snd (repo_exec E (Memory s es) c)) = fst (snd (video_exec E (s, es) c))"
  "repo_view (snd (repo_exec E (Sql t) c)) = sql_tables (snd (sql_video_exec E t c))"
  "repo_ok (snd (repo_exec E (Memory s es) c)) = video_ok (fst (snd (video_exec E (s, es) c)))"
  "repo_ok (snd (repo_exec E (Sql t) c)) = sql_video_ok (snd (sql_video_exec E t c))"
  by (simp_all split: prod.split)

interpretation repo: video_repository "repo_exec E" repo_ok repo_view for E :: "'s video_env"
proof unfold_locales
  fix w :: "'s video_repo" and c A
  note parts = repo_exec_parts and [simp del] = repo_exec.simps video_exec.simps sql_video_exec.simps
  assume ok: "repo_ok w"
  show "repo_ok (snd (repo_exec E w c))"
    using ok by (cases w) (simp_all add: parts mem_video.exec_inv sql_video.exec_inv)
  show "video_ok (repo_view w)" using ok by (cases w) (simp_all add: sql_video.okay_view)
  show "changes A (repo_view w) (repo_view (snd (repo_exec E w c)))" if "labels c \<subseteq> A"
    using ok mem_video.exec_changes [OF _ that, of "(s, es)" E for s es] sql_video.exec_changes [OF _ that, of _ E]
    by (cases w) (simp_all add: parts)
  show "repo_view (snd (repo_exec E w (Create_Workspace user now x))) = repo_view w"
    if "map_of (vs_ws_owner (repo_view w)) (vw_id x) \<noteq> None" for user now x
    using ok that mem_video.create_present [of "(s, es)" x E user now for s es] sql_video.create_present [of _ x E user now]
    by (cases w) (simp_all add: parts)
qed

lemma reached_repo: "fresh_repo a \<Longrightarrow> repo_ok (run_all (repo_exec E) a cs)"
  by (rule repo.session_inv [OF fresh_repo_ok])

lemma sql_ws_row: "sql_video_ok s \<Longrightarrow> map_of (vs_ws (sql_tables s)) (u, wid) = Some w \<Longrightarrow> map_of (sv_ws s) wid = Some (u, w)"
  using sql_distinct(1) by (auto simp: by_owner_get split: option.splits if_splits)

lemma patch_of_row:
  assumes "repo_ok s" and "owner_text user = Inr u" and row: "map_of (vs_ws (repo_view s)) (u, wid) = Some v"
  shows "case repo_patch E user wid patch rv now s of
      (Inl er, t) \<Rightarrow> t = s
    | (Inr w', t) \<Rightarrow>
        vw_rev v = rv \<and> updated_workspace (ve_repr E) (ve_int E) patch now v = Some w' \<and>
          map_of (vs_ws (repo_view t)) (u, wid) = Some w'
      \<or> t = s \<and> w' = v \<and> patch_replay (ve_repr E) v patch rv"
proof (cases s)
  case (Memory m es)
  then show ?thesis using assms
    by (auto simp: apply_workspace_patch_def with_lock_def split: option.splits)
next
  case (Sql m)
  have ok: "sql_video_ok m" and "map_of (vs_ws (sql_tables m)) (u, wid) = Some v" using assms Sql by simp_all
  then have row: "map_of (sv_ws m) wid = Some (u, v)" by (rule sql_ws_row)
  have new: "map_of (by_owner (AList.update wid (u, w') (sv_ws m))) (u, wid) = Some w'" for w'
    using row by (simp add: by_owner_update)
  show ?thesis using row Sql assms(2) new
    by (auto simp: sql_apply_workspace_patch_def commit_def owned_row_def split: option.splits)
qed

end
