(* ===== verification/Video_Scenes.thy ===== *)
theory Video_Scenes
  imports Workspace_Payload
begin

text \<open>
  What a patch does to the scenes of a payload: the last record of a scene wins, the scenes a patch does
  not name are kept, and the other parts of the patch do not touch them.
\<close>

section \<open>Lookup in a scene list\<close>

lemma find_append: "List.find P (xs @ ys) = (case List.find P xs of None \<Rightarrow> List.find P ys | Some x \<Rightarrow> Some x)"
  by (induction xs) auto

lemma find_rev_named:
  "distinct (map f ys) \<Longrightarrow> List.find (\<lambda>x. f x = i) (rev ys) = map_of (map (\<lambda>y. (f y, y)) ys) i"
proof (induction ys)
  case (Cons y ys)
  have "List.find (\<lambda>x. f x = i) (rev ys) = None" if "f y = i"
    using Cons.prems that unfolding find_None_all by (metis distinct.simps(2) image_eqI list.set_map list.simps(9) set_rev)
  then show ?case using Cons by (auto simp: find_append split: option.splits)
qed simp

lemma scene_dict_Nil [simp]: "scene_dict R [] = []"
  by (simp add: scene_dict_def)

lemma scene_dict_snoc:
  "scene_dict R (xs @ [x]) =
     (if id_text R ''scene_id'' x = [] then scene_dict R xs else AList.update (id_text R ''scene_id'' x) x (scene_dict R xs))"
  by (simp add: scene_dict_def Let_def)

lemma map_of_scene_dict:
  "i \<noteq> [] \<Longrightarrow> map_of (scene_dict R xs) i = List.find (\<lambda>x. id_text R ''scene_id'' x = i) (rev xs)"
  by (induction xs rule: rev_induct) (auto simp: scene_dict_snoc)

lemma scene_dict_rows:
  "distinct (map fst (scene_dict R xs)) \<and>
   (\<forall>(k, x) \<in> set (scene_dict R xs). id_text R ''scene_id'' x = k \<and> k \<noteq> [] \<and> x \<in> set xs)"
proof (induction xs rule: rev_induct)
  case (snoc x xs)
  have "set (AList.update (id_text R ''scene_id'' x) x (scene_dict R xs)) \<subseteq> insert (id_text R ''scene_id'' x, x) (set (scene_dict R xs))"
    by (induction "scene_dict R xs") (use set_update_cases in fastforce)+
  then show ?case using snoc by (auto simp: scene_dict_snoc distinct_update)
qed simp

lemma scene_of_dict:
  assumes "i \<noteq> []"
  shows "scene_of R (map snd (scene_dict R xs)) i = scene_of R xs i"
proof -
  let ?d = "scene_dict R xs" and ?n = "id_text R ''scene_id''"
  have rows: "\<And>k x. (k, x) \<in> set ?d \<Longrightarrow> ?n x = k" and d: "distinct (map fst ?d)" using scene_dict_rows [of R xs] by auto
  have eq: "map (\<lambda>y. (?n y, y)) (map snd ?d) = ?d" using rows by (auto intro!: nth_equalityI simp: prod_eq_iff)
  have "map ?n (map snd ?d) = map fst (map (\<lambda>y. (?n y, y)) (map snd ?d))" by simp
  then have "distinct (map ?n (map snd ?d))" using d unfolding eq by (simp only:)
  from find_rev_named [OF this, of i] show ?thesis
    unfolding eq scene_of_def map_of_scene_dict [OF assms] by simp
qed

definition names_scene :: "(json \<Rightarrow> string) \<Rightarrow> string \<Rightarrow> json list \<Rightarrow> bool" where
  "names_scene R i xs = list_ex (\<lambda>x. id_text R ''scene_id'' x = i) xs"

lemma scene_of_append:
  "scene_of R (xs @ ys) i = (if names_scene R i ys then scene_of R ys i else scene_of R xs i)"
proof (cases "names_scene R i ys")
  case True
  then have "List.find (\<lambda>x. id_text R ''scene_id'' x = i) (rev ys) \<noteq> None"
    unfolding find_None_all names_scene_def list_ex_iff by auto
  then obtain y where "List.find (\<lambda>x. id_text R ''scene_id'' x = i) (rev ys) = Some y" by blast
  then show ?thesis using True by (simp add: scene_of_def find_append)
next
  case False
  then have "List.find (\<lambda>x. id_text R ''scene_id'' x = i) (rev ys) = None"
    by (auto simp: names_scene_def list_ex_iff find_None_iff)
  then show ?thesis using False by (simp add: scene_of_def find_append)
qed

lemma merge_objects: "objects (JList (merge_scenes_by_id R a b)) = merge_scenes_by_id R a b"
proof -
  have "is_obj x" if "x \<in> set (merge_scenes_by_id R a b)" for x
    using that scene_dict_rows [of R "objects a @ objects b"] by (auto simp: merge_scenes_by_id_def objects_def split: if_splits)
  then show ?thesis by (simp add: objects_def)
qed

lemma scene_of_merge:
  assumes "i \<noteq> []"
  shows "scene_of R (merge_scenes_by_id R a b) i =
    (if names_scene R i (objects b) then scene_of R (objects b) i else scene_of R (objects a) i)"
proof (cases "objects a = []")
  case True
  then show ?thesis using scene_of_append [of R "[]" "objects b" i] by (auto simp: merge_scenes_by_id_def split: if_splits)
next
  case False
  then show ?thesis by (simp add: merge_scenes_by_id_def scene_of_dict [OF assms] scene_of_append)
qed

lemma merge_scenes_all: "list_all Q (objects a @ objects b) \<Longrightarrow> list_all Q (merge_scenes_by_id R a b)"
  using scene_dict_rows [of R "objects a @ objects b"] by (auto simp: merge_scenes_by_id_def list_all_iff)

section \<open>Scenes after the contract\<close>

definition same_name :: "(json \<Rightarrow> string) \<Rightarrow> json \<Rightarrow> bool" where
  "same_name R x = (id_text R ''scene_id'' (contract_json x) = id_text R ''scene_id'' x)"

lemma objects_contract: "objects (contract_json (JList xs)) = map contract_json (objects (JList xs))"
  by (simp add: objects_def filter_map o_def)

lemma scene_of_contract:
  assumes "list_all (same_name R) xs"
  shows "scene_of R (map contract_json xs) i = contract_json (scene_of R xs i)"
  using assms
proof (induction xs rule: rev_induct)
  case (snoc x xs)
  then show ?case by (simp add: scene_of_def same_name_def)
qed (simp add: scene_of_def)

lemma fixed_objects: "contract_json j = j \<Longrightarrow> x \<in> set (objects j) \<Longrightarrow> contract_json x = x"
proof (cases j)
  case (JList xs)
  assume "contract_json j = j" "x \<in> set (objects j)"
  then have "map contract_json xs = xs" "x \<in> set xs" using JList by (auto simp: objects_def)
  then show ?thesis by (metis map_idI in_set_conv_nth nth_map)
qed (auto simp: objects_def)

lemma scene_of_cases: "scene_of R xs i = JNull \<or> scene_of R xs i \<in> set xs"
proof (cases "List.find (\<lambda>x. id_text R ''scene_id'' x = i) (rev xs)")
  case (Some x)
  then have "x \<in> set (rev xs)" by (metis find_Some_in)
  then show ?thesis using Some by (simp add: scene_of_def)
qed (simp add: scene_of_def)

section \<open>The other parts of a patch\<close>

definition payload_fields :: "string list" where
  "payload_fields = [''creative_brief'', ''narrative_plan'', ''asset_registry'', ''prompt_packages'', ''workspace_schema_version'',
     ''reference_images'', ''materials'']"

lemma has_key_jput: "is_obj j \<Longrightarrow> has_key k (jput k' v j) = (k = k' \<or> has_key k j)"
  by (cases j) (auto simp: has_key_def)

lemma has_key_jdel: "has_key k (jdel k' j) = (k \<noteq> k' \<and> has_key k j)"
  by (cases j) (auto simp: has_key_def)

lemma has_key_jdels: "has_key k (jdels ks j) = (k \<notin> set ks \<and> has_key k j)"
  by (induction ks arbitrary: j) (auto simp: jdels_def has_key_jdel)

lemma put_missing_other: "is_obj j \<Longrightarrow> is_obj (put_missing k' v j) \<and> (k \<noteq> k' \<longrightarrow> jget k (put_missing k' v j) = jget k j)"
  by (auto simp: put_missing_def jget_jput)

lemma migrate_other:
  assumes "migrate_workspace_payload R P s = Some t" and "is_obj s" and "k \<notin> set payload_fields"
  shows "is_obj t" and "jget k t = jget k s"
proof -
  have key: "k \<noteq> ''creative_brief''" "k \<noteq> ''narrative_plan''" "k \<noteq> ''asset_registry''" "k \<noteq> ''prompt_packages''" "k \<noteq> ''workspace_schema_version''"
    using assms(3) by (auto simp: payload_fields_def)
  define s1 where "s1 = put_missing ''creative_brief'' (legacy_brief s) s"
  define s2 where "s2 = put_missing ''narrative_plan'' (legacy_narrative s1) s1"
  define s3 where "s3 = put_missing ''asset_registry'' (JList (legacy_asset_registry R s2)) s2"
  have s3: "is_obj s3" "jget k s3 = jget k s"
    using put_missing_other [of s] put_missing_other [of s1] put_missing_other [of s2] assms(2) key
    unfolding s1_def s2_def s3_def by metis+
  have "t = s \<or> t = jput ''workspace_schema_version'' (JInt 2) s3 \<or>
      (\<exists>ps. t = jput ''workspace_schema_version'' (JInt 2) (jput ''prompt_packages'' (JList ps) s3))"
    using assms(1) unfolding migrate_workspace_payload_def Let_def s1_def s2_def s3_def
    by (auto split: if_splits)
  then show "is_obj t" and "jget k t = jget k s"
    using s3 key assms(2) by (auto simp: jget_jput)
qed

lemma append_to_other:
  "is_obj j \<Longrightarrow> is_obj (append_to R field k' extra j) \<and> (k \<noteq> field \<longrightarrow> jget k (append_to R field k' extra j) = jget k j)"
  by (auto simp: append_to_def jget_jput)

lemma patch_scenes_get:
  "is_obj j \<Longrightarrow> is_obj (patch_scenes R False patch k' j) \<and>
   jget k (patch_scenes R False patch k' j) =
     (if k = k' \<and> has_key k patch then JList (merge_scenes_by_id R (jget k j) (jget k patch)) else jget k j)"
  by (auto simp: patch_scenes_def jget_jput)

lemma clean_jput: "clean_keys j \<Longrightarrow> contract_strip k = k \<Longrightarrow> clean_keys (jput k v j)"
  by (cases j) (auto simp: clean_keys_def list_all_iff dest: set_update_cases)

lemma clean_jdel: "clean_keys j \<Longrightarrow> clean_keys (jdel k j)"
proof (cases j)
  case (JObj d)
  assume "clean_keys j"
  then show ?thesis using JObj by (auto simp: clean_keys_def list_all_iff AList.delete_eq distinct_map_filter)
qed (simp_all add: clean_keys_def)

lemma clean_jdels: "clean_keys j \<Longrightarrow> clean_keys (jdels ks j)"
  by (induction ks arbitrary: j) (simp_all add: jdels_def clean_jdel)

lemma clean_jputs: "clean_keys j \<Longrightarrow> list_all (\<lambda>(k, v). contract_strip k = k) d \<Longrightarrow> clean_keys (jputs d j)"
  by (induction d arbitrary: j) (auto simp: jputs_def clean_jput)

lemma clean_fields: "k \<in> set payload_fields \<union> {''scenes'', ''scene_packages''} \<Longrightarrow> contract_strip k = k"
  by (auto simp: payload_fields_def contract_strip_def is_white_def)

lemma clean_put_missing: "clean_keys s \<Longrightarrow> contract_strip k = k \<Longrightarrow> clean_keys (put_missing k v s)"
  by (simp add: put_missing_def clean_jput)

lemma migrate_clean:
  assumes "migrate_workspace_payload R P s = Some t" and "clean_keys s"
  shows "clean_keys t"
proof -
  have key: "contract_strip k = k" if "k \<in> set payload_fields" for k using that clean_fields by blast
  define s1 where "s1 = put_missing ''creative_brief'' (legacy_brief s) s"
  define s2 where "s2 = put_missing ''narrative_plan'' (legacy_narrative s1) s1"
  define s3 where "s3 = put_missing ''asset_registry'' (JList (legacy_asset_registry R s2)) s2"
  have s3: "clean_keys s3"
    unfolding s3_def s2_def s1_def by (intro clean_put_missing key assms(2)) (simp_all add: payload_fields_def)
  have "t = s \<or> t = jput ''workspace_schema_version'' (JInt 2) s3 \<or>
      (\<exists>ps. t = jput ''workspace_schema_version'' (JInt 2) (jput ''prompt_packages'' (JList ps) s3))"
    using assms(1) unfolding migrate_workspace_payload_def Let_def s1_def s2_def s3_def
    by (auto split: if_splits)
  moreover have "clean_keys (jput ''workspace_schema_version'' v j)" "clean_keys (jput ''prompt_packages'' v j)" if "clean_keys j" for v j
    by (rule clean_jput [OF that key], simp add: payload_fields_def)+
  ultimately show ?thesis using s3 assms(2) by auto
qed

lemma append_to_clean: "clean_keys j \<Longrightarrow> field \<in> set payload_fields \<Longrightarrow> clean_keys (append_to R field k extra j)"
  by (auto simp: append_to_def intro: clean_jput clean_fields)

lemma patch_scenes_clean: "clean_keys j \<Longrightarrow> k \<in> {''scenes'', ''scene_packages''} \<Longrightarrow> clean_keys (patch_scenes R b patch k j)"
  using clean_fields [of k] by (auto simp: patch_scenes_def intro: clean_jput)

lemma patched_clean:
  assumes "patched_payload R P patch j = Some t" and "clean_keys j" and "clean_keys patch"
  shows "clean_keys t"
proof -
  define rest where "rest = jdels [''scenes_replace'', ''reference_images_append'', ''materials_append'', ''scenes'', ''scene_packages''] patch"
  obtain p0 where p0: "migrate_workspace_payload R P j = Some p0"
    using assms(1) by (auto simp: patched_payload_def Let_def split: option.splits)
  define p3 where "p3 = append_to R ''materials'' ''material_id'' (jget ''materials_append'' patch)
    (append_to R ''reference_images'' ''reference_id'' (jget ''reference_images_append'' patch)
      (patch_scenes R (truthy (jget ''scenes_replace'' patch)) patch ''scene_packages''
        (patch_scenes R (truthy (jget ''scenes_replace'' patch)) patch ''scenes'' p0)))"
  have p3: "clean_keys p3"
    unfolding p3_def
    by (intro append_to_clean patch_scenes_clean migrate_clean [OF p0 assms(2)]) (simp_all add: payload_fields_def)
  obtain p4 where t: "t = (case rest of JObj d \<Rightarrow> jputs d p4 | _ \<Rightarrow> p4)"
    and p4: "p4 = p3 \<or> (\<exists>recs. p4 = append_to R ''asset_registry'' ''asset_id'' (JList recs) p3)"
    using assms(1) p0 unfolding patched_payload_def Let_def p3_def rest_def by (auto split: if_splits)
  have "clean_keys p4" using p4 p3 append_to_clean [of p3 "''asset_registry''"] by (auto simp: payload_fields_def)
  moreover have "clean_keys rest" unfolding rest_def by (rule clean_jdels [OF assms(3)])
  ultimately show ?thesis unfolding t by (cases rest) (auto simp: clean_keys_def intro: clean_jputs [unfolded clean_keys_def])
qed

lemma patched_scenes:
  assumes patched: "patched_payload R P patch j = Some t" and obj: "is_obj j" "is_obj patch"
    and merge: "\<not> truthy (jget ''scenes_replace'' patch)" and k: "k \<in> {''scenes'', ''scene_packages''}"
  shows "jget k t = (if has_key k patch then JList (merge_scenes_by_id R (jget k j) (jget k patch)) else jget k j)"
proof -
  have key: "k \<notin> set payload_fields" "k \<noteq> ''reference_images''" "k \<noteq> ''materials''" "k \<noteq> ''asset_registry''"
    using k by (auto simp: payload_fields_def)
  define rest where "rest = jdels [''scenes_replace'', ''reference_images_append'', ''materials_append'', ''scenes'', ''scene_packages''] patch"
  obtain p0 where p0: "migrate_workspace_payload R P j = Some p0"
    using patched by (auto simp: patched_payload_def Let_def split: option.splits)
  have g0: "is_obj p0" "jget k p0 = jget k j" using migrate_other [OF p0 obj(1) key(1)] by simp_all
  define p1 where "p1 = patch_scenes R False patch ''scene_packages'' (patch_scenes R False patch ''scenes'' p0)"
  have g1: "is_obj p1" "jget k p1 = (if has_key k patch then JList (merge_scenes_by_id R (jget k j) (jget k patch)) else jget k j)"
    using k g0 patch_scenes_get [of p0 R patch "''scenes''"] patch_scenes_get [of "patch_scenes R False patch ''scenes'' p0" R patch "''scene_packages''"]
    unfolding p1_def by auto
  define p3 where "p3 = append_to R ''materials'' ''material_id'' (jget ''materials_append'' patch)
    (append_to R ''reference_images'' ''reference_id'' (jget ''reference_images_append'' patch) p1)"
  have g3: "is_obj p3" "jget k p3 = jget k p1"
    using append_to_other [of p1] append_to_other [of "append_to R ''reference_images'' ''reference_id'' (jget ''reference_images_append'' patch) p1"]
      g1(1) key unfolding p3_def by metis+
  obtain p4 where t: "t = (case rest of JObj d \<Rightarrow> jputs d p4 | _ \<Rightarrow> p4)" and p4: "p4 = p3 \<or> (\<exists>recs. p4 = append_to R ''asset_registry'' ''asset_id'' (JList recs) p3)"
    using patched p0 merge unfolding patched_payload_def Let_def p1_def p3_def rest_def by (auto split: if_splits)
  have g4: "is_obj p4" "jget k p4 = jget k p3" using p4 g3(1) append_to_other [of p3] key(4) by metis+
  have "\<not> has_key k rest" "is_obj rest" using k obj(2) by (auto simp: rest_def has_key_jdels)
  then obtain d where d: "rest = JObj d" "map_of d k = None" by (cases rest) (auto simp: has_key_def)
  then have "map_of (rev d) k = None" by (simp add: map_of_eq_None_iff)
  then have "jget k t = jget k p4" using t d(1) jget_jputs [OF g4(1), of k d] by simp
  then show ?thesis using g1(2) g3(2) g4(2) by simp
qed

end
