(* ===== verification/Video_Claims.thy ===== *)
theory Video_Claims
  imports Video_Repositories Video_Scenes
begin

text \<open>
  Properties of the video repository: what a session keeps of workspaces, plans and steps, the merge of
  scenes, and the places where the methods break their contract.
\<close>

definition video_start :: "'s \<Rightarrow> video_store \<times> 's" where
  "video_start es = (new_video_store, es)"

lemma reached_ok: "video_ok (fst (run_all (video_exec E) (video_start es) cs))"
  by (rule mem_video.session_inv) (simp add: video_start_def new_store_ok)

section \<open>A session to apply the properties to\<close>

definition demo_ops :: "unit event_ops" where
  "demo_ops = \<lparr>eo_create = (\<lambda>u e s. (Inr e, s)), eo_get = (\<lambda>u i s. Inr None), eo_list = (\<lambda>u c s. Inr [])\<rparr>"

definition demo_video :: "unit video_env" where
  "demo_video = \<lparr>ve_uuid = (\<lambda>s. s), ve_repr = (\<lambda>j. []), ve_int = (\<lambda>s. None), ve_iso = (\<lambda>t. ''t''), ve_ms = (\<lambda>t u. u - t), ve_events = Some demo_ops\<rparr>"

definition demo_scene :: "string \<Rightarrow> string \<Rightarrow> json" where
  "demo_scene i t = JObj [(''scene_id'', JStr i), (''text'', JStr t)]"

definition demo_ws :: "string \<Rightarrow> video_ws" where
  "demo_ws i = \<lparr>vw_id = i, vw_conv = ''c'', vw_rev = 1,
     vw_payload = JObj [(''workspace_schema_version'', JInt 2), (''scenes'', JList [demo_scene ''a'' ''x'', demo_scene ''b'' ''y''])],
     vw_created = Some 5, vw_updated = Some 5\<rparr>"

definition demo_step :: plan_step where
  "demo_step = \<lparr>st_id = ''s'', st_plan = ''p'', st_seq = 1, st_tool = ''t'', st_title = ''T'', st_status = Step_Pending, st_args = JObj [],
     st_confirm = False, st_summary = None, st_refs = [], st_started = None, st_done = None\<rparr>"

definition demo_plan :: "plan_status \<Rightarrow> agent_plan" where
  "demo_plan st = \<lparr>pl_id = ''p'', pl_ws = ''w'', pl_conv = ''c'', pl_rev = 1, pl_status = st, pl_goal = None, pl_steps = [],
     pl_created = Some 5, pl_updated = Some 5\<rparr>"

definition demo_setup :: "video_cmd list" where
  "demo_setup = [Create_Workspace ''u'' 5 (demo_ws ''w''), Save_Plan ''u'' (demo_plan Plan_Running) [demo_step] None 5,
     Start_Step ''u'' (''p'', ''s'') 6]"

abbreviation demo_state :: "video_cmd list \<Rightarrow> video_store \<times> unit" where
  "demo_state cs \<equiv> run_all (video_exec demo_video) (video_start ()) cs"

abbreviation demo_tables :: "video_cmd list \<Rightarrow> unit video_repo" where
  "demo_tables cs \<equiv> run_all (repo_exec demo_video) (Sql (new_sql_video [])) cs"

lemma fresh_demo: "fresh_repo (Sql (new_sql_video owners))"
  by (simp add: fresh_repo_def new_sql_video_def)

section \<open>Plans and steps\<close>

text \<open>
  C21. Plans and steps only move forward. From any reachable state of either repository, in memory or in
  SQL, through any session that does not save the plan again (status changes, starts, completions,
  confirmations, cancellations, failures, with and without events, by any user and over any other plans), a
  stored plan and each of its steps stay stored, their statuses move along the transition tables, a
  terminal plan keeps its status, and the whole record of a terminal step stays what it was.
\<close>

theorem plans_and_steps_move_forward:
  assumes "fresh_repo start" and "a = run_all (repo_exec E) start earlier"
    and "Saved pid \<notin> \<Union> (labels ` set cs)"
    and "map_of (vs_plans (repo_view a)) (u, pid) = Some p" and "map_of (vs_steps (repo_view a)) (u, pid, i) = Some x"
  shows "\<exists>q y. map_of (vs_plans (repo_view (run_all (repo_exec E) a cs))) (u, pid) = Some q \<and>
      map_of (vs_steps (repo_view (run_all (repo_exec E) a cs))) (u, pid, i) = Some y \<and>
      (pl_status p, pl_status q) \<in> plan_path \<and> (st_status x, st_status y) \<in> step_path \<and>
      (terminal_plan (pl_status p) \<longrightarrow> pl_status q = pl_status p) \<and> (terminal_step (st_status x) \<longrightarrow> y = x)"
  using reached_repo [OF assms(1)] assms(2-5) by (intro repo.rows_forward) simp_all

lemma plans_and_steps_move_forward_witness:
  "\<exists>q y. map_of (vs_plans (repo_view (run_all (repo_exec demo_video) (demo_tables demo_setup)
        [Cancel_Scripts ''u'' ''c'' 8, Plan_Status ''u'' ''p'' Plan_Completed 9]))) (''u'', ''p'') = Some q \<and>
     map_of (vs_steps (repo_view (run_all (repo_exec demo_video) (demo_tables demo_setup)
        [Cancel_Scripts ''u'' ''c'' 8, Plan_Status ''u'' ''p'' Plan_Completed 9]))) (''u'', ''p'', ''s'') = Some y \<and>
     (Plan_Running, pl_status q) \<in> plan_path \<and> (Step_Running, st_status y) \<in> step_path"
proof -
  have plan: "map_of (vs_plans (repo_view (demo_tables demo_setup))) (''u'', ''p'') = Some (demo_plan Plan_Running)"
    and step: "map_of (vs_steps (repo_view (demo_tables demo_setup))) (''u'', ''p'', ''s'') = Some (demo_step\<lparr>st_status := Step_Running, st_started := Some 6\<rparr>)"
    by code_simp+
  have "pl_status (demo_plan Plan_Running) = Plan_Running" by (simp add: demo_plan_def)
  then show ?thesis
    using plans_and_steps_move_forward [OF fresh_demo refl _ plan step, of "[Cancel_Scripts ''u'' ''c'' 8, Plan_Status ''u'' ''p'' Plan_Completed 9]"]
    by auto
qed

section \<open>Workspaces\<close>

text \<open>
  C22. No lost update, in either repository. A client that has read a workspace and patches it with the
  revision it read, after any session of other commands during which the workspace was not dropped, either
  gets the patch applied to exactly the payload it read, or is told of a replay: the stored workspace then
  already has the next revision and the patch, and nothing is written. Any other outcome is an error that
  leaves the repository as it was.
\<close>

theorem no_lost_update:
  assumes "fresh_repo start" and "a = run_all (repo_exec E) start earlier" and "owner_text user = Inr u"
    and "map_of (vs_ws (repo_view a)) (u, wid) = Some w"
    and "\<forall>k \<le> length cs. map_of (vs_ws (repo_view (run_all (repo_exec E) a (take k cs)))) (u, wid) \<noteq> None"
    and "s = run_all (repo_exec E) a cs"
  shows "case repo_patch E user wid patch (vw_rev w) now s of
      (Inl er, t) \<Rightarrow> t = s
    | (Inr w', t) \<Rightarrow>
        updated_workspace (ve_repr E) (ve_int E) patch now w = Some w' \<and> map_of (vs_ws (repo_view t)) (u, wid) = Some w' \<and> vw_rev w' = vw_rev w + 1
      \<or> t = s \<and> map_of (vs_ws (repo_view s)) (u, wid) = Some w' \<and> vw_rev w' = vw_rev w + 1 \<and> patch_replay (ve_repr E) w' patch (vw_rev w)"
proof -
  have ok: "repo_ok a" unfolding assms(2) by (rule reached_repo [OF assms(1)])
  then obtain v where v: "map_of (vs_ws (repo_view s)) (u, wid) = Some v" "ws_le w v"
    using repo.session_ws_row [OF ok assms(4,5)] assms(6) by blast
  have same: "v = w" if "vw_rev v = vw_rev w" using v(2) that by (simp add: ws_le_def)
  have "repo_ok s" unfolding assms(6) by (rule repo.session_inv [OF ok])
  from patch_of_row [OF this assms(3) v(1), where E = E and patch = patch and rv = "vw_rev w" and now = now] v(1) same
  show ?thesis by (auto simp: patch_replay_def updated_workspace_def split: prod.splits sum.splits option.splits)
qed

lemma no_lost_update_witness:
  "case repo_patch demo_video ''u'' ''w'' (JObj [(''title'', JStr ''z'')]) 1 7
      (run_all (repo_exec demo_video) (demo_tables demo_setup) [Complete_Step ''u'' (''p'', ''s'') \<lparr>sr_tool = ''t'', sr_summary = ''ok'', sr_refs = []\<rparr> 7]) of
     (Inl er, t) \<Rightarrow> False | (Inr w', t) \<Rightarrow> vw_rev w' = 2"
proof -
  let ?cs = "[Complete_Step ''u'' (''p'', ''s'') \<lparr>sr_tool = ''t'', sr_summary = ''ok'', sr_refs = []\<rparr> 7]"
  let ?r = "repo_patch demo_video ''u'' ''w'' (JObj [(''title'', JStr ''z'')]) 1 7 (run_all (repo_exec demo_video) (demo_tables demo_setup) ?cs)"
  have owner: "owner_text ''u'' = Inr ''u''" by code_simp
  have ws: "map_of (vs_ws (repo_view (demo_tables demo_setup))) (''u'', ''w'') = Some (demo_ws ''w'')" by code_simp
  have "map_of (vs_ws (repo_view (run_all (repo_exec demo_video) (demo_tables demo_setup) ?cs))) (''u'', ''w'') = Some (demo_ws ''w'')" by code_simp
  then have kept: "\<forall>k \<le> length ?cs. map_of (vs_ws (repo_view (run_all (repo_exec demo_video) (demo_tables demo_setup) (take k ?cs)))) (''u'', ''w'') \<noteq> None"
    using ws by (auto simp: le_Suc_eq)
  have r: "is_ok (fst ?r)" by code_simp
  have "vw_rev (demo_ws ''w'') = 1" by (simp add: demo_ws_def)
  then show ?thesis
    using no_lost_update [OF fresh_demo refl owner ws kept refl, of "JObj [(''title'', JStr ''z'')]" 7] r
    by (auto split: prod.splits sum.splits simp del: run_all.simps)
qed

text \<open>
  C23. A patch keeps the scenes it does not name. Whatever else a patch of a workspace changes, and also
  when it makes the old payload migrate, as long as it does not ask for \<^verbatim>\<open>scenes_replace\<close>: for both
  scene lists, a scene with an identity that the patch names is its last record in the patch, as the
  contract of the workspace strips it, and every other scene is the record the workspace had. The
  workspace is a validated one, the top-level keys of the patch have no white space around them, and
  stripping does not change which scene a record of the patch is.
\<close>

theorem patch_keeps_other_scenes:
  assumes "updated_workspace R P patch now w = Some w'" and "is_obj (vw_payload w)" and "is_obj patch"
    and "\<not> truthy (jget ''scenes_replace'' patch)" and "k \<in> {''scenes'', ''scene_packages''}" and "i \<noteq> []"
    and "contract_json (vw_payload w) = vw_payload w" and "clean_keys patch"
    and "list_all (same_name R) (objects (jget k patch))"
  shows "scene_of R (objects (jget k (vw_payload w'))) i =
    (if names_scene R i (objects (jget k patch)) then contract_json (scene_of R (objects (jget k patch)) i)
     else scene_of R (objects (jget k (vw_payload w))) i)"
proof -
  let ?old = "jget k (vw_payload w)" and ?new = "jget k patch"
  obtain j where j: "patched_payload R P patch (vw_payload w) = Some j" "vw_payload w' = contract_json j"
    using assms(1) by (auto simp: updated_workspace_def)
  have "clean_keys (vw_payload w)" using clean_keys_contract [of "vw_payload w"] assms(7) by simp
  from jget_contract [OF patched_clean [OF j(1) this assms(8)], of k] patched_scenes [OF j(1) assms(2-5)]
  have eq: "jget k (vw_payload w') =
      contract_json (if has_key k patch then JList (merge_scenes_by_id R ?old ?new) else ?old)"
    unfolding j(2) by simp
  have fixed: "contract_json ?old = ?old" by (rule jget_fixed [OF assms(7)])
  have old: "contract_json (scene_of R (objects ?old) i) = scene_of R (objects ?old) i"
    using scene_of_cases [of R "objects ?old" i] fixed_objects [OF fixed] by auto
  show ?thesis
  proof (cases "has_key k patch")
    case True
    have "list_all (same_name R) (objects ?old @ objects ?new)"
      using assms(9) fixed_objects [OF fixed] by (auto simp: list_all_iff same_name_def)
    then have names: "list_all (same_name R) (merge_scenes_by_id R ?old ?new)"
      by (rule merge_scenes_all)
    have "scene_of R (objects (jget k (vw_payload w'))) i = contract_json (scene_of R (merge_scenes_by_id R ?old ?new) i)"
      using True unfolding eq by (simp only: if_True objects_contract merge_objects scene_of_contract [OF names])
    then show ?thesis using old scene_of_merge [OF assms(6), of R ?old ?new] by simp
  next
    case False
    then have "objects ?new = []" using assms(3) by (cases patch) (auto simp: has_key_def objects_def split: option.splits)
    then show ?thesis using False unfolding eq fixed by (simp add: names_scene_def fixed)
  qed
qed

lemma patch_keeps_other_scenes_witness:
  "\<exists>w'. updated_workspace (\<lambda>j. []) (\<lambda>t. None) (JObj [(''scenes'', JList [demo_scene ''b'' ''z''])]) 7 (demo_ws ''w'') = Some w' \<and>
     scene_of (\<lambda>j. []) (objects (jget ''scenes'' (vw_payload w'))) ''a'' = demo_scene ''a'' ''x''"
proof -
  let ?patch = "JObj [(''scenes'', JList [demo_scene ''b'' ''z''])]"
  have "updated_workspace (\<lambda>j. []) (\<lambda>t. None) ?patch 7 (demo_ws ''w'') \<noteq> None" by code_simp
  then obtain w' where w': "updated_workspace (\<lambda>j. []) (\<lambda>t. None) ?patch 7 (demo_ws ''w'') = Some w'" by blast
  have side: "is_obj (vw_payload (demo_ws ''w''))" "is_obj ?patch" "\<not> truthy (jget ''scenes_replace'' ?patch)"
    "\<not> names_scene (\<lambda>j. []) ''a'' (objects (jget ''scenes'' ?patch))"
    "scene_of (\<lambda>j. []) (objects (jget ''scenes'' (vw_payload (demo_ws ''w'')))) ''a'' = demo_scene ''a'' ''x''"
    "contract_json (vw_payload (demo_ws ''w'')) = vw_payload (demo_ws ''w'')" "clean_keys ?patch"
    "list_all (same_name (\<lambda>j. [])) (objects (jget ''scenes'' ?patch))"
    by code_simp+
  have "scene_of (\<lambda>j. []) (objects (jget ''scenes'' (vw_payload w'))) ''a'' = demo_scene ''a'' ''x''"
    using patch_keeps_other_scenes [OF w' side(1-3) _ _ side(6-8), of "''a''"] side(4,5) by (simp del: jget.simps)
  then show ?thesis using w' by blast
qed

section \<open>Where the contract breaks\<close>

text \<open>
  The replay of a patch with white space around a text is refused. The stored payload is stripped, and
  \<^verbatim>\<open>_is_workspace_patch_replay\<close> compares it with the patch as it was sent: the client that
  repeats its call is told that the revision has changed.
\<close>

lemma padded_patch_is_no_replay:
  "let patch = JObj [(''title'', JStr '' z '')]; a = demo_tables demo_setup; b = snd (repo_patch demo_video ''u'' ''w'' patch 1 7 a)
   in is_ok (fst (repo_patch demo_video ''u'' ''w'' patch 1 7 a)) \<and>
      map_option (\<lambda>w. jget ''title'' (vw_payload w)) (map_of (vs_ws (repo_view b)) (''u'', ''w'')) = Some (JStr ''z'') \<and>
      fst (repo_patch demo_video ''u'' ''w'' patch 1 8 b) = Inl Vw_Conflict"
  by code_simp

text \<open>
  A failure that is refused leaves its step failed. The documentation of \<^verbatim>\<open>fail_step_with_event\<close>
  puts the failed step and its event in one critical section; but the step is written before the status of
  the plan is checked, outside the rollback. When a plan has ended while one of its steps is still running,
  reporting the failure of that step raises, and the step is stored as failed all the same, with no event.
\<close>

lemma refused_failure_leaves_step_failed:
  assumes "\<not> vs_stuck s" and "owner_text user = Inr u"
    and "map_of (vs_steps s) (u, ids) = Some x" and "st_status x = Step_Running"
    and "map_of (vs_plans s) (u, fst ids) = Some p" and "pl_status p \<in> {Plan_Completed, Plan_Cancelled, Waiting_For_Input}"
  shows "fail_step_with_event E user ids reason summary run now s es =
    (Inl Vw_Conflict, set_step u (x\<lparr>st_status := Step_Failed, st_summary := Some summary, st_done := Some now\<rparr>) ids s, es)"
  using assms by (auto simp: fail_step_with_event_def failed_step_def plan_may_move_def)

lemma fail_command_store:
  "fst (snd (video_exec E a (Fail_With_Event user ids reason summary run now))) =
     fst (snd (fail_step_with_event E user ids reason summary run now (fst a) (snd a)))"
  by (cases a) simp

lemma refused_failure_leaves_step_failed_witness:
  "\<exists>s y. fst (snd (video_exec demo_video (demo_state (demo_setup @ [Plan_Status ''u'' ''p'' Plan_Cancelled 7]))
        (Fail_With_Event ''u'' (''p'', ''s'') ''provider_error'' ''failed'' ''r'' 8))) = s \<and>
     map_of (vs_steps s) (''u'', ''p'', ''s'') = Some y \<and> st_status y = Step_Failed"
proof -
  let ?s = "fst (demo_state (demo_setup @ [Plan_Status ''u'' ''p'' Plan_Cancelled 7]))"
  let ?x = "demo_step\<lparr>st_status := Step_Running, st_started := Some 6\<rparr>"
  have owner: "owner_text ''u'' = Inr ''u''" by code_simp
  have free: "\<not> vs_stuck ?s" by code_simp
  have step: "map_of (vs_steps ?s) (''u'', ''p'', ''s'') = Some ?x" by code_simp
  have running: "st_status ?x = Step_Running" by simp
  have "map_option pl_status (map_of (vs_plans ?s) (''u'', fst (''p'', ''s''))) = Some Plan_Cancelled" by code_simp
  then obtain p where p: "map_of (vs_plans ?s) (''u'', fst (''p'', ''s'')) = Some p" "pl_status p = Plan_Cancelled" by blast
  then have ended: "pl_status p \<in> {Plan_Completed, Plan_Cancelled, Waiting_For_Input}" by simp
  show ?thesis
    unfolding fail_command_store
    by (subst refused_failure_leaves_step_failed [OF free owner step running p(1) ended]) simp
qed

text \<open>
  Cancelling the waiting plans of a conversation with an orphan workspace hangs. The method holds the
  transition lock and lists the plans of the conversation, which discards orphan workspaces and for that
  waits for the same lock; it is not reentrant. The call never returns, and after any session of further
  calls the completion of a step, which needs the lock, never returns either (unless the hanging task is
  cancelled from outside).
\<close>

lemma orphan_workspace_hangs_cancellation:
  assumes "\<not> vs_stuck s" and "owner_text user = Inr u" and "video_ok s"
    and "pick_workspace (ve_uuid E) (py_strip conv) (planned_ids u (py_strip conv) s) (conv_workspaces u (py_strip conv) s) = Inr best"
    and "w \<in> set (conv_workspaces u (py_strip conv) s)" and "vw_id w \<noteq> vw_id best" and "vw_id w \<notin> set (planned_ids u (py_strip conv) s)"
  shows "fst (video_exec E (s, es) (Cancel_Waiting user conv exclude now)) = Inl Hangs \<and>
    fst (video_exec E (run_all (video_exec E) (snd (video_exec E (s, es) (Cancel_Waiting user conv exclude now))) cs)
      (Complete_With_Event user' ids r run now')) = Inl Hangs"
proof -
  let ?c = "py_strip conv"
  have "orphans_of best (planned_ids u ?c s) (conv_workspaces u ?c s) \<noteq> []"
    using assms(5-7) by (auto simp: orphans_of_def filter_empty_conv)
  moreover have "conv_workspaces u ?c s \<noteq> []" using assms(5) by auto
  ultimately have "settle_workspace (ve_uuid E) True u ?c s = (Inl Hangs, s\<lparr>vs_stuck := True\<rparr>)"
    using assms(4) by (simp add: settle_workspace_def Let_def)
  then have cancel: "cancel_waiting_for_input_plans (ve_uuid E) user conv exclude now s = (Inl Hangs, s\<lparr>vs_stuck := True\<rparr>)"
    using assms(1,2) by (simp add: cancel_waiting_for_input_plans_def conversation_plans_def with_lock_def Let_def)
  let ?w = "(s\<lparr>vs_stuck := True\<rparr>, es)"
  have "video_ok (fst ?w)" using assms(3) by (simp add: video_ok_def)
  then have "changes UNIV (fst ?w) (fst (run_all (video_exec E) ?w cs))" by (rule mem_video.session_changes) simp
  then have "vs_stuck (fst (run_all (video_exec E) ?w cs))" by (rule stuck_for_good) simp
  then have "fst (video_exec E (run_all (video_exec E) ?w cs) (Complete_With_Event user' ids r run now')) = Inl Hangs"
    by (cases "run_all (video_exec E) ?w cs") (simp add: complete_step_with_event_def change_with_event_def event_outcome_def)
  then show ?thesis using cancel by (simp add: outcome_def)
qed

lemma orphan_workspace_hangs_cancellation_witness:
  "fst (video_exec demo_video (fst (demo_state [Create_Workspace ''u'' 5 (demo_ws ''w''), Create_Workspace ''u'' 5 (demo_ws ''v'')]), ())
     (Cancel_Waiting ''u'' ''c'' None 7)) = Inl Hangs"
proof -
  let ?s = "fst (demo_state [Create_Workspace ''u'' 5 (demo_ws ''w''), Create_Workspace ''u'' 5 (demo_ws ''v'')])"
  have owner: "owner_text ''u'' = Inr ''u''" by code_simp
  have free: "\<not> vs_stuck ?s" by code_simp
  have best: "pick_workspace (ve_uuid demo_video) (py_strip ''c'') (planned_ids ''u'' (py_strip ''c'') ?s) (conv_workspaces ''u'' (py_strip ''c'') ?s) = Inr (demo_ws ''w'')"
    by code_simp
  have orphan: "list_ex (\<lambda>w. w = demo_ws ''v'') (conv_workspaces ''u'' (py_strip ''c'') ?s)" by code_simp
  have other: "vw_id (demo_ws ''v'') \<noteq> vw_id (demo_ws ''w'')" "vw_id (demo_ws ''v'') \<notin> set (planned_ids ''u'' (py_strip ''c'') ?s)"
    by code_simp+
  have "demo_ws ''v'' \<in> set (conv_workspaces ''u'' (py_strip ''c'') ?s)" using orphan unfolding list_ex_iff by blast
  from orphan_workspace_hangs_cancellation [OF free owner reached_ok best this other] show ?thesis by blast
qed

text \<open>
  A cancelled plan can be overwritten by a writer that has not seen the cancellation. The cancellations
  do not count up the revision of a plan, so the compare-and-set of \<^verbatim>\<open>save_plan\<close> cannot notice them:
  there is a session in which a waiting plan of revision 1 is cancelled, a save that expects revision 1
  succeeds afterwards, and the plan is running again.
\<close>

lemma cancelled_plan_is_revived:
  "\<exists>cs save. map_option (\<lambda>p. (pl_rev p, pl_status p)) (map_of (vs_plans (fst (demo_state cs))) (''u'', ''p'')) = Some (1, Plan_Cancelled) \<and>
     (\<exists>p steps. save = Save_Plan ''u'' p steps (Some 1) 8) \<and> is_ok (fst (video_exec demo_video (demo_state cs) save)) \<and>
     map_option pl_status (map_of (vs_plans (fst (snd (video_exec demo_video (demo_state cs) save)))) (''u'', ''p'')) = Some Plan_Running"
proof (intro exI conjI)
  let ?cs = "[Create_Workspace ''u'' 5 (demo_ws ''w''), Save_Plan ''u'' (demo_plan Waiting_For_Input) [] None 5, Cancel_Waiting ''u'' ''c'' None 7]"
  show "map_option (\<lambda>p. (pl_rev p, pl_status p)) (map_of (vs_plans (fst (demo_state ?cs))) (''u'', ''p'')) = Some (1, Plan_Cancelled)"
    by code_simp
  show "is_ok (fst (video_exec demo_video (demo_state ?cs) (Save_Plan ''u'' (demo_plan Plan_Running) [] (Some 1) 8)))" by code_simp
  show "map_option pl_status (map_of (vs_plans (fst (snd (video_exec demo_video (demo_state ?cs)
      (Save_Plan ''u'' (demo_plan Plan_Running) [] (Some 1) 8))))) (''u'', ''p'')) = Some Plan_Running" by code_simp
qed (rule refl)

text \<open>
  A step that needs the user's confirmation starts without it in SQL. \<^verbatim>\<open>start_step\<close> refuses such
  a step in both repositories, and \<^verbatim>\<open>start_step_with_event\<close> in the memory; the SQL transaction behind
  \<^verbatim>\<open>start_step_with_event\<close> looks at the status alone. After one and the same session, in which nobody
  has confirmed the pending step, the memory refuses the call and keeps the step, and SQL makes it run.
\<close>

lemma sql_starts_unconfirmed_step:
  "\<exists>cs c x. c = Start_With_Event ''u'' (''p'', ''s'') ''r'' 6 \<and> st_status x = Step_Pending \<and> st_confirm x \<and>
     map_of (vs_steps (fst (demo_state cs))) (''u'', ''p'', ''s'') = Some x \<and>
     map_of (vs_steps (repo_view (demo_tables cs))) (''u'', ''p'', ''s'') = Some x \<and>
     fst (repo_exec demo_video (demo_tables cs) (Start_Step ''u'' (''p'', ''s'') 6)) = Inl Vw_Conflict \<and>
     fst (video_exec demo_video (demo_state cs) c) = Inl Vw_Conflict \<and>
     map_of (vs_steps (fst (snd (video_exec demo_video (demo_state cs) c)))) (''u'', ''p'', ''s'') = Some x \<and>
     is_ok (fst (repo_exec demo_video (demo_tables cs) c)) \<and>
     map_option st_status (map_of (vs_steps (repo_view (snd (repo_exec demo_video (demo_tables cs) c)))) (''u'', ''p'', ''s'')) = Some Step_Running"
proof (intro exI conjI)
  let ?x = "demo_step\<lparr>st_confirm := True\<rparr>"
  let ?cs = "[Create_Workspace ''u'' 5 (demo_ws ''w''), Save_Plan ''u'' (demo_plan Plan_Running) [?x] None 5]"
  let ?c = "Start_With_Event ''u'' (''p'', ''s'') ''r'' 6"
  show "st_status ?x = Step_Pending" "st_confirm ?x" by (simp_all add: demo_step_def)
  show "map_of (vs_steps (fst (demo_state ?cs))) (''u'', ''p'', ''s'') = Some ?x"
    "map_of (vs_steps (repo_view (demo_tables ?cs))) (''u'', ''p'', ''s'') = Some ?x" by code_simp+
  show "fst (repo_exec demo_video (demo_tables ?cs) (Start_Step ''u'' (''p'', ''s'') 6)) = Inl Vw_Conflict" by code_simp
  show "fst (video_exec demo_video (demo_state ?cs) ?c) = Inl Vw_Conflict" by code_simp
  show "map_of (vs_steps (fst (snd (video_exec demo_video (demo_state ?cs) ?c)))) (''u'', ''p'', ''s'') = Some ?x" by code_simp
  show "is_ok (fst (repo_exec demo_video (demo_tables ?cs) ?c))" by code_simp
  show "map_option st_status (map_of (vs_steps (repo_view (snd (repo_exec demo_video (demo_tables ?cs) ?c)))) (''u'', ''p'', ''s'')) = Some Step_Running"
    by code_simp
qed (rule refl)

end
