(* ===== verification/Turn_Queue.thy ===== *)
theory Turn_Queue
  imports Gateway_Outbox
begin

text \<open>
  The queue of the user's inputs (turns) of a conversation and the lease under which its context is
  compacted (\<^verbatim>\<open>agent_control_plane/persistence/compaction_queue.py\<close> and the turn methods of
  \<^verbatim>\<open>repositories.py\<close>): the records and the repository in memory. Tokens and event identities that
  the code draws from \<^verbatim>\<open>uuid4\<close> are arguments.
\<close>

section \<open>Records\<close>

datatype turn_status = Turn_Accepted | Turn_Queued | Turn_Processing | Turn_Waiting_User | Turn_Completed | Turn_Failed

record turn =
  tn_id :: string
  tn_conv :: string
  tn_client :: string
  tn_status :: turn_status
  tn_target :: "string option"
  tn_version :: nat
  tn_created :: time

definition waiting :: "turn_status \<Rightarrow> bool" where
  "waiting st = (st \<in> {Turn_Accepted, Turn_Queued})"

definition optional_text :: "nat \<Rightarrow> string option \<Rightarrow> gw_error + string option" where
  "optional_text n t = (case t of None \<Rightarrow> Inr None | Some s \<Rightarrow> bind_result (require_text n s) (\<lambda>r. Inr (Some r)))"

definition normalize_turn :: "turn \<Rightarrow> gw_error + turn" where
  "normalize_turn x =
     bind_result (require_text 64 (tn_id x)) (\<lambda>i. bind_result (require_text 64 (tn_conv x)) (\<lambda>c.
     bind_result (optional_text 64 (tn_target x)) (\<lambda>w. Inr (x\<lparr>tn_id := i, tn_conv := c, tn_target := w\<rparr>))))"

definition checked_turn :: "string \<Rightarrow> turn \<Rightarrow> gw_error + string \<times> turn" where
  "checked_turn user x = bind_result (require_text 64 user) (\<lambda>u. bind_result (normalize_turn x) (\<lambda>y. Inr (u, y)))"

definition execution_turn :: "turn \<Rightarrow> gw_error + turn" where
  "execution_turn x = bind_result (normalize_turn x) (\<lambda>y. if waiting (tn_status y) then Inr y else Inl Bad_Text)"

record lease =
  ls_worker :: string
  ls_token :: string
  ls_until :: time

text \<open>While a conversation is compacted a new turn can only be queued.\<close>

definition held_turn :: "bool \<Rightarrow> turn \<Rightarrow> gw_error + turn" where
  "held_turn held x =
     (if \<not> held then Inr x else if \<not> waiting (tn_status x) then Inl Record_Conflict else Inr (x\<lparr>tn_status := Turn_Queued\<rparr>))"

definition lease_fits :: "string \<Rightarrow> string \<Rightarrow> string \<Rightarrow> time \<Rightarrow> (string \<times> lease) option \<Rightarrow> bool" where
  "lease_fits u w token now st =
     (case st of None \<Rightarrow> False | Some (v, l) \<Rightarrow> v = u \<and> ls_worker l = w \<and> ls_token l = token \<and> now < ls_until l)"

text \<open>\<open>claim_next\<close> is exclusive with a time before which the compaction is not tried again.\<close>

definition finish_parameters :: "string \<Rightarrow> time \<Rightarrow> bool \<Rightarrow> time option \<Rightarrow> gw_error + string" where
  "finish_parameters worker now claim retry =
     bind_result (require_text 128 worker) (\<lambda>w.
       if claim then (if retry = None then Inr w else Inl Bad_Window)
       else (case retry of None \<Rightarrow> Inl Bad_Window | Some r \<Rightarrow> if r \<le> now then Inl Bad_Window else Inr w))"

definition terminal_event ::
  "nat \<Rightarrow> string \<Rightarrow> string \<Rightarrow> time \<Rightarrow> string \<Rightarrow> json \<Rightarrow> string \<Rightarrow> gw_error + agent_event" where
  "terminal_event sequence conv run now ty payload fresh =
     (if ty \<notin> {''context.compression_completed'', ''context.compression_failed''} then Inl Bad_Text
      else bind_result (require_text 64 run) (\<lambda>r.
        normalize_event \<lparr>ae_id = ''evt_'' @ fresh, ae_seq = sequence, ae_cursor = ''cursor_'' @ fresh, ae_conv = conv,
          ae_run = r, ae_time = now, ae_type = ty, ae_payload = payload\<rparr>))"

section \<open>In memory\<close>

record mem_queue =
  mq_turns :: "(string \<times> string, turn) dict"
  mq_ids :: "string list"
  mq_seqs :: "(string \<times> string, nat) dict"
  mq_clients :: "(string \<times> string, string \<times> string) dict"
  mq_next :: nat
  mq_leases :: "(string, string \<times> lease) dict"
  mq_other :: "(string \<times> string) list"
  mq_events :: mem_events

type_synonym 'a mq_result = "(gw_error + 'a) \<times> mem_queue"

definition mem_insert_turn :: "string \<Rightarrow> turn \<Rightarrow> mem_queue \<Rightarrow> turn mq_result" where
  "mem_insert_turn user x s =
     (case checked_turn user x of
        Inl er \<Rightarrow> (Inl er, s)
      | Inr (u, y) \<Rightarrow>
          if tn_id y \<in> set (mq_ids s) \<or> map_of (mq_clients s) (tn_conv y, tn_client y) \<noteq> None then (Inl Record_Conflict, s)
          else (Inr y, s\<lparr>mq_ids := mq_ids s @ [tn_id y],
                  mq_clients := AList.update (tn_conv y, tn_client y) (u, tn_id y) (mq_clients s),
                  mq_turns := AList.update (u, tn_id y) y (mq_turns s),
                  mq_seqs := AList.update (u, tn_id y) (mq_next s) (mq_seqs s), mq_next := mq_next s + 1\<rparr>))"

definition foreign_lease :: "string \<Rightarrow> string \<Rightarrow> mem_queue \<Rightarrow> bool" where
  "foreign_lease u c s = (case map_of (mq_leases s) c of None \<Rightarrow> False | Some (v, l) \<Rightarrow> v \<noteq> u)"

text \<open>The turn a client input was stored as, or a new row.\<close>

definition mem_known_or_new :: "string \<Rightarrow> turn \<Rightarrow> mem_queue \<Rightarrow> turn mq_result" where
  "mem_known_or_new u x s =
     (case map_of (mq_clients s) (tn_conv x, tn_client x) of
        Some k \<Rightarrow>
          if fst k \<noteq> u then (Inl Record_Conflict, s)
          else (case map_of (mq_turns s) k of None \<Rightarrow> (Inl No_Row, s) | Some y \<Rightarrow> (Inr y, s))
      | None \<Rightarrow> mem_insert_turn u x s)"

definition mem_create_turn :: "string \<Rightarrow> turn \<Rightarrow> mem_queue \<Rightarrow> turn mq_result" where
  "mem_create_turn user x s =
     (case checked_turn user x of
        Inl er \<Rightarrow> (Inl er, s)
      | Inr (u, y) \<Rightarrow>
          if foreign_lease u (tn_conv y) s then (Inl Record_Conflict, s)
          else (case held_turn (map_of (mq_leases s) (tn_conv y) \<noteq> None) y of
                  Inl er \<Rightarrow> (Inl er, s)
                | Inr z \<Rightarrow> mem_insert_turn u z s))"

definition mem_enqueue_turn :: "string \<Rightarrow> turn \<Rightarrow> mem_queue \<Rightarrow> turn mq_result" where
  "mem_enqueue_turn user x s =
     (case checked_turn user x of
        Inl er \<Rightarrow> (Inl er, s)
      | Inr (u, y) \<Rightarrow>
          if foreign_lease u (tn_conv y) s then (Inl Record_Conflict, s)
          else (case held_turn (map_of (mq_leases s) (tn_conv y) \<noteq> None) y of
                  Inl er \<Rightarrow> (Inl er, s)
                | Inr z \<Rightarrow> mem_known_or_new u z s))"

definition mem_any_turn :: "(turn \<Rightarrow> bool) \<Rightarrow> string \<Rightarrow> string \<Rightarrow> mem_queue \<Rightarrow> bool" where
  "mem_any_turn P u c s = list_ex (\<lambda>((v, i), x). v = u \<and> tn_conv x = c \<and> P x) (mq_turns s)"

definition busy :: "turn \<Rightarrow> bool" where
  "busy x = (tn_status x = Turn_Processing)"

definition mem_enqueue_turn_for_execution :: "string \<Rightarrow> turn \<Rightarrow> mem_queue \<Rightarrow> turn mq_result" where
  "mem_enqueue_turn_for_execution user x s =
     (case bind_result (require_text 64 user) (\<lambda>u. bind_result (execution_turn x) (\<lambda>y. Inr (u, y))) of
        Inl er \<Rightarrow> (Inl er, s)
      | Inr (u, y) \<Rightarrow>
          if foreign_lease u (tn_conv y) s then (Inl Record_Conflict, s)
          else
            (let st = (if map_of (mq_leases s) (tn_conv y) \<noteq> None \<or>
                          mem_any_turn (\<lambda>t. tn_status t \<in> {Turn_Accepted, Turn_Processing}) u (tn_conv y) s
                       then Turn_Queued else Turn_Accepted)
             in mem_known_or_new u (y\<lparr>tn_status := st\<rparr>) s))"

definition mem_get_turn :: "string \<Rightarrow> string \<Rightarrow> mem_queue \<Rightarrow> gw_error + turn option" where
  "mem_get_turn user i s =
     bind_result (require_text 64 user) (\<lambda>u. bind_result (require_text 64 i) (\<lambda>k. Inr (map_of (mq_turns s) (u, k))))"

definition mem_get_turn_by_client :: "string \<Rightarrow> string \<Rightarrow> string \<Rightarrow> mem_queue \<Rightarrow> gw_error + turn option" where
  "mem_get_turn_by_client user conv client s =
     bind_result (require_text 64 user) (\<lambda>u. bind_result (require_text 64 conv) (\<lambda>c.
       Inr (map_option snd (List.find (\<lambda>((v, i), x). v = u \<and> tn_conv x = c \<and> tn_client x = client) (mq_turns s)))))"

text \<open>Keys of the turns of an owner in a conversation, in the order in which they were stored.\<close>

definition turn_seq :: "mem_queue \<Rightarrow> string \<times> string \<Rightarrow> nat" where
  "turn_seq s k = (case map_of (mq_seqs s) k of None \<Rightarrow> 0 | Some n \<Rightarrow> n)"

definition mem_turn_keys :: "(turn \<Rightarrow> bool) \<Rightarrow> string \<Rightarrow> string \<Rightarrow> mem_queue \<Rightarrow> (string \<times> string) list" where
  "mem_turn_keys P u c s =
     sort_key (turn_seq s) (map fst (filter (\<lambda>((v, i), x). v = u \<and> tn_conv x = c \<and> P x) (mq_turns s)))"

definition mem_list_turns :: "string \<Rightarrow> string \<Rightarrow> mem_queue \<Rightarrow> gw_error + turn list" where
  "mem_list_turns user conv s =
     bind_result (require_text 64 user) (\<lambda>u. bind_result (require_text 64 conv) (\<lambda>c.
       Inr (map (\<lambda>k. the (map_of (mq_turns s) k)) (mem_turn_keys (\<lambda>x. True) u c s))))"

definition put_turn :: "string \<times> string \<Rightarrow> turn_status \<Rightarrow> mem_queue \<Rightarrow> mem_queue" where
  "put_turn k st s =
     (case map_of (mq_turns s) k of
        None \<Rightarrow> s
      | Some x \<Rightarrow> s\<lparr>mq_turns := AList.update k (x\<lparr>tn_status := st\<rparr>) (mq_turns s)\<rparr>)"

definition mem_start_turn :: "(string \<times> string) list \<Rightarrow> mem_queue \<Rightarrow> turn option \<times> mem_queue" where
  "mem_start_turn keys s =
     (case keys of
        [] \<Rightarrow> (None, s)
      | k # ks \<Rightarrow> (let t = put_turn k Turn_Processing s in (map_of (mq_turns t) k, t)))"

definition mem_claim_next_turn :: "string \<Rightarrow> string \<Rightarrow> mem_queue \<Rightarrow> turn option mq_result" where
  "mem_claim_next_turn user conv s =
     (case require_text 64 conv of
        Inl er \<Rightarrow> (Inl er, s)
      | Inr c \<Rightarrow>
          if map_of (mq_leases s) c \<noteq> None then (Inr None, s)
          else (case require_text 64 user of
             Inl er \<Rightarrow> (Inl er, s)
           | Inr u \<Rightarrow>
               if mem_any_turn busy u c s then (Inr None, s)
               else (case mem_start_turn (mem_turn_keys (\<lambda>x. waiting (tn_status x)) u c s) s of (r, t) \<Rightarrow> (Inr r, t))))"

subsection \<open>The compaction lease\<close>

definition hold_turns :: "string \<Rightarrow> string \<Rightarrow> mem_queue \<Rightarrow> mem_queue" where
  "hold_turns u c s =
     s\<lparr>mq_turns := map (\<lambda>((v, i), x). ((v, i),
          if v = u \<and> tn_conv x = c \<and> tn_status x = Turn_Accepted then x\<lparr>tn_status := Turn_Queued\<rparr> else x)) (mq_turns s)\<rparr>"

definition mem_acquire_compaction_lease ::
  "string \<Rightarrow> string \<Rightarrow> string \<Rightarrow> time \<Rightarrow> time \<Rightarrow> string \<Rightarrow> mem_queue \<Rightarrow> lease option mq_result" where
  "mem_acquire_compaction_lease user conv worker now until token s =
     (case bind_result (require_text 64 user) (\<lambda>u. bind_result (require_text 64 conv) (\<lambda>c.
             bind_result (lease_window worker now until) (\<lambda>w. Inr (u, c, w)))) of
        Inl er \<Rightarrow> (Inl er, s)
      | Inr (u, c, w) \<Rightarrow>
          if foreign_lease u c s then (Inl Record_Conflict, s)
          else if (case map_of (mq_leases s) c of None \<Rightarrow> False | Some (v, l) \<Rightarrow> now < ls_until l) then (Inr None, s)
          else if mem_any_turn busy u c s then (Inr None, s)
          else (let l = \<lparr>ls_worker = w, ls_token = token, ls_until = until\<rparr> in
                (Inr (Some l), (hold_turns u c s)\<lparr>mq_leases := AList.update c (u, l) (mq_leases s)\<rparr>)))"

definition mem_get_compaction_lease :: "string \<Rightarrow> string \<Rightarrow> mem_queue \<Rightarrow> gw_error + lease option" where
  "mem_get_compaction_lease user conv s =
     bind_result (require_text 64 user) (\<lambda>u. bind_result (require_text 64 conv) (\<lambda>c.
       Inr (case map_of (mq_leases s) c of None \<Rightarrow> None | Some (v, l) \<Rightarrow> if v \<noteq> u then None else Some l)))"

text \<open>The next turn after a completion is the oldest by \<^verbatim>\<open>created_at\<close>, not by its place in the queue.\<close>

definition mem_oldest_waiting :: "string \<Rightarrow> string \<Rightarrow> mem_queue \<Rightarrow> (string \<times> string) list" where
  "mem_oldest_waiting u c s =
     map fst (sort_key (\<lambda>(k, x). (tn_created x, tn_id x))
       (filter (\<lambda>((v, i), x). v = u \<and> tn_conv x = c \<and> waiting (tn_status x)) (mq_turns s)))"

definition mem_complete_turn_and_claim_next ::
  "string \<Rightarrow> string \<Rightarrow> string \<Rightarrow> mem_queue \<Rightarrow> (turn \<times> turn option) mq_result" where
  "mem_complete_turn_and_claim_next user conv tid s =
     (case bind_result (require_text 64 user) (\<lambda>u. bind_result (require_text 64 conv) (\<lambda>c.
             bind_result (require_text 64 tid) (\<lambda>i. Inr (u, c, i)))) of
        Inl er \<Rightarrow> (Inl er, s)
      | Inr (u, c, i) \<Rightarrow>
          (case map_of (mq_turns s) (u, i) of
             None \<Rightarrow> (Inl Record_Conflict, s)
           | Some x \<Rightarrow>
               if tn_conv x \<noteq> c \<or> tn_status x \<notin> {Turn_Accepted, Turn_Processing, Turn_Completed} then (Inl Record_Conflict, s)
               else
                 (let t = put_turn (u, i) Turn_Completed s; y = x\<lparr>tn_status := Turn_Completed\<rparr> in
                  if map_of (mq_leases s) c \<noteq> None \<or> mem_any_turn busy u c t then (Inr (y, None), t)
                  else (case mem_start_turn (mem_oldest_waiting u c t) t of (r, t') \<Rightarrow> (Inr (y, r), t')))))"

text \<open>Closing the lease: it ends and the first turn starts, or it stays until the time of the next try.\<close>

definition mem_close_lease ::
  "string \<Rightarrow> string \<Rightarrow> bool \<Rightarrow> time option \<Rightarrow> mem_queue \<Rightarrow> turn option \<times> mem_queue" where
  "mem_close_lease u c claim retry s =
     (if claim
      then mem_start_turn (mem_turn_keys (\<lambda>x. waiting (tn_status x)) u c s) (s\<lparr>mq_leases := AList.delete c (mq_leases s)\<rparr>)
      else (case (map_of (mq_leases s) c, retry) of
              (Some (v, l), Some r) \<Rightarrow> (None, s\<lparr>mq_leases := AList.update c (u, l\<lparr>ls_until := r\<rparr>) (mq_leases s)\<rparr>)
            | _ \<Rightarrow> (None, s)))"

definition mem_finish_compaction ::
  "string \<Rightarrow> string \<Rightarrow> string \<Rightarrow> string \<Rightarrow> time \<Rightarrow> bool \<Rightarrow> time option \<Rightarrow> mem_queue \<Rightarrow> turn option mq_result" where
  "mem_finish_compaction user conv worker token now claim retry s =
     (case bind_result (require_text 64 user) (\<lambda>u. bind_result (require_text 64 conv) (\<lambda>c.
             bind_result (finish_parameters worker now claim retry) (\<lambda>w. Inr (u, c, w)))) of
        Inl er \<Rightarrow> (Inl er, s)
      | Inr (u, c, w) \<Rightarrow>
          if \<not> lease_fits u w token now (map_of (mq_leases s) c) \<or> (claim \<and> mem_any_turn busy u c s) then (Inl Lease_Conflict, s)
          else (case mem_close_lease u c claim retry s of (r, t) \<Rightarrow> (Inr r, t)))"

text \<open>The other tables of the repository that own a conversation, for the numbering of its events.\<close>

definition mem_queue_events :: "mem_queue \<Rightarrow> mem_events" where
  "mem_queue_events s = (mq_events s)\<lparr>me_other := mq_other s @ map (\<lambda>((u, i), x). (tn_conv x, u)) (mq_turns s)\<rparr>"

definition mem_queue_create_event :: "string \<Rightarrow> agent_event \<Rightarrow> mem_queue \<Rightarrow> agent_event mq_result" where
  "mem_queue_create_event user e s =
     (case mem_create_event user e (mem_queue_events s) of (r, es) \<Rightarrow> (r, s\<lparr>mq_events := es\<rparr>))"

definition mem_finish_compaction_with_event ::
  "string \<Rightarrow> string \<Rightarrow> string \<Rightarrow> string \<Rightarrow> time \<Rightarrow> bool \<Rightarrow> time option \<Rightarrow> string \<Rightarrow> string \<Rightarrow> json \<Rightarrow> string
   \<Rightarrow> mem_queue \<Rightarrow> (turn option \<times> agent_event) mq_result" where
  "mem_finish_compaction_with_event user conv worker token now claim retry run ty payload fresh s =
     (case bind_result (require_text 64 user) (\<lambda>u. bind_result (require_text 64 conv) (\<lambda>c.
             bind_result (finish_parameters worker now claim retry) (\<lambda>w. Inr (u, c, w)))) of
        Inl er \<Rightarrow> (Inl er, s)
      | Inr (u, c, w) \<Rightarrow>
          if \<not> lease_fits u w token now (map_of (mq_leases s) c) \<or> (claim \<and> mem_any_turn busy u c s) then (Inl Lease_Conflict, s)
          else
            (let es = mq_events s in
             if list_ex (\<lambda>((v, i), e). ae_conv e = c \<and> v \<noteq> u) (me_events es) then (Inl Record_Conflict, s)
             else (case terminal_event (case mem_conversation c es of [] \<Rightarrow> 1 | rs \<Rightarrow> fold max (map ae_seq rs) 0 + 1)
                          c run now ty payload fresh of
                Inl er \<Rightarrow> (Inl er, s)
              | Inr e \<Rightarrow>
                  if ae_id e \<in> set (me_ids es) \<or> (ae_conv e, ae_seq e) \<in> set (me_seqs es) \<or> (ae_conv e, ae_cursor e) \<in> set (me_cursors es)
                  then (Inl Record_Conflict, s)
                  else (case mem_close_lease u c claim retry s of (r, t) \<Rightarrow>
                    (Inr (r, e), t\<lparr>mq_events := es\<lparr>me_ids := me_ids es @ [ae_id e], me_seqs := me_seqs es @ [(ae_conv e, ae_seq e)],
                        me_cursors := me_cursors es @ [(ae_conv e, ae_cursor e)],
                        me_events := AList.update (u, ae_id e) e (me_events es),
                        me_delivery := AList.update (u, ae_id e) fresh_delivery (me_delivery es)\<rparr>\<rparr>)))))"

section \<open>Commands\<close>

datatype queue_cmd =
    Create_Turn string turn
  | Enqueue_Turn string turn
  | Enqueue_For_Execution string turn
  | Claim_Turn string string
  | Complete_Turn string string string
  | Prepare_Conversation string string
  | Acquire_Lease string string string time time string
  | Finish_Compaction string string string string time bool "time option"
  | Finish_With_Event string string string string time bool "time option" string string json string
  | Create_Queue_Event string agent_event

definition done_result :: "(gw_error + 'a) \<times> 's \<Rightarrow> (gw_error + unit) \<times> 's" where
  "done_result r = (case r of (v, s) \<Rightarrow> (case v of Inl er \<Rightarrow> Inl er | Inr _ \<Rightarrow> Inr (), s))"

lemma done_result_state [simp]: "snd (done_result r) = snd r"
  by (simp add: done_result_def split: prod.splits)

fun mem_queue_exec :: "mem_queue \<Rightarrow> queue_cmd \<Rightarrow> (gw_error + unit) \<times> mem_queue" where
  "mem_queue_exec s (Create_Turn user x) = done_result (mem_create_turn user x s)"
| "mem_queue_exec s (Enqueue_Turn user x) = done_result (mem_enqueue_turn user x s)"
| "mem_queue_exec s (Enqueue_For_Execution user x) = done_result (mem_enqueue_turn_for_execution user x s)"
| "mem_queue_exec s (Claim_Turn user conv) = done_result (mem_claim_next_turn user conv s)"
| "mem_queue_exec s (Complete_Turn user conv tid) = done_result (mem_complete_turn_and_claim_next user conv tid s)"
| "mem_queue_exec s (Prepare_Conversation user conv) = (Inr (), s)"
| "mem_queue_exec s (Acquire_Lease user conv worker now until token) =
     done_result (mem_acquire_compaction_lease user conv worker now until token s)"
| "mem_queue_exec s (Finish_Compaction user conv worker token now claim retry) =
     done_result (mem_finish_compaction user conv worker token now claim retry s)"
| "mem_queue_exec s (Finish_With_Event user conv worker token now claim retry run ty payload fresh) =
     done_result (mem_finish_compaction_with_event user conv worker token now claim retry run ty payload fresh s)"
| "mem_queue_exec s (Create_Queue_Event user e) = done_result (mem_queue_create_event user e s)"

definition new_mem_queue :: "(string \<times> string) list \<Rightarrow> mem_queue" where
  "new_mem_queue owners =
     \<lparr>mq_turns = [], mq_ids = [], mq_seqs = [], mq_clients = [], mq_next = 1, mq_leases = [], mq_other = owners,
      mq_events = \<lparr>me_other = [], me_events = [], me_ids = [], me_seqs = [], me_cursors = [], me_delivery = []\<rparr>\<rparr>"

end
