(* ===== verification/Turn_Laws.thy ===== *)
theory Turn_Laws
  imports Turn_Queue
begin

text \<open>
  What a reader sees of a turn queue, the moves its repositories make, and what these moves keep: one turn
  is processed at a time, none while its conversation is compacted, in the order of the queue
  (\<open>turn_queue\<close>).
\<close>

section \<open>The queue as a reader sees it\<close>

record queue =
  qv_turns :: "(string \<times> turn) list"
  qv_lease :: "string \<Rightarrow> (string \<times> lease) option"

definition restatus :: "(string \<Rightarrow> turn \<Rightarrow> turn_status) \<Rightarrow> (string \<times> turn) list \<Rightarrow> (string \<times> turn) list" where
  "restatus f T = map (\<lambda>(u, x). (u, x\<lparr>tn_status := f u x\<rparr>)) T"

definition set_status :: "string \<Rightarrow> turn_status \<Rightarrow> string \<Rightarrow> turn \<Rightarrow> turn_status" where
  "set_status i st u x = (if tn_id x = i then st else tn_status x)"

definition held_status :: "string \<Rightarrow> string \<Rightarrow> string \<Rightarrow> turn \<Rightarrow> turn_status" where
  "held_status v c u x = (if u = v \<and> tn_conv x = c \<and> tn_status x = Turn_Accepted then Turn_Queued else tn_status x)"

definition any_turn :: "(turn \<Rightarrow> bool) \<Rightarrow> string \<Rightarrow> string \<Rightarrow> (string \<times> turn) list \<Rightarrow> bool" where
  "any_turn P u c T = list_ex (\<lambda>(v, x). v = u \<and> tn_conv x = c \<and> P x) T"

definition waiting_turns :: "string \<Rightarrow> string \<Rightarrow> (string \<times> turn) list \<Rightarrow> turn list" where
  "waiting_turns u c T = map snd (filter (\<lambda>(v, x). v = u \<and> tn_conv x = c \<and> waiting (tn_status x)) T)"

definition queue_ok :: "queue \<Rightarrow> bool" where
  "queue_ok q =
     (distinct (map (\<lambda>(u, x). tn_id x) (qv_turns q)) \<and> distinct (map (\<lambda>(u, x). (tn_conv x, tn_client x)) (qv_turns q)))"

fun turn_moves :: "turn_status \<Rightarrow> turn_status list" where
  "turn_moves Turn_Accepted = [Turn_Queued, Turn_Processing, Turn_Completed]"
| "turn_moves Turn_Queued = [Turn_Processing]"
| "turn_moves Turn_Processing = [Turn_Completed]"
| "turn_moves st = []"

definition turn_path :: "(turn_status \<times> turn_status) set" where
  "turn_path = {(a, b). b \<in> set (turn_moves a)}\<^sup>*"

datatype qlabel = Other | Adds turn_status | Starts bool | Takes string string

text \<open>\<open>Starts\<close> says whether the turn was the first of its queue, \<open>Takes\<close> the token of a new lease.\<close>

inductive queue_move :: "qlabel \<Rightarrow> queue \<Rightarrow> queue \<Rightarrow> bool" where
  add: "tn_id x \<notin> (\<lambda>(v, y). tn_id y) ` set (qv_turns q) \<Longrightarrow>
     (tn_conv x, tn_client x) \<notin> (\<lambda>(v, y). (tn_conv y, tn_client y)) ` set (qv_turns q) \<Longrightarrow>
     (qv_lease q (tn_conv x) \<noteq> None \<Longrightarrow> tn_status x = Turn_Queued) \<Longrightarrow>
     queue_move (Adds (tn_status x)) q (q\<lparr>qv_turns := qv_turns q @ [(u, x)]\<rparr>)"
| hold: "(\<And>u x. (u, x) \<in> set (qv_turns q) \<Longrightarrow> f u x = tn_status x \<or> tn_status x = Turn_Accepted \<and> f u x = Turn_Queued) \<Longrightarrow>
     queue_move Other q (q\<lparr>qv_turns := restatus f (qv_turns q)\<rparr>)"
| start: "(u, x) \<in> set (qv_turns q) \<Longrightarrow> waiting (tn_status x) \<Longrightarrow> qv_lease q (tn_conv x) = None \<Longrightarrow>
     \<not> any_turn busy u (tn_conv x) (qv_turns q) \<Longrightarrow>
     queue_move (Starts (\<exists>xs. waiting_turns u (tn_conv x) (qv_turns q) = x # xs)) q
       (q\<lparr>qv_turns := restatus (set_status (tn_id x) Turn_Processing) (qv_turns q)\<rparr>)"
| finish: "(u, x) \<in> set (qv_turns q) \<Longrightarrow> tn_status x \<in> {Turn_Accepted, Turn_Processing, Turn_Completed} \<Longrightarrow>
     queue_move Other q (q\<lparr>qv_turns := restatus (set_status (tn_id x) Turn_Completed) (qv_turns q)\<rparr>)"
| take: "\<not> any_turn busy u c (qv_turns q) \<Longrightarrow> (\<And>v k. qv_lease q c = Some (v, k) \<Longrightarrow> v = u) \<Longrightarrow> ls_token l = token \<Longrightarrow>
     queue_move (Takes c token) q (q\<lparr>qv_lease := (qv_lease q)(c \<mapsto> (u, l))\<rparr>)"
| postpone: "qv_lease q c = Some (u, l) \<Longrightarrow> ls_token k = ls_token l \<Longrightarrow>
     queue_move Other q (q\<lparr>qv_lease := (qv_lease q)(c \<mapsto> (u, k))\<rparr>)"
| release: "queue_move Other q (q\<lparr>qv_lease := (qv_lease q)(c := None)\<rparr>)"

definition moves :: "qlabel set \<Rightarrow> queue \<Rightarrow> queue \<Rightarrow> bool" where
  "moves A = (\<lambda>q r. \<exists>l. (l = Other \<or> l \<in> A) \<and> queue_move l q r)\<^sup>*\<^sup>*"

lemma moves_refl [simp, intro]: "moves A q q"
  by (simp add: moves_def)

lemma moves_trans [trans]: "moves A q r \<Longrightarrow> moves A r s \<Longrightarrow> moves A q s"
  unfolding moves_def by (rule rtranclp_trans)

lemma move_other: "queue_move Other q r \<Longrightarrow> moves A q r"
  unfolding moves_def by blast

lemma move_in: "queue_move l q r \<Longrightarrow> l \<in> A \<Longrightarrow> moves A q r"
  unfolding moves_def by blast

lemma moves_induct [consumes 1, case_names start more]:
  assumes "moves A q r" and "P q" and "\<And>s t l. moves A q s \<Longrightarrow> queue_move l s t \<Longrightarrow> l = Other \<or> l \<in> A \<Longrightarrow> P s \<Longrightarrow> P t"
  shows "P r"
  using assms(1) unfolding moves_def
  by (induction rule: rtranclp_induct) (use assms(2,3) in \<open>auto simp: moves_def\<close>)

section \<open>Identities\<close>

lemma restatus_ids [simp]:
  "map (\<lambda>(u, x). tn_id x) (restatus f T) = map (\<lambda>(u, x). tn_id x) T"
  "map (\<lambda>(u, x). (tn_conv x, tn_client x)) (restatus f T) = map (\<lambda>(u, x). (tn_conv x, tn_client x)) T"
  by (auto simp: restatus_def)

lemma restatus_length [simp]: "length (restatus f T) = length T"
  by (simp add: restatus_def)

lemma in_restatus: "(u, y) \<in> set (restatus f T) \<longleftrightarrow> (\<exists>x. (u, x) \<in> set T \<and> y = x\<lparr>tn_status := f u x\<rparr>)"
  by (force simp: restatus_def)

lemma hold_not_busy:
  assumes "\<not> any_turn busy u c T"
  shows "\<not> any_turn busy u c (restatus (held_status v d) T)"
proof -
  have "busy (x\<lparr>tn_status := held_status v d w x\<rparr>) = busy x" for w x by (simp add: busy_def held_status_def)
  then show ?thesis using assms by (simp add: any_turn_def restatus_def list_ex_iff case_prod_beta)
qed

lemma move_ok: "queue_move l q r \<Longrightarrow> queue_ok q \<Longrightarrow> queue_ok r"
  by (cases rule: queue_move.cases) (auto simp: queue_ok_def)

lemma moves_ok: "moves A q r \<Longrightarrow> queue_ok q \<Longrightarrow> queue_ok r"
  by (induction rule: moves_induct) (auto intro: move_ok)

lemma same_turn:
  assumes "queue_ok q" and "(u, x) \<in> set (qv_turns q)" and "(v, y) \<in> set (qv_turns q)" and "tn_id x = tn_id y"
  shows "u = v \<and> x = y"
proof -
  have "inj_on (\<lambda>(u, x). tn_id x) (set (qv_turns q))" using assms(1) by (simp add: queue_ok_def distinct_map)
  from inj_onD [OF this _ assms(2,3)] assms(4) show ?thesis by simp
qed

lemma same_input:
  assumes "queue_ok q" and "(u, x) \<in> set (qv_turns q)" and "(v, y) \<in> set (qv_turns q)"
    and "tn_conv x = tn_conv y" and "tn_client x = tn_client y"
  shows "u = v \<and> x = y"
proof -
  have "inj_on (\<lambda>(u, x). (tn_conv x, tn_client x)) (set (qv_turns q))" using assms(1) by (simp add: queue_ok_def distinct_map)
  from inj_onD [OF this _ assms(2,3)] assms(4,5) show ?thesis by simp
qed

lemma hold_all: "queue_move Other q (q\<lparr>qv_turns := restatus (held_status u c) (qv_turns q)\<rparr>)"
  by (rule queue_move.hold) (simp add: held_status_def)

lemma hold_one:
  assumes "queue_ok q" and "(u, x) \<in> set (qv_turns q)" and "tn_status x = Turn_Accepted"
  shows "queue_move Other q (q\<lparr>qv_turns := restatus (set_status (tn_id x) Turn_Queued) (qv_turns q)\<rparr>)"
  by (rule queue_move.hold) (use same_turn [OF assms(1) _ assms(2)] assms(3) in \<open>auto simp: set_status_def\<close>)

section \<open>Turns along a session\<close>

lemma path_refl [simp]: "(st, st) \<in> turn_path"
  by (simp add: turn_path_def)

lemma path_step: "b \<in> set (turn_moves a) \<Longrightarrow> (a, b) \<in> turn_path"
  by (auto simp: turn_path_def)

lemma path_trans: "(a, b) \<in> turn_path \<Longrightarrow> (b, c) \<in> turn_path \<Longrightarrow> (a, c) \<in> turn_path"
  unfolding turn_path_def by (rule rtrancl_trans)

lemma completed_stays: "(a, b) \<in> turn_path \<Longrightarrow> a = Turn_Completed \<Longrightarrow> b = Turn_Completed"
  unfolding turn_path_def by (induction rule: rtrancl_induct) auto

lemma move_turn:
  assumes "queue_move l q r" and "queue_ok q" and "(u, x) \<in> set (qv_turns q)"
  shows "\<exists>st. (u, x\<lparr>tn_status := st\<rparr>) \<in> set (qv_turns r) \<and> (tn_status x, st) \<in> turn_path"
  using assms(1)
proof (cases rule: queue_move.cases)
  case (add y v)
  then have "(u, x\<lparr>tn_status := tn_status x\<rparr>) \<in> set (qv_turns r)" using assms(3) by simp
  then show ?thesis by fastforce
next
  case (hold f)
  have "(tn_status x, f u x) \<in> turn_path" using hold(3) [OF assms(3)] by (auto intro: path_step)
  then show ?thesis using hold(2) assms(3) by (auto simp: in_restatus)
next
  case (start v y)
  have "(tn_status x, set_status (tn_id y) Turn_Processing u x) \<in> turn_path"
    using same_turn [OF assms(2,3) start(3)] start(4) by (auto simp: set_status_def waiting_def intro: path_step)
  then show ?thesis using start(2) assms(3) by (auto simp: in_restatus)
next
  case (finish v y)
  have "(tn_status x, set_status (tn_id y) Turn_Completed u x) \<in> turn_path"
    using same_turn [OF assms(2,3) finish(3)] finish(4) by (auto simp: set_status_def intro: path_step)
  then show ?thesis using finish(2) assms(3) by (auto simp: in_restatus)
qed (use assms(3) in \<open>force simp: intro: exI [of _ "tn_status x"]\<close>)+

lemma moves_turn:
  assumes "moves A q r" and "queue_ok q" and "(u, x) \<in> set (qv_turns q)"
  shows "\<exists>st. (u, x\<lparr>tn_status := st\<rparr>) \<in> set (qv_turns r) \<and> (tn_status x, st) \<in> turn_path"
  using assms
proof (induction rule: moves_induct)
  case start
  then show ?case by (intro exI [of _ "tn_status x"]) simp
next
  case (more s t l)
  then obtain st where st: "(u, x\<lparr>tn_status := st\<rparr>) \<in> set (qv_turns s)" "(tn_status x, st) \<in> turn_path" by blast
  from move_turn [OF more(2) moves_ok [OF more(1,5)] st(1)] st(2) show ?case by (auto intro: path_trans)
qed

section \<open>Exclusion and order\<close>

text \<open>No turn of the owner of a lease is processed in the conversation of the lease.\<close>

definition exclusive :: "queue \<Rightarrow> bool" where
  "exclusive q = (\<forall>u x l. (u, x) \<in> set (qv_turns q) \<longrightarrow> busy x \<longrightarrow> qv_lease q (tn_conv x) \<noteq> Some (u, l))"

text \<open>In pairs of places of the queue: at most one is processed, and none is processed after one that waits.\<close>

definition same_queue :: "string \<times> turn \<Rightarrow> string \<times> turn \<Rightarrow> bool" where
  "same_queue p r = (fst p = fst r \<and> tn_conv (snd p) = tn_conv (snd r))"

definition one_busy :: "queue \<Rightarrow> bool" where
  "one_busy q = sorted_wrt (\<lambda>p r. same_queue p r \<longrightarrow> \<not> (busy (snd p) \<and> busy (snd r))) (qv_turns q)"

definition in_turn :: "queue \<Rightarrow> bool" where
  "in_turn q = sorted_wrt (\<lambda>p r. same_queue p r \<longrightarrow> busy (snd r) \<longrightarrow> \<not> waiting (tn_status (snd p))) (qv_turns q)"

lemma waiting_simps [simp]:
  "waiting Turn_Accepted" "waiting Turn_Queued" "\<not> waiting Turn_Processing" "\<not> waiting Turn_Completed"
  by (simp_all add: waiting_def)

lemma waiting_not_busy: "waiting (tn_status x) \<Longrightarrow> \<not> busy x"
  by (auto simp: waiting_def busy_def)

lemma busy_restatus [simp]: "busy (x\<lparr>tn_status := st\<rparr>) = (st = Turn_Processing)"
  by (simp add: busy_def)

lemma move_exclusive:
  assumes "queue_move l q r" and "queue_ok q" and "exclusive q"
  shows "exclusive r"
  using assms(1)
proof (cases rule: queue_move.cases)
  case (hold f)
  then show ?thesis using assms(3) by (fastforce simp: exclusive_def in_restatus busy_def)
next
  case (start v y)
  show ?thesis unfolding exclusive_def
  proof (intro allI impI)
    fix u x l assume in_r: "(u, x) \<in> set (qv_turns r)" and "busy x"
    then obtain z where z: "(u, z) \<in> set (qv_turns q)" "x = z\<lparr>tn_status := set_status (tn_id y) Turn_Processing u z\<rparr>"
      using start(2) by (auto simp: in_restatus)
    then show "qv_lease r (tn_conv x) \<noteq> Some (u, l)"
      using \<open>busy x\<close> assms(3) start(2,5) same_turn [OF assms(2) z(1) start(3)]
      by (auto simp: exclusive_def set_status_def busy_def split: if_splits)
  qed
qed (use assms(3) in \<open>auto simp: exclusive_def in_restatus held_status_def set_status_def any_turn_def list_ex_iff busy_def
  split: if_splits\<close>)

lemma moves_exclusive: "moves A q r \<Longrightarrow> queue_ok q \<Longrightarrow> exclusive q \<Longrightarrow> exclusive r"
  by (induction rule: moves_induct) (auto intro: move_exclusive moves_ok)

lemma sorted_restatus:
  assumes "sorted_wrt P T" and "\<And>u x v y. (u, x) \<in> set T \<Longrightarrow> (v, y) \<in> set T \<Longrightarrow> P (u, x) (v, y) \<Longrightarrow>
    Q (u, x\<lparr>tn_status := f u x\<rparr>) (v, y\<lparr>tn_status := f v y\<rparr>)"
  shows "sorted_wrt Q (restatus f T)"
  unfolding restatus_def sorted_wrt_map
  by (rule sorted_wrt_mono_rel [OF _ assms(1)]) (use assms(2) in \<open>auto split: prod.splits\<close>)

lemma other_ids: "queue_ok q \<Longrightarrow> sorted_wrt (\<lambda>p r. tn_id (snd p) \<noteq> tn_id (snd r)) (qv_turns q)"
  by (auto simp: queue_ok_def sorted_wrt_iff_nth_less distinct_conv_nth case_prod_beta)

lemma move_one_busy:
  assumes "queue_move l q r" and "queue_ok q" and "l \<noteq> Adds Turn_Processing" and "one_busy q"
  shows "one_busy r"
proof -
  have sorted: "sorted_wrt (\<lambda>p r. same_queue p r \<longrightarrow> \<not> (busy (snd p) \<and> busy (snd r))) (qv_turns q)"
    using assms(4) by (simp add: one_busy_def)
  have quiet: "one_busy (q\<lparr>qv_turns := restatus f (qv_turns q)\<rparr>)"
    if "\<And>u x. (u, x) \<in> set (qv_turns q) \<Longrightarrow> f u x = Turn_Processing \<Longrightarrow> busy x" for f
    unfolding one_busy_def using that by simp (rule sorted_restatus [OF sorted], auto simp: same_queue_def)
  from assms(1) show ?thesis
  proof (cases rule: queue_move.cases)
    case (add x u)
    then show ?thesis using assms(3) sorted by (auto simp: one_busy_def sorted_wrt_append busy_def)
  next
    case (hold f)
    show ?thesis unfolding hold(2) by (rule quiet) (auto simp: busy_def dest!: hold(3))
  next
    case (start v y)
    have free: "\<not> busy x" if "(v, x) \<in> set (qv_turns q)" "tn_conv x = tn_conv y" for x
      using start(6) that by (auto simp: any_turn_def list_ex_iff)
    have own: "u = v \<and> x = y" if "(u, x) \<in> set (qv_turns q)" "tn_id x = tn_id y" for u x
      using same_turn [OF assms(2) that(1) start(3) that(2)] .
    have "sorted_wrt (\<lambda>p r. (same_queue p r \<longrightarrow> \<not> (busy (snd p) \<and> busy (snd r))) \<and> tn_id (snd p) \<noteq> tn_id (snd r)) (qv_turns q)"
      using sorted other_ids [OF assms(2)] by (auto simp: sorted_wrt_iff_nth_less)
    then have "sorted_wrt (\<lambda>p r. same_queue p r \<longrightarrow> \<not> (busy (snd p) \<and> busy (snd r)))
        (restatus (set_status (tn_id y) Turn_Processing) (qv_turns q))"
    proof (rule sorted_restatus)
      fix u x w z
      assume "(u, x) \<in> set (qv_turns q)" "(w, z) \<in> set (qv_turns q)"
        and "(same_queue (u, x) (w, z) \<longrightarrow> \<not> (busy (snd (u, x)) \<and> busy (snd (w, z)))) \<and> tn_id (snd (u, x)) \<noteq> tn_id (snd (w, z))"
      then show "same_queue (u, x\<lparr>tn_status := set_status (tn_id y) Turn_Processing u x\<rparr>)
            (w, z\<lparr>tn_status := set_status (tn_id y) Turn_Processing w z\<rparr>) \<longrightarrow>
          \<not> (busy (snd (u, x\<lparr>tn_status := set_status (tn_id y) Turn_Processing u x\<rparr>)) \<and>
             busy (snd (w, z\<lparr>tn_status := set_status (tn_id y) Turn_Processing w z\<rparr>)))"
        using own [of u x] own [of w z] free [of x] free [of z]
        by (cases "tn_id x = tn_id y"; cases "tn_id z = tn_id y") (auto simp: same_queue_def set_status_def busy_def)
    qed
    then show ?thesis by (simp add: one_busy_def start(2))
  next
    case (finish v y)
    show ?thesis unfolding finish(2) by (rule quiet) (auto simp: set_status_def busy_def split: if_splits)
  qed (use sorted in \<open>simp_all add: one_busy_def\<close>)
qed

lemma moves_one_busy: "moves A q r \<Longrightarrow> Adds Turn_Processing \<notin> A \<Longrightarrow> queue_ok q \<Longrightarrow> one_busy q \<Longrightarrow> one_busy r"
  by (induction rule: moves_induct) (auto intro: move_one_busy moves_ok)

lemma first_of_queue:
  assumes "waiting_turns v c T = y # ys" and "tn_conv y = c" and "distinct (map (\<lambda>(u, x). tn_id x) T)"
  shows "sorted_wrt (\<lambda>p r. r = (v, y) \<longrightarrow> same_queue p r \<longrightarrow> \<not> waiting (tn_status (snd p))) T"
  using assms
proof (induction T)
  case (Cons p T)
  obtain u x where p: "p = (u, x)" by (cases p)
  show ?case
  proof (cases "u = v \<and> tn_conv x = c \<and> waiting (tn_status x)")
    case True
    then have "x = y" using Cons.prems(1) p by (simp add: waiting_turns_def)
    then have "(v, y) \<notin> set T" using Cons.prems(3) p by force
    then have "sorted_wrt (\<lambda>p r. r \<noteq> (v, y)) T" by (induction T) auto
    then have "sorted_wrt (\<lambda>p r. r = (v, y) \<longrightarrow> same_queue p r \<longrightarrow> \<not> waiting (tn_status (snd p))) T"
      by (rule sorted_wrt_mono_rel [rotated]) simp
    then show ?thesis using \<open>(v, y) \<notin> set T\<close> by auto
  next
    case False
    then have "waiting_turns v c T = y # ys" using Cons.prems(1) p by (auto simp: waiting_turns_def split: if_splits)
    then have "sorted_wrt (\<lambda>p r. r = (v, y) \<longrightarrow> same_queue p r \<longrightarrow> \<not> waiting (tn_status (snd p))) T"
      using Cons.IH Cons.prems(2,3) by simp
    then show ?thesis using False p Cons.prems(2) by (auto simp: same_queue_def)
  qed
qed simp

lemma move_in_turn:
  assumes "queue_move l q r" and "queue_ok q" and "l \<notin> {Adds Turn_Processing, Starts False}" and "in_turn q"
  shows "in_turn r"
proof -
  have sorted: "sorted_wrt (\<lambda>p r. same_queue p r \<longrightarrow> busy (snd r) \<longrightarrow> \<not> waiting (tn_status (snd p))) (qv_turns q)"
    using assms(4) by (simp add: in_turn_def)
  have quiet: "in_turn (q\<lparr>qv_turns := restatus f (qv_turns q)\<rparr>)"
    if "\<And>u x. (u, x) \<in> set (qv_turns q) \<Longrightarrow> f u x = Turn_Processing \<Longrightarrow> busy x"
      and "\<And>u x. (u, x) \<in> set (qv_turns q) \<Longrightarrow> waiting (f u x) \<Longrightarrow> waiting (tn_status x)" for f
    unfolding in_turn_def using that by simp (rule sorted_restatus [OF sorted], auto simp: same_queue_def)
  from assms(1) show ?thesis
  proof (cases rule: queue_move.cases)
    case (add x u)
    then show ?thesis using assms(3) sorted by (auto simp: in_turn_def sorted_wrt_append busy_def)
  next
    case (hold f)
    show ?thesis unfolding hold(2) by (rule quiet) (auto simp: busy_def waiting_def dest!: hold(3))
  next
    case (start v y)
    then obtain ys where "waiting_turns v (tn_conv y) (qv_turns q) = y # ys" using assms(3) by auto
    from first_of_queue [OF this refl] assms(2)
    have "sorted_wrt (\<lambda>p r. r = (v, y) \<longrightarrow> same_queue p r \<longrightarrow> \<not> waiting (tn_status (snd p))) (qv_turns q)"
      by (simp add: queue_ok_def)
    then have both: "sorted_wrt (\<lambda>p r. same_queue p r \<longrightarrow> busy (snd r) \<or> r = (v, y) \<longrightarrow> \<not> waiting (tn_status (snd p))) (qv_turns q)"
      using sorted by (auto simp: sorted_wrt_iff_nth_less)
    have own: "u = v \<and> x = y" if "(u, x) \<in> set (qv_turns q)" "tn_id x = tn_id y" for u x
      using same_turn [OF assms(2) that(1) start(3) that(2)] .
    from both have "sorted_wrt (\<lambda>p r. same_queue p r \<longrightarrow> busy (snd r) \<longrightarrow> \<not> waiting (tn_status (snd p)))
        (restatus (set_status (tn_id y) Turn_Processing) (qv_turns q))"
    proof (rule sorted_restatus)
      fix u x w z
      let ?f = "set_status (tn_id y) Turn_Processing"
      assume z: "(w, z) \<in> set (qv_turns q)"
        and P: "same_queue (u, x) (w, z) \<longrightarrow> busy (snd (w, z)) \<or> (w, z) = (v, y) \<longrightarrow> \<not> waiting (tn_status (snd (u, x)))"
      show "same_queue (u, x\<lparr>tn_status := ?f u x\<rparr>) (w, z\<lparr>tn_status := ?f w z\<rparr>) \<longrightarrow>
          busy (snd (w, z\<lparr>tn_status := ?f w z\<rparr>)) \<longrightarrow> \<not> waiting (tn_status (snd (u, x\<lparr>tn_status := ?f u x\<rparr>)))"
      proof (intro impI)
        assume same: "same_queue (u, x\<lparr>tn_status := ?f u x\<rparr>) (w, z\<lparr>tn_status := ?f w z\<rparr>)"
          and now: "busy (snd (w, z\<lparr>tn_status := ?f w z\<rparr>))"
        have "busy z \<or> (w, z) = (v, y)"
        proof (cases "tn_id z = tn_id y")
          case True
          then show ?thesis using own [OF z] by simp
        next
          case False
          then show ?thesis using now by (simp add: set_status_def busy_def)
        qed
        then have "\<not> waiting (tn_status x)" using P same by (auto simp: same_queue_def)
        then show "\<not> waiting (tn_status (snd (u, x\<lparr>tn_status := ?f u x\<rparr>)))" by (simp add: set_status_def)
      qed
    qed
    then show ?thesis by (simp add: in_turn_def start(2))
  next
    case (finish v y)
    show ?thesis unfolding finish(2) by (rule quiet) (auto simp: set_status_def busy_def waiting_def split: if_splits)
  qed (use sorted in \<open>simp_all add: in_turn_def\<close>)
qed

lemma moves_in_turn:
  "moves A q r \<Longrightarrow> A \<inter> {Adds Turn_Processing, Starts False} = {} \<Longrightarrow> queue_ok q \<Longrightarrow> in_turn q \<Longrightarrow> in_turn r"
  by (induction rule: moves_induct) (auto intro: move_in_turn moves_ok)

section \<open>Tokens\<close>

definition holds_token :: "string \<Rightarrow> string \<Rightarrow> queue \<Rightarrow> bool" where
  "holds_token c token q = (\<exists>u l. qv_lease q c = Some (u, l) \<and> ls_token l = token)"

lemma move_token: "queue_move l q r \<Longrightarrow> l \<noteq> Takes c token \<Longrightarrow> \<not> holds_token c token q \<Longrightarrow> \<not> holds_token c token r"
  by (cases rule: queue_move.cases) (auto simp: holds_token_def split: if_splits)

lemma moves_token: "moves A q r \<Longrightarrow> Takes c token \<notin> A \<Longrightarrow> \<not> holds_token c token q \<Longrightarrow> \<not> holds_token c token r"
proof (induction rule: moves_induct)
  case (more s t l)
  then have "l \<noteq> Takes c token" by auto
  then show ?case using move_token more by blast
qed

section \<open>The contract\<close>

text \<open>What the moves of a command are tagged with; \<open>fifo\<close> when a completion takes the first of the queue.\<close>

fun tags :: "bool \<Rightarrow> queue_cmd \<Rightarrow> qlabel set" where
  "tags fifo (Create_Turn user x) = {Adds (tn_status x), Adds Turn_Queued}"
| "tags fifo (Enqueue_Turn user x) = {Adds (tn_status x), Adds Turn_Queued}"
| "tags fifo (Enqueue_For_Execution user x) = {Adds Turn_Accepted, Adds Turn_Queued}"
| "tags fifo (Claim_Turn user conv) = {Starts True}"
| "tags fifo (Complete_Turn user conv tid) = {Starts True, Starts fifo}"
| "tags fifo (Acquire_Lease user conv worker now until token) = {Takes (py_strip conv) token}"
| "tags fifo (Finish_Compaction user conv worker token now claim retry) = {Starts True}"
| "tags fifo (Finish_With_Event user conv worker token now claim retry run ty payload fresh) = {Starts True}"
| "tags fifo c = {}"

locale turn_queue = machine exec okay
  for exec :: "'w \<Rightarrow> 'c \<Rightarrow> ('e + unit) \<times> 'w" and okay :: "'w \<Rightarrow> bool" +
  fixes view :: "'w \<Rightarrow> queue" and labels :: "'c \<Rightarrow> qlabel set"
  assumes okay_view: "okay w \<Longrightarrow> queue_ok (view w)"
    and exec_moves: "okay w \<Longrightarrow> labels c \<subseteq> A \<Longrightarrow> moves A (view w) (view (snd (exec w c)))"
begin

lemma session_moves:
  assumes "okay w" and "\<Union> (labels ` set cs) \<subseteq> A"
  shows "moves A (view w) (view (run_all exec w cs))"
  using assms
proof (induction cs arbitrary: w)
  case (Cons c cs)
  have "moves A (view w) (view (snd (exec w c)))" using Cons.prems by (intro exec_moves) auto
  also have "moves A \<dots> (view (run_all exec (snd (exec w c)) cs))"
    using Cons.prems by (intro Cons.IH exec_inv) auto
  finally show ?case by simp
qed simp

lemma session_exclusive: "okay w \<Longrightarrow> exclusive (view w) \<Longrightarrow> exclusive (view (run_all exec w cs))"
  by (rule moves_exclusive [OF session_moves [OF _ order_refl] okay_view])

lemma session_one_busy:
  "okay w \<Longrightarrow> one_busy (view w) \<Longrightarrow> Adds Turn_Processing \<notin> \<Union> (labels ` set cs) \<Longrightarrow> one_busy (view (run_all exec w cs))"
  by (rule moves_one_busy [OF session_moves [OF _ order_refl] _ okay_view])

lemma session_in_turn:
  "okay w \<Longrightarrow> in_turn (view w) \<Longrightarrow> \<Union> (labels ` set cs) \<inter> {Adds Turn_Processing, Starts False} = {} \<Longrightarrow>
   in_turn (view (run_all exec w cs))"
  by (rule moves_in_turn [OF session_moves [OF _ order_refl] _ okay_view])

lemma session_turn:
  "okay w \<Longrightarrow> (u, x) \<in> set (qv_turns (view w)) \<Longrightarrow>
   \<exists>st. (u, x\<lparr>tn_status := st\<rparr>) \<in> set (qv_turns (view (run_all exec w cs))) \<and> (tn_status x, st) \<in> turn_path"
  by (rule moves_turn [OF session_moves [OF _ order_refl] okay_view])

lemma session_token:
  "okay w \<Longrightarrow> \<not> holds_token c token (view w) \<Longrightarrow> Takes c token \<notin> \<Union> (labels ` set cs) \<Longrightarrow>
   \<not> holds_token c token (view (run_all exec w cs))"
  by (rule moves_token [OF session_moves [OF _ order_refl]])

end

end
