(* ===== verification/Turn_Mem_Laws.thy ===== *)
theory Turn_Mem_Laws
  imports Turn_Laws
begin

text \<open>
  Every method of the queue in memory is a sequence of moves: it satisfies \<open>turn_queue\<close>, with completions
  that may start a turn out of its order.
\<close>

section \<open>The view\<close>

definition turn_rows :: "(string \<times> string, turn) dict \<Rightarrow> (string \<times> turn) list" where
  "turn_rows T = map (\<lambda>((u, i), x). (u, x)) T"

definition mem_queue_view :: "mem_queue \<Rightarrow> queue" where
  "mem_queue_view s = \<lparr>qv_turns = turn_rows (mq_turns s), qv_lease = map_of (mq_leases s)\<rparr>"

text \<open>The indexes of the repository are those of its turns.\<close>

definition mem_queue_ok :: "mem_queue \<Rightarrow> bool" where
  "mem_queue_ok s =
     (queue_ok (mem_queue_view s) \<and> list_all (\<lambda>((u, i), x). tn_id x = i) (mq_turns s) \<and>
      mq_ids s = map (\<lambda>((u, i), x). i) (mq_turns s) \<and>
      mq_clients s = map (\<lambda>((u, i), x). ((tn_conv x, tn_client x), (u, i))) (mq_turns s) \<and>
      mq_seqs s = zip (map fst (mq_turns s)) [1..<Suc (length (mq_turns s))] \<and> mq_next s = Suc (length (mq_turns s)))"

lemma mem_view_fields [simp]: "qv_turns (mem_queue_view s) = turn_rows (mq_turns s)" "qv_lease (mem_queue_view s) = map_of (mq_leases s)"
  by (simp_all add: mem_queue_view_def)

definition mq_moves :: "qlabel set \<Rightarrow> mem_queue \<Rightarrow> mem_queue \<Rightarrow> bool" where
  "mq_moves A s t = (mem_queue_ok s \<longrightarrow> moves A (mem_queue_view s) (mem_queue_view t) \<and> mem_queue_ok t)"

lemma mq_moves_refl [simp, intro]: "mq_moves A s s"
  by (simp add: mq_moves_def)

lemma mq_moves_trans [trans]: "mq_moves A s t \<Longrightarrow> mq_moves A t r \<Longrightarrow> mq_moves A s r"
  unfolding mq_moves_def by (blast intro: moves_trans)

lemma mq_movesI: "(mem_queue_ok s \<Longrightarrow> mq_moves A s t) \<Longrightarrow> mq_moves A s t"
  unfolding mq_moves_def by blast

lemma mq_one:
  assumes "queue_move l (mem_queue_view s) (mem_queue_view t)" and "l = Other \<or> l \<in> A"
    and "queue_ok (mem_queue_view t) \<Longrightarrow> mem_queue_ok s \<Longrightarrow> mem_queue_ok t"
  shows "mq_moves A s t"
proof -
  have "moves A (mem_queue_view s) (mem_queue_view t)" using assms(1,2) move_other move_in by blast
  then show ?thesis using moves_ok assms(3) unfolding mq_moves_def mem_queue_ok_def by blast
qed

section \<open>Turns by key\<close>

lemma turn_rows_simps [simp]: "turn_rows [] = []" "turn_rows (T @ S) = turn_rows T @ turn_rows S"
  by (simp_all add: turn_rows_def)

lemma in_turn_rows: "(u, x) \<in> set (turn_rows T) \<longleftrightarrow> (\<exists>i. ((u, i), x) \<in> set T)"
  by (force simp: turn_rows_def)

lemma rows_indexes:
  assumes "mem_queue_ok s"
  shows "map (\<lambda>(u, x). tn_id x) (turn_rows (mq_turns s)) = mq_ids s"
    and "map (\<lambda>(u, x). (tn_conv x, tn_client x)) (turn_rows (mq_turns s)) = map fst (mq_clients s)"
proof -
  have "list_all (\<lambda>((u, i), x). tn_id x = i) T \<Longrightarrow> map (\<lambda>(u, x). tn_id x) (turn_rows T) = map (\<lambda>((u, i), x). i) T" for T
    by (induction T) (auto simp: turn_rows_def)
  then show "map (\<lambda>(u, x). tn_id x) (turn_rows (mq_turns s)) = mq_ids s" using assms by (simp add: mem_queue_ok_def del: upt_Suc)
  have "map (\<lambda>(u, x). (tn_conv x, tn_client x)) (turn_rows T) = map fst (map (\<lambda>((u, i), x). ((tn_conv x, tn_client x), (u, i))) T)" for T
    by (induction T) (auto simp: turn_rows_def)
  then show "map (\<lambda>(u, x). (tn_conv x, tn_client x)) (turn_rows (mq_turns s)) = map fst (mq_clients s)"
    using assms by (simp add: mem_queue_ok_def del: upt_Suc map_map)
qed

lemma turn_keys_distinct:
  assumes "mem_queue_ok s"
  shows "distinct (map fst (mq_turns s))"
proof -
  have "queue_ok (mem_queue_view s)" using assms by (simp add: mem_queue_ok_def)
  then have "distinct (map (\<lambda>(u, x). tn_id x) (turn_rows (mq_turns s)))" by (simp add: queue_ok_def)
  moreover have "mq_ids s = map snd (map fst (mq_turns s))"
    using assms by (simp add: mem_queue_ok_def case_prod_beta comp_def del: upt_Suc)
  ultimately show ?thesis unfolding rows_indexes(1) [OF assms] by (metis distinct_map)
qed

lemma turn_key:
  assumes "mem_queue_ok s" and "((u, i), x) \<in> set (mq_turns s)"
  shows "tn_id x = i" and "map_of (mq_turns s) (u, i) = Some x"
  using assms turn_keys_distinct [OF assms(1)] by (auto simp: mem_queue_ok_def list_all_iff)

definition retag :: "(string \<Rightarrow> turn \<Rightarrow> turn_status) \<Rightarrow> (string \<times> string, turn) dict \<Rightarrow> (string \<times> string, turn) dict" where
  "retag f T = map (\<lambda>((u, i), x). ((u, i), x\<lparr>tn_status := f u x\<rparr>)) T"

lemma retag_rows: "turn_rows (retag f T) = restatus f (turn_rows T)"
  by (induction T) (auto simp: retag_def turn_rows_def restatus_def)

lemma retag_indexes:
  "map fst (retag f T) = map fst T" "length (retag f T) = length T"
  "map (\<lambda>((u, i), x). i) (retag f T) = map (\<lambda>((u, i), x). i) T"
  "map (\<lambda>((u, i), x). ((tn_conv x, tn_client x), (u, i))) (retag f T) = map (\<lambda>((u, i), x). ((tn_conv x, tn_client x), (u, i))) T"
  "list_all (\<lambda>((u, i), x). tn_id x = i) (retag f T) = list_all (\<lambda>((u, i), x). tn_id x = i) T"
  by (induction T) (auto simp: retag_def)

lemma retag_moves:
  assumes "queue_move l (mem_queue_view s) ((mem_queue_view s)\<lparr>qv_turns := restatus f (turn_rows (mq_turns s))\<rparr>)" and "l = Other \<or> l \<in> A"
  shows "mq_moves A s (s\<lparr>mq_turns := retag f (mq_turns s)\<rparr>)"
proof (rule mq_one [OF _ assms(2)])
  show "queue_move l (mem_queue_view s) (mem_queue_view (s\<lparr>mq_turns := retag f (mq_turns s)\<rparr>))"
    using assms(1) by (simp add: mem_queue_view_def retag_rows)
qed (simp add: mem_queue_ok_def retag_indexes)

lemma update_in_place:
  "distinct (map fst T) \<Longrightarrow> map_of T k = Some x \<Longrightarrow> AList.update k y T = map (\<lambda>(j, z). (j, if j = k then y else z)) T"
proof (induction T)
  case (Cons p T)
  obtain j z where p: "p = (j, z)" by (cases p)
  show ?case
  proof (cases "j = k")
    case True
    have "map (\<lambda>(j, z). (j, if j = k then y else z)) T = T"
      by (rule map_idI) (use Cons.prems(1) p True in \<open>force split: prod.splits\<close>)
    then show ?thesis using p True by simp
  next
    case False
    then show ?thesis using Cons p by simp
  qed
qed simp

lemma put_turn_retag:
  assumes "mem_queue_ok s" and "map_of (mq_turns s) (u, i) = Some x"
  shows "put_turn (u, i) st s = s\<lparr>mq_turns := retag (set_status i st) (mq_turns s)\<rparr>"
proof -
  have key: "((v, j), z) = ((u, i), x)" if "((v, j), z) \<in> set (mq_turns s)" "j = i" for v j z
  proof -
    have "tn_id z = tn_id x" "(v, z) \<in> set (turn_rows (mq_turns s))" "(u, x) \<in> set (turn_rows (mq_turns s))"
      using turn_key(1) [OF assms(1)] map_of_SomeD [OF assms(2)] that by (auto simp: in_turn_rows)
    then have "v = u \<and> z = x" using same_turn [of "mem_queue_view s" v z u x] assms(1) by (simp add: mem_queue_ok_def)
    then show ?thesis using that(2) by simp
  qed
  have "AList.update (u, i) (x\<lparr>tn_status := st\<rparr>) (mq_turns s) = retag (set_status i st) (mq_turns s)"
    unfolding update_in_place [OF turn_keys_distinct [OF assms(1)] assms(2)] retag_def
  proof (rule list.map_cong0)
    fix p assume p: "p \<in> set (mq_turns s)"
    obtain v j z where pz: "p = ((v, j), z)" by (metis prod.collapse)
    have "z = z\<lparr>tn_status := tn_status z\<rparr>" by simp
    then show "(case p of (k, z) \<Rightarrow> (k, if k = (u, i) then x\<lparr>tn_status := st\<rparr> else z)) =
        (case p of (a, b) \<Rightarrow> (case a of (v, j) \<Rightarrow> \<lambda>z. ((v, j), z\<lparr>tn_status := set_status i st v z\<rparr>)) b)"
      using key [of v j z] turn_key(1) [OF assms(1), of v j z] p unfolding pz by (cases "j = i") (auto simp: set_status_def)
  qed
  then show ?thesis using assms(2) by (simp add: put_turn_def)
qed

lemma put_turn_found:
  assumes "mem_queue_ok s" and "map_of (mq_turns s) (u, i) = Some x"
  shows "map_of (mq_turns (put_turn (u, i) st s)) (u, i) = Some (x\<lparr>tn_status := st\<rparr>)"
  using assms(2) by (simp add: put_turn_def)

section \<open>The order of the queue\<close>

lemma map_of_zip_nth: "distinct xs \<Longrightarrow> length xs = length ys \<Longrightarrow> n < length xs \<Longrightarrow> map_of (zip xs ys) (xs ! n) = Some (ys ! n)"
  by (rule map_of_is_SomeI) (auto simp: in_set_zip)

lemma turn_seq_sorted: "mem_queue_ok s \<Longrightarrow> sorted (map (\<lambda>p. turn_seq s (fst p)) (mq_turns s))"
proof -
  assume ok: "mem_queue_ok s"
  let ?T = "mq_turns s"
  have "turn_seq s (fst (?T ! n)) = Suc n" if "n < length ?T" for n
    using map_of_zip_nth [OF turn_keys_distinct [OF ok], of "[1..<Suc (length ?T)]" n] ok that
    by (simp add: turn_seq_def mem_queue_ok_def del: upt_Suc)
  then show ?thesis by (simp add: sorted_iff_nth_mono)
qed

lemma mem_turn_keys_eq:
  assumes "mem_queue_ok s"
  shows "mem_turn_keys P u c s = map fst (filter (\<lambda>((v, i), x). v = u \<and> tn_conv x = c \<and> P x) (mq_turns s))"
proof -
  have "sorted (map (turn_seq s) (map fst (filter (\<lambda>((v, i), x). v = u \<and> tn_conv x = c \<and> P x) (mq_turns s))))"
    using sorted_filter [OF turn_seq_sorted [OF assms]] by (simp add: comp_def)
  then show ?thesis unfolding mem_turn_keys_def by (rule sort_key_id_if_sorted)
qed

lemma waiting_rows: "waiting_turns u c (turn_rows T) = map snd (filter (\<lambda>((v, i), x). v = u \<and> tn_conv x = c \<and> waiting (tn_status x)) T)"
  by (induction T) (auto simp: waiting_turns_def turn_rows_def)

lemma any_rows: "any_turn P u c (turn_rows (mq_turns s)) = mem_any_turn P u c s"
proof -
  have "any_turn P u c (turn_rows T) = list_ex (\<lambda>((v, i), x). v = u \<and> tn_conv x = c \<and> P x) T" for T
    by (induction T) (auto simp: any_turn_def turn_rows_def)
  then show ?thesis by (simp add: mem_any_turn_def)
qed

lemma start_turn_moves:
  assumes ok: "mem_queue_ok s" and keys: "\<And>k. k \<in> set keys \<Longrightarrow> \<exists>i x. k = (u, i) \<and> map_of (mq_turns s) k = Some x \<and> tn_conv x = c \<and> waiting (tn_status x)"
    and free: "map_of (mq_leases s) c = None" "\<not> mem_any_turn busy u c s"
    and label: "{Starts True, Starts False} \<subseteq> A \<or>
      Starts True \<in> A \<and> keys = map fst (filter (\<lambda>((v, i), x). v = u \<and> tn_conv x = c \<and> waiting (tn_status x)) (mq_turns s))"
  shows "mq_moves A s (snd (mem_start_turn keys s))"
proof (cases keys)
  case (Cons k ks)
  then obtain i x where k: "k = (u, i)" and x: "map_of (mq_turns s) (u, i) = Some x" "tn_conv x = c" "waiting (tn_status x)"
    using keys by (metis list.set_intros(1))
  have row: "((u, i), x) \<in> set (mq_turns s)" using map_of_SomeD [OF x(1)] .
  have i: "tn_id x = i" using turn_key(1) [OF ok row] .
  let ?first = "\<exists>xs. waiting_turns u (tn_conv x) (qv_turns (mem_queue_view s)) = x # xs"
  have move: "queue_move (Starts ?first) (mem_queue_view s)
      ((mem_queue_view s)\<lparr>qv_turns := restatus (set_status (tn_id x) Turn_Processing) (qv_turns (mem_queue_view s))\<rparr>)"
    by (rule queue_move.start [where u = u]) (use row x free in \<open>auto simp: in_turn_rows any_rows\<close>)
  have "Starts ?first \<in> A"
  proof (cases "{Starts True, Starts False} \<subseteq> A")
    case False
    then have all: "Starts True \<in> A" "map fst (filter (\<lambda>((v, i), x). v = u \<and> tn_conv x = c \<and> waiting (tn_status x)) (mq_turns s)) = (u, i) # ks"
      using label Cons k by auto
    then obtain y ys where ys: "filter (\<lambda>((v, i), x). v = u \<and> tn_conv x = c \<and> waiting (tn_status x)) (mq_turns s) = ((u, i), y) # ys"
      by (auto simp: map_eq_Cons_conv)
    then have "((u, i), y) \<in> set (filter (\<lambda>((v, i), x). v = u \<and> tn_conv x = c \<and> waiting (tn_status x)) (mq_turns s))" by simp
    then have "((u, i), y) \<in> set (mq_turns s)" by simp
    then have "y = x" using turn_key(2) [OF ok] x(1) by force
    then have ?first using ys x(2) by (simp add: waiting_rows)
    then show ?thesis using all(1) by simp
  qed (cases ?first; auto)
  then have "mq_moves A s (put_turn (u, i) Turn_Processing s)"
    unfolding put_turn_retag [OF ok x(1)] using move i by (intro retag_moves) auto
  then show ?thesis using Cons k by (simp add: mem_start_turn_def Let_def)
qed (simp add: mem_start_turn_def)

section \<open>Commands\<close>

lemma require_text_strip: "require_text n s = Inr t \<Longrightarrow> require_text n t = Inr t \<and> t = py_strip s"
  by (auto simp: require_text_def Let_def split: if_splits)

lemma require_text_again: "require_text n s = Inr t \<Longrightarrow> require_text n t = Inr t"
  using require_text_strip by blast

lemma optional_text_again: "optional_text n w = Inr v \<Longrightarrow> optional_text n v = Inr v"
  by (cases w) (auto simp: optional_text_def bind_result_Inr_iff dest: require_text_again)

lemma normalize_turn_again:
  assumes "normalize_turn x = Inr y"
  shows "normalize_turn (y\<lparr>tn_status := st\<rparr>) = Inr (y\<lparr>tn_status := st\<rparr>)"
proof -
  from assms obtain i c w where parts: "require_text 64 (tn_id x) = Inr i" "require_text 64 (tn_conv x) = Inr c"
      "optional_text 64 (tn_target x) = Inr w" and y: "y = x\<lparr>tn_id := i, tn_conv := c, tn_target := w\<rparr>"
    by (auto simp: normalize_turn_def bind_result_Inr_iff)
  show ?thesis
    using require_text_again [OF parts(1)] require_text_again [OF parts(2)] optional_text_again [OF parts(3)]
    by (simp add: normalize_turn_def y)
qed

lemma checked_turnD: "checked_turn user x = Inr (u, y) \<Longrightarrow> require_text 64 user = Inr u \<and> normalize_turn x = Inr y \<and> tn_status y = tn_status x"
  by (auto simp: checked_turn_def normalize_turn_def bind_result_Inr_iff)

lemma checked_again:
  "require_text 64 user = Inr u \<Longrightarrow> normalize_turn x = Inr y \<Longrightarrow> checked_turn u (y\<lparr>tn_status := st\<rparr>) = Inr (u, y\<lparr>tn_status := st\<rparr>)"
  using require_text_again [of 64 user u] normalize_turn_again [of x y st] by (simp add: checked_turn_def)

lemma zip_snoc: "length xs = n \<Longrightarrow> zip (xs @ [k]) [Suc 0..<Suc (Suc n)] = zip xs [Suc 0..<Suc n] @ [(k, Suc n)]"
  using upt_Suc [of "Suc 0" "Suc n"] by (simp del: upt_Suc)

lemma insert_turn_moves:
  assumes "checked_turn u x = Inr (u, x)" and "map_of (mq_leases s) (tn_conv x) \<noteq> None \<Longrightarrow> tn_status x = Turn_Queued" and "Adds (tn_status x) \<in> A"
  shows "mq_moves A s (snd (mem_insert_turn u x s))"
proof (rule mq_movesI)
  assume ok: "mem_queue_ok s"
  show ?thesis
  proof (cases "tn_id x \<in> set (mq_ids s) \<or> map_of (mq_clients s) (tn_conv x, tn_client x) \<noteq> None")
    case True
    then show ?thesis using assms(1) by (simp add: mem_insert_turn_def)
  next
    case False
    let ?T = "mq_turns s @ [((u, tn_id x), x)]"
    let ?t = "s\<lparr>mq_ids := mq_ids s @ [tn_id x], mq_clients := mq_clients s @ [((tn_conv x, tn_client x), (u, tn_id x))],
      mq_turns := ?T, mq_seqs := mq_seqs s @ [((u, tn_id x), mq_next s)], mq_next := mq_next s + 1\<rparr>"
    have ids: "tn_id x \<notin> (\<lambda>(v, y). tn_id y) ` set (turn_rows (mq_turns s))"
      using False arg_cong [OF rows_indexes(1) [OF ok], of set] by simp
    have clients: "(tn_conv x, tn_client x) \<notin> (\<lambda>(v, y). (tn_conv y, tn_client y)) ` set (turn_rows (mq_turns s))"
      using False arg_cong [OF rows_indexes(2) [OF ok], of set] by (simp add: map_of_eq_None_iff)
    have new: "map_of (mq_turns s) (u, tn_id x) = None"
    proof (cases "map_of (mq_turns s) (u, tn_id x)")
      case (Some y)
      then have "((u, tn_id x), y) \<in> set (mq_turns s)" by (rule map_of_SomeD)
      then have "(u, y) \<in> set (turn_rows (mq_turns s))" "tn_id y = tn_id x" using turn_key(1) [OF ok] by (auto simp: in_turn_rows)
      then show ?thesis using ids by force
    qed
    have seq: "map_of (mq_seqs s) (u, tn_id x) = None"
      using new ok by (auto simp: mem_queue_ok_def map_of_eq_None_iff simp del: upt_Suc dest: set_zip_leftD)
    have old: "tn_id x \<notin> set (mq_ids s)" "map_of (mq_clients s) (tn_conv x, tn_client x) = None" using False by blast+
    have t: "snd (mem_insert_turn u x s) = ?t"
      by (simp add: mem_insert_turn_def assms(1) old new seq update_fresh)
    have "queue_move (Adds (tn_status x)) (mem_queue_view s) ((mem_queue_view s)\<lparr>qv_turns := qv_turns (mem_queue_view s) @ [(u, x)]\<rparr>)"
      by (rule queue_move.add)
        (use ids clients assms(2) in simp_all)
    then have move: "queue_move (Adds (tn_status x)) (mem_queue_view s) (mem_queue_view ?t)"
      by (simp add: mem_queue_view_def turn_rows_def)
    show ?thesis unfolding t
    proof (rule mq_one [OF move])
      show "Adds (tn_status x) = Other \<or> Adds (tn_status x) \<in> A" using assms(3) by simp
      show "mem_queue_ok ?t" if "queue_ok (mem_queue_view ?t)" using that ok
        by (simp add: mem_queue_ok_def zip_snoc del: upt_Suc)
    qed
  qed
qed

lemma known_or_new_moves:
  assumes "checked_turn u x = Inr (u, x)" and "map_of (mq_leases s) (tn_conv x) \<noteq> None \<Longrightarrow> tn_status x = Turn_Queued" and "Adds (tn_status x) \<in> A"
  shows "mq_moves A s (snd (mem_known_or_new u x s))"
  using insert_turn_moves [OF assms] by (auto simp: mem_known_or_new_def split: option.splits)

lemma held_turn_keeps:
  assumes "checked_turn user x = Inr (u, y)" and "held_turn held y = Inr z"
  shows "checked_turn u z = Inr (u, z)" and "held \<Longrightarrow> tn_status z = Turn_Queued" and "tn_conv z = tn_conv y"
    and "tn_status z \<in> {tn_status x, Turn_Queued}"
proof -
  note D = checked_turnD [OF assms(1)]
  have z: "z = y\<lparr>tn_status := tn_status z\<rparr>" using assms(2) by (auto simp: held_turn_def split: if_splits)
  have "checked_turn u (y\<lparr>tn_status := tn_status z\<rparr>) = Inr (u, y\<lparr>tn_status := tn_status z\<rparr>)" using D checked_again by blast
  then show "checked_turn u z = Inr (u, z)" using z by metis
  show "held \<Longrightarrow> tn_status z = Turn_Queued" "tn_conv z = tn_conv y" "tn_status z \<in> {tn_status x, Turn_Queued}"
    using assms(2) D by (auto simp: held_turn_def split: if_splits)
qed

lemma mem_create_moves:
  assumes "{Adds (tn_status x), Adds Turn_Queued} \<subseteq> A"
  shows "mq_moves A s (snd (mem_create_turn user x s))"
proof -
  have "mq_moves A s (snd (mem_insert_turn u z s))"
    if "checked_turn user x = Inr (u, y)" "held_turn (map_of (mq_leases s) (tn_conv y) \<noteq> None) y = Inr z" for u y z
    using held_turn_keeps [OF that] assms by (intro insert_turn_moves) auto
  then show ?thesis unfolding mem_create_turn_def by (cases "checked_turn user x") (auto split: sum.split)
qed

lemma mem_enqueue_moves:
  assumes "{Adds (tn_status x), Adds Turn_Queued} \<subseteq> A"
  shows "mq_moves A s (snd (mem_enqueue_turn user x s))"
proof -
  have "mq_moves A s (snd (mem_known_or_new u z s))"
    if "checked_turn user x = Inr (u, y)" "held_turn (map_of (mq_leases s) (tn_conv y) \<noteq> None) y = Inr z" for u y z
    using held_turn_keeps [OF that] assms by (intro known_or_new_moves) auto
  then show ?thesis unfolding mem_enqueue_turn_def by (cases "checked_turn user x") (auto split: sum.split)
qed

lemma mem_enqueue_exec_moves:
  assumes "{Adds Turn_Accepted, Adds Turn_Queued} \<subseteq> A"
  shows "mq_moves A s (snd (mem_enqueue_turn_for_execution user x s))"
proof -
  have "mq_moves A s (snd (mem_known_or_new u (y\<lparr>tn_status := st\<rparr>) s))"
    if "require_text 64 user = Inr u" "execution_turn x = Inr y" "st \<in> {Turn_Accepted, Turn_Queued}"
      "map_of (mq_leases s) (tn_conv y) \<noteq> None \<Longrightarrow> st = Turn_Queued" for u y st
  proof (rule known_or_new_moves)
    have "normalize_turn x = Inr y" using that(2) by (auto simp: execution_turn_def bind_result_Inr_iff split: if_splits)
    then show "checked_turn u (y\<lparr>tn_status := st\<rparr>) = Inr (u, y\<lparr>tn_status := st\<rparr>)" using checked_again that(1) by blast
  qed (use that assms in auto)
  then show ?thesis unfolding mem_enqueue_turn_for_execution_def
    by (auto simp: bind_result_Inr_iff Let_def split: sum.split)
qed

lemma waiting_keys:
  assumes "mem_queue_ok s" and "k \<in> set (map fst (filter (\<lambda>((v, i), x). v = u \<and> tn_conv x = c \<and> waiting (tn_status x)) (mq_turns s)))"
  shows "\<exists>i x. k = (u, i) \<and> map_of (mq_turns s) k = Some x \<and> tn_conv x = c \<and> waiting (tn_status x)"
proof -
  from assms(2) obtain i x where "k = (u, i)" "((u, i), x) \<in> set (mq_turns s)" "tn_conv x = c" "waiting (tn_status x)" by auto
  then show ?thesis using turn_key(2) [OF assms(1)] by blast
qed

lemma first_turn_moves:
  assumes "map_of (mq_leases s) c = None" and "\<not> mem_any_turn busy u c s" and "Starts True \<in> A"
  shows "mq_moves A s (snd (mem_start_turn (mem_turn_keys (\<lambda>x. waiting (tn_status x)) u c s) s))"
proof (rule mq_movesI)
  assume ok: "mem_queue_ok s"
  show ?thesis unfolding mem_turn_keys_eq [OF ok]
    by (rule start_turn_moves [OF ok waiting_keys [OF ok] assms(1,2)]) (use assms(3) in auto)
qed

lemma oldest_turn_moves:
  assumes "map_of (mq_leases s) c = None" and "\<not> mem_any_turn busy u c s" and "{Starts True, Starts False} \<subseteq> A"
  shows "mq_moves A s (snd (mem_start_turn (mem_oldest_waiting u c s) s))"
proof (rule mq_movesI)
  assume ok: "mem_queue_ok s"
  show ?thesis
    by (rule start_turn_moves [OF ok waiting_keys [OF ok] assms(1,2)]) (use assms(3) in \<open>auto simp: mem_oldest_waiting_def\<close>)
qed

lemma mem_claim_moves:
  assumes "Starts True \<in> A"
  shows "mq_moves A s (snd (mem_claim_next_turn user conv s))"
proof (cases "require_text 64 conv")
  case (Inr c)
  show ?thesis
  proof (cases "map_of (mq_leases s) c = None")
    case True
    show ?thesis unfolding mem_claim_next_turn_def Inr
      using True first_turn_moves [OF True _ assms] by (auto simp: case_prod_beta split: sum.split)
  qed (simp add: mem_claim_next_turn_def Inr)
qed (simp add: mem_claim_next_turn_def)

lemma hold_turns_retag: "hold_turns u c s = s\<lparr>mq_turns := retag (held_status u c) (mq_turns s)\<rparr>"
proof -
  have "map (\<lambda>((v, i), x). ((v, i), if v = u \<and> tn_conv x = c \<and> tn_status x = Turn_Accepted then x\<lparr>tn_status := Turn_Queued\<rparr> else x)) T =
      retag (held_status u c) T" for T
    by (induction T) (auto simp: retag_def held_status_def)
  then show ?thesis by (simp add: hold_turns_def)
qed

lemma leases_moves:
  assumes "queue_move l (mem_queue_view s) ((mem_queue_view s)\<lparr>qv_lease := map_of L\<rparr>)" and "l = Other \<or> l \<in> A"
  shows "mq_moves A s (s\<lparr>mq_leases := L\<rparr>)"
  by (rule mq_one [OF _ assms(2)]) (use assms(1) in \<open>auto simp: mem_queue_view_def mem_queue_ok_def\<close>)

lemma mem_acquire_moves:
  assumes "Takes (py_strip conv) token \<in> A"
  shows "mq_moves A s (snd (mem_acquire_compaction_lease user conv worker now until token s))"
proof -
  have take: "mq_moves A s ((hold_turns u c s)\<lparr>mq_leases := AList.update c (u, l) (mq_leases s)\<rparr>)"
    if own: "\<not> foreign_lease u c s" and free: "\<not> mem_any_turn busy u c s" and "c = py_strip conv" "ls_token l = token" for u c l
  proof -
    let ?t = "hold_turns u c s"
    have held: "mq_moves A s ?t" unfolding hold_turns_retag
      by (rule retag_moves [where l = Other]) (use hold_all [of "mem_queue_view s" u c] in simp_all)
    have "\<not> any_turn busy u c (turn_rows (mq_turns s))" using free by (simp add: any_rows)
    then have "\<not> any_turn busy u c (qv_turns (mem_queue_view ?t))"
      using hold_not_busy by (simp add: hold_turns_retag retag_rows)
    then have "queue_move (Takes c token) (mem_queue_view ?t) ((mem_queue_view ?t)\<lparr>qv_lease := (qv_lease (mem_queue_view ?t))(c \<mapsto> (u, l))\<rparr>)"
      by (rule queue_move.take) (use own that(4) in \<open>auto simp: foreign_lease_def hold_turns_def\<close>)
    then have "mq_moves A ?t (?t\<lparr>mq_leases := AList.update c (u, l) (mq_leases s)\<rparr>)"
      by (intro leases_moves [where l = "Takes c token"]) (use assms that(3) in \<open>simp_all add: hold_turns_def update_conv'\<close>)
    with held show ?thesis by (rule mq_moves_trans)
  qed
  have "require_text 64 conv = Inr c \<Longrightarrow> c = py_strip conv" for c
    by (auto simp: require_text_def Let_def split: if_splits)
  then show ?thesis unfolding mem_acquire_compaction_lease_def
    by (auto simp: bind_result_Inr_iff Let_def split: sum.split intro!: take)
qed

lemma mem_close_moves:
  assumes "map_of (mq_leases s) c = Some (u, l)" and "claim \<Longrightarrow> \<not> mem_any_turn busy u c s" and "Starts True \<in> A"
  shows "mq_moves A s (snd (mem_close_lease u c claim retry s))"
proof (cases claim)
  case True
  let ?t = "s\<lparr>mq_leases := AList.delete c (mq_leases s)\<rparr>"
  have "mq_moves A s ?t"
    by (rule leases_moves [where l = Other]) (use queue_move.release [of "mem_queue_view s" c] in \<open>simp_all add: delete_conv'\<close>)
  moreover have "mq_moves A ?t (snd (mem_start_turn (mem_turn_keys (\<lambda>x. waiting (tn_status x)) u c ?t) ?t))"
    by (rule first_turn_moves) (use assms True in \<open>simp_all add: mem_any_turn_def delete_conv'\<close>)
  moreover have "turn_seq ?t = turn_seq s" by (simp add: turn_seq_def fun_eq_iff)
  then have "mem_turn_keys P u c ?t = mem_turn_keys P u c s" for P by (simp add: mem_turn_keys_def)
  ultimately show ?thesis using True by (auto simp: mem_close_lease_def intro: mq_moves_trans)
next
  case False
  have "mq_moves A s (s\<lparr>mq_leases := AList.update c (u, l\<lparr>ls_until := r\<rparr>) (mq_leases s)\<rparr>)" for r
    by (rule leases_moves [where l = Other])
      (use queue_move.postpone [of "mem_queue_view s" c u l "l\<lparr>ls_until := r\<rparr>"] assms(1) in \<open>simp_all add: update_conv'\<close>)
  then show ?thesis using False assms(1) by (auto simp: mem_close_lease_def split: option.split)
qed

lemma lease_fitsD: "lease_fits u w token now st \<Longrightarrow> \<exists>l. st = Some (u, l) \<and> ls_worker l = w \<and> ls_token l = token \<and> now < ls_until l"
  by (auto simp: lease_fits_def split: option.splits)

lemma mem_finish_moves:
  assumes "Starts True \<in> A"
  shows "mq_moves A s (snd (mem_finish_compaction user conv worker token now claim retry s))"
proof -
  have "mq_moves A s (snd (mem_close_lease u c claim retry s))"
    if "lease_fits u w token now (map_of (mq_leases s) c)" "claim \<Longrightarrow> \<not> mem_any_turn busy u c s" for u c w
    using lease_fitsD [OF that(1)] mem_close_moves that(2) assms by blast
  then show ?thesis unfolding mem_finish_compaction_def
    by (auto simp: bind_result_Inr_iff case_prod_beta split: sum.split)
qed

lemma mem_events_free: "mq_moves A s (t\<lparr>mq_events := es\<rparr>) = mq_moves A s t"
  by (simp add: mq_moves_def mem_queue_ok_def mem_queue_view_def)

lemma mem_finish_event_moves:
  assumes "Starts True \<in> A"
  shows "mq_moves A s (snd (mem_finish_compaction_with_event user conv worker token now claim retry run ty payload fresh s))"
proof -
  have "mq_moves A s (snd (mem_close_lease u c claim retry s))"
    if "lease_fits u w token now (map_of (mq_leases s) c)" "claim \<Longrightarrow> \<not> mem_any_turn busy u c s" for u c w
    using lease_fitsD [OF that(1)] mem_close_moves that(2) assms by blast
  then show ?thesis unfolding mem_finish_compaction_with_event_def
    by (auto simp: bind_result_Inr_iff case_prod_beta Let_def mem_events_free split: sum.split)
qed

lemma mem_complete_moves:
  assumes "{Starts True, Starts False} \<subseteq> A"
  shows "mq_moves A s (snd (mem_complete_turn_and_claim_next user conv tid s))"
proof (rule mq_movesI)
  assume ok: "mem_queue_ok s"
  have put: "mq_moves A s (put_turn (u, i) Turn_Completed s)"
    if x: "map_of (mq_turns s) (u, i) = Some x" "tn_status x \<in> {Turn_Accepted, Turn_Processing, Turn_Completed}" for u i x
  proof -
    have row: "((u, i), x) \<in> set (mq_turns s)" using map_of_SomeD [OF x(1)] .
    have "tn_id x = i" using turn_key(1) [OF ok row] .
    moreover have "queue_move Other (mem_queue_view s) ((mem_queue_view s)\<lparr>qv_turns := restatus (set_status (tn_id x) Turn_Completed) (qv_turns (mem_queue_view s))\<rparr>)"
      by (rule queue_move.finish [where u = u]) (use row x(2) in \<open>auto simp: in_turn_rows\<close>)
    ultimately show ?thesis unfolding put_turn_retag [OF ok x(1)] by (intro retag_moves [where l = Other]) simp_all
  qed
  have onward: "mq_moves A s (snd (mem_start_turn (mem_oldest_waiting u c t) t))"
    if x: "map_of (mq_turns s) (u, i) = Some x" "tn_status x \<in> {Turn_Accepted, Turn_Processing, Turn_Completed}"
      and t: "t = put_turn (u, i) Turn_Completed s" and free: "map_of (mq_leases s) c = None" "\<not> mem_any_turn busy u c t" for u c i x t
  proof (rule mq_moves_trans)
    show "mq_moves A s t" unfolding t by (rule put [OF x])
    have "map_of (mq_leases t) c = None" using free(1) x(1) by (simp add: t put_turn_def)
    then show "mq_moves A t (snd (mem_start_turn (mem_oldest_waiting u c t) t))" by (rule oldest_turn_moves) (use free(2) assms in simp_all)
  qed
  have "mq_moves A s (snd (case map_of (mq_turns s) (u, i) of
             None \<Rightarrow> (Inl Record_Conflict, s)
           | Some x \<Rightarrow>
               if tn_conv x \<noteq> c \<or> tn_status x \<notin> {Turn_Accepted, Turn_Processing, Turn_Completed} then (Inl Record_Conflict, s)
               else
                 (let t = put_turn (u, i) Turn_Completed s; y = x\<lparr>tn_status := Turn_Completed\<rparr> in
                  if map_of (mq_leases s) c \<noteq> None \<or> mem_any_turn busy u c t then (Inr (y, None), t)
                  else (case mem_start_turn (mem_oldest_waiting u c t) t of (r, t') \<Rightarrow> (Inr (y, r), t')))))" for u i c
  proof (cases "map_of (mq_turns s) (u, i)")
    case (Some x)
    show ?thesis
    proof (cases "tn_conv x \<noteq> c \<or> tn_status x \<notin> {Turn_Accepted, Turn_Processing, Turn_Completed}")
      case False
      then have st: "tn_conv x = c" "tn_status x \<in> {Turn_Accepted, Turn_Processing, Turn_Completed}" by auto
      show ?thesis
        using put [OF Some st(2)] onward [OF Some st(2) refl, of c] Some st
        by (cases "map_of (mq_leases s) c \<noteq> None \<or> mem_any_turn busy u c (put_turn (u, i) Turn_Completed s)")
          (auto simp: Let_def case_prod_beta simp del: split_paired_All not_None_eq)
    qed (use Some in simp)
  qed simp
  then show ?thesis unfolding mem_complete_turn_and_claim_next_def by (auto simp: bind_result_Inr_iff split: sum.split)
qed

lemma mem_create_event_moves: "mq_moves A s (snd (mem_queue_create_event user e s))"
  by (simp add: mem_queue_create_event_def mem_events_free split: prod.split)

section \<open>The contract\<close>

lemma mem_queue_moves: "tags False c \<subseteq> A \<Longrightarrow> mq_moves A s (snd (mem_queue_exec s c))"
  by (cases c) (auto intro: mem_create_moves mem_enqueue_moves mem_enqueue_exec_moves mem_claim_moves mem_complete_moves
      mem_acquire_moves mem_finish_moves mem_finish_event_moves mem_create_event_moves)

interpretation mem_turns: turn_queue mem_queue_exec mem_queue_ok mem_queue_view "tags False"
proof unfold_locales
  fix w c A
  assume ok: "mem_queue_ok w"
  show "mem_queue_ok (snd (mem_queue_exec w c))"
    using mem_queue_moves [OF order_refl, of c w] ok by (simp add: mq_moves_def)
  show "queue_ok (mem_queue_view w)" using ok by (simp add: mem_queue_ok_def)
  show "moves A (mem_queue_view w) (mem_queue_view (snd (mem_queue_exec w c)))" if "tags False c \<subseteq> A"
    using mem_queue_moves [OF that, of w] ok by (simp add: mq_moves_def)
qed

end
