(* ===== verification/Turn_Sql.thy ===== *)
theory Turn_Sql
  imports Turn_Laws
begin

text \<open>
  The turn queue in SQL (\<^verbatim>\<open>SQLCompactionQueueRepository\<close> in
  \<^verbatim>\<open>agent_control_plane/persistence/compaction_queue.py\<close> over \<^verbatim>\<open>SQLAgentRuntimeRepository\<close> in
  \<^verbatim>\<open>repositories.py\<close>). The rows of turns are in the order of \<^verbatim>\<open>inbox_sequence\<close>; a coordination row
  per conversation holds its owner and the state of its compaction. A method first makes sure that the
  coordination row exists, in a transaction of its own (the command \<open>Prepare_Conversation\<close> is that
  transaction alone), and then runs its transaction, which an error undoes.
\<close>

datatype lock_state = Lock_Idle | Lock_Active | Lock_Retry_Required

record lock_row =
  lk_user :: string
  lk_state :: lock_state
  lk_lease :: "lease option"

record sql_queue =
  sq_rows :: "(string \<times> turn) list"
  sq_locks :: "(string, lock_row) dict"
  sq_other :: "(string \<times> string) list"
  sq_events :: "sql_event_row list"

type_synonym 'a queue_tx = "gw_error + 'a \<times> sql_queue"
type_synonym 'a sq_result = "(gw_error + 'a) \<times> sql_queue"

definition idle_row :: "string \<Rightarrow> lock_row" where
  "idle_row u = \<lparr>lk_user = u, lk_state = Lock_Idle, lk_lease = None\<rparr>"

definition paused :: "lock_row \<Rightarrow> bool" where
  "paused r = (lk_state r \<in> {Lock_Active, Lock_Retry_Required})"

definition lease_from_row :: "lock_row \<Rightarrow> gw_error + lease" where
  "lease_from_row r = (if paused r then (case lk_lease r of None \<Rightarrow> Inl Lease_Conflict | Some l \<Rightarrow> Inr l) else Inl Lease_Conflict)"

definition ensure_row :: "string \<Rightarrow> string \<Rightarrow> sql_queue \<Rightarrow> gw_error + sql_queue" where
  "ensure_row u c s =
     (case map_of (sq_locks s) c of
        Some r \<Rightarrow> if lk_user r \<noteq> u then Inl Record_Conflict else Inr s
      | None \<Rightarrow>
          if list_ex (\<lambda>(v, x). tn_conv x = c \<and> v \<noteq> u) (sq_rows s) then Inl Record_Conflict
          else Inr (s\<lparr>sq_locks := AList.update c (idle_row u) (sq_locks s)\<rparr>))"

definition coordinated :: "string \<Rightarrow> string \<Rightarrow> (lock_row \<Rightarrow> sql_queue \<Rightarrow> 'a queue_tx) \<Rightarrow> sql_queue \<Rightarrow> 'a sq_result" where
  "coordinated u c tx s =
     (case ensure_row u c s of
        Inl er \<Rightarrow> (Inl er, s)
      | Inr t \<Rightarrow>
          (case map_of (sq_locks t) c of
             None \<Rightarrow> (Inl No_Row, t)
           | Some r \<Rightarrow> (case tx r t of Inl er \<Rightarrow> (Inl er, t) | Inr (a, t') \<Rightarrow> (Inr a, t'))))"

definition owned_tx :: "string \<Rightarrow> (lock_row \<Rightarrow> sql_queue \<Rightarrow> 'a queue_tx) \<Rightarrow> lock_row \<Rightarrow> sql_queue \<Rightarrow> 'a queue_tx" where
  "owned_tx u tx r s = (if lk_user r \<noteq> u then Inl Record_Conflict else tx r s)"

section \<open>Turns\<close>

definition insert_turn_row :: "string \<Rightarrow> turn \<Rightarrow> sql_queue \<Rightarrow> turn queue_tx" where
  "insert_turn_row u x s =
     (if list_ex (\<lambda>(v, y). tn_id y = tn_id x \<or> tn_conv y = tn_conv x \<and> tn_client y = tn_client x) (sq_rows s)
      then Inl Record_Conflict else Inr (x, s\<lparr>sq_rows := sq_rows s @ [(u, x)]\<rparr>))"

definition set_row :: "string \<Rightarrow> turn_status \<Rightarrow> sql_queue \<Rightarrow> sql_queue" where
  "set_row i st s = s\<lparr>sq_rows := restatus (set_status i st) (sq_rows s)\<rparr>"

definition sql_create_turn :: "string \<Rightarrow> turn \<Rightarrow> sql_queue \<Rightarrow> turn sq_result" where
  "sql_create_turn user x s =
     (case checked_turn user x of
        Inl er \<Rightarrow> (Inl er, s)
      | Inr (u, y) \<Rightarrow>
          coordinated u (tn_conv y) (owned_tx u (\<lambda>r t. bind_result (held_turn (paused r) y) (\<lambda>z. insert_turn_row u z t))) s)"

definition sql_enqueue_turn :: "string \<Rightarrow> turn \<Rightarrow> sql_queue \<Rightarrow> turn sq_result" where
  "sql_enqueue_turn user x s =
     (case checked_turn user x of
        Inl er \<Rightarrow> (Inl er, s)
      | Inr (u, y) \<Rightarrow>
          coordinated u (tn_conv y) (owned_tx u (\<lambda>r t.
            case List.find (\<lambda>(v, z). v = u \<and> tn_conv z = tn_conv y \<and> tn_client z = tn_client y) (sq_rows t) of
              Some (v, z) \<Rightarrow>
                if paused r \<and> tn_status z = Turn_Accepted then Inr (z\<lparr>tn_status := Turn_Queued\<rparr>, set_row (tn_id z) Turn_Queued t)
                else Inr (z, t)
            | None \<Rightarrow> bind_result (held_turn (paused r) y) (\<lambda>z. insert_turn_row u z t))) s)"

definition sql_enqueue_turn_for_execution :: "string \<Rightarrow> turn \<Rightarrow> sql_queue \<Rightarrow> turn sq_result" where
  "sql_enqueue_turn_for_execution user x s =
     (case bind_result (require_text 64 user) (\<lambda>u. bind_result (execution_turn x) (\<lambda>y. Inr (u, y))) of
        Inl er \<Rightarrow> (Inl er, s)
      | Inr (u, y) \<Rightarrow> sql_enqueue_turn u y s)"

definition sql_get_turn :: "string \<Rightarrow> string \<Rightarrow> sql_queue \<Rightarrow> gw_error + turn option" where
  "sql_get_turn user i s =
     bind_result (require_text 64 user) (\<lambda>u. bind_result (require_text 64 i) (\<lambda>k.
       Inr (map_option snd (List.find (\<lambda>(v, x). v = u \<and> tn_id x = k) (sq_rows s)))))"

definition sql_get_turn_by_client :: "string \<Rightarrow> string \<Rightarrow> string \<Rightarrow> sql_queue \<Rightarrow> gw_error + turn option" where
  "sql_get_turn_by_client user conv client s =
     bind_result (require_text 64 user) (\<lambda>u. bind_result (require_text 64 conv) (\<lambda>c.
       Inr (map_option snd (List.find (\<lambda>(v, x). v = u \<and> tn_conv x = c \<and> tn_client x = client) (sq_rows s)))))"

definition sql_list_turns :: "string \<Rightarrow> string \<Rightarrow> sql_queue \<Rightarrow> gw_error + turn list" where
  "sql_list_turns user conv s =
     bind_result (require_text 64 user) (\<lambda>u. bind_result (require_text 64 conv) (\<lambda>c.
       Inr (map snd (filter (\<lambda>(v, x). v = u \<and> tn_conv x = c) (sq_rows s)))))"

definition sql_start_first :: "string \<Rightarrow> string \<Rightarrow> sql_queue \<Rightarrow> turn option \<times> sql_queue" where
  "sql_start_first u c s =
     (case waiting_turns u c (sq_rows s) of
        [] \<Rightarrow> (None, s)
      | x # xs \<Rightarrow> (Some (x\<lparr>tn_status := Turn_Processing\<rparr>), set_row (tn_id x) Turn_Processing s))"

definition sql_claim_next_turn :: "string \<Rightarrow> string \<Rightarrow> sql_queue \<Rightarrow> turn option sq_result" where
  "sql_claim_next_turn user conv s =
     (case bind_result (require_text 64 user) (\<lambda>u. bind_result (require_text 64 conv) (\<lambda>c. Inr (u, c))) of
        Inl er \<Rightarrow> (Inl er, s)
      | Inr (u, c) \<Rightarrow>
          if map_of (sq_locks s) c = None \<and> \<not> any_turn (\<lambda>x. True) u c (sq_rows s) then (Inr None, s)
          else (case ensure_row u c s of
             Inl er \<Rightarrow> (Inr None, s)
           | Inr t \<Rightarrow>
               coordinated u c (owned_tx u (\<lambda>r t.
                 if paused r \<or> any_turn busy u c (sq_rows t) then Inr (None, t) else Inr (sql_start_first u c t))) t))"

section \<open>The compaction lease\<close>

definition set_lock :: "string \<Rightarrow> lock_row \<Rightarrow> sql_queue \<Rightarrow> sql_queue" where
  "set_lock c r s = s\<lparr>sq_locks := AList.update c r (sq_locks s)\<rparr>"

text \<open>A conversation whose compaction is to be retried can be taken at once.\<close>

definition sql_acquire_compaction_lease ::
  "string \<Rightarrow> string \<Rightarrow> string \<Rightarrow> time \<Rightarrow> time \<Rightarrow> string \<Rightarrow> sql_queue \<Rightarrow> lease option sq_result" where
  "sql_acquire_compaction_lease user conv worker now until token s =
     (case bind_result (require_text 64 user) (\<lambda>u. bind_result (require_text 64 conv) (\<lambda>c.
             bind_result (lease_window worker now until) (\<lambda>w. Inr (u, c, w)))) of
        Inl er \<Rightarrow> (Inl er, s)
      | Inr (u, c, w) \<Rightarrow>
          coordinated u c (owned_tx u (\<lambda>r t.
            bind_result (if lk_state r = Lock_Active then bind_result (lease_from_row r) (\<lambda>l. Inr (now < ls_until l)) else Inr False) (\<lambda>runs.
              if runs \<or> any_turn busy u c (sq_rows t) then Inr (None, t)
              else (let l = \<lparr>ls_worker = w, ls_token = token, ls_until = until\<rparr> in
                    Inr (Some l, set_lock c (r\<lparr>lk_state := Lock_Active, lk_lease := Some l\<rparr>)
                           (t\<lparr>sq_rows := restatus (held_status u c) (sq_rows t)\<rparr>)))))) s)"

definition sql_get_compaction_lease :: "string \<Rightarrow> string \<Rightarrow> sql_queue \<Rightarrow> gw_error + lease option" where
  "sql_get_compaction_lease user conv s =
     bind_result (require_text 64 user) (\<lambda>u. bind_result (require_text 64 conv) (\<lambda>c.
       case map_of (sq_locks s) c of
         None \<Rightarrow> Inr None
       | Some r \<Rightarrow> if lk_user r \<noteq> u \<or> lk_state r = Lock_Idle then Inr None else bind_result (lease_from_row r) (\<lambda>l. Inr (Some l))))"

definition sql_complete_turn_and_claim_next ::
  "string \<Rightarrow> string \<Rightarrow> string \<Rightarrow> sql_queue \<Rightarrow> (turn \<times> turn option) sq_result" where
  "sql_complete_turn_and_claim_next user conv tid s =
     (case bind_result (require_text 64 user) (\<lambda>u. bind_result (require_text 64 conv) (\<lambda>c.
             bind_result (require_text 64 tid) (\<lambda>i. Inr (u, c, i)))) of
        Inl er \<Rightarrow> (Inl er, s)
      | Inr (u, c, i) \<Rightarrow>
          coordinated u c (owned_tx u (\<lambda>r t.
            case List.find (\<lambda>(v, x). v = u \<and> tn_conv x = c \<and> tn_id x = i) (sq_rows t) of
              None \<Rightarrow> Inl Record_Conflict
            | Some (v, x) \<Rightarrow>
                if tn_status x \<notin> {Turn_Accepted, Turn_Processing, Turn_Completed} then Inl Record_Conflict
                else
                  (let t' = set_row i Turn_Completed t; y = x\<lparr>tn_status := Turn_Completed\<rparr> in
                   if lk_state r \<noteq> Lock_Idle \<or> any_turn busy u c (sq_rows t') then Inr ((y, None), t')
                   else (case sql_start_first u c t' of (n, t'') \<Rightarrow> Inr ((y, n), t''))))) s)"

definition sql_close_lease :: "string \<Rightarrow> string \<Rightarrow> bool \<Rightarrow> time option \<Rightarrow> lock_row \<Rightarrow> lease \<Rightarrow> sql_queue \<Rightarrow> turn option \<times> sql_queue" where
  "sql_close_lease u c claim retry r l s =
     (if claim then sql_start_first u c (set_lock c (r\<lparr>lk_state := Lock_Idle, lk_lease := None\<rparr>) s)
      else (None, set_lock c (r\<lparr>lk_state := Lock_Retry_Required,
              lk_lease := Some (case retry of None \<Rightarrow> l | Some m \<Rightarrow> l\<lparr>ls_until := m\<rparr>)\<rparr>) s))"

text \<open>The fencing check at the end of a compaction.\<close>

definition fenced_lease :: "string \<Rightarrow> string \<Rightarrow> string \<Rightarrow> string \<Rightarrow> time \<Rightarrow> bool \<Rightarrow> lock_row \<Rightarrow> sql_queue \<Rightarrow> gw_error + lease" where
  "fenced_lease u c w token now claim r s =
     (if lk_user r \<noteq> u \<or> lk_state r \<noteq> Lock_Active then Inl Lease_Conflict
      else bind_result (lease_from_row r) (\<lambda>l.
        if ls_worker l \<noteq> w \<or> ls_token l \<noteq> token \<or> ls_until l \<le> now then Inl Lease_Conflict
        else if claim \<and> any_turn busy u c (sq_rows s) then Inl Lease_Conflict
        else Inr l))"

definition sql_finish_compaction ::
  "string \<Rightarrow> string \<Rightarrow> string \<Rightarrow> string \<Rightarrow> time \<Rightarrow> bool \<Rightarrow> time option \<Rightarrow> sql_queue \<Rightarrow> turn option sq_result" where
  "sql_finish_compaction user conv worker token now claim retry s =
     (case bind_result (require_text 64 user) (\<lambda>u. bind_result (require_text 64 conv) (\<lambda>c.
             bind_result (finish_parameters worker now claim retry) (\<lambda>w. Inr (u, c, w)))) of
        Inl er \<Rightarrow> (Inl er, s)
      | Inr (u, c, w) \<Rightarrow>
          coordinated u c (\<lambda>r t. bind_result (fenced_lease u c w token now claim r t) (\<lambda>l.
            Inr (sql_close_lease u c claim retry r l t))) s)"

text \<open>The events of the conversation with the owners that the other tables give it.\<close>

definition sql_queue_events :: "sql_queue \<Rightarrow> sql_events" where
  "sql_queue_events s =
     \<lparr>se_other = sq_other s @ map (\<lambda>(u, x). (tn_conv x, u)) (sq_rows s), se_rows = sq_events s,
      se_coord = map (\<lambda>(c, r). (c, lk_user r)) (sq_locks s)\<rparr>"

definition adopt_rows :: "(string, string) dict \<Rightarrow> (string, lock_row) dict \<Rightarrow> (string, lock_row) dict" where
  "adopt_rows coord locks = fold (\<lambda>(c, u) d. if map_of d c = None then AList.update c (idle_row u) d else d) coord locks"

definition sql_queue_create_event :: "string \<Rightarrow> agent_event \<Rightarrow> sql_queue \<Rightarrow> agent_event sq_result" where
  "sql_queue_create_event user e s =
     (case sql_create_event user e (sql_queue_events s) of
        (r, es) \<Rightarrow> (r, s\<lparr>sq_events := se_rows es, sq_locks := adopt_rows (se_coord es) (sq_locks s)\<rparr>))"

definition sql_finish_compaction_with_event ::
  "string \<Rightarrow> string \<Rightarrow> string \<Rightarrow> string \<Rightarrow> time \<Rightarrow> bool \<Rightarrow> time option \<Rightarrow> string \<Rightarrow> string \<Rightarrow> json \<Rightarrow> string
   \<Rightarrow> sql_queue \<Rightarrow> (turn option \<times> agent_event) sq_result" where
  "sql_finish_compaction_with_event user conv worker token now claim retry run ty payload fresh s =
     (case bind_result (require_text 64 user) (\<lambda>u. bind_result (require_text 64 conv) (\<lambda>c.
             bind_result (finish_parameters worker now claim retry) (\<lambda>w. Inr (u, c, w)))) of
        Inl er \<Rightarrow> (Inl er, s)
      | Inr (u, c, w) \<Rightarrow>
          coordinated u c (\<lambda>r t. bind_result (fenced_lease u c w token now claim r t) (\<lambda>l.
            let last_row = sql_last_row c (sql_queue_events t) in
            if (case last_row of None \<Rightarrow> False | Some q \<Rightarrow> er_user q \<noteq> u) then Inl Record_Conflict
            else bind_result
                   (terminal_event (case last_row of None \<Rightarrow> 1 | Some q \<Rightarrow> ae_seq (er_event q) + 1) c run now ty payload fresh) (\<lambda>e.
              if list_ex (\<lambda>q. ae_id (er_event q) = ae_id e \<or> ae_conv (er_event q) = ae_conv e \<and>
                    (ae_seq (er_event q) = ae_seq e \<or> ae_cursor (er_event q) = ae_cursor e)) (sq_events t)
              then Inl Record_Conflict
              else (case sql_close_lease u c claim retry r l t of (n, t') \<Rightarrow>
                Inr ((n, e), t'\<lparr>sq_events := sq_events t' @ [\<lparr>er_user = u, er_event = e, er_delivery = fresh_delivery\<rparr>]\<rparr>))))) s)"

section \<open>Commands\<close>

definition prepare :: "string \<Rightarrow> string \<Rightarrow> sql_queue \<Rightarrow> unit sq_result" where
  "prepare user conv s =
     (case bind_result (require_text 64 user) (\<lambda>u. bind_result (require_text 64 conv) (\<lambda>c. ensure_row u c s)) of
        Inl er \<Rightarrow> (Inl er, s) | Inr t \<Rightarrow> (Inr (), t))"

fun sql_queue_exec :: "sql_queue \<Rightarrow> queue_cmd \<Rightarrow> (gw_error + unit) \<times> sql_queue" where
  "sql_queue_exec s (Create_Turn user x) = done_result (sql_create_turn user x s)"
| "sql_queue_exec s (Enqueue_Turn user x) = done_result (sql_enqueue_turn user x s)"
| "sql_queue_exec s (Enqueue_For_Execution user x) = done_result (sql_enqueue_turn_for_execution user x s)"
| "sql_queue_exec s (Claim_Turn user conv) = done_result (sql_claim_next_turn user conv s)"
| "sql_queue_exec s (Complete_Turn user conv tid) = done_result (sql_complete_turn_and_claim_next user conv tid s)"
| "sql_queue_exec s (Prepare_Conversation user conv) = prepare user conv s"
| "sql_queue_exec s (Acquire_Lease user conv worker now until token) =
     done_result (sql_acquire_compaction_lease user conv worker now until token s)"
| "sql_queue_exec s (Finish_Compaction user conv worker token now claim retry) =
     done_result (sql_finish_compaction user conv worker token now claim retry s)"
| "sql_queue_exec s (Finish_With_Event user conv worker token now claim retry run ty payload fresh) =
     done_result (sql_finish_compaction_with_event user conv worker token now claim retry run ty payload fresh s)"
| "sql_queue_exec s (Create_Queue_Event user e) = done_result (sql_queue_create_event user e s)"

definition new_sql_queue :: "(string \<times> string) list \<Rightarrow> sql_queue" where
  "new_sql_queue owners = \<lparr>sq_rows = [], sq_locks = [], sq_other = owners, sq_events = []\<rparr>"

section \<open>The SQL repository keeps the contract\<close>

definition lock_lease :: "lock_row option \<Rightarrow> (string \<times> lease) option" where
  "lock_lease r = (case r of None \<Rightarrow> None | Some k \<Rightarrow> if paused k then map_option (\<lambda>l. (lk_user k, l)) (lk_lease k) else None)"

definition sql_queue_view :: "sql_queue \<Rightarrow> queue" where
  "sql_queue_view s = \<lparr>qv_turns = sq_rows s, qv_lease = (\<lambda>c. lock_lease (map_of (sq_locks s) c))\<rparr>"

text \<open>The check constraints of a coordination row; the row names the owner of every turn of its conversation.\<close>

definition lock_ok :: "lock_row \<Rightarrow> bool" where
  "lock_ok r = (paused r \<longleftrightarrow> lk_lease r \<noteq> None)"

definition owned_by :: "(string, lock_row) dict \<Rightarrow> string \<Rightarrow> string \<Rightarrow> bool" where
  "owned_by L c u = (map_option lk_user (map_of L c) = Some u)"

definition sql_queue_ok :: "sql_queue \<Rightarrow> bool" where
  "sql_queue_ok s =
     (queue_ok (sql_queue_view s) \<and> (\<forall>c r. map_of (sq_locks s) c = Some r \<longrightarrow> lock_ok r) \<and>
      list_all (\<lambda>(u, x). owned_by (sq_locks s) (tn_conv x) u) (sq_rows s))"

end
