(* ===== verification/Turn_Sql_Laws.thy ===== *)
theory Turn_Sql_Laws
  imports Turn_Sql
begin

text \<open>Every method of the SQL queue is a sequence of moves: it satisfies \<open>turn_queue\<close>.\<close>

definition sq_moves :: "qlabel set \<Rightarrow> sql_queue \<Rightarrow> sql_queue \<Rightarrow> bool" where
  "sq_moves A s t = (sql_queue_ok s \<longrightarrow> moves A (sql_queue_view s) (sql_queue_view t) \<and> sql_queue_ok t)"

lemma sq_moves_refl [simp, intro]: "sq_moves A s s"
  by (simp add: sq_moves_def)

lemma sq_moves_trans [trans]: "sq_moves A s t \<Longrightarrow> sq_moves A t r \<Longrightarrow> sq_moves A s r"
  unfolding sq_moves_def by (blast intro: moves_trans)

lemma sq_movesI:
  assumes "sql_queue_ok s \<Longrightarrow> moves A (sql_queue_view s) (sql_queue_view t)"
    and "\<And>c r. sql_queue_ok s \<Longrightarrow> map_of (sq_locks t) c = Some r \<Longrightarrow> lock_ok r"
    and "sql_queue_ok s \<Longrightarrow> list_all (\<lambda>(u, x). owned_by (sq_locks t) (tn_conv x) u) (sq_rows t)"
  shows "sq_moves A s t"
  using assms moves_ok unfolding sq_moves_def sql_queue_ok_def by blast

lemma view_fields [simp]:
  "qv_turns (sql_queue_view s) = sq_rows s" "qv_lease (sql_queue_view s) c = lock_lease (map_of (sq_locks s) c)"
  by (simp_all add: sql_queue_view_def)

lemma lock_lease_idle [simp]: "lock_lease None = None" "lock_lease (Some (idle_row u)) = None"
  by (simp_all add: lock_lease_def idle_row_def paused_def)

lemma idle_row_ok [simp]: "lock_ok (idle_row u)"
  by (simp add: lock_ok_def idle_row_def paused_def)

lemma view_eqI: "sq_rows s = sq_rows t \<Longrightarrow> (\<And>c. lock_lease (map_of (sq_locks s) c) = lock_lease (map_of (sq_locks t) c)) \<Longrightarrow>
  sql_queue_view s = sql_queue_view t"
  by (simp add: sql_queue_view_def)

lemma owned_restatus [simp]:
  "list_all (\<lambda>(u, x). owned_by L (tn_conv x) u) (restatus f T) = list_all (\<lambda>(u, x). owned_by L (tn_conv x) u) T"
  by (induction T) (auto simp: restatus_def)

lemma owned_mono:
  assumes "list_all (\<lambda>(u, x). owned_by L (tn_conv x) u) T" and "\<And>c u. owned_by L c u \<Longrightarrow> owned_by M c u"
  shows "list_all (\<lambda>(u, x). owned_by M (tn_conv x) u) T"
  using assms by (auto simp: list_all_iff)

lemma owned_by_update: "owned_by L c (lk_user r) \<or> map_of L c = None \<Longrightarrow> owned_by L d u \<Longrightarrow> owned_by (AList.update c r L) d u"
  by (auto simp: owned_by_def)

lemma ensure_row_moves: "ensure_row u c s = Inr t \<Longrightarrow> sq_moves A s t"
proof (rule sq_movesI)
  assume t: "ensure_row u c s = Inr t"
  have "sql_queue_view t = sql_queue_view s"
    using t by (intro view_eqI) (auto simp: ensure_row_def split: option.splits if_splits)
  then show "moves A (sql_queue_view s) (sql_queue_view t)" by simp
  show "lock_ok r" if "sql_queue_ok s" "map_of (sq_locks t) d = Some r" for d r
    using that t by (auto simp: ensure_row_def sql_queue_ok_def split: option.splits if_splits)
  have "owned_by (sq_locks t) d v" if "owned_by (sq_locks s) d v" for d v
    using that t by (auto simp: ensure_row_def intro: owned_by_update split: option.splits if_splits)
  moreover have "sq_rows t = sq_rows s" using t by (auto simp: ensure_row_def split: option.splits if_splits)
  ultimately show "list_all (\<lambda>(u, x). owned_by (sq_locks t) (tn_conv x) u) (sq_rows t)" if "sql_queue_ok s"
    using that owned_mono [of "sq_locks s" "sq_rows s" "sq_locks t"] by (simp add: sql_queue_ok_def)
qed

lemma coordinated_moves:
  assumes "\<And>r t a t'. map_of (sq_locks t) c = Some r \<Longrightarrow> tx r t = Inr (a, t') \<Longrightarrow> sq_moves A t t'"
  shows "sq_moves A s (snd (coordinated u c tx s))"
proof (cases "ensure_row u c s")
  case (Inr t)
  then have "sq_moves A s t" by (rule ensure_row_moves)
  then show ?thesis using Inr assms by (auto simp: coordinated_def split: option.splits sum.splits intro: sq_moves_trans)
qed (simp add: coordinated_def)

lemma owned_moves:
  assumes "\<And>r t a t'. map_of (sq_locks t) c = Some r \<Longrightarrow> lk_user r = u \<Longrightarrow> tx r t = Inr (a, t') \<Longrightarrow> sq_moves A t t'"
  shows "sq_moves A s (snd (coordinated u c (owned_tx u tx) s))"
  by (rule coordinated_moves) (use assms in \<open>auto simp: owned_tx_def split: if_splits\<close>)

section \<open>Turns\<close>

lemma rows_moves:
  assumes "sql_queue_ok s \<Longrightarrow> queue_move l (sql_queue_view s) (sql_queue_view (s\<lparr>sq_rows := T\<rparr>))" and "l = Other \<or> l \<in> A"
    and "sql_queue_ok s \<Longrightarrow> list_all (\<lambda>(u, x). owned_by (sq_locks s) (tn_conv x) u) T"
  shows "sq_moves A s (s\<lparr>sq_rows := T\<rparr>)"
proof (rule sq_movesI)
  show "moves A (sql_queue_view s) (sql_queue_view (s\<lparr>sq_rows := T\<rparr>))" if "sql_queue_ok s"
    using assms that move_other move_in by blast
qed (use assms(3) in \<open>auto simp: sql_queue_ok_def\<close>)

lemma insert_moves:
  assumes "insert_turn_row u x t = Inr (a, t')" and "map_of (sq_locks t) (tn_conv x) = Some r" and "lk_user r = u"
    and "paused r \<Longrightarrow> tn_status x = Turn_Queued" and "Adds (tn_status x) \<in> A"
  shows "sq_moves A t t'"
proof -
  have t': "t' = t\<lparr>sq_rows := sq_rows t @ [(u, x)]\<rparr>" and new: "\<And>v y. (v, y) \<in> set (sq_rows t) \<Longrightarrow>
      tn_id y \<noteq> tn_id x \<and> \<not> (tn_conv y = tn_conv x \<and> tn_client y = tn_client x)"
    using assms(1) by (auto simp: insert_turn_row_def list_ex_iff split: if_splits)
  have "queue_move (Adds (tn_status x)) (sql_queue_view t) ((sql_queue_view t)\<lparr>qv_turns := sq_rows t @ [(u, x)]\<rparr>)"
    using queue_move.add [of x "sql_queue_view t" u] new assms(2,4) by (fastforce simp: lock_lease_def split: if_splits)
  then show ?thesis unfolding t' by (intro rows_moves) (use assms(2,3,5) in \<open>auto simp: sql_queue_view_def sql_queue_ok_def owned_by_def\<close>)
qed

lemma held_status_of: "held_turn b y = Inr z \<Longrightarrow> z = y \<and> \<not> b \<or> z = y\<lparr>tn_status := Turn_Queued\<rparr> \<and> b"
  by (auto simp: held_turn_def split: if_splits)

lemma held_insert_moves:
  assumes "bind_result (held_turn (paused r) y) (\<lambda>z. insert_turn_row u z t) = Inr (a, t')"
    and "map_of (sq_locks t) (tn_conv y) = Some r" and "lk_user r = u" and "Adds (tn_status y) \<in> A" and "Adds Turn_Queued \<in> A"
  shows "sq_moves A t t'"
proof -
  obtain z where z: "held_turn (paused r) y = Inr z" "insert_turn_row u z t = Inr (a, t')"
    using assms(1) by (auto simp: bind_result_Inr_iff)
  show ?thesis
    by (rule insert_moves [OF z(2)]) (use held_status_of [OF z(1)] assms(2-5) in auto)
qed

lemma checked_turn_status: "checked_turn user x = Inr (u, y) \<Longrightarrow> tn_status y = tn_status x"
  by (auto simp: checked_turn_def normalize_turn_def bind_result_Inr_iff)

lemma sql_create_turn_moves:
  assumes "Adds (tn_status x) \<in> A" and "Adds Turn_Queued \<in> A"
  shows "sq_moves A s (snd (sql_create_turn user x s))"
proof (cases "checked_turn user x")
  case (Inr uy)
  obtain u y where "uy = (u, y)" by (cases uy)
  then show ?thesis using Inr checked_turn_status [of user x u y] assms
    by (auto simp: sql_create_turn_def intro!: owned_moves intro: held_insert_moves)
qed (simp add: sql_create_turn_def)

lemma hold_one_moves:
  assumes "List.find P (sq_rows t) = Some (v, z)" and "tn_status z = Turn_Accepted"
    and "map_of (sq_locks t) (tn_conv z) = Some r" and "paused r"
  shows "sq_moves A t (set_row (tn_id z) Turn_Queued t)"
proof -
  have in_rows: "(v, z) \<in> set (sq_rows t)" using find_Some_in [OF assms(1)] by simp
  show ?thesis unfolding set_row_def
    by (rule rows_moves [where l = Other])
      (use hold_one [of "sql_queue_view t" v z] in_rows assms(2) in \<open>auto simp: sql_queue_view_def sql_queue_ok_def\<close>)
qed

lemma sql_enqueue_turn_moves:
  assumes "Adds (tn_status x) \<in> A" and "Adds Turn_Queued \<in> A"
  shows "sq_moves A s (snd (sql_enqueue_turn user x s))"
proof (cases "checked_turn user x")
  case (Inr uy)
  obtain u y where uy: "uy = (u, y)" by (cases uy)
  have status: "Adds (tn_status y) \<in> A" using checked_turn_status [of user x u y] Inr uy assms(1) by simp
  have "sq_moves A t t'"
    if lock: "map_of (sq_locks t) (tn_conv y) = Some r" "lk_user r = u"
      and tx: "(case List.find (\<lambda>(v, z). v = u \<and> tn_conv z = tn_conv y \<and> tn_client z = tn_client y) (sq_rows t) of
              Some (v, z) \<Rightarrow>
                if paused r \<and> tn_status z = Turn_Accepted then Inr (z\<lparr>tn_status := Turn_Queued\<rparr>, set_row (tn_id z) Turn_Queued t)
                else Inr (z, t)
            | None \<Rightarrow> bind_result (held_turn (paused r) y) (\<lambda>z. insert_turn_row u z t)) = Inr (a, t')" for r t a t'
  proof (cases "List.find (\<lambda>(v, z). v = u \<and> tn_conv z = tn_conv y \<and> tn_client z = tn_client y) (sq_rows t)")
    case None
    then show ?thesis using tx lock status assms(2) by (auto intro: held_insert_moves)
  next
    case (Some vz)
    obtain v z where vz: "vz = (v, z)" by (cases vz)
    have conv: "tn_conv z = tn_conv y" using find_Some_in [OF Some] vz by simp
    show ?thesis
    proof (cases "paused r \<and> tn_status z = Turn_Accepted")
      case True
      then have "sq_moves A t (set_row (tn_id z) Turn_Queued t)"
        using hold_one_moves [OF Some [unfolded vz]] lock(1) conv by metis
      then show ?thesis using tx Some vz True by simp
    next
      case False
      then show ?thesis using tx Some vz by auto
    qed
  qed
  then show ?thesis using Inr uy by (auto simp: sql_enqueue_turn_def intro!: owned_moves)
qed (simp add: sql_enqueue_turn_def)

lemma sql_enqueue_exec_moves:
  assumes "Adds Turn_Accepted \<in> A" and "Adds Turn_Queued \<in> A"
  shows "sq_moves A s (snd (sql_enqueue_turn_for_execution user x s))"
  using assms by (auto simp: sql_enqueue_turn_for_execution_def execution_turn_def bind_result_Inr_iff waiting_def
      intro!: sql_enqueue_turn_moves split: sum.splits prod.splits if_splits)

lemma start_first_moves:
  assumes "map_of (sq_locks t) c = Some r" and "\<not> paused r" and "\<not> any_turn busy u c (sq_rows t)" and "Starts True \<in> A"
  shows "sq_moves A t (snd (sql_start_first u c t))"
proof (cases "waiting_turns u c (sq_rows t)")
  case (Cons x xs)
  then have "x \<in> set (waiting_turns u c (sq_rows t))" by simp
  then have x: "(u, x) \<in> set (sq_rows t)" "tn_conv x = c" "waiting (tn_status x)" by (auto simp: waiting_turns_def)
  have "queue_move (Starts (\<exists>xs. waiting_turns u (tn_conv x) (qv_turns (sql_queue_view t)) = x # xs)) (sql_queue_view t)
      ((sql_queue_view t)\<lparr>qv_turns := restatus (set_status (tn_id x) Turn_Processing) (qv_turns (sql_queue_view t))\<rparr>)"
    by (rule queue_move.start) (use x assms(1-3) in \<open>auto simp: lock_lease_def\<close>)
  then have "queue_move (Starts True) (sql_queue_view t)
      (sql_queue_view (t\<lparr>sq_rows := restatus (set_status (tn_id x) Turn_Processing) (sq_rows t)\<rparr>))"
    using x(2) Cons by (simp add: sql_queue_view_def)
  then show ?thesis using Cons assms(4) by (auto simp: sql_start_first_def set_row_def sql_queue_ok_def intro!: rows_moves)
qed (simp add: sql_start_first_def)

lemma sql_claim_moves:
  assumes "Starts True \<in> A"
  shows "sq_moves A s (snd (sql_claim_next_turn user conv s))"
proof -
  have "sq_moves A t (snd (coordinated u c (owned_tx u (\<lambda>r t.
      if paused r \<or> any_turn busy u c (sq_rows t) then Inr (None, t) else Inr (sql_start_first u c t))) t))" for u c t
    by (rule owned_moves) (use assms start_first_moves in \<open>fastforce split: if_splits\<close>)
  then show ?thesis unfolding sql_claim_next_turn_def
    by (auto split: sum.splits prod.splits intro: sq_moves_trans [OF ensure_row_moves])
qed

section \<open>The lease\<close>

lemma set_lock_moves:
  assumes "queue_move l (sql_queue_view t) ((sql_queue_view t)\<lparr>qv_lease := (qv_lease (sql_queue_view t))(c := lock_lease (Some r))\<rparr>)"
    and "l = Other \<or> l \<in> A" and "lock_ok r" and owner: "map_of (sq_locks t) c = Some k" "lk_user k = lk_user r"
  shows "sq_moves A t (set_lock c r t)"
proof (rule sq_movesI)
  have "(sql_queue_view t)\<lparr>qv_lease := (qv_lease (sql_queue_view t))(c := lock_lease (Some r))\<rparr> = sql_queue_view (set_lock c r t)"
    by (auto simp: sql_queue_view_def set_lock_def fun_eq_iff)
  then show "moves A (sql_queue_view t) (sql_queue_view (set_lock c r t))" using assms(1,2) move_other move_in by metis
  show "lock_ok k" if "sql_queue_ok t" "map_of (sq_locks (set_lock c r t)) d = Some k" for d k
    using that assms(3) by (auto simp: set_lock_def sql_queue_ok_def split: if_splits)
  have "owned_by (sq_locks (set_lock c r t)) d v" if "owned_by (sq_locks t) d v" for d v
    using that owner by (auto simp: set_lock_def owned_by_def)
  then show "list_all (\<lambda>(u, x). owned_by (sq_locks (set_lock c r t)) (tn_conv x) u) (sq_rows (set_lock c r t))" if "sql_queue_ok t"
    using that owned_mono [of "sq_locks t" "sq_rows t" "sq_locks (set_lock c r t)"] by (simp add: set_lock_def sql_queue_ok_def)
qed

lemma sql_acquire_moves:
  assumes "Takes (py_strip conv) token \<in> A"
  shows "sq_moves A s (snd (sql_acquire_compaction_lease user conv worker now until token s))"
proof -
  have take: "sq_moves A t (set_lock c (r\<lparr>lk_state := Lock_Active, lk_lease := Some l\<rparr>) (t\<lparr>sq_rows := restatus (held_status u c) (sq_rows t)\<rparr>))"
    if lock: "map_of (sq_locks t) c = Some r" "lk_user r = u" and free: "\<not> any_turn busy u c (sq_rows t)"
      and "c = py_strip conv" and "ls_token l = token" for t c r u l
  proof -
    let ?t = "t\<lparr>sq_rows := restatus (held_status u c) (sq_rows t)\<rparr>"
    have "sq_moves A t ?t"
      by (rule rows_moves [where l = Other]) (use hold_all [of "sql_queue_view t" u c] in \<open>auto simp: sql_queue_view_def sql_queue_ok_def\<close>)
    also have "sq_moves A ?t (set_lock c (r\<lparr>lk_state := Lock_Active, lk_lease := Some l\<rparr>) ?t)"
    proof (rule set_lock_moves [where k = r])
      have "\<not> any_turn busy u c (qv_turns (sql_queue_view ?t))"
        using hold_not_busy [OF free] by simp
      then have "queue_move (Takes c token) (sql_queue_view ?t) ((sql_queue_view ?t)\<lparr>qv_lease := (qv_lease (sql_queue_view ?t))(c \<mapsto> (u, l))\<rparr>)"
        by (rule queue_move.take) (use lock that(5) in \<open>auto simp: lock_lease_def split: if_splits\<close>)
      then show "queue_move (Takes c token) (sql_queue_view ?t) ((sql_queue_view ?t)\<lparr>qv_lease :=
          (qv_lease (sql_queue_view ?t))(c := lock_lease (Some (r\<lparr>lk_state := Lock_Active, lk_lease := Some l\<rparr>)))\<rparr>)"
        using lock(2) by (simp add: lock_lease_def paused_def)
    qed (use assms that(4) lock in \<open>auto simp: lock_ok_def paused_def\<close>)
    finally show ?thesis .
  qed
  have "require_text 64 conv = Inr c \<Longrightarrow> c = py_strip conv" for c
    by (auto simp: require_text_def Let_def split: if_splits)
  then show ?thesis unfolding sql_acquire_compaction_lease_def
    by (auto simp: bind_result_Inr_iff Let_def split: sum.splits prod.splits intro!: owned_moves) (auto simp: Let_def split: if_splits intro: take)
qed

lemma close_lease_moves:
  assumes lock: "map_of (sq_locks t) c = Some r" and l: "lk_lease r = Some l" "paused r" "lk_user r = u"
    and "claim \<Longrightarrow> \<not> any_turn busy u c (sq_rows t)" and "Starts True \<in> A"
  shows "sq_moves A t (snd (sql_close_lease u c claim retry r l t))"
proof (cases claim)
  case True
  let ?r = "r\<lparr>lk_state := Lock_Idle, lk_lease := None\<rparr>"
  have "sq_moves A t (set_lock c ?r t)"
    by (rule set_lock_moves [where l = Other and k = r])
      (use lock queue_move.release [of "sql_queue_view t" c] in \<open>auto simp: lock_lease_def paused_def lock_ok_def\<close>)
  also have "sq_moves A (set_lock c ?r t) (snd (sql_start_first u c (set_lock c ?r t)))"
    by (rule start_first_moves [where r = ?r]) (use assms True in \<open>auto simp: set_lock_def paused_def\<close>)
  finally show ?thesis using True by (simp add: sql_close_lease_def)
next
  case False
  let ?l = "case retry of None \<Rightarrow> l | Some m \<Rightarrow> l\<lparr>ls_until := m\<rparr>"
  let ?r = "r\<lparr>lk_state := Lock_Retry_Required, lk_lease := Some ?l\<rparr>"
  have "qv_lease (sql_queue_view t) c = Some (u, l)" using lock l by (simp add: lock_lease_def)
  moreover have "ls_token ?l = ls_token l" by (simp split: option.split)
  ultimately have "queue_move Other (sql_queue_view t) ((sql_queue_view t)\<lparr>qv_lease := (qv_lease (sql_queue_view t))(c \<mapsto> (u, ?l))\<rparr>)"
    by (rule queue_move.postpone)
  then have "sq_moves A t (set_lock c ?r t)"
    by (intro set_lock_moves [where l = Other and k = r]) (use lock l in \<open>auto simp: lock_lease_def paused_def lock_ok_def\<close>)
  then show ?thesis using False by (simp add: sql_close_lease_def)
qed

lemma fenced_leaseD:
  "fenced_lease u c w token now claim r s = Inr l \<Longrightarrow> lk_user r = u \<and> paused r \<and> lk_lease r = Some l \<and> lk_state r = Lock_Active \<and>
     ls_worker l = w \<and> ls_token l = token \<and> now < ls_until l \<and> (claim \<longrightarrow> \<not> any_turn busy u c (sq_rows s))"
  by (auto simp: fenced_lease_def lease_from_row_def bind_result_Inr_iff paused_def split: if_splits option.splits)

lemma sql_finish_moves:
  assumes "Starts True \<in> A"
  shows "sq_moves A s (snd (sql_finish_compaction user conv worker token now claim retry s))"
proof -
  have "sq_moves A t t'"
    if "map_of (sq_locks t) c = Some r"
      and "bind_result (fenced_lease u c w token now claim r t) (\<lambda>l. Inr (sql_close_lease u c claim retry r l t)) = Inr (a, t')" for u c w r t a t'
  proof -
    from that(2) obtain l where l: "fenced_lease u c w token now claim r t = Inr l" "sql_close_lease u c claim retry r l t = (a, t')"
      by (auto simp: bind_result_Inr_iff)
    show ?thesis using close_lease_moves [OF that(1), of l u claim A retry] fenced_leaseD [OF l(1)] l(2) assms by simp
  qed
  then show ?thesis unfolding sql_finish_compaction_def by (auto split: sum.splits prod.splits intro!: coordinated_moves)
qed

lemma events_free: "sq_moves A s (t\<lparr>sq_events := es\<rparr>) = sq_moves A s t"
  by (simp add: sq_moves_def sql_queue_ok_def sql_queue_view_def)

lemma sql_finish_event_moves:
  assumes "Starts True \<in> A"
  shows "sq_moves A s (snd (sql_finish_compaction_with_event user conv worker token now claim retry run ty payload fresh s))"
proof -
  have close: "sq_moves A t t'"
    if "map_of (sq_locks t) c = Some r" "fenced_lease u c w token now claim r t = Inr l" "sql_close_lease u c claim retry r l t = (a, t')"
    for u c w r t l a t'
    using close_lease_moves [OF that(1), of l u claim A retry] fenced_leaseD [OF that(2)] that(3) assms by simp
  show ?thesis unfolding sql_finish_compaction_with_event_def
    by (auto simp: bind_result_Inr_iff Let_def events_free split: sum.splits prod.splits intro!: coordinated_moves)
      (auto simp: events_free bind_result_Inr_iff split: if_splits prod.splits intro: close)
qed

section \<open>Completion and events\<close>

lemma sql_complete_moves:
  assumes "Starts True \<in> A"
  shows "sq_moves A s (snd (sql_complete_turn_and_claim_next user conv tid s))"
proof -
  have "sq_moves A t t'"
    if lock: "map_of (sq_locks t) c = Some r"
      and tx: "(case List.find (\<lambda>(v, x). v = u \<and> tn_conv x = c \<and> tn_id x = i) (sq_rows t) of
              None \<Rightarrow> Inl Record_Conflict
            | Some (v, x) \<Rightarrow>
                if tn_status x \<notin> {Turn_Accepted, Turn_Processing, Turn_Completed} then Inl Record_Conflict
                else
                  (let t' = set_row i Turn_Completed t; y = x\<lparr>tn_status := Turn_Completed\<rparr> in
                   if lk_state r \<noteq> Lock_Idle \<or> any_turn busy u c (sq_rows t') then Inr ((y, None), t')
                   else (case sql_start_first u c t' of (n, t'') \<Rightarrow> Inr ((y, n), t'')))) = Inr (a, t')" for u c i r t a t'
  proof (cases "List.find (\<lambda>(v, x). v = u \<and> tn_conv x = c \<and> tn_id x = i) (sq_rows t)")
    case (Some vx)
    obtain v x where vx: "vx = (v, x)" by (cases vx)
    have x: "(v, x) \<in> set (sq_rows t)" "tn_id x = i" using find_Some_in [OF Some] vx by auto
    have st: "tn_status x \<in> {Turn_Accepted, Turn_Processing, Turn_Completed}" using tx Some vx by (auto split: if_splits)
    let ?t = "set_row i Turn_Completed t"
    have "sq_moves A t ?t" unfolding set_row_def
      by (rule rows_moves [where l = Other])
        (use queue_move.finish [of v x "sql_queue_view t"] x st in \<open>auto simp: sql_queue_view_def sql_queue_ok_def\<close>)
    moreover have "sq_moves A ?t (snd (sql_start_first u c ?t))"
      if "lk_state r = Lock_Idle" "\<not> any_turn busy u c (sq_rows ?t)"
      by (rule start_first_moves [where r = r]) (use lock that assms in \<open>auto simp: set_row_def paused_def\<close>)
    ultimately show ?thesis using tx Some vx st
      by (auto simp: Let_def split: if_splits prod.splits intro: sq_moves_trans)
  qed (use tx in simp)
  then show ?thesis unfolding sql_complete_turn_and_claim_next_def by (auto split: sum.splits prod.splits intro!: owned_moves)
qed

lemma adopt_rows_Cons:
  "adopt_rows ((c, u) # coord) locks = adopt_rows coord (if map_of locks c = None then AList.update c (idle_row u) locks else locks)"
  by (simp add: adopt_rows_def)

lemma adopt_rows_keep: "map_of locks c = Some r \<Longrightarrow> map_of (adopt_rows coord locks) c = Some r"
proof (induction coord arbitrary: locks)
  case (Cons p coord)
  obtain d u where p: "p = (d, u)" by (cases p)
  show ?case unfolding p adopt_rows_Cons by (rule Cons.IH) (use Cons.prems in auto)
qed (simp add: adopt_rows_def)

lemma adopt_rows_new: "map_of (adopt_rows coord locks) c = Some r \<Longrightarrow> map_of locks c = Some r \<or> (map_of locks c = None \<and> (\<exists>u. r = idle_row u))"
proof (induction coord arbitrary: locks)
  case (Cons p coord)
  obtain d u where p: "p = (d, u)" by (cases p)
  from Cons.IH [OF Cons.prems [unfolded p adopt_rows_Cons]] show ?case by (auto split: if_splits)
qed (simp add: adopt_rows_def)

lemma sql_create_event_moves: "sq_moves A s (snd (sql_queue_create_event user e s))"
proof -
  have same: "lock_lease (map_of (adopt_rows coord (sq_locks s)) c) = lock_lease (map_of (sq_locks s) c)" for coord c
  proof (cases "map_of (sq_locks s) c")
    case None
    then show ?thesis using adopt_rows_new [of coord "sq_locks s" c] by (cases "map_of (adopt_rows coord (sq_locks s)) c") auto
  qed (simp add: adopt_rows_keep)
  have "sq_moves A s (s\<lparr>sq_events := es, sq_locks := adopt_rows coord (sq_locks s)\<rparr>)" for es coord
  proof (rule sq_movesI)
    have "sql_queue_view (s\<lparr>sq_events := es, sq_locks := adopt_rows coord (sq_locks s)\<rparr>) = sql_queue_view s"
      by (rule view_eqI) (simp_all add: same)
    then show "moves A (sql_queue_view s) (sql_queue_view (s\<lparr>sq_events := es, sq_locks := adopt_rows coord (sq_locks s)\<rparr>))" by simp
    show "lock_ok r" if "sql_queue_ok s" "map_of (sq_locks (s\<lparr>sq_events := es, sq_locks := adopt_rows coord (sq_locks s)\<rparr>)) c = Some r" for c r
      using that adopt_rows_new [of coord "sq_locks s" c r] by (auto simp: sql_queue_ok_def)
    have "owned_by (adopt_rows coord (sq_locks s)) d v" if "owned_by (sq_locks s) d v" for d v
      using that adopt_rows_keep by (auto simp: owned_by_def)
    then show "list_all (\<lambda>(u, x). owned_by (sq_locks (s\<lparr>sq_events := es, sq_locks := adopt_rows coord (sq_locks s)\<rparr>)) (tn_conv x) u)
        (sq_rows (s\<lparr>sq_events := es, sq_locks := adopt_rows coord (sq_locks s)\<rparr>))" if "sql_queue_ok s"
      using that owned_mono [of "sq_locks s" "sq_rows s" "adopt_rows coord (sq_locks s)"] by (simp add: sql_queue_ok_def)
  qed
  then show ?thesis by (simp add: sql_queue_create_event_def split: prod.split)
qed

lemma prepare_moves: "sq_moves A s (snd (prepare user conv s))"
  by (auto simp: prepare_def bind_result_Inr_iff split: sum.splits intro: ensure_row_moves)

section \<open>The contract\<close>

lemma sql_queue_moves: "tags True c \<subseteq> A \<Longrightarrow> sq_moves A s (snd (sql_queue_exec s c))"
  by (cases c) (auto intro: sql_create_turn_moves sql_enqueue_turn_moves sql_enqueue_exec_moves sql_claim_moves sql_complete_moves
      prepare_moves sql_acquire_moves sql_finish_moves sql_finish_event_moves sql_create_event_moves)

interpretation sql_turns: turn_queue sql_queue_exec sql_queue_ok sql_queue_view "tags True"
proof unfold_locales
  fix w c A
  assume ok: "sql_queue_ok w"
  show "sql_queue_ok (snd (sql_queue_exec w c))"
    using sql_queue_moves [OF order_refl, of c w] ok by (simp add: sq_moves_def)
  show "queue_ok (sql_queue_view w)" using ok by (simp add: sql_queue_ok_def)
  show "moves A (sql_queue_view w) (sql_queue_view (snd (sql_queue_exec w c)))" if "tags True c \<subseteq> A"
    using sql_queue_moves [OF that, of w] ok by (simp add: sq_moves_def)
qed

end
