(* ===== verification/Turn_Claims.thy ===== *)
theory Turn_Claims
  imports Turn_Mem_Laws Turn_Sql_Laws
begin

text \<open>
  The two turn queues as one, with what holds of both, and where they differ.
\<close>

section \<open>Both repositories\<close>

datatype turn_repo = Mem_Queue mem_queue | Sql_Queue sql_queue

fun turn_exec :: "turn_repo \<Rightarrow> queue_cmd \<Rightarrow> (gw_error + unit) \<times> turn_repo" where
  "turn_exec (Mem_Queue s) c = map_prod id Mem_Queue (mem_queue_exec s c)"
| "turn_exec (Sql_Queue s) c = map_prod id Sql_Queue (sql_queue_exec s c)"

fun turn_list :: "string \<Rightarrow> string \<Rightarrow> turn_repo \<Rightarrow> gw_error + turn list" where
  "turn_list user conv (Mem_Queue s) = mem_list_turns user conv s"
| "turn_list user conv (Sql_Queue s) = sql_list_turns user conv s"

fun turn_lease :: "string \<Rightarrow> string \<Rightarrow> turn_repo \<Rightarrow> gw_error + lease option" where
  "turn_lease user conv (Mem_Queue s) = mem_get_compaction_lease user conv s"
| "turn_lease user conv (Sql_Queue s) = sql_get_compaction_lease user conv s"

fun turn_enqueue :: "string \<Rightarrow> turn \<Rightarrow> turn_repo \<Rightarrow> (gw_error + turn) \<times> turn_repo" where
  "turn_enqueue user x (Mem_Queue s) = map_prod id Mem_Queue (mem_enqueue_turn_for_execution user x s)"
| "turn_enqueue user x (Sql_Queue s) = map_prod id Sql_Queue (sql_enqueue_turn_for_execution user x s)"

fun turn_view :: "turn_repo \<Rightarrow> queue" where
  "turn_view (Mem_Queue s) = mem_queue_view s"
| "turn_view (Sql_Queue s) = sql_queue_view s"

fun turn_repo_ok :: "turn_repo \<Rightarrow> bool" where
  "turn_repo_ok (Mem_Queue s) = mem_queue_ok s"
| "turn_repo_ok (Sql_Queue s) = sql_queue_ok s"

fun fresh_turns :: "turn_repo \<Rightarrow> bool" where
  "fresh_turns (Mem_Queue s) = (s = new_mem_queue (mq_other s))"
| "fresh_turns (Sql_Queue s) = (s = new_sql_queue (sq_other s))"

text \<open>Inputs are stored before they are processed.\<close>

fun unprocessed :: "queue_cmd \<Rightarrow> bool" where
  "unprocessed (Create_Turn user x) = (\<not> busy x)"
| "unprocessed (Enqueue_Turn user x) = (\<not> busy x)"
| "unprocessed c = True"

fun completes :: "queue_cmd \<Rightarrow> bool" where
  "completes (Complete_Turn user conv tid) = True"
| "completes c = False"

interpretation turns: turn_queue turn_exec turn_repo_ok turn_view "tags False"
proof unfold_locales
  fix w c A
  assume ok: "turn_repo_ok w"
  show "turn_repo_ok (snd (turn_exec w c))" using ok by (cases w) (auto intro: mem_turns.exec_inv sql_turns.exec_inv)
  show "queue_ok (turn_view w)" using ok by (cases w) (auto intro: mem_turns.okay_view sql_turns.okay_view)
  show "moves A (turn_view w) (turn_view (snd (turn_exec w c)))" if "tags False c \<subseteq> A"
  proof -
    have "tags True c \<subseteq> A" using that by (cases c) auto
    then show ?thesis using ok that by (cases w) (auto intro: mem_turns.exec_moves sql_turns.exec_moves)
  qed
qed

lemma fresh_turns_ok:
  assumes "fresh_turns r"
  shows "turn_repo_ok r" and "qv_turns (turn_view r) = []" and "qv_lease (turn_view r) = Map.empty"
proof -
  have "mem_queue_ok (new_mem_queue owners)" "qv_turns (mem_queue_view (new_mem_queue owners)) = []"
      "qv_lease (mem_queue_view (new_mem_queue owners)) = Map.empty"
      "sql_queue_ok (new_sql_queue owners)" "qv_turns (sql_queue_view (new_sql_queue owners)) = []"
      "qv_lease (sql_queue_view (new_sql_queue owners)) = Map.empty" for owners
    by (auto simp: mem_queue_ok_def sql_queue_ok_def new_mem_queue_def new_sql_queue_def mem_queue_view_def sql_queue_view_def queue_ok_def)
  moreover have "r = Mem_Queue (new_mem_queue owners) \<or> r = Sql_Queue (new_sql_queue owners)"
    if "owners = (case r of Mem_Queue s \<Rightarrow> mq_other s | Sql_Queue s \<Rightarrow> sq_other s)" for owners
    using assms that by (cases r) auto
  ultimately show "turn_repo_ok r" "qv_turns (turn_view r) = []" "qv_lease (turn_view r) = Map.empty"
    by (metis turn_repo_ok.simps turn_view.simps)+
qed

lemma reached_turns: "fresh_turns r \<Longrightarrow> turn_repo_ok (run_all turn_exec r cs)"
  by (rule turns.session_inv [OF fresh_turns_ok(1)])

lemma unprocessed_tags: "list_all unprocessed cs \<Longrightarrow> Adds Turn_Processing \<notin> \<Union> (tags b ` set cs)"
proof -
  have "unprocessed c \<Longrightarrow> Adds Turn_Processing \<notin> tags b c" for c by (cases c) (auto simp: busy_def)
  then show "list_all unprocessed cs \<Longrightarrow> Adds Turn_Processing \<notin> \<Union> (tags b ` set cs)" by (auto simp: list_all_iff)
qed

section \<open>What the methods report\<close>

definition conversation_turns :: "string \<Rightarrow> string \<Rightarrow> queue \<Rightarrow> turn list" where
  "conversation_turns u c q = map snd (filter (\<lambda>(v, x). v = u \<and> tn_conv x = c) (qv_turns q))"

lemma turn_list_view:
  assumes "turn_repo_ok r" and "turn_list user conv r = Inr xs"
  shows "\<exists>u c. require_text 64 user = Inr u \<and> require_text 64 conv = Inr c \<and> xs = conversation_turns u c (turn_view r)"
proof (cases r)
  case (Mem_Queue s)
  have ok: "mem_queue_ok s" using assms(1) Mem_Queue by simp
  obtain u c where uc: "require_text 64 user = Inr u" "require_text 64 conv = Inr c"
      "xs = map (\<lambda>k. the (map_of (mq_turns s) k)) (map fst (filter (\<lambda>((v, i), x). v = u \<and> tn_conv x = c \<and> True) (mq_turns s)))"
    using assms(2) Mem_Queue by (auto simp: mem_list_turns_def bind_result_Inr_iff mem_turn_keys_eq [OF ok])
  have "xs = map snd (filter (\<lambda>((v, i), x). v = u \<and> tn_conv x = c) (mq_turns s))"
    using uc(3) turn_key(2) [OF ok] by auto
  also have "\<dots> = conversation_turns u c (mem_queue_view s)"
  proof -
    have "map snd (filter (\<lambda>((v, i), x). v = u \<and> tn_conv x = c) T) = map snd (filter (\<lambda>(v, x). v = u \<and> tn_conv x = c) (turn_rows T))" for T
      by (induction T) (auto simp: turn_rows_def)
    then show ?thesis by (simp add: conversation_turns_def)
  qed
  finally show ?thesis using uc Mem_Queue by auto
next
  case (Sql_Queue s)
  then show ?thesis using assms(2) by (auto simp: sql_list_turns_def bind_result_Inr_iff conversation_turns_def)
qed

lemma turn_lease_view:
  assumes "turn_repo_ok r" and "turn_lease user conv r = Inr (Some l)" and "require_text 64 user = Inr u" and "require_text 64 conv = Inr c"
  shows "qv_lease (turn_view r) c = Some (u, l)"
  using assms
  by (cases r) (auto simp: mem_get_compaction_lease_def sql_get_compaction_lease_def bind_result_Inr_iff lock_lease_def lease_from_row_def
      paused_def split: option.splits if_splits)

lemma at_most_one: "sorted_wrt (\<lambda>p r. \<not> (Q p \<and> Q r)) xs \<Longrightarrow> length (filter Q xs) \<le> 1"
  by (induction xs) (auto simp: filter_empty_conv)

lemma sorted_conversation:
  assumes "sorted_wrt (\<lambda>p r. same_queue p r \<longrightarrow> P (snd p) (snd r)) (qv_turns q)"
  shows "sorted_wrt P (conversation_turns u c q)"
proof -
  have "sorted_wrt (\<lambda>p r. P (snd p) (snd r)) (filter (\<lambda>(v, x). v = u \<and> tn_conv x = c) (qv_turns q))"
    by (rule sorted_wrt_mono_rel [OF _ sorted_wrt_filter [OF assms]]) (auto simp: same_queue_def)
  then show ?thesis by (simp add: conversation_turns_def sorted_wrt_map)
qed

section \<open>Two inputs during a compaction\<close>

definition demo_turn :: "string \<Rightarrow> time \<Rightarrow> turn" where
  "demo_turn i t = \<lparr>tn_id = i, tn_conv = ''c1'', tn_client = ''input-'' @ i, tn_status = Turn_Accepted, tn_target = None,
     tn_version = 1, tn_created = t\<rparr>"

text \<open>
  Two inputs while the conversation is compacted by a worker whose lease runs out; a second worker takes over
  and finishes, which starts the first input. The third input was stored by a process whose clock is behind.
\<close>

definition demo_queue :: "queue_cmd list" where
  "demo_queue =
     [Acquire_Lease ''u1'' ''c1'' ''w1'' 0 10 ''t1'', Enqueue_For_Execution ''u1'' (demo_turn ''a'' 1),
      Acquire_Lease ''u1'' ''c1'' ''w2'' 20 30 ''t2'', Enqueue_For_Execution ''u1'' (demo_turn ''b'' 25)]"

definition demo_finish :: queue_cmd where
  "demo_finish = Finish_Compaction ''u1'' ''c1'' ''w2'' ''t2'' 26 True None"

definition demo_complete :: "queue_cmd list" where
  "demo_complete = demo_queue @ [demo_finish, Enqueue_For_Execution ''u1'' (demo_turn ''c'' 24), Complete_Turn ''u1'' ''c1'' ''a'']"

abbreviation (input) mem0 :: turn_repo where "mem0 \<equiv> Mem_Queue (new_mem_queue [])"

abbreviation (input) sql0 :: turn_repo where "sql0 \<equiv> Sql_Queue (new_sql_queue [])"

lemma fresh_demo_queues: "fresh_turns mem0" "fresh_turns sql0"
  by (simp_all add: new_mem_queue_def new_sql_queue_def)

lemma demo_unprocessed: "list_all unprocessed demo_queue" "list_all unprocessed demo_complete"
  by code_simp+

definition statuses :: "gw_error + turn list \<Rightarrow> (string \<times> turn_status) list" where
  "statuses r = (case r of Inl er \<Rightarrow> [] | Inr xs \<Rightarrow> map (\<lambda>x. (tn_id x, tn_status x)) xs)"

lemma demo_lists:
  "statuses (turn_list ''u1'' ''c1'' (run_all turn_exec mem0 demo_complete)) =
     [(''a'', Turn_Completed), (''b'', Turn_Queued), (''c'', Turn_Processing)]"
  "statuses (turn_list ''u1'' ''c1'' (run_all turn_exec sql0 demo_complete)) =
     [(''a'', Turn_Completed), (''b'', Turn_Processing), (''c'', Turn_Accepted)]"
  by code_simp+

section \<open>One turn at a time\<close>

text \<open>
  C24. In any session of either repository (no input is stored as already processed): of the turns that a user
  has in a conversation at most one is processed, and none while the user's compaction of the conversation
  holds its lease.
\<close>
theorem one_turn_at_a_time:
  assumes "fresh_turns r" and "list_all unprocessed cs"
    and "turn_list user conv (run_all turn_exec r cs) = Inr xs" and "turn_lease user conv (run_all turn_exec r cs) = Inr lease"
  shows "length (filter busy xs) \<le> 1 \<and> (lease \<noteq> None \<longrightarrow> filter busy xs = [])"
proof -
  let ?q = "turn_view (run_all turn_exec r cs)"
  note ok = reached_turns [OF assms(1), of cs]
  have "one_busy (turn_view r)" "exclusive (turn_view r)"
    using fresh_turns_ok(2) [OF assms(1)] by (simp_all add: one_busy_def exclusive_def)
  then have busy: "one_busy ?q" and excl: "exclusive ?q"
    using turns.session_one_busy turns.session_exclusive unprocessed_tags [OF assms(2)] fresh_turns_ok(1) [OF assms(1)] by blast+
  obtain u c where uc: "require_text 64 user = Inr u" "require_text 64 conv = Inr c" and xs: "xs = conversation_turns u c ?q"
    using turn_list_view [OF ok assms(3)] by blast
  have "length (filter busy xs) \<le> 1" unfolding xs
    by (rule at_most_one, rule sorted_conversation) (use busy in \<open>simp add: one_busy_def\<close>)
  moreover have "filter busy xs = []" if "lease = Some l" for l
    using excl turn_lease_view [OF ok assms(4) [unfolded that] uc]
    by (auto simp: xs conversation_turns_def exclusive_def filter_empty_conv)
  ultimately show ?thesis by auto
qed

theorem one_turn_at_a_time_witness:
  "\<exists>xs. turn_list ''u1'' ''c1'' (run_all turn_exec sql0 demo_complete) = Inr xs \<and> length (filter busy xs) \<le> 1 \<and> length xs = 3"
proof -
  obtain xs where xs: "turn_list ''u1'' ''c1'' (run_all turn_exec sql0 demo_complete) = Inr xs"
    using demo_lists(2) by (cases "turn_list ''u1'' ''c1'' (run_all turn_exec sql0 demo_complete)") (auto simp: statuses_def)
  have lease: "turn_lease ''u1'' ''c1'' (run_all turn_exec sql0 demo_complete) = Inr None" by code_simp
  have "length (statuses (Inr xs)) = 3" using demo_lists(2) unfolding xs by simp
  then show ?thesis
    using one_turn_at_a_time [OF fresh_demo_queues(2) demo_unprocessed(2) xs lease] xs by (simp add: statuses_def)
qed

section \<open>The order of the inbox\<close>

text \<open>
  In any session of the repository in SQL, and in any session of the one in memory in which no turn is
  completed, turns start in the order of the inbox: no turn of a user that waits in a conversation is before
  one that is processed.
\<close>
lemma turns_start_in_order:
  assumes "fresh_turns r" and "list_all unprocessed cs"
    and "case r of Mem_Queue s \<Rightarrow> \<not> list_ex completes cs | Sql_Queue s \<Rightarrow> True"
    and "turn_list user conv (run_all turn_exec r cs) = Inr xs" and "i < j" and "j < length xs" and "busy (xs ! j)"
  shows "\<not> waiting (tn_status (xs ! i))"
proof -
  let ?q = "turn_view (run_all turn_exec r cs)"
  note start = fresh_turns_ok [OF assms(1)]
  have "in_turn (turn_view r)" using start(2) by (simp add: in_turn_def)
  have "in_turn ?q"
  proof (cases r)
    case (Mem_Queue s)
    have "\<not> completes c \<Longrightarrow> Starts False \<notin> tags False c" for c by (cases c) auto
    then have "Starts False \<notin> \<Union> (tags False ` set cs)" using assms(3) Mem_Queue by (auto simp: list_ex_iff)
    then show ?thesis
      using turns.session_in_turn [OF start(1) \<open>in_turn (turn_view r)\<close>, of cs] unprocessed_tags [OF assms(2), of False] by auto
  next
    case (Sql_Queue s)
    have "Starts False \<notin> tags True c" for c by (cases c) auto
    then have "in_turn (sql_queue_view (run_all sql_queue_exec s cs))"
      using sql_turns.session_in_turn [of s cs] unprocessed_tags [OF assms(2), of True] start(1) \<open>in_turn (turn_view r)\<close> Sql_Queue by auto
    moreover have "run_all turn_exec (Sql_Queue t) ds = Sql_Queue (run_all sql_queue_exec t ds)" for t ds
      by (induction ds arbitrary: t) auto
    ultimately show ?thesis using Sql_Queue by simp
  qed
  obtain u c where "xs = conversation_turns u c ?q" using turn_list_view [OF reached_turns [OF assms(1)] assms(4)] by blast
  then have "sorted_wrt (\<lambda>x y. busy y \<longrightarrow> \<not> waiting (tn_status x)) xs"
    using sorted_conversation [of "\<lambda>x y. busy y \<longrightarrow> \<not> waiting (tn_status x)" ?q] \<open>in_turn ?q\<close> by (simp add: in_turn_def)
  then show ?thesis using assms(5-7) by (simp add: sorted_wrt_iff_nth_less)
qed

lemma turns_start_in_order_witness:
  "\<exists>xs. turn_list ''u1'' ''c1'' (run_all turn_exec sql0 demo_complete) = Inr xs \<and> busy (xs ! 1) \<and> \<not> waiting (tn_status (xs ! 0))"
proof -
  obtain xs where xs: "turn_list ''u1'' ''c1'' (run_all turn_exec sql0 demo_complete) = Inr xs"
    using demo_lists(2) by (cases "turn_list ''u1'' ''c1'' (run_all turn_exec sql0 demo_complete)") (auto simp: statuses_def)
  have rows: "map (\<lambda>x. (tn_id x, tn_status x)) xs = [(''a'', Turn_Completed), (''b'', Turn_Processing), (''c'', Turn_Accepted)]"
    using demo_lists(2) unfolding xs by (simp add: statuses_def)
  then have "length xs = 3" and "busy (xs ! 1)" by (auto simp: busy_def map_eq_Cons_conv)
  then show ?thesis
    using turns_start_in_order [OF fresh_demo_queues(2) demo_unprocessed(2) _ xs, of 0 1] xs by simp
qed

text \<open>
  In memory a completion starts the waiting turn with the oldest time stamp instead of the first of the
  inbox: the third input, stored by a process whose clock is behind, overtakes the second one. In SQL the same
  commands start the second input.
\<close>
lemma memory_completion_skips_inbox:
  "list_all unprocessed demo_complete \<and>
   statuses (turn_list ''u1'' ''c1'' (run_all turn_exec mem0 demo_complete)) =
     [(''a'', Turn_Completed), (''b'', Turn_Queued), (''c'', Turn_Processing)] \<and>
   statuses (turn_list ''u1'' ''c1'' (run_all turn_exec sql0 demo_complete)) =
     [(''a'', Turn_Completed), (''b'', Turn_Processing), (''c'', Turn_Accepted)]"
  using demo_unprocessed(2) demo_lists by blast

section \<open>Fencing\<close>

lemma ensure_view: "ensure_row u c s = Inr t \<Longrightarrow> sql_queue_view t = sql_queue_view s"
  by (intro view_eqI) (auto simp: ensure_row_def split: option.splits if_splits)

lemma coordinated_fails:
  assumes "\<And>r t. map_of (sq_locks t) c = Some r \<Longrightarrow> sql_queue_view t = sql_queue_view s \<Longrightarrow> \<exists>er. tx r t = Inl er"
  shows "\<not> is_ok (fst (coordinated u c tx s)) \<and> sql_queue_view (snd (coordinated u c tx s)) = sql_queue_view s"
proof (cases "ensure_row u c s")
  case (Inr t)
  show ?thesis
  proof (cases "map_of (sq_locks t) c")
    case (Some r)
    then obtain er where "tx r t = Inl er" using assms ensure_view [OF Inr] by blast
    then show ?thesis using Inr Some ensure_view [OF Inr] by (simp add: coordinated_def)
  qed (use Inr ensure_view [OF Inr] in \<open>simp add: coordinated_def\<close>)
qed (simp add: coordinated_def)

lemma strip_of: "require_text n conv = Inr c \<Longrightarrow> c = py_strip conv"
  by (auto simp: require_text_def Let_def split: if_splits)

lemma fenced_fails:
  assumes "\<not> holds_token c token (sql_queue_view s)" and "map_of (sq_locks t) c = Some r" and "sql_queue_view t = sql_queue_view s"
  shows "\<exists>er. fenced_lease u c w token now claim r t = Inl er"
proof (cases "fenced_lease u c w token now claim r t")
  case (Inr l)
  then have "qv_lease (sql_queue_view t) c = Some (u, l)" "ls_token l = token"
    using fenced_leaseD [OF Inr] assms(2) by (auto simp: lock_lease_def)
  then show ?thesis using assms(1,3) by (auto simp: holds_token_def)
qed simp

lemma sql_finish_fenced:
  assumes free: "\<not> holds_token (py_strip conv) token (sql_queue_view s)"
  shows "\<not> is_ok (fst (sql_finish_compaction user conv worker token now claim retry s)) \<and>
      sql_queue_view (snd (sql_finish_compaction user conv worker token now claim retry s)) = sql_queue_view s" (is ?plain)
    and "\<not> is_ok (fst (sql_finish_compaction_with_event user conv worker token now claim retry run ty payload fresh s)) \<and>
      sql_queue_view (snd (sql_finish_compaction_with_event user conv worker token now claim retry run ty payload fresh s)) =
      sql_queue_view s" (is ?event)
proof -
  let ?p = "bind_result (require_text 64 user) (\<lambda>u. bind_result (require_text 64 conv) (\<lambda>c.
             bind_result (finish_parameters worker now claim retry) (\<lambda>w. Inr (u, c, w))))"
  have "?plain \<and> ?event"
  proof (cases ?p)
    case (Inl er)
    then show ?thesis by (simp add: sql_finish_compaction_def sql_finish_compaction_with_event_def)
  next
    case (Inr ucw)
    obtain u c w where ucw: "ucw = (u, c, w)" by (cases ucw) auto
    have "c = py_strip conv" using Inr ucw by (auto simp: bind_result_Inr_iff dest: strip_of)
    then have fails: "\<exists>er. fenced_lease u c w token now claim r t = Inl er"
      if "map_of (sq_locks t) c = Some r" "sql_queue_view t = sql_queue_view s" for r t
      using fenced_fails free that by blast
    show ?thesis unfolding sql_finish_compaction_def sql_finish_compaction_with_event_def Inr ucw sum.case prod.case
      by (intro conjI [of "_ \<and> _" "_ \<and> _"] coordinated_fails) (use fails in force)+
  qed
  then show ?plain ?event by simp_all
qed

lemma mem_finish_fenced:
  assumes free: "\<not> holds_token (py_strip conv) token (mem_queue_view s)"
  shows "\<not> is_ok (fst (mem_finish_compaction user conv worker token now claim retry s)) \<and>
      snd (mem_finish_compaction user conv worker token now claim retry s) = s" (is ?plain)
    and "\<not> is_ok (fst (mem_finish_compaction_with_event user conv worker token now claim retry run ty payload fresh s)) \<and>
      snd (mem_finish_compaction_with_event user conv worker token now claim retry run ty payload fresh s) = s" (is ?event)
proof -
  let ?p = "bind_result (require_text 64 user) (\<lambda>u. bind_result (require_text 64 conv) (\<lambda>c.
             bind_result (finish_parameters worker now claim retry) (\<lambda>w. Inr (u, c, w))))"
  have "?plain \<and> ?event"
  proof (cases ?p)
    case (Inl er)
    then show ?thesis by (simp add: mem_finish_compaction_def mem_finish_compaction_with_event_def)
  next
    case (Inr ucw)
    obtain u c w where ucw: "ucw = (u, c, w)" by (cases ucw) auto
    have "c = py_strip conv" using Inr ucw by (auto simp: bind_result_Inr_iff dest: strip_of)
    then have "\<not> lease_fits u w token now (map_of (mq_leases s) c)"
      using lease_fitsD [of u w token now "map_of (mq_leases s) c"] free by (auto simp: holds_token_def)
    then show ?thesis by (simp add: mem_finish_compaction_def mem_finish_compaction_with_event_def Inr ucw)
  qed
  then show ?plain ?event by simp_all
qed

lemma done_result_ok [simp]: "is_ok (fst (done_result r)) = is_ok (fst r)"
  by (auto simp: done_result_def is_ok_def split: prod.splits sum.splits)

text \<open>
  C25. A worker whose token no longer belongs to the lease of the conversation can never finish its compaction,
  as long as the token is not given out again: whatever happens in the meantime, both methods that end a
  compaction answer with an error and change neither a turn nor a lease.
\<close>
theorem replaced_token_is_fenced:
  assumes "fresh_turns r" and "\<not> holds_token (py_strip conv) token (turn_view (run_all turn_exec r cs))"
    and "\<not> list_ex (\<lambda>c. Takes (py_strip conv) token \<in> tags False c) ds"
    and "c \<in> {Finish_Compaction user conv worker token now claim retry,
               Finish_With_Event user conv worker token now claim retry run ty payload fresh}"
  shows "let t = run_all turn_exec r (cs @ ds) in
    \<not> is_ok (fst (turn_exec t c)) \<and> turn_view (snd (turn_exec t c)) = turn_view t"
proof -
  let ?t = "run_all turn_exec r (cs @ ds)"
  have "Takes (py_strip conv) token \<notin> \<Union> (tags False ` set ds)" using assms(3) by (auto simp: list_ex_iff)
  from turns.session_token [OF reached_turns [OF assms(1)] assms(2) this]
  have "\<not> holds_token (py_strip conv) token (turn_view ?t)" by (simp add: run_all_append)
  then show ?thesis
    using assms(4) mem_finish_fenced [of conv token] sql_finish_fenced [of conv token] by (cases ?t) auto
qed

lemma holds_token_code [code]:
  "holds_token c token q = (case qv_lease q c of None \<Rightarrow> False | Some (u, l) \<Rightarrow> ls_token l = token)"
  by (auto simp: holds_token_def split: option.splits)

text \<open>Worker \<open>w1\<close>, whose lease ran out, comes back after \<open>w2\<close> took over and finished.\<close>

theorem replaced_token_is_fenced_witness:
  "let t = run_all turn_exec sql0 (demo_queue @ [demo_finish]); c = Finish_Compaction ''u1'' ''c1'' ''w1'' ''t1'' 27 True None in
   \<not> is_ok (fst (turn_exec t c)) \<and> turn_view (snd (turn_exec t c)) = turn_view t"
proof -
  have "\<not> holds_token (py_strip ''c1'') ''t1'' (turn_view (run_all turn_exec sql0 demo_queue))" by code_simp
  moreover have "\<not> list_ex (\<lambda>c. Takes (py_strip ''c1'') ''t1'' \<in> tags False c) [demo_finish]" by code_simp
  ultimately show ?thesis
    using replaced_token_is_fenced [OF fresh_demo_queues(2), of "''c1''" "''t1''" demo_queue "[demo_finish]"
        "Finish_Compaction ''u1'' ''c1'' ''w1'' ''t1'' 27 True None" "''u1''" "''w1''" 27 True None] unfolding Let_def by blast
qed

text \<open>
  The two repositories part after a failed compaction: in SQL a conversation that waits for its next try
  can be taken at once, whatever time of the next try was stored, and the token of the failed try is dead; in
  memory the lease is refused until that time and the failed worker may still finish with its token.
\<close>
lemma retry_time_divides_repositories:
  "let failed = [Acquire_Lease ''u1'' ''c1'' ''w1'' 0 10 ''t1'', Finish_Compaction ''u1'' ''c1'' ''w1'' ''t1'' 5 False (Some 100)];
       taken = Acquire_Lease ''u1'' ''c1'' ''w2'' 6 20 ''t2''; again = Finish_Compaction ''u1'' ''c1'' ''w1'' ''t1'' 6 True None;
       worker = (\<lambda>r. map_option ls_worker (case turn_lease ''u1'' ''c1'' r of Inl er \<Rightarrow> None | Inr l \<Rightarrow> l))
   in worker (run_all turn_exec sql0 (failed @ [taken])) = Some ''w2'' \<and>
      worker (run_all turn_exec mem0 (failed @ [taken])) = Some ''w1'' \<and>
      \<not> is_ok (fst (turn_exec (run_all turn_exec sql0 failed) again)) \<and>
      is_ok (fst (turn_exec (run_all turn_exec mem0 failed) again))"
  by code_simp

section \<open>A client input is stored once\<close>

lemma mem_enqueue_known:
  assumes ok: "mem_queue_ok s" and row: "(u, x) \<in> set (turn_rows (mq_turns s))"
    and args: "require_text 64 user = Inr u" "execution_turn y = Inr z" "tn_conv z = tn_conv x" "tn_client z = tn_client x"
    and own: "\<And>v l. map_of (mq_leases s) (tn_conv x) = Some (v, l) \<Longrightarrow> v = u"
  shows "mem_enqueue_turn_for_execution user y s = (Inr x, s)"
proof -
  obtain i where i: "((u, i), x) \<in> set (mq_turns s)" using row by (auto simp: in_turn_rows)
  have "queue_ok (mem_queue_view s)" using ok by (simp add: mem_queue_ok_def)
  then have "distinct (map fst (mq_clients s))" using rows_indexes(2) [OF ok] by (simp add: queue_ok_def)
  moreover have "((tn_conv x, tn_client x), (u, i)) \<in> set (mq_clients s)"
    using i ok by (force simp: mem_queue_ok_def simp del: upt_Suc)
  ultimately have "map_of (mq_clients s) (tn_conv x, tn_client x) = Some (u, i)" by simp
  moreover have "\<not> foreign_lease u (tn_conv x) s" using own by (auto simp: foreign_lease_def split: option.splits)
  ultimately show ?thesis
    using args turn_key(2) [OF ok i] by (simp add: mem_enqueue_turn_for_execution_def mem_known_or_new_def Let_def)
qed

lemma sql_enqueue_known:
  assumes ok: "sql_queue_ok s" and row: "(u, x) \<in> set (sq_rows s)"
    and args: "require_text 64 user = Inr u" "execution_turn y = Inr z" "tn_conv z = tn_conv x" "tn_client z = tn_client x"
  shows "\<exists>st t. sql_enqueue_turn_for_execution user y s = (Inr (x\<lparr>tn_status := st\<rparr>), t) \<and> (tn_status x, st) \<in> turn_path \<and>
    map (\<lambda>(v, x). tn_id x) (sq_rows t) = map (\<lambda>(v, x). tn_id x) (sq_rows s)"
proof -
  have "owned_by (sq_locks s) (tn_conv x) u" using ok row by (auto simp: sql_queue_ok_def list_all_iff)
  then obtain r where r: "map_of (sq_locks s) (tn_conv x) = Some r" "lk_user r = u" by (auto simp: owned_by_def)
  have "normalize_turn y = Inr z" using args(2) by (auto simp: execution_turn_def bind_result_Inr_iff split: if_splits)
  then have "checked_turn u (z\<lparr>tn_status := tn_status z\<rparr>) = Inr (u, z\<lparr>tn_status := tn_status z\<rparr>)" using checked_again args(1) by blast
  then have checked: "checked_turn u z = Inr (u, z)" by simp
  let ?P = "\<lambda>(v, w). v = u \<and> tn_conv w = tn_conv z \<and> tn_client w = tn_client z"
  have found: "List.find ?P (sq_rows s) = Some (u, x)"
  proof (cases "List.find ?P (sq_rows s)")
    case None
    have "\<not> ?P (u, x)" using bspec [OF iffD1 [OF find_None_all None] row] .
    then show ?thesis using args(3,4) by simp
  next
    case (Some vw)
    obtain v w where vw: "vw = (v, w)" by (cases vw)
    then have "(v, w) \<in> set (sq_rows s)" "v = u" "tn_conv w = tn_conv x" "tn_client w = tn_client x"
      using find_Some_in [OF Some] args(3,4) by auto
    then show ?thesis using same_input [of "sql_queue_view s" v w u x] ok row Some vw by (simp add: sql_queue_ok_def)
  qed
  show ?thesis
  proof (cases "paused r \<and> tn_status x = Turn_Accepted")
    case True
    then have "sql_enqueue_turn_for_execution user y s = (Inr (x\<lparr>tn_status := Turn_Queued\<rparr>), set_row (tn_id x) Turn_Queued s)"
      using args checked found r
      by (simp add: sql_enqueue_turn_for_execution_def sql_enqueue_turn_def coordinated_def ensure_row_def owned_tx_def)
    moreover have "(tn_status x, Turn_Queued) \<in> turn_path" using True by (simp add: path_step)
    ultimately show ?thesis by (intro exI [of _ Turn_Queued]) (simp add: set_row_def)
  next
    case False
    then have "sql_enqueue_turn_for_execution user y s = (Inr (x\<lparr>tn_status := tn_status x\<rparr>), s)"
      using args checked found r
      by (auto simp: sql_enqueue_turn_for_execution_def sql_enqueue_turn_def coordinated_def ensure_row_def owned_tx_def)
    then show ?thesis using path_refl by metis
  qed
qed

text \<open>
  A client input that is enqueued again, at any later time, answers the turn that was stored for it, with
  a status that this turn moved to, and stores no other turn.
\<close>
lemma enqueue_is_idempotent:
  assumes "fresh_turns r" and "(u, x) \<in> set (qv_turns (turn_view (run_all turn_exec r cs)))"
    and "require_text 64 user = Inr u" and "execution_turn y = Inr z" and "tn_conv z = tn_conv x" and "tn_client z = tn_client x"
    and "\<And>v l. qv_lease (turn_view (run_all turn_exec r (cs @ ds))) (tn_conv x) = Some (v, l) \<Longrightarrow> v = u"
  shows "let s = run_all turn_exec r (cs @ ds); t = snd (turn_enqueue user y s) in
    \<exists>st. fst (turn_enqueue user y s) = Inr (x\<lparr>tn_status := st\<rparr>) \<and> (tn_status x, st) \<in> turn_path \<and>
      map (\<lambda>(v, x). tn_id x) (qv_turns (turn_view t)) = map (\<lambda>(v, x). tn_id x) (qv_turns (turn_view s))"
proof -
  let ?s = "run_all turn_exec r (cs @ ds)"
  note ok = reached_turns [OF assms(1), of "cs @ ds"]
  obtain st where st: "(u, x\<lparr>tn_status := st\<rparr>) \<in> set (qv_turns (turn_view ?s))" "(tn_status x, st) \<in> turn_path"
    using turns.session_turn [OF reached_turns [OF assms(1)] assms(2), of ds] by (auto simp: run_all_append)
  show ?thesis
  proof (cases ?s)
    case (Mem_Queue s)
    have "mem_enqueue_turn_for_execution user y s = (Inr (x\<lparr>tn_status := st\<rparr>), s)"
      by (rule mem_enqueue_known [where u = u and z = z]) (use assms(3-7) ok st Mem_Queue in auto)
    then show ?thesis using st(2) Mem_Queue by auto
  next
    case (Sql_Queue s)
    have "\<exists>st' t. sql_enqueue_turn_for_execution user y s = (Inr (x\<lparr>tn_status := st\<rparr>\<lparr>tn_status := st'\<rparr>), t) \<and>
        (tn_status (x\<lparr>tn_status := st\<rparr>), st') \<in> turn_path \<and>
        map (\<lambda>(v, x). tn_id x) (sq_rows t) = map (\<lambda>(v, x). tn_id x) (sq_rows s)"
      by (rule sql_enqueue_known [where u = u and z = z]) (use assms(3-6) ok st Sql_Queue in auto)
    then show ?thesis using path_trans [OF st(2)] Sql_Queue by (auto simp: Let_def)
  qed
qed

definition demo_again :: turn where
  "demo_again = (demo_turn ''z'' 99)\<lparr>tn_client := ''input-a''\<rparr>"

lemma enqueue_is_idempotent_witness:
  "let s = run_all turn_exec sql0 (demo_queue @ [demo_finish]); x = (demo_turn ''a'' 1)\<lparr>tn_status := Turn_Queued\<rparr> in
    \<exists>st. fst (turn_enqueue ''u1'' demo_again s) = Inr (x\<lparr>tn_status := st\<rparr>) \<and> (tn_status x, st) \<in> turn_path"
proof -
  let ?x = "(demo_turn ''a'' 1)\<lparr>tn_status := Turn_Queued\<rparr>"
  have stored: "(''u1'', ?x) \<in> set (qv_turns (turn_view (run_all turn_exec sql0 demo_queue)))" by code_simp
  have args: "require_text 64 ''u1'' = Inr ''u1''" "execution_turn demo_again = Inr demo_again"
      "tn_conv demo_again = tn_conv ?x" "tn_client demo_again = tn_client ?x" by code_simp+
  have "qv_lease (turn_view (run_all turn_exec sql0 (demo_queue @ [demo_finish]))) (tn_conv ?x) = None" by code_simp
  then show ?thesis
    using enqueue_is_idempotent [OF fresh_demo_queues(2) stored args, of "[demo_finish]"] unfolding Let_def by auto
qed


end
