(* ===== verification/Conversations.thy ===== *)
theory Conversations
  imports Json_Text "HOL-Library.Product_Lexorder"
begin

text \<open>
  The conversations of the task store and their messages (\<^verbatim>\<open>tasks/store.py\<close>): the context with the
  namespaces that only the server writes, the revision of a conversation, and the stores in memory and in
  SQL. A context is a Python dictionary; \<open>now\<close> is the time a call reads from the clock. Tasks, assets and
  traces are not modelled.
\<close>

section \<open>Context\<close>

type_synonym ctx = "(string, json) dict"

definition merge_dicts :: "ctx \<Rightarrow> ctx \<Rightarrow> ctx" where
  "merge_dicts d e = fold (\<lambda>(k, v). AList.update k v) e d"

definition as_dict :: "json \<Rightarrow> ctx" where
  "as_dict j = (case j of JObj d \<Rightarrow> d | _ \<Rightarrow> [])"

definition conversation_context :: "ctx \<Rightarrow> ctx" where
  "conversation_context c = filter (\<lambda>(k, v). k \<noteq> ''messages'') c"

definition runtime_key :: string where
  "runtime_key = ''__agent_runtime''"

definition sanitize_client_context :: "ctx \<Rightarrow> ctx" where
  "sanitize_client_context c = AList.delete runtime_key (conversation_context c)"

definition draft_keys :: "string list" where
  "draft_keys =
     [''pendingJianyingDraftJob'', ''pending_jianying_draft_job'', ''jianyingDraftRecords'', ''jianying_draft_records'',
      ''jianying_draft_job_resume_error'']"

definition preserve_server_fields :: "ctx \<Rightarrow> ctx \<Rightarrow> ctx" where
  "preserve_server_fields current replacement =
     fold (\<lambda>k r. case map_of (conversation_context current) k of None \<Rightarrow> AList.delete k r | Some v \<Rightarrow> AList.update k v r)
       (runtime_key # draft_keys) (sanitize_client_context replacement)"

definition patch_runtime_context :: "ctx \<Rightarrow> ctx \<Rightarrow> ctx" where
  "patch_runtime_context c patch =
     (let cur = conversation_context c;
          runtime = (case map_of cur runtime_key of Some (JObj d) \<Rightarrow> d | _ \<Rightarrow> [])
      in AList.update runtime_key (JObj (merge_dicts runtime patch)) cur)"

section \<open>Draft jobs\<close>

record draft_env =
  de_https :: "string \<Rightarrow> bool"
  de_time :: "string \<Rightarrow> time option"

text \<open>\<open>de_https\<close> is the check of \<^verbatim>\<open>urlsplit\<close>'s scheme and host, \<open>de_time\<close> is \<^verbatim>\<open>fromisoformat\<close>.\<close>

definition nonempty_str :: "json \<Rightarrow> string option" where
  "nonempty_str j = (case j of JStr s \<Rightarrow> if s \<noteq> [] then Some s else None | _ \<Rightarrow> None)"

definition draft_job_id :: "json \<Rightarrow> string option" where
  "draft_job_id v = nonempty_str (jget ''job_id'' v)"

definition draft_status :: "json \<Rightarrow> string option" where
  "draft_status v = nonempty_str (jget ''status'' v)"

definition draft_succeeded :: "draft_env \<Rightarrow> time \<Rightarrow> json \<Rightarrow> bool" where
  "draft_succeeded E now v =
     (draft_status v = Some ''succeeded'' \<and>
      (case jget ''download_url'' v of JStr s \<Rightarrow> de_https E s | _ \<Rightarrow> False) \<and>
      (case jget ''expire_at'' v of
         JStr s \<Rightarrow> (case if s = [] then None else de_time E s of None \<Rightarrow> True | Some t \<Rightarrow> now < t)
       | _ \<Rightarrow> True))"

definition effective_status :: "draft_env \<Rightarrow> time \<Rightarrow> json \<Rightarrow> string option" where
  "effective_status E now v =
     (if draft_status v = Some ''succeeded'' \<and> \<not> draft_succeeded E now v then Some ''failed'' else draft_status v)"

definition terminal_drafts :: "string list" where
  "terminal_drafts = [''succeeded'', ''failed'', ''timeout'']"

definition active_rank :: "string option \<Rightarrow> nat" where
  "active_rank st = (if st = Some ''queued'' then 1 else if st = Some ''running'' then 2 else 0)"

definition terminal_draft :: "string option \<Rightarrow> bool" where
  "terminal_draft st = (case st of None \<Rightarrow> False | Some s \<Rightarrow> s \<in> set terminal_drafts)"

definition merge_draft_record ::
  "draft_env \<Rightarrow> time \<Rightarrow> string \<Rightarrow> string option \<Rightarrow> json option \<Rightarrow> json \<Rightarrow> json option \<times> bool" where
  "merge_draft_record E now job pending current_value incoming =
     (let current = (case current_value of Some (JObj d) \<Rightarrow> Some (JObj d) | _ \<Rightarrow> None) in
      if \<not> is_obj incoming \<or> draft_job_id incoming \<noteq> Some job then (current, False)
      else (case current of
        None \<Rightarrow> (Some incoming, True)
      | Some cur \<Rightarrow>
          if draft_job_id cur \<noteq> Some job \<and> pending \<noteq> Some job then (current, False)
          else if draft_succeeded E now cur then
            (current, draft_job_id cur = Some job \<and> draft_status incoming = Some ''succeeded'')
          else if draft_status incoming = Some ''succeeded'' then (Some incoming, True)
          else if draft_job_id cur = Some job then
            (if terminal_draft (draft_status cur) then (current, draft_status incoming = draft_status cur)
             else if terminal_draft (draft_status incoming) then (Some incoming, True)
             else if active_rank (draft_status cur) \<le> active_rank (draft_status incoming) then (Some incoming, True)
             else (current, False))
          else (Some incoming, True)))"

definition may_set_pending :: "draft_env \<Rightarrow> time \<Rightarrow> string \<Rightarrow> string option \<Rightarrow> ctx \<Rightarrow> json \<Rightarrow> bool" where
  "may_set_pending E now job pending records job_value =
     (draft_job_id job_value = Some job \<and> (pending = None \<or> pending = Some job) \<and>
      (case nonempty_str (jget ''storyboard_version_id'' job_value) of
         None \<Rightarrow> False
       | Some v \<Rightarrow>
           (case map_of records v of
              None \<Rightarrow> True
            | Some r \<Rightarrow> \<not> draft_succeeded E now r \<and> \<not> (draft_job_id r = Some job \<and> terminal_draft (draft_status r)))))"

definition draft_phase ::
  "draft_env \<Rightarrow> time \<Rightarrow> string \<Rightarrow> string \<Rightarrow> string \<Rightarrow> string option \<Rightarrow> ctx \<Rightarrow> string list \<Rightarrow> bool \<Rightarrow> string" where
  "draft_phase E now current requested job pending merged keys authorized =
     (if \<not> authorized then current
      else (case pending of
        Some p \<Rightarrow> if p = job then ''jianying_draft_running'' else current
      | None \<Rightarrow>
          (let sts = map (\<lambda>k. case map_of merged k of None \<Rightarrow> None | Some r \<Rightarrow> effective_status E now r) keys in
           if Some ''succeeded'' \<in> set sts then ''jianying_draft_succeeded''
           else if Some ''failed'' \<in> set sts then ''jianying_draft_failed''
           else if Some ''timeout'' \<in> set sts then ''jianying_draft_timeout''
           else requested)))"

definition current_pending :: "ctx \<Rightarrow> json" where
  "current_pending c =
     (case map_of c ''pendingJianyingDraftJob'' of
        Some (JObj d) \<Rightarrow> JObj d
      | _ \<Rightarrow> (case map_of c ''pending_jianying_draft_job'' of Some (JObj d) \<Rightarrow> JObj d | _ \<Rightarrow> JNull))"

definition draft_records :: "ctx \<Rightarrow> ctx" where
  "draft_records c =
     merge_dicts (case map_of c ''jianying_draft_records'' of None \<Rightarrow> [] | Some v \<Rightarrow> as_dict v)
       (case map_of c ''jianyingDraftRecords'' of None \<Rightarrow> [] | Some v \<Rightarrow> as_dict v)"

definition merge_draft_step :: "draft_env \<Rightarrow> time \<Rightarrow> string \<Rightarrow> string option \<Rightarrow> string \<times> json \<Rightarrow> ctx \<times> bool \<Rightarrow> ctx \<times> bool" where
  "merge_draft_step E now job pending p acc =
     (case merge_draft_record E now job pending (map_of (fst acc) (fst p)) (snd p) of
        (r, ok) \<Rightarrow> (case r of None \<Rightarrow> fst acc | Some x \<Rightarrow> AList.update (fst p) x (fst acc), snd acc \<or> ok))"

definition merge_draft_records :: "draft_env \<Rightarrow> time \<Rightarrow> string \<Rightarrow> string option \<Rightarrow> ctx \<Rightarrow> ctx \<Rightarrow> ctx \<times> bool" where
  "merge_draft_records E now job pending records incoming =
     fold (merge_draft_step E now job pending) incoming (records, False)"

text \<open>\<open>error\<close> is None when the call leaves the error text alone.\<close>

definition patch_draft_context ::
  "draft_env \<Rightarrow> time \<Rightarrow> ctx \<Rightarrow> string \<Rightarrow> string \<Rightarrow> string \<Rightarrow> json option \<Rightarrow> ctx \<Rightarrow> json option \<Rightarrow> ctx \<times> string" where
  "patch_draft_context E now c phase requested job pending_job records error =
     (let cur = conversation_context c;
          pending = current_pending cur;
          (merged, auth) = merge_draft_records E now job (draft_job_id pending) (draft_records cur) records;
          (pending', auth') =
            (case pending_job of
               None \<Rightarrow> if draft_job_id pending = Some job then (JNull, True) else (pending, auth)
             | Some p \<Rightarrow> if may_set_pending E now job (draft_job_id pending) merged p then (p, True) else (pending, auth));
          patched = merge_dicts cur
            [(''pendingJianyingDraftJob'', pending'), (''pending_jianying_draft_job'', pending'),
             (''jianyingDraftRecords'', JObj merged), (''jianying_draft_records'', JObj merged)];
          patched' = (case error of
             Some er \<Rightarrow> if auth' then AList.update ''jianying_draft_job_resume_error'' er patched else patched
           | None \<Rightarrow> patched)
      in (patched', draft_phase E now phase requested job (draft_job_id pending') merged (map fst records) auth'))"

section \<open>Conversations\<close>

record conversation =
  cv_id :: string
  cv_user :: "string option"
  cv_mode :: string
  cv_version :: nat
  cv_title :: string
  cv_task :: "string option"
  cv_phase :: string
  cv_context :: ctx
  cv_rev :: nat
  cv_created :: time
  cv_updated :: time

record conv_message =
  cm_id :: string
  cm_conv :: string
  cm_user :: "string option"
  cm_role :: string
  cm_content :: string
  cm_payload :: json
  cm_at :: time

datatype task_error = Revision_Conflict nat nat | Bad_Revision | Message_Collision | Row_Exists | Bad_Response

definition require_revision :: "nat \<Rightarrow> task_error + nat" where
  "require_revision n = (if n < 1 then Inl Bad_Revision else Inr n)"

definition check_revision :: "nat \<Rightarrow> nat option \<Rightarrow> task_error + unit" where
  "check_revision current expected =
     bind_result (require_revision current) (\<lambda>c.
       case expected of
         None \<Rightarrow> Inr ()
       | Some e \<Rightarrow> bind_result (require_revision e) (\<lambda>x. if x \<noteq> c then Inl (Revision_Conflict x c) else Inr ()))"

text \<open>The fields a call sets; \<open>cf_runtime\<close> is \<^verbatim>\<open>_agent_runtime_patch\<close>.\<close>

record conv_fields =
  cf_title :: "string option"
  cf_task :: "string option option"
  cf_phase :: "string option"
  cf_context :: "ctx option"
  cf_mode :: "string option"
  cf_version :: "nat option"
  cf_runtime :: "ctx option"

definition no_fields :: conv_fields where
  "no_fields = \<lparr>cf_title = None, cf_task = None, cf_phase = None, cf_context = None, cf_mode = None, cf_version = None, cf_runtime = None\<rparr>"

definition same_context :: "ctx \<Rightarrow> ctx \<Rightarrow> bool" where
  "same_context c d = py_eq (JObj c) (JObj d)"

text \<open>An assignment that compares first: None when the value is the same.\<close>

type_synonym edit = "conversation \<Rightarrow> conversation option"

definition edits :: "conv_fields \<Rightarrow> edit list" where
  "edits f =
     [\<lambda>c. case cf_title f of None \<Rightarrow> None | Some v \<Rightarrow> if cv_title c = v then None else Some (c\<lparr>cv_title := v\<rparr>),
      \<lambda>c. case cf_task f of None \<Rightarrow> None | Some v \<Rightarrow> if cv_task c = v then None else Some (c\<lparr>cv_task := v\<rparr>),
      \<lambda>c. case cf_phase f of None \<Rightarrow> None | Some v \<Rightarrow> if cv_phase c = v then None else Some (c\<lparr>cv_phase := v\<rparr>),
      \<lambda>c. case cf_context f of None \<Rightarrow> None
        | Some v \<Rightarrow> (let w = preserve_server_fields (cv_context c) v in
                     if same_context (cv_context c) w then None else Some (c\<lparr>cv_context := w\<rparr>)),
      \<lambda>c. case cf_mode f of None \<Rightarrow> None | Some v \<Rightarrow> if cv_mode c = v then None else Some (c\<lparr>cv_mode := v\<rparr>),
      \<lambda>c. case cf_version f of None \<Rightarrow> None | Some v \<Rightarrow> if cv_version c = v then None else Some (c\<lparr>cv_version := v\<rparr>),
      \<lambda>c. case cf_runtime f of None \<Rightarrow> None
        | Some p \<Rightarrow> (let w = patch_runtime_context (cv_context c) p in
                     if same_context w (cv_context c) then None else Some (c\<lparr>cv_context := w\<rparr>))]"

definition apply_edits :: "edit list \<Rightarrow> conversation \<Rightarrow> bool \<times> conversation" where
  "apply_edits es c = fold (\<lambda>e (ch, d). case e d of None \<Rightarrow> (ch, d) | Some d' \<Rightarrow> (True, d')) es (False, c)"

definition next_revision :: "time \<Rightarrow> conversation \<Rightarrow> conversation" where
  "next_revision now c = c\<lparr>cv_rev := cv_rev c + 1, cv_updated := now\<rparr>"

definition updated_conversation :: "nat option \<Rightarrow> conv_fields \<Rightarrow> time \<Rightarrow> conversation \<Rightarrow> task_error + conversation" where
  "updated_conversation expected f now c =
     bind_result (check_revision (cv_rev c) expected) (\<lambda>_.
       case apply_edits (edits f) c of (ch, d) \<Rightarrow> Inr (if ch then next_revision now d else d))"

definition runtime_patched :: "nat \<Rightarrow> ctx \<Rightarrow> time \<Rightarrow> conversation \<Rightarrow> task_error + conversation" where
  "runtime_patched expected p now c =
     bind_result (check_revision (cv_rev c) (Some expected)) (\<lambda>_.
       let w = patch_runtime_context (cv_context c) p in
       Inr (if same_context w (cv_context c) then c else next_revision now (c\<lparr>cv_context := w\<rparr>)))"

record draft_patch =
  dp_job :: string
  dp_pending :: "json option"
  dp_records :: ctx
  dp_phase :: string
  dp_error :: "json option"

definition draft_patched :: "draft_env \<Rightarrow> draft_patch \<Rightarrow> time \<Rightarrow> conversation \<Rightarrow> task_error + conversation" where
  "draft_patched E p now c =
     (case patch_draft_context E now (cv_context c) (cv_phase c) (dp_phase p) (dp_job p) (dp_pending p) (dp_records p) (dp_error p) of
        (w, phase) \<Rightarrow>
          if same_context w (cv_context c) \<and> phase = cv_phase c then Inr c
          else bind_result (require_revision (cv_rev c)) (\<lambda>_. Inr (next_revision now (c\<lparr>cv_context := w, cv_phase := phase\<rparr>))))"

definition conv_owned :: "string option \<Rightarrow> conversation \<Rightarrow> bool" where
  "conv_owned user c = (user = None \<or> cv_user c = user)"

section \<open>Pages\<close>

text \<open>
  \<open>ct_iso\<close> is \<^verbatim>\<open>_dt\<close> of a time (\<^verbatim>\<open>isoformat\<close> in UTC with
  \<^verbatim>\<open>Z\<close>) and \<open>ct_parse\<close> is \<^verbatim>\<open>_to_datetime\<close> of a text, None where
  \<^verbatim>\<open>fromisoformat\<close> raises. The time of a conversation is the store's own clock: no caller
  gives another.
\<close>

record clock_text =
  ct_iso :: "time \<Rightarrow> string"
  ct_parse :: "string \<Rightarrow> time option"

definition conversation_cursor :: "clock_text \<Rightarrow> conversation \<Rightarrow> string" where
  "conversation_cursor T c = ct_iso T (cv_created c) @ ''|'' @ cv_id c"

text \<open>The text is split at its last bar; one that cannot be read counts as no cursor.\<close>

definition parse_cursor :: "clock_text \<Rightarrow> string option \<Rightarrow> (time \<times> string) option" where
  "parse_cursor T cursor =
     (case cursor of
        None \<Rightarrow> None
      | Some s \<Rightarrow>
          if CHR ''|'' \<notin> set s then None
          else (let i = rev (takeWhile (\<lambda>c. c \<noteq> CHR ''|'') (rev s));
                    raw = take (length s - Suc (length i)) s
                in map_option (\<lambda>t. (t, i)) (ct_parse T raw)))"

definition newest_first :: "(conversation \<Rightarrow> 'k::linorder) \<Rightarrow> conversation list \<Rightarrow> conversation list" where
  "newest_first key cs = rev (sort_key key cs)"

text \<open>
  A page of the conversations of a user, by the key of the store: the texts of the times in memory, the
  times in SQL.
\<close>

definition conversation_page ::
  "(conversation \<Rightarrow> 'k::linorder) \<Rightarrow> clock_text \<Rightarrow> string option \<Rightarrow> nat \<Rightarrow> 'k option \<Rightarrow> conversation list
   \<Rightarrow> conversation list \<times> string option" where
  "conversation_page key T user limit cursor cs =
     (let rows = filter (\<lambda>c. case cursor of None \<Rightarrow> True | Some k \<Rightarrow> key c < k)
                   (newest_first key (filter (conv_owned user) cs));
          page = take limit rows
      in (page, if length rows > limit \<and> page \<noteq> [] then Some (conversation_cursor T (last page)) else None))"

definition text_key :: "clock_text \<Rightarrow> conversation \<Rightarrow> string \<times> string" where
  "text_key T c = (ct_iso T (cv_created c), cv_id c)"

definition time_key :: "conversation \<Rightarrow> time \<times> string" where
  "time_key c = (cv_created c, cv_id c)"

end
