(* ===== verification/Conversation_Stores.thy ===== *)
theory Conversation_Stores
  imports Conversations
begin

text \<open>
  The two stores of conversations in \<^verbatim>\<open>tasks/store.py\<close>: in memory (\<^verbatim>\<open>MemoryPixelFlowTaskStore\<close>) and
  in SQL (\<^verbatim>\<open>SQLPixelFlowTaskStore\<close>). A call with \<^verbatim>\<open>user_id=None\<close> sees the rows of every user.
\<close>

type_synonym ('a, 's) task_result = "(task_error + 'a) \<times> 's"

section \<open>In memory\<close>

record mem_tasks =
  mt_convs :: "(string, conversation) dict"
  mt_messages :: "(string, conv_message list) dict"

definition mem_create_conversation :: "conversation \<Rightarrow> mem_tasks \<Rightarrow> (conversation, mem_tasks) task_result" where
  "mem_create_conversation c s =
     (case require_revision (cv_rev c) of
        Inl er \<Rightarrow> (Inl er, s)
      | Inr n \<Rightarrow>
          (let d = c\<lparr>cv_context := conversation_context (cv_context c)\<rparr> in
           (Inr d, s\<lparr>mt_convs := AList.update (cv_id d) d (mt_convs s)\<rparr>)))"

definition mem_get_conversation :: "string \<Rightarrow> string option \<Rightarrow> mem_tasks \<Rightarrow> conversation option" where
  "mem_get_conversation cid user s =
     (case map_of (mt_convs s) cid of None \<Rightarrow> None | Some c \<Rightarrow> if conv_owned user c then Some c else None)"

definition mem_list_conversations ::
  "clock_text \<Rightarrow> string option \<Rightarrow> nat \<Rightarrow> string option \<Rightarrow> mem_tasks \<Rightarrow> conversation list \<times> string option" where
  "mem_list_conversations T user limit cursor s =
     conversation_page (text_key T) T user limit
       (map_option (\<lambda>(t, i). (ct_iso T t, i)) (parse_cursor T cursor)) (map snd (mt_convs s))"

definition mem_change ::
  "string \<Rightarrow> string option \<Rightarrow> (conversation \<Rightarrow> task_error + conversation) \<Rightarrow> mem_tasks \<Rightarrow> (conversation option, mem_tasks) task_result" where
  "mem_change cid user f s =
     (case mem_get_conversation cid user s of
        None \<Rightarrow> (Inr None, s)
      | Some c \<Rightarrow>
          (case f c of
             Inl er \<Rightarrow> (Inl er, s)
           | Inr d \<Rightarrow> (Inr (Some d), s\<lparr>mt_convs := AList.update cid d (mt_convs s)\<rparr>)))"

definition mem_update_conversation ::
  "string \<Rightarrow> string option \<Rightarrow> nat option \<Rightarrow> conv_fields \<Rightarrow> time \<Rightarrow> mem_tasks \<Rightarrow> (conversation option, mem_tasks) task_result" where
  "mem_update_conversation cid user expected f now = mem_change cid user (updated_conversation expected f now)"

definition mem_patch_runtime ::
  "string \<Rightarrow> string option \<Rightarrow> nat \<Rightarrow> ctx \<Rightarrow> time \<Rightarrow> mem_tasks \<Rightarrow> (conversation option, mem_tasks) task_result" where
  "mem_patch_runtime cid user expected p now = mem_change cid user (runtime_patched expected p now)"

definition mem_patch_draft ::
  "draft_env \<Rightarrow> string \<Rightarrow> string option \<Rightarrow> draft_patch \<Rightarrow> time \<Rightarrow> mem_tasks \<Rightarrow> (conversation option, mem_tasks) task_result" where
  "mem_patch_draft E cid user p now = mem_change cid user (draft_patched E p now)"

definition mem_messages :: "string \<Rightarrow> mem_tasks \<Rightarrow> conv_message list" where
  "mem_messages cid s = (case map_of (mt_messages s) cid of None \<Rightarrow> [] | Some ms \<Rightarrow> ms)"

definition mem_find_message :: "string \<Rightarrow> mem_tasks \<Rightarrow> conv_message option" where
  "mem_find_message mid s = List.find (\<lambda>m. cm_id m = mid) (concat (map snd (mt_messages s)))"

definition mem_add_message :: "conv_message \<Rightarrow> mem_tasks \<Rightarrow> mem_tasks" where
  "mem_add_message m s = s\<lparr>mt_messages := AList.update (cm_conv m) (mem_messages (cm_conv m) s @ [m]) (mt_messages s)\<rparr>"

definition mem_touch :: "string \<Rightarrow> time \<Rightarrow> mem_tasks \<Rightarrow> mem_tasks" where
  "mem_touch cid now s =
     (case map_of (mt_convs s) cid of None \<Rightarrow> s | Some c \<Rightarrow> s\<lparr>mt_convs := AList.update cid (c\<lparr>cv_updated := now\<rparr>) (mt_convs s)\<rparr>)"

text \<open>A message that comes with no time (\<open>given\<close> is None) gets the one of the clock.\<close>

definition mem_append_message :: "conv_message \<Rightarrow> time option \<Rightarrow> time \<Rightarrow> mem_tasks \<Rightarrow> (conv_message, mem_tasks) task_result" where
  "mem_append_message m given now s =
     (case mem_find_message (cm_id m) s of
        Some e \<Rightarrow> if cm_conv e \<noteq> cm_conv m then (Inl Message_Collision, s) else (Inr e, s)
      | None \<Rightarrow>
          (let r = m\<lparr>cm_at := (case given of None \<Rightarrow> now | Some t \<Rightarrow> t)\<rparr> in
           (Inr r, mem_touch (cm_conv m) (cm_at r) (mem_add_message r s))))"

definition message_known_as :: "string option \<Rightarrow> string \<Rightarrow> conv_message \<Rightarrow> bool" where
  "message_known_as user mid m =
     ((user = None \<or> cm_user m = user) \<and> (cm_id m = mid \<or> py_eq (jget ''client_message_id'' (cm_payload m)) (JStr mid)))"

definition changed_message :: "string option \<Rightarrow> json option \<Rightarrow> conv_message \<Rightarrow> conv_message" where
  "changed_message content payload m =
     m\<lparr>cm_content := (case content of None \<Rightarrow> cm_content m | Some t \<Rightarrow> t),
       cm_payload := (case payload of None \<Rightarrow> cm_payload m | Some p \<Rightarrow> p)\<rparr>"

definition mem_update_message ::
  "string \<Rightarrow> string \<Rightarrow> string option \<Rightarrow> string option \<Rightarrow> json option \<Rightarrow> time \<Rightarrow> mem_tasks
   \<Rightarrow> conv_message option \<times> mem_tasks" where
  "mem_update_message cid mid user content payload now s =
     (case List.find (message_known_as user mid) (mem_messages cid s) of
        None \<Rightarrow> (None, s)
      | Some m \<Rightarrow>
          (Some (changed_message content payload m),
           mem_touch cid now (s\<lparr>mt_messages := AList.update cid
             (map (\<lambda>x. if cm_id x = cm_id m then changed_message content payload x else x) (mem_messages cid s)) (mt_messages s)\<rparr>)))"

definition message_page :: "string option \<Rightarrow> nat \<Rightarrow> conv_message list \<Rightarrow> conv_message list" where
  "message_page user limit ms =
     take limit (sort_key (\<lambda>m. (cm_at m, cm_id m)) (filter (\<lambda>m. user = None \<or> cm_user m = user) ms))"

definition mem_list_messages :: "string \<Rightarrow> string option \<Rightarrow> nat \<Rightarrow> mem_tasks \<Rightarrow> conv_message list" where
  "mem_list_messages cid user limit s = message_page user limit (mem_messages cid s)"

text \<open>
  The write of the answer to an interrupt: the state it leaves for the caller's block, what it returns, and
  what is restored when the block raises.
\<close>

definition context_number :: "json \<Rightarrow> nat option" where
  "context_number j = (case j of JInt i \<Rightarrow> if 0 \<le> i then Some (nat i) else None | _ \<Rightarrow> None)"

definition mem_begin_response ::
  "string \<Rightarrow> string \<Rightarrow> conv_message \<Rightarrow> time \<Rightarrow> mem_tasks \<Rightarrow> (nat \<times> conversation \<times> conv_message list, mem_tasks) task_result" where
  "mem_begin_response cid user m now s =
     (case mem_get_conversation cid (Some user) s of
        None \<Rightarrow> (Inl Bad_Response, s)
      | Some c \<Rightarrow>
          if cm_conv m \<noteq> cid \<or> cm_user m \<noteq> Some user \<or> cm_role m \<noteq> ''user'' then (Inl Bad_Response, s)
          else (case context_number (case map_of (cv_context c) runtime_key of None \<Rightarrow> JNull | Some r \<Rightarrow> jget ''context_version'' r) of
             None \<Rightarrow> (Inl Bad_Response, s)
           | Some v \<Rightarrow>
               if mem_find_message (cm_id m) s \<noteq> None then (Inl Bad_Response, s)
               else (let d = next_revision now (c\<lparr>cv_context := patch_runtime_context (cv_context c)
                                 [(''context_version'', JInt (int (v + 1)))]\<rparr>)
                     in (Inr (v, c, mem_messages cid s),
                         mem_add_message m (s\<lparr>mt_convs := AList.update cid d (mt_convs s)\<rparr>)))))"

definition mem_undo_response :: "string \<Rightarrow> conversation \<Rightarrow> conv_message list \<Rightarrow> mem_tasks \<Rightarrow> mem_tasks" where
  "mem_undo_response cid before messages s =
     s\<lparr>mt_convs := AList.update cid before (mt_convs s), mt_messages := AList.update cid messages (mt_messages s)\<rparr>"

section \<open>In SQL\<close>

record sql_tasks =
  st_convs :: "(string, conversation) dict"
  st_messages :: "(string, conv_message) dict"

text \<open>How a row is read: empty columns have defaults.\<close>

definition row_record :: "conversation \<Rightarrow> conversation" where
  "row_record r =
       r\<lparr>cv_mode := (if cv_mode r = [] then ''frontend_v2'' else cv_mode r), cv_version := (if cv_version r = 0 then 1 else cv_version r),
              cv_phase := (if cv_phase r = [] then ''idle'' else cv_phase r), cv_context := conversation_context (cv_context r)\<rparr>"

definition read_conversation :: "conversation \<Rightarrow> task_error + conversation" where
  "read_conversation r = bind_result (require_revision (cv_rev r)) (\<lambda>n. Inr (row_record r))"

definition sql_create_conversation :: "conversation \<Rightarrow> sql_tasks \<Rightarrow> (conversation, sql_tasks) task_result" where
  "sql_create_conversation c s =
     (case require_revision (cv_rev c) of
        Inl er \<Rightarrow> (Inl er, s)
      | Inr n \<Rightarrow>
          if map_of (st_convs s) (cv_id c) \<noteq> None then (Inl Row_Exists, s)
          else (let r = c\<lparr>cv_context := conversation_context (cv_context c)\<rparr> in
                (read_conversation r, s\<lparr>st_convs := AList.update (cv_id c) r (st_convs s)\<rparr>)))"

definition sql_row :: "string \<Rightarrow> string option \<Rightarrow> sql_tasks \<Rightarrow> conversation option" where
  "sql_row cid user s = (case map_of (st_convs s) cid of None \<Rightarrow> None | Some r \<Rightarrow> if conv_owned user r then Some r else None)"

definition sql_get_conversation :: "string \<Rightarrow> string option \<Rightarrow> sql_tasks \<Rightarrow> task_error + conversation option" where
  "sql_get_conversation cid user s =
     (case sql_row cid user s of None \<Rightarrow> Inr None | Some r \<Rightarrow> bind_result (read_conversation r) (\<lambda>c. Inr (Some c)))"

definition sql_list_conversations ::
  "clock_text \<Rightarrow> string option \<Rightarrow> nat \<Rightarrow> string option \<Rightarrow> sql_tasks \<Rightarrow> task_error + conversation list \<times> string option" where
  "sql_list_conversations T user limit cursor s =
     (case conversation_page time_key T user limit (parse_cursor T cursor) (map snd (st_convs s)) of
        (rows, next) \<Rightarrow> bind_result (fold_result (\<lambda>cs r. bind_result (read_conversation r) (\<lambda>c. Inr (cs @ [c]))) [] rows) (\<lambda>cs. Inr (cs, next)))"

text \<open>A change in a transaction; the answer is the row read back.\<close>

definition sql_change ::
  "string \<Rightarrow> string option \<Rightarrow> (conversation \<Rightarrow> task_error + conversation) \<Rightarrow> sql_tasks \<Rightarrow> (conversation option, sql_tasks) task_result" where
  "sql_change cid user f s =
     (case sql_row cid user s of
        None \<Rightarrow> (Inr None, s)
      | Some r \<Rightarrow>
          (case bind_result (f r) (\<lambda>q. bind_result (read_conversation q) (\<lambda>c. Inr (q, c))) of
             Inl er \<Rightarrow> (Inl er, s)
           | Inr (q, c) \<Rightarrow> (Inr (Some c), s\<lparr>st_convs := AList.update cid q (st_convs s)\<rparr>)))"

definition sql_update_conversation ::
  "string \<Rightarrow> string option \<Rightarrow> nat option \<Rightarrow> conv_fields \<Rightarrow> time \<Rightarrow> sql_tasks \<Rightarrow> (conversation option, sql_tasks) task_result" where
  "sql_update_conversation cid user expected f now = sql_change cid user (updated_conversation expected f now)"

definition sql_patch_runtime ::
  "string \<Rightarrow> string option \<Rightarrow> nat \<Rightarrow> ctx \<Rightarrow> time \<Rightarrow> sql_tasks \<Rightarrow> (conversation option, sql_tasks) task_result" where
  "sql_patch_runtime cid user expected p now = sql_change cid user (runtime_patched expected p now)"

definition sql_patch_draft ::
  "draft_env \<Rightarrow> string \<Rightarrow> string option \<Rightarrow> draft_patch \<Rightarrow> time \<Rightarrow> sql_tasks \<Rightarrow> (conversation option, sql_tasks) task_result" where
  "sql_patch_draft E cid user p now = sql_change cid user (draft_patched E p now)"

definition sql_touch :: "string \<Rightarrow> time \<Rightarrow> sql_tasks \<Rightarrow> sql_tasks" where
  "sql_touch cid now s =
     (case map_of (st_convs s) cid of None \<Rightarrow> s | Some c \<Rightarrow> s\<lparr>st_convs := AList.update cid (c\<lparr>cv_updated := now\<rparr>) (st_convs s)\<rparr>)"

text \<open>The row of a message gets the time of the clock, whatever time the message carries.\<close>

definition sql_append_message :: "conv_message \<Rightarrow> time \<Rightarrow> sql_tasks \<Rightarrow> (conv_message, sql_tasks) task_result" where
  "sql_append_message m now s =
     (case map_of (st_messages s) (cm_id m) of
        Some e \<Rightarrow> if cm_conv e \<noteq> cm_conv m then (Inl Message_Collision, s) else (Inr e, s)
      | None \<Rightarrow>
          (let r = m\<lparr>cm_at := now\<rparr> in
           (Inr r, sql_touch (cm_conv m) now (s\<lparr>st_messages := AList.update (cm_id m) r (st_messages s)\<rparr>))))"

definition sql_messages :: "string \<Rightarrow> sql_tasks \<Rightarrow> conv_message list" where
  "sql_messages cid s = filter (\<lambda>m. cm_conv m = cid) (map snd (st_messages s))"

definition sql_update_message ::
  "string \<Rightarrow> string \<Rightarrow> string option \<Rightarrow> string option \<Rightarrow> json option \<Rightarrow> time \<Rightarrow> sql_tasks
   \<Rightarrow> conv_message option \<times> sql_tasks" where
  "sql_update_message cid mid user content payload now s =
     (case List.find (message_known_as user mid) (sql_messages cid s) of
        None \<Rightarrow> (None, s)
      | Some m \<Rightarrow>
          (Some (changed_message content payload m),
           sql_touch cid now (s\<lparr>st_messages := AList.update (cm_id m) (changed_message content payload m) (st_messages s)\<rparr>)))"

definition sql_list_messages :: "string \<Rightarrow> string option \<Rightarrow> nat \<Rightarrow> sql_tasks \<Rightarrow> conv_message list" where
  "sql_list_messages cid user limit s = message_page user limit (sql_messages cid s)"

section \<open>Commands\<close>

datatype conv_cmd =
    Create_Conversation conversation
  | Update_Conversation string "string option" "nat option" conv_fields time
  | Patch_Runtime string "string option" nat ctx time
  | Patch_Draft string "string option" draft_patch time
  | Append_Message conv_message "time option" time
  | Update_Message string string "string option" "string option" "json option" time

definition forget_result :: "(task_error + 'a) \<times> 's \<Rightarrow> (task_error + unit) \<times> 's" where
  "forget_result r = lift_result (\<lambda>_. ()) r"

lemma forget_result_state [simp]: "snd (forget_result r) = snd r"
  by (simp add: forget_result_def)

fun mem_conv_exec :: "draft_env \<Rightarrow> mem_tasks \<Rightarrow> conv_cmd \<Rightarrow> (task_error + unit) \<times> mem_tasks" where
  "mem_conv_exec E s (Create_Conversation c) = forget_result (mem_create_conversation c s)"
| "mem_conv_exec E s (Update_Conversation cid user expected f now) = forget_result (mem_update_conversation cid user expected f now s)"
| "mem_conv_exec E s (Patch_Runtime cid user expected p now) = forget_result (mem_patch_runtime cid user expected p now s)"
| "mem_conv_exec E s (Patch_Draft cid user p now) = forget_result (mem_patch_draft E cid user p now s)"
| "mem_conv_exec E s (Append_Message m given now) = forget_result (mem_append_message m given now s)"
| "mem_conv_exec E s (Update_Message cid mid user content payload now) =
     (Inr (), snd (mem_update_message cid mid user content payload now s))"

fun sql_conv_exec :: "draft_env \<Rightarrow> sql_tasks \<Rightarrow> conv_cmd \<Rightarrow> (task_error + unit) \<times> sql_tasks" where
  "sql_conv_exec E s (Create_Conversation c) = forget_result (sql_create_conversation c s)"
| "sql_conv_exec E s (Update_Conversation cid user expected f now) = forget_result (sql_update_conversation cid user expected f now s)"
| "sql_conv_exec E s (Patch_Runtime cid user expected p now) = forget_result (sql_patch_runtime cid user expected p now s)"
| "sql_conv_exec E s (Patch_Draft cid user p now) = forget_result (sql_patch_draft E cid user p now s)"
| "sql_conv_exec E s (Append_Message m given now) = forget_result (sql_append_message m now s)"
| "sql_conv_exec E s (Update_Message cid mid user content payload now) =
     (Inr (), snd (sql_update_message cid mid user content payload now s))"

definition new_mem_tasks :: mem_tasks where
  "new_mem_tasks = \<lparr>mt_convs = [], mt_messages = []\<rparr>"

definition new_sql_tasks :: sql_tasks where
  "new_sql_tasks = \<lparr>st_convs = [], st_messages = []\<rparr>"

end
