(* ===== verification/Conversation_Laws.thy ===== *)
theory Conversation_Laws
  imports Conversation_Stores
begin

text \<open>
  What both stores of conversations keep (\<open>conversation_store\<close>): the revision counts the changes of a
  conversation, and a client's update leaves the namespaces of the server alone.
\<close>

section \<open>Contexts\<close>

definition server_keys :: "string list" where
  "server_keys = runtime_key # draft_keys"

definition same_server_fields :: "ctx \<Rightarrow> ctx \<Rightarrow> bool" where
  "same_server_fields c d = (\<forall>k \<in> set server_keys. map_of c k = map_of d k)"

lemma server_not_messages: "k \<in> set server_keys \<Longrightarrow> k \<noteq> ''messages''"
  by (auto simp: server_keys_def draft_keys_def runtime_key_def)

lemma conversation_context_lookup: "map_of (conversation_context c) k = (if k = ''messages'' then None else map_of c k)"
  by (induction c) (auto simp: conversation_context_def)

lemma merge_dicts_lookup: "map_of (merge_dicts d e) k = (case map_of (rev e) k of None \<Rightarrow> map_of d k | Some v \<Rightarrow> Some v)"
proof (induction e arbitrary: d)
  case (Cons p e)
  obtain a b where p: "p = (a, b)" by (cases p)
  have "merge_dicts d (p # e) = merge_dicts (AList.update a b d) e" by (simp add: merge_dicts_def p)
  then show ?case using Cons.IH by (auto simp: p map_add_def split: option.splits)
qed (simp add: merge_dicts_def)

lemma preserve_fold_lookup:
  "map_of (fold (\<lambda>k r. case map_of d k of None \<Rightarrow> AList.delete k r | Some v \<Rightarrow> AList.update k v r) ks r) k =
     (if k \<in> set ks then map_of d k else map_of r k)"
proof (induction ks arbitrary: r)
  case (Cons a ks)
  show ?case using Cons.IH by (auto split: option.splits)
qed simp

lemma preserve_same: "same_server_fields (preserve_server_fields c d) c"
proof -
  have "map_of (preserve_server_fields c d) k = map_of (conversation_context c) k" if "k \<in> set server_keys" for k
    using that unfolding preserve_server_fields_def server_keys_def [symmetric] preserve_fold_lookup by simp
  then show ?thesis using server_not_messages by (simp add: same_server_fields_def conversation_context_lookup)
qed

lemma same_server_refl [simp]: "same_server_fields c c"
  by (simp add: same_server_fields_def)

lemma same_server_trans: "same_server_fields b c \<Longrightarrow> same_server_fields a b \<Longrightarrow> same_server_fields a c"
  by (simp add: same_server_fields_def)

section \<open>Edits\<close>

definition same_content :: "conversation \<Rightarrow> conversation \<Rightarrow> bool" where
  "same_content c d =
     (cv_mode c = cv_mode d \<and> cv_version c = cv_version d \<and> cv_title c = cv_title d \<and> cv_task c = cv_task d \<and>
      cv_phase c = cv_phase d \<and> cv_context c = cv_context d)"

text \<open>A conversation and what it became.\<close>

definition conv_le :: "conversation \<Rightarrow> conversation \<Rightarrow> bool" where
  "conv_le c d =
     (cv_id d = cv_id c \<and> cv_user d = cv_user c \<and> cv_created d = cv_created c \<and> cv_rev c \<le> cv_rev d \<and> (cv_rev d = cv_rev c \<longrightarrow> same_content c d))"

lemma conv_le_refl [simp]: "conv_le c c"
  by (simp add: conv_le_def same_content_def)

lemma conv_le_trans: "conv_le c d \<Longrightarrow> conv_le d e \<Longrightarrow> conv_le c e"
  by (auto simp: conv_le_def same_content_def)

lemma conv_le_touch: "conv_le c (c\<lparr>cv_updated := t\<rparr>)"
  by (simp add: conv_le_def same_content_def)

definition same_row :: "conversation \<Rightarrow> conversation \<Rightarrow> bool" where
  "same_row c d = (cv_user d = cv_user c \<and> cv_created d = cv_created c \<and> cv_rev d = cv_rev c \<and> cv_id d = cv_id c)"

lemma same_row_refl [simp]: "same_row c c"
  by (simp add: same_row_def)

lemma same_row_trans: "same_row b c \<Longrightarrow> same_row a b \<Longrightarrow> same_row a c"
  by (simp add: same_row_def)

lemma edits_keep:
  assumes "e \<in> set (edits f)" and "e c = Some d"
  shows "same_row c d" and "cf_runtime f = None \<Longrightarrow> same_server_fields (cv_context d) (cv_context c)"
  using assms preserve_same by (auto simp: edits_def same_row_def Let_def split: option.splits if_splits)

lemma apply_edits_Nil: "apply_edits [] c = (False, c)"
  by (simp add: apply_edits_def)

lemma apply_edits_snoc:
  "apply_edits (es @ [e]) c =
     (case e (snd (apply_edits es c)) of None \<Rightarrow> apply_edits es c | Some d \<Rightarrow> (True, d))"
  by (simp add: apply_edits_def case_prod_beta split: option.split)

lemma apply_edits_keep:
  assumes "set es \<subseteq> set (edits f)"
  shows "same_row c (snd (apply_edits es c)) \<and> (\<not> fst (apply_edits es c) \<longrightarrow> snd (apply_edits es c) = c) \<and>
    (cf_runtime f = None \<longrightarrow> same_server_fields (cv_context (snd (apply_edits es c))) (cv_context c))"
  using assms
proof (induction es rule: rev_induct)
  case Nil
  then show ?case by (simp add: apply_edits_Nil)
next
  case (snoc e es)
  show ?case
  proof (cases "e (snd (apply_edits es c))")
    case None
    then have "apply_edits (es @ [e]) c = apply_edits es c" by (simp add: apply_edits_snoc)
    then show ?thesis using snoc by simp
  next
    case (Some d)
    have e: "e \<in> set (edits f)" using snoc.prems by simp
    have IH: "same_row c (snd (apply_edits es c))"
        "cf_runtime f = None \<Longrightarrow> same_server_fields (cv_context (snd (apply_edits es c))) (cv_context c)"
      using snoc by simp_all
    have "apply_edits (es @ [e]) c = (True, d)" by (simp add: apply_edits_snoc Some)
    moreover have "same_row c d" by (rule same_row_trans [OF edits_keep(1) [OF e Some] IH(1)])
    moreover have "same_server_fields (cv_context d) (cv_context c)" if "cf_runtime f = None"
      by (rule same_server_trans [OF IH(2) [OF that] edits_keep(2) [OF e Some that]])
    ultimately show ?thesis by simp
  qed
qed

lemma updated_le:
  assumes "updated_conversation expected f now c = Inr d"
  shows "conv_le c d" and "cv_id d = cv_id c" and "1 \<le> cv_rev d" and "cf_runtime f = None \<Longrightarrow> same_server_fields (cv_context d) (cv_context c)"
    and "expected = Some e \<Longrightarrow> cv_rev c = e"
proof -
  obtain ch q where q: "apply_edits (edits f) c = (ch, q)" by (cases "apply_edits (edits f) c")
  have d: "d = (if ch then next_revision now q else q)" and rev: "1 \<le> cv_rev c" "expected = Some e \<Longrightarrow> cv_rev c = e" for e
    using assms q by (auto simp: updated_conversation_def check_revision_def require_revision_def bind_result_Inr_iff split: option.splits if_splits)
  have keep: "same_row c q" "\<not> ch \<Longrightarrow> q = c" "cf_runtime f = None \<Longrightarrow> same_server_fields (cv_context q) (cv_context c)"
    using apply_edits_keep [of "edits f" f c] q by auto
  show "conv_le c d" "cv_id d = cv_id c" "1 \<le> cv_rev d"
    using keep(1,2) rev(1) by (cases ch; simp add: d conv_le_def same_content_def next_revision_def same_row_def)+
  show "same_server_fields (cv_context d) (cv_context c)" if "cf_runtime f = None"
    using keep(3) that by (simp add: d next_revision_def)
  show "cv_rev c = e" if "expected = Some e" using rev(2) that .
qed

lemma runtime_patched_le:
  assumes "runtime_patched e p now c = Inr d"
  shows "conv_le c d" and "cv_id d = cv_id c" and "1 \<le> cv_rev d" and "cv_rev c = e"
  using assms
  by (auto simp: runtime_patched_def check_revision_def require_revision_def bind_result_Inr_iff Let_def conv_le_def same_content_def
      next_revision_def split: if_splits)

lemma draft_patched_le:
  assumes "draft_patched E p now c = Inr d" and "1 \<le> cv_rev c"
  shows "conv_le c d" and "cv_id d = cv_id c" and "1 \<le> cv_rev d"
  using assms
  by (auto simp: draft_patched_def require_revision_def bind_result_Inr_iff conv_le_def same_content_def
      next_revision_def split: if_splits prod.splits)

section \<open>The contract\<close>

fun creates :: "string \<Rightarrow> conv_cmd \<Rightarrow> bool" where
  "creates cid (Create_Conversation c) = (cv_id c = cid)"
| "creates cid c = False"

text \<open>What the routes of a client run: an update without a runtime patch, and messages.\<close>

fun client_cmd :: "conv_cmd \<Rightarrow> bool" where
  "client_cmd (Update_Conversation cid user expected f now) = (cf_runtime f = None)"
| "client_cmd (Append_Message m given now) = True"
| "client_cmd (Update_Message cid mid user content payload now) = True"
| "client_cmd c = False"

lemma client_creates_none: "client_cmd cmd \<Longrightarrow> \<not> creates cid cmd"
  by (cases cmd) auto

locale conversation_store = machine exec okay
  for exec :: "'s \<Rightarrow> 'c \<Rightarrow> ('e + unit) \<times> 's" and okay :: "'s \<Rightarrow> bool" +
  fixes row :: "'s \<Rightarrow> string \<Rightarrow> conversation option"
    and makes :: "string \<Rightarrow> 'c \<Rightarrow> bool" and client :: "'c \<Rightarrow> bool"
  assumes exec_row: "okay s \<Longrightarrow> row s cid = Some c \<Longrightarrow> \<not> makes cid cmd \<Longrightarrow> \<exists>d. row (snd (exec s cmd)) cid = Some d \<and> conv_le c d"
    and exec_client: "okay s \<Longrightarrow> row s cid = Some c \<Longrightarrow> client cmd \<Longrightarrow> row (snd (exec s cmd)) cid = Some d \<Longrightarrow>
      same_server_fields (cv_context d) (cv_context c)"
    and client_makes_none: "client cmd \<Longrightarrow> \<not> makes cid cmd"
begin

lemma session_row:
  "okay s \<Longrightarrow> row s cid = Some c \<Longrightarrow> \<not> list_ex (makes cid) cs \<Longrightarrow> \<exists>d. row (run_all exec s cs) cid = Some d \<and> conv_le c d"
proof (induction cs arbitrary: s c)
  case (Cons cmd cs)
  obtain b where b: "row (snd (exec s cmd)) cid = Some b" "conv_le c b" using exec_row Cons.prems by fastforce
  obtain d where "row (run_all exec (snd (exec s cmd)) cs) cid = Some d" "conv_le b d"
    using Cons.IH [OF exec_inv [OF Cons.prems(1)] b(1)] Cons.prems(3) by auto
  then show ?case using conv_le_trans [OF b(2)] by auto
qed simp

lemma session_client:
  "okay s \<Longrightarrow> row s cid = Some c \<Longrightarrow> list_all client cs \<Longrightarrow>
   \<exists>d. row (run_all exec s cs) cid = Some d \<and> same_server_fields (cv_context d) (cv_context c)"
proof (induction cs arbitrary: s c)
  case (Cons cmd cs)
  have "\<not> makes cid cmd" using Cons.prems(3) client_makes_none by simp
  then obtain b where b: "row (snd (exec s cmd)) cid = Some b" using exec_row Cons.prems(1,2) by blast
  have "same_server_fields (cv_context b) (cv_context c)" using exec_client [OF Cons.prems(1,2) _ b] Cons.prems(3) by simp
  moreover obtain d where "row (run_all exec (snd (exec s cmd)) cs) cid = Some d" "same_server_fields (cv_context d) (cv_context b)"
    using Cons.IH [OF exec_inv [OF Cons.prems(1)] b] Cons.prems(3) by auto
  ultimately show ?case using same_server_trans by auto
qed simp

end

section \<open>Both stores keep it\<close>

definition table_ok :: "(string, conversation) dict \<Rightarrow> bool" where
  "table_ok d = (distinct (map fst d) \<and> (\<forall>k c. map_of d k = Some c \<longrightarrow> cv_id c = k \<and> 1 \<le> cv_rev c))"

definition mem_tasks_ok :: "mem_tasks \<Rightarrow> bool" where
  "mem_tasks_ok s = table_ok (mt_convs s)"

definition sql_tasks_ok :: "sql_tasks \<Rightarrow> bool" where
  "sql_tasks_ok s = table_ok (st_convs s)"

text \<open>What a command does to the table of conversations: nothing, a new row, or one row of it.\<close>

definition table_step :: "conv_cmd \<Rightarrow> (string, conversation) dict \<Rightarrow> (string, conversation) dict \<Rightarrow> bool" where
  "table_step cmd d e =
     (e = d \<or>
      (\<exists>c. cmd = Create_Conversation c \<and> 1 \<le> cv_rev c \<and> e = AList.update (cv_id c) (c\<lparr>cv_context := conversation_context (cv_context c)\<rparr>) d) \<or>
      (\<exists>cid c c'. map_of d cid = Some c \<and> e = AList.update cid c' d \<and> (1 \<le> cv_rev c \<longrightarrow> conv_le c c' \<and> 1 \<le> cv_rev c' \<and>
         (client_cmd cmd \<longrightarrow> same_server_fields (cv_context c') (cv_context c)))))"

lemma table_step_same [simp]: "table_step cmd d d"
  by (simp add: table_step_def)

lemma conv_le_id: "conv_le c d \<Longrightarrow> cv_id d = cv_id c"
  by (simp add: conv_le_def)

lemma table_step_ok: "table_step cmd d e \<Longrightarrow> table_ok d \<Longrightarrow> table_ok e"
  by (auto simp: table_step_def table_ok_def conv_le_id split: if_splits simp del: map_of_eq_Some_iff)

lemma table_step_row:
  "table_step cmd d e \<Longrightarrow> table_ok d \<Longrightarrow> map_of d cid = Some c \<Longrightarrow> \<not> creates cid cmd \<Longrightarrow> \<exists>c'. map_of e cid = Some c' \<and> conv_le c c'"
  by (auto simp: table_step_def table_ok_def simp del: map_of_eq_Some_iff)

lemma table_step_client:
  "table_step cmd d e \<Longrightarrow> table_ok d \<Longrightarrow> map_of d cid = Some c \<Longrightarrow> client_cmd cmd \<Longrightarrow> map_of e cid = Some c' \<Longrightarrow>
   same_server_fields (cv_context c') (cv_context c)"
  by (auto simp: table_step_def table_ok_def split: if_splits simp del: map_of_eq_Some_iff)

lemma table_step_change:
  assumes "map_of d cid = Some c"
    and "1 \<le> cv_rev c \<Longrightarrow> conv_le c c' \<and> 1 \<le> cv_rev c' \<and> (client_cmd cmd \<longrightarrow> same_server_fields (cv_context c') (cv_context c))"
  shows "table_step cmd d (AList.update cid c' d)"
  using assms unfolding table_step_def by blast

lemma change_step:
  assumes "map_of d cid = Some c"
    and "cmd = Update_Conversation cid user expected f now \<and> updated_conversation expected f now c = Inr c' \<or>
      cmd = Patch_Runtime cid user e p now \<and> runtime_patched e p now c = Inr c' \<or>
      cmd = Patch_Draft cid user q now \<and> draft_patched E q now c = Inr c'"
  shows "table_step cmd d (AList.update cid c' d)"
proof (rule table_step_change [OF assms(1)])
  show "conv_le c c' \<and> 1 \<le> cv_rev c' \<and> (client_cmd cmd \<longrightarrow> same_server_fields (cv_context c') (cv_context c))" if "1 \<le> cv_rev c"
    using assms(2) that updated_le [of expected f now c c'] runtime_patched_le [of e p now c c'] draft_patched_le [of E q now c c'] by auto
qed

lemma touch_step:
  assumes "map_of d cid = Some c"
  shows "table_step cmd d (AList.update cid (c\<lparr>cv_updated := now\<rparr>) d)"
  by (rule table_step_change [OF assms]) (simp add: conv_le_touch)

lemma mem_touch_step: "table_step cmd (mt_convs s) (mt_convs (mem_touch cid now s))"
  using touch_step [of "mt_convs s" cid] by (simp add: mem_touch_def split: option.split)

lemma sql_touch_step: "table_step cmd (st_convs s) (st_convs (sql_touch cid now s))"
  using touch_step [of "st_convs s" cid] by (simp add: sql_touch_def split: option.split)

lemma mem_change_step:
  assumes "\<And>c c'. map_of (mt_convs s) cid = Some c \<Longrightarrow> f c = Inr c' \<Longrightarrow> table_step cmd (mt_convs s) (AList.update cid c' (mt_convs s))"
  shows "table_step cmd (mt_convs s) (mt_convs (snd (mem_change cid user f s)))"
  using assms by (auto simp: mem_change_def mem_get_conversation_def split: option.splits sum.splits if_splits)

lemma sql_change_step:
  assumes "\<And>c c'. map_of (st_convs s) cid = Some c \<Longrightarrow> f c = Inr c' \<Longrightarrow> table_step cmd (st_convs s) (AList.update cid c' (st_convs s))"
  shows "table_step cmd (st_convs s) (st_convs (snd (sql_change cid user f s)))"
  using assms by (auto simp: sql_change_def sql_row_def bind_result_Inr_iff split: option.splits sum.splits if_splits prod.splits)

lemma mem_exec_step: "table_step cmd (mt_convs s) (mt_convs (snd (mem_conv_exec E s cmd)))"
proof (cases cmd)
  case (Create_Conversation c)
  then show ?thesis
    by (auto simp: mem_create_conversation_def require_revision_def table_step_def Let_def)
next
  case (Update_Conversation cid user expected f now)
  then show ?thesis using change_step by (auto simp: mem_update_conversation_def intro!: mem_change_step)
next
  case (Patch_Runtime cid user e p now)
  then show ?thesis using change_step by (auto simp: mem_patch_runtime_def intro!: mem_change_step)
next
  case (Patch_Draft cid user p now)
  then show ?thesis using change_step by (auto simp: mem_patch_draft_def intro!: mem_change_step)
next
  case (Append_Message m given now)
  have "mt_convs (mem_add_message r s) = mt_convs s" for r by (simp add: mem_add_message_def)
  then show ?thesis using mem_touch_step [of cmd "mem_add_message r s" for r] Append_Message
    by (auto simp: mem_append_message_def Let_def split: option.split)
next
  case (Update_Message cid mid user content payload now)
  have "table_step cmd (mt_convs s) (mt_convs (mem_touch cid now (s\<lparr>mt_messages := M\<rparr>)))" for M
    using mem_touch_step [of cmd "s\<lparr>mt_messages := M\<rparr>" cid now] by simp
  then show ?thesis using Update_Message by (auto simp: mem_update_message_def split: option.split)
qed

lemma sql_exec_step: "table_step cmd (st_convs s) (st_convs (snd (sql_conv_exec E s cmd)))"
proof (cases cmd)
  case (Create_Conversation c)
  then show ?thesis
    by (auto simp: sql_create_conversation_def require_revision_def table_step_def Let_def)
next
  case (Update_Conversation cid user expected f now)
  then show ?thesis using change_step by (auto simp: sql_update_conversation_def intro!: sql_change_step)
next
  case (Patch_Runtime cid user e p now)
  then show ?thesis using change_step by (auto simp: sql_patch_runtime_def intro!: sql_change_step)
next
  case (Patch_Draft cid user p now)
  then show ?thesis using change_step by (auto simp: sql_patch_draft_def intro!: sql_change_step)
next
  case (Append_Message m given now)
  have "table_step cmd (st_convs s) (st_convs (sql_touch cid now (s\<lparr>st_messages := M\<rparr>)))" for M cid
    using sql_touch_step [of cmd "s\<lparr>st_messages := M\<rparr>" cid now] by simp
  then show ?thesis using Append_Message by (auto simp: sql_append_message_def Let_def split: option.split)
next
  case (Update_Message cid mid user content payload now)
  have "table_step cmd (st_convs s) (st_convs (sql_touch cid now (s\<lparr>st_messages := M\<rparr>)))" for M
    using sql_touch_step [of cmd "s\<lparr>st_messages := M\<rparr>" cid now] by simp
  then show ?thesis using Update_Message by (auto simp: sql_update_message_def split: option.split)
qed

interpretation mem_convs: conversation_store "mem_conv_exec E" mem_tasks_ok "\<lambda>s. map_of (mt_convs s)" creates client_cmd for E
proof (unfold_locales; (rule client_creates_none; assumption)?)
  fix s cmd cid c d
  assume ok: "mem_tasks_ok s"
  note step = mem_exec_step [of cmd s E]
  show "mem_tasks_ok (snd (mem_conv_exec E s cmd))" using table_step_ok [OF step] ok by (simp add: mem_tasks_ok_def)
  show "\<exists>d. map_of (mt_convs (snd (mem_conv_exec E s cmd))) cid = Some d \<and> conv_le c d"
    if "map_of (mt_convs s) cid = Some c" "\<not> creates cid cmd"
    using table_step_row [OF step _ that] ok by (simp add: mem_tasks_ok_def)
  show "same_server_fields (cv_context d) (cv_context c)"
    if "map_of (mt_convs s) cid = Some c" "client_cmd cmd" "map_of (mt_convs (snd (mem_conv_exec E s cmd))) cid = Some d"
    using table_step_client [OF step _ that] ok by (simp add: mem_tasks_ok_def)
qed

interpretation sql_convs: conversation_store "sql_conv_exec E" sql_tasks_ok "\<lambda>s. map_of (st_convs s)" creates client_cmd for E
proof (unfold_locales; (rule client_creates_none; assumption)?)
  fix s cmd cid c d
  assume ok: "sql_tasks_ok s"
  note step = sql_exec_step [of cmd s E]
  show "sql_tasks_ok (snd (sql_conv_exec E s cmd))" using table_step_ok [OF step] ok by (simp add: sql_tasks_ok_def)
  show "\<exists>d. map_of (st_convs (snd (sql_conv_exec E s cmd))) cid = Some d \<and> conv_le c d"
    if "map_of (st_convs s) cid = Some c" "\<not> creates cid cmd"
    using table_step_row [OF step _ that] ok by (simp add: sql_tasks_ok_def)
  show "same_server_fields (cv_context d) (cv_context c)"
    if "map_of (st_convs s) cid = Some c" "client_cmd cmd" "map_of (st_convs (snd (sql_conv_exec E s cmd))) cid = Some d"
    using table_step_client [OF step _ that] ok by (simp add: sql_tasks_ok_def)
qed

end
