(* ===== verification/Conversation_Claims.thy ===== *)
theory Conversation_Claims
  imports Conversation_Laws
begin

text \<open>
  Properties of the conversations of the task store, for the store in memory and the one in SQL alike.
\<close>

section \<open>Both stores\<close>

datatype task_repo = Mem_Tasks mem_tasks | Sql_Tasks sql_tasks

fun conv_exec :: "draft_env \<Rightarrow> task_repo \<Rightarrow> conv_cmd \<Rightarrow> (task_error + unit) \<times> task_repo" where
  "conv_exec E (Mem_Tasks s) c = map_prod id Mem_Tasks (mem_conv_exec E s c)"
| "conv_exec E (Sql_Tasks s) c = map_prod id Sql_Tasks (sql_conv_exec E s c)"

fun conv_row :: "task_repo \<Rightarrow> string \<Rightarrow> conversation option" where
  "conv_row (Mem_Tasks s) = map_of (mt_convs s)"
| "conv_row (Sql_Tasks s) = map_of (st_convs s)"

fun conv_update ::
  "string \<Rightarrow> string option \<Rightarrow> nat option \<Rightarrow> conv_fields \<Rightarrow> time \<Rightarrow> task_repo \<Rightarrow> (task_error + conversation option) \<times> task_repo" where
  "conv_update cid user e f now (Mem_Tasks s) = map_prod id Mem_Tasks (mem_update_conversation cid user e f now s)"
| "conv_update cid user e f now (Sql_Tasks s) = map_prod id Sql_Tasks (sql_update_conversation cid user e f now s)"

fun conv_list ::
  "clock_text \<Rightarrow> string option \<Rightarrow> nat \<Rightarrow> task_repo \<Rightarrow> string option \<Rightarrow> task_error + conversation list \<times> string option" where
  "conv_list T user limit (Mem_Tasks s) cursor = Inr (mem_list_conversations T user limit cursor s)"
| "conv_list T user limit (Sql_Tasks s) cursor = sql_list_conversations T user limit cursor s"

fun task_repo_ok :: "task_repo \<Rightarrow> bool" where
  "task_repo_ok (Mem_Tasks s) = mem_tasks_ok s"
| "task_repo_ok (Sql_Tasks s) = sql_tasks_ok s"

definition empty_tasks :: "task_repo \<Rightarrow> bool" where
  "empty_tasks r = (r = Mem_Tasks new_mem_tasks \<or> r = Sql_Tasks new_sql_tasks)"

interpretation convs: conversation_store "conv_exec E" task_repo_ok conv_row creates client_cmd for E
proof (unfold_locales; (rule client_creates_none; assumption)?)
  fix s cmd cid c d
  assume ok: "task_repo_ok s"
  show "task_repo_ok (snd (conv_exec E s cmd))" using ok by (cases s) (auto intro: mem_convs.exec_inv sql_convs.exec_inv)
  show "\<exists>d. conv_row (snd (conv_exec E s cmd)) cid = Some d \<and> conv_le c d" if "conv_row s cid = Some c" "\<not> creates cid cmd"
    using ok that mem_convs.exec_row sql_convs.exec_row by (cases s) auto
  show "same_server_fields (cv_context d) (cv_context c)"
    if "conv_row s cid = Some c" "client_cmd cmd" "conv_row (snd (conv_exec E s cmd)) cid = Some d"
    using ok that mem_convs.exec_client sql_convs.exec_client by (cases s) auto
qed

lemma empty_tasks_ok: "empty_tasks r \<Longrightarrow> task_repo_ok r"
  by (auto simp: empty_tasks_def new_mem_tasks_def new_sql_tasks_def mem_tasks_ok_def sql_tasks_ok_def table_ok_def)

lemma reached_tasks: "empty_tasks r \<Longrightarrow> task_repo_ok (run_all (conv_exec E) r cs)"
  by (rule convs.session_inv [OF empty_tasks_ok])

section \<open>A conversation to try them on\<close>

definition demo_env :: draft_env where
  "demo_env = \<lparr>de_https = (\<lambda>s. s \<noteq> []), de_time = (\<lambda>s. None)\<rparr>"

definition demo_conversation :: "string \<Rightarrow> time \<Rightarrow> conversation" where
  "demo_conversation i t =
     \<lparr>cv_id = i, cv_user = Some ''u1'', cv_mode = ''video_agent_v2'', cv_version = 1, cv_title = [], cv_task = None, cv_phase = ''idle'',
      cv_context = [(runtime_key, JObj [(''mode'', JStr ''primary''), (''context_version'', JInt 0)])],
      cv_rev = 1, cv_created = t, cv_updated = t\<rparr>"

definition retitle :: "string \<Rightarrow> conv_fields" where
  "retitle t = no_fields\<lparr>cf_title := Some t, cf_context := Some [(runtime_key, JNull), (''note'', JStr t)]\<rparr>"

definition demo_create :: "conv_cmd list" where
  "demo_create = [Create_Conversation (demo_conversation ''c1'' 1), Create_Conversation (demo_conversation ''c2'' 2),
     Create_Conversation (demo_conversation ''c3'' 2)]"

definition demo_update :: "conv_cmd list" where
  "demo_update = [Update_Conversation ''c1'' (Some ''u1'') (Some 1) (retitle ''first'') 5]"

abbreviation (input) demo_tasks :: "conv_cmd list \<Rightarrow> task_repo" where
  "demo_tasks cs \<equiv> run_all (conv_exec demo_env) (Sql_Tasks new_sql_tasks) cs"

lemma demo_empty: "empty_tasks (Sql_Tasks new_sql_tasks)"
  by (simp add: empty_tasks_def)

lemma demo_row: "conv_row (demo_tasks demo_create) ''c1'' = Some (demo_conversation ''c1'' 1)"
  by code_simp

section \<open>Revisions\<close>

lemma change_needs_revision:
  assumes "conv_update cid user (Some e) f now s = (Inr (Some x), t)" and "conv_row s cid = Some d"
  shows "cv_rev d = e \<and> (\<exists>d'. updated_conversation (Some e) f now d = Inr d' \<and> conv_row t cid = Some d')"
  using assms updated_le(5) [of "Some e" f now d _ e]
  by (cases s) (auto simp: mem_update_conversation_def sql_update_conversation_def mem_change_def sql_change_def mem_get_conversation_def
      sql_row_def bind_result_Inr_iff split: option.splits sum.splits if_splits)

lemma refused_update:
  assumes "conv_update cid user e f now s = (res, t)" and "\<forall>x. res \<noteq> Inr (Some x)"
  shows "t = s"
  using assms
  by (cases s) (auto simp: mem_update_conversation_def sql_update_conversation_def mem_change_def sql_change_def
      split: option.splits sum.splits)

text \<open>
  C30. In either store, along any session that does not create the conversation again, its revision never falls
  and tells every change of its content; so an update that names the revision a client has read, at any later
  time, is applied to exactly the content that the client has read, or to nothing.
\<close>
theorem stale_update_is_refused:
  assumes "empty_tasks r" and "conv_row (run_all (conv_exec E) r cs) cid = Some c" and "\<not> list_ex (creates cid) ds"
    and "conv_update cid user (Some (cv_rev c)) f now (run_all (conv_exec E) r (cs @ ds)) = (res, t)"
  shows "\<exists>d. conv_row (run_all (conv_exec E) r (cs @ ds)) cid = Some d \<and> cv_rev c \<le> cv_rev d \<and>
    (cv_rev c = cv_rev d \<longrightarrow> same_content c d) \<and>
    (case res of
       Inr (Some x) \<Rightarrow> same_content c d \<and> (\<exists>d'. updated_conversation (Some (cv_rev c)) f now d = Inr d' \<and> conv_row t cid = Some d')
     | _ \<Rightarrow> conv_row t cid = Some d)"
proof -
  let ?s = "run_all (conv_exec E) r (cs @ ds)"
  obtain d where d: "conv_row ?s cid = Some d" "conv_le c d"
    using convs.session_row [OF reached_tasks [OF assms(1)] assms(2,3)] by (auto simp: run_all_append)
  have applied: "same_content c d \<and> (\<exists>d'. updated_conversation (Some (cv_rev c)) f now d = Inr d' \<and> conv_row t cid = Some d')"
    if "res = Inr (Some x)" for x
    using change_needs_revision [OF assms(4) [unfolded that] d(1)] d(2) by (auto simp: conv_le_def)
  have refused: "conv_row t cid = Some d" if "\<forall>x. res \<noteq> Inr (Some x)"
    using refused_update [OF assms(4) that] d(1) by simp
  show ?thesis
  proof (intro exI [of _ d] conjI)
    show "case res of Inr (Some x) \<Rightarrow> same_content c d \<and> (\<exists>d'. updated_conversation (Some (cv_rev c)) f now d = Inr d' \<and> conv_row t cid = Some d')
       | _ \<Rightarrow> conv_row t cid = Some d"
      using applied refused by (cases res) (auto split: option.split)
  qed (use d in \<open>auto simp: conv_le_def\<close>)
qed

theorem stale_update_is_refused_witness:
  "fst (conv_update ''c1'' (Some ''u1'') (Some 1) (retitle ''second'') 6 (demo_tasks (demo_create @ demo_update))) = Inl (Revision_Conflict 1 2) \<and>
   (\<exists>d. conv_row (demo_tasks (demo_create @ demo_update)) ''c1'' = Some d \<and> 1 \<le> cv_rev d)"
proof -
  let ?u = "conv_update ''c1'' (Some ''u1'') (Some (cv_rev (demo_conversation ''c1'' 1))) (retitle ''second'') 6 (demo_tasks (demo_create @ demo_update))"
  have "\<not> list_ex (creates ''c1'') demo_update" by code_simp
  from stale_update_is_refused [OF demo_empty demo_row this, of "Some ''u1''" "retitle ''second''" 6 "fst ?u" "snd ?u"]
  have "\<exists>d. conv_row (demo_tasks (demo_create @ demo_update)) ''c1'' = Some d \<and> 1 \<le> cv_rev d"
    by (auto simp: demo_conversation_def)
  moreover have "fst (conv_update ''c1'' (Some ''u1'') (Some 1) (retitle ''second'') 6 (demo_tasks (demo_create @ demo_update))) =
      Inl (Revision_Conflict 1 2)" by code_simp
  ultimately show ?thesis by blast
qed

text \<open>
  C31. Whatever updates the routes of a client run, in either store, the runtime's namespace and the fields of
  the draft jobs in the context of a conversation stay as the server wrote them.
\<close>
theorem client_cannot_write_server_fields:
  assumes "empty_tasks r" and "conv_row (run_all (conv_exec E) r cs) cid = Some c" and "list_all client_cmd ds"
  shows "\<exists>d. conv_row (run_all (conv_exec E) r (cs @ ds)) cid = Some d \<and>
    (\<forall>k \<in> set (runtime_key # draft_keys). map_of (cv_context d) k = map_of (cv_context c) k)"
  using convs.session_client [OF reached_tasks [OF assms(1)] assms(2,3)]
  unfolding run_all_append same_server_fields_def server_keys_def by blast

theorem client_cannot_write_server_fields_witness:
  "\<exists>d. conv_row (demo_tasks (demo_create @ demo_update)) ''c1'' = Some d \<and>
    map_of (cv_context d) runtime_key = Some (JObj [(''mode'', JStr ''primary''), (''context_version'', JInt 0)])"
proof -
  have "list_all client_cmd demo_update" by code_simp
  from client_cannot_write_server_fields [OF demo_empty demo_row this]
  show ?thesis by (auto simp: demo_conversation_def)
qed

section \<open>Draft jobs\<close>

definition draft_rank :: "string option \<Rightarrow> nat" where
  "draft_rank st =
     (if st = Some ''succeeded'' then 4 else if terminal_draft st then 3 else active_rank st)"

text \<open>What a patch of \<open>job\<close> can make of a record.\<close>

definition draft_next :: "draft_env \<Rightarrow> time \<Rightarrow> string \<Rightarrow> string option \<Rightarrow> json \<Rightarrow> json \<Rightarrow> bool" where
  "draft_next E now job pending r r' =
     (r' = r \<or>
      draft_job_id r' = Some job \<and> \<not> draft_succeeded E now r \<and> (draft_job_id r = Some job \<or> pending = Some job) \<and>
      (draft_job_id r = Some job \<longrightarrow> draft_rank (draft_status r) \<le> draft_rank (draft_status r')))"

lemma draft_ranks:
  "\<not> terminal_draft st \<Longrightarrow> draft_rank st = active_rank st" "active_rank st \<le> 2" "terminal_draft st \<Longrightarrow> 3 \<le> draft_rank st"
  "draft_rank st \<le> 4" "st = Some ''succeeded'' \<Longrightarrow> terminal_draft st"
  by (auto simp: draft_rank_def active_rank_def terminal_draft_def terminal_drafts_def)

lemma merged_record:
  assumes "is_obj r"
  shows "\<exists>r'. fst (merge_draft_record E now job pending (Some r) v) = Some r' \<and> is_obj r' \<and> draft_next E now job pending r r'"
proof -
  obtain d where r: "r = JObj d" using assms by (cases r) auto
  consider (keep) "fst (merge_draft_record E now job pending (Some r) v) = Some r"
    | (replace) "fst (merge_draft_record E now job pending (Some r) v) = Some v" "is_obj v" "draft_job_id v = Some job"
        "\<not> draft_succeeded E now r" "draft_job_id r = Some job \<or> pending = Some job"
        "draft_job_id r = Some job \<Longrightarrow> draft_status v = Some ''succeeded'' \<or> \<not> terminal_draft (draft_status r) \<and>
          (terminal_draft (draft_status v) \<or> active_rank (draft_status r) \<le> active_rank (draft_status v))"
    unfolding merge_draft_record_def r Let_def json.case option.case by (atomize_elim) (simp split: if_split)
  then show ?thesis
  proof cases
    case keep
    then show ?thesis using assms by (auto simp: draft_next_def)
  next
    case replace
    have "draft_rank (draft_status r) \<le> draft_rank (draft_status v)" if "draft_job_id r = Some job"
    proof (cases "draft_status v = Some ''succeeded''")
      case True
      then show ?thesis using draft_ranks(4) [of "draft_status r"] by (simp add: draft_rank_def)
    next
      case False
      then have cur: "\<not> terminal_draft (draft_status r)" using replace(6) [OF that] by simp
      show ?thesis
      proof (cases "terminal_draft (draft_status v)")
        case True
        then show ?thesis using draft_ranks(1) [OF cur] draft_ranks(2) [of "draft_status r"] draft_ranks(3) [OF True] by simp
      next
        case new: False
        then show ?thesis using replace(6) [OF that] False draft_ranks(1) [OF cur] draft_ranks(1) [OF new] by simp
      qed
    qed
    then show ?thesis using replace by (auto simp: draft_next_def)
  qed
qed

lemma merge_other: "k \<notin> set (map fst recs) \<Longrightarrow> map_of (fst (fold (merge_draft_step E now job pending) recs acc)) k = map_of (fst acc) k"
proof (induction recs arbitrary: acc)
  case (Cons p recs)
  then show ?case by (auto simp: merge_draft_step_def split: prod.split option.split)
qed simp

lemma merged_records:
  assumes "distinct (map fst recs)" and "map_of (fst acc) k = Some r" and "is_obj r"
  shows "\<exists>r'. map_of (fst (fold (merge_draft_step E now job pending) recs acc)) k = Some r' \<and> draft_next E now job pending r r'"
  using assms
proof (induction recs arbitrary: acc)
  case Nil
  then show ?case by (auto simp: draft_next_def)
next
  case (Cons p recs)
  let ?acc = "merge_draft_step E now job pending p acc"
  show ?case
  proof (cases "fst p = k")
    case False
    then have "map_of (fst ?acc) k = Some r" using Cons.prems(2) by (auto simp: merge_draft_step_def split: prod.split option.split)
    then show ?thesis using Cons.IH [OF _ _ Cons.prems(3)] Cons.prems(1) by simp
  next
    case True
    obtain r' where r': "fst (merge_draft_record E now job pending (Some r) (snd p)) = Some r'" "draft_next E now job pending r r'"
      using merged_record [OF Cons.prems(3)] by blast
    have "map_of (fst ?acc) k = Some r'" using True r'(1) Cons.prems(2) by (simp add: merge_draft_step_def case_prod_beta)
    moreover have "k \<notin> set (map fst recs)" using Cons.prems(1) True by auto
    ultimately show ?thesis using merge_other [of k recs] r'(2) by simp
  qed
qed

lemma context_reads [simp]:
  "current_pending (conversation_context c) = current_pending c" "draft_records (conversation_context c) = draft_records c"
proof -
  have keys: "map_of (conversation_context c) ''pendingJianyingDraftJob'' = map_of c ''pendingJianyingDraftJob''"
      "map_of (conversation_context c) ''pending_jianying_draft_job'' = map_of c ''pending_jianying_draft_job''"
      "map_of (conversation_context c) ''jianyingDraftRecords'' = map_of c ''jianyingDraftRecords''"
      "map_of (conversation_context c) ''jianying_draft_records'' = map_of c ''jianying_draft_records''"
    by (simp_all add: conversation_context_lookup)
  show "current_pending (conversation_context c) = current_pending c" unfolding current_pending_def keys ..
  show "draft_records (conversation_context c) = draft_records c" unfolding draft_records_def keys ..
qed

text \<open>
  C32. However the patches of draft jobs arrive, a patch of a job keeps every record of a draft or replaces it by
  a record of this job, and then the old record was no success that still counts and belonged to this job, whose
  status does not go back, or the job was the pending one; a pending job of another identity stays pending.
\<close>
theorem draft_jobs_move_forward:
  assumes "distinct (map fst recs)" and "patch_draft_context E now c phase requested job pending_job recs error = (w, phase')"
  shows "\<exists>m. map_of w ''jianyingDraftRecords'' = Some (JObj m) \<and> map_of w ''jianying_draft_records'' = Some (JObj m) \<and>
      (\<forall>k r. map_of (draft_records c) k = Some r \<and> is_obj r \<longrightarrow>
         (\<exists>r'. map_of m k = Some r' \<and> draft_next E now job (draft_job_id (current_pending c)) r r')) \<and>
      (\<forall>p. draft_job_id (current_pending c) = Some p \<and> p \<noteq> job \<longrightarrow> current_pending w = current_pending c)"
proof -
  let ?pending = "current_pending c"
  obtain m auth where m: "merge_draft_records E now job (draft_job_id ?pending) (draft_records c) recs = (m, auth)" by (cases "merge_draft_records E now job (draft_job_id ?pending) (draft_records c) recs")
  define next_pending where "next_pending = (case pending_job of
               None \<Rightarrow> if draft_job_id ?pending = Some job then (JNull, True) else (?pending, auth)
             | Some p \<Rightarrow> if may_set_pending E now job (draft_job_id ?pending) m p then (p, True) else (?pending, auth))"
  define patched where "patched = merge_dicts (conversation_context c)
            [(''pendingJianyingDraftJob'', fst next_pending), (''pending_jianying_draft_job'', fst next_pending),
             (''jianyingDraftRecords'', JObj m), (''jianying_draft_records'', JObj m)]"
  have w: "w = (case error of Some er \<Rightarrow> if snd next_pending then AList.update ''jianying_draft_job_resume_error'' er patched else patched | None \<Rightarrow> patched)"
    using assms(2) unfolding patch_draft_context_def Let_def context_reads m case_prod_beta fst_conv snd_conv
      next_pending_def [symmetric] patched_def [symmetric] by simp
  have keys: "map_of w ''jianyingDraftRecords'' = Some (JObj m)" "map_of w ''jianying_draft_records'' = Some (JObj m)"
      "map_of w ''pendingJianyingDraftJob'' = Some (fst next_pending)"
    unfolding w patched_def by (auto simp: merge_dicts_lookup split: option.split)
  have "\<exists>r'. map_of m k = Some r' \<and> draft_next E now job (draft_job_id ?pending) r r'"
    if "map_of (draft_records c) k = Some r" "is_obj r" for k r
    using merged_records [OF assms(1), of "(draft_records c, False)" k r E now job "draft_job_id ?pending"] that m
    by (simp add: merge_draft_records_def)
  moreover have "current_pending w = ?pending" if "draft_job_id ?pending = Some p" "p \<noteq> job" for p
  proof -
    have "fst next_pending = ?pending"
      using that by (simp add: next_pending_def may_set_pending_def split: option.split)
    moreover have "\<exists>d. ?pending = JObj d" using that(1) by (auto simp: current_pending_def draft_job_id_def nonempty_str_def split: option.splits json.splits)
    ultimately show ?thesis using keys(3) by (auto simp: current_pending_def)
  qed
  ultimately show ?thesis using keys(1,2) by blast
qed

definition demo_draft :: "string \<Rightarrow> string \<Rightarrow> json" where
  "demo_draft job status = JObj [(''job_id'', JStr job), (''status'', JStr status), (''download_url'', JStr ''https://cdn/x'')]"

text \<open>A late progress report of a job that has already failed.\<close>

theorem draft_jobs_move_forward_witness:
  "\<exists>m r. map_of (fst (patch_draft_context demo_env 9 [(''jianyingDraftRecords'', JObj [(''v1'', demo_draft ''j1'' ''failed'')])]
        ''idle'' ''jianying_draft_running'' ''j1'' None [(''v1'', demo_draft ''j1'' ''running'')] None)) ''jianyingDraftRecords'' = Some (JObj m) \<and>
      map_of m ''v1'' = Some r \<and> draft_next demo_env 9 ''j1'' None (demo_draft ''j1'' ''failed'') r"
proof -
  let ?c = "[(''jianyingDraftRecords'', JObj [(''v1'', demo_draft ''j1'' ''failed'')])]"
  let ?p = "patch_draft_context demo_env 9 ?c ''idle'' ''jianying_draft_running'' ''j1'' None [(''v1'', demo_draft ''j1'' ''running'')] None"
  have "distinct (map fst [(''v1'', demo_draft ''j1'' ''running'')])" by simp
  from draft_jobs_move_forward [OF this, of demo_env 9 ?c "''idle''" "''jianying_draft_running''" "''j1''" None None "fst ?p" "snd ?p"]
  obtain m where m: "map_of (fst ?p) ''jianyingDraftRecords'' = Some (JObj m)"
      "\<forall>k r. map_of (draft_records ?c) k = Some r \<and> is_obj r \<longrightarrow>
         (\<exists>r'. map_of m k = Some r' \<and> draft_next demo_env 9 ''j1'' (draft_job_id (current_pending ?c)) r r')"
    by auto
  have "map_of (draft_records ?c) ''v1'' = Some (demo_draft ''j1'' ''failed'')" "is_obj (demo_draft ''j1'' ''failed'')"
      "draft_job_id (current_pending ?c) = None"
    by code_simp+
  then show ?thesis using m by metis
qed

section \<open>Pages\<close>

text \<open>A client that follows the cursors of the pages, for at most \<open>n\<close> pages.\<close>

fun follow_pages :: "nat \<Rightarrow> (('k option) \<Rightarrow> 'e + 'a list \<times> 'k option) \<Rightarrow> 'k option \<Rightarrow> 'e + 'a list" where
  "follow_pages 0 f k = Inr []"
| "follow_pages (Suc n) f k =
     bind_result (f k) (\<lambda>(page, next).
       case next of None \<Rightarrow> Inr page | Some q \<Rightarrow> bind_result (follow_pages n f (Some q)) (\<lambda>rest. Inr (page @ rest)))"

lemma newest_first_sorted:
  assumes "distinct (map key cs)"
  shows "sorted_wrt (\<lambda>c d. key d < key c) (newest_first key cs)"
proof -
  have "distinct (map key (sort_key key cs))"
    by (rule distinct_map [THEN iffD2]) (use assms in \<open>auto simp: distinct_map\<close>)
  moreover have "sorted (map key (sort_key key cs))" by simp
  ultimately have "sorted_wrt (<) (map key (sort_key key cs))"
    by (simp add: strict_sorted_iff)
  then show ?thesis
    unfolding newest_first_def by (simp add: sorted_wrt_rev sorted_wrt_map)
qed

lemma rows_after:
  fixes key :: "'a \<Rightarrow> 'k::linorder"
  assumes "sorted_wrt (\<lambda>c d. key d < key c) (pre @ [c] @ suf)"
  shows "filter (\<lambda>d. key d < key c) (pre @ [c] @ suf) = suf"
proof -
  have "\<not> key d < key c" if "d \<in> set pre" for d
    using assms that by (auto simp: sorted_wrt_append)
  moreover have "key d < key c" if "d \<in> set suf" for d
    using assms that by (auto simp: sorted_wrt_append)
  ultimately show ?thesis by (simp add: filter_empty_conv)
qed

definition page_of ::
  "(conversation \<Rightarrow> 'k::linorder) \<Rightarrow> clock_text \<Rightarrow> nat \<Rightarrow> conversation list \<Rightarrow> 'k option \<Rightarrow> conversation list \<times> string option" where
  "page_of key T limit rows cursor =
     (let rs = filter (\<lambda>c. case cursor of None \<Rightarrow> True | Some k \<Rightarrow> key c < k) rows in
      (take limit rs, if length rs > limit \<and> take limit rs \<noteq> [] then Some (conversation_cursor T (last (take limit rs))) else None))"

lemma conversation_page_of:
  "conversation_page key T user limit cursor cs = page_of key T limit (newest_first key (filter (conv_owned user) cs)) cursor"
  unfolding conversation_page_def page_of_def Let_def ..

text \<open>A cursor that a page gives out is read back as the time and the identity it was made of.\<close>

definition cursor_sound :: "clock_text \<Rightarrow> conversation \<Rightarrow> bool" where
  "cursor_sound T c = (CHR ''|'' \<notin> set (cv_id c) \<and> ct_parse T (ct_iso T (cv_created c)) = Some (cv_created c))"

lemma cursor_roundtrip:
  assumes "cursor_sound T c"
  shows "parse_cursor T (Some (conversation_cursor T c)) = Some (cv_created c, cv_id c)"
proof -
  have bar: "CHR ''|'' \<notin> set (cv_id c)" using assms by (simp add: cursor_sound_def)
  then have "takeWhile (\<lambda>x. x \<noteq> CHR ''|'') (rev (conversation_cursor T c)) = rev (cv_id c)"
    unfolding conversation_cursor_def by (auto simp: takeWhile_append)
  then show ?thesis
    using assms by (simp add: parse_cursor_def conversation_cursor_def cursor_sound_def Let_def)
qed

lemma follow_rows:
  assumes "sorted_wrt (\<lambda>c d. key d < key c) rows" and "0 < limit"
    and "\<And>k. f k = Inr (map g (fst (page_of key T limit rows (read k))), snd (page_of key T limit rows (read k)))"
    and "\<And>c. c \<in> set rows \<Longrightarrow> read (Some (conversation_cursor T c)) = Some (key c)"
    and "rows = pre @ suf" and "filter (\<lambda>c. case read k of None \<Rightarrow> True | Some q \<Rightarrow> key c < q) rows = suf" and "length suf < n"
  shows "follow_pages n f k = Inr (map g suf)"
  using assms(5-7)
proof (induction n arbitrary: k pre suf)
  case (Suc n)
  note page = page_of_def [of key T limit rows "read k", unfolded Let_def Suc.prems(2)]
  show ?case
  proof (cases "length suf \<le> limit")
    case True
    then show ?thesis by (simp add: assms(3) page)
  next
    case False
    let ?p = "take limit suf"
    have ne: "?p \<noteq> []" using False assms(2) by auto
    let ?k = "Some (conversation_cursor T (last ?p))"
    have split: "rows = (pre @ butlast ?p) @ [last ?p] @ drop limit suf"
      using Suc.prems(1) ne append_butlast_last_id [OF ne] append_take_drop_id [of limit suf] by (metis append.assoc)
    have "last ?p \<in> set rows" using split by (metis in_set_conv_decomp append_Cons append_Nil)
    note read = assms(4) [OF this]
    have "filter (\<lambda>c. case read ?k of None \<Rightarrow> True | Some q \<Rightarrow> key c < q) rows = drop limit suf"
      using rows_after [of key "pre @ butlast ?p" "last ?p" "drop limit suf"] assms(1) split unfolding read by simp
    moreover have "rows = (pre @ ?p) @ drop limit suf" using Suc.prems(1) by simp
    moreover have "length (drop limit suf) < n" using Suc.prems(3) False assms(2) by simp
    ultimately have "follow_pages n f ?k = Inr (map g (drop limit suf))" using Suc.IH by blast
    moreover have "f k = Inr (map g ?p, ?k)" using False ne by (simp add: assms(3) page)
    ultimately show ?thesis by (simp add: take_map [symmetric] drop_map [symmetric])
  qed
qed simp

fun conv_records :: "clock_text \<Rightarrow> string option \<Rightarrow> task_repo \<Rightarrow> conversation list" where
  "conv_records T user (Mem_Tasks s) = newest_first (text_key T) (filter (conv_owned user) (map snd (mt_convs s)))"
| "conv_records T user (Sql_Tasks s) = map row_record (newest_first time_key (filter (conv_owned user) (map snd (st_convs s))))"

lemma read_rows:
  assumes "\<forall>c \<in> set rows. 1 \<le> cv_rev c"
  shows "fold_result (\<lambda>cs r. bind_result (read_conversation r) (\<lambda>c. Inr (cs @ [c]))) acc rows = Inr (acc @ map row_record rows)"
  using assms by (induction rows arbitrary: acc) (auto simp: read_conversation_def require_revision_def)

lemma table_ok_rows:
  assumes "table_ok d"
  shows "distinct (map cv_id (map snd d))" and "\<forall>c \<in> set (map snd d). 1 \<le> cv_rev c"
proof -
  have "cv_id c = k \<and> 1 \<le> cv_rev c" if "(k, c) \<in> set d" for k c
    using assms that by (auto simp: table_ok_def)
  then have "map cv_id (map snd d) = map fst d" and "\<forall>c \<in> set (map snd d). 1 \<le> cv_rev c" by force+
  then show "distinct (map cv_id (map snd d))" "\<forall>c \<in> set (map snd d). 1 \<le> cv_rev c"
    using assms by (simp_all only: table_ok_def)
qed

lemma newest_first_set [simp]: "set (newest_first key cs) = set cs" "length (newest_first key cs) = length cs"
  by (simp_all add: newest_first_def)

lemma row_record_key [simp]: "cursor_sound T (row_record c) = cursor_sound T c"
  by (simp add: cursor_sound_def row_record_def)

text \<open>
  C33. A client that asks for its conversations and follows the cursors, with any page size above zero, is shown
  every conversation exactly once, in the order of the store: in SQL the newest first, in memory by the texts of
  the creation times, the last one first. The cursor is the text \<^verbatim>\<open>created_at|conversation_id\<close>
  that the store parses when it comes back; the theorem asks that the text of a creation time is read as that
  time and that no identity contains a bar (they are hexadecimal).
\<close>
theorem pages_list_every_conversation:
  assumes "empty_tasks r" and "0 < limit" and "length (conv_records T user (run_all (conv_exec E) r cs)) < n"
    and "list_all (cursor_sound T) (conv_records T user (run_all (conv_exec E) r cs))"
  shows "follow_pages n (conv_list T user limit (run_all (conv_exec E) r cs)) None =
    Inr (conv_records T user (run_all (conv_exec E) r cs))"
proof (cases "run_all (conv_exec E) r cs")
  case (Mem_Tasks s)
  let ?rows = "newest_first (text_key T) (filter (conv_owned user) (map snd (mt_convs s)))"
  let ?read = "\<lambda>k. map_option (\<lambda>(t, i). (ct_iso T t, i)) (parse_cursor T k)"
  have "table_ok (mt_convs s)"
    using reached_tasks [OF assms(1), of E cs] unfolding Mem_Tasks by (simp add: mem_tasks_ok_def)
  from distinct_map_filter [OF table_ok_rows(1) [OF this], of "conv_owned user"]
  have "distinct (map (text_key T) (filter (conv_owned user) (map snd (mt_convs s))))"
    by (auto simp: distinct_map inj_on_def text_key_def)
  note sorted = newest_first_sorted [OF this]
  have sound: "cursor_sound T c" if "c \<in> set ?rows" for c
    using assms(4) that unfolding Mem_Tasks by (simp add: list_all_iff)
  have list: "conv_list T user limit (Mem_Tasks s) k =
      Inr (map (\<lambda>c. c) (fst (page_of (text_key T) T limit ?rows (?read k))), snd (page_of (text_key T) T limit ?rows (?read k)))" for k
    by (simp add: mem_list_conversations_def conversation_page_of)
  have "?read (Some (conversation_cursor T c)) = Some (text_key T c)" if "c \<in> set ?rows" for c
    using cursor_roundtrip [OF sound [OF that]] by (simp add: text_key_def)
  from follow_rows [OF sorted assms(2) list this, of "[]" ?rows None n] show ?thesis
    using assms(3) unfolding Mem_Tasks by (simp add: parse_cursor_def del: conv_list.simps)
next
  case (Sql_Tasks s)
  let ?rows = "newest_first time_key (filter (conv_owned user) (map snd (st_convs s)))"
  have ok: "table_ok (st_convs s)"
    using reached_tasks [OF assms(1), of E cs] unfolding Sql_Tasks by (simp add: sql_tasks_ok_def)
  from distinct_map_filter [OF table_ok_rows(1) [OF ok], of "conv_owned user"]
  have "distinct (map time_key (filter (conv_owned user) (map snd (st_convs s))))"
    by (auto simp: distinct_map inj_on_def time_key_def)
  note sorted = newest_first_sorted [OF this]
  have sound: "cursor_sound T c" if "c \<in> set ?rows" for c
    using assms(4) that unfolding Sql_Tasks by (auto simp: list_all_iff)
  have list: "conv_list T user limit (Sql_Tasks s) k =
      Inr (map row_record (fst (page_of time_key T limit ?rows (parse_cursor T k))), snd (page_of time_key T limit ?rows (parse_cursor T k)))" for k
  proof -
    have "set (fst (page_of time_key T limit ?rows (parse_cursor T k))) \<subseteq> set ?rows"
      by (auto simp: page_of_def Let_def dest: in_set_takeD)
    also have "\<dots> \<subseteq> set (map snd (st_convs s))" by auto
    finally have "\<forall>c \<in> set (fst (page_of time_key T limit ?rows (parse_cursor T k))). 1 \<le> cv_rev c"
      using table_ok_rows(2) [OF ok] by blast
    from read_rows [OF this, of "[]"] show ?thesis
      by (simp add: sql_list_conversations_def conversation_page_of case_prod_beta)
  qed
  have "parse_cursor T (Some (conversation_cursor T c)) = Some (time_key c)" if "c \<in> set ?rows" for c
    using cursor_roundtrip [OF sound [OF that]] by (simp add: time_key_def)
  from follow_rows [OF sorted assms(2) list this, of "[]" ?rows None n] show ?thesis
    using assms(3) unfolding Sql_Tasks by (simp add: parse_cursor_def del: conv_list.simps)
qed

text \<open>A clock of ten ticks of half a second, as \<^verbatim>\<open>isoformat\<close> writes them.\<close>

definition demo_iso :: "time \<Rightarrow> string" where
  "demo_iso t = ''2026-01-01T00:00:0'' @ show_nat (nat (t div 2)) @ (if t mod 2 = 1 then ''.500000'' else []) @ ''Z''"

definition demo_clock :: clock_text where
  "demo_clock = \<lparr>ct_iso = demo_iso, ct_parse = (\<lambda>s. List.find (\<lambda>t. demo_iso t = s) [0, 1, 2, 3, 4, 5, 6, 7, 8, 9])\<rparr>"

theorem pages_list_every_conversation_witness:
  "follow_pages 4 (conv_list demo_clock (Some ''u1'') 2 (demo_tasks demo_create)) None =
     Inr [demo_conversation ''c3'' 2, demo_conversation ''c2'' 2, demo_conversation ''c1'' 1]"
proof -
  have rows: "conv_records demo_clock (Some ''u1'') (demo_tasks demo_create) =
      [demo_conversation ''c3'' 2, demo_conversation ''c2'' 2, demo_conversation ''c1'' 1]" by code_simp
  have sound: "list_all (cursor_sound demo_clock) [demo_conversation ''c3'' 2, demo_conversation ''c2'' 2, demo_conversation ''c1'' 1]"
    by code_simp
  show ?thesis
    using pages_list_every_conversation [OF demo_empty, of 2 demo_clock "Some ''u1''" demo_env demo_create 4] sound
    unfolding rows by simp
qed

text \<open>
  The order in memory is that of the texts: \<^verbatim>\<open>...00Z\<close> comes after \<^verbatim>\<open>...00.500000Z\<close>, so
  a conversation of a whole second is listed before the newer one of the same second. In SQL it is not.
\<close>

lemma memory_lists_older_first:
  "let cs = [Create_Conversation (demo_conversation ''c1'' 2), Create_Conversation (demo_conversation ''c2'' 3)];
       ids = (\<lambda>r. map cv_id (conv_records demo_clock None (run_all (conv_exec demo_env) r cs)))
   in ids (Mem_Tasks new_mem_tasks) = [''c1'', ''c2''] \<and> ids (Sql_Tasks new_sql_tasks) = [''c2'', ''c1'']"
  by code_simp

text \<open>
  With a bar in an identity the cursor does not parse, and a store takes it for none: the client is shown the
  first page again and again.
\<close>

lemma bar_repeats_first_page:
  "let s = run_all (conv_exec demo_env) (Sql_Tasks new_sql_tasks)
             [Create_Conversation (demo_conversation ''c1'' 1), Create_Conversation (demo_conversation ''c|2'' 2)]
   in map_sum id (map cv_id) (follow_pages 3 (conv_list demo_clock None 1 s) None) = Inr [''c|2'', ''c|2'', ''c|2'']"
  by code_simp

section \<open>The answer to an interrupt\<close>

definition demo_chat :: "string \<Rightarrow> time \<Rightarrow> conv_message" where
  "demo_chat i t = \<lparr>cm_id = i, cm_conv = ''c1'', cm_user = Some ''u1'', cm_role = ''user'', cm_content = ''hello'', cm_payload = JObj [], cm_at = t\<rparr>"

text \<open>
  The undo of an interrupt's answer, in memory, restores the list of messages from before the answer: a
  message that another request has stored while the caller's block ran, and that was answered as stored, is gone.
\<close>
lemma undone_answer_drops_messages:
  "let s = snd (mem_create_conversation (demo_conversation ''c1'' 1) new_mem_tasks);
       (saved, t) = mem_begin_response ''c1'' ''u1'' (demo_chat ''m1'' 2) 2 s;
       (stored, u) = mem_append_message (demo_chat ''m2'' 3) (Some 3) 3 t
   in stored = Inr (demo_chat ''m2'' 3) \<and> mem_list_messages ''c1'' None 200 u = [demo_chat ''m1'' 2, demo_chat ''m2'' 3] \<and>
      (case saved of Inl er \<Rightarrow> False
       | Inr (v, before, messages) \<Rightarrow> mem_list_messages ''c1'' None 200 (mem_undo_response ''c1'' before messages u) = [])"
  by code_simp

end
