(* ===== verification/Turn_Registration.thy ===== *)
theory Turn_Registration
  imports Turn_Sql Conversation_Stores
begin

text \<open>
  The registration of an input (\<^verbatim>\<open>agent_control_plane/persistence/turn_registration.py\<close>): the message of
  the user, its turn, the next version of the context and the first two events of the outbox, over the turn
  queue and the conversations of either kind. Event identities come from \<^verbatim>\<open>uuid4\<close>: \<open>fresh\<close> gives their
  hexadecimal text. \<open>re_time\<close> is the ISO text of a time.
\<close>

datatype reg_error =
    Unavailable
  | Context_Conflict nat nat
  | Queue_Failed gw_error
  | Task_Failed task_error
  | Bad_Mode
  | Integrity

record registration =
  rs_turn :: turn
  rs_message :: conv_message
  rs_version :: nat
  rs_mode :: string
  rs_created :: bool

record reg_env =
  re_time :: "time \<Rightarrow> string"

definition orchestration_mode :: "string \<Rightarrow> reg_error + string" where
  "orchestration_mode m = (if m \<in> {''frontend_v2'', ''video_agent_v2''} then Inr m else Inl Bad_Mode)"

definition runtime_context_version :: "ctx \<Rightarrow> reg_error + nat" where
  "runtime_context_version c =
     (case map_of c runtime_key of
        Some (JObj d) \<Rightarrow>
          if map_of d ''mode'' \<notin> {Some (JStr ''shadow''), Some (JStr ''assist''), Some (JStr ''primary'')} then Inl Unavailable
          else (case map_of d ''context_version'' of
                  Some (JInt i) \<Rightarrow> if i < 0 then Inl Unavailable else Inr (nat i)
                | _ \<Rightarrow> Inl Unavailable)
      | _ \<Rightarrow> Inl Unavailable)"

section \<open>The first events\<close>

definition turn_status_text :: "turn_status \<Rightarrow> string" where
  "turn_status_text st =
     (case st of Turn_Accepted \<Rightarrow> ''accepted'' | Turn_Queued \<Rightarrow> ''queued'' | Turn_Processing \<Rightarrow> ''processing''
      | Turn_Waiting_User \<Rightarrow> ''waiting_user'' | Turn_Completed \<Rightarrow> ''completed'' | Turn_Failed \<Rightarrow> ''failed'')"

definition message_dict :: "reg_env \<Rightarrow> conv_message \<Rightarrow> json" where
  "message_dict R m =
     JObj [(''message_id'', JStr (cm_id m)), (''conversation_id'', JStr (cm_conv m)),
           (''user_id'', case cm_user m of None \<Rightarrow> JNull | Some u \<Rightarrow> JStr u), (''role'', JStr (cm_role m)),
           (''content'', JStr (cm_content m)), (''payload'', cm_payload m), (''created_at'', JStr (re_time R (cm_at m)))]"

definition first_payloads :: "reg_env \<Rightarrow> conv_message \<Rightarrow> turn \<Rightarrow> nat option \<Rightarrow> (string \<times> json) list" where
  "first_payloads R m x position =
     [(''input.state_changed'',
        JObj [(''client_input_id'', JStr (tn_client x)), (''turn_id'', JStr (tn_id x)), (''status'', JStr (turn_status_text (tn_status x))),
              (''queue_position'', case position of None \<Rightarrow> JNull | Some n \<Rightarrow> JInt (int n))]),
      (''message.upserted'', JObj [(''message'', message_dict R m)])]"

definition registration_event :: "string \<Rightarrow> string \<Rightarrow> time \<Rightarrow> nat \<Rightarrow> string \<Rightarrow> string \<times> json \<Rightarrow> agent_event" where
  "registration_event cid run tm sequence fresh p =
     \<lparr>ae_id = ''evt_'' @ fresh, ae_seq = sequence, ae_cursor = ''cursor_'' @ fresh, ae_conv = cid, ae_run = run, ae_time = tm,
      ae_type = fst p, ae_payload = snd p\<rparr>"

section \<open>In memory\<close>

record mem_registry =
  rg_queue :: mem_queue
  rg_tasks :: mem_tasks

definition run_queue :: "(mem_queue \<Rightarrow> (gw_error + 'a) \<times> mem_queue) \<Rightarrow> mem_registry \<Rightarrow> (reg_error + 'a) \<times> mem_registry" where
  "run_queue f s = (case f (rg_queue s) of (r, q) \<Rightarrow> (case r of Inl er \<Rightarrow> Inl (Queue_Failed er) | Inr a \<Rightarrow> Inr a, s\<lparr>rg_queue := q\<rparr>))"

definition run_tasks :: "(mem_tasks \<Rightarrow> (task_error + 'a) \<times> mem_tasks) \<Rightarrow> mem_registry \<Rightarrow> (reg_error + 'a) \<times> mem_registry" where
  "run_tasks f s = (case f (rg_tasks s) of (r, t) \<Rightarrow> (case r of Inl er \<Rightarrow> Inl (Task_Failed er) | Inr a \<Rightarrow> Inr a, s\<lparr>rg_tasks := t\<rparr>))"

definition pure_result :: "reg_error + 'a \<Rightarrow> mem_registry \<Rightarrow> (reg_error + 'a) \<times> mem_registry" where
  "pure_result r s = (r, s)"

definition mem_append_events ::
  "reg_env \<Rightarrow> string \<Rightarrow> string \<Rightarrow> conv_message \<Rightarrow> turn \<Rightarrow> nat option \<Rightarrow> time \<Rightarrow> string \<times> string \<Rightarrow> mem_registry
   \<Rightarrow> (reg_error + unit) \<times> mem_registry" where
  "mem_append_events R user cid m x position tm fresh s =
     seq_st (run_queue (\<lambda>q. (mem_list_events user cid (mem_queue_events q), q)) s) (\<lambda>events s.
       let next = (if events = [] then 1 else ae_seq (last events) + 1);
           ps = first_payloads R m x position in
       seq_st (run_queue (mem_queue_create_event user (registration_event cid (tn_id x) tm next (fst fresh) (ps ! 0))) s) (\<lambda>_ s.
       seq_st (run_queue (mem_queue_create_event user (registration_event cid (tn_id x) tm (next + 1) (snd fresh) (ps ! 1))) s) (\<lambda>_ s.
         (Inr (), s))))"

text \<open>The answer to an input that is known; the page of messages is the default one of 200.\<close>

definition mem_replay :: "string \<Rightarrow> string \<Rightarrow> conversation \<Rightarrow> conv_message \<Rightarrow> turn \<Rightarrow> mem_registry \<Rightarrow> reg_error + registration" where
  "mem_replay user cid c m x s =
     (case List.find (\<lambda>e. cm_id e = cm_id m) (mem_list_messages cid (Some user) 200 (rg_tasks s)) of
        None \<Rightarrow> Inl Unavailable
      | Some e \<Rightarrow>
          bind_result (runtime_context_version (cv_context c)) (\<lambda>v. bind_result (orchestration_mode (cv_mode c)) (\<lambda>mode.
            Inr \<lparr>rs_turn = x, rs_message = e, rs_version = v, rs_mode = mode, rs_created = False\<rparr>)))"

definition next_version_fields :: "conversation \<Rightarrow> nat \<Rightarrow> conv_fields" where
  "next_version_fields c v =
     no_fields\<lparr>cf_mode := Some (cv_mode c), cf_version := Some 1, cf_runtime := Some [(''context_version'', JInt (int v))]\<rparr>"

definition queue_position :: "turn \<Rightarrow> turn list \<Rightarrow> nat option" where
  "queue_position x turns =
     (if tn_status x \<noteq> Turn_Queued then None
      else map_option fst (List.find (\<lambda>(n, y). tn_id y = tn_id x) (enumerate 1 (filter (\<lambda>y. tn_status y = Turn_Queued) turns))))"

definition mem_register ::
  "reg_env \<Rightarrow> string \<Rightarrow> string \<Rightarrow> conv_message \<Rightarrow> time option \<Rightarrow> turn \<Rightarrow> nat \<Rightarrow> time \<Rightarrow> time \<Rightarrow> string \<times> string \<Rightarrow> mem_registry
   \<Rightarrow> (reg_error + registration) \<times> mem_registry" where
  "mem_register R user cid m given x expected tm now fresh s =
     (case mem_get_conversation cid (Some user) (rg_tasks s) of
        None \<Rightarrow> (Inl Unavailable, s)
      | Some c \<Rightarrow>
          seq_st (run_queue (\<lambda>q. (mem_get_turn_by_client user cid (tn_client x) q, q)) s) (\<lambda>known s.
            case known of
              Some y \<Rightarrow> (mem_replay user cid c m y s, s)
            | None \<Rightarrow>
                seq_st (pure_result (runtime_context_version (cv_context c)) s) (\<lambda>v s.
                if v \<noteq> expected then (Inl (Context_Conflict expected v), s)
                else seq_st (run_tasks (mem_append_message m given now) s) (\<lambda>stored s.
                seq_st (run_queue (mem_enqueue_turn_for_execution user x) s) (\<lambda>y s.
                seq_st (run_tasks (mem_update_conversation cid (Some user) (Some (cv_rev c)) (next_version_fields c (v + 1)) now) s) (\<lambda>updated s.
                case updated of
                  None \<Rightarrow> (Inl Unavailable, s)
                | Some d \<Rightarrow>
                    seq_st (run_queue (\<lambda>q. (mem_list_turns user cid q, q)) s) (\<lambda>turns s.
                    seq_st (mem_append_events R user cid stored y (queue_position y turns) tm fresh s) (\<lambda>_ s.
                      (bind_result (orchestration_mode (cv_mode d)) (\<lambda>mode.
                         Inr \<lparr>rs_turn = y, rs_message = stored, rs_version = v + 1, rs_mode = mode, rs_created = True\<rparr>), s)))))))))"

section \<open>In SQL\<close>

record sql_registry =
  rq_queue :: sql_queue
  rq_tasks :: sql_tasks

text \<open>The context keeps what the row has, messages of old clients included.\<close>

definition with_context_version :: "nat \<Rightarrow> ctx \<Rightarrow> ctx" where
  "with_context_version v c =
     AList.update runtime_key
       (JObj (AList.update ''context_version'' (JInt (int v)) (case map_of c runtime_key of Some (JObj d) \<Rightarrow> d | _ \<Rightarrow> []))) c"

definition mode_or_default :: "string \<Rightarrow> string" where
  "mode_or_default m = (if m = [] then ''frontend_v2'' else m)"

definition execution_owner :: "turn \<Rightarrow> bool" where
  "execution_owner x = (tn_status x \<in> {Turn_Accepted, Turn_Processing})"

definition sql_replay :: "string \<Rightarrow> conversation \<Rightarrow> conv_message \<Rightarrow> turn \<Rightarrow> sql_tasks \<Rightarrow> reg_error + registration" where
  "sql_replay cid c m x t =
     (case map_of (st_messages t) (cm_id m) of
        None \<Rightarrow> Inl Unavailable
      | Some e \<Rightarrow>
          if cm_conv e \<noteq> cid then Inl Unavailable
          else bind_result (runtime_context_version (cv_context c)) (\<lambda>v. bind_result (orchestration_mode (mode_or_default (cv_mode c))) (\<lambda>mode.
            Inr \<lparr>rs_turn = x, rs_message = e, rs_version = v, rs_mode = mode, rs_created = False\<rparr>)))"

definition registration_events :: "reg_env \<Rightarrow> string \<Rightarrow> conv_message \<Rightarrow> turn \<Rightarrow> nat option \<Rightarrow> time \<Rightarrow> nat \<Rightarrow> string \<times> string \<Rightarrow> agent_event list" where
  "registration_events R cid m x position tm previous fresh =
     (let ps = first_payloads R m x position in
      [registration_event cid (tn_id x) tm (previous + 1) (fst fresh) (ps ! 0), registration_event cid (tn_id x) tm (previous + 2) (snd fresh) (ps ! 1)])"

definition event_clash :: "agent_event \<Rightarrow> agent_event \<Rightarrow> bool" where
  "event_clash a b = (ae_id a = ae_id b \<or> ae_conv a = ae_conv b \<and> (ae_seq a = ae_seq b \<or> ae_cursor a = ae_cursor b))"

definition insert_event_rows :: "string \<Rightarrow> agent_event list \<Rightarrow> sql_event_row list \<Rightarrow> reg_error + sql_event_row list" where
  "insert_event_rows user es rows =
     fold_result (\<lambda>rs e. if list_ex (\<lambda>r. event_clash (er_event r) e) rs then Inl Integrity
                        else Inr (rs @ [\<lparr>er_user = user, er_event = e, er_delivery = fresh_delivery\<rparr>])) rows es"

definition last_sequence :: "string \<Rightarrow> sql_queue \<Rightarrow> nat" where
  "last_sequence cid q = fold max (map (\<lambda>r. ae_seq (er_event r)) (filter (\<lambda>r. ae_conv (er_event r) = cid) (sq_events q))) 0"

definition own_lock :: "string \<Rightarrow> string \<Rightarrow> sql_queue \<Rightarrow> reg_error + lock_row \<times> sql_queue" where
  "own_lock user cid q =
     (case map_of (sq_locks q) cid of
        None \<Rightarrow> Inr (idle_row user, q\<lparr>sq_locks := AList.update cid (idle_row user) (sq_locks q)\<rparr>)
      | Some r \<Rightarrow> if lk_user r \<noteq> user then Inl Unavailable else Inr (r, q))"

definition sql_register_once ::
  "reg_env \<Rightarrow> string \<Rightarrow> string \<Rightarrow> conv_message \<Rightarrow> turn \<Rightarrow> nat \<Rightarrow> time \<Rightarrow> string \<times> string \<Rightarrow> sql_registry
   \<Rightarrow> reg_error + registration \<times> sql_registry" where
  "sql_register_once R user cid m x expected tm fresh s =
     (case sql_row cid (Some user) (rq_tasks s) of
        None \<Rightarrow> Inl Unavailable
      | Some c \<Rightarrow>
          (case List.find (\<lambda>(v, y). v = user \<and> tn_conv y = cid \<and> tn_client y = tn_client x) (sq_rows (rq_queue s)) of
             Some (v, y) \<Rightarrow> bind_result (sql_replay cid c m y (rq_tasks s)) (\<lambda>reg. Inr (reg, s))
           | None \<Rightarrow>
               bind_result (runtime_context_version (cv_context c)) (\<lambda>v.
               if v \<noteq> expected then Inl (Context_Conflict expected v)
               else bind_result (own_lock user cid (rq_queue s)) (\<lambda>(lock, q).
               let st = (if paused lock \<or> any_turn execution_owner user cid (sq_rows q) then Turn_Queued else Turn_Accepted);
                   queued = length (filter (\<lambda>(w, y). w = user \<and> tn_conv y = cid \<and> tn_status y = Turn_Queued) (sq_rows q));
                   r = m\<lparr>cm_conv := cid, cm_user := Some user, cm_at := tm\<rparr>;
                   y = x\<lparr>tn_conv := cid, tn_status := st, tn_version := expected, tn_created := tm\<rparr>;
                   d = c\<lparr>cv_context := with_context_version (v + 1) (cv_context c), cv_rev := cv_rev c + 1, cv_updated := tm\<rparr>
               in if map_of (st_messages (rq_tasks s)) (cm_id m) \<noteq> None \<or>
                     list_ex (\<lambda>(w, z). tn_id z = tn_id x \<or> tn_conv z = cid \<and> tn_client z = tn_client x) (sq_rows q) then Inl Integrity
                  else bind_result (insert_event_rows user
                         (registration_events R cid m (x\<lparr>tn_status := st\<rparr>) (if st = Turn_Queued then Some (queued + 1) else None) tm
                            (last_sequence cid q) fresh) (sq_events q)) (\<lambda>events.
                    bind_result (orchestration_mode (mode_or_default (cv_mode c))) (\<lambda>mode.
                      Inr (\<lparr>rs_turn = y, rs_message = r, rs_version = v + 1, rs_mode = mode, rs_created = True\<rparr>,
                           \<lparr>rq_queue = q\<lparr>sq_rows := sq_rows q @ [(user, y)], sq_events := events\<rparr>,
                            rq_tasks = (rq_tasks s)\<lparr>st_messages := AList.update (cm_id m) r (st_messages (rq_tasks s)),
                                                   st_convs := AList.update cid d (st_convs (rq_tasks s))\<rparr>\<rparr>)))))))"

text \<open>An integrity error starts the transaction again with new event identities, at most eight times.\<close>

definition max_attempts :: nat where
  "max_attempts = 8"

fun register_attempts ::
  "(string \<times> string \<Rightarrow> sql_registry \<Rightarrow> reg_error + registration \<times> sql_registry) \<Rightarrow> (string \<times> string) list \<Rightarrow> sql_registry
   \<Rightarrow> (reg_error + registration) \<times> sql_registry" where
  "register_attempts once [] s = (Inl Integrity, s)"
| "register_attempts once (f # fs) s =
     (case once f s of
        Inr (reg, t) \<Rightarrow> (Inr reg, t)
      | Inl er \<Rightarrow> if er = Integrity \<and> fs \<noteq> [] then register_attempts once fs s else (Inl er, s))"

definition sql_register ::
  "reg_env \<Rightarrow> string \<Rightarrow> string \<Rightarrow> conv_message \<Rightarrow> turn \<Rightarrow> nat \<Rightarrow> time \<Rightarrow> (nat \<Rightarrow> string \<times> string) \<Rightarrow> sql_registry
   \<Rightarrow> (reg_error + registration) \<times> sql_registry" where
  "sql_register R user cid m x expected tm fresh s =
     register_attempts (sql_register_once R user cid m x expected tm) (map fresh [0..<max_attempts]) s"

end
