(* ===== verification/Registration_Laws.thy ===== *)
theory Registration_Laws
  imports Turn_Registration Turn_Sql_Laws Conversation_Laws
begin

text \<open>
  What a registration in SQL changes, and the queue and the conversations together with registrations as one
  machine: it keeps the contract of the turn queue.
\<close>

section \<open>One transaction\<close>

lemma register_attempts_cases:
  assumes "register_attempts once fs s = (res, t)"
  shows "(\<exists>er. res = Inl er \<and> t = s) \<or> (\<exists>f reg. f \<in> set fs \<and> res = Inr reg \<and> once f s = Inr (reg, t))"
  using assms
proof (induction fs)
  case (Cons f fs)
  show ?case
  proof (cases "once f s")
    case (Inl er)
    then show ?thesis using Cons by (auto split: if_splits)
  next
    case (Inr rt)
    then show ?thesis using Cons.prems by (cases rt; cases f) auto
  qed
qed auto

text \<open>What a transaction that registers a new input leaves.\<close>

definition registered ::
  "reg_env \<Rightarrow> string \<Rightarrow> string \<Rightarrow> conv_message \<Rightarrow> turn \<Rightarrow> nat \<Rightarrow> time \<Rightarrow> string \<times> string \<Rightarrow> sql_registry \<Rightarrow> registration \<Rightarrow> sql_registry \<Rightarrow> bool" where
  "registered R user cid m x expected tm f s reg t =
     (\<exists>c lock q es events st.
        sql_row cid (Some user) (rq_tasks s) = Some c \<and> runtime_context_version (cv_context c) = Inr expected \<and>
        own_lock user cid (rq_queue s) = Inr (lock, q) \<and>
        st = (if paused lock \<or> any_turn execution_owner user cid (sq_rows q) then Turn_Queued else Turn_Accepted) \<and>
        map_of (st_messages (rq_tasks s)) (cm_id m) = None \<and>
        \<not> list_ex (\<lambda>(w, z). tn_id z = tn_id x \<or> tn_conv z = cid \<and> tn_client z = tn_client x) (sq_rows q) \<and>
        map (\<lambda>e. (ae_seq e, ae_conv e, ae_run e)) es =
          [(last_sequence cid q + 1, cid, tn_id x), (last_sequence cid q + 2, cid, tn_id x)] \<and>
        insert_event_rows user es (sq_events q) = Inr events \<and>
        rs_version reg = expected + 1 \<and>
        rs_turn reg = x\<lparr>tn_conv := cid, tn_status := st, tn_version := expected, tn_created := tm\<rparr> \<and>
        rs_message reg = m\<lparr>cm_conv := cid, cm_user := Some user, cm_at := tm\<rparr> \<and>
        rq_queue t = q\<lparr>sq_rows := sq_rows q @ [(user, rs_turn reg)], sq_events := events\<rparr> \<and>
        rq_tasks t = (rq_tasks s)\<lparr>st_messages := AList.update (cm_id m) (rs_message reg) (st_messages (rq_tasks s)),
          st_convs := AList.update cid (c\<lparr>cv_context := with_context_version (expected + 1) (cv_context c), cv_rev := cv_rev c + 1,
                                          cv_updated := tm\<rparr>) (st_convs (rq_tasks s))\<rparr>)"

lemma registered_queue:
  assumes "registered R user cid m x expected tm f s reg t"
  shows "\<exists>lock q events st. own_lock user cid (rq_queue s) = Inr (lock, q) \<and> (paused lock \<longrightarrow> st = Turn_Queued) \<and> st \<in> {Turn_Accepted, Turn_Queued} \<and>
    \<not> list_ex (\<lambda>(w, z). tn_id z = tn_id x \<or> tn_conv z = cid \<and> tn_client z = tn_client x) (sq_rows q) \<and>
    rs_turn reg = x\<lparr>tn_conv := cid, tn_status := st, tn_version := expected, tn_created := tm\<rparr> \<and>
    rq_queue t = q\<lparr>sq_rows := sq_rows q @ [(user, rs_turn reg)], sq_events := events\<rparr>"
proof -
  from assms obtain lock q events st where own: "own_lock user cid (rq_queue s) = Inr (lock, q)"
    and st: "st = (if paused lock \<or> any_turn execution_owner user cid (sq_rows q) then Turn_Queued else Turn_Accepted)"
    and new: "\<not> list_ex (\<lambda>(w, z). tn_id z = tn_id x \<or> tn_conv z = cid \<and> tn_client z = tn_client x) (sq_rows q)"
    and y: "rs_turn reg = x\<lparr>tn_conv := cid, tn_status := st, tn_version := expected, tn_created := tm\<rparr>"
    and t: "rq_queue t = q\<lparr>sq_rows := sq_rows q @ [(user, rs_turn reg)], sq_events := events\<rparr>"
    unfolding registered_def by blast
  have "(paused lock \<longrightarrow> st = Turn_Queued) \<and> st \<in> {Turn_Accepted, Turn_Queued}" using st by simp
  then show ?thesis using own new y t by blast
qed

lemma registered_tasks:
  assumes "registered R user cid m x expected tm f s reg t"
  shows "\<exists>c. sql_row cid (Some user) (rq_tasks s) = Some c \<and> runtime_context_version (cv_context c) = Inr expected \<and>
    map_of (st_messages (rq_tasks s)) (cm_id m) = None \<and> rs_message reg = m\<lparr>cm_conv := cid, cm_user := Some user, cm_at := tm\<rparr> \<and>
    rq_tasks t = (rq_tasks s)\<lparr>st_messages := AList.update (cm_id m) (rs_message reg) (st_messages (rq_tasks s)),
          st_convs := AList.update cid (c\<lparr>cv_context := with_context_version (expected + 1) (cv_context c), cv_rev := cv_rev c + 1,
                                          cv_updated := tm\<rparr>) (st_convs (rq_tasks s))\<rparr>"
  using assms unfolding registered_def by (elim exE conjE) (intro exI conjI; assumption)

lemma replay_not_created: "sql_replay cid c m y t = Inr reg \<Longrightarrow> \<not> rs_created reg"
  by (auto simp: sql_replay_def bind_result_Inr_iff split: option.splits if_splits)

lemma register_once_cases:
  assumes "sql_register_once R user cid m x expected tm f s = Inr (reg, t)"
  shows "\<not> rs_created reg \<and> t = s \<and>
      (\<exists>c v y. sql_row cid (Some user) (rq_tasks s) = Some c \<and>
         List.find (\<lambda>(v, y). v = user \<and> tn_conv y = cid \<and> tn_client y = tn_client x) (sq_rows (rq_queue s)) = Some (v, y) \<and>
         sql_replay cid c m y (rq_tasks s) = Inr reg)
    \<or> rs_created reg \<and> registered R user cid m x expected tm f s reg t"
proof -
  obtain c where c: "sql_row cid (Some user) (rq_tasks s) = Some c"
    using assms by (cases "sql_row cid (Some user) (rq_tasks s)") (auto simp: sql_register_once_def)
  show ?thesis
  proof (cases "List.find (\<lambda>(v, y). v = user \<and> tn_conv y = cid \<and> tn_client y = tn_client x) (sq_rows (rq_queue s))")
    case (Some vy)
    then show ?thesis using assms c
      by (cases vy) (auto simp: sql_register_once_def bind_result_Inr_iff dest: replay_not_created)
  next
    case None
    then have new: "rs_created reg \<and> registered R user cid m x expected tm f s reg t" using assms c
      by (auto simp: sql_register_once_def registered_def bind_result_Inr_iff Let_def registration_events_def registration_event_def
          split: if_splits intro!: exI)
    then show ?thesis by blast
  qed
qed

lemma sql_register_cases:
  assumes "sql_register R user cid m x expected tm fresh s = (res, t)"
  shows "(\<exists>er. res = Inl er \<and> t = s) \<or>
    (\<exists>reg f. res = Inr reg \<and> f \<in> set (map fresh [0..<max_attempts]) \<and> sql_register_once R user cid m x expected tm f s = Inr (reg, t))"
  using register_attempts_cases [OF assms [unfolded sql_register_def]] by blast

section \<open>Effects on the queue\<close>

lemma own_lock_moves: "own_lock user cid q = Inr (r, q') \<Longrightarrow> sq_moves A q q' \<and> sq_rows q' = sq_rows q \<and> sq_events q' = sq_events q \<and>
  map_of (sq_locks q') cid = Some r \<and> lk_user r = user"
proof (cases "map_of (sq_locks q) cid")
  case None
  assume own: "own_lock user cid q = Inr (r, q')"
  have q': "q' = q\<lparr>sq_locks := AList.update cid (idle_row user) (sq_locks q)\<rparr>" and r: "r = idle_row user"
    using own None by (auto simp: own_lock_def)
  have "sq_moves A q q'"
  proof (rule sq_movesI)
    have "sql_queue_view q' = sql_queue_view q" by (rule view_eqI) (simp_all add: q' None)
    then show "moves A (sql_queue_view q) (sql_queue_view q')" by simp
    show "lock_ok k" if "sql_queue_ok q" "map_of (sq_locks q') c = Some k" for c k
      using that by (auto simp: q' sql_queue_ok_def split: if_splits)
    have "owned_by (sq_locks q') d v" if "owned_by (sq_locks q) d v" for d v
      using that None by (auto simp: q' intro: owned_by_update)
    then show "list_all (\<lambda>(u, x). owned_by (sq_locks q') (tn_conv x) u) (sq_rows q')" if "sql_queue_ok q"
      using that owned_mono [of "sq_locks q" "sq_rows q" "sq_locks q'"] by (simp add: sql_queue_ok_def q')
  qed
  then show ?thesis by (simp add: q' r idle_row_def)
qed (auto simp: own_lock_def split: if_splits)

lemma registered_moves:
  assumes "registered R user cid m x expected tm f s reg t" and "{Adds Turn_Accepted, Adds Turn_Queued} \<subseteq> A"
  shows "sq_moves A (rq_queue s) (rq_queue t)"
proof -
  obtain lock q events st where own: "own_lock user cid (rq_queue s) = Inr (lock, q)"
    and st: "paused lock \<longrightarrow> st = Turn_Queued" "st \<in> {Turn_Accepted, Turn_Queued}"
    and new: "\<not> list_ex (\<lambda>(w, z). tn_id z = tn_id x \<or> tn_conv z = cid \<and> tn_client z = tn_client x) (sq_rows q)"
    and y: "rs_turn reg = x\<lparr>tn_conv := cid, tn_status := st, tn_version := expected, tn_created := tm\<rparr>"
    and t: "rq_queue t = q\<lparr>sq_rows := sq_rows q @ [(user, rs_turn reg)], sq_events := events\<rparr>"
    using registered_queue [OF assms(1)] by blast
  let ?q = "q\<lparr>sq_rows := sq_rows q @ [(user, rs_turn reg)]\<rparr>"
  note lock = own_lock_moves [OF own, of A]
  have "insert_turn_row user (rs_turn reg) q = Inr (rs_turn reg, ?q)" using new by (simp add: insert_turn_row_def y)
  then have "sq_moves A q ?q"
    by (rule insert_moves [where r = lock]) (use lock st assms(2) in \<open>auto simp: y\<close>)
  then have "sq_moves A (rq_queue s) ?q" using lock sq_moves_trans by blast
  then show ?thesis unfolding t using events_free [where s = "rq_queue s" and t = ?q and es = events and A = A] by simp
qed

section \<open>The registry as a machine\<close>

datatype reg_cmd =
    Queue_Cmd queue_cmd
  | Conv_Cmd conv_cmd
  | Register string string conv_message turn nat time "nat \<Rightarrow> string \<times> string"

fun reg_exec :: "reg_env \<Rightarrow> draft_env \<Rightarrow> sql_registry \<Rightarrow> reg_cmd \<Rightarrow> (reg_error + unit) \<times> sql_registry" where
  "reg_exec R E s (Queue_Cmd c) =
     (case sql_queue_exec (rq_queue s) c of (r, q) \<Rightarrow> (case r of Inl er \<Rightarrow> Inl (Queue_Failed er) | Inr a \<Rightarrow> Inr a, s\<lparr>rq_queue := q\<rparr>))"
| "reg_exec R E s (Conv_Cmd c) =
     (case sql_conv_exec E (rq_tasks s) c of (r, q) \<Rightarrow> (case r of Inl er \<Rightarrow> Inl (Task_Failed er) | Inr a \<Rightarrow> Inr a, s\<lparr>rq_tasks := q\<rparr>))"
| "reg_exec R E s (Register user cid m x expected tm fresh) = lift_result (\<lambda>_. ()) (sql_register R user cid m x expected tm fresh s)"

fun reg_labels :: "reg_cmd \<Rightarrow> qlabel set" where
  "reg_labels (Queue_Cmd c) = tags True c"
| "reg_labels (Conv_Cmd c) = {}"
| "reg_labels (Register user cid m x expected tm fresh) = {Adds Turn_Accepted, Adds Turn_Queued}"

lemma register_exec: "snd (reg_exec R E s (Register user cid m x expected tm fresh)) = snd (sql_register R user cid m x expected tm fresh s)"
  by simp

text \<open>Messages are stored under their identity.\<close>

definition messages_ok :: "(string, conv_message) dict \<Rightarrow> bool" where
  "messages_ok d = (distinct (map fst d) \<and> (\<forall>i e. map_of d i = Some e \<longrightarrow> cm_id e = i))"

definition messages_kept :: "(string, conv_message) dict \<Rightarrow> (string, conv_message) dict \<Rightarrow> bool" where
  "messages_kept d d' = (\<forall>i e. map_of d i = Some e \<longrightarrow> (\<exists>e'. map_of d' i = Some e' \<and> cm_id e' = cm_id e \<and> cm_conv e' = cm_conv e))"

definition registry_ok :: "sql_registry \<Rightarrow> bool" where
  "registry_ok s = (sql_queue_ok (rq_queue s) \<and> sql_tasks_ok (rq_tasks s) \<and> messages_ok (st_messages (rq_tasks s)))"

definition registry_view :: "sql_registry \<Rightarrow> queue" where
  "registry_view s = sql_queue_view (rq_queue s)"

lemma messages_kept_refl [simp]: "messages_kept d d"
  by (simp add: messages_kept_def)

lemma messages_kept_trans: "messages_kept a b \<Longrightarrow> messages_kept b c \<Longrightarrow> messages_kept a c"
  by (fastforce simp: messages_kept_def)

lemma message_added:
  "messages_ok d \<Longrightarrow> map_of d (cm_id m) = None \<Longrightarrow>
   messages_ok (AList.update (cm_id m) m d) \<and> messages_kept d (AList.update (cm_id m) m d)"
  by (auto simp: messages_ok_def messages_kept_def simp del: map_of_eq_Some_iff)

lemma message_changed:
  assumes "messages_ok d" and "(k, m) \<in> set d" and "cm_id m' = cm_id m" and "cm_conv m' = cm_conv m"
  shows "messages_ok (AList.update (cm_id m) m' d) \<and> messages_kept d (AList.update (cm_id m) m' d)"
proof -
  have m: "map_of d k = Some m" using assms(1,2) by (simp add: messages_ok_def)
  then have id: "cm_id m = k" using assms(1) by (auto simp: messages_ok_def simp del: map_of_eq_Some_iff)
  then have "cm_id m' = k" using assms(3) by simp
  then show ?thesis using assms(1,4) m unfolding id by (auto simp: messages_ok_def messages_kept_def simp del: map_of_eq_Some_iff)
qed

lemma sql_touch_messages [simp]: "st_messages (sql_touch cid now s) = st_messages s"
  by (simp add: sql_touch_def split: option.split)

lemma sql_change_messages [simp]: "st_messages (snd (sql_change cid user f s)) = st_messages s"
  by (auto simp: sql_change_def split: option.split sum.split)

lemma conv_exec_messages:
  assumes "messages_ok (st_messages s)"
  shows "messages_ok (st_messages (snd (sql_conv_exec E s cmd))) \<and> messages_kept (st_messages s) (st_messages (snd (sql_conv_exec E s cmd)))"
proof (cases cmd)
  case (Create_Conversation c)
  then show ?thesis using assms by (auto simp: sql_create_conversation_def Let_def split: sum.split)
next
  case (Append_Message m given now)
  have "cm_id (m\<lparr>cm_at := now\<rparr>) = cm_id m" by simp
  from message_added [of "st_messages s" "m\<lparr>cm_at := now\<rparr>"] show ?thesis using assms Append_Message
    by (auto simp: sql_append_message_def Let_def split: option.split)
next
  case (Update_Message cid mid user content payload now)
  show ?thesis
  proof (cases "List.find (message_known_as user mid) (sql_messages cid s)")
    case (Some m)
    then obtain k where "(k, m) \<in> set (st_messages s)" using find_Some_in [OF Some] by (auto simp: sql_messages_def)
    from message_changed [OF assms this, of "changed_message content payload m"] show ?thesis
      using Update_Message Some by (simp add: sql_update_message_def changed_message_def)
  qed (use assms Update_Message in \<open>simp add: sql_update_message_def\<close>)
qed (use assms in \<open>simp_all add: sql_update_conversation_def sql_patch_runtime_def sql_patch_draft_def\<close>)

lemma sql_row_table: "sql_row cid user t = Some c \<Longrightarrow> map_of (st_convs t) cid = Some c"
  by (auto simp: sql_row_def split: option.splits if_splits)

text \<open>What a registration does to the conversations and the messages.\<close>

lemma registered_rows:
  assumes "registered R user cid m x expected tm f s reg t"
  shows "\<exists>c d. sql_row cid (Some user) (rq_tasks s) = Some c \<and> runtime_context_version (cv_context c) = Inr expected \<and>
    d = c\<lparr>cv_context := with_context_version (expected + 1) (cv_context c), cv_rev := cv_rev c + 1, cv_updated := tm\<rparr> \<and>
    st_convs (rq_tasks t) = AList.update cid d (st_convs (rq_tasks s))"
    and "map_of (st_messages (rq_tasks s)) (cm_id (rs_message reg)) = None"
    and "st_messages (rq_tasks t) = AList.update (cm_id (rs_message reg)) (rs_message reg) (st_messages (rq_tasks s))"
    and "rs_message reg = m\<lparr>cm_conv := cid, cm_user := Some user, cm_at := tm\<rparr>"
  using registered_tasks [OF assms] by auto

lemma registered_tasks_ok:
  assumes "registered R user cid m x expected tm f s reg t" and "sql_tasks_ok (rq_tasks s)"
  shows "sql_tasks_ok (rq_tasks t)"
    and "map_of (st_convs (rq_tasks s)) k = Some c \<Longrightarrow> \<exists>d. map_of (st_convs (rq_tasks t)) k = Some d \<and> conv_le c d"
proof -
  obtain c d where c: "sql_row cid (Some user) (rq_tasks s) = Some c"
    and d: "d = c\<lparr>cv_context := with_context_version (expected + 1) (cv_context c), cv_rev := cv_rev c + 1, cv_updated := tm\<rparr>"
    and t: "st_convs (rq_tasks t) = AList.update cid d (st_convs (rq_tasks s))"
    using registered_rows(1) [OF assms(1)] by blast
  note c = sql_row_table [OF c]
  have le: "conv_le c d" by (simp add: conv_le_def d)
  show "sql_tasks_ok (rq_tasks t)" using assms(2) c d unfolding sql_tasks_ok_def t
    by (auto simp: table_ok_def split: if_splits simp del: map_of_eq_Some_iff)
  show "\<exists>d. map_of (st_convs (rq_tasks t)) k = Some d \<and> conv_le b d" if "map_of (st_convs (rq_tasks s)) k = Some b" for b
    using that c le unfolding t by (cases "k = cid") auto
qed

lemma registered_messages:
  assumes "registered R user cid m x expected tm f s reg t" and "messages_ok (st_messages (rq_tasks s))"
  shows "messages_ok (st_messages (rq_tasks t)) \<and> messages_kept (st_messages (rq_tasks s)) (st_messages (rq_tasks t))"
  using message_added [OF assms(2) registered_rows(2) [OF assms(1)]] unfolding registered_rows(3) [OF assms(1)] .

lemma register_state: "snd (sql_register R user cid m x expected tm fresh s) = t \<Longrightarrow> t = s \<or> (\<exists>f reg. registered R user cid m x expected tm f s reg t)"
  using sql_register_cases [of R user cid m x expected tm fresh s "fst (sql_register R user cid m x expected tm fresh s)" t] register_once_cases
  by (metis prod.collapse)

lemma reg_exec_moves:
  assumes "registry_ok s" and "reg_labels c \<subseteq> A"
  shows "moves A (registry_view s) (registry_view (snd (reg_exec R E s c)))" and "registry_ok (snd (reg_exec R E s c))"
    and "messages_kept (st_messages (rq_tasks s)) (st_messages (rq_tasks (snd (reg_exec R E s c))))"
proof -
  let ?t = "snd (reg_exec R E s c)"
  have "sq_moves A (rq_queue s) (rq_queue ?t) \<and> sql_tasks_ok (rq_tasks ?t) \<and> messages_ok (st_messages (rq_tasks ?t)) \<and>
      messages_kept (st_messages (rq_tasks s)) (st_messages (rq_tasks ?t))"
  proof (cases c)
    case (Queue_Cmd q)
    then show ?thesis using assms sql_queue_moves [of q A "rq_queue s"] by (simp add: case_prod_beta registry_ok_def)
  next
    case (Conv_Cmd q)
    then show ?thesis using assms sql_convs.exec_inv [of "rq_tasks s" E q] conv_exec_messages [of "rq_tasks s" E q]
      by (simp add: case_prod_beta registry_ok_def)
  next
    case (Register user cid m x expected tm fresh)
    then have "?t = snd (sql_register R user cid m x expected tm fresh s)" by simp
    from register_state [OF this [symmetric]] show ?thesis
    proof (elim disjE exE)
      fix f reg assume "registered R user cid m x expected tm f s reg ?t"
      then show ?thesis using Register assms registered_moves [of R user cid m x expected tm f s reg ?t A]
          registered_tasks_ok(1) [of R user cid m x expected tm f s reg ?t] registered_messages [of R user cid m x expected tm f s reg ?t]
        by (simp add: registry_ok_def)
    qed (use assms in \<open>simp add: registry_ok_def\<close>)
  qed
  then show "moves A (registry_view s) (registry_view ?t)" "registry_ok ?t" "messages_kept (st_messages (rq_tasks s)) (st_messages (rq_tasks ?t))"
    using assms(1) by (auto simp: sq_moves_def registry_view_def registry_ok_def)
qed

interpretation registry: turn_queue "reg_exec R E" registry_ok registry_view reg_labels for R E
proof unfold_locales
  fix w c A
  assume ok: "registry_ok w"
  show "registry_ok (snd (reg_exec R E w c))" by (rule reg_exec_moves(2) [OF ok order_refl])
  show "queue_ok (registry_view w)" using ok sql_turns.okay_view by (simp add: registry_ok_def registry_view_def)
  show "moves A (registry_view w) (registry_view (snd (reg_exec R E w c)))" if "reg_labels c \<subseteq> A"
    by (rule reg_exec_moves(1) [OF ok that])
qed

text \<open>The table refuses a conversation that exists, so no command makes one anew.\<close>

fun reg_client :: "reg_cmd \<Rightarrow> bool" where
  "reg_client (Conv_Cmd c) = client_cmd c"
| "reg_client (Queue_Cmd c) = True"
| "reg_client (Register user cid m x expected tm fresh) = False"

lemma sql_conv_row:
  assumes "sql_tasks_ok s" and "map_of (st_convs s) cid = Some c"
  shows "\<exists>d. map_of (st_convs (snd (sql_conv_exec E s cmd))) cid = Some d \<and> conv_le c d"
proof (cases "creates cid cmd")
  case True
  then obtain b where "cmd = Create_Conversation b" "cv_id b = cid" by (cases cmd) auto
  then show ?thesis using assms(2) by (auto simp: sql_create_conversation_def split: sum.split)
qed (rule sql_convs.exec_row [OF assms])

lemma reg_exec_row:
  assumes "registry_ok s" and "map_of (st_convs (rq_tasks s)) cid = Some c"
  shows "\<exists>d. map_of (st_convs (rq_tasks (snd (reg_exec R E s cmd)))) cid = Some d \<and> conv_le c d"
proof (cases cmd)
  case (Queue_Cmd q)
  then show ?thesis using assms(2) by (simp add: case_prod_beta)
next
  case (Conv_Cmd q)
  then show ?thesis using assms sql_conv_row by (simp add: case_prod_beta registry_ok_def)
next
  case (Register user k m x expected tm fresh)
  let ?t = "snd (reg_exec R E s cmd)"
  have "?t = snd (sql_register R user k m x expected tm fresh s)" using Register by simp
  from register_state [OF this [symmetric]] show ?thesis
  proof (elim disjE exE)
    fix f reg assume "registered R user k m x expected tm f s reg ?t"
    then show ?thesis using registered_tasks_ok(2) assms(1,2) by (simp add: registry_ok_def)
  qed (use assms(2) in simp)
qed

interpretation registry_convs:
  conversation_store "reg_exec R E" registry_ok "\<lambda>s. map_of (st_convs (rq_tasks s))" "\<lambda>cid c. False" reg_client for R E
proof unfold_locales
  fix s cid c d cmd
  assume ok: "registry_ok s"
  show "\<exists>d. map_of (st_convs (rq_tasks (snd (reg_exec R E s cmd)))) cid = Some d \<and> conv_le c d"
    if "map_of (st_convs (rq_tasks s)) cid = Some c"
    using reg_exec_row [OF ok that] .
  show "same_server_fields (cv_context d) (cv_context c)"
    if "map_of (st_convs (rq_tasks s)) cid = Some c" "reg_client cmd" "map_of (st_convs (rq_tasks (snd (reg_exec R E s cmd)))) cid = Some d"
    using that ok sql_convs.exec_client [of "rq_tasks s" cid c _ E d] by (cases cmd) (auto simp: case_prod_beta registry_ok_def)
qed simp

lemma registry_messages: "registry_ok s \<Longrightarrow> messages_kept (st_messages (rq_tasks s)) (st_messages (rq_tasks (run_all (reg_exec R E) s cs)))"
proof (induction cs arbitrary: s)
  case (Cons c cs)
  note step = reg_exec_moves(2,3) [OF Cons.prems order_refl, of R E c]
  show ?case using messages_kept_trans [OF step(2) Cons.IH [OF step(1)]] by simp
qed simp

text \<open>What the answer to an input, new or known, leaves in the tables, and what is left of it later.\<close>

definition input_answered :: "string \<Rightarrow> string \<Rightarrow> string \<Rightarrow> string \<Rightarrow> turn \<Rightarrow> sql_registry \<Rightarrow> bool" where
  "input_answered user cid mid client x s =
     ((user, x) \<in> set (sq_rows (rq_queue s)) \<and> tn_conv x = cid \<and> tn_client x = client \<and>
      (\<exists>c. map_of (st_convs (rq_tasks s)) cid = Some c \<and> cv_user c = Some user) \<and>
      (\<exists>e. map_of (st_messages (rq_tasks s)) mid = Some e \<and> cm_conv e = cid \<and> cm_id e = mid))"

lemma sql_row_owner: "sql_row cid (Some user) t = Some c \<longleftrightarrow> map_of (st_convs t) cid = Some c \<and> cv_user c = Some user"
  by (auto simp: sql_row_def conv_owned_def split: option.splits)

lemma sql_replay_Inr:
  "sql_replay cid c m y t = Inr reg \<longleftrightarrow>
     (\<exists>e v mode. map_of (st_messages t) (cm_id m) = Some e \<and> cm_conv e = cid \<and> runtime_context_version (cv_context c) = Inr v \<and>
        orchestration_mode (mode_or_default (cv_mode c)) = Inr mode \<and>
        reg = \<lparr>rs_turn = y, rs_message = e, rs_version = v, rs_mode = mode, rs_created = False\<rparr>)"
  by (auto simp: sql_replay_def bind_result_Inr_iff split: option.split)

lemma register_answers:
  assumes "registry_ok s" and "sql_register R user cid m x expected tm fresh s = (Inr reg, t)"
  shows "input_answered user cid (cm_id m) (tn_client x) (rs_turn reg) t"
proof -
  obtain f where once: "sql_register_once R user cid m x expected tm f s = Inr (reg, t)"
    using sql_register_cases [OF assms(2)] by blast
  have keyed: "map_of (st_messages (rq_tasks s)) (cm_id m) = Some e \<Longrightarrow> cm_id e = cm_id m" for e
    using assms(1) by (simp add: registry_ok_def messages_ok_def del: map_of_eq_Some_iff)
  from register_once_cases [OF once] show ?thesis
  proof (elim disjE conjE exE)
    fix c v y
    assume c: "sql_row cid (Some user) (rq_tasks s) = Some c" and t: "t = s"
      and found: "List.find (\<lambda>(v, y). v = user \<and> tn_conv y = cid \<and> tn_client y = tn_client x) (sq_rows (rq_queue s)) = Some (v, y)"
      and "sql_replay cid c m y (rq_tasks s) = Inr reg"
    then obtain e where "map_of (st_messages (rq_tasks s)) (cm_id m) = Some e" "cm_conv e = cid" "rs_turn reg = y"
      unfolding sql_replay_Inr by auto
    moreover have "(user, y) \<in> set (sq_rows (rq_queue s))" "tn_conv y = cid" "tn_client y = tn_client x" using find_Some_in [OF found] by auto
    ultimately show ?thesis using keyed c by (simp add: input_answered_def t sql_row_owner del: map_of_eq_Some_iff)
  next
    assume new: "registered R user cid m x expected tm f s reg t"
    obtain c d where c: "sql_row cid (Some user) (rq_tasks s) = Some c"
      and "d = c\<lparr>cv_context := with_context_version (expected + 1) (cv_context c), cv_rev := cv_rev c + 1, cv_updated := tm\<rparr>"
      and row: "st_convs (rq_tasks t) = AList.update cid d (st_convs (rq_tasks s))" using registered_rows(1) [OF new] by blast
    then have d: "cv_user d = cv_user c" by simp
    show ?thesis using registered_queue [OF new] registered_rows(3,4) [OF new] c d by (auto simp: input_answered_def row sql_row_owner)
  qed
qed

lemma answered_later:
  assumes "registry_ok s" and "input_answered user cid mid client x s"
  shows "\<exists>st. input_answered user cid mid client (x\<lparr>tn_status := st\<rparr>) (run_all (reg_exec R E) s cs) \<and> (tn_status x, st) \<in> turn_path"
proof -
  obtain c e where c: "map_of (st_convs (rq_tasks s)) cid = Some c" "cv_user c = Some user"
    and e: "map_of (st_messages (rq_tasks s)) mid = Some e" "cm_conv e = cid" "cm_id e = mid"
    using assms(2) unfolding input_answered_def by blast
  have "(user, x) \<in> set (qv_turns (registry_view s))" using assms(2) by (simp add: input_answered_def registry_view_def sql_queue_view_def)
  from registry.session_turn [OF assms(1) this] obtain st
    where "(user, x\<lparr>tn_status := st\<rparr>) \<in> set (qv_turns (registry_view (run_all (reg_exec R E) s cs)))" "(tn_status x, st) \<in> turn_path"
    by blast
  moreover have "list_ex (\<lambda>c. False) cs = False" by (induction cs) auto
  then obtain d where "map_of (st_convs (rq_tasks (run_all (reg_exec R E) s cs))) cid = Some d" "conv_le c d"
    using registry_convs.session_row [OF assms(1) c(1), of cs R E] by auto
  moreover obtain e' where "map_of (st_messages (rq_tasks (run_all (reg_exec R E) s cs))) mid = Some e'" "cm_conv e' = cid" "cm_id e' = mid"
    using registry_messages [OF assms(1)] e unfolding messages_kept_def by metis
  ultimately show ?thesis using assms(2) c(2) by (auto simp: input_answered_def registry_view_def sql_queue_view_def conv_le_def)
qed

text \<open>A known input is answered from the tables.\<close>

lemma answered_replay:
  assumes "registry_ok s" and "input_answered user cid (cm_id m) (tn_client x) y s" and "map_of (st_convs (rq_tasks s)) cid = Some c"
    and "runtime_context_version (cv_context c) = Inr v" and "orchestration_mode (mode_or_default (cv_mode c)) = Inr mode"
  shows "\<exists>e. cm_id e = cm_id m \<and> sql_register R user cid m x expected tm fresh s =
    (Inr \<lparr>rs_turn = y, rs_message = e, rs_version = v, rs_mode = mode, rs_created = False\<rparr>, s)"
proof -
  let ?P = "\<lambda>(v, y). v = user \<and> tn_conv y = cid \<and> tn_client y = tn_client x"
  have y: "(user, y) \<in> set (sq_rows (rq_queue s))" "?P (user, y)" using assms(2) by (auto simp: input_answered_def)
  obtain vz where vz: "List.find ?P (sq_rows (rq_queue s)) = Some vz"
    using y find_None_all [of ?P "sq_rows (rq_queue s)"] by (cases "List.find ?P (sq_rows (rq_queue s))") auto
  have "queue_ok (registry_view s)" using registry.okay_view [OF assms(1)] .
  then have "inj_on (\<lambda>(u, x). (tn_conv x, tn_client x)) (set (sq_rows (rq_queue s)))"
    by (simp add: queue_ok_def registry_view_def sql_queue_view_def distinct_map)
  from inj_onD [OF this, of vz "(user, y)"] have found: "vz = (user, y)" using find_Some_in [OF vz] y by (cases vz) auto
  obtain e where e: "map_of (st_messages (rq_tasks s)) (cm_id m) = Some e" "cm_conv e = cid" "cm_id e = cm_id m"
    using assms(2) by (auto simp: input_answered_def)
  have "sql_row cid (Some user) (rq_tasks s) = Some c" using assms(2,3) by (simp add: sql_row_owner input_answered_def)
  then have once: "sql_register_once R user cid m x expected tm f s =
      Inr (\<lparr>rs_turn = y, rs_message = e, rs_version = v, rs_mode = mode, rs_created = False\<rparr>, s)" for f
    using vz found e assms(4,5) by (simp add: sql_register_once_def sql_replay_def)
  have "map fresh [0..<max_attempts] = fresh 0 # map fresh [1..<max_attempts]" by (simp add: max_attempts_def upt_rec)
  then show ?thesis using e(3) once by (auto simp: sql_register_def)
qed

end
