(* ===== verification/Registration_Claims.thy ===== *)
theory Registration_Claims
  imports Registration_Laws Conversation_Claims Turn_Claims
begin

text \<open>
  Properties of the registration of inputs, over sessions of the turn queue, the conversations and registrations
  in SQL, and where the registration in memory differs.
\<close>

section \<open>A registration to try them on\<close>

definition demo_reg_env :: reg_env where
  "demo_reg_env = \<lparr>re_time = (\<lambda>t. ''2026-01-01T00:00:00Z'')\<rparr>"

definition input_message :: "string \<Rightarrow> time \<Rightarrow> conv_message" where
  "input_message i t =
     \<lparr>cm_id = i, cm_conv = ''c1'', cm_user = Some ''u1'', cm_role = ''user'', cm_content = ''hello'', cm_payload = JObj [], cm_at = t\<rparr>"

definition input_turn :: "string \<Rightarrow> time \<Rightarrow> turn" where
  "input_turn i t = \<lparr>tn_id = i, tn_conv = ''c1'', tn_client = ''input-'' @ i, tn_status = Turn_Accepted, tn_target = None,
     tn_version = 0, tn_created = t\<rparr>"

definition input_fresh :: "string \<Rightarrow> nat \<Rightarrow> string \<times> string" where
  "input_fresh i n = (i @ ''0'', i @ ''1'')"

definition new_registry :: sql_registry where
  "new_registry = \<lparr>rq_queue = new_sql_queue [], rq_tasks = new_sql_tasks\<rparr>"

lemma new_registry_ok: "registry_ok new_registry" "one_busy (registry_view new_registry)" "exclusive (registry_view new_registry)"
    "in_turn (registry_view new_registry)"
  by (auto simp: new_registry_def registry_ok_def new_sql_queue_def new_sql_tasks_def sql_queue_ok_def sql_queue_view_def queue_ok_def
      sql_tasks_ok_def table_ok_def messages_ok_def registry_view_def one_busy_def exclusive_def in_turn_def)

definition demo_register :: "string \<Rightarrow> nat \<Rightarrow> time \<Rightarrow> reg_cmd" where
  "demo_register i version t = Register ''u1'' ''c1'' (input_message (''m'' @ i) t) (input_turn i t) version t (input_fresh i)"

text \<open>Two inputs, of which the first is started, and a third after it was completed.\<close>

definition demo_registry :: "reg_cmd list" where
  "demo_registry = [Conv_Cmd (Create_Conversation (demo_conversation ''c1'' 1)), demo_register ''a'' 0 2, demo_register ''b'' 1 3,
     Queue_Cmd (Claim_Turn ''u1'' ''c1'')]"

section \<open>All or nothing\<close>

lemma inserted_events:
  "insert_event_rows user es rows = Inr rs \<Longrightarrow> rs = rows @ map (\<lambda>e. \<lparr>er_user = user, er_event = e, er_delivery = fresh_delivery\<rparr>) es"
proof (induction es arbitrary: rows)
  case (Cons e es)
  then show ?case by (fastforce simp: insert_event_rows_def split: if_splits)
qed (simp add: insert_event_rows_def)

lemma next_version_read:
  "runtime_context_version c = Inr v \<Longrightarrow> runtime_context_version (with_context_version w c) = Inr w"
  by (auto simp: runtime_context_version_def with_context_version_def runtime_key_def split: option.splits json.splits if_splits)

text \<open>
  C26. A registration in SQL is one transaction. When it is refused, or answers a known input, nothing has changed.
  When it registers a new input, the input was written against the version that the client has read, the
  conversation has the next version and revision, and exactly one message, one turn, which nobody processes yet,
  and two events of this turn, numbered after the last event of the conversation, have been added.
\<close>
theorem registration_is_atomic:
  assumes "sql_register R user cid m x expected tm fresh s = (res, t)"
  shows "case res of
      Inl er \<Rightarrow> t = s
    | Inr reg \<Rightarrow>
        if \<not> rs_created reg then t = s
        else \<exists>c d es.
          sql_row cid (Some user) (rq_tasks s) = Some c \<and> runtime_context_version (cv_context c) = Inr expected \<and>
          sql_row cid (Some user) (rq_tasks t) = Some d \<and> runtime_context_version (cv_context d) = Inr (expected + 1) \<and>
          cv_rev d = cv_rev c + 1 \<and> rs_version reg = expected + 1 \<and>
          (\<forall>k. k \<noteq> cid \<longrightarrow> map_of (st_convs (rq_tasks t)) k = map_of (st_convs (rq_tasks s)) k) \<and>
          map_of (st_messages (rq_tasks s)) (cm_id m) = None \<and>
          map_of (st_messages (rq_tasks t)) = (map_of (st_messages (rq_tasks s)))(cm_id m \<mapsto> rs_message reg) \<and>
          tn_id (rs_turn reg) = tn_id x \<and> tn_conv (rs_turn reg) = cid \<and> waiting (tn_status (rs_turn reg)) \<and>
          sq_rows (rq_queue t) = sq_rows (rq_queue s) @ [(user, rs_turn reg)] \<and>
          map er_event (sq_events (rq_queue t)) = map er_event (sq_events (rq_queue s)) @ es \<and>
          map (\<lambda>e. (ae_seq e, ae_conv e, ae_run e)) es =
            [(last_sequence cid (rq_queue s) + 1, cid, tn_id x), (last_sequence cid (rq_queue s) + 2, cid, tn_id x)]"
    (is "case res of Inl er \<Rightarrow> t = s | Inr reg \<Rightarrow> if \<not> rs_created reg then t = s else ?new reg")
proof (cases res)
  case (Inl er)
  then show ?thesis using sql_register_cases [OF assms] by auto
next
  case (Inr reg)
  then obtain f where once: "sql_register_once R user cid m x expected tm f s = Inr (reg, t)"
    using sql_register_cases [OF assms] by blast
  show ?thesis
  proof (cases "rs_created reg")
    case False
    then show ?thesis using register_once_cases [OF once] Inr by auto
  next
    case True
    then have new: "registered R user cid m x expected tm f s reg t" using register_once_cases [OF once] by simp
    obtain c lock q es events st where c: "sql_row cid (Some user) (rq_tasks s) = Some c" "runtime_context_version (cv_context c) = Inr expected"
      and own: "own_lock user cid (rq_queue s) = Inr (lock, q)"
      and st: "st = (if paused lock \<or> any_turn execution_owner user cid (sq_rows q) then Turn_Queued else Turn_Accepted)"
      and fresh: "map_of (st_messages (rq_tasks s)) (cm_id m) = None"
      and es: "map (\<lambda>e. (ae_seq e, ae_conv e, ae_run e)) es = [(last_sequence cid q + 1, cid, tn_id x), (last_sequence cid q + 2, cid, tn_id x)]"
      and events: "insert_event_rows user es (sq_events q) = Inr events"
      and reg: "rs_version reg = expected + 1" "rs_turn reg = x\<lparr>tn_conv := cid, tn_status := st, tn_version := expected, tn_created := tm\<rparr>"
      and queue: "rq_queue t = q\<lparr>sq_rows := sq_rows q @ [(user, rs_turn reg)], sq_events := events\<rparr>"
      and tasks: "rq_tasks t = (rq_tasks s)\<lparr>st_messages := AList.update (cm_id m) (rs_message reg) (st_messages (rq_tasks s)),
          st_convs := AList.update cid (c\<lparr>cv_context := with_context_version (expected + 1) (cv_context c), cv_rev := cv_rev c + 1,
                                          cv_updated := tm\<rparr>) (st_convs (rq_tasks s))\<rparr>"
      using new unfolding registered_def by (elim exE conjE) (rule that; assumption)
    let ?d = "c\<lparr>cv_context := with_context_version (expected + 1) (cv_context c), cv_rev := cv_rev c + 1, cv_updated := tm\<rparr>"
    have same: "sq_rows q = sq_rows (rq_queue s)" "sq_events q = sq_events (rq_queue s)" using own_lock_moves [OF own] by auto
    then have last: "last_sequence cid q = last_sequence cid (rq_queue s)" by (simp add: last_sequence_def)
    have d: "sql_row cid (Some user) (rq_tasks t) = Some ?d" using c(1) by (auto simp: sql_row_def tasks conv_owned_def split: option.splits if_splits)
    have "?new reg"
      apply (rule exI [of _ c], rule exI [of _ ?d], rule exI [of _ es], intro conjI)
      apply (rule c d)+
      subgoal by (simp add: next_version_read [OF c(2)])
      subgoal by simp
      subgoal by (rule reg)
      subgoal by (simp add: tasks)
      subgoal by (rule fresh)
      subgoal by (simp add: tasks update_conv')
      subgoal by (simp add: reg)
      subgoal by (simp add: reg)
      subgoal by (simp add: reg st)
      subgoal by (simp add: queue same)
      subgoal using inserted_events [OF events] by (simp add: queue same comp_def)
      subgoal using es by (simp add: last)
      done
    then show ?thesis using True Inr by simp
  qed
qed


text \<open>The second input of the example.\<close>

definition demo_reply :: "reg_cmd list \<Rightarrow> string \<Rightarrow> nat \<Rightarrow> time \<Rightarrow> (reg_error + registration) \<times> sql_registry" where
  "demo_reply cs i version t =
     sql_register demo_reg_env ''u1'' ''c1'' (input_message (''m'' @ i) t) (input_turn i t) version t (input_fresh i)
       (run_all (reg_exec demo_reg_env demo_env) new_registry cs)"

theorem registration_is_atomic_witness:
  "\<exists>reg d. fst (demo_reply (take 2 demo_registry) ''b'' 1 3) = Inr reg \<and>
     sql_row ''c1'' (Some ''u1'') (rq_tasks (snd (demo_reply (take 2 demo_registry) ''b'' 1 3))) = Some d \<and>
     runtime_context_version (cv_context d) = Inr 2"
proof -
  have created: "case fst (demo_reply (take 2 demo_registry) ''b'' 1 3) of Inl er \<Rightarrow> False | Inr reg \<Rightarrow> rs_created reg" by code_simp
  then obtain reg where reg: "fst (demo_reply (take 2 demo_registry) ''b'' 1 3) = Inr reg" "rs_created reg"
    by (auto split: sum.splits)
  then show ?thesis
    using registration_is_atomic [OF prod.collapse [symmetric], of demo_reg_env "''u1''" "''c1''" "input_message (''m'' @ ''b'') 3"
        "input_turn ''b'' 3" 1 3 "input_fresh ''b''" "run_all (reg_exec demo_reg_env demo_env) new_registry (take 2 demo_registry)"]
    unfolding demo_reply_def by (auto simp: numeral_2_eq_2)
qed

section \<open>Inputs that are sent again\<close>

text \<open>
  C27. An input that a registration in SQL has answered is never registered twice: sent again at any later time,
  with whatever content and version, after any session of queue commands, conversation commands and other
  registrations, it changes nothing, and as long as the context of the conversation can be read it is answered
  with its turn, of which only the status may have moved on, and with the message stored for it.
\<close>
theorem registered_input_is_replayed:
  assumes "sql_register R user cid m x expected tm fresh (run_all (reg_exec R E) new_registry cs) = (Inr reg, t)"
    and "map_of (st_convs (rq_tasks (run_all (reg_exec R E) t ds))) cid = Some d"
    and "runtime_context_version (cv_context d) = Inr v" and "orchestration_mode (mode_or_default (cv_mode d)) = Inr mode"
    and "cm_id m' = cm_id m" and "tn_client x' = tn_client x"
  shows "\<exists>again st. sql_register R user cid m' x' expected' tm' fresh' (run_all (reg_exec R E) t ds) = (Inr again, run_all (reg_exec R E) t ds) \<and>
    \<not> rs_created again \<and> rs_turn again = (rs_turn reg)\<lparr>tn_status := st\<rparr> \<and> (tn_status (rs_turn reg), st) \<in> turn_path \<and>
    cm_id (rs_message again) = cm_id m \<and> rs_version again = v"
proof -
  let ?s = "run_all (reg_exec R E) new_registry cs" and ?u = "run_all (reg_exec R E) t ds"
  have ok: "registry_ok ?s" by (rule registry.session_inv [OF new_registry_ok(1)])
  have t: "registry_ok t"
    using registry.exec_inv [OF ok, of R E "Register user cid m x expected tm fresh"] assms(1) by (simp only: register_exec snd_conv)
  obtain st where later: "input_answered user cid (cm_id m) (tn_client x) ((rs_turn reg)\<lparr>tn_status := st\<rparr>) ?u" "(tn_status (rs_turn reg), st) \<in> turn_path"
    using answered_later [OF t register_answers [OF ok assms(1)]] by blast
  have "input_answered user cid (cm_id m') (tn_client x') ((rs_turn reg)\<lparr>tn_status := st\<rparr>) ?u" using later(1) assms(5,6) by simp
  from answered_replay [OF registry.session_inv [OF t] this assms(2-4)] later(2) assms(5) show ?thesis by fastforce
qed

definition claim_first :: "reg_cmd list" where
  "claim_first = [Queue_Cmd (Claim_Turn ''u1'' ''c1''), demo_register ''b'' 1 3]"

text \<open>The first input again, with a stale version, when it is processed and another one waits.\<close>

theorem registered_input_is_replayed_witness:
  "\<exists>again. fst (demo_reply (take 2 demo_registry @ claim_first) ''a'' 0 9) = Inr again \<and> \<not> rs_created again \<and> rs_version again = 2"
proof -
  let ?run = "run_all (reg_exec demo_reg_env demo_env)"
  let ?s = "?run new_registry (take 1 demo_registry)"
  let ?first = "sql_register demo_reg_env ''u1'' ''c1'' (input_message ''ma'' 2) (input_turn ''a'' 2) 0 2 (input_fresh ''a'') ?s"
  have "case fst ?first of Inl er \<Rightarrow> False | Inr reg \<Rightarrow> True" by code_simp
  then obtain reg t where first: "?first = (Inr reg, t)" by (cases ?first) (auto split: sum.splits)
  have "take 2 demo_registry = take 1 demo_registry @ [demo_register ''a'' 0 2]" by (simp add: demo_registry_def)
  then have t: "t = ?run new_registry (take 2 demo_registry)"
    using first by (simp only: run_all_append run_all.simps demo_register_def register_exec append.simps snd_conv)
  let ?row = "map_of (st_convs (rq_tasks (?run new_registry (take 2 demo_registry @ claim_first)))) ''c1''"
  have "case ?row of None \<Rightarrow> False
      | Some d \<Rightarrow> runtime_context_version (cv_context d) = Inr 2 \<and> orchestration_mode (mode_or_default (cv_mode d)) = Inr ''video_agent_v2''"
    by code_simp
  then obtain d where d: "?row = Some d" "runtime_context_version (cv_context d) = Inr 2"
      "orchestration_mode (mode_or_default (cv_mode d)) = Inr ''video_agent_v2''" by (auto split: option.splits)
  then have "map_of (st_convs (rq_tasks (?run t claim_first))) ''c1'' = Some d" by (simp add: t run_all_append)
  from registered_input_is_replayed [OF first this d(2,3), of "input_message ''ma'' 9" "input_turn ''a'' 9" 0 9 "input_fresh ''a''"]
  show ?thesis by (auto simp: demo_reply_def t run_all_append input_message_def input_turn_def)
qed

section \<open>Registered inputs in the inbox\<close>

text \<open>Inputs enter the inbox unprocessed.\<close>

fun enters_waiting :: "reg_cmd \<Rightarrow> bool" where
  "enters_waiting (Queue_Cmd (Create_Turn user x)) = (\<not> busy x)"
| "enters_waiting (Queue_Cmd (Enqueue_Turn user x)) = (\<not> busy x)"
| "enters_waiting c = True"

lemma enters_labels: "list_all enters_waiting cs \<Longrightarrow> \<Union> (reg_labels ` set cs) \<inter> {Adds Turn_Processing, Starts False} = {}"
proof -
  have "enters_waiting c \<Longrightarrow> reg_labels c \<inter> {Adds Turn_Processing, Starts False} = {}" for c
    by (cases c rule: enters_waiting.cases) (auto simp: busy_def)
  then show "list_all enters_waiting cs \<Longrightarrow> ?thesis" by (fastforce simp: list_all_iff)
qed

text \<open>
  C28. In the SQL registry, as long as no command stores an input that is already marked as processed (the
  registration never does, and no caller of the queue does): however registrations, queue commands and changes of
  conversations follow each other, of the turns of a user in a conversation at most one is processed, and no turn
  before it in the inbox still waits. The registry in memory does not keep this order, as
  \<open>memory_completion_skips_inbox\<close> shows.
\<close>
theorem registered_inputs_take_turns:
  assumes "list_all enters_waiting cs" and "sql_list_turns user conv (rq_queue (run_all (reg_exec R E) new_registry cs)) = Inr xs"
  shows "length (filter busy xs) \<le> 1 \<and>
    sorted_wrt (\<lambda>x y. busy y \<longrightarrow> \<not> waiting (tn_status x)) xs"
proof -
  let ?q = "registry_view (run_all (reg_exec R E) new_registry cs)"
  note labels = enters_labels [OF assms(1)]
  have busy: "one_busy ?q" by (rule registry.session_one_busy [OF new_registry_ok(1,2)]) (use labels in blast)
  have order: "in_turn ?q" by (rule registry.session_in_turn [OF new_registry_ok(1,4) labels])
  obtain u c where xs: "xs = conversation_turns u c ?q"
    using assms(2) by (auto simp: sql_list_turns_def bind_result_Inr_iff conversation_turns_def registry_view_def sql_queue_view_def)
  have "length (filter busy xs) \<le> 1" unfolding xs
    by (rule at_most_one, rule sorted_conversation) (use busy in \<open>simp add: one_busy_def\<close>)
  moreover have "sorted_wrt (\<lambda>x y. busy y \<longrightarrow> \<not> waiting (tn_status x)) xs" unfolding xs
    by (rule sorted_conversation) (use order in \<open>simp add: in_turn_def\<close>)
  ultimately show ?thesis by simp
qed

theorem registered_inputs_take_turns_witness:
  "\<exists>xs. sql_list_turns ''u1'' ''c1'' (rq_queue (run_all (reg_exec demo_reg_env demo_env) new_registry demo_registry)) = Inr xs \<and>
     length (filter busy xs) \<le> 1 \<and> map tn_status xs = [Turn_Processing, Turn_Queued]"
proof -
  have "list_all enters_waiting demo_registry" by code_simp
  moreover have list: "case sql_list_turns ''u1'' ''c1'' (rq_queue (run_all (reg_exec demo_reg_env demo_env) new_registry demo_registry)) of
      Inl er \<Rightarrow> False | Inr xs \<Rightarrow> map tn_status xs = [Turn_Processing, Turn_Queued]" by code_simp
  ultimately show ?thesis
    using registered_inputs_take_turns by (auto split: sum.splits)
qed

section \<open>The registration in memory\<close>

lemma message_page_older:
  assumes "e \<in> set (message_page user n ms)"
  shows "length (filter (\<lambda>z. (user = None \<or> cm_user z = user) \<and> (cm_at z, cm_id z) < (cm_at e, cm_id e)) ms) < n"
proof -
  let ?k = "\<lambda>z. (cm_at z, cm_id z)" and ?mine = "\<lambda>z. user = None \<or> cm_user z = user"
  have "length (filter (\<lambda>z. ?k z < ?k e) (sort_key ?k (filter ?mine ms))) < n"
    by (rule sorted_take_least) (use assms in \<open>simp_all add: message_page_def\<close>)
  then show ?thesis by (simp only: filter_sort length_sort filter_filter)
qed

lemma message_page_subset: "e \<in> set (message_page user n ms) \<Longrightarrow> e \<in> set ms"
  by (auto simp: message_page_def dest: in_set_takeD)

text \<open>
  C29. In memory, an input that is known is refused as one that lost its message once 200 messages of the user in
  the conversation are older than the message: the look-up reads the first page of the messages only.
\<close>
theorem long_conversation_loses_replay:
  assumes "mem_get_conversation cid (Some user) (rg_tasks s) = Some c"
    and "mem_get_turn_by_client user cid (tn_client x) (rg_queue s) = Inr (Some y)"
    and "\<forall>e \<in> set (mem_messages cid (rg_tasks s)). cm_id e = cm_id m \<longrightarrow>
      200 \<le> length (filter (\<lambda>z. cm_user z = Some user \<and> (cm_at z, cm_id z) < (cm_at e, cm_id e)) (mem_messages cid (rg_tasks s)))"
  shows "mem_register R user cid m given x expected tm now fresh s = (Inl Unavailable, s)"
proof -
  have "cm_id e \<noteq> cm_id m" if "e \<in> set (mem_list_messages cid (Some user) 200 (rg_tasks s))" for e
    using message_page_older [OF that [unfolded mem_list_messages_def]] message_page_subset [OF that [unfolded mem_list_messages_def]] assms(3)
    by fastforce
  then have "List.find (\<lambda>e. cm_id e = cm_id m) (mem_list_messages cid (Some user) 200 (rg_tasks s)) = None"
    by (simp add: find_None_all)
  then show ?thesis using assms(1,2) by (simp add: mem_register_def mem_replay_def run_queue_def seq_st_def)
qed

definition long_registry :: mem_registry where
  "long_registry =
     \<lparr>rg_queue = snd (mem_enqueue_turn_for_execution ''u1'' (input_turn ''a'' 999) (new_mem_queue [])),
      rg_tasks = \<lparr>mt_convs = [(''c1'', demo_conversation ''c1'' 1)],
                  mt_messages = [(''c1'', map (\<lambda>n. input_message (replicate n CHR ''a'') (int n)) [0..<200] @ [input_message ''ma'' 999])]\<rparr>\<rparr>"

theorem long_conversation_loses_replay_witness:
  "mem_register demo_reg_env ''u1'' ''c1'' (input_message ''ma'' 999) (Some 999) (input_turn ''a'' 999) 0 1000 1000 (input_fresh ''b'' 0) long_registry =
     (Inl Unavailable, long_registry)"
proof (rule long_conversation_loses_replay)
  show "mem_get_conversation ''c1'' (Some ''u1'') (rg_tasks long_registry) = Some (demo_conversation ''c1'' 1)"
    by (simp add: long_registry_def mem_get_conversation_def demo_conversation_def conv_owned_def)
  show "mem_get_turn_by_client ''u1'' ''c1'' (tn_client (input_turn ''a'' 999)) (rg_queue long_registry) = Inr (Some (input_turn ''a'' 999))"
  proof -
    have "mem_get_turn_by_client ''u1'' ''c1'' (tn_client (input_turn ''a'' 999))
        (snd (mem_enqueue_turn_for_execution ''u1'' (input_turn ''a'' 999) (new_mem_queue []))) = Inr (Some (input_turn ''a'' 999))" by code_simp
    then show ?thesis by (simp add: long_registry_def)
  qed
  let ?old = "map (\<lambda>n. input_message (replicate n CHR ''a'') (int n)) [0..<200]"
  have ms: "mem_messages ''c1'' (rg_tasks long_registry) = ?old @ [input_message ''ma'' 999]"
    by (simp add: mem_messages_def long_registry_def)
  have "filter (\<lambda>z. cm_user z = Some ''u1'' \<and> (cm_at z, cm_id z) < (999, ''ma'')) ?old = ?old"
    by (rule filter_True) (auto simp: input_message_def)
  then have "200 \<le> length (filter (\<lambda>z. cm_user z = Some ''u1'' \<and> (cm_at z, cm_id z) < (999, ''ma'')) (?old @ [input_message ''ma'' 999]))"
    by simp
  moreover have "replicate n CHR ''a'' \<noteq> ''ma''" for n by (cases n) auto
  ultimately show "\<forall>e \<in> set (mem_messages ''c1'' (rg_tasks long_registry)). cm_id e = cm_id (input_message ''ma'' 999) \<longrightarrow>
      200 \<le> length (filter (\<lambda>z. cm_user z = Some ''u1'' \<and> (cm_at z, cm_id z) < (cm_at e, cm_id e)) (mem_messages ''c1'' (rg_tasks long_registry)))"
    unfolding ms by (auto simp: input_message_def)
qed

text \<open>
  In memory a registration that fails leaves what it has done: here the turn's identity is in use, the turn
  is refused, and the message that was stored first stays without a turn. In SQL nothing is left.
\<close>
lemma refused_registration_keeps_message:
  "let q = snd (mem_enqueue_turn_for_execution ''u1'' (input_turn ''a'' 1) (new_mem_queue []));
       s = \<lparr>rg_queue = q, rg_tasks = snd (mem_create_conversation (demo_conversation ''c1'' 1) new_mem_tasks)\<rparr>;
       (res, t) = mem_register demo_reg_env ''u1'' ''c1'' (input_message ''mb'' 2) (Some 2) ((input_turn ''a'' 2)\<lparr>tn_client := ''other''\<rparr>) 0 2 2
         (input_fresh ''b'' 0) s
   in (case res of Inl er \<Rightarrow> True | Inr reg \<Rightarrow> False) \<and> rg_queue t = q \<and>
      mem_list_messages ''c1'' None 200 (rg_tasks t) = [input_message ''mb'' 2]"
  by code_simp

end
