(* ===== verification/Memory_Outbox.thy ===== *)
theory Memory_Outbox
  imports Job_Projector Sha256 "HOL-Library.Option_ord" "HOL-Library.Product_Lexorder"
begin

text \<open>
  Long-term memory: the adapter of the remote service (\<^verbatim>\<open>long_term_memory/service.py\<close>) and the outbox of
  writes with its worker (\<^verbatim>\<open>long_term_memory/outbox.py\<close>). The table is a dictionary by write key; a method
  of the outbox is one transaction, and transactions run one after another (as SQLite does it: the claim locks no
  row, so that a database with weaker isolation may run two claims at once). The worker is cut at its awaits into pieces.
\<close>

section \<open>The adapter\<close>

text \<open>What a request comes back with: a failure of the transport, or a status, whether it has a body, and the body as JSON.\<close>

datatype http_reply = Transport_Failed | Reply nat bool "json option"

record http_request =
  hr_method :: string
  hr_path :: string
  hr_params :: json
  hr_payload :: json

record mem0 =
  m0_available :: bool
  m0_limit :: nat
  m0_salt :: string
  m0_repr :: "json \<Rightarrow> string"
  m0_http :: "http_request \<Rightarrow> http_reply"

record memory_item =
  mi_id :: string
  mi_content :: string
  mi_category :: string

definition v1_result :: "http_reply \<Rightarrow> json option" where
  "v1_result r =
     (case r of
        Transport_Failed \<Rightarrow> None
      | Reply status body j \<Rightarrow>
          if status \<ge> 400 then None else if status = 204 \<or> \<not> body then Some (JObj []) else j)"

definition v1_request :: "mem0 \<Rightarrow> string \<Rightarrow> string \<Rightarrow> json \<Rightarrow> json \<Rightarrow> json option" where
  "v1_request M verb path params payload =
     v1_result (m0_http M \<lparr>hr_method = verb, hr_path = path, hr_params = params, hr_payload = payload\<rparr>)"

text \<open>\<^verbatim>\<open>a or b\<close>.\<close>

definition json_or :: "json \<Rightarrow> json \<Rightarrow> json" where
  "json_or a b = (if truthy a then a else b)"

text \<open>The subject under which a user is known to the service; empty when no salt is deployed.\<close>

definition anonymous_user_id :: "mem0 \<Rightarrow> string \<Rightarrow> string" where
  "anonymous_user_id M user =
     (let salt = py_strip (m0_salt M) in
      if salt = [] then [] else ''pfu_'' @ take 40 (sha256_hex (''v1:'' @ salt @ '':'' @ user)))"

definition map_item :: "mem0 \<Rightarrow> json \<Rightarrow> memory_item option" where
  "map_item M j =
     (let content = py_strip (py_str (m0_repr M) (json_or (json_or (jget ''memory'' j) (jget ''content'' j)) (JStr [])));
          i = py_strip (py_str (m0_repr M) (json_or (json_or (jget ''id'' j) (jget ''memory_id'' j)) (JStr [])));
          category = (if is_obj (jget ''metadata'' j) then jget ''category'' (jget ''metadata'' j) else JNull)
      in if content = [] \<or> i = [] then None
         else Some \<lparr>mi_id = i, mi_content = py_take 1000 content,
                    mi_category = py_take 32 (py_str (m0_repr M) (json_or (json_or category (jget ''category'' j)) (JStr ''preference'')))\<rparr>)"

definition result_list :: "json option \<Rightarrow> json list" where
  "result_list p =
     (case p of
        Some (JObj d) \<Rightarrow> items_of (case map_of d ''results'' of None \<Rightarrow> JObj d | Some r \<Rightarrow> r)
      | Some (JList xs) \<Rightarrow> xs
      | _ \<Rightarrow> [])"

definition search_records :: "mem0 \<Rightarrow> string \<Rightarrow> string \<Rightarrow> nat \<Rightarrow> json list" where
  "search_records M anonymous query limit =
     filter is_obj (take limit (result_list (v1_request M ''POST'' ''/v1/memories/search/'' JNull
       (JObj [(''query'', JStr query), (''user_id'', JStr anonymous), (''limit'', JInt (int limit))]))))"

definition mem0_search :: "mem0 \<Rightarrow> string \<Rightarrow> string \<Rightarrow> nat \<Rightarrow> memory_item list" where
  "mem0_search M user query limit =
     (let who = anonymous_user_id M user in
      if \<not> m0_available M \<or> py_strip query = [] \<or> who = [] then []
      else List.map_filter (map_item M) (search_records M who query limit))"

definition event_of_payload :: "mem0 \<Rightarrow> json option \<Rightarrow> string option" where
  "event_of_payload M p =
     (case p of
        Some (JObj d) \<Rightarrow>
          (let j = JObj d;
               e = json_or (jget ''event_id'' j) (jget ''id'' j);
               first = (if truthy e then e
                        else case jget ''results'' j of
                          JList (JObj r # rs) \<Rightarrow> json_or (jget ''event_id'' (JObj r)) (jget ''id'' (JObj r))
                        | _ \<Rightarrow> e);
               s = py_strip (py_str (m0_repr M) first)
           in if s = [] then None else Some s)
      | _ \<Rightarrow> None)"

definition mem0_add :: "mem0 \<Rightarrow> string \<Rightarrow> string \<Rightarrow> string \<Rightarrow> string \<Rightarrow> string option" where
  "mem0_add M user content category key =
     (let who = anonymous_user_id M user in
      if \<not> m0_available M \<or> py_strip content = [] \<or> who = [] then None
      else event_of_payload M (v1_request M ''POST'' ''/v1/memories/'' JNull
        (JObj [(''messages'', JList [JObj [(''role'', JStr ''user''), (''content'', JStr content)]]), (''user_id'', JStr who),
               (''metadata'', JObj [(''category'', JStr category), (''memory_write_key'', JStr key)])])))"

definition memory_path :: "string \<Rightarrow> string" where
  "memory_path i = ''/v1/memories/'' @ i @ ''/''"

definition mem0_get :: "mem0 \<Rightarrow> string \<Rightarrow> memory_item option" where
  "mem0_get M i =
     (if \<not> m0_available M \<or> py_strip i = [] then None
      else case v1_request M ''GET'' (memory_path i) JNull JNull of
        Some (JObj d) \<Rightarrow>
          (let j = JObj d;
               content = py_strip (py_str (m0_repr M) (json_or (json_or (jget ''memory'' j) (jget ''content'' j)) (JStr [])));
               k = py_strip (py_str (m0_repr M) (json_or (jget ''id'' j) (JStr i)))
           in if content = [] \<or> k = [] then None
              else Some \<lparr>mi_id = k, mi_content = py_take 1000 content,
                         mi_category = py_take 32 (py_str (m0_repr M) (json_or (jget ''category'' j) (JStr ''preference'')))\<rparr>)
      | _ \<Rightarrow> None)"

definition mem0_history :: "mem0 \<Rightarrow> string \<Rightarrow> memory_item list" where
  "mem0_history M i =
     (if \<not> m0_available M \<or> py_strip i = [] then []
      else List.map_filter (map_item M) (filter is_obj (result_list (v1_request M ''GET'' (memory_path i @ ''history/'') JNull JNull))))"

definition mem0_update :: "mem0 \<Rightarrow> string \<Rightarrow> string \<Rightarrow> memory_item option" where
  "mem0_update M i content =
     (if \<not> m0_available M \<or> py_strip i = [] \<or> py_strip content = [] then None
      else case v1_request M ''PUT'' (memory_path i) JNull (JObj [(''text'', JStr content)]) of
        Some (JObj d) \<Rightarrow> (case map_item M (JObj d) of Some item \<Rightarrow> Some item | None \<Rightarrow> mem0_get M i)
      | _ \<Rightarrow> mem0_get M i)"

definition mem0_get_event :: "mem0 \<Rightarrow> string \<Rightarrow> string \<Rightarrow> string \<Rightarrow> string \<Rightarrow> memory_item option" where
  "mem0_get_event M event user content key =
     (let who = anonymous_user_id M user in
      if \<not> m0_available M \<or> py_strip event = [] \<or> py_strip content = [] \<or> py_strip key = [] \<or> who = [] then None
      else case List.find (\<lambda>r. jget ''memory_write_key'' (jget ''metadata'' r) = JStr key) (search_records M who content 20) of
        None \<Rightarrow> None
      | Some r \<Rightarrow> map_item M r)"

definition mem0_delete :: "mem0 \<Rightarrow> string \<Rightarrow> bool" where
  "mem0_delete M i = (m0_available M \<and> py_strip i \<noteq> [] \<and> v1_request M ''DELETE'' (memory_path i) JNull JNull \<noteq> None)"

definition mem0_delete_all :: "mem0 \<Rightarrow> string \<Rightarrow> bool" where
  "mem0_delete_all M user =
     (let who = anonymous_user_id M user in
      m0_available M \<and> who \<noteq> [] \<and> v1_request M ''DELETE'' ''/v1/memories/'' (JObj [(''user_id'', JStr who)]) JNull \<noteq> None)"

section \<open>The outbox\<close>

datatype write_status = Write_Pending | Write_Processing | Write_Completed | Write_Manual

record memory_write =
  mw_key :: string
  mw_user :: string
  mw_category :: string
  mw_content :: string
  mw_status :: write_status
  mw_event :: "string option"
  mw_attempts :: nat
  mw_retry :: "time option"
  mw_failure :: "string option"
  mw_owner :: "string option"
  mw_until :: "time option"
  mw_created :: time

type_synonym writes = "(string, memory_write) dict"

datatype write_error = Write_Key_Conflict

definition enqueue_write :: "string \<Rightarrow> string \<Rightarrow> string \<Rightarrow> string \<Rightarrow> time \<Rightarrow> writes \<Rightarrow> (write_error + unit) \<times> writes" where
  "enqueue_write user content category key now t =
     (case map_of t key of
        None \<Rightarrow>
          (Inr (), AList.update key
             \<lparr>mw_key = key, mw_user = user, mw_category = category, mw_content = content, mw_status = Write_Pending, mw_event = None,
              mw_attempts = 0, mw_retry = None, mw_failure = None, mw_owner = None, mw_until = None, mw_created = now\<rparr> t)
      | Some w \<Rightarrow>
          if (mw_user w, mw_category w, mw_content w) \<noteq> (user, category, content) then (Inl Write_Key_Conflict, t) else (Inr (), t))"

definition due :: "time \<Rightarrow> memory_write \<Rightarrow> bool" where
  "due now w =
     (case mw_status w of
        Write_Pending \<Rightarrow> (case mw_retry w of None \<Rightarrow> True | Some r \<Rightarrow> r \<le> now)
      | Write_Processing \<Rightarrow> (case mw_until w of None \<Rightarrow> False | Some u \<Rightarrow> u \<le> now)
      | _ \<Rightarrow> False)"

text \<open>The first row by the time of its next try (NULL is first) and its age.\<close>

definition next_write :: "time \<Rightarrow> writes \<Rightarrow> memory_write option" where
  "next_write now t =
     (case sort_key (\<lambda>w. (mw_retry w, mw_created w)) (filter (due now) (map snd t)) of [] \<Rightarrow> None | w # ws \<Rightarrow> Some w)"

definition claimed :: "string \<Rightarrow> time \<Rightarrow> memory_write \<Rightarrow> memory_write" where
  "claimed worker until w =
     w\<lparr>mw_status := Write_Processing, mw_owner := Some worker, mw_until := Some until, mw_attempts := mw_attempts w + 1, mw_retry := None\<rparr>"

definition claim_write :: "time \<Rightarrow> string \<Rightarrow> time \<Rightarrow> writes \<Rightarrow> memory_write option \<times> writes" where
  "claim_write lease worker now t =
     (case next_write now t of
        None \<Rightarrow> (None, t)
      | Some w \<Rightarrow> (Some (claimed worker (now + lease) w), AList.update (mw_key w) (claimed worker (now + lease) w) t))"

text \<open>A change of a row by the worker that holds it.\<close>

definition change_held :: "string \<Rightarrow> string \<Rightarrow> (memory_write \<Rightarrow> memory_write) \<Rightarrow> writes \<Rightarrow> bool \<times> writes" where
  "change_held key worker f t =
     (case map_of t key of
        None \<Rightarrow> (False, t)
      | Some w \<Rightarrow> if mw_owner w \<noteq> Some worker then (False, t) else (True, AList.update key (f w) t))"

definition save_event_id :: "time \<Rightarrow> string \<Rightarrow> string \<Rightarrow> string \<Rightarrow> time \<Rightarrow> writes \<Rightarrow> bool \<times> writes" where
  "save_event_id lease key worker event now t =
     change_held key worker (\<lambda>w. w\<lparr>mw_event := Some event, mw_failure := None, mw_until := Some (now + lease)\<rparr>) t"

definition retry_write :: "string \<Rightarrow> string \<Rightarrow> time \<Rightarrow> string \<Rightarrow> time \<Rightarrow> writes \<Rightarrow> writes" where
  "retry_write key worker after code now t =
     snd (change_held key worker (\<lambda>w. w\<lparr>mw_status := Write_Pending, mw_owner := None, mw_until := None,
       mw_retry := Some (now + max 0 after), mw_failure := Some (py_take 64 code)\<rparr>) t)"

definition review_write :: "string \<Rightarrow> string \<Rightarrow> string \<Rightarrow> writes \<Rightarrow> writes" where
  "review_write key worker code t =
     snd (change_held key worker (\<lambda>w. w\<lparr>mw_status := Write_Manual, mw_owner := None, mw_until := None, mw_retry := None,
       mw_failure := Some (py_take 64 code)\<rparr>) t)"

definition complete_write :: "string \<Rightarrow> string \<Rightarrow> string option \<Rightarrow> writes \<Rightarrow> writes" where
  "complete_write key worker event t =
     snd (change_held key worker (\<lambda>w. w\<lparr>mw_status := Write_Completed, mw_event := event, mw_retry := None, mw_failure := None,
       mw_owner := None, mw_until := None\<rparr>) t)"

definition requeue_write :: "string \<Rightarrow> string \<Rightarrow> writes \<Rightarrow> bool \<times> writes" where
  "requeue_write user key t =
     (case map_of t key of
        None \<Rightarrow> (False, t)
      | Some w \<Rightarrow>
          if mw_user w \<noteq> user \<or> mw_status w \<noteq> Write_Manual then (False, t)
          else (True, AList.update key (w\<lparr>mw_status := Write_Pending, mw_attempts := (if mw_event w = None then 0 else 1), mw_retry := None,
                  mw_failure := None, mw_owner := None, mw_until := None\<rparr>) t))"

text \<open>The method of the service.\<close>

definition service_requeue :: "string \<Rightarrow> string \<Rightarrow> writes option \<Rightarrow> bool \<times> writes option" where
  "service_requeue user key outbox =
     (case outbox of
        None \<Rightarrow> (False, None)
      | Some t \<Rightarrow> if py_strip key = [] then (False, Some t) else map_prod id Some (requeue_write user key t))"

section \<open>The worker\<close>

record write_config =
  wc_lease :: time
  wc_initial :: time
  wc_max :: time
  wc_polls :: nat

text \<open>The bounds that \<^verbatim>\<open>__init__\<close> puts on its arguments.\<close>

definition write_config_of :: "time \<Rightarrow> time \<Rightarrow> time \<Rightarrow> nat \<Rightarrow> write_config" where
  "write_config_of lease initial most polls =
     \<lparr>wc_lease = lease, wc_initial = max 0 initial, wc_max = max (max 0 initial) most, wc_polls = max 1 polls\<rparr>"

definition retry_delay :: "write_config \<Rightarrow> nat \<Rightarrow> time" where
  "retry_delay C attempts = min (wc_max C) (wc_initial C * 2 ^ (attempts - 1))"

datatype write_phase =
    Resting
  | Polling memory_write
  | Adding memory_write
  | Saving memory_write string
  | Delaying memory_write string
  | Reviewing memory_write string
  | Completing memory_write

text \<open>What the adapter's call comes back with.\<close>

datatype provider_answer = Provider_Raised | Event_Stable bool | Added "string option"

definition nonempty :: "string option \<Rightarrow> string option" where
  "nonempty s = (if s = Some [] then None else s)"

definition after_claim :: "memory_write \<Rightarrow> write_phase" where
  "after_claim w =
     (if nonempty (mw_event w) \<noteq> None then Polling w
      else if mw_attempts w > 1 then Reviewing w ''mem0_add_submit_boundary_unknown''
      else Adding w)"

definition after_poll :: "write_config \<Rightarrow> memory_write \<Rightarrow> provider_answer \<Rightarrow> write_phase" where
  "after_poll C w answer =
     (case answer of
        Event_Stable True \<Rightarrow> Completing w
      | Event_Stable False \<Rightarrow>
          if mw_attempts w \<ge> wc_polls C then Reviewing w ''mem0_event_poll_attempts_exhausted'' else Delaying w ''mem0_event_pending''
      | _ \<Rightarrow> Reviewing w ''mem0_add_submit_boundary_unknown'')"

definition after_add :: "memory_write \<Rightarrow> provider_answer \<Rightarrow> write_phase" where
  "after_add w answer =
     (case answer of
        Added e \<Rightarrow> (case nonempty e of Some i \<Rightarrow> Saving w i | None \<Rightarrow> Reviewing w ''mem0_add_event_id_missing'')
      | _ \<Rightarrow> Reviewing w ''mem0_add_submit_boundary_unknown'')"

fun write_piece :: "write_config \<Rightarrow> string \<Rightarrow> time \<Rightarrow> provider_answer \<Rightarrow> write_phase \<Rightarrow> writes \<Rightarrow> write_phase \<times> writes" where
  "write_piece C worker now answer Resting t =
     (case claim_write (wc_lease C) worker now t of (None, u) \<Rightarrow> (Resting, u) | (Some w, u) \<Rightarrow> (after_claim w, u))"
| "write_piece C worker now answer (Polling w) t = (after_poll C w answer, t)"
| "write_piece C worker now answer (Adding w) t = (after_add w answer, t)"
| "write_piece C worker now answer (Saving w e) t =
     (case save_event_id (wc_lease C) (mw_key w) worker e now t of
        (True, u) \<Rightarrow> (Delaying w ''mem0_event_pending'', u)
      | (False, u) \<Rightarrow> (Resting, u))"
| "write_piece C worker now answer (Delaying w code) t = (Resting, retry_write (mw_key w) worker (retry_delay C (mw_attempts w)) code now t)"
| "write_piece C worker now answer (Reviewing w code) t = (Resting, review_write (mw_key w) worker code t)"
| "write_piece C worker now answer (Completing w) t = (Resting, complete_write (mw_key w) worker (mw_event w) t)"

text \<open>One pass: the claim, the call and at most two transactions; the clock and the answer at each piece come from outside.\<close>

fun write_pieces :: "nat \<Rightarrow> write_config \<Rightarrow> string \<Rightarrow> (nat \<Rightarrow> time \<times> provider_answer) \<Rightarrow> write_phase \<Rightarrow> writes \<Rightarrow> write_phase \<times> writes" where
  "write_pieces 0 C worker inp p t = (p, t)"
| "write_pieces (Suc n) C worker inp p t =
     (if p = Resting then (p, t)
      else case write_piece C worker (fst (inp n)) (snd (inp n)) p t of (q, u) \<Rightarrow> write_pieces n C worker inp q u)"

definition run_write_once :: "write_config \<Rightarrow> string \<Rightarrow> time \<Rightarrow> (nat \<Rightarrow> time \<times> provider_answer) \<Rightarrow> writes \<Rightarrow> bool \<times> writes" where
  "run_write_once C worker now inp t =
     (case claim_write (wc_lease C) worker now t of
        (None, u) \<Rightarrow> (False, u)
      | (Some w, u) \<Rightarrow> (True, snd (write_pieces 3 C worker inp (after_claim w) u)))"

section \<open>Several workers\<close>

text \<open>
  Gateways with one worker each, over the same table. \<open>my_sent\<close> records the keys of the writes that a worker
  has been led to submit, \<open>my_released\<close> those which their owners have put back into the queue.
\<close>

record memory_system =
  my_rows :: writes
  my_phases :: "write_phase list"
  my_sent :: "string list"
  my_released :: "string list"

datatype memory_cmd =
    Enqueue_Write string string string string time
  | Requeue_Write string string
  | Work nat time provider_answer
  | Restart nat

definition sent_by :: "write_phase \<Rightarrow> write_phase \<Rightarrow> string list" where
  "sent_by p q = (case (p, q) of (Resting, Adding w) \<Rightarrow> [mw_key w] | _ \<Rightarrow> [])"

fun memory_exec :: "write_config \<Rightarrow> (nat \<Rightarrow> string) \<Rightarrow> memory_system \<Rightarrow> memory_cmd \<Rightarrow> (write_error + unit) \<times> memory_system" where
  "memory_exec C names s (Enqueue_Write user content category key now) =
     (case enqueue_write user content category key now (my_rows s) of (r, t) \<Rightarrow> (r, s\<lparr>my_rows := t\<rparr>))"
| "memory_exec C names s (Requeue_Write user key) =
     (case requeue_write user key (my_rows s) of
        (b, t) \<Rightarrow> (Inr (), s\<lparr>my_rows := t, my_released := (if b then my_released s @ [key] else my_released s)\<rparr>))"
| "memory_exec C names s (Work i now answer) =
     (if i \<ge> length (my_phases s) then (Inr (), s)
      else case write_piece C (names i) now answer (my_phases s ! i) (my_rows s) of
        (q, t) \<Rightarrow> (Inr (), s\<lparr>my_rows := t, my_phases := (my_phases s)[i := q], my_sent := my_sent s @ sent_by (my_phases s ! i) q\<rparr>))"
| "memory_exec C names s (Restart i) = (Inr (), s\<lparr>my_phases := (my_phases s)[i := Resting]\<rparr>)"

definition new_memory :: "nat \<Rightarrow> memory_system" where
  "new_memory n = \<lparr>my_rows = [], my_phases = replicate n Resting, my_sent = [], my_released = []\<rparr>"

end
