(* ===== verification/Memory_Claims.thy ===== *)
theory Memory_Claims
  imports Memory_Outbox
begin

text \<open>
  Properties of the outbox of long-term memory: what any interleaving of workers, restarts, new writes and releases
  by their owners keeps (a write is submitted once per release, a completed write is final), and that a worker runs
  out of work.
\<close>

section \<open>Changes of a row\<close>

definition same_write :: "memory_write \<Rightarrow> memory_write \<Rightarrow> bool" where
  "same_write w v =
     (mw_key v = mw_key w \<and> mw_user v = mw_user w \<and> mw_category v = mw_category w \<and> mw_content v = mw_content w \<and> mw_created v = mw_created w)"

lemma same_write_refl [simp]: "same_write w w"
  by (simp add: same_write_def)

lemma same_write_trans: "same_write u v \<Longrightarrow> same_write v w \<Longrightarrow> same_write u w"
  by (simp add: same_write_def)

lemma same_write_claimed [simp]: "same_write w (claimed worker until w)"
  by (simp add: same_write_def claimed_def)

inductive write_change :: "memory_write \<Rightarrow> memory_write \<Rightarrow> bool" where
  keep: "write_change w w"
| claim: "mw_status w \<in> {Write_Pending, Write_Processing} \<Longrightarrow> write_change w (claimed worker until w)"
| held: "mw_owner w \<noteq> None \<Longrightarrow> same_write w v \<Longrightarrow> mw_attempts v = mw_attempts w \<Longrightarrow>
    (mw_owner v \<noteq> None \<longrightarrow> mw_status v = mw_status w) \<Longrightarrow> write_change w v"
| release: "mw_status w = Write_Manual \<Longrightarrow> same_write w v \<Longrightarrow> mw_owner v = None \<Longrightarrow> mw_status v = Write_Pending \<Longrightarrow> write_change w v"

inductive_cases write_changeE: "write_change w v"

text \<open>Only a write that is being processed has an owner.\<close>

definition write_ok :: "string \<Rightarrow> memory_write \<Rightarrow> bool" where
  "write_ok k w = (mw_key w = k \<and> (mw_owner w \<noteq> None \<longrightarrow> mw_status w = Write_Processing))"

definition writes_ok :: "writes \<Rightarrow> bool" where
  "writes_ok t = (distinct (map fst t) \<and> (\<forall>k w. map_of t k = Some w \<longrightarrow> write_ok k w))"

lemma write_change_ok: "write_change w v \<Longrightarrow> write_ok k w \<Longrightarrow> write_ok k v"
  by (erule write_changeE) (auto simp: write_ok_def same_write_def claimed_def)

lemma write_change_same: "write_change w v \<Longrightarrow> same_write w v"
  by (erule write_changeE) auto

text \<open>What an operation does to the table: the rows stay and change by \<open>write_change\<close>.\<close>

definition table_change :: "writes \<Rightarrow> writes \<Rightarrow> bool" where
  "table_change t u =
     (map fst u = map fst t \<and> (\<forall>k w. map_of t k = Some w \<longrightarrow> (\<exists>v. map_of u k = Some v \<and> write_change w v)))"

lemma table_change_refl [simp]: "table_change t t"
  by (auto simp: table_change_def intro: write_change.keep)

lemma table_change_row: "map_of t k = Some w \<Longrightarrow> write_change w v \<Longrightarrow> table_change t (AList.update k v t)"
  by (auto simp: table_change_def update_existing_keys intro: write_change.keep simp del: map_of_eq_Some_iff)

lemma table_change_ok:
  assumes "table_change t u" and "writes_ok t"
  shows "writes_ok u"
proof -
  have keys: "map fst u = map fst t" using assms(1) by (simp add: table_change_def)
  have "write_ok k v" if "map_of u k = Some v" for k v
  proof -
    have "k \<in> fst ` set t" using that keys map_of_eq_None_iff [of u k] by (metis list.set_map option.distinct(1))
    then obtain w where w: "map_of t k = Some w" by (metis map_of_eq_None_iff not_None_eq)
    then show ?thesis using assms that write_change_ok unfolding table_change_def writes_ok_def by (metis option.inject)
  qed
  then show ?thesis using assms(2) keys by (simp add: writes_ok_def del: map_of_eq_Some_iff)
qed

lemma next_write_row:
  assumes "writes_ok t" and "next_write now t = Some w"
  shows "map_of t (mw_key w) = Some w" and "mw_status w \<in> {Write_Pending, Write_Processing}"
proof -
  obtain ws where "sort_key (\<lambda>w. (mw_retry w, mw_created w)) (filter (due now) (map snd t)) = w # ws"
    using assms(2) by (auto simp: next_write_def split: list.splits)
  then have "w \<in> set (sort_key (\<lambda>w. (mw_retry w, mw_created w)) (filter (due now) (map snd t)))" by simp
  then have w: "w \<in> set (map snd t)" "due now w" by auto
  then obtain k where k: "map_of t k = Some w" using assms(1) val_has_key by (metis writes_ok_def)
  then show "map_of t (mw_key w) = Some w" using assms(1) by (auto simp: writes_ok_def write_ok_def simp del: map_of_eq_Some_iff)
  show "mw_status w \<in> {Write_Pending, Write_Processing}" using w(2) by (auto simp: due_def split: write_status.splits)
qed

lemma claim_row:
  assumes "writes_ok t" and "claim_write lease worker now t = (Some v, u)"
  obtains w where "map_of t (mw_key w) = Some w" and "v = claimed worker (now + lease) w" and "u = AList.update (mw_key w) v t"
    and "write_change w v" and "table_change t u"
proof -
  obtain w where w: "next_write now t = Some w" "v = claimed worker (now + lease) w" "u = AList.update (mw_key w) v t"
    using assms(2) by (auto simp: claim_write_def split: option.splits)
  note row = next_write_row [OF assms(1) w(1)]
  have change: "write_change w v" unfolding w(2) by (rule write_change.claim [OF row(2)])
  show thesis by (rule that [OF row(1) w(2,3) change]) (use table_change_row [OF row(1) change] w(3) in simp)
qed

lemma held_change:
  assumes "\<And>w. same_write w (f w) \<and> mw_attempts (f w) = mw_attempts w \<and> (mw_owner (f w) \<noteq> None \<longrightarrow> mw_status (f w) = mw_status w)"
  shows "table_change t (snd (change_held key worker f t))"
proof (cases "map_of t key")
  case (Some w)
  show ?thesis
  proof (cases "mw_owner w = Some worker")
    case True
    then have "write_change w (f w)" using assms [of w] by (intro write_change.held) auto
    then show ?thesis using Some True table_change_row [OF Some] by (simp add: change_held_def)
  qed (simp add: change_held_def Some)
qed (simp add: change_held_def)

lemma held_attempts:
  assumes "\<And>w. mw_attempts (f w) = mw_attempts w"
  shows "map_option mw_attempts (map_of (snd (change_held key worker f t)) k) = map_option mw_attempts (map_of t k)"
  using assms by (auto simp: change_held_def split: option.split)

lemmas held_ops = save_event_id_def retry_write_def review_write_def complete_write_def

lemma piece_change:
  assumes "writes_ok t"
  shows "table_change t (snd (write_piece C worker now answer p t))"
proof (cases p)
  case Resting
  show ?thesis
  proof (cases "claim_write (wc_lease C) worker now t")
    case (Pair r u)
    then have "table_change t u"
    proof (cases r)
      case None
      then show ?thesis using Pair by (simp add: claim_write_def split: option.splits)
    next
      case (Some v)
      then show ?thesis using claim_row [OF assms Pair [unfolded Some]] by metis
    qed
    then show ?thesis using Resting Pair by (simp split: option.split)
  qed
next
  case (Saving w e)
  have "table_change t (snd (save_event_id (wc_lease C) (mw_key w) worker e now t))"
    unfolding save_event_id_def by (rule held_change) (simp add: same_write_def)
  then show ?thesis using Saving by (auto split: prod.split bool.split)
qed (auto simp: retry_write_def review_write_def complete_write_def same_write_def intro!: held_change)

text \<open>Beside a claim, no piece changes the number of attempts.\<close>

lemma piece_attempts:
  assumes "p \<noteq> Resting"
  shows "map_option mw_attempts (map_of (snd (write_piece C worker now answer p t)) k) = map_option mw_attempts (map_of t k)"
proof (cases p)
  case (Saving w e)
  have "map_option mw_attempts (map_of (snd (save_event_id (wc_lease C) (mw_key w) worker e now t)) k) = map_option mw_attempts (map_of t k)"
    unfolding save_event_id_def by (rule held_attempts) simp
  then show ?thesis using Saving by (auto split: prod.split bool.split)
qed (use assms in \<open>auto simp: retry_write_def review_write_def complete_write_def intro!: held_attempts\<close>)

section \<open>Sessions\<close>

definition rest :: "memory_write option \<Rightarrow> nat" where
  "rest r = (case r of None \<Rightarrow> 1 | Some w \<Rightarrow> if mw_attempts w = 0 then 1 else 0)"

definition memory_ok :: "memory_system \<Rightarrow> bool" where
  "memory_ok s =
     (writes_ok (my_rows s) \<and>
      (\<forall>k. count_list (my_sent s) k + rest (map_of (my_rows s) k) \<le> 1 + count_list (my_released s) k))"

lemma rest_attempts: "map_option mw_attempts r = map_option mw_attempts q \<Longrightarrow> rest r = rest q"
  by (cases r; cases q) (auto simp: rest_def)

lemma work_keeps_budget:
  assumes "writes_ok t"
  shows "count_list (sent_by p (fst (write_piece C worker now answer p t))) k + rest (map_of (snd (write_piece C worker now answer p t)) k)
    \<le> rest (map_of t k)"
proof (cases "p = Resting")
  case False
  then have "sent_by p (fst (write_piece C worker now answer p t)) = []" by (cases p) (auto simp: sent_by_def)
  then show ?thesis using rest_attempts [OF piece_attempts [OF False]] by simp
next
  case True
  obtain r u where ru: "claim_write (wc_lease C) worker now t = (r, u)" by (cases "claim_write (wc_lease C) worker now t")
  show ?thesis
  proof (cases r)
    case None
    then show ?thesis using ru True by (auto simp: sent_by_def claim_write_def split: option.splits)
  next
    case (Some v)
    then obtain w where w: "map_of t (mw_key w) = Some w" "v = claimed worker (now + wc_lease C) w" "u = AList.update (mw_key w) v t"
      using claim_row [OF assms] ru by metis
    have "after_claim v = Adding x \<Longrightarrow> x = v \<and> mw_attempts w = 0" for x
      by (auto simp: after_claim_def w(2) claimed_def split: if_splits)
    moreover have "mw_key v = mw_key w" "mw_attempts v \<noteq> 0" by (simp_all add: w(2) claimed_def)
    ultimately show ?thesis using True ru Some w(1,3) by (auto simp: sent_by_def rest_def split: write_phase.splits)
  qed
qed

lemma enqueue_ok:
  assumes "enqueue_write user content category key now t = (r, u)" and "writes_ok t"
  shows "writes_ok u" and "rest (map_of u k) = rest (map_of t k)" and "map_of t k = Some w \<Longrightarrow> map_of u k = Some w"
  using assms by (auto simp: enqueue_write_def writes_ok_def write_ok_def rest_def split: option.splits if_splits simp del: map_of_eq_Some_iff)

lemma requeue_change:
  assumes "requeue_write user key t = (b, u)"
  shows "table_change t u" and "rest (map_of u k) \<le> rest (map_of t k) + (if b \<and> k = key then 1 else 0)"
proof -
  have "map_of t key = Some w \<Longrightarrow> mw_status w = Write_Manual \<Longrightarrow>
      write_change w (w\<lparr>mw_status := Write_Pending, mw_attempts := n, mw_retry := None, mw_failure := None, mw_owner := None, mw_until := None\<rparr>)" for w n
    by (rule write_change.release) (simp_all add: same_write_def)
  then show "table_change t u" using assms table_change_row by (fastforce simp: requeue_write_def split: option.splits if_splits)
  show "rest (map_of u k) \<le> rest (map_of t k) + (if b \<and> k = key then 1 else 0)"
    using assms by (auto simp: requeue_write_def rest_def split: option.splits if_splits)
qed

lemma memory_exec_ok:
  assumes "memory_ok s"
  shows "memory_ok (snd (memory_exec C names s cmd))"
    and "map_of (my_rows s) k = Some w \<Longrightarrow> \<exists>v. map_of (my_rows (snd (memory_exec C names s cmd))) k = Some v \<and> write_change w v"
proof -
  have ok: "writes_ok (my_rows s)" and budget: "\<And>k. count_list (my_sent s) k + rest (map_of (my_rows s) k) \<le> 1 + count_list (my_released s) k"
    using assms by (auto simp: memory_ok_def)
  have "memory_ok (snd (memory_exec C names s cmd)) \<and>
      (\<forall>k w. map_of (my_rows s) k = Some w \<longrightarrow> (\<exists>v. map_of (my_rows (snd (memory_exec C names s cmd))) k = Some v \<and> write_change w v))"
  proof (cases cmd)
    case (Enqueue_Write user content category key now)
    obtain r u where ru: "enqueue_write user content category key now (my_rows s) = (r, u)"
      by (cases "enqueue_write user content category key now (my_rows s)")
    show ?thesis using enqueue_ok [OF ru ok] budget Enqueue_Write ru by (auto simp: memory_ok_def intro: write_change.keep)
  next
    case (Requeue_Write user key)
    obtain b u where bu: "requeue_write user key (my_rows s) = (b, u)" by (cases "requeue_write user key (my_rows s)")
    note change = requeue_change(1) [OF bu]
    have "count_list (my_sent s) k + rest (map_of u k) \<le> 1 + count_list (if b then my_released s @ [key] else my_released s) k" for k
      using budget [of k] requeue_change(2) [OF bu, of k] by (auto split: if_splits)
    then show ?thesis using table_change_ok [OF change ok] change Requeue_Write bu by (auto simp: memory_ok_def table_change_def)
  next
    case (Work i now answer)
    show ?thesis
    proof (cases "i < length (my_phases s)")
      case True
      let ?p = "write_piece C (names i) now answer (my_phases s ! i) (my_rows s)"
      obtain q u where qu: "?p = (q, u)" by (cases ?p)
      have change: "table_change (my_rows s) u" using piece_change [OF ok, of C "names i" now answer "my_phases s ! i"] qu by simp
      have le: "count_list (sent_by (my_phases s ! i) q) k + rest (map_of u k) \<le> rest (map_of (my_rows s) k)" for k
        using work_keeps_budget [OF ok, of "my_phases s ! i" C "names i" now answer k] qu by simp
      have "count_list (my_sent s @ sent_by (my_phases s ! i) q) k + rest (map_of u k) \<le> 1 + count_list (my_released s) k" for k
        using budget [of k] le [of k] by simp
      then show ?thesis using table_change_ok [OF change ok] change Work True qu by (auto simp: memory_ok_def table_change_def)
    qed (use Work assms in \<open>auto intro: write_change.keep\<close>)
  qed (use assms in \<open>auto simp: memory_ok_def intro: write_change.keep\<close>)
  then show "memory_ok (snd (memory_exec C names s cmd))"
    "map_of (my_rows s) k = Some w \<Longrightarrow> \<exists>v. map_of (my_rows (snd (memory_exec C names s cmd))) k = Some v \<and> write_change w v" by auto
qed

lemma new_memory_ok: "memory_ok (new_memory n)"
  by (simp add: memory_ok_def new_memory_def writes_ok_def rest_def)

interpretation memory: machine "memory_exec C names" memory_ok for C names
  by unfold_locales (rule memory_exec_ok)


definition demo_config :: write_config where
  "demo_config = write_config_of 30 2 120 6"

definition demo_workers :: "nat \<Rightarrow> string" where
  "demo_workers i = ''gateway-memory:1''"

text \<open>
  A write whose first submission outlives its lease: another gateway, under the same name, finds it, leaves it to
  its owner, who releases it; then both submissions come back.
\<close>

definition demo_writes :: "memory_cmd list" where
  "demo_writes =
     [Enqueue_Write ''u1'' ''likes tea'' ''preference'' ''k1'' 0, Work 0 1 Provider_Raised, Work 1 40 Provider_Raised,
      Work 1 41 Provider_Raised, Requeue_Write ''u1'' ''k1'', Work 1 42 Provider_Raised, Work 1 43 (Added (Some ''e2'')), Work 1 44 Provider_Raised,
      Work 1 45 Provider_Raised, Work 0 46 (Added (Some ''e1'')), Work 0 47 Provider_Raised,
      Work 1 60 Provider_Raised, Work 1 61 (Event_Stable True), Work 1 62 Provider_Raised]"

section \<open>Once per release\<close>

text \<open>
  C34. However the transactions of workers, restarts, new writes and releases follow each other, also when leases run out
  and gateways share a name, a write is submitted to the memory service at most once, and once more for each time its owner has
  released it.
\<close>
theorem memory_is_added_once:
  "count_list (my_sent (run_all (memory_exec C names) (new_memory n) cs)) k
    \<le> 1 + count_list (my_released (run_all (memory_exec C names) (new_memory n) cs)) k"
  using memory.session_inv [OF new_memory_ok, of C names n cs] unfolding memory_ok_def by (meson add_leE)

section \<open>Completed writes\<close>

text \<open>
  C35. In any such session what a write says and whose it is never changes, and once it is completed its row never
  changes again.
\<close>
theorem completed_write_is_final:
  assumes "map_of (my_rows (run_all (memory_exec C names) (new_memory n) cs)) k = Some w"
  shows "\<exists>v. map_of (my_rows (run_all (memory_exec C names) (new_memory n) (cs @ ds))) k = Some v \<and> same_write w v \<and>
    (mw_status w = Write_Completed \<longrightarrow> v = w)"
proof -
  have final: "write_change w v \<Longrightarrow> write_ok k w \<Longrightarrow> mw_status w = Write_Completed \<Longrightarrow> v = w" for k w v
    by (erule write_changeE) (auto simp: write_ok_def)
  have "\<exists>v. map_of (my_rows (run_all (memory_exec C names) s ds)) k = Some v \<and> same_write w v \<and> (mw_status w = Write_Completed \<longrightarrow> v = w)"
    if "memory_ok s" "map_of (my_rows s) k = Some w" for s w
    using that
  proof (induction ds arbitrary: s w)
    case (Cons d ds)
    let ?t = "snd (memory_exec C names s d)"
    obtain v where v: "map_of (my_rows ?t) k = Some v" "write_change w v" using memory_exec_ok(2) [OF Cons.prems] by blast
    have "write_ok k w" using Cons.prems by (simp add: memory_ok_def writes_ok_def del: map_of_eq_Some_iff)
    with final v(2) have "mw_status w = Write_Completed \<Longrightarrow> v = w" by blast
    then show ?case using Cons.IH [OF memory_exec_ok(1) [OF Cons.prems(1)] v(1)] write_change_same [OF v(2)] same_write_trans by fastforce
  qed simp
  from this [OF memory.session_inv [OF new_memory_ok] assms] show ?thesis by (simp add: run_all_append)
qed

theorem completed_write_is_final_witness:
  "\<exists>w v. map_of (my_rows (run_all (memory_exec demo_config demo_workers) (new_memory 2) demo_writes)) ''k1'' = Some w \<and>
     mw_status w = Write_Completed \<and>
     map_of (my_rows (run_all (memory_exec demo_config demo_workers) (new_memory 2) (demo_writes @ [Requeue_Write ''u1'' ''k1'', Work 0 90 Provider_Raised]))) ''k1'' = Some v \<and>
     v = w"
proof -
  let ?s = "run_all (memory_exec demo_config demo_workers) (new_memory 2) demo_writes"
  have "map_option mw_status (map_of (my_rows ?s) ''k1'') = Some Write_Completed" by code_simp
  then obtain w where w: "map_of (my_rows ?s) ''k1'' = Some w" "mw_status w = Write_Completed" by auto
  from completed_write_is_final [OF w(1), of "[Requeue_Write ''u1'' ''k1'', Work 0 90 Provider_Raised]"] w show ?thesis by auto
qed

section \<open>A worker runs out of work\<close>

fun write_passes :: "write_config \<Rightarrow> string \<Rightarrow> (time \<times> (nat \<Rightarrow> time \<times> provider_answer)) list \<Rightarrow> writes \<Rightarrow> bool list \<times> writes" where
  "write_passes C worker [] t = ([], t)"
| "write_passes C worker ((now, inp) # is) t =
     (case run_write_once C worker now inp t of (b, u) \<Rightarrow> (case write_passes C worker is u of (bs, v) \<Rightarrow> (b # bs, v)))"

definition tries_left :: "nat \<Rightarrow> memory_write \<Rightarrow> nat" where
  "tries_left P w = (if mw_status w \<in> {Write_Completed, Write_Manual} then 0 else Suc (P - mw_attempts w))"

definition work_left :: "nat \<Rightarrow> writes \<Rightarrow> nat" where
  "work_left P t = sum_list (map (\<lambda>(k, w). tries_left P w) t)"

lemma work_left_update:
  "map_of t k = Some w \<Longrightarrow> work_left P (AList.update k x t) + tries_left P w = work_left P t + tries_left P x"
  by (induction t) (auto simp: work_left_def split: if_splits)

lemma work_left_bound: "work_left P t \<le> (P + 1) * length t"
  by (induction t) (auto simp: work_left_def tries_left_def)

text \<open>The pieces after a claim, when nobody else takes part.\<close>

lemma held_here:
  "mw_owner v = Some worker \<Longrightarrow>
   change_held (mw_key v) worker f (AList.update (mw_key v) v t) = (True, AList.update (mw_key v) (f v) t)"
  by (simp add: change_held_def)

definition settled_as :: "write_config \<Rightarrow> memory_write \<Rightarrow> memory_write \<Rightarrow> bool" where
  "settled_as C v x =
     (mw_key x = mw_key v \<and> mw_owner x = None \<and>
      (mw_status x \<in> {Write_Completed, Write_Manual} \<or> mw_attempts x = mw_attempts v \<and> (mw_attempts v < wc_polls C \<or> mw_attempts v \<le> 1)))"

lemma rest_pieces: "write_pieces n C worker inp Resting t = (Resting, t)"
  by (cases n) auto

lemma last_pieces:
  assumes "mw_owner v = Some worker"
  shows "\<exists>x. write_pieces (Suc n) C worker inp (Reviewing v code) (AList.update (mw_key v) v t) = (Resting, AList.update (mw_key v) x t) \<and> settled_as C v x"
    and "\<exists>x. write_pieces (Suc n) C worker inp (Completing v) (AList.update (mw_key v) v t) = (Resting, AList.update (mw_key v) x t) \<and> settled_as C v x"
    and "mw_attempts v < wc_polls C \<or> mw_attempts v \<le> 1 \<Longrightarrow>
      \<exists>x. write_pieces (Suc n) C worker inp (Delaying v code) (AList.update (mw_key v) v t) = (Resting, AList.update (mw_key v) x t) \<and> settled_as C v x"
proof -
  show "\<exists>x. write_pieces (Suc n) C worker inp (Reviewing v code) (AList.update (mw_key v) v t) = (Resting, AList.update (mw_key v) x t) \<and> settled_as C v x"
    by (rule exI [of _ "v\<lparr>mw_status := Write_Manual, mw_owner := None, mw_until := None, mw_retry := None, mw_failure := Some (py_take 64 code)\<rparr>"])
       (simp add: review_write_def held_here [OF assms] rest_pieces settled_as_def)
  show "\<exists>x. write_pieces (Suc n) C worker inp (Completing v) (AList.update (mw_key v) v t) = (Resting, AList.update (mw_key v) x t) \<and> settled_as C v x"
    by (rule exI [of _ "v\<lparr>mw_status := Write_Completed, mw_event := mw_event v, mw_retry := None, mw_failure := None, mw_owner := None, mw_until := None\<rparr>"])
       (simp add: complete_write_def held_here [OF assms] rest_pieces settled_as_def)
  show "\<exists>x. write_pieces (Suc n) C worker inp (Delaying v code) (AList.update (mw_key v) v t) = (Resting, AList.update (mw_key v) x t) \<and> settled_as C v x"
    if "mw_attempts v < wc_polls C \<or> mw_attempts v \<le> 1"
    by (rule exI [of _ "v\<lparr>mw_status := Write_Pending, mw_owner := None, mw_until := None,
         mw_retry := Some (fst (inp n) + max 0 (retry_delay C (mw_attempts v))), mw_failure := Some (py_take 64 code)\<rparr>"])
       (use that in \<open>simp add: retry_write_def held_here [OF assms] rest_pieces settled_as_def\<close>)
qed

lemma saving_pieces:
  assumes "mw_owner v = Some worker" and "mw_attempts v \<le> 1"
  shows "\<exists>x. write_pieces (Suc (Suc n)) C worker inp (Saving v e) (AList.update (mw_key v) v t) = (Resting, AList.update (mw_key v) x t) \<and> settled_as C v x"
proof -
  let ?v = "v\<lparr>mw_event := Some e, mw_failure := None, mw_until := Some (fst (inp (Suc n)) + wc_lease C)\<rparr>"
  have "save_event_id (wc_lease C) (mw_key v) worker e (fst (inp (Suc n))) (AList.update (mw_key v) v t) = (True, AList.update (mw_key v) ?v t)"
    using assms(1) by (simp add: save_event_id_def held_here)
  moreover have "change_held (mw_key v) worker f (AList.update (mw_key v) ?v t) = (True, AList.update (mw_key v) (f ?v) t)" for f
    using held_here [of ?v worker f t] assms(1) by simp
  ultimately show ?thesis using assms(2)
    by (intro exI [of _ "?v\<lparr>mw_status := Write_Pending, mw_owner := None, mw_until := None,
         mw_retry := Some (fst (inp n) + max 0 (retry_delay C (mw_attempts v))), mw_failure := Some (py_take 64 ''mem0_event_pending'')\<rparr>"])
       (simp add: retry_write_def rest_pieces settled_as_def)
qed

lemma pieces_settle:
  assumes "mw_owner v = Some worker"
  shows "\<exists>x. write_pieces 3 C worker inp (after_claim v) (AList.update (mw_key v) v t) = (Resting, AList.update (mw_key v) x t) \<and> settled_as C v x"
proof -
  note last = last_pieces [OF assms]
  let ?u = "AList.update (mw_key v) v t"
  show ?thesis
  proof (cases "after_claim v")
    case (Reviewing w code)
    then have "w = v" by (auto simp: after_claim_def split: if_splits)
    then show ?thesis using last(1) [where n = "Suc (Suc 0)"] Reviewing unfolding numeral_3_eq_3 by (simp del: write_pieces.simps)
  next
    case (Polling w)
    then have "w = v" by (auto simp: after_claim_def split: if_splits)
    moreover have "\<exists>x. write_pieces (Suc (Suc 0)) C worker inp (after_poll C v a) ?u = (Resting, AList.update (mw_key v) x t) \<and> settled_as C v x" for a
    proof (cases a)
      case (Event_Stable b)
      then show ?thesis using last [where n = "Suc 0"] by (cases b) (simp_all add: after_poll_def del: write_pieces.simps)
    qed (use last(1) [where n = "Suc 0"] in \<open>simp_all add: after_poll_def del: write_pieces.simps\<close>)
    ultimately show ?thesis using Polling unfolding numeral_3_eq_3 write_pieces.simps(2) [of "Suc (Suc 0)"] by (simp del: write_pieces.simps)
  next
    case (Adding w)
    then have w: "w = v" "mw_attempts v \<le> 1" by (auto simp: after_claim_def split: if_splits)
    have "\<exists>x. write_pieces (Suc (Suc 0)) C worker inp (after_add v a) ?u = (Resting, AList.update (mw_key v) x t) \<and> settled_as C v x" for a
    proof (cases a)
      case (Added e)
      then show ?thesis using last(1) [where n = "Suc 0"] saving_pieces [OF assms w(2), where n = 0]
        by (cases "nonempty e") (simp_all add: after_add_def del: write_pieces.simps)
    qed (use last(1) [where n = "Suc 0"] in \<open>simp_all add: after_add_def del: write_pieces.simps\<close>)
    then show ?thesis using Adding w(1) unfolding numeral_3_eq_3 write_pieces.simps(2) [of "Suc (Suc 0)"] by (simp del: write_pieces.simps)
  qed (auto simp: after_claim_def split: if_splits)
qed

lemma pass_works:
  assumes "writes_ok t" and "run_write_once C worker now inp t = (b, u)" and "0 < wc_polls C"
  shows "writes_ok u" and "b \<Longrightarrow> work_left (wc_polls C) u < work_left (wc_polls C) t" and "length u = length t" and "\<not> b \<Longrightarrow> u = t"
proof -
  obtain r u0 where claim: "claim_write (wc_lease C) worker now t = (r, u0)" by (cases "claim_write (wc_lease C) worker now t")
  have "writes_ok u \<and> (b \<longrightarrow> work_left (wc_polls C) u < work_left (wc_polls C) t) \<and> length u = length t \<and> (\<not> b \<longrightarrow> u = t)"
  proof (cases r)
    case None
    then show ?thesis using assms claim by (auto simp: run_write_once_def claim_write_def split: option.splits)
  next
    case (Some v)
    obtain w where w: "map_of t (mw_key w) = Some w" "v = claimed worker (now + wc_lease C) w" "u0 = AList.update (mw_key w) v t"
        "mw_status w \<in> {Write_Pending, Write_Processing}"
      using claim_row [OF assms(1) claim [unfolded Some]] next_write_row(2) [OF assms(1), of now] claim Some
      by (auto simp: claim_write_def split: option.splits intro: next_write_row [OF assms(1)])
    have v: "mw_owner v = Some worker" "mw_status v = Write_Processing" "mw_key v = mw_key w" "mw_attempts v = mw_attempts w + 1"
      by (simp_all add: w(2) claimed_def)
    obtain x where x: "u = AList.update (mw_key v) x t" "mw_key x = mw_key v" "mw_owner x = None" and
        ends: "mw_status x \<in> {Write_Completed, Write_Manual} \<or> mw_attempts x = mw_attempts v \<and> (mw_attempts v < wc_polls C \<or> mw_attempts v \<le> 1)"
      using pieces_settle [OF v(1), of C inp t] w(3) v(3) assms(2) claim Some by (auto simp: run_write_once_def settled_as_def)
    have "tries_left (wc_polls C) x < tries_left (wc_polls C) w"
      using ends w(4) v(4) assms(3) by (auto simp: tries_left_def)
    then have "work_left (wc_polls C) u < work_left (wc_polls C) t"
      using work_left_update [OF w(1), of "wc_polls C" x] x(1) v(3) by simp
    moreover have "writes_ok u" using assms(1) x v(3) by (auto simp: writes_ok_def write_ok_def simp del: map_of_eq_Some_iff)
    moreover have "length u = length t" unfolding x(1) using w(1) v(3) by (intro update_existing_length) (metis map_of_eq_None_iff list.set_map option.distinct(1))
    ultimately show ?thesis using assms(2) claim Some by (auto simp: run_write_once_def)
  qed
  then show "writes_ok u" "b \<Longrightarrow> work_left (wc_polls C) u < work_left (wc_polls C) t" "length u = length t" "\<not> b \<Longrightarrow> u = t" by auto
qed

lemma passes_work:
  assumes "writes_ok t" and "write_passes C worker is t = (bs, u)" and "0 < wc_polls C"
  shows "length (filter id bs) + work_left (wc_polls C) u \<le> work_left (wc_polls C) t"
  using assms(1,2)
proof (induction "is" arbitrary: t bs)
  case (Cons i "is")
  obtain now inp where i: "i = (now, inp)" by (cases i)
  obtain b v where b: "run_write_once C worker now inp t = (b, v)" by (cases "run_write_once C worker now inp t")
  obtain cs where cs: "write_passes C worker is v = (cs, u)" "bs = b # cs"
    using Cons.prems(2) b i by (auto split: prod.splits)
  note pass = pass_works [OF Cons.prems(1) b assms(3)]
  show ?case using Cons.IH [OF pass(1) cs(1)] pass(2,4) cs(2) by (cases b) auto
qed simp

text \<open>
  C36. A worker that is left alone runs out of work: whatever the service answers and whatever the clock says, of any
  number of passes over a table that a session has left, at most \<open>wc_polls + 1\<close> for each write find something
  to do.
\<close>
theorem memory_worker_runs_dry:
  assumes "C = write_config_of lease initial most polls"
    and "write_passes C worker inputs (my_rows (run_all (memory_exec D names) (new_memory n) cs)) = (bs, u)"
  shows "length (filter id bs) \<le> (wc_polls C + 1) * length (my_rows (run_all (memory_exec D names) (new_memory n) cs))"
proof -
  let ?t = "my_rows (run_all (memory_exec D names) (new_memory n) cs)"
  have "writes_ok ?t" using memory.session_inv [OF new_memory_ok, of D names n cs] by (simp add: memory_ok_def)
  moreover have "0 < wc_polls C" using assms(1) by (simp add: write_config_of_def)
  ultimately show ?thesis using passes_work [OF _ assms(2)] work_left_bound [of "wc_polls C" ?t] by fastforce
qed

theorem memory_worker_runs_dry_witness:
  "length (filter id (fst (write_passes (write_config_of 30 2 120 2) ''w'' (map (\<lambda>i. (1000 * int i, \<lambda>j. (1000 * int i, Event_Stable False))) [1..<9])
     (my_rows (run_all (memory_exec demo_config demo_workers) (new_memory 2) (take 1 demo_writes)))))) \<le> 3"
proof -
  let ?t = "my_rows (run_all (memory_exec demo_config demo_workers) (new_memory 2) (take 1 demo_writes))"
  let ?p = "write_passes (write_config_of 30 2 120 2) ''w'' (map (\<lambda>i. (1000 * int i, \<lambda>j. (1000 * int i, Event_Stable False))) [1..<9]) ?t"
  have "length ?t = 1" "wc_polls (write_config_of 30 2 120 2) = 2" by code_simp+
  then show ?thesis using memory_worker_runs_dry [OF refl, of 30 2 120 2 "''w''" _ demo_config demo_workers 2 "take 1 demo_writes" "fst ?p" "snd ?p"] by simp
qed

section \<open>An answer without an event\<close>

text \<open>
  When the service answers a submission with an object that names no event (an empty body is read as one), the
  adapter reports the event \<open>None\<close>, spelled as a word, and the worker saves it and polls for it: the branch that
  leaves a submission without an event to its owner is never taken.
\<close>
lemma missing_event_is_named:
  assumes "m0_available M" and "py_strip content \<noteq> []" and "anonymous_user_id M user \<noteq> []"
    and "\<forall>r. v1_result (m0_http M r) = Some (JObj d)"
    and "\<not> truthy (jget ''event_id'' (JObj d))" and "jget ''id'' (JObj d) = JNull" and "jget ''results'' (JObj d) = JNull"
  shows "mem0_add M user content category key = Some ''None'' \<and>
    after_add w (Added (mem0_add M user content category key)) = Saving w ''None''"
proof -
  have strip: "py_strip ''None'' = ''None''" by code_simp
  have "mem0_add M user content category key = Some ''None''"
    using assms by (simp add: mem0_add_def Let_def v1_request_def event_of_payload_def json_or_def py_str_def strip)
  then show ?thesis by (simp add: after_add_def nonempty_def)
qed

definition demo_mem0 :: mem0 where
  "demo_mem0 = \<lparr>m0_available = True, m0_limit = 5, m0_salt = ''salt'', m0_repr = (\<lambda>j. []), m0_http = (\<lambda>r. Reply 204 False None)\<rparr>"

lemma missing_event_is_named_witness:
  "mem0_add demo_mem0 ''u1'' ''likes tea'' ''preference'' ''k1'' = Some ''None''"
proof -
  have "anonymous_user_id demo_mem0 ''u1'' \<noteq> []" by (simp add: anonymous_user_id_def demo_mem0_def py_strip_def is_space_def)
  moreover have "py_strip ''likes tea'' \<noteq> []" by code_simp
  moreover have "\<forall>r. v1_result (m0_http demo_mem0 r) = Some (JObj [])" by (simp add: demo_mem0_def v1_result_def)
  ultimately show ?thesis
    using missing_event_is_named [of demo_mem0 "''likes tea''" "''u1''" "[]"] by (simp add: demo_mem0_def)
qed

end
