(* ===== verification/Run_Admission.thy ===== *)
theory Run_Admission
  imports Json_Text
begin

text \<open>
  Before a run is created: the budgets of \<^verbatim>\<open>agent_harness/limits.py\<close>, the model profile of
  \<^verbatim>\<open>agent_harness/model_profile.py\<close> and the switch of \<^verbatim>\<open>agent_harness/admission.py\<close>, one row that all
  gateways share.
\<close>

section \<open>Budgets\<close>

definition profile_by_trigger :: "(string, string) dict" where
  "profile_by_trigger =
     [(''user_turn'', ''video_interactive_v1''), (''confirmation_resume'', ''confirmation_resume_v1''),
      (''authorization_resume'', ''confirmation_resume_v1''), (''form_resume'', ''confirmation_resume_v1''),
      (''run_recovery'', ''run_recovery_v1'')]"

record limit_profile =
  lp_profile :: string
  lp_steps :: int
  lp_tools :: int
  lp_billable :: int
  lp_deadline :: int

datatype limit_error = Bad_Fields | Not_Integers | Out_Of_Range | Profile_Missing | No_Profile | Not_Configured

definition limit_digest :: "(string \<Rightarrow> string) \<Rightarrow> (rat \<Rightarrow> string) \<Rightarrow> limit_profile \<Rightarrow> string" where
  "limit_digest H fl p =
     ''sha256:'' @ H (jdump fl True (JObj
       [(''profile'', JStr (lp_profile p)), (''max_model_steps'', JInt (lp_steps p)), (''max_business_tools'', JInt (lp_tools p)),
        (''max_billable_batch_starts'', JInt (lp_billable p)), (''deadline_seconds'', JInt (lp_deadline p))]))"

definition limit_fields :: "string list" where
  "limit_fields = [''deadline_seconds'', ''max_model_steps'', ''max_business_tools'', ''max_billable_batch_starts'']"

definition json_int :: "json \<Rightarrow> int option" where
  "json_int j = (case j of JInt i \<Rightarrow> Some i | _ \<Rightarrow> None)"

definition parse_profile :: "string \<Rightarrow> (string, json) dict \<Rightarrow> limit_error + limit_profile" where
  "parse_profile name d =
     (if name \<notin> set (map snd profile_by_trigger) \<or> set (map fst d) \<noteq> set limit_fields then Inl Bad_Fields
      else (case (json_int (jget ''deadline_seconds'' (JObj d)), json_int (jget ''max_model_steps'' (JObj d)),
                  json_int (jget ''max_business_tools'' (JObj d)), json_int (jget ''max_billable_batch_starts'' (JObj d))) of
        (Some deadline, Some steps, Some tools, Some billable) \<Rightarrow>
          if \<not> (1 \<le> deadline \<and> deadline \<le> 3600) \<or> \<not> (1 \<le> steps \<and> steps \<le> 64) \<or> \<not> (0 \<le> tools \<and> tools \<le> 32) \<or>
             \<not> (0 \<le> billable \<and> billable \<le> 8) then Inl Out_Of_Range
          else Inr \<lparr>lp_profile = name, lp_steps = steps, lp_tools = tools, lp_billable = billable, lp_deadline = deadline\<rparr>
      | _ \<Rightarrow> Inl Not_Integers))"

text \<open>The text of the environment variable is read by \<^verbatim>\<open>json.loads\<close>; \<open>parsed\<close> is what it gives, None for no JSON.\<close>

definition profiles_from_environment :: "string \<Rightarrow> (string \<Rightarrow> json option) \<Rightarrow> limit_error + (string, (string, json) dict) dict" where
  "profiles_from_environment raw loads =
     (if py_strip raw = [] then Inl Not_Configured
      else (case loads (py_strip raw) of
        Some (JObj d) \<Rightarrow>
          if list_all (\<lambda>(k, v). is_obj v) d then Inr (map (\<lambda>(k, v). (k, case v of JObj e \<Rightarrow> e | _ \<Rightarrow> [])) d) else Inl Not_Configured
      | _ \<Rightarrow> Inl Not_Configured))"

type_synonym limit_profiles = "(string, limit_profile) dict"

definition limit_resolver :: "(string, (string, json) dict) dict \<Rightarrow> limit_error + limit_profiles" where
  "limit_resolver source =
     bind_result (fold_result (\<lambda>ps (name, d). bind_result (parse_profile name d) (\<lambda>p. Inr (AList.update name p ps))) [] source) (\<lambda>ps.
       if set (map snd profile_by_trigger) \<subseteq> set (map fst ps) then Inr ps else Inl Profile_Missing)"

definition resolve_limits :: "limit_profiles \<Rightarrow> string \<Rightarrow> limit_error + limit_profile" where
  "resolve_limits ps trigger =
     (case map_of profile_by_trigger trigger of
        None \<Rightarrow> Inl No_Profile
      | Some name \<Rightarrow> (case map_of ps name of None \<Rightarrow> Inl No_Profile | Some p \<Rightarrow> Inr p))"

definition release_limits_digest :: "(string \<Rightarrow> string) \<Rightarrow> (rat \<Rightarrow> string) \<Rightarrow> limit_profiles \<Rightarrow> string" where
  "release_limits_digest H fl ps =
     ''sha256:'' @ H (jdump fl True (JObj (map (\<lambda>(name, p). (name, JObj
       [(''deadline_seconds'', JInt (lp_deadline p)), (''max_model_steps'', JInt (lp_steps p)), (''max_business_tools'', JInt (lp_tools p)),
        (''max_billable_batch_starts'', JInt (lp_billable p))])) ps)))"

section \<open>The model profile\<close>

record model_profile =
  mp_name :: string
  mp_model :: string
  mp_capability :: string
  mp_budget :: string

definition model_digest :: "(string \<Rightarrow> string) \<Rightarrow> (rat \<Rightarrow> string) \<Rightarrow> model_profile \<Rightarrow> string" where
  "model_digest H fl p =
     ''sha256:'' @ H (jdump fl True (JObj
       [(''logical_name'', JStr (mp_name p)), (''model_id'', JStr (mp_model p)), (''capability_version'', JStr (mp_capability p)),
        (''budget_version'', JStr (mp_budget p))]))"

definition model_profile_from :: "(string \<Rightarrow> string) \<Rightarrow> limit_error + model_profile" where
  "model_profile_from env =
     (let vs = map (\<lambda>k. py_strip (env k))
            [''PIXELFLOW_HARNESS_PROFILE_NAME'', ''PIXELFLOW_HARNESS_MODEL_ID'', ''PIXELFLOW_HARNESS_CAPABILITY_VERSION'', ''PIXELFLOW_HARNESS_BUDGET_VERSION''] in
      if list_ex (\<lambda>v. v = [] \<or> py_len v > 120) vs then Inl Not_Configured
      else Inr \<lparr>mp_name = vs ! 0, mp_model = vs ! 1, mp_capability = vs ! 2, mp_budget = vs ! 3\<rparr>)"

section \<open>The switch\<close>

record admission =
  ad_open :: bool
  ad_reason :: string
  ad_rev :: nat
  ad_by :: string

datatype admission_error = Admission_Conflict | Admission_Closed | Admission_Bad_Value

definition allowed_reasons :: "string list" where
  "allowed_reasons = [''startup_default'', ''preflight_verified_open'', ''manual_close'', ''sidecar_unavailable'', ''health_check_failed'']"

definition admission_initialize :: "bool \<Rightarrow> string \<Rightarrow> admission option \<Rightarrow> (admission_error + admission) \<times> admission option" where
  "admission_initialize initial who t =
     (case t of
        None \<Rightarrow> (let a = \<lparr>ad_open = initial, ad_reason = ''startup_default'', ad_rev = 1, ad_by = who\<rparr> in (Inr a, Some a))
      | Some a \<Rightarrow> (Inr a, t))"

definition admission_update ::
  "bool \<Rightarrow> string \<Rightarrow> nat \<Rightarrow> string \<Rightarrow> admission option \<Rightarrow> (admission_error + admission) \<times> admission option" where
  "admission_update target reason expected who t =
     (if reason \<notin> set allowed_reasons then (Inl Admission_Bad_Value, t)
      else if expected < 1 \<or> py_strip who = [] then (Inl Admission_Bad_Value, t)
      else (case t of
        None \<Rightarrow> (Inl Admission_Conflict, t)
      | Some a \<Rightarrow>
          if ad_rev a \<noteq> expected then (Inl Admission_Conflict, t)
          else (let b = \<lparr>ad_open = target, ad_reason = reason, ad_rev = expected + 1, ad_by = who\<rparr> in (Inr b, Some b))))"

definition require_open :: "admission option \<Rightarrow> admission_error + admission" where
  "require_open t = (case t of None \<Rightarrow> Inl Admission_Closed | Some a \<Rightarrow> if ad_open a then Inr a else Inl Admission_Closed)"

text \<open>
  The service reads the row and updates it in a second transaction: \<open>seen\<close> is what it has read. The preflight
  check is the environment's.
\<close>

definition open_after_preflight :: "string \<Rightarrow> admission option \<Rightarrow> admission option \<Rightarrow> (admission_error + admission) \<times> admission option" where
  "open_after_preflight who seen t =
     (case seen of
        None \<Rightarrow> (Inl Admission_Conflict, t)
      | Some a \<Rightarrow> if ad_open a then (Inr a, t) else admission_update True ''preflight_verified_open'' (ad_rev a) who t)"

definition close_after_health_failure :: "nat \<Rightarrow> string \<Rightarrow> admission option \<Rightarrow> (admission_error + unit) \<times> admission option" where
  "close_after_health_failure expected who t =
     (case admission_update False ''health_check_failed'' expected who t of
        (Inl Admission_Conflict, u) \<Rightarrow> (Inr (), u)
      | (Inl er, u) \<Rightarrow> (Inl er, u)
      | (Inr a, u) \<Rightarrow> (Inr (), u))"

datatype admission_cmd =
    Initialize bool string
  | Update_State bool string nat string
  | Open_After_Preflight string "admission option"
  | Close_After_Failure nat string

fun admission_exec :: "admission option \<Rightarrow> admission_cmd \<Rightarrow> (admission_error + unit) \<times> admission option" where
  "admission_exec t (Initialize initial who) = lift_result (\<lambda>_. ()) (admission_initialize initial who t)"
| "admission_exec t (Update_State target reason expected who) = lift_result (\<lambda>_. ()) (admission_update target reason expected who t)"
| "admission_exec t (Open_After_Preflight who seen) = lift_result (\<lambda>_. ()) (open_after_preflight who seen t)"
| "admission_exec t (Close_After_Failure expected who) = close_after_health_failure expected who t"

section \<open>What holds of them\<close>

text \<open>A budget the resolver has read.\<close>

definition limits_ok :: "limit_profile \<Rightarrow> bool" where
  "limits_ok p = (1 \<le> lp_deadline p \<and> lp_deadline p \<le> 3600 \<and> 1 \<le> lp_steps p \<and> lp_steps p \<le> 64 \<and> 0 \<le> lp_tools p \<and> lp_tools p \<le> 32 \<and>
     0 \<le> lp_billable p \<and> lp_billable p \<le> 8)"

lemma parse_profile_ok: "parse_profile name d = Inr p \<Longrightarrow> limits_ok p \<and> lp_profile p = name"
  by (simp add: parse_profile_def limits_ok_def del: jget.simps split: if_splits option.splits) auto

lemma limit_resolver_ok:
  assumes "limit_resolver source = Inr ps" and "map_of ps name = Some p"
  shows "limits_ok p \<and> lp_profile p = name"
proof -
  let ?f = "\<lambda>ps (name, d). bind_result (parse_profile name d) (\<lambda>p. Inr (AList.update name p ps))"
  have fold: "fold_result ?f [] source = Inr ps" using assms(1) by (auto simp: limit_resolver_def bind_result_Inr_iff split: if_splits)
  have "\<forall>name p. map_of ps name = Some p \<longrightarrow> limits_ok p \<and> lp_profile p = name"
  proof (rule fold_result_inv [where P = "\<lambda>ps. \<forall>name p. map_of ps name = Some p \<longrightarrow> limits_ok p \<and> lp_profile p = name", OF _ _ fold])
    fix s x t
    assume "\<forall>name p. map_of s name = Some p \<longrightarrow> limits_ok p \<and> lp_profile p = name" and "?f s x = Inr t"
    then show "\<forall>name p. map_of t name = Some p \<longrightarrow> limits_ok p \<and> lp_profile p = name"
      using parse_profile_ok by (cases x) (auto simp: bind_result_Inr_iff split: if_splits)
  qed simp
  then show ?thesis using assms(2) by blast
qed

text \<open>
  Once the budgets have been read, every kind of run gets one, the one named for it, and no run gets more than
  an hour, 64 steps of the model, 32 calls of business tools or 8 paid batches.
\<close>
lemma budgets_are_bounded:
  assumes "limit_resolver source = Inr ps" and "(trigger, name) \<in> set profile_by_trigger"
  shows "\<exists>p. resolve_limits ps trigger = Inr p \<and> lp_profile p = name \<and> limits_ok p"
proof -
  have known: "map_of profile_by_trigger trigger = Some name" using assms(2) by (auto simp: profile_by_trigger_def)
  have "set (map snd profile_by_trigger) \<subseteq> set (map fst ps)"
    using assms(1) by (auto simp: limit_resolver_def bind_result_Inr_iff split: if_splits)
  then have "name \<in> set (map fst ps)" using assms(2) by force
  then obtain p where "map_of ps name = Some p" by (metis list.set_map map_of_eq_None_iff not_None_eq)
  then show ?thesis using limit_resolver_ok [OF assms(1)] known by (simp add: resolve_limits_def)
qed

definition demo_limits :: "(string, (string, json) dict) dict" where
  "demo_limits = map (\<lambda>(name, n). (name, [(''deadline_seconds'', JInt 600), (''max_model_steps'', JInt 24), (''max_business_tools'', JInt 12),
     (''max_billable_batch_starts'', JInt n)])) [(''video_interactive_v1'', 2), (''confirmation_resume_v1'', 2), (''run_recovery_v1'', 0)]"

lemma budgets_are_bounded_witness:
  "\<exists>ps p. limit_resolver demo_limits = Inr ps \<and> resolve_limits ps ''run_recovery'' = Inr p \<and> limits_ok p"
proof -
  have "is_ok (limit_resolver demo_limits)" by code_simp
  then obtain ps where ps: "limit_resolver demo_limits = Inr ps" by (auto simp: is_ok_def split: sum.splits)
  have "(''run_recovery'', ''run_recovery_v1'') \<in> set profile_by_trigger" by (simp add: profile_by_trigger_def)
  from budgets_are_bounded [OF ps this] ps show ?thesis by blast
qed

text \<open>The revision counts the changes of the switch.\<close>

definition admission_le :: "admission option \<Rightarrow> admission option \<Rightarrow> bool" where
  "admission_le s t = (case s of None \<Rightarrow> True | Some a \<Rightarrow> \<exists>b. t = Some b \<and> ad_rev a \<le> ad_rev b \<and> (ad_rev a = ad_rev b \<longrightarrow> b = a))"

lemma admission_le_refl: "admission_le s s"
  by (simp add: admission_le_def split: option.split)

lemma admission_le_trans: "admission_le s t \<Longrightarrow> admission_le t u \<Longrightarrow> admission_le s u"
  by (auto simp: admission_le_def split: option.splits)

lemma update_le: "admission_le t (snd (admission_update target reason expected who t))"
  by (auto simp: admission_update_def admission_le_def Let_def split: option.splits)

lemma admission_exec_le: "admission_le t (snd (admission_exec t c))"
proof (cases c)
  case (Initialize initial who)
  then show ?thesis by (auto simp: admission_initialize_def admission_le_def Let_def split: option.splits)
next
  case (Open_After_Preflight who seen)
  then show ?thesis using update_le admission_le_refl by (auto simp: open_after_preflight_def split: option.split)
next
  case (Close_After_Failure expected who)
  then show ?thesis using update_le [of t False "''health_check_failed''" expected who]
    by (auto simp: close_after_health_failure_def split: prod.splits sum.splits admission_error.splits)
qed (simp add: update_le)

interpretation admissions: monotone_machine admission_exec "\<lambda>t. True" admission_le
  by unfold_locales (auto intro: admission_le_refl admission_le_trans admission_exec_le)

text \<open>
  C37. However gateways open, close and re-open the switch, a decision that was taken on an older state of it has no
  effect: a report of a failed health check, or the end of a preflight, that names the revision it has seen
  changes the switch only if nobody has changed it since.
\<close>
theorem stale_decision_is_ignored:
  assumes "run_all admission_exec t cs = Some a" and "run_all admission_exec t (cs @ ds) = Some b" and "b \<noteq> a"
  shows "run_all admission_exec t (cs @ ds @ [Close_After_Failure (ad_rev a) who]) = Some b \<and>
    run_all admission_exec t (cs @ ds @ [Open_After_Preflight who (Some a)]) = Some b"
proof -
  have "admission_le (Some a) (Some b)"
    using admissions.session_le [of "Some a" ds] assms(1,2) by (simp add: run_all_append)
  then have "ad_rev b \<noteq> ad_rev a" using assms(3) by (auto simp: admission_le_def)
  then show ?thesis using assms(1,2)
    by (auto simp: run_all_append close_after_health_failure_def open_after_preflight_def admission_update_def)
qed

theorem stale_decision_is_ignored_witness:
  "run_all admission_exec None ([Initialize True ''g1''] @ [Update_State False ''manual_close'' 1 ''g2''] @ [Open_After_Preflight ''g1'' (Some \<lparr>ad_open = True, ad_reason = ''startup_default'', ad_rev = 1, ad_by = ''g1''\<rparr>)]) =
     Some \<lparr>ad_open = False, ad_reason = ''manual_close'', ad_rev = 2, ad_by = ''g2''\<rparr>"
proof -
  have "run_all admission_exec None [Initialize True ''g1''] = Some \<lparr>ad_open = True, ad_reason = ''startup_default'', ad_rev = 1, ad_by = ''g1''\<rparr>"
    "run_all admission_exec None ([Initialize True ''g1''] @ [Update_State False ''manual_close'' 1 ''g2'']) =
       Some \<lparr>ad_open = False, ad_reason = ''manual_close'', ad_rev = 2, ad_by = ''g2''\<rparr>" by code_simp+
  from stale_decision_is_ignored [OF this, of "''g1''"] show ?thesis by simp
qed

end
