(* ===== verification/Run_Bridge.thy ===== *)
theory Run_Bridge
  imports Sidecar_Runs Tool_Laws Run_Admission Conversation_Stores
begin

text \<open>
  The gateway's side of a run: \<^verbatim>\<open>AgentHarnessSidecarClient\<close> of \<^verbatim>\<open>agent_harness/sidecar.py\<close> against the
  routes of the sidecar (\<^verbatim>\<open>sidecar/app.py\<close>), and the recovery of an interrupted run
  (\<^verbatim>\<open>agent_harness/recovery.py\<close>). A recovery is cut at its awaits into pieces over both stores; the network
  may lose a request or its answer. Signing the service token is left out, and so is the callback between the
  binding and the activation: it binds a credential grant, and a recovery carries none.
\<close>

section \<open>Requests\<close>

record harness_request =
  hq_user :: string
  hq_conv :: string
  hq_ws :: string
  hq_rev :: int
  hq_trigger :: string
  hq_type :: string
  hq_input :: string
  hq_instruction :: string
  hq_context :: string
  hq_model :: string
  hq_budget :: string
  hq_limits :: string
  hq_profile :: string
  hq_steps :: int
  hq_tools :: int
  hq_billable :: int
  hq_deadline :: int
  hq_model_name :: string
  hq_output :: int
  hq_projections :: "json \<times> json \<times> json \<times> json \<times> json"

text \<open>The field constraints of \<^verbatim>\<open>HarnessRunRequest\<close>; the trigger type is one of those of \<open>profile_by_trigger\<close>.\<close>

definition harness_request_ok :: "harness_request \<Rightarrow> bool" where
  "harness_request_ok q =
     (list_all (\<lambda>s. s \<noteq> [] \<and> int (py_len s) \<le> 64) [hq_user q, hq_conv q, hq_ws q] \<and> 1 \<le> hq_rev q \<and>
      hq_trigger q \<noteq> [] \<and> int (py_len (hq_trigger q)) \<le> 200 \<and> hq_type q \<in> set (map fst profile_by_trigger) \<and>
      list_all (\<lambda>s. s \<noteq> [] \<and> int (py_len s) \<le> 32000) [hq_input q, hq_instruction q] \<and>
      list_all sha_check [hq_context q, hq_model q, hq_budget q, hq_limits q] \<and>
      list_all (\<lambda>s. s \<noteq> [] \<and> int (py_len s) \<le> 120) [hq_profile q, hq_model_name q] \<and>
      1 \<le> hq_steps q \<and> hq_steps q \<le> 64 \<and> 0 \<le> hq_tools q \<and> hq_tools q \<le> 32 \<and> 0 \<le> hq_billable q \<and> hq_billable q \<le> 8 \<and>
      1 \<le> hq_deadline q \<and> hq_deadline q \<le> 3600 \<and> 1 \<le> hq_output q \<and> hq_output q \<le> 131072)"

definition bridge_session :: "(string \<Rightarrow> string) \<Rightarrow> string \<Rightarrow> string \<Rightarrow> string" where
  "bridge_session H ty trigger = ''pfh_'' @ take 32 (H (''v1:'' @ ty @ '':'' @ trigger))"

definition run_request_key :: "(string \<Rightarrow> string) \<Rightarrow> string \<Rightarrow> string \<Rightarrow> string" where
  "run_request_key H ty trigger = ''sha256:'' @ H (''dev:'' @ ty @ '':'' @ trigger @ '':v1'')"

definition bridge_digest :: "(string \<Rightarrow> string) \<Rightarrow> (rat \<Rightarrow> string) \<Rightarrow> string \<Rightarrow> harness_request \<Rightarrow> string" where
  "bridge_digest H fl manifest q =
     ''sha256:'' @ H (jdump fl True (JObj
       [(''workspace_revision'', JInt (hq_rev q)), (''context_digest'', JStr (hq_context q)), (''model_profile_digest'', JStr (hq_model q)),
        (''context_budget_digest'', JStr (hq_budget q)), (''run_limits_digest'', JStr (hq_limits q)),
        (''toolset_version'', JStr ''agent-tools-v1''), (''tool_manifest_digest'', JStr manifest)]))"

definition sidecar_body :: "(string \<Rightarrow> string) \<Rightarrow> (rat \<Rightarrow> string) \<Rightarrow> string \<Rightarrow> harness_request \<Rightarrow> json" where
  "sidecar_body H fl manifest q = (case hq_projections q of (ws, conv, pref, brand, memory) \<Rightarrow>
     JObj
       [(''protocol_version'', JStr ''v1''), (''run_request_key'', JStr (run_request_key H (hq_type q) (hq_trigger q))),
        (''request_digest'', JStr (bridge_digest H fl manifest q)), (''session_id'', JStr (bridge_session H (hq_type q) (hq_trigger q))),
        (''trigger'', JObj [(''type'', JStr (hq_type q)), (''trigger_id'', JStr (hq_trigger q))]),
        (''binding'', JObj [(''conversation_ref'', JStr (''opaque:'' @ H (hq_conv q))), (''workspace_ref'', JStr (''opaque:'' @ H (hq_ws q))),
                            (''workspace_revision'', JInt (hq_rev q)), (''context_digest'', JStr (hq_context q))]),
        (''model'', JObj [(''profile_name'', JStr (hq_model_name q)), (''profile_digest'', JStr (hq_model q)),
                          (''max_output_tokens'', JInt (hq_output q))]),
        (''context_budget'', JObj [(''effective_context_k'', JInt 896), (''output_reserve_k'', JInt 32), (''safety_reserve_k'', JInt 32),
                                   (''require_verified_model_profile'', JBool True), (''policy_digest'', JStr (hq_budget q))]),
        (''limits'', JObj [(''profile'', JStr (hq_profile q)), (''digest'', JStr (hq_limits q)), (''max_model_steps'', JInt (hq_steps q)),
                           (''max_business_tools'', JInt (hq_tools q)), (''max_billable_batch_starts'', JInt (hq_billable q)),
                           (''deadline_seconds'', JInt (hq_deadline q))]),
        (''toolset'', JObj [(''version'', JStr ''agent-tools-v1''), (''manifest_digest'', JStr manifest)]),
        (''context'', JObj [(''system_instruction'', JStr (hq_instruction q)), (''user_input'', JStr (hq_input q)), (''workspace_projection'', ws),
                            (''conversation_projection'', conv), (''preference_projection'', pref), (''brand_profile_projection'', brand),
                            (''long_term_memory_projection'', memory)])])"

text \<open>What the sidecar's store reads of a request.\<close>

definition body_request :: "json \<Rightarrow> run_request" where
  "body_request body =
     (let str = (\<lambda>j. case j of JStr s \<Rightarrow> s | _ \<Rightarrow> [])
      in \<lparr>rq_key = str (jget ''run_request_key'' body), rq_digest = str (jget ''request_digest'' body)\<rparr>)"

definition request_binding :: "(string \<Rightarrow> string) \<Rightarrow> (rat \<Rightarrow> string) \<Rightarrow> string \<Rightarrow> harness_request \<Rightarrow> string \<Rightarrow> run_binding" where
  "request_binding H fl manifest q rid =
     \<lparr>rb_run = rid, rb_session = bridge_session H (hq_type q) (hq_trigger q), rb_user = hq_user q, rb_conv = hq_conv q, rb_ws = hq_ws q,
      rb_rev = hq_rev q, rb_context = hq_context q, rb_toolset = ''agent-tools-v1'', rb_manifest = manifest,
      rb_request = bridge_digest H fl manifest q\<rparr>"

definition get_owned_binding :: "string \<Rightarrow> string \<Rightarrow> string \<Rightarrow> tool_store \<Rightarrow> run_binding option" where
  "get_owned_binding user conv run s =
     (case get_run_binding s run of None \<Rightarrow> None | Some b \<Rightarrow> if rb_user b \<noteq> user \<or> rb_conv b \<noteq> conv then None else Some b)"

section \<open>The routes of the sidecar\<close>

text \<open>The status code, and the identity of the run in the body of a 202.\<close>

definition create_reply :: "svc_error + run_row \<Rightarrow> nat \<times> string option" where
  "create_reply r =
     (case r of
        Inr row \<Rightarrow> (202, Some (rr_id row))
      | Inl (Svc_Store RunRequestConflict) \<Rightarrow> (409, None)
      | Inl (Svc_Store er) \<Rightarrow> (500, None)
      | Inl er \<Rightarrow> (422, None))"

definition activate_reply :: "svc_error + run_row option \<Rightarrow> nat" where
  "activate_reply r = (case r of Inr (Some row) \<Rightarrow> 200 | Inr None \<Rightarrow> 404 | Inl Activation_Missing \<Rightarrow> 409 | Inl er \<Rightarrow> 500)"

datatype fate = Lost_Before | Lost_After | Delivered

section \<open>Recovery\<close>

record bridge_env =
  be_hash :: "string \<Rightarrow> string"
  be_float :: "rat \<Rightarrow> string"
  be_manifest :: string
  be_instruction :: string
  be_model :: model_profile
  be_limits :: "limit_error + limit_profiles"

text \<open>What a piece reads from outside the two stores: the page of messages, the workspace, the network, the sidecar's engine.\<close>

record piece_input =
  pi_messages :: "conv_message list"
  pi_workspace :: "(string \<times> string \<times> int) option"
  pi_fate :: fate
  pi_now :: string
  pi_valid :: bool
  pi_skills :: "skill_error + skill_catalog"
  pi_engine :: "string \<times> string"

datatype bridge_error =
    Not_Owned
  | Unreachable
  | Refused
  | Misconfigured
  | Store_Failed tool_error
  | Limits_Failed limit_error
  | Request_Rejected

datatype rec_phase =
    Rec_Idle
  | Rec_Begin string string string
  | Rec_Check string string string recovery
  | Rec_Review string
  | Rec_Read string string string recovery
  | Rec_Post harness_request string
  | Rec_Bind harness_request string string
  | Rec_Activate string string
  | Rec_Link string string
  | Rec_Done string "bridge_error + recovery"

definition source_message :: "string \<Rightarrow> conv_message list \<Rightarrow> conv_message option" where
  "source_message run ms =
     List.find (\<lambda>m. cm_role m = ''user'' \<and> py_eq (jget ''harness_run_id'' (cm_payload m)) (JStr run)) (rev ms)"

definition digest_of :: "bridge_env \<Rightarrow> json \<Rightarrow> string" where
  "digest_of E j = ''sha256:'' @ be_hash E (jdump (be_float E) True j)"

definition recovery_request :: "bridge_env \<Rightarrow> string \<Rightarrow> string \<Rightarrow> string \<Rightarrow> recovery \<Rightarrow> conv_message \<Rightarrow> string \<Rightarrow> int \<Rightarrow> bridge_error + harness_request" where
  "recovery_request E user conv run r m ws rv =
     (case bind_result (be_limits E) (\<lambda>ps. resolve_limits ps ''run_recovery'') of
        Inl er \<Rightarrow> Inl (Limits_Failed er)
      | Inr limits \<Rightarrow>
          (let q = \<lparr>hq_user = user, hq_conv = conv, hq_ws = ws, hq_rev = rv, hq_trigger = hr_event r, hq_type = ''run_recovery'',
                    hq_input = cm_content m, hq_instruction = be_instruction E,
                    hq_context = digest_of E (JObj [(''recovery_event_id'', JStr (hr_event r)), (''parent_run_id'', JStr run),
                                                    (''workspace_id'', JStr ws), (''workspace_revision'', JInt rv)]),
                    hq_model = model_digest (be_hash E) (be_float E) (be_model E),
                    hq_budget = digest_of E (JObj [(''effective_context_k'', JInt 896), (''output_reserve_k'', JInt 32), (''safety_reserve_k'', JInt 32)]),
                    hq_limits = limit_digest (be_hash E) (be_float E) limits, hq_profile = lp_profile limits, hq_steps = lp_steps limits,
                    hq_tools = lp_tools limits, hq_billable = lp_billable limits, hq_deadline = lp_deadline limits,
                    hq_model_name = mp_name (be_model E), hq_output = 32768,
                    hq_projections = (JObj [], JObj [], JObj [], JObj [], JList [])\<rparr>
           in if harness_request_ok q then Inr q else Inl Request_Rejected))"

text \<open>The two requests of \<^verbatim>\<open>create_and_bind\<close>.\<close>

definition post_run :: "bridge_env \<Rightarrow> piece_input \<Rightarrow> harness_request \<Rightarrow> service \<Rightarrow> (bridge_error + string) \<times> service" where
  "post_run E inp q v =
     (if pi_fate inp = Lost_Before then (Inl Unreachable, v)
      else (case create_run (be_hash E) (pi_now inp) (pi_valid inp) (pi_skills inp) (fst (pi_engine inp)) (snd (pi_engine inp))
                   (body_request (sidecar_body (be_hash E) (be_float E) (be_manifest E) q)) v of
        (res, v') \<Rightarrow>
          (if pi_fate inp = Lost_After then Inl Unreachable
           else (case create_reply res of
                   (status, rid) \<Rightarrow>
                     if status = 422 then Inl Misconfigured
                     else if status \<noteq> 202 then Inl Refused
                     else (case rid of None \<Rightarrow> Inl Refused | Some i \<Rightarrow> Inr i)), v')))"

definition post_activation :: "piece_input \<Rightarrow> string \<Rightarrow> service \<Rightarrow> (bridge_error + unit) \<times> service" where
  "post_activation inp i v =
     (if pi_fate inp = Lost_Before then (Inl Unreachable, v)
      else (case activate_run i v of
        (res, v') \<Rightarrow>
          (if pi_fate inp = Lost_After then Inl Unreachable else if activate_reply res = 200 then Inr () else Inl Refused, v')))"

type_synonym stores = "tool_store \<times> service"

fun rec_piece :: "bridge_env \<Rightarrow> piece_input \<Rightarrow> rec_phase \<Rightarrow> stores \<Rightarrow> rec_phase \<times> stores" where
  "rec_piece E inp Rec_Idle w = (Rec_Idle, w)"
| "rec_piece E inp (Rec_Done run res) w = (Rec_Done run res, w)"
| "rec_piece E inp (Rec_Begin user conv run) (t, v) =
     (case get_owned_binding user conv run t of
        None \<Rightarrow> (Rec_Done run (Inl Not_Owned), t, v)
      | Some b \<Rightarrow>
          (case get_or_create_recovery (be_hash E) run t of
             (Inl er, t') \<Rightarrow> (Rec_Done run (Inl (Store_Failed er)), t', v)
           | (Inr r, t') \<Rightarrow> (if hr_status r = Pending then Rec_Check user conv run r else Rec_Done run (Inr r), t', v)))"
| "rec_piece E inp (Rec_Check user conv run r) (t, v) =
     (if has_tool_calls t run then (Rec_Review run, t, v) else (Rec_Read user conv run r, t, v))"
| "rec_piece E inp (Rec_Review run) (t, v) =
     (case mark_recovery_manual_review run t of
        (Inl er, t') \<Rightarrow> (Rec_Done run (Inl (Store_Failed er)), t', v)
      | (Inr r, t') \<Rightarrow> (Rec_Done run (Inr r), t', v))"
| "rec_piece E inp (Rec_Read user conv run r) (t, v) =
     (case (source_message run (pi_messages inp), pi_workspace inp) of
        (Some m, Some (ws, owner, rv)) \<Rightarrow>
          if owner \<noteq> conv then (Rec_Review run, t, v)
          else (case recovery_request E user conv run r m ws rv of
                  Inl er \<Rightarrow> (Rec_Done run (Inl er), t, v)
                | Inr q \<Rightarrow> (Rec_Post q run, t, v))
      | _ \<Rightarrow> (Rec_Review run, t, v))"
| "rec_piece E inp (Rec_Post q run) (t, v) =
     (case post_run E inp q v of
        (Inl er, v') \<Rightarrow> (Rec_Done run (Inl er), t, v')
      | (Inr i, v') \<Rightarrow> (Rec_Bind q run i, t, v'))"
| "rec_piece E inp (Rec_Bind q run i) (t, v) =
     (case register_run_binding (request_binding (be_hash E) (be_float E) (be_manifest E) q i) t of
        (Inl er, t') \<Rightarrow> (Rec_Done run (Inl (Store_Failed er)), t', v)
      | (Inr b, t') \<Rightarrow> (Rec_Activate run i, t', v))"
| "rec_piece E inp (Rec_Activate run i) (t, v) =
     (case post_activation inp i v of
        (Inl er, v') \<Rightarrow> (Rec_Done run (Inl er), t, v')
      | (Inr _, v') \<Rightarrow> (Rec_Link run i, t, v'))"
| "rec_piece E inp (Rec_Link run i) (t, v) =
     (case bind_recovery_run run i t of
        (Inl er, t') \<Rightarrow> (Rec_Done run (Inl (Store_Failed er)), t', v)
      | (Inr r, t') \<Rightarrow> (Rec_Done run (Inr r), t', v))"

section \<open>Gateways, the sidecar and everybody else\<close>

record bridge_system =
  bs_tools :: tool_store
  bs_svc :: service
  bs_calls :: "rec_phase list"

fun recovery_cmd :: "tool_cmd \<Rightarrow> bool" where
  "recovery_cmd (Recovery_Event run) = True"
| "recovery_cmd (Recovery_Manual run) = True"
| "recovery_cmd (Recovery_Bind run new) = True"
| "recovery_cmd c = False"

inductive bridge_step :: "bridge_env \<Rightarrow> bridge_system \<Rightarrow> bridge_system \<Rightarrow> bool" for E where
  request: "i < length (bs_calls s) \<Longrightarrow> bridge_step E s (s\<lparr>bs_calls := (bs_calls s)[i := Rec_Begin user conv run]\<rparr>)"
| piece: "i < length (bs_calls s) \<Longrightarrow> rec_piece E inp (bs_calls s ! i) (bs_tools s, bs_svc s) = (p, t, v) \<Longrightarrow>
    bridge_step E s (s\<lparr>bs_tools := t, bs_svc := v, bs_calls := (bs_calls s)[i := p]\<rparr>)"
| crash: "bridge_step E s (s\<lparr>bs_calls := (bs_calls s)[i := Rec_Idle]\<rparr>)"
| sidecar: "svc_step (be_hash E) (bs_svc s) v \<Longrightarrow> bridge_step E s (s\<lparr>bs_svc := v\<rparr>)"
| others: "\<not> recovery_cmd c \<Longrightarrow> bridge_step E s (s\<lparr>bs_tools := snd (tool_exec (be_hash E) (bs_tools s) c)\<rparr>)"

inductive_cases bridge_stepE: "bridge_step E s t"

definition new_bridge :: "nat \<Rightarrow> bridge_system" where
  "new_bridge n = \<lparr>bs_tools = empty_tools, bs_svc = init_service, bs_calls = replicate n Rec_Idle\<rparr>"

end
