(* ===== verification/Bridge_Claims.thy ===== *)
theory Bridge_Claims
  imports Run_Bridge
begin

text \<open>
  Properties of the recovery of runs, over the gateway's store and the sidecar's, for any number of recoveries that
  interleave, crash and lose messages.
\<close>

section \<open>Runs the sidecar knows\<close>

definition run_known :: "store \<Rightarrow> string \<Rightarrow> string \<Rightarrow> string \<Rightarrow> bool" where
  "run_known s i key d = (\<exists>r \<in> set (st_runs s). rr_id r = i \<and> rr_key r = key \<and> rr_digest r = d)"

lemma run_known_le: "store_le s t \<Longrightarrow> run_known s i key d \<Longrightarrow> run_known t i key d"
proof -
  assume le: "store_le s t" and "run_known s i key d"
  then obtain r where r: "r \<in> set (st_runs s)" "rr_id r = i" "rr_key r = key" "rr_digest r = d" by (auto simp: run_known_def)
  have "prefix (map run_identity (st_runs s)) (map run_identity (st_runs t))" using le by (simp add: store_le_def)
  then have "set (map run_identity (st_runs s)) \<subseteq> set (map run_identity (st_runs t))" by (rule set_mono_prefix)
  then have "run_identity r \<in> set (map run_identity (st_runs t))" using r(1) by auto
  then show ?thesis using r by (auto simp: run_known_def run_identity_def)
qed

lemma known_key:
  assumes "run_inv H s" and "run_known s i key d"
  shows "\<exists>r. run_by_key s key = Some r \<and> rr_id r = i \<and> rr_digest r = d" and "i = run_id_for H key"
proof -
  obtain r where r: "r \<in> set (st_runs s)" "rr_id r = i" "rr_key r = key" "rr_digest r = d" using assms(2) by (auto simp: run_known_def)
  have ok: "runs_ok H s" using assms(1) by (simp add: run_inv_def store_inv_def)
  obtain q where q: "run_by_key s key = Some q"
    using r(1,3) find_None_all [of "\<lambda>r. rr_key r = key" "st_runs s"] by (cases "run_by_key s key") (auto simp: run_by_key_def)
  then have "q \<in> set (st_runs s)" "rr_key q = key" using find_Some_in [of "\<lambda>r. rr_key r = key"] by (auto simp: run_by_key_def)
  then have "q = r" using ok r(1,3) by (auto simp: runs_ok_def distinct_map inj_on_def)
  then show "\<exists>r. run_by_key s key = Some r \<and> rr_id r = i \<and> rr_digest r = d" using q r by auto
  show "i = run_id_for H key" using ok r by (auto simp: runs_ok_def row_ok_def)
qed

lemma created_known:
  assumes "create_run H now valid snap eid ever rq v = (Inr r, v')" and "run_inv H (sv_store v)"
  shows "run_known (sv_store v') (rr_id r) (rq_key rq) (rq_digest rq)" and "rr_id r = run_id_for H (rq_key rq)"
proof -
  have step: "svc_step H v v'" using svc_step.create [of H v now valid snap eid ever rq] assms(1) by simp
  have inv: "run_inv H (sv_store v')" using svc_step_good [OF step] assms(2) by (simp add: good_step_def)
  have old: "rr_key q = rq_key rq \<and> q \<in> set (st_runs (sv_store v))" if "run_by_key (sv_store v) (rq_key rq) = Some q" for q
    using find_Some_in [of "\<lambda>r. rr_key r = rq_key rq" "st_runs (sv_store v)" q] that by (simp add: run_by_key_def)
  have runs: "insert_skills xs s = (res, t) \<Longrightarrow> st_runs t = st_runs s" for xs s res t
    by (induction xs arbitrary: s) (auto split: if_splits)
  have "run_known (sv_store v') (rr_id r) (rq_key rq) (rq_digest rq)"
  proof (cases "run_by_key (sv_store v) (rq_key rq)")
    case (Some q)
    then show ?thesis using assms(1) old [OF Some]
      by (auto simp: create_run_def get_by_request_def create_or_get_def run_known_def split: if_splits sum.splits)
  next
    case None
    then show ?thesis using assms(1)
      by (auto simp: create_run_def get_by_request_def create_or_get_def run_known_def new_run_def Let_def append_locked_def
          dest!: runs split: if_splits sum.splits prod.splits)
  qed
  then show "run_known (sv_store v') (rr_id r) (rq_key rq) (rq_digest rq)" "rr_id r = run_id_for H (rq_key rq)"
    using known_key(2) [OF inv] by blast+
qed

section \<open>The invariant\<close>

definition recovery_key :: "bridge_env \<Rightarrow> string \<Rightarrow> string" where
  "recovery_key E run = run_request_key (be_hash E) ''run_recovery'' (recovery_id (be_hash E) run)"

definition recovery_run :: "bridge_env \<Rightarrow> string \<Rightarrow> string" where
  "recovery_run E run = run_id_for (be_hash E) (recovery_key E run)"

definition recovered_as :: "bridge_env \<Rightarrow> store \<Rightarrow> string \<Rightarrow> string \<Rightarrow> bool" where
  "recovered_as E s run i = (i = recovery_run E run \<and> (\<exists>d. run_known s i (recovery_key E run) d))"

definition event_right :: "bridge_env \<Rightarrow> store \<Rightarrow> string \<Rightarrow> recovery \<Rightarrow> bool" where
  "event_right E s run r = (hr_event r = recovery_id (be_hash E) run \<and> (\<forall>i. hr_new r = Some i \<longrightarrow> recovered_as E s run i))"

fun phase_right :: "bridge_env \<Rightarrow> store \<Rightarrow> rec_phase \<Rightarrow> bool" where
  "phase_right E s (Rec_Check user conv run r) = event_right E s run r"
| "phase_right E s (Rec_Read user conv run r) = event_right E s run r"
| "phase_right E s (Rec_Post q run) = (hq_type q = ''run_recovery'' \<and> hq_trigger q = recovery_id (be_hash E) run)"
| "phase_right E s (Rec_Bind q run i) = recovered_as E s run i"
| "phase_right E s (Rec_Activate run i) = recovered_as E s run i"
| "phase_right E s (Rec_Link run i) = recovered_as E s run i"
| "phase_right E s (Rec_Done run (Inr r)) = event_right E s run r"
| "phase_right E s p = True"

definition bridge_ok :: "bridge_env \<Rightarrow> bridge_system \<Rightarrow> bool" where
  "bridge_ok E s =
     (run_inv (be_hash E) (sv_store (bs_svc s)) \<and>
      (\<forall>run r. map_of (ts_recoveries (bs_tools s)) run = Some r \<longrightarrow> event_right E (sv_store (bs_svc s)) run r) \<and>
      (\<forall>p \<in> set (bs_calls s). phase_right E (sv_store (bs_svc s)) p))"

lemma recovered_le: "store_le s t \<Longrightarrow> recovered_as E s run i \<Longrightarrow> recovered_as E t run i"
  unfolding recovered_as_def using run_known_le [of s t] by blast

lemma event_right_le: "store_le s t \<Longrightarrow> event_right E s run r \<Longrightarrow> event_right E t run r"
  using recovered_le by (auto simp: event_right_def)

lemma phase_right_le: "store_le s t \<Longrightarrow> phase_right E s p \<Longrightarrow> phase_right E t p"
  by (cases "(E, s, p)" rule: phase_right.cases) (auto intro: event_right_le recovered_le)

lemma svc_moves:
  assumes "svc_step H v v'" and "run_inv H (sv_store v)"
  shows "store_le (sv_store v) (sv_store v')" and "run_inv H (sv_store v')"
  using svc_step_good [OF assms(1)] assms(2) by (simp_all add: good_step_def)

lemma request_read: "hq_type q = ty \<Longrightarrow> hq_trigger q = trigger \<Longrightarrow>
  body_request (sidecar_body H fl manifest q) = \<lparr>rq_key = run_request_key H ty trigger, rq_digest = bridge_digest H fl manifest q\<rparr>"
  by (simp add: body_request_def sidecar_body_def split: prod.split)

lemma recovery_request_of:
  "recovery_request E user conv run r m ws rv = Inr q \<Longrightarrow> hq_type q = ''run_recovery'' \<and> hq_trigger q = hr_event r \<and> hq_rev q = rv"
  by (auto simp: recovery_request_def Let_def split: sum.splits if_splits)

lemma binding_recoveries [simp]: "ts_recoveries (snd (register_run_binding b t)) = ts_recoveries t"
  by (auto simp: register_run_binding_def split: option.split)

lemma others_recoveries: "\<not> recovery_cmd c \<Longrightarrow> ts_recoveries (snd (tool_exec H t c)) = ts_recoveries t"
  by (cases c) (auto simp: get_or_create_interrupt_def respond_interrupt_def cancel_interrupt_def bind_interrupt_resume_run_def
      claim_tool_call_def complete_tool_call_def Let_def split: option.splits)

text \<open>One piece: it is a step of the sidecar or none, and what it leaves is right.\<close>

lemma piece_svc:
  assumes "rec_piece E inp p (t, v) = (q, t', v')"
  shows "v' = v \<or> svc_step (be_hash E) v v'"
proof (cases p)
  case (Rec_Post rq run)
  then have "v' = v \<or> v' = snd (create_run (be_hash E) (pi_now inp) (pi_valid inp) (pi_skills inp) (fst (pi_engine inp)) (snd (pi_engine inp))
      (body_request (sidecar_body (be_hash E) (be_float E) (be_manifest E) rq)) v)"
    using assms by (auto simp: post_run_def case_prod_beta split: if_splits sum.splits)
  then show ?thesis by (metis svc_step.create)
next
  case (Rec_Activate run i)
  then have "v' = v \<or> v' = snd (activate_run i v)" using assms by (auto simp: post_activation_def case_prod_beta split: if_splits sum.splits)
  then show ?thesis by (metis svc_step.activate)
qed (use assms in \<open>auto simp: case_prod_beta split: if_splits option.splits sum.splits\<close>)

lemma piece_right:
  assumes "rec_piece E inp p (t, v) = (q, t', v')" and "run_inv (be_hash E) (sv_store v)"
    and "\<forall>run r. map_of (ts_recoveries t) run = Some r \<longrightarrow> event_right E (sv_store v) run r" and "phase_right E (sv_store v) p"
  shows "phase_right E (sv_store v') q \<and> (\<forall>run r. map_of (ts_recoveries t') run = Some r \<longrightarrow> event_right E (sv_store v') run r)"
proof (cases p)
  case (Rec_Begin user conv run)
  then show ?thesis using assms
    by (auto simp: get_or_create_recovery_def event_right_def Let_def split: option.splits if_splits simp del: map_of_eq_Some_iff)
next
  case (Rec_Review run)
  then show ?thesis using assms
    by (auto simp: mark_recovery_manual_review_def event_right_def Let_def split: option.splits if_splits simp del: map_of_eq_Some_iff)
next
  case (Rec_Read user conv run r)
  then show ?thesis using assms
    by (auto simp: event_right_def dest!: recovery_request_of split: option.splits if_splits sum.splits)
next
  case (Rec_Post rq run)
  have step: "v' = v \<or> svc_step (be_hash E) v v'" using piece_svc [OF assms(1)] .
  then have le: "store_le (sv_store v) (sv_store v')" using svc_moves assms(2) store_le_refl by metis
  have "t' = t" using assms(1) Rec_Post by (auto split: prod.splits sum.splits)
  then have events: "\<forall>run r. map_of (ts_recoveries t') run = Some r \<longrightarrow> event_right E (sv_store v') run r"
    using assms(3) event_right_le [OF le] by blast
  have read: "body_request (sidecar_body (be_hash E) (be_float E) (be_manifest E) rq) =
      \<lparr>rq_key = recovery_key E run, rq_digest = bridge_digest (be_hash E) (be_float E) (be_manifest E) rq\<rparr>"
    using assms(4) Rec_Post request_read [of rq "''run_recovery''"] by (simp add: recovery_key_def)
  obtain res w where rw: "create_run (be_hash E) (pi_now inp) (pi_valid inp) (pi_skills inp) (fst (pi_engine inp)) (snd (pi_engine inp))
      \<lparr>rq_key = recovery_key E run, rq_digest = bridge_digest (be_hash E) (be_float E) (be_manifest E) rq\<rparr> v = (res, w)" by fastforce
  have "phase_right E (sv_store v') q"
  proof (cases res)
    case (Inl er)
    then show ?thesis using assms(1) Rec_Post read rw
      by (auto simp: post_run_def create_reply_def split: if_splits sum.splits svc_error.splits store_error.splits)
  next
    case (Inr r)
    have "recovered_as E (sv_store w) run (rr_id r)"
      using created_known [OF rw [unfolded Inr] assms(2)] by (auto simp: recovered_as_def recovery_run_def)
    then show ?thesis using assms(1) Rec_Post read rw Inr by (auto simp: post_run_def create_reply_def split: if_splits sum.splits)
  qed
  then show ?thesis using events by blast
next
  case (Rec_Activate run i)
  have "t' = t" "q = Rec_Done run (Inl Unreachable) \<or> q = Rec_Done run (Inl Refused) \<or> q = Rec_Link run i"
    using assms(1) Rec_Activate by (auto simp: post_activation_def case_prod_beta split: if_splits sum.splits)
  moreover have "v' = v \<or> svc_step (be_hash E) v v'" using piece_svc [OF assms(1)] .
  then have "store_le (sv_store v) (sv_store v')" using svc_moves assms(2) store_le_refl by metis
  ultimately show ?thesis using assms(3,4) Rec_Activate event_right_le recovered_le by fastforce
next
  case (Rec_Bind rq run i)
  then show ?thesis using assms binding_recoveries [of _ t]
    by (cases "register_run_binding (request_binding (be_hash E) (be_float E) (be_manifest E) rq i) t")
       (auto split: sum.splits dest!: arg_cong [where f = snd] simp del: binding_recoveries)
next
  case (Rec_Link run i)
  then show ?thesis using assms
    by (auto simp: bind_recovery_run_def event_right_def Let_def split: option.splits if_splits simp del: map_of_eq_Some_iff)
qed (use assms in \<open>auto split: if_splits\<close>)

lemma bridge_step_ok:
  assumes "bridge_step E s s'" and "bridge_ok E s"
  shows "bridge_ok E s' \<and> store_le (sv_store (bs_svc s)) (sv_store (bs_svc s'))"
  using assms(1)
proof (cases rule: bridge_step.cases)
  case (request i user conv run)
  then show ?thesis using assms(2) store_le_refl by (auto simp: bridge_ok_def dest!: set_update_subset_insert [THEN subsetD])
next
  case (piece i inp p t v)
  have ok: "run_inv (be_hash E) (sv_store (bs_svc s))" "\<forall>p \<in> set (bs_calls s). phase_right E (sv_store (bs_svc s)) p"
    and events: "\<forall>run r. map_of (ts_recoveries (bs_tools s)) run = Some r \<longrightarrow> event_right E (sv_store (bs_svc s)) run r"
    using assms(2) by (auto simp: bridge_ok_def)
  have "bs_svc s' = v" "bs_tools s' = t" "bs_calls s' = (bs_calls s)[i := p]" using piece(1) by simp_all
  moreover have "store_le (sv_store (bs_svc s)) (sv_store v)" "run_inv (be_hash E) (sv_store v)"
    using piece_svc [OF piece(3)] svc_moves ok(1) store_le_refl by metis+
  moreover have "phase_right E (sv_store v) p \<and> (\<forall>run r. map_of (ts_recoveries t) run = Some r \<longrightarrow> event_right E (sv_store v) run r)"
    by (rule piece_right [OF piece(3) ok(1) events]) (use ok(2) piece(2) in simp)
  ultimately show ?thesis using ok(2) phase_right_le by (auto simp: bridge_ok_def dest!: set_update_subset_insert [THEN subsetD])
next
  case (crash i)
  then show ?thesis using assms(2) store_le_refl by (auto simp: bridge_ok_def dest!: set_update_subset_insert [THEN subsetD])
next
  case (sidecar v)
  then show ?thesis using svc_moves [OF sidecar(2)] assms(2) event_right_le phase_right_le by (fastforce simp: bridge_ok_def)
next
  case (others c)
  then show ?thesis using assms(2) store_le_refl others_recoveries by (simp add: bridge_ok_def)
qed

lemma new_bridge_ok: "bridge_ok E (new_bridge n)"
  using reachable_run_inv [OF svc_reachable.start] by (simp add: bridge_ok_def new_bridge_def empty_tools_def)

lemma bridge_reach: "(bridge_step E)\<^sup>*\<^sup>* s t \<Longrightarrow> bridge_ok E s \<Longrightarrow> bridge_ok E t \<and> store_le (sv_store (bs_svc s)) (sv_store (bs_svc t))"
proof (induction rule: rtranclp_induct)
  case (step t u)
  then show ?case using bridge_step_ok store_le_trans by blast
qed (simp add: store_le_refl)

section \<open>One run for one recovery\<close>

lemma distinct_filter_one: "distinct (map f xs) \<Longrightarrow> x \<in> set xs \<Longrightarrow> filter (\<lambda>y. f y = f x) xs = [x]"
proof (induction xs)
  case (Cons a xs)
  then have "f a \<notin> f ` set xs" by simp
  then have new: "\<forall>y \<in> set xs. f y \<noteq> f a" by (metis image_eqI)
  show ?case
  proof (cases "x = a")
    case True
    then show ?thesis using new by (simp add: filter_empty_conv)
  next
    case False
    then have "f a \<noteq> f x" using new Cons.prems(2) by auto
    then show ?thesis using False Cons by simp
  qed
qed simp

text \<open>C38. Recovery of a run, retried by any gateway any number of times with pieces interleaved, requests and answers
  lost and gateways crashing, creates at most one run of the sidecar for the run it recovers: the one whose identity is
  derived from the recovery event. Whatever run the event is linked to, and whatever run a caller is told, is that run,
  and the sidecar has it.\<close>

theorem recovery_run_is_unique:
  assumes "(bridge_step E)\<^sup>*\<^sup>* (new_bridge n) s"
    and "map_of (ts_recoveries (bs_tools s)) run = Some r \<or> Rec_Done run (Inr r) \<in> set (bs_calls s)" and "hr_new r = Some i"
  shows "hr_event r = recovery_id (be_hash E) run \<and> i = recovery_run E run \<and>
    map rr_id (filter (\<lambda>x. rr_key x = recovery_key E run) (st_runs (sv_store (bs_svc s)))) = [i]"
proof -
  let ?st = "sv_store (bs_svc s)"
  have ok: "bridge_ok E s" using bridge_reach [OF assms(1) new_bridge_ok] by blast
  then have "event_right E ?st run r" using assms(2) by (force simp: bridge_ok_def)
  then have event: "hr_event r = recovery_id (be_hash E) run" and i: "i = recovery_run E run"
    and "\<exists>d. run_known ?st i (recovery_key E run) d"
    using assms(3) by (auto simp: event_right_def recovered_as_def)
  then obtain x where x: "x \<in> set (st_runs ?st)" "rr_id x = i" "rr_key x = recovery_key E run" by (auto simp: run_known_def)
  have "distinct (map rr_key (st_runs ?st))" using ok by (simp add: bridge_ok_def run_inv_def store_inv_def runs_ok_def)
  then have "filter (\<lambda>y. rr_key y = recovery_key E run) (st_runs ?st) = [x]"
    using x by (simp flip: x(3) add: distinct_filter_one)
  then show ?thesis using event i x(2) by simp
qed

section \<open>A recovery whose workspace moved\<close>

text \<open>The text under a request's digest ends with the revision of the workspace, and so determines it.\<close>

definition digest_text :: "bridge_env \<Rightarrow> harness_request \<Rightarrow> string" where
  "digest_text E q =
     jdump (be_float E) True (JObj
       [(''workspace_revision'', JInt (hq_rev q)), (''context_digest'', JStr (hq_context q)), (''model_profile_digest'', JStr (hq_model q)),
        (''context_budget_digest'', JStr (hq_budget q)), (''run_limits_digest'', JStr (hq_limits q)),
        (''toolset_version'', JStr ''agent-tools-v1''), (''tool_manifest_digest'', JStr (be_manifest E))])"

lemma bridge_digest_text: "bridge_digest (be_hash E) (be_float E) (be_manifest E) q = ''sha256:'' @ be_hash E (digest_text E q)"
  by (simp only: bridge_digest_def digest_text_def)

lemma sort_key_greatest:
  fixes key :: "'a \<Rightarrow> 'k::linorder"
  assumes "\<And>x. x \<in> set xs \<Longrightarrow> key x < key a"
  shows "sort_key key (a # xs) = sort_key key xs @ [a]"
proof -
  have "insort_key key a ys = ys @ [a]" if "\<And>x. x \<in> set ys \<Longrightarrow> key x < key a" for ys
    using that
  proof (induction ys)
    case (Cons y ys)
    have "\<not> key a \<le> key y" using Cons.prems [of y] by simp
    moreover have "insort_key key a ys = ys @ [a]" by (rule Cons.IH) (use Cons.prems in simp)
    ultimately show ?case by simp
  qed simp
  from this [of "sort_key key xs"] show ?thesis using assms by simp
qed

lemma join_with_snoc: "\<exists>pre. join_with sep (xs @ [x @ '':'' @ y]) = pre @ '':'' @ y"
proof (induction xs)
  case (Cons a xs)
  then obtain pre where "join_with sep (xs @ [x @ '':'' @ y]) = pre @ '':'' @ y" by blast
  then have "join_with sep ((a # xs) @ [x @ '':'' @ y]) = (a @ sep @ pre) @ '':'' @ y" by (cases xs) simp_all
  then show ?case by blast
qed auto

lemma digest_text_ends: "\<exists>pre. digest_text E q = pre @ '':'' @ show_int (hq_rev q) @ ''}''"
proof -
  let ?d = "\<lambda>(k, v). (k, jdump (be_float E) True v)" and ?line = "\<lambda>(k, t). quoted k @ '':'' @ t"
  let ?rest = "[(''context_digest'', JStr (hq_context q)), (''model_profile_digest'', JStr (hq_model q)),
    (''context_budget_digest'', JStr (hq_budget q)), (''run_limits_digest'', JStr (hq_limits q)),
    (''toolset_version'', JStr ''agent-tools-v1''), (''tool_manifest_digest'', JStr (be_manifest E))]"
  have "fst x < ''workspace_revision''" if "x \<in> set (map ?d ?rest)" for x using that by auto
  from sort_key_greatest [of "map ?d ?rest" fst "(''workspace_revision'', show_int (hq_rev q))"] this
  have "sort_key fst (map ?d ((''workspace_revision'', JInt (hq_rev q)) # ?rest)) =
      sort_key fst (map ?d ?rest) @ [(''workspace_revision'', show_int (hq_rev q))]"
    by (simp only: list.map prod.case fst_conv jdump.simps(3))
  then have "digest_text E q = ''{'' @ join_with '','' (map ?line (sort_key fst (map ?d ?rest) @
      [(''workspace_revision'', show_int (hq_rev q))])) @ ''}''"
    unfolding digest_text_def jdump.simps(7) Let_def by (simp only: if_True)
  also have "map ?line (sort_key fst (map ?d ?rest) @ [(''workspace_revision'', show_int (hq_rev q))]) =
      map ?line (sort_key fst (map ?d ?rest)) @ [quoted ''workspace_revision'' @ '':'' @ show_int (hq_rev q)]"
    by (simp only: map_append list.map prod.case)
  finally have eq: "digest_text E q = ''{'' @ join_with '','' (map ?line (sort_key fst (map ?d ?rest)) @
      [quoted ''workspace_revision'' @ '':'' @ show_int (hq_rev q)]) @ ''}''" .
  obtain pre where "join_with '','' (map ?line (sort_key fst (map ?d ?rest)) @
      [quoted ''workspace_revision'' @ '':'' @ show_int (hq_rev q)]) = pre @ '':'' @ show_int (hq_rev q)"
    using join_with_snoc by blast
  then have "digest_text E q = (''{'' @ pre) @ '':'' @ show_int (hq_rev q) @ ''}''"
    unfolding eq by (simp only: append.assoc)
  then show ?thesis by blast
qed

lemma show_int_plain: "CHR '':'' \<notin> set (show_int n)"
  using show_nat_digits [of "CHR '':''"] by (auto simp: show_int_def is_digit_def)

lemma show_int_inject: "show_int m = show_int n \<Longrightarrow> m = n"
proof -
  have "show_nat k \<noteq> ''-'' @ t" for k t
    using show_nat_digits [of "CHR ''-''" k] by (auto simp: is_digit_def)
  then show "show_int m = show_int n \<Longrightarrow> m = n"
    by (auto simp: show_int_def split: if_splits) metis+
qed

lemma digest_text_revision: "digest_text E q = digest_text E q' \<Longrightarrow> hq_rev q = hq_rev q'"
proof -
  assume eq: "digest_text E q = digest_text E q'"
  have ends: "takeWhile (\<lambda>c. c \<noteq> CHR '':'') (rev (digest_text E p)) = CHR ''}'' # rev (show_int (hq_rev p))" for p
  proof -
    obtain pre where "digest_text E p = pre @ '':'' @ show_int (hq_rev p) @ ''}''" using digest_text_ends by blast
    then show ?thesis using show_int_plain [of "hq_rev p"] by (auto simp: takeWhile_append)
  qed
  from ends [of q] ends [of q'] eq show ?thesis by (auto dest: show_int_inject)
qed

text \<open>The sidecar refuses a request whose digest is not the one it first saw under the key.\<close>

lemma conflict_is_refused:
  assumes "run_inv (be_hash E) (sv_store v)" and "run_known (sv_store v) i (recovery_key E run) d"
    and "hq_type q = ''run_recovery''" and "hq_trigger q = recovery_id (be_hash E) run"
    and "bridge_digest (be_hash E) (be_float E) (be_manifest E) q \<noteq> d"
  shows "\<exists>er. rec_piece E inp (Rec_Post q run) (t, v) = (Rec_Done run (Inl er), t, v) \<and>
    (pi_fate inp = Delivered \<and> pi_valid inp \<longrightarrow> er = Refused)"
proof -
  obtain r where "run_by_key (sv_store v) (recovery_key E run) = Some r" "rr_digest r = d" using known_key(1) [OF assms(1,2)] by blast
  then show ?thesis using assms(3-5)
    by (auto simp: request_read [of q "''run_recovery''"] recovery_key_def post_run_def create_run_def get_by_request_def create_reply_def)
qed

text \<open>
  A recovery of the run that has come past the reading of the workspace; a step in which no request of a
  recovery of the run is made at revision \<open>rv\<close> of its workspace; and the state of a blocked recovery.
\<close>

fun past_reading :: "string \<Rightarrow> rec_phase \<Rightarrow> bool" where
  "past_reading run (Rec_Post q run') = (run' = run)"
| "past_reading run (Rec_Bind q run' i) = (run' = run)"
| "past_reading run (Rec_Activate run' i) = (run' = run)"
| "past_reading run (Rec_Link run' i) = (run' = run)"
| "past_reading run p = False"

definition moved_step :: "bridge_env \<Rightarrow> string \<Rightarrow> int \<Rightarrow> bridge_system \<Rightarrow> bridge_system \<Rightarrow> bool" where
  "moved_step E run rv s s' \<longleftrightarrow> bridge_step E s s' \<and> (\<forall>q. Rec_Post q run \<in> set (bs_calls s') \<longrightarrow> hq_rev q \<noteq> rv)"

definition unlinked :: "string \<Rightarrow> tool_store \<Rightarrow> bool" where
  "unlinked run t = (case map_of (ts_recoveries t) run of None \<Rightarrow> False | Some r \<Rightarrow> hr_new r = None \<and> hr_status r \<noteq> Created)"

fun posts_at :: "(int \<Rightarrow> bool) \<Rightarrow> string \<Rightarrow> rec_phase \<Rightarrow> bool" where
  "posts_at Q run (Rec_Post q run') = (run' = run \<longrightarrow> Q (hq_rev q))"
| "posts_at Q run p = (\<not> past_reading run p)"

definition blocked :: "bridge_env \<Rightarrow> string \<Rightarrow> int \<Rightarrow> string \<Rightarrow> string \<Rightarrow> bridge_system \<Rightarrow> bool" where
  "blocked E run rv i d s \<longleftrightarrow> bridge_ok E s \<and> run_known (sv_store (bs_svc s)) i (recovery_key E run) d \<and>
     unlinked run (bs_tools s) \<and> (\<forall>p \<in> set (bs_calls s). posts_at (\<lambda>n. n \<noteq> rv) run p)"

lemma unlinked_cong: "ts_recoveries t' = ts_recoveries t \<Longrightarrow> unlinked run t' = unlinked run t"
  by (simp add: unlinked_def)

lemma piece_unlinked:
  assumes "rec_piece E inp p (t, v) = (q, t', v')" and "unlinked run t" and "\<not> past_reading run p"
  shows "unlinked run t' \<and> (\<not> past_reading run q \<or> (\<exists>rq. q = Rec_Post rq run))"
proof (cases p)
  case (Rec_Bind rq run' i)
  then show ?thesis using assms binding_recoveries [of _ t]
    by (cases "register_run_binding (request_binding (be_hash E) (be_float E) (be_manifest E) rq i) t")
       (auto split: sum.splits dest!: arg_cong [where f = snd] simp: unlinked_def simp del: binding_recoveries)
next
  case (Rec_Begin user conv run')
  then show ?thesis using assms
    by (auto simp: get_or_create_recovery_def unlinked_def Let_def split: option.splits if_splits simp del: map_of_eq_Some_iff)
next
  case (Rec_Review run')
  then show ?thesis using assms
    by (auto simp: mark_recovery_manual_review_def unlinked_def Let_def split: option.splits if_splits simp del: map_of_eq_Some_iff)
next
  case (Rec_Link run' i)
  then show ?thesis using assms
    by (auto simp: bind_recovery_run_def unlinked_def Let_def split: option.splits if_splits simp del: map_of_eq_Some_iff)
qed (use assms in \<open>auto simp: case_prod_beta split: if_splits option.splits sum.splits\<close>)

lemma blocked_step:
  assumes "blocked E run rv i d s" and "moved_step E run rv s s'"
    and other: "\<And>q. hq_rev q \<noteq> rv \<Longrightarrow> bridge_digest (be_hash E) (be_float E) (be_manifest E) q \<noteq> d"
  shows "blocked E run rv i d s'"
proof -
  have step: "bridge_step E s s'" and rev: "\<And>q. Rec_Post q run \<in> set (bs_calls s') \<Longrightarrow> hq_rev q \<noteq> rv"
    using assms(2) by (auto simp: moved_step_def)
  have ok: "bridge_ok E s" and known: "run_known (sv_store (bs_svc s)) i (recovery_key E run) d"
    and un: "unlinked run (bs_tools s)" and calls: "\<And>p. p \<in> set (bs_calls s) \<Longrightarrow> posts_at (\<lambda>n. n \<noteq> rv) run p"
    using assms(1) by (auto simp: blocked_def)
  note next_ok = bridge_step_ok [OF step ok]
  have now_known: "run_known (sv_store (bs_svc s')) i (recovery_key E run) d"
    by (rule run_known_le [OF conjunct2 [OF next_ok] known])
  have at: "posts_at (\<lambda>n. n \<noteq> rv) run p" if "p \<in> set (bs_calls s')" "\<not> past_reading run p \<or> (\<exists>q. p = Rec_Post q run)" for p
    using that rev by (cases "(\<lambda>n::int. n \<noteq> rv, run, p)" rule: posts_at.cases) auto
  have old: "\<not> past_reading run p \<or> (\<exists>q. p = Rec_Post q run)" if "p \<in> set (bs_calls s)" for p
    using calls [OF that] by (cases "(\<lambda>n::int. n \<noteq> rv, run, p)" rule: posts_at.cases) auto
  from step have "unlinked run (bs_tools s') \<and> (\<forall>p \<in> set (bs_calls s'). \<not> past_reading run p \<or> (\<exists>q. p = Rec_Post q run))"
  proof (cases rule: bridge_step.cases)
    case (request k user conv run')
    then show ?thesis using un old by (auto dest!: set_update_subset_insert [THEN subsetD])
  next
    case (piece k inp p t v)
    have mem: "bs_calls s ! k \<in> set (bs_calls s)" using piece(2) by simp
    have "unlinked run t \<and> (\<not> past_reading run p \<or> (\<exists>q. p = Rec_Post q run))"
    proof (cases "past_reading run (bs_calls s ! k)")
      case True
      then obtain q where q: "bs_calls s ! k = Rec_Post q run" using old [OF mem] by blast
      have "phase_right E (sv_store (bs_svc s)) (Rec_Post q run)" "run_inv (be_hash E) (sv_store (bs_svc s))"
        using ok mem q by (auto simp: bridge_ok_def)
      moreover have "hq_rev q \<noteq> rv" using calls [OF mem] q by simp
      ultimately obtain er where "rec_piece E inp (Rec_Post q run) (bs_tools s, bs_svc s) = (Rec_Done run (Inl er), bs_tools s, bs_svc s)"
        using conflict_is_refused [OF _ known _ _ other, of q inp "bs_tools s"] by auto
      then have "p = Rec_Done run (Inl er)" "t = bs_tools s" using piece(3) q by (simp_all del: rec_piece.simps)
      then show ?thesis using un by simp
    next
      case False
      then show ?thesis using piece_unlinked [OF piece(3) un] by blast
    qed
    then show ?thesis using piece(1) old by (auto dest!: set_update_subset_insert [THEN subsetD])
  next
    case (crash k)
    then show ?thesis using un old by (auto dest!: set_update_subset_insert [THEN subsetD])
  next
    case (sidecar v)
    then show ?thesis using un old by simp
  next
    case (others c)
    then show ?thesis using un old unlinked_cong [OF others_recoveries [OF others(2)]] by simp
  qed
  then show ?thesis using next_ok now_known at unfolding blocked_def by blast
qed

lemma blocked_for_ever:
  assumes "(moved_step E run rv)\<^sup>*\<^sup>* s s'" and "blocked E run rv i d s"
    and other: "\<And>q. hq_rev q \<noteq> rv \<Longrightarrow> bridge_digest (be_hash E) (be_float E) (be_manifest E) q \<noteq> d"
  shows "blocked E run rv i d s'"
  using assms(1,2) by (induction rule: rtranclp_induct) (use blocked_step [OF _ _ other] in blast)+

text \<open>C39. The sidecar knows the recovery of a run by a key that holds only the original run, and refuses it under another
  digest; the gateway's digest holds the revision of the workspace. So take a reachable state in which the sidecar has
  accepted a recovery at revision \<open>rv\<close>, but the event is not linked to its run and no call still holds the answer (it
  was lost, or the gateway died in between). If the workspace has moved on, so that from then on no recovery of this
  run is asked for at revision \<open>rv\<close>, then for ever, over any steps of gateways, sidecar and network: the event is not linked to
  a run (it stays pending, or a call sends it to manual review), and every request that reaches the sidecar is
  refused and changes neither store. The hash is taken to have no other text with the digest of the
  accepted request.\<close>

theorem changed_workspace_blocks_recovery:
  assumes "(bridge_step E)\<^sup>*\<^sup>* (new_bridge n) s"
    and "run_known (sv_store (bs_svc s)) i (recovery_key E run) (bridge_digest (be_hash E) (be_float E) (be_manifest E) q0)"
    and "hq_rev q0 = rv" and "\<forall>x. be_hash E x = be_hash E (digest_text E q0) \<longrightarrow> x = digest_text E q0"
    and "unlinked run (bs_tools s)" and "list_all (\<lambda>p. \<not> past_reading run p) (bs_calls s)"
    and "(moved_step E run rv)\<^sup>*\<^sup>* s s'"
  shows "(\<exists>r. map_of (ts_recoveries (bs_tools s')) run = Some r \<and> hr_new r = None \<and> hr_status r \<in> {Pending, Manual_Review}) \<and>
    (\<forall>q inp. Rec_Post q run \<in> set (bs_calls s') \<longrightarrow>
       (\<exists>er. rec_piece E inp (Rec_Post q run) (bs_tools s', bs_svc s') = (Rec_Done run (Inl er), bs_tools s', bs_svc s') \<and>
          (pi_fate inp = Delivered \<and> pi_valid inp \<longrightarrow> er = Refused)))"
proof -
  let ?d = "bridge_digest (be_hash E) (be_float E) (be_manifest E) q0"
  have other: "bridge_digest (be_hash E) (be_float E) (be_manifest E) q \<noteq> ?d" if "hq_rev q \<noteq> rv" for q
    using assms(3,4) that digest_text_revision [of E q q0] by (auto simp: bridge_digest_text)
  have "bridge_ok E s" using bridge_reach [OF assms(1) new_bridge_ok] by blast
  moreover have "posts_at (\<lambda>n. n \<noteq> rv) run p" if "p \<in> set (bs_calls s)" for p
    using assms(6) that by (cases "(\<lambda>n::int. n \<noteq> rv, run, p)" rule: posts_at.cases) (auto simp: list_all_iff)
  ultimately have "blocked E run rv i ?d s" using assms(2,5) by (simp add: blocked_def)
  then have b: "blocked E run rv i ?d s'" by (rule blocked_for_ever [OF assms(7) _ other])
  have "\<exists>er. rec_piece E inp (Rec_Post q run) (bs_tools s', bs_svc s') = (Rec_Done run (Inl er), bs_tools s', bs_svc s') \<and>
      (pi_fate inp = Delivered \<and> pi_valid inp \<longrightarrow> er = Refused)" if mem: "Rec_Post q run \<in> set (bs_calls s')" for q inp
  proof -
    have "hq_rev q \<noteq> rv" "phase_right E (sv_store (bs_svc s')) (Rec_Post q run)" "run_inv (be_hash E) (sv_store (bs_svc s'))"
      using b mem by (fastforce simp: blocked_def bridge_ok_def)+
    then show ?thesis using conflict_is_refused [OF _ _ _ _ other, of "bs_svc s'" i run q] b by (auto simp: blocked_def)
  qed
  moreover have "\<exists>r. map_of (ts_recoveries (bs_tools s')) run = Some r \<and> hr_new r = None \<and> hr_status r \<in> {Pending, Manual_Review}"
    using b recovery_status.exhaust by (auto simp: blocked_def unlinked_def split: option.splits)
  ultimately show ?thesis by blast
qed

section \<open>Witnesses\<close>

text \<open>One gateway plays the pieces of its call in order.\<close>

fun play :: "bridge_env \<Rightarrow> piece_input list \<Rightarrow> rec_phase \<Rightarrow> stores \<Rightarrow> rec_phase \<times> stores" where
  "play E [] p w = (p, w)"
| "play E (inp # inps) p w = (case rec_piece E inp p w of (q, w') \<Rightarrow> play E inps q w')"

lemma play_reach:
  "play E inps p (t, v) = (q, t', v') \<Longrightarrow>
   (bridge_step E)\<^sup>*\<^sup>* \<lparr>bs_tools = t, bs_svc = v, bs_calls = [p]\<rparr> \<lparr>bs_tools = t', bs_svc = v', bs_calls = [q]\<rparr>"
proof (induction inps arbitrary: p t v)
  case (Cons inp inps)
  obtain q1 t1 v1 where one: "rec_piece E inp p (t, v) = (q1, t1, v1)" by (cases "rec_piece E inp p (t, v)") auto
  have "bridge_step E \<lparr>bs_tools = t, bs_svc = v, bs_calls = [p]\<rparr> \<lparr>bs_tools = t1, bs_svc = v1, bs_calls = [q1]\<rparr>"
    using bridge_step.piece [of 0 "\<lparr>bs_tools = t, bs_svc = v, bs_calls = [p]\<rparr>" E inp q1 t1 v1] one by simp
  moreover have "play E inps q1 (t1, v1) = (q, t', v')" using Cons.prems one by simp
  ultimately show ?case using Cons.IH converse_rtranclp_into_rtranclp by metis
qed simp

text \<open>A hash that keeps the texts of the requests apart.\<close>

definition request_text :: "string \<Rightarrow> bool" where
  "request_text s = (take 11 s = [CHR ''{'', CHR 0x22] @ ''context_b'')"

definition rec_hash :: "string \<Rightarrow> string" where
  "rec_hash s = replicate 63 (CHR ''a'') @ [''0123456789abcdef'' ! (length s mod 16)]"

definition keep_hash :: "string \<Rightarrow> string" where
  "keep_hash s = (if request_text s then s else rec_hash s)"

definition rec_env :: "(string \<Rightarrow> string) \<Rightarrow> bridge_env" where
  "rec_env h = \<lparr>be_hash = h, be_float = (\<lambda>_. ''0.0''), be_manifest = ''sha256:'' @ rec_hash [], be_instruction = ''recover'',
     be_model = \<lparr>mp_name = ''m'', mp_model = ''m'', mp_capability = ''1'', mp_budget = ''1''\<rparr>, be_limits = limit_resolver demo_limits\<rparr>"

definition rec_binding :: run_binding where
  "rec_binding = \<lparr>rb_run = ''run'', rb_session = ''s'', rb_user = ''u'', rb_conv = ''c'', rb_ws = ''w'', rb_rev = 9,
     rb_context = ''sha256:'' @ rec_hash [], rb_toolset = ''agent-tools-v1'', rb_manifest = ''sha256:'' @ rec_hash [],
     rb_request = ''sha256:'' @ rec_hash []\<rparr>"

definition rec_input :: "int \<Rightarrow> fate \<Rightarrow> piece_input" where
  "rec_input rv f = \<lparr>pi_messages = [\<lparr>cm_id = ''m1'', cm_conv = ''c'', cm_user = Some ''u'', cm_role = ''user'', cm_content = ''go'',
       cm_payload = JObj [(''harness_run_id'', JStr ''run'')], cm_at = 0\<rparr>],
     pi_workspace = Some (''w'', ''c'', rv), pi_fate = f, pi_now = ''t'', pi_valid = True,
     pi_skills = Inr \<lparr>sc_digest = ''d'', sc_entries = []\<rparr>, pi_engine = (''e'', ''1'')\<rparr>"

definition rec_tools :: "(string \<Rightarrow> string) \<Rightarrow> tool_store" where
  "rec_tools h = snd (tool_exec h empty_tools (Register_Binding rec_binding))"

lemma rec_start:
  "(bridge_step (rec_env h))\<^sup>*\<^sup>* (new_bridge 1) \<lparr>bs_tools = rec_tools h, bs_svc = init_service, bs_calls = [Rec_Begin ''u'' ''c'' ''run'']\<rparr>"
proof -
  let ?b = "\<lparr>bs_tools = rec_tools h, bs_svc = init_service, bs_calls = [Rec_Idle]\<rparr>"
  have "bridge_step (rec_env h) (new_bridge 1) ?b"
    using bridge_step.others [of "Register_Binding rec_binding" "rec_env h" "new_bridge 1"] by (simp add: new_bridge_def rec_tools_def rec_env_def)
  moreover have "bridge_step (rec_env h) ?b (?b\<lparr>bs_calls := [Rec_Begin ''u'' ''c'' ''run'']\<rparr>)"
    using bridge_step.request [of 0 ?b "rec_env h" "''u''" "''c''" "''run''"] by simp
  ultimately show ?thesis by (simp add: converse_rtranclp_into_rtranclp)
qed

definition rec_after :: "(string \<Rightarrow> string) \<Rightarrow> piece_input list \<Rightarrow> stores \<Rightarrow> rec_phase \<times> stores" where
  "rec_after h inps w = play (rec_env h) inps (Rec_Begin ''u'' ''c'' ''run'') w"

lemma rec_after_steps:
  assumes "rec_after h inps (t, v) = (q, t', v')"
  shows "(bridge_step (rec_env h))\<^sup>*\<^sup>* \<lparr>bs_tools = t, bs_svc = v, bs_calls = [p]\<rparr> \<lparr>bs_tools = t', bs_svc = v', bs_calls = [q]\<rparr>"
proof -
  let ?s = "\<lparr>bs_tools = t, bs_svc = v, bs_calls = [p]\<rparr>"
  have "bridge_step (rec_env h) ?s \<lparr>bs_tools = t, bs_svc = v, bs_calls = [Rec_Begin ''u'' ''c'' ''run'']\<rparr>"
    using bridge_step.request [of 0 ?s "rec_env h" "''u''" "''c''" "''run''"] by simp
  then show ?thesis using play_reach [OF assms [unfolded rec_after_def]] by (metis converse_rtranclp_into_rtranclp)
qed

lemmas rec_after_reach = rtranclp_trans [OF rec_start rec_after_steps]

theorem recovery_run_is_unique_witness:
  "case rec_after rec_hash (replicate 7 (rec_input 9 Delivered)) (rec_tools rec_hash, init_service) of (q, t, v) \<Rightarrow>
     (\<exists>r i. map_of (ts_recoveries t) ''run'' = Some r \<and> hr_new r = Some i \<and> i = recovery_run (rec_env rec_hash) ''run'' \<and>
       map rr_id (filter (\<lambda>x. rr_key x = recovery_key (rec_env rec_hash) ''run'') (st_runs (sv_store v))) = [i])"
proof -
  obtain q t v where play: "rec_after rec_hash (replicate 7 (rec_input 9 Delivered)) (rec_tools rec_hash, init_service) = (q, t, v)"
    by (cases "rec_after rec_hash (replicate 7 (rec_input 9 Delivered)) (rec_tools rec_hash, init_service)") auto
  have "map_option (\<lambda>r. hr_new r \<noteq> None) (map_of (ts_recoveries (fst (snd (rec_after rec_hash (replicate 7 (rec_input 9 Delivered)) (rec_tools rec_hash, init_service))))) ''run'') =
      Some True"
    by code_simp
  then obtain r i where r: "map_of (ts_recoveries t) ''run'' = Some r" "hr_new r = Some i" using play by (auto simp del: map_of_eq_Some_iff)
  then show ?thesis
    using recovery_run_is_unique [OF rec_after_reach [OF play], of "''run''" r i] play by simp
qed

abbreviation keep_env :: bridge_env where
  "keep_env \<equiv> rec_env keep_hash"

definition rec_lost :: "rec_phase \<times> stores" where
  "rec_lost = rec_after keep_hash (replicate 4 (rec_input 9 Lost_After)) (rec_tools keep_hash, init_service)"

definition rec_again :: "rec_phase \<times> stores" where
  "rec_again = rec_after keep_hash (replicate 3 (rec_input 10 Delivered)) (snd rec_lost)"

definition known_digest :: "store \<Rightarrow> string \<Rightarrow> (string \<times> string) option" where
  "known_digest s key = map_option (\<lambda>r. (rr_id r, rr_digest r)) (run_by_key s key)"

lemma known_digest: "known_digest s key = Some (i, d) \<Longrightarrow> run_known s i key d"
  using find_Some_in [of "\<lambda>r. rr_key r = key"] by (fastforce simp: known_digest_def run_known_def run_by_key_def)

text \<open>The first recovery is accepted, but its answer is lost; then the workspace moves to its next revision.\<close>

definition rec_asked :: "rec_phase \<times> stores" where
  "rec_asked = rec_after keep_hash (replicate 3 (rec_input 9 Lost_After)) (rec_tools keep_hash, init_service)"

lemma rec_accepted:
  "(case (rec_asked, rec_lost) of
      ((Rec_Post q run, w), Rec_Done run' er, t, v) \<Rightarrow>
        run = ''run'' \<and> hq_rev q = 9 \<and> request_text (digest_text keep_env q) \<and> unlinked ''run'' t \<and>
        map_option snd (known_digest (sv_store v) (recovery_key keep_env ''run'')) =
          Some (bridge_digest (be_hash keep_env) (be_float keep_env) (be_manifest keep_env) q)
    | _ \<Rightarrow> False)"
  by code_simp

lemma rec_posted: "(case rec_again of (Rec_Post q run, t, v) \<Rightarrow> run = ''run'' | _ \<Rightarrow> False)"
  by code_simp

lemma keep_hash_keeps: "request_text t \<Longrightarrow> keep_hash x = keep_hash t \<Longrightarrow> x = t"
proof (cases "request_text x")
  case False
  assume "request_text t" "keep_hash x = keep_hash t"
  then have "take 11 (replicate 63 (CHR ''a'') @ [''0123456789abcdef'' ! (length x mod 16)]) = [CHR ''{'', CHR 0x22] @ ''context_b''"
    using False by (simp add: keep_hash_def rec_hash_def request_text_def)
  moreover have "take 11 (replicate 63 (CHR ''a'') @ z) = replicate 11 (CHR ''a'')" for z by simp
  ultimately have "hd (replicate 11 (CHR ''a'')) = hd ([CHR ''{'', CHR 0x22] @ ''context_b'')" by metis
  then show ?thesis by simp
qed (simp add: keep_hash_def)

lemma piece_posts:
  assumes "rec_piece E inp p (t, v) = (Rec_Post q run, w)"
  shows "\<exists>ws owner. pi_workspace inp = Some (ws, owner, hq_rev q)"
proof (cases p)
  case (Rec_Read user conv run' r)
  then show ?thesis using assms by (auto dest!: recovery_request_of split: option.splits if_splits sum.splits)
qed (use assms in \<open>auto simp: post_run_def post_activation_def case_prod_beta split: if_splits option.splits sum.splits prod.splits\<close>)

text \<open>Pieces that read the workspace at other revisions.\<close>

lemma play_moved:
  assumes "play E inps p (t, v) = (q, t', v')" and "\<forall>inp \<in> set inps. \<forall>ws owner. pi_workspace inp \<noteq> Some (ws, owner, rv)"
  shows "(moved_step E run rv)\<^sup>*\<^sup>* \<lparr>bs_tools = t, bs_svc = v, bs_calls = [p]\<rparr> \<lparr>bs_tools = t', bs_svc = v', bs_calls = [q]\<rparr>"
  using assms
proof (induction inps arbitrary: p t v)
  case (Cons inp inps)
  obtain q1 t1 v1 where one: "rec_piece E inp p (t, v) = (q1, t1, v1)" by (cases "rec_piece E inp p (t, v)") auto
  have "hq_rev x \<noteq> rv" if "q1 = Rec_Post x run" for x
    using piece_posts [of E inp p t v x run "(t1, v1)"] one that Cons.prems(2) by auto
  then have "moved_step E run rv \<lparr>bs_tools = t, bs_svc = v, bs_calls = [p]\<rparr> \<lparr>bs_tools = t1, bs_svc = v1, bs_calls = [q1]\<rparr>"
    using bridge_step.piece [of 0 "\<lparr>bs_tools = t, bs_svc = v, bs_calls = [p]\<rparr>" E inp q1 t1 v1] one by (auto simp: moved_step_def)
  moreover have "play E inps q1 (t1, v1) = (q, t', v')" using Cons.prems(1) one by simp
  ultimately show ?case using Cons.IH Cons.prems(2) converse_rtranclp_into_rtranclp by (metis list.set_intros(2))
qed simp

theorem changed_workspace_blocks_recovery_witness:
  "case rec_again of (p, t, v) \<Rightarrow>
     (\<exists>r. map_of (ts_recoveries t) ''run'' = Some r \<and> hr_new r = None) \<and>
     rec_piece keep_env (rec_input 10 Delivered) p (t, v) = (Rec_Done ''run'' (Inl Refused), t, v)"
proof -
  obtain p1 t1 v1 where lost: "rec_lost = (p1, t1, v1)" by (cases rec_lost) auto
  obtain p t v where again: "rec_again = (p, t, v)" by (cases rec_again) auto
  obtain q where q: "p = Rec_Post q ''run''" using rec_posted [unfolded again] by (cases p) simp_all
  obtain q0 run' er where q0: "hq_rev q0 = 9" "request_text (digest_text keep_env q0)" "p1 = Rec_Done run' er" "unlinked ''run'' t1"
    and "map_option snd (known_digest (sv_store v1) (recovery_key keep_env ''run'')) =
      Some (bridge_digest (be_hash keep_env) (be_float keep_env) (be_manifest keep_env) q0)"
    using rec_accepted unfolding lost by (auto split: prod.splits rec_phase.splits)
  then obtain i where known: "run_known (sv_store v1) i (recovery_key keep_env ''run'')
      (bridge_digest (be_hash keep_env) (be_float keep_env) (be_manifest keep_env) q0)"
    using known_digest by fastforce
  let ?s = "\<lparr>bs_tools = t1, bs_svc = v1, bs_calls = [p1]\<rparr>" and ?s' = "\<lparr>bs_tools = t, bs_svc = v, bs_calls = [p]\<rparr>"
  let ?b = "\<lparr>bs_tools = t1, bs_svc = v1, bs_calls = [Rec_Begin ''u'' ''c'' ''run'']\<rparr>"
  have first: "(bridge_step keep_env)\<^sup>*\<^sup>* (new_bridge 1) ?s"
    by (rule rec_after_reach [where inps = "replicate 4 (rec_input 9 Lost_After)"]) (use lost in \<open>simp add: rec_lost_def\<close>)
  have "moved_step keep_env ''run'' 9 ?s ?b"
    using bridge_step.request [of 0 ?s keep_env "''u''" "''c''" "''run''"] by (simp add: moved_step_def)
  moreover have "(moved_step keep_env ''run'' 9)\<^sup>*\<^sup>* ?b ?s'"
    by (rule play_moved [where inps = "replicate 3 (rec_input 10 Delivered)"])
      (use again in \<open>auto simp: rec_again_def rec_after_def lost rec_input_def\<close>)
  ultimately have second: "(moved_step keep_env ''run'' 9)\<^sup>*\<^sup>* ?s ?s'" by (rule converse_rtranclp_into_rtranclp)
  have hash: "\<forall>x. be_hash keep_env x = be_hash keep_env (digest_text keep_env q0) \<longrightarrow> x = digest_text keep_env q0"
    using keep_hash_keeps [OF q0(2)] by (simp add: rec_env_def)
  have "(\<exists>r. map_of (ts_recoveries (bs_tools ?s')) ''run'' = Some r \<and> hr_new r = None \<and> hr_status r \<in> {Pending, Manual_Review}) \<and>
    (\<forall>q inp. Rec_Post q ''run'' \<in> set (bs_calls ?s') \<longrightarrow>
       (\<exists>er. rec_piece keep_env inp (Rec_Post q ''run'') (bs_tools ?s', bs_svc ?s') = (Rec_Done ''run'' (Inl er), bs_tools ?s', bs_svc ?s') \<and>
          (pi_fate inp = Delivered \<and> pi_valid inp \<longrightarrow> er = Refused)))"
    by (rule changed_workspace_blocks_recovery [OF first _ q0(1) hash _ _ second]) (use known q0(3,4) in simp_all)
  then have "\<exists>r. map_of (ts_recoveries t) ''run'' = Some r \<and> hr_new r = None"
    and "\<exists>er. rec_piece keep_env (rec_input 10 Delivered) p (t, v) = (Rec_Done ''run'' (Inl er), t, v) \<and>
      (pi_fate (rec_input 10 Delivered) = Delivered \<and> pi_valid (rec_input 10 Delivered) \<longrightarrow> er = Refused)"
    by (auto simp: q simp del: rec_piece.simps)
  then show ?thesis by (auto simp: again rec_input_def simp del: rec_piece.simps)
qed

end
