(* ===== verification/Spec2Isabelle.thy ===== *)
theory Spec2Isabelle
  imports Sidecar_Claims Jobs_Claims Tool_Claims Tool_Outputs Gateway_Claims Harness_Claims Video_Claims Turn_Claims Conversation_Claims Registration_Claims Memory_Claims Bridge_Claims
begin

text \<open>
  Verification of the core of PixelFlow, a service in which an agent produces videos for a user. Paths
  below are under \<^verbatim>\<open>src/backend/pixelflow/\<close> unless they start with \<^verbatim>\<open>sidecar/\<close>, which stands for
  \<^verbatim>\<open>src/services/pixelflow-agent-harness/src/pixelflow_harness_sidecar/\<close>.

  \<^bold>\<open>The program.\<close> The browser talks to the Gateway (\<^verbatim>\<open>src/backend/app/gateway\<close>). A message of the
  user starts a run: the Gateway freezes the skills and the request and sends them to the sidecar, a
  separate process that drives the language model and keeps the log of the run in SQLite. The Gateway's
  projector follows that log and writes the public events of the conversation to its own outbox, from
  which the browser's stream and the delivery workers read. While it runs, the model calls tools through
  the Gateway's broker; a tool reads and patches the video workspace of the conversation, saves plans and
  moves their steps, and may order long generation jobs, which a worker submits, polls and projects back
  into the workspace.

  \<^bold>\<open>Sidecar\<close> (\<open>Skills\<close>, \<open>Sidecar_Store\<close>, \<open>Sidecar_Replay\<close>, \<open>Sidecar_Runs\<close>, \<open>Sidecar_Claims\<close>).
  \<open>store\<close> is the three tables of \<^verbatim>\<open>sidecar/event_store.py\<close>; \<open>create_or_get\<close>,
  \<open>start_if_accepted\<close>, \<open>append\<close>, \<open>transition\<close>, \<open>cancel\<close> and the others are
  its methods, and \<open>store_exec\<close> a session of them. \<open>Sidecar_Runs\<close> is
  \<^verbatim>\<open>sidecar/run_service.py\<close>: a run is executed piece by piece between its awaits, against an engine
  that is a parameter. \<open>Skills\<close> is \<^verbatim>\<open>sidecar/skill_snapshot.py\<close>. The lemmas show that the log
  of a run is gapless, that a run starts and ends at most once and never changes after its end, that a
  client can resume anywhere, that creation is idempotent and that a restart closes what was open. A replay
  (\<open>events_after\<close>) builds the event contracts and raises when a stored event is not valid; what a client
  then holds is a proper prefix of the log. The
  store is an instance of \<open>monotone_machine\<close>, so these hold along every session.

  \<^bold>\<open>Generation jobs\<close> (\<open>Jobs\<close>, \<open>Jobs_Port\<close>, \<open>Jobs_Sessions\<close>, \<open>Job_Projector\<close>,
  \<open>Jobs_Worker\<close>, \<open>Jobs_Claims\<close>). \<open>job\<close> is the record of \<^verbatim>\<open>generation_jobs/contracts.py\<close>,
  \<open>mem_port\<close> and \<open>sql_port\<close> are the two classes of \<^verbatim>\<open>generation_jobs/repository.py\<close>. The
  locale \<open>job_repository\<close> states what both promise about leases and fencing and is interpreted on
  both; \<open>Jobs_Worker\<close> is one pass of \<^verbatim>\<open>generation_jobs/worker.py\<close>, with every error branch, over
  any such repository. The builders of the patches raise on malformed payloads (type \<open>py\<close>), outside the
  worker's \<^verbatim>\<open>try\<close>: \<open>finish_job\<close> is then an exception after the job was closed. Shown: leases exclude other
  workers, closed jobs are final, every answer of a provider settles its job and a turn raises only after closing it,
  and the patches of \<^verbatim>\<open>generation_jobs/projector.py\<close> close their own entries.

  \<^bold>\<open>Tools\<close> (\<open>Tool_Store\<close>, \<open>Tool_Laws\<close>, \<open>Tool_Registry\<close>, \<open>Tool_Broker\<close>,
  \<open>Tool_System\<close>, \<open>Tool_Replay\<close>, \<open>Tool_Claims\<close>, \<open>Tool_Outputs\<close>).
  \<open>Tool_Store\<close> is \<^verbatim>\<open>agent_tools/repository.py\<close> (bindings of runs, ledger of calls, interrupts,
  recovery events); \<open>Tool_Registry\<close> is \<^verbatim>\<open>agent_tools/video/registry.py\<close> with the executor of
  \<^verbatim>\<open>video/services/tool_executor.py\<close>; \<open>Tool_Broker\<close> is \<^verbatim>\<open>agent_tools/broker.py\<close>, a call cut
  at its awaits into pieces. \<open>Tool_System\<close> interleaves any number of calls with confirmations,
  deposits of credentials, other writers, cancellations and restarts, and keeps the executions and deposits
  in history variables. Shown over every interleaving: no key executes twice, nothing that costs executes
  without a confirmation, a credential pays once and a closed call is replayed; a lemma bounds the pieces of
  a call by six.

  \<^bold>\<open>Event outbox and projection\<close> (\<open>Gateway_Events\<close>, \<open>Gateway_Outbox\<close>,
  \<open>Gateway_Claims\<close>, \<open>Harness_Projector\<close>, \<open>Harness_Laws\<close>, \<open>Harness_Claims\<close>).
  \<open>mem_create_event\<close> and \<open>sql_create_event\<close> and their companions are the event methods of the
  two classes of \<^verbatim>\<open>agent_control_plane/persistence/repositories.py\<close>. The abstract outbox is the list of
  the events in the order of their arrival; both classes refine it (\<open>event_outbox\<close>), which gives
  their equivalence. \<open>Harness_Projector\<close> is \<^verbatim>\<open>agent_harness/projector.py\<close> as a state machine whose
  steps are cut at the awaits; \<open>Harness_Laws\<close> proves, from the contract of the outbox alone, that the events
  it has published (those with an identity of the sidecar; the Gateway adds its own interrupt events to the run) are
  the mapped images of a prefix of the log of the sidecar under any interleaving with restarts. The payload of an image is
  what the contract \<^verbatim>\<open>AgentEvent\<close> leaves of it (\<open>contract_json\<close>).

  \<^bold>\<open>Video workspaces\<close> (\<open>Workspace_Payload\<close>, \<open>Video_Store\<close>, \<open>Video_Plans\<close>,
  \<open>Video_Steps\<close>, \<open>Video_Laws\<close>, \<open>Video_Contract\<close>, \<open>Video_Changes\<close>,
  \<open>Video_Sql\<close>, \<open>Video_Sql_Laws\<close>, \<open>Video_Repositories\<close>, \<open>Video_Scenes\<close>,
  \<open>Video_Claims\<close>). \<open>video_store\<close> is the state of
  \<^verbatim>\<open>video/workspace/memory_repository.py\<close>, its methods are in \<open>Video_Store\<close>
  (workspaces), \<open>Video_Plans\<close> and \<open>Video_Steps\<close>, with the transition lock as a flag: a call that
  waits for a lock nobody will release is the outcome \<open>Hangs\<close>. \<open>sql_video\<close> is the state of
  \<^verbatim>\<open>video/workspace/sql_repository.py\<close>, whose methods are transactions. The abstract contract is
  \<open>changes\<close>: a command is a sequence of row changes along the status tables, seen by owner; the
  locale \<open>video_repository\<close> proves what follows for a session and is interpreted on both classes and
  on their union \<open>video_repo\<close>. \<open>Workspace_Payload\<close> is the payload functions both classes carry
  (\<^verbatim>\<open>video/workspace/payload.py\<close> and the merges), \<open>Video_Scenes\<close> what a patch does to scenes. A patched payload
  is stored as the contract \<^verbatim>\<open>VideoWorkspace\<close> leaves it, with every string and key stripped.

  \<^bold>\<open>Turn queue\<close> (\<open>Turn_Queue\<close>, \<open>Turn_Laws\<close>, \<open>Turn_Mem_Laws\<close>,
  \<open>Turn_Sql\<close>, \<open>Turn_Sql_Laws\<close>, \<open>Turn_Claims\<close>). The inputs of the user (turns) and the
  lease under which a conversation is compacted: the turn methods of
  \<^verbatim>\<open>agent_control_plane/persistence/repositories.py\<close> and \<^verbatim>\<open>compaction_queue.py\<close>.
  \<open>mem_queue\<close> and \<open>sql_queue\<close> are the states of the two classes, whose methods read alike;
  \<open>queue\<close> is what a reader sees of either, \<open>queue_move\<close> the moves that are allowed on it
  (labelled with what they add, start or take), and the locale \<open>turn_queue\<close> says that a command is a
  sequence of moves with the labels of \<open>tags\<close>. Both classes and their union are instances; from the
  moves alone follow mutual exclusion, order, fencing and idempotence.

  \<^bold>\<open>Conversations\<close> (\<open>Conversations\<close>, \<open>Conversation_Stores\<close>, \<open>Conversation_Laws\<close>,
  \<open>Conversation_Claims\<close>). The conversations and messages of \<^verbatim>\<open>tasks/store.py\<close>: \<open>Conversations\<close> is
  what both stores share (the context and its server fields, the merge of draft jobs, the edits of an update
  and the revision check, the page after a cursor, which is a text the client sends back), \<open>mem_tasks\<close> and \<open>sql_tasks\<close> are the states of the
  two classes, \<open>conv_cmd\<close> their commands. The locale \<open>conversation_store\<close> says that a command keeps a
  conversation up to \<open>conv_le\<close> (the revision never falls and tells every change of the content) and that a
  client leaves the server's fields alone; both classes, their union and the registry below are instances.

  \<^bold>\<open>Registration of inputs\<close> (\<open>Turn_Registration\<close>, \<open>Registration_Laws\<close>,
  \<open>Registration_Claims\<close>). \<^verbatim>\<open>agent_control_plane/persistence/turn_registration.py\<close> composes the two
  components: an input is stored as a message, a turn and two events, and the conversation moves to its next
  version. \<open>sql_registry\<close> is the tables of both, \<open>reg_exec\<close> runs queue commands, conversation commands
  and registrations in any order; it is an instance of \<open>turn_queue\<close> and of \<open>conversation_store\<close>, so
  that a registration can rely on both contracts. Shown: a registration is all or nothing, a known input is
  answered with its turn for ever, and registered inputs run one at a time in the order of the inbox, in SQL. In
  memory the rollback, the answer to a known input and the order can fail, which three lemmas show.

  \<^bold>\<open>Long-term memory\<close> (\<open>Memory_Outbox\<close>, \<open>Memory_Claims\<close>). \<open>mem0_add\<close> and its companions are the
  calls of \<^verbatim>\<open>long_term_memory/service.py\<close>, over a parameter that answers requests; \<open>writes\<close> is the table of
  \<^verbatim>\<open>long_term_memory/outbox.py\<close>, \<open>claim_write\<close> to \<open>requeue_write\<close> its transactions and \<open>write_piece\<close> the
  pieces of a pass of its worker. \<open>memory_exec\<close> interleaves any number of workers, which may share a name, with
  restarts, new writes and releases by the users, and records what was submitted. Shown: nothing is submitted twice
  unless its owner asked for it, completed writes are final, and a worker runs out of work.

  \<^bold>\<open>Admission and recovery of runs\<close> (\<open>Run_Admission\<close>, \<open>Run_Bridge\<close>, \<open>Bridge_Claims\<close>). The budgets of a run (\<^verbatim>\<open>agent_harness/limits.py\<close>,
  \<^verbatim>\<open>model_profile.py\<close>) and the switch all gateways share (\<^verbatim>\<open>admission.py\<close>), a row with a revision: budgets
  are bounded, and a decision taken on an old revision is ignored. \<open>Run_Bridge\<close> joins the store of the tools and
  the sidecar: \<open>rec_piece\<close> is \<^verbatim>\<open>agent_harness/recovery.py\<close> over the client of \<^verbatim>\<open>sidecar.py\<close> and the routes
  of \<^verbatim>\<open>sidecar/app.py\<close>, and \<open>bridge_step\<close> interleaves any number of recoveries, which crash and whose requests
  or answers get lost, with all other steps of both sides. Shown: one run of the sidecar recovers a run, and a
  recovery that was accepted but not linked is refused for ever once the workspace has moved on.

  \<^bold>\<open>Shared.\<close> \<open>Prelude\<close> holds Python's dictionaries, strings and results (an error or a value) and
  the contracts of stateful operations (\<open>machine\<close>, \<open>atomic_machine\<close>,
  \<open>monotone_machine\<close>); \<open>Json\<close> and \<open>Json_Text\<close> are JSON values, their access functions, what a Pydantic contract
  with \<^verbatim>\<open>str_strip_whitespace\<close> makes of them (\<open>contract_json\<close>) and their canonical text; \<open>Sha256\<close> computes digests on 32-bit words; \<open>Tables\<close> is rows with unique
  keys; \<open>Workspace_Port\<close> is what the worker and the executor use of a workspace.

  \<^bold>\<open>Conventions.\<close> A Python \<^verbatim>\<open>int\<close> that cannot be negative is a \<^verbatim>\<open>nat\<close>, a time is an \<^verbatim>\<open>int\<close>
  in a fixed unit, a \<^verbatim>\<open>dict\<close> is an association list in insertion order, every raised exception is a
  value of the component's error type. A statement of SQL runs in a transaction that either commits or
  leaves the tables alone. Code between two awaits of one event loop is one step. Functions of libraries
  (uuid5, repr of objects, pydantic models of tool arguments, URL canonicalisation, the clock) are
  parameters, in records such as \<open>video_env\<close>.

  \<^bold>\<open>Bounds.\<close> No model uses fuel to cut a computation short: loops are structural recursions, and
  the retry loops end by the attempts the code allows (three for the projection of a job, eight for a
  registration,
  \<open>max_tries\<close>, eight, for the projector's reconnects). Limits of the code (200 messages, 256 events
  per page, six claims per pass, 512 characters per chunk, 2000 per summary) are in the definitions as the
  code has them.

  \<^bold>\<open>Not modelled.\<close> HTTP, JWT and CSRF handling, the routers and the middleware (glue around the
  repositories above); the engines and providers (\<^verbatim>\<open>sidecar/deepseek_engine.py\<close>,
  \<^verbatim>\<open>capabilities/\<close>, \<^verbatim>\<open>chat_model/\<close>): calls of remote services, parameters here; the handlers of the
  individual tools (\<^verbatim>\<open>agent_tools/video/*.py\<close>), which call those services and build prompts, and are
  the environment of the executor; \<^verbatim>\<open>commit_legacy_upgrade\<close>, a one-off migration; the background loops
  and shutdown paths, which repeat the modelled passes; logging and tracing. Not modelled yet: the workflows and summaries of the runtime repository, the
  service that creates generation jobs, the digest of a workspace and the tasks,
  assets, session contexts and traces of the task store.
\<close>

end
